(* ===== verification/Fleet_Prelude.thy ===== *)
theory Fleet_Prelude
  imports Main
begin

text \<open>
  Shared material of the development: the collections the component proofs draw on, the
  part of the JavaScript standard library the sources use on strings and objects, and the
  lemmas about them.

  Strings are lists of 8-bit characters: a source string is read as its UTF-8 bytes. The
  code modelled here inspects ASCII characters only, so the reading agrees with the
  UTF-16 one wherever it looks. A JavaScript object or \<open>Map\<close> whose keys are not array
  indices keeps its keys in insertion order: it is an association list with distinct keys.
\<close>

named_theorems frame_simps \<open>what an operation leaves unchanged\<close>
named_theorems inv_intros \<open>preservation of the components' invariants\<close>

section \<open>Non-ASCII characters of the rendered messages\<close>

definition em_dash :: string where
  "em_dash = [CHR 0xE2, CHR 0x80, CHR 0x94]"

definition right_arrow :: string where
  "right_arrow = [CHR 0xE2, CHR 0x86, CHR 0x92]"

section \<open>Strings\<close>

fun starts_with :: "string \<Rightarrow> string \<Rightarrow> bool" where
  "starts_with s [] = True"
| "starts_with [] (c # cs) = False"
| "starts_with (d # s) (c # cs) = (d = c \<and> starts_with s cs)"

lemma starts_with_append [simp]: "starts_with (p @ s) p"
  by (induction p) auto

lemma starts_with_iff: "starts_with s p \<longleftrightarrow> (\<exists>t. s = p @ t)"
  by (induction s p rule: starts_with.induct) auto

lemma starts_with_refl [simp]: "starts_with s s"
  by (induction s) auto

lemma starts_with_comparable:
  assumes "starts_with s p" and "starts_with s q"
  shows "starts_with p q \<or> starts_with q p"
proof -
  from assms(1) obtain t where t: "s = p @ t" unfolding starts_with_iff by blast
  from assms(2) obtain u where u: "s = q @ u" unfolding starts_with_iff by blast
  from t u have "p @ t = q @ u" by simp
  then show ?thesis
    by (auto simp: starts_with_iff append_eq_append_conv2)
qed

text \<open>JavaScript's \<open>trim\<close>, on the ASCII white space.\<close>

definition js_space :: "char \<Rightarrow> bool" where
  "js_space c \<longleftrightarrow> c \<in> {CHR 0x09, CHR 0x0A, CHR 0x0B, CHR 0x0C, CHR 0x0D, CHR 0x20}"

definition js_trim :: "string \<Rightarrow> string" where
  "js_trim s = rev (dropWhile js_space (rev (dropWhile js_space s)))"

lemma js_trim_Nil [simp]: "js_trim [] = []"
  by (simp add: js_trim_def)

lemma dropWhile_idem: "dropWhile P (dropWhile P s) = dropWhile P s"
  by (induction s) auto

lemma dropWhile_rev_dropWhile:
  "dropWhile P (rev (dropWhile P (rev (dropWhile P s)))) = rev (dropWhile P (rev (dropWhile P s)))"
proof (cases "dropWhile P s")
  case Nil
  show ?thesis by (simp only: Nil list.simps rev.simps dropWhile.simps)
next
  case (Cons a t)
  then have a: "\<not> P a" using hd_dropWhile [of P s] by auto
  then have "dropWhile P (rev t @ [a]) = dropWhile P (rev t) @ [a]"
    by (induction "rev t" arbitrary: t) (auto simp: dropWhile_append)
  then have "hd (rev (dropWhile P (rev (a # t)))) = a"
    by (simp add: hd_append)
  with a Cons show ?thesis by (simp add: dropWhile_eq_self_iff)
qed

lemma js_trim_idem [simp]: "js_trim (js_trim s) = js_trim s"
  by (simp add: js_trim_def dropWhile_rev_dropWhile dropWhile_idem)

lemma js_trim_id:
  assumes "\<And>c. c \<in> set s \<Longrightarrow> \<not> js_space c"
  shows "js_trim s = s"
proof -
  have "dropWhile js_space t = t" if "set t \<subseteq> set s" for t
    using that assms by (cases t) auto
  then show ?thesis by (simp add: js_trim_def)
qed

text \<open>\<open>s.split(c)\<close> for a one-character separator.\<close>

fun split_on :: "char \<Rightarrow> string \<Rightarrow> string list" where
  "split_on c [] = [[]]"
| "split_on c (x # xs) =
     (if x = c then [] # split_on c xs
      else (case split_on c xs of [] \<Rightarrow> [[x]] | w # ws \<Rightarrow> (x # w) # ws))"

fun join_with :: "string \<Rightarrow> string list \<Rightarrow> string" where
  "join_with sep [] = []"
| "join_with sep [w] = w"
| "join_with sep (w # v # ws) = w @ sep @ join_with sep (v # ws)"

lemma split_on_not_Nil [simp]: "split_on c s \<noteq> []"
  by (induction s) (auto split: list.splits)

lemma split_on_plain: "c \<notin> set w \<Longrightarrow> split_on c w = [w]"
  by (induction w) auto

lemma split_on_append: "c \<notin> set w \<Longrightarrow> split_on c (w @ c # s) = w # split_on c s"
  by (induction w) auto

lemma split_join:
  "ws \<noteq> [] \<Longrightarrow> (\<And>w. w \<in> set ws \<Longrightarrow> c \<notin> set w) \<Longrightarrow> split_on c (join_with [c] ws) = ws"
proof (induction "[c]" ws rule: join_with.induct)
  case (2 w)
  then show ?case by (simp add: split_on_plain)
next
  case (3 w v ws)
  then have "split_on c (join_with [c] (v # ws)) = v # ws" by simp
  with "3.prems" show ?case by (simp add: split_on_append)
qed simp

lemma join_with_Cons: "ws \<noteq> [] \<Longrightarrow> join_with sep (w # ws) = w @ sep @ join_with sep ws"
  by (cases ws) auto

lemma join_with_Cons_char: "join_with sep ((x # w) # ws) = x # join_with sep (w # ws)"
  by (cases ws) auto

lemma join_split [simp]: "join_with [c] (split_on c s) = s"
proof (induction s)
  case (Cons x xs)
  show ?case
  proof (cases "split_on c xs")
    case (Cons w ws)
    with Cons.IH show ?thesis by (auto simp: join_with_Cons_char join_with_Cons)
  qed simp
qed simp

text \<open>\<open>toUpperCase\<close> on ASCII letters; HTTP method names hold no others.\<close>

definition to_upper :: "string \<Rightarrow> string" where
  "to_upper s = map (\<lambda>c. let n = of_char c :: nat in
     if 97 \<le> n \<and> n \<le> 122 then char_of (n - 32) else c) s"

text \<open>\<open>toLowerCase\<close> on ASCII letters.\<close>

definition to_lower :: "string \<Rightarrow> string" where
  "to_lower s = map (\<lambda>c. let n = of_char c :: nat in
     if 65 \<le> n \<and> n \<le> 90 then char_of (n + 32) else c) s"

text \<open>Decimal rendering of integers (\<open>String(n)\<close>).\<close>

definition digit_char :: "nat \<Rightarrow> char" where
  "digit_char d = ''0123456789'' ! d"

fun string_of_nat :: "nat \<Rightarrow> string" where
  "string_of_nat n =
     (if n < 10 then [digit_char n] else string_of_nat (n div 10) @ [digit_char (n mod 10)])"

declare string_of_nat.simps [simp del]

definition string_of_int :: "int \<Rightarrow> string" where
  "string_of_int i = (if i < 0 then ''-'' @ string_of_nat (nat (- i)) else string_of_nat (nat i))"

definition digit_value :: "char \<Rightarrow> nat option" where
  "digit_value c =
     (let n = of_char c :: nat in if 48 \<le> n \<and> n \<le> 57 then Some (n - 48) else None)"

abbreviation is_digit :: "char \<Rightarrow> bool" where
  "is_digit c \<equiv> digit_value c \<noteq> None"

fun nat_of_digits :: "nat \<Rightarrow> string \<Rightarrow> nat" where
  "nat_of_digits acc [] = acc"
| "nat_of_digits acc (c # cs) =
     nat_of_digits (10 * acc + (case digit_value c of None \<Rightarrow> 0 | Some d \<Rightarrow> d)) cs"

lemma digit_value_char: "d < 10 \<Longrightarrow> digit_value (digit_char d) = Some d"
proof -
  assume "d < 10"
  then have "d \<in> set [0 ..< 10]" by simp
  then show ?thesis
    by (auto simp: upt_rec digit_value_def digit_char_def)
qed

lemma nat_of_digits_append: "nat_of_digits a (s @ t) = nat_of_digits (nat_of_digits a s) t"
  by (induction s arbitrary: a) auto

lemma nat_of_digits_string_of_nat [simp]: "nat_of_digits 0 (string_of_nat n) = n"
proof (induction n rule: string_of_nat.induct)
  case (1 n)
  show ?case
  proof (cases "n < 10")
    case True
    then show ?thesis by (simp add: string_of_nat.simps [of n] digit_value_char)
  next
    case False
    with "1" show ?thesis
      by (simp add: string_of_nat.simps [of n] nat_of_digits_append digit_value_char)
  qed
qed

lemma string_of_nat_digits: "\<forall>c \<in> set (string_of_nat n). is_digit c"
proof (induction n rule: string_of_nat.induct)
  case (1 n)
  show ?case
  proof (cases "n < 10")
    case True
    then show ?thesis by (simp add: string_of_nat.simps [of n] digit_value_char)
  next
    case False
    with "1" show ?thesis
      by (simp add: string_of_nat.simps [of n] digit_value_char)
  qed
qed

lemma string_of_nat_not_Nil [simp]: "string_of_nat n \<noteq> []"
  by (subst string_of_nat.simps) simp

lemma string_of_nat_inject [simp]: "string_of_nat m = string_of_nat n \<longleftrightarrow> m = n"
  by (metis nat_of_digits_string_of_nat)

text \<open>\<open>new Date(ms).toISOString()\<close>: the proleptic Gregorian calendar date of an epoch
  millisecond (the day count shifted to an era that starts on 1 March of year 0).\<close>

definition civil_of_days :: "int \<Rightarrow> int \<times> int \<times> int" where
  "civil_of_days days =
     (let z = days + 719468;
          era = z div 146097;
          doe = z mod 146097;
          yoe = (doe - doe div 1460 + doe div 36524 - doe div 146096) div 365;
          doy = doe - (365 * yoe + yoe div 4 - yoe div 100);
          mp = (5 * doy + 2) div 153;
          d = doy - (153 * mp + 2) div 5 + 1;
          m = (if mp < 10 then mp + 3 else mp - 9);
          y = yoe + era * 400 + (if m \<le> 2 then 1 else 0)
      in (y, m, d))"

definition pad_left :: "nat \<Rightarrow> int \<Rightarrow> string" where
  "pad_left w i = (let s = string_of_int i in replicate (w - length s) (CHR ''0'') @ s)"

definition iso_year :: "int \<Rightarrow> string" where
  "iso_year y =
     (if 0 \<le> y \<and> y \<le> 9999 then pad_left 4 y
      else if y < 0 then ''-'' @ pad_left 6 (- y) else ''+'' @ pad_left 6 y)"

definition to_iso_string :: "int \<Rightarrow> string" where
  "to_iso_string ms =
     (let (y, m, d) = civil_of_days (ms div 86400000);
          r = ms mod 86400000
      in iso_year y @ ''-'' @ pad_left 2 m @ ''-'' @ pad_left 2 d @ ''T''
         @ pad_left 2 (r div 3600000) @ '':'' @ pad_left 2 (r div 60000 mod 60) @ '':''
         @ pad_left 2 (r div 1000 mod 60) @ ''.'' @ pad_left 3 (r mod 1000) @ ''Z'')"

section \<open>Objects and maps in insertion order\<close>

type_synonym 'v obj = "(string \<times> 'v) list"

text \<open>\<open>m[k] = v\<close> / \<open>m.set(k, v)\<close>: an existing key keeps its place, a new one goes last.\<close>

fun obj_set :: "('k \<times> 'v) list \<Rightarrow> 'k \<Rightarrow> 'v \<Rightarrow> ('k \<times> 'v) list" where
  "obj_set [] k v = [(k, v)]"
| "obj_set ((k', v') # m) k v = (if k' = k then (k, v) # m else (k', v') # obj_set m k v)"

definition obj_del :: "('k \<times> 'v) list \<Rightarrow> 'k \<Rightarrow> ('k \<times> 'v) list" where
  "obj_del m k = filter (\<lambda>e. fst e \<noteq> k) m"

abbreviation obj_get :: "('k \<times> 'v) list \<Rightarrow> 'k \<Rightarrow> 'v option" where
  "obj_get m k \<equiv> map_of m k"

abbreviation obj_has :: "('k \<times> 'v) list \<Rightarrow> 'k \<Rightarrow> bool" where
  "obj_has m k \<equiv> k \<in> fst ` set m"

definition obj_wf :: "('k \<times> 'v) list \<Rightarrow> bool" where
  "obj_wf m \<longleftrightarrow> distinct (map fst m)"

lemma obj_get_set [simp]: "obj_get (obj_set m k v) k' = (if k' = k then Some v else obj_get m k')"
  by (induction m k v rule: obj_set.induct) auto

lemma obj_keys_set: "fst ` set (obj_set m k v) = insert k (fst ` set m)"
  by (induction m k v rule: obj_set.induct) auto

lemma obj_has_set [simp]: "obj_has (obj_set m k v) k' \<longleftrightarrow> k' = k \<or> obj_has m k'"
  by (simp add: obj_keys_set)

lemma obj_get_del [simp]: "obj_get (obj_del m k) k' = (if k' = k then None else obj_get m k')"
  by (induction m) (auto simp: obj_del_def)

lemma obj_has_del [simp]: "obj_has (obj_del m k) k' \<longleftrightarrow> k' \<noteq> k \<and> obj_has m k'"
  by (force simp: obj_del_def)

lemma obj_wf_Nil [simp]: "obj_wf []"
  by (simp add: obj_wf_def)

lemma obj_wf_set [simp, intro]: "obj_wf m \<Longrightarrow> obj_wf (obj_set m k v)"
proof (induction m k v rule: obj_set.induct)
  case (2 k' v' m k v)
  have "fst ` set (obj_set m k v) = insert k (fst ` set m)" by (rule obj_keys_set)
  with "2" show ?case by (auto simp: obj_wf_def)
qed (simp add: obj_wf_def)

lemma obj_wf_del [simp, intro]: "obj_wf m \<Longrightarrow> obj_wf (obj_del m k)"
  by (simp add: obj_wf_def obj_del_def distinct_map_filter)

lemma obj_get_None_iff: "obj_get m k = None \<longleftrightarrow> \<not> obj_has m k"
  by (simp add: map_of_eq_None_iff)

lemma obj_set_fresh: "\<not> obj_has m k \<Longrightarrow> obj_set m k v = m @ [(k, v)]"
  by (induction m k v rule: obj_set.induct) auto

lemma foldl_obj_set_append:
  assumes "distinct (map fst (m @ es))"
  shows "foldl (\<lambda>m e. obj_set m (fst e) (snd e)) m es = m @ es"
  using assms
proof (induction es arbitrary: m)
  case (Cons e es)
  then have "\<not> obj_has m (fst e)" by auto
  then have "obj_set m (fst e) (snd e) = m @ [e]" by (simp add: obj_set_fresh)
  with Cons show ?case by simp
qed simp

section \<open>Sets in insertion order\<close>

definition set_add :: "'a \<Rightarrow> 'a list \<Rightarrow> 'a list" where
  "set_add x xs = (if x \<in> set xs then xs else xs @ [x])"

definition set_delete :: "'a \<Rightarrow> 'a list \<Rightarrow> 'a list" where
  "set_delete x xs = filter (\<lambda>y. y \<noteq> x) xs"

lemma set_set_add [simp]: "set (set_add x xs) = insert x (set xs)"
  by (auto simp: set_add_def)

lemma set_set_delete [simp]: "set (set_delete x xs) = set xs - {x}"
  by (auto simp: set_delete_def)

lemma distinct_set_add [simp]: "distinct xs \<Longrightarrow> distinct (set_add x xs)"
  by (simp add: set_add_def)

section \<open>Options\<close>

definition or_else :: "'a option \<Rightarrow> 'a \<Rightarrow> 'a" where
  "or_else opt d = (case opt of None \<Rightarrow> d | Some x \<Rightarrow> x)"

lemma or_else_simps [simp]: "or_else None d = d" "or_else (Some x) d = x"
  by (simp_all add: or_else_def)

section \<open>Searching\<close>

lemma find_SomeD: "find P xs = Some x \<Longrightarrow> x \<in> set xs \<and> P x"
  by (induction xs) (auto split: if_splits)

lemma set_map_filter: "y \<in> set (List.map_filter f xs) \<longleftrightarrow> (\<exists>x \<in> set xs. f x = Some y)"
  by (induction xs) (auto simp: map_filter_simps split: option.splits)

lemma find_exists: "x \<in> set xs \<Longrightarrow> P x \<Longrightarrow> \<exists>y. find P xs = Some y"
  by (induction xs) auto

end
