(* ===== verification/Attach_State.thy ===== *)
theory Attach_State
  imports Fleet_Prelude
begin

text \<open>
  The attach-state record and the mode machine, its sole writer
  (\<open>packages/extension/src/amicode_service/attach_state.ts\<close>, class \<open>ModeMachine\<close>).

  The record is an open JavaScript object: a map from field names to field values. A
  field value is \<open>undefined\<close>, a string, or any other value by its identity (the code
  never looks into one; it only copies it and compares it with \<open>===\<close>, which on objects
  is identity). Reading an absent field gives \<open>undefined\<close>. The clock readings that the
  injected \<open>now\<close> delivers are arguments of the operations. A listener of the structural
  surface is a number; emitting a signal returns the listeners it notifies, in order.
\<close>

section \<open>Vocabulary\<close>

datatype attach_mode = Standalone | Fleet

datatype attach_posture = Ok | Degraded | HubDown

datatype legacy_state = LegacyFleet | LegacyDegraded | LegacyStandalone

fun mode_name :: "attach_mode \<Rightarrow> string" where
  "mode_name Standalone = ''standalone''"
| "mode_name Fleet = ''fleet''"

fun posture_name :: "attach_posture \<Rightarrow> string" where
  "posture_name Ok = ''ok''"
| "posture_name Degraded = ''degraded''"
| "posture_name HubDown = ''hub-down''"

fun legacy_name :: "legacy_state \<Rightarrow> string" where
  "legacy_name LegacyFleet = ''fleet''"
| "legacy_name LegacyDegraded = ''degraded''"
| "legacy_name LegacyStandalone = ''standalone''"

definition mode_of_name :: "string \<Rightarrow> attach_mode option" where
  "mode_of_name s =
     (if s = ''standalone'' then Some Standalone else if s = ''fleet'' then Some Fleet else None)"

definition posture_of_name :: "string \<Rightarrow> attach_posture option" where
  "posture_of_name s =
     (if s = ''ok'' then Some Ok
      else if s = ''degraded'' then Some Degraded
      else if s = ''hub-down'' then Some HubDown else None)"

lemma mode_of_mode_name [simp]: "mode_of_name (mode_name m) = Some m"
  by (cases m) (simp_all add: mode_of_name_def)

lemma posture_of_posture_name [simp]: "posture_of_name (posture_name p) = Some p"
  by (cases p) (simp_all add: posture_of_name_def)

lemma mode_name_inject [simp]: "mode_name m = mode_name n \<longleftrightarrow> m = n"
  by (cases m; cases n) simp_all

lemma legacy_name_inject [simp]: "legacy_name m = legacy_name n \<longleftrightarrow> m = n"
  by (cases m; cases n) simp_all

section \<open>The record and its reading\<close>

datatype field_value = Undefined | Text string | Opaque nat

type_synonym attach_record = "string \<rightharpoonup> field_value"
type_synonym field_patch = "(string \<times> field_value) list"

definition field_of :: "attach_record \<Rightarrow> string \<Rightarrow> field_value" where
  "field_of r k = (case r k of None \<Rightarrow> Undefined | Some v \<Rightarrow> v)"

definition mode_field :: "attach_record \<Rightarrow> attach_mode option" where
  "mode_field r = (case field_of r ''mode'' of Text s \<Rightarrow> mode_of_name s | _ \<Rightarrow> None)"

definition posture_field :: "attach_record \<Rightarrow> attach_posture option" where
  "posture_field r = (case field_of r ''posture'' of Text s \<Rightarrow> posture_of_name s | _ \<Rightarrow> None)"

text \<open>\<open>resolveAttachState\<close>: the new fields win; the frozen \<open>state\<close> field is mapped; a value
  outside the closed vocabularies reads as absent.\<close>

definition resolve_mode :: "attach_record \<Rightarrow> attach_mode" where
  "resolve_mode r =
     (case mode_field r of
        Some m \<Rightarrow> m
      | None \<Rightarrow>
          if field_of r ''state'' = Text ''fleet'' \<or> field_of r ''state'' = Text ''degraded''
          then Fleet else Standalone)"

definition resolve_posture :: "attach_record \<Rightarrow> attach_posture" where
  "resolve_posture r =
     (case posture_field r of
        Some p \<Rightarrow> p
      | None \<Rightarrow>
          if field_of r ''state'' = Text ''degraded'' then Degraded
          else if field_of r ''state'' = Text ''standalone'' then HubDown
          else Ok)"

record resolved_state =
  rmode :: attach_mode
  rposture :: attach_posture

definition resolve_attach_state :: "attach_record \<Rightarrow> resolved_state" where
  "resolve_attach_state r = \<lparr>rmode = resolve_mode r, rposture = resolve_posture r\<rparr>"

text \<open>\<open>legacyStateOf\<close>. The restore path passes it a field value that need not be a mode, so
  the comparison with \<open>"standalone"\<close> is on field values.\<close>

definition legacy_of_value :: "field_value \<Rightarrow> attach_posture \<Rightarrow> legacy_state" where
  "legacy_of_value mode posture =
     (if mode = Text ''standalone'' then LegacyStandalone
      else (case posture of Ok \<Rightarrow> LegacyFleet | Degraded \<Rightarrow> LegacyDegraded | HubDown \<Rightarrow> LegacyStandalone))"

definition legacy_state_of :: "attach_mode \<Rightarrow> attach_posture \<Rightarrow> legacy_state" where
  "legacy_state_of mode posture = legacy_of_value (Text (mode_name mode)) posture"

lemma legacy_state_of_simps [simp]:
  "legacy_state_of Standalone p = LegacyStandalone"
  "legacy_state_of Fleet Ok = LegacyFleet"
  "legacy_state_of Fleet Degraded = LegacyDegraded"
  "legacy_state_of Fleet HubDown = LegacyStandalone"
  by (simp_all add: legacy_state_of_def legacy_of_value_def)

definition merge_attach_state :: "attach_record \<Rightarrow> field_patch \<Rightarrow> attach_record" where
  "merge_attach_state r patch = foldl (\<lambda>m (k, v). m(k \<mapsto> v)) r patch"

lemma merge_simps [simp]:
  "merge_attach_state r [] = r"
  "merge_attach_state r ((k, v) # p) = merge_attach_state (r(k \<mapsto> v)) p"
  by (simp_all add: merge_attach_state_def)

lemma merge_other: "k \<notin> fst ` set p \<Longrightarrow> merge_attach_state r p k = r k"
  by (induction p arbitrary: r) (auto simp: merge_attach_state_def)

lemma field_of_merge_other: "k \<notin> fst ` set p \<Longrightarrow> field_of (merge_attach_state r p) k = field_of r k"
  by (simp add: field_of_def merge_other)

lemma field_of_upd [simp]: "field_of (r(k \<mapsto> v)) k' = (if k' = k then v else field_of r k')"
  by (simp add: field_of_def)

lemma mode_field_upd [simp]:
  "mode_field (r(k \<mapsto> v)) =
     (if k = ''mode'' then (case v of Text s \<Rightarrow> mode_of_name s | _ \<Rightarrow> None) else mode_field r)"
  by (auto simp: mode_field_def)

lemma posture_field_upd [simp]:
  "posture_field (r(k \<mapsto> v)) =
     (if k = ''posture'' then (case v of Text s \<Rightarrow> posture_of_name s | _ \<Rightarrow> None) else posture_field r)"
  by (auto simp: posture_field_def)

lemma resolve_mode_cong:
  "mode_field r = mode_field r' \<Longrightarrow> field_of r ''state'' = field_of r' ''state'' \<Longrightarrow>
   resolve_mode r = resolve_mode r'"
  by (simp add: resolve_mode_def)

lemma resolve_posture_cong:
  "posture_field r = posture_field r' \<Longrightarrow> field_of r ''state'' = field_of r' ''state'' \<Longrightarrow>
   resolve_posture r = resolve_posture r'"
  by (simp add: resolve_posture_def)

section \<open>Logs and journal\<close>

datatype signal_class = AuthRevoked | ModeChangedElsewhere | PresumedStructural

record structural_signal =
  sig_class :: signal_class
  sig_detail :: "string option"
  sig_at :: string

datatype writer = Transport | HumanConfirm | Overlay | Restore

datatype written_field = PostureField | ModeField | OverlayFields

text \<open>The written value is kept as the field value that \<open>String\<close> renders.\<close>

record write_entry =
  w_writer :: writer
  w_field :: written_field
  w_value :: "field_value option"
  w_at :: string
  w_reason :: "string option"

record snapshot =
  snap_mode :: attach_mode
  snap_fields :: field_patch

record proposal =
  prop_id :: string
  prop_from :: attach_mode
  prop_to :: attach_mode
  prop_reason :: "string option"
  prop_apply :: "field_patch option"
  prop_scoped :: "string list"

datatype verify_kind = PassKind | TransientKind | StructuralKind

datatype resolve_action = Abort | Resume

datatype resolve_via = Force | CapChoice

datatype journal_entry =
    JConfirm attach_mode string "string option"
  | JStage attach_mode attach_mode snapshot proposal string "string option"
  | JVerify verify_kind "string option" string
  | JPending attach_mode snapshot proposal int string
  | JCommit attach_mode string
  | JRollback attach_mode string "string option"
  | JResolve resolve_action resolve_via string

section \<open>The mode machine\<close>

record machine =
  record_value :: attach_record
  writes :: "write_entry list"
  journal_entries :: "journal_entry list"
  structural_log :: "structural_signal list"
  structural_listeners :: "nat list"

definition new_machine :: "attach_record \<Rightarrow> machine" where
  "new_machine initial =
     \<lparr>record_value = initial, writes = [], journal_entries = [], structural_log = [],
      structural_listeners = []\<rparr>"

definition resolve :: "machine \<Rightarrow> resolved_state" where
  "resolve m = resolve_attach_state (record_value m)"

definition write_posture :: "attach_posture \<Rightarrow> string \<Rightarrow> string \<Rightarrow> machine \<Rightarrow> machine" where
  "write_posture posture reason now m =
     (let mode = rmode (resolve m)
      in m\<lparr>record_value := merge_attach_state (record_value m)
             [(''posture'', Text (posture_name posture)),
              (''state'', Text (legacy_name (legacy_state_of mode posture)))],
           writes := writes m @ [\<lparr>w_writer = Transport, w_field = PostureField,
             w_value = Some (Text (posture_name posture)), w_at = now, w_reason = Some reason\<rparr>]\<rparr>)"

definition confirm_mode :: "attach_mode \<Rightarrow> string option \<Rightarrow> string \<Rightarrow> machine \<Rightarrow> machine" where
  "confirm_mode mode reason now m =
     (let posture = rposture (resolve m)
      in m\<lparr>record_value := merge_attach_state (record_value m)
             [(''mode'', Text (mode_name mode)),
              (''state'', Text (legacy_name (legacy_state_of mode posture)))],
           writes := writes m @ [\<lparr>w_writer = HumanConfirm, w_field = ModeField,
             w_value = Some (Text (mode_name mode)), w_at = now, w_reason = reason\<rparr>],
           journal_entries := journal_entries m @ [JConfirm mode now reason]\<rparr>)"

definition machine_owned_fields :: "string list" where
  "machine_owned_fields = [''mode'', ''posture'', ''state'']"

definition overlay_rewrite :: "field_patch \<Rightarrow> string \<Rightarrow> machine \<Rightarrow> machine" where
  "overlay_rewrite patch now m =
     (let data_only = filter (\<lambda>(k, v). k \<notin> set machine_owned_fields) patch
      in m\<lparr>record_value := merge_attach_state (record_value m) data_only,
           writes := writes m @ [\<lparr>w_writer = Overlay, w_field = OverlayFields, w_value = None,
             w_at = now, w_reason = None\<rparr>]\<rparr>)"

text \<open>One field of \<open>restoreModeScoped\<close>: a value that is already there is not written; a
  restored mode takes the legacy projection with it.\<close>

definition restore_reason :: string where
  "restore_reason =
     ''restoreModeScoped: invariant 1's rollback exemption (restores, never advances)''"

definition restore_field ::
  "string \<Rightarrow> string \<times> field_value \<Rightarrow> machine \<times> string list \<Rightarrow> machine \<times> string list" where
  "restore_field now fv mr =
     (let (field, val) = fv; (m, restored) = mr;
          same = (if field = ''mode'' then Text (mode_name (rmode (resolve m))) = val
                  else field_of (record_value m) field = val);
          patch = (if field = ''mode''
                   then [(field, val),
                         (''state'', Text (legacy_name (legacy_of_value val (rposture (resolve m)))))]
                   else [(field, val)])
      in if same then (m, restored)
         else (m\<lparr>record_value := merge_attach_state (record_value m) patch,
                 writes := writes m @ [\<lparr>w_writer = Restore,
                   w_field = (if field = ''mode'' then ModeField else OverlayFields),
                   w_value = (if field = ''mode'' then Some val else None),
                   w_at = now, w_reason = Some restore_reason\<rparr>]\<rparr>,
               restored @ [field]))"

datatype machine_error = PostureNeverModeScoped

definition restore_mode_scoped ::
  "field_patch \<Rightarrow> string \<Rightarrow> machine \<Rightarrow> machine_error + (machine \<times> string list)" where
  "restore_mode_scoped fs now m =
     (if obj_has fs ''posture'' then Inl PostureNeverModeScoped
      else Inr (foldl (\<lambda>mr fv. restore_field now fv mr) (m, []) fs))"

definition hub_down_pointer :: string where
  "hub_down_pointer =
     ''hub-down: the hub is unreachable '' @ em_dash @ '' the base standalone posture is running; ''
     @ ''fleet data is honestly unavailable and recoverable''"

record machine_read =
  read_state :: resolved_state
  read_record :: attach_record
  read_pointer :: "string option"

definition read_machine :: "machine \<Rightarrow> machine_read" where
  "read_machine m =
     \<lparr>read_state = resolve m, read_record = record_value m,
      read_pointer = (if rposture (resolve m) = HubDown then Some hub_down_pointer else None)\<rparr>"

definition transport_mode_write_count :: "machine \<Rightarrow> nat" where
  "transport_mode_write_count m =
     length (filter (\<lambda>w. w_writer w = Transport \<and> w_field w = ModeField) (writes m))"

definition append_journal :: "journal_entry \<Rightarrow> machine \<Rightarrow> machine" where
  "append_journal e m = m\<lparr>journal_entries := journal_entries m @ [e]\<rparr>"

text \<open>Emitting stamps and logs the signal and notifies the listeners present; nothing else.\<close>

definition emit_structural ::
  "signal_class \<Rightarrow> string option \<Rightarrow> string \<Rightarrow> machine \<Rightarrow> machine \<times> structural_signal \<times> nat list" where
  "emit_structural cls detail now m =
     (let signal = \<lparr>sig_class = cls, sig_detail = detail, sig_at = now\<rparr>
      in (m\<lparr>structural_log := structural_log m @ [signal]\<rparr>, signal, structural_listeners m))"

definition on_structural :: "nat \<Rightarrow> machine \<Rightarrow> machine" where
  "on_structural cb m = m\<lparr>structural_listeners := structural_listeners m @ [cb]\<rparr>"

definition off_structural :: "nat \<Rightarrow> machine \<Rightarrow> machine" where
  "off_structural cb m = m\<lparr>structural_listeners := remove1 cb (structural_listeners m)\<rparr>"

section \<open>What each write leaves alone\<close>

lemma write_posture_frame [frame_simps]:
  "journal_entries (write_posture p reason now m) = journal_entries m"
  "structural_log (write_posture p reason now m) = structural_log m"
  "structural_listeners (write_posture p reason now m) = structural_listeners m"
  "mode_field (record_value (write_posture p reason now m)) = mode_field (record_value m)"
  by (simp_all add: write_posture_def Let_def)

lemma confirm_mode_frame [frame_simps]:
  "journal_entries (confirm_mode mode reason now m) = journal_entries m @ [JConfirm mode now reason]"
  "structural_log (confirm_mode mode reason now m) = structural_log m"
  "structural_listeners (confirm_mode mode reason now m) = structural_listeners m"
  "posture_field (record_value (confirm_mode mode reason now m)) = posture_field (record_value m)"
  by (simp_all add: confirm_mode_def Let_def)

lemma overlay_rewrite_frame [frame_simps]:
  "journal_entries (overlay_rewrite patch now m) = journal_entries m"
  "structural_log (overlay_rewrite patch now m) = structural_log m"
  "structural_listeners (overlay_rewrite patch now m) = structural_listeners m"
  by (simp_all add: overlay_rewrite_def Let_def)

lemma overlay_rewrite_owned:
  assumes "k \<in> set machine_owned_fields"
  shows "field_of (record_value (overlay_rewrite patch now m)) k = field_of (record_value m) k"
proof -
  have "k \<notin> fst ` set (filter (\<lambda>(k, v). k \<notin> set machine_owned_fields) patch)"
    using assms by auto
  then show ?thesis by (simp add: overlay_rewrite_def Let_def field_of_merge_other)
qed

lemma overlay_rewrite_mode [frame_simps]:
  "mode_field (record_value (overlay_rewrite patch now m)) = mode_field (record_value m)"
  by (simp add: mode_field_def overlay_rewrite_owned machine_owned_fields_def)

lemma overlay_rewrite_posture [frame_simps]:
  "posture_field (record_value (overlay_rewrite patch now m)) = posture_field (record_value m)"
  by (simp add: posture_field_def overlay_rewrite_owned machine_owned_fields_def)

lemma overlay_rewrite_resolve [frame_simps]: "resolve (overlay_rewrite patch now m) = resolve m"
  by (simp add: resolve_def resolve_attach_state_def resolve_mode_def resolve_posture_def
      overlay_rewrite_mode overlay_rewrite_posture overlay_rewrite_owned machine_owned_fields_def)

lemma emit_structural_frame [frame_simps]:
  "record_value (fst (emit_structural cls d now m)) = record_value m"
  "writes (fst (emit_structural cls d now m)) = writes m"
  "journal_entries (fst (emit_structural cls d now m)) = journal_entries m"
  "resolve (fst (emit_structural cls d now m)) = resolve m"
  by (simp_all add: emit_structural_def Let_def resolve_def)

lemma append_journal_frame [frame_simps]:
  "record_value (append_journal e m) = record_value m"
  "writes (append_journal e m) = writes m"
  "structural_log (append_journal e m) = structural_log m"
  "journal_entries (append_journal e m) = journal_entries m @ [e]"
  "resolve (append_journal e m) = resolve m"
  by (simp_all add: append_journal_def resolve_def)

section \<open>Reading what was written\<close>

lemma resolve_write_posture_posture [simp]:
  "rposture (resolve (write_posture p reason now m)) = p"
  by (simp add: resolve_def resolve_attach_state_def write_posture_def Let_def resolve_posture_def)

lemma resolve_write_posture_mode:
  "rmode (resolve (write_posture p reason now m)) =
     (if mode_field (record_value m) = None \<and> p = HubDown then Standalone else rmode (resolve m))"
proof (cases "mode_field (record_value m)")
  case (Some a)
  then show ?thesis
    by (simp add: resolve_def resolve_attach_state_def write_posture_def Let_def resolve_mode_def)
next
  case None
  then show ?thesis
    by (cases p; cases "resolve_mode (record_value m)")
      (simp_all add: resolve_def resolve_attach_state_def write_posture_def Let_def resolve_mode_def
        split: if_splits)
qed

lemma resolve_confirm_mode_mode [simp]:
  "rmode (resolve (confirm_mode mode reason now m)) = mode"
  by (simp add: resolve_def resolve_attach_state_def confirm_mode_def Let_def resolve_mode_def)

lemma mode_field_confirm_mode [simp]:
  "mode_field (record_value (confirm_mode mode reason now m)) = Some mode"
  by (simp add: confirm_mode_def Let_def)

lemma resolve_confirm_mode_posture:
  "rposture (resolve (confirm_mode mode reason now m)) =
     (if posture_field (record_value m) = None \<and> mode = Standalone then HubDown
      else rposture (resolve m))"
proof (cases "posture_field (record_value m)")
  case (Some a)
  then show ?thesis
    by (simp add: resolve_def resolve_attach_state_def confirm_mode_def Let_def resolve_posture_def)
next
  case None
  then show ?thesis
    by (cases mode; cases "resolve_posture (record_value m)")
      (simp_all add: resolve_def resolve_attach_state_def confirm_mode_def Let_def resolve_posture_def
        split: if_splits)
qed

section \<open>Restoring\<close>

lemma restore_field_frame:
  "journal_entries (fst (restore_field now fv mr)) = journal_entries (fst mr)"
  "structural_log (fst (restore_field now fv mr)) = structural_log (fst mr)"
  "structural_listeners (fst (restore_field now fv mr)) = structural_listeners (fst mr)"
  by (simp_all add: restore_field_def Let_def split: prod.splits)

lemma restore_fold_frame:
  "journal_entries (fst (foldl (\<lambda>mr fv. restore_field now fv mr) mr fs)) = journal_entries (fst mr)"
  "structural_log (fst (foldl (\<lambda>mr fv. restore_field now fv mr) mr fs)) = structural_log (fst mr)"
  "structural_listeners (fst (foldl (\<lambda>mr fv. restore_field now fv mr) mr fs))
     = structural_listeners (fst mr)"
  by (induction fs arbitrary: mr) (simp_all add: restore_field_frame)

lemma restore_mode_scoped_frame:
  assumes "restore_mode_scoped fs now m = Inr (m', restored)"
  shows "journal_entries m' = journal_entries m" "structural_log m' = structural_log m"
    "structural_listeners m' = structural_listeners m"
proof -
  from assms have "m' = fst (foldl (\<lambda>mr fv. restore_field now fv mr) (m, []) fs)"
    by (simp add: restore_mode_scoped_def split: if_splits)
  then show "journal_entries m' = journal_entries m" "structural_log m' = structural_log m"
    "structural_listeners m' = structural_listeners m"
    by (simp_all add: restore_fold_frame)
qed

text \<open>A field other than the mode is in place once it has been restored; restoring leaves the
  fields it does not name alone (a restored mode also moves \<open>state\<close>).\<close>

lemma restore_field_value:
  "field \<noteq> ''mode'' \<Longrightarrow>
   field_of (record_value (fst (restore_field now (field, v) mr))) field = v"
  by (cases mr) (simp add: restore_field_def Let_def)

lemma restore_field_other:
  "k \<noteq> field \<Longrightarrow> \<not> (field = ''mode'' \<and> k = ''state'') \<Longrightarrow>
   field_of (record_value (fst (restore_field now (field, v) mr))) k = field_of (record_value (fst mr)) k"
  by (cases mr) (auto simp: restore_field_def Let_def)

lemma restore_field_mode_resolved:
  "rmode (resolve (fst (restore_field now (''mode'', Text (mode_name md)) mr))) = md"
  by (cases mr)
    (auto simp: restore_field_def Let_def resolve_def resolve_attach_state_def resolve_mode_def)

lemma restore_fold_other:
  assumes "k \<notin> fst ` set fs" and "''mode'' \<notin> fst ` set fs"
  shows "field_of (record_value (fst (foldl (\<lambda>mr fv. restore_field now fv mr) mr fs))) k
    = field_of (record_value (fst mr)) k"
  using assms
proof (induction fs arbitrary: mr)
  case (Cons fv fs)
  obtain f v where fv: "fv = (f, v)" by (cases fv)
  from Cons.prems fv
  have "field_of (record_value (fst (restore_field now (f, v) mr))) k = field_of (record_value (fst mr)) k"
    by (intro restore_field_other) auto
  with Cons fv show ?case by simp
qed simp

lemma restore_fold_value:
  assumes "(k, v) \<in> set fs" and "distinct (map fst fs)" and "''mode'' \<notin> fst ` set fs"
  shows "field_of (record_value (fst (foldl (\<lambda>mr fv. restore_field now fv mr) mr fs))) k = v"
  using assms
proof (induction fs arbitrary: mr)
  case (Cons fv fs)
  show ?case
  proof (cases "fv = (k, v)")
    case True
    with Cons.prems have "k \<notin> fst ` set fs" and "k \<noteq> ''mode''" and "''mode'' \<notin> fst ` set fs"
      by auto
    with True show ?thesis by (simp add: restore_fold_other restore_field_value)
  next
    case False
    with Cons show ?thesis by auto
  qed
qed simp

text \<open>The fields of a snapshot that the engine took: the mode comes first, every other field
  once (\<open>state\<close> among them).\<close>

definition snapshot_shape :: "attach_mode \<Rightarrow> field_patch \<Rightarrow> bool" where
  "snapshot_shape md fs \<longleftrightarrow>
     (\<exists>rest. fs = (''mode'', Text (mode_name md)) # rest \<and> distinct (map fst fs)
        \<and> ''posture'' \<notin> fst ` set fs)"

lemma restore_idle:
  assumes "''mode'' \<notin> fst ` set fs"
    and "\<And>k v. (k, v) \<in> set fs \<Longrightarrow> field_of (record_value m) k = v"
  shows "foldl (\<lambda>mr fv. restore_field now fv mr) (m, acc) fs = (m, acc)"
  using assms
proof (induction fs)
  case (Cons fv fs)
  obtain f v where fv: "fv = (f, v)" by (cases fv)
  with Cons.prems have "restore_field now fv (m, acc) = (m, acc)"
    by (auto simp: restore_field_def Let_def)
  with Cons show ?case by auto
qed simp

end
