(* ===== verification/Mode_Engine.thy ===== *)
theory Mode_Engine
  imports Attach_State
begin

text \<open>
  The two-phase mode-transition engine (\<open>attach_state.ts\<close>, class \<open>ModeTransitionEngine\<close>):
  stage, verify, commit over the mode machine, journalled and able to roll back.

  An operation takes the pair of the engine's state and the machine's, and gives an error
  (the exception thrown, nothing changed) or the new pair with the operation's result. The
  calls of the commit-window hook are recorded in \<open>window_log\<close>, in order. The readings of the
  engine's millisecond clock and of the machine's string clock during one synchronous
  operation are an argument; so are the random identifier of a proposal and the answers of
  the kill hooks.
\<close>

section \<open>State\<close>

datatype engine_state = Idle | Staged | Verified | CommitPending | Committed | RolledBack

datatype kill_point = PreCommit | MidCommit

datatype window_phase = WindowOpen | WindowClosed

record engine =
  e_state :: engine_state
  halted_at :: "kill_point option"
  e_proposal :: "proposal option"
  e_snapshot :: "snapshot option"
  pending_since :: "int option"
  window_open :: bool
  window_log :: "(window_phase \<times> string) list"
  verify_budget_ms :: int
  pending_cap_ms :: int

record instant =
  clock_ms :: int
  machine_now :: string

type_synonym sys = "engine \<times> machine"

datatype engine_error =
    InFlight engine_state
  | AlreadyInMode attach_mode
  | PostureScoped
  | NothingStaged engine_state
  | DrainFailed
  | NotVerified engine_state
  | NothingToResume engine_state
  | NoPending engine_state
  | CapNotElapsed int
  | NoRollback engine_state
  | MissingValue
  | MachineRefused machine_error

definition now_iso :: "instant \<Rightarrow> string" where
  "now_iso t = to_iso_string (clock_ms t)"

definition verify_budget_floor_ms :: int where
  "verify_budget_floor_ms = 60000"

definition default_pending_cap_ms :: int where
  "default_pending_cap_ms = 300000"

definition in_flight :: "engine_state \<Rightarrow> bool" where
  "in_flight st \<longleftrightarrow> st \<in> {Staged, Verified, CommitPending}"

section \<open>The commit window and recovery\<close>

definition fire_window :: "window_phase \<Rightarrow> string \<Rightarrow> engine \<Rightarrow> engine" where
  "fire_window phase reason e =
     (if phase = WindowOpen \<and> window_open e then e
      else if phase = WindowClosed \<and> \<not> window_open e then e
      else e\<lparr>window_open := (phase = WindowOpen), window_log := window_log e @ [(phase, reason)]\<rparr>)"

fun scan_pending ::
  "(snapshot \<times> proposal \<times> int) option \<Rightarrow> journal_entry list \<Rightarrow> (snapshot \<times> proposal \<times> int) option" where
  "scan_pending opn [] = opn"
| "scan_pending opn (JPending to snap pr since at # es) = scan_pending (Some (snap, pr, since)) es"
| "scan_pending opn (JCommit to at # es) = scan_pending None es"
| "scan_pending opn (JResolve act via at # es) = scan_pending None es"
| "scan_pending opn (_ # es) = scan_pending opn es"

abbreviation open_pending :: "machine \<Rightarrow> (snapshot \<times> proposal \<times> int) option" where
  "open_pending m \<equiv> scan_pending None (journal_entries m)"

text \<open>The reasons the window is fired with.\<close>

definition recovered_reason :: "proposal \<Rightarrow> string" where
  "recovered_reason pr =
     ''recovered commit-pending from the mode journal (transition '' @ prop_id pr @ '')''"

definition entered_reason :: "proposal \<Rightarrow> string" where
  "entered_reason pr =
     ''verify entered: transition '' @ prop_id pr @ '' ('' @ mode_name (prop_from pr)
     @ '' '' @ right_arrow @ '' '' @ mode_name (prop_to pr) @ '')''"

definition expired_reason :: string where
  "expired_reason =
     ''verify settled: budget expired (transient '' @ em_dash @ '' staged, no commit in flight)''"

definition transient_reason :: string where
  "transient_reason = ''verify settled: transient-fail (staged, no commit in flight)''"

definition committed_reason :: "proposal \<Rightarrow> string" where
  "committed_reason pr =
     ''commit resolved: committed '' @ mode_name (prop_to pr) @ '' ('' @ prop_id pr @ '')''"

definition rolled_back_reason :: "string \<Rightarrow> string" where
  "rolled_back_reason reason = ''rollback resolved: '' @ reason"

definition recover_from_journal :: "machine \<Rightarrow> engine \<Rightarrow> engine" where
  "recover_from_journal m e =
     (case open_pending m of
        None \<Rightarrow> e
      | Some (snap, pr, since) \<Rightarrow>
          fire_window WindowOpen (recovered_reason pr)
            (e\<lparr>e_state := CommitPending, halted_at := Some MidCommit, e_snapshot := Some snap,
               e_proposal := Some pr, pending_since := Some since\<rparr>))"

definition new_engine :: "int option \<Rightarrow> int option \<Rightarrow> machine \<Rightarrow> engine" where
  "new_engine budget cap m =
     recover_from_journal m
       \<lparr>e_state = Idle, halted_at = None, e_proposal = None, e_snapshot = None,
        pending_since = None, window_open = False, window_log = [],
        verify_budget_ms = max verify_budget_floor_ms (or_else budget verify_budget_floor_ms),
        pending_cap_ms = or_else cap default_pending_cap_ms\<rparr>"

section \<open>Stage\<close>

definition snapshot_fields :: "attach_record \<Rightarrow> resolved_state \<Rightarrow> string list \<Rightarrow> field_patch" where
  "snapshot_fields raw res scoped =
     foldl (\<lambda>fs f. obj_set fs f (field_of raw f))
       [(''mode'', Text (mode_name (rmode res))),
        (''state'', if field_of raw ''state'' \<noteq> Undefined then field_of raw ''state''
                    else Text (legacy_name (legacy_state_of (rmode res) (rposture res))))]
       scoped"

definition stage ::
  "attach_mode \<Rightarrow> string option \<Rightarrow> field_patch option \<Rightarrow> string list option \<Rightarrow> string \<Rightarrow> instant \<Rightarrow> sys
   \<Rightarrow> engine_error + (sys \<times> snapshot)" where
  "stage to reason apply_fields scoped_fields uuid t s =
     (let (e, m) = s; current = rmode (resolve m); scoped = or_else scoped_fields []
      in if in_flight (e_state e) then Inl (InFlight (e_state e))
         else if to = current then Inl (AlreadyInMode current)
         else if ''posture'' \<in> set scoped then Inl PostureScoped
         else
           let snap = \<lparr>snap_mode = current,
                       snap_fields = snapshot_fields (record_value m) (resolve m) scoped\<rparr>;
               pr = \<lparr>prop_id = uuid, prop_from = current, prop_to = to, prop_reason = reason,
                       prop_apply = apply_fields, prop_scoped = scoped\<rparr>;
               m' = append_journal (JStage current to snap pr (now_iso t) reason) m;
               e' = e\<lparr>e_snapshot := Some snap, e_proposal := Some pr, pending_since := None,
                      halted_at := None, e_state := Staged\<rparr>
           in Inr ((e', m'), snap))"

section \<open>Rollback\<close>

definition apply_rollback ::
  "string \<Rightarrow> instant \<Rightarrow> sys \<Rightarrow> engine_error + (sys \<times> string list)" where
  "apply_rollback reason t s =
     (let (e, m) = s
      in case e_snapshot e of
           None \<Rightarrow> Inl MissingValue
         | Some snap \<Rightarrow>
             (case restore_mode_scoped (snap_fields snap) (machine_now t) m of
                Inl err \<Rightarrow> Inl (MachineRefused err)
              | Inr (m1, restored) \<Rightarrow>
                  let m2 = append_journal (JRollback (snap_mode snap) (now_iso t) (Some reason)) m1;
                      e1 = e\<lparr>e_state := RolledBack, halted_at := None, pending_since := None\<rparr>
                  in Inr ((fire_window WindowClosed (rolled_back_reason reason) e1, m2), restored)))"

definition rollback ::
  "string option \<Rightarrow> instant \<Rightarrow> sys \<Rightarrow> engine_error + (sys \<times> bool \<times> string list)" where
  "rollback reason t s =
     (let st = e_state (fst s)
      in if st = RolledBack then Inr (s, False, [])
         else if st \<noteq> Staged \<and> st \<noteq> Verified then Inl (NoRollback st)
         else (case apply_rollback (or_else reason ''explicit rollback'') t s of
                 Inl err \<Rightarrow> Inl err
               | Inr (s', restored) \<Rightarrow> Inr (s', True, restored)))"

section \<open>Verify\<close>

text \<open>
  One verify attempt has three moments, with an await between them: it begins (the guard, and
  the context handed to the drain and to the attach test), the window opens once the drain has
  resolved, and it settles. Other operations can run in between; \<open>verify_attempt\<close> is the
  attempt that nothing interleaves with.
\<close>

record verify_context =
  ctx_proposal :: proposal
  ctx_budget :: int

datatype verify_outcome = Pass | TransientFail string | StructuralFail "string option"

datatype verify_end = Settled verify_outcome | Expired | Rejected

fun outcome_kind :: "verify_outcome \<Rightarrow> verify_kind" where
  "outcome_kind Pass = PassKind"
| "outcome_kind (TransientFail d) = TransientKind"
| "outcome_kind (StructuralFail d) = StructuralKind"

fun outcome_detail :: "verify_outcome \<Rightarrow> string option" where
  "outcome_detail Pass = None"
| "outcome_detail (TransientFail d) = Some d"
| "outcome_detail (StructuralFail d) = d"

definition verify_begin :: "sys \<Rightarrow> engine_error + verify_context" where
  "verify_begin s =
     (let e = fst s
      in if e_state e \<noteq> Staged \<and> e_state e \<noteq> Verified then Inl (NothingStaged (e_state e))
         else (case e_proposal e of
                 None \<Rightarrow> Inl MissingValue
               | Some pr \<Rightarrow> Inr \<lparr>ctx_proposal = pr, ctx_budget = verify_budget_ms e\<rparr>))"

definition verify_open :: "verify_context \<Rightarrow> sys \<Rightarrow> sys" where
  "verify_open ctx s =
     (fire_window WindowOpen (entered_reason (ctx_proposal ctx)) (fst s), snd s)"

definition journal_verify :: "verify_outcome \<Rightarrow> instant \<Rightarrow> machine \<Rightarrow> machine" where
  "journal_verify out t m =
     append_journal (JVerify (outcome_kind out) (outcome_detail out) (now_iso t)) m"

definition expired_detail :: "int \<Rightarrow> string" where
  "expired_detail budget =
     ''verify budget of '' @ string_of_int budget @ ''ms expired before the attach test settled''"

definition structural_reason :: "string option \<Rightarrow> string" where
  "structural_reason d =
     ''structural verify-fail'' @ (case d of None \<Rightarrow> '''' | Some x \<Rightarrow> '': '' @ x)"

text \<open>The value is the outcome the promise resolves to, or \<open>None\<close> when the attach test threw
  and the promise rejects.\<close>

definition verify_settle ::
  "verify_context \<Rightarrow> verify_end \<Rightarrow> instant \<Rightarrow> sys \<Rightarrow> engine_error + (sys \<times> verify_outcome option)" where
  "verify_settle ctx v t s =
     (let (e, m) = s
      in case v of
           Rejected \<Rightarrow> Inr (s, None)
         | Expired \<Rightarrow>
             let out = TransientFail (expired_detail (ctx_budget ctx));
                 e1 = e\<lparr>e_state := Staged\<rparr>
             in Inr ((fire_window WindowClosed expired_reason e1, journal_verify out t m), Some out)
         | Settled Pass \<Rightarrow> Inr ((e\<lparr>e_state := Verified\<rparr>, journal_verify Pass t m), Some Pass)
         | Settled (TransientFail d) \<Rightarrow>
             Inr ((fire_window WindowClosed transient_reason (e\<lparr>e_state := Staged\<rparr>), journal_verify (TransientFail d) t m),
                  Some (TransientFail d))
         | Settled (StructuralFail d) \<Rightarrow>
             (case apply_rollback (structural_reason d) t (e, journal_verify (StructuralFail d) t m) of
                Inl err \<Rightarrow> Inl err
              | Inr (s', restored) \<Rightarrow> Inr (s', Some (StructuralFail d))))"

definition verify_attempt ::
  "bool \<Rightarrow> verify_end \<Rightarrow> instant \<Rightarrow> sys \<Rightarrow> engine_error + (sys \<times> verify_outcome option)" where
  "verify_attempt drain_ok v t s =
     (case verify_begin s of
        Inl err \<Rightarrow> Inl err
      | Inr ctx \<Rightarrow> if \<not> drain_ok then Inl DrainFailed else verify_settle ctx v t (verify_open ctx s))"

section \<open>Commit\<close>

definition complete_commit :: "instant \<Rightarrow> sys \<Rightarrow> engine_error + sys" where
  "complete_commit t s =
     (let (e, m) = s
      in case e_proposal e of
           None \<Rightarrow> Inl MissingValue
         | Some pr \<Rightarrow>
             let m1 = confirm_mode (prop_to pr)
                        (Some (or_else (prop_reason pr) (''transition-commit '' @ prop_id pr)))
                        (machine_now t) m;
                 m2 = (case prop_apply pr of
                         None \<Rightarrow> m1 | Some patch \<Rightarrow> overlay_rewrite patch (machine_now t) m1);
                 m3 = append_journal (JCommit (prop_to pr) (now_iso t)) m2;
                 e1 = e\<lparr>e_state := Committed, halted_at := None, pending_since := None\<rparr>
             in Inr (fire_window WindowClosed (committed_reason pr) e1, m3))"

text \<open>\<open>pre\<close> and \<open>mid\<close>: the kill hook stops the engine at that boundary.\<close>

definition commit :: "bool \<Rightarrow> bool \<Rightarrow> instant \<Rightarrow> sys \<Rightarrow> engine_error + sys" where
  "commit pre mid t s =
     (let (e, m) = s
      in if e_state e \<noteq> Verified then Inl (NotVerified (e_state e))
         else (case (e_proposal e, e_snapshot e) of
             (Some pr, Some snap) \<Rightarrow>
               if pre then Inr (e\<lparr>halted_at := Some PreCommit\<rparr>, m)
               else
                 let since = clock_ms t;
                     m1 = append_journal (JPending (prop_to pr) snap pr since (now_iso t)) m;
                     e1 = e\<lparr>pending_since := Some since, e_state := CommitPending\<rparr>
                 in if mid then Inr (e1\<lparr>halted_at := Some MidCommit\<rparr>, m1)
                    else complete_commit t (e1, m1)
           | _ \<Rightarrow> Inl MissingValue))"

definition engine_resume :: "bool \<Rightarrow> bool \<Rightarrow> instant \<Rightarrow> sys \<Rightarrow> engine_error + sys" where
  "engine_resume pre mid t s =
     (if e_state (fst s) = Verified then commit pre mid t ((fst s)\<lparr>halted_at := None\<rparr>, snd s)
      else if e_state (fst s) = CommitPending then complete_commit t s
      else Inl (NothingToResume (e_state (fst s))))"

section \<open>The pending transition\<close>

definition cap_elapsed :: "instant \<Rightarrow> engine \<Rightarrow> bool" where
  "cap_elapsed t e =
     (case pending_since e of None \<Rightarrow> False | Some since \<Rightarrow> clock_ms t - since \<ge> pending_cap_ms e)"

record pending_view =
  badge :: string
  view_snapshot :: snapshot
  view_cap_elapsed :: bool
  choices :: "resolve_action list option"

definition pending_badge :: "snapshot \<Rightarrow> proposal \<Rightarrow> string" where
  "pending_badge snap pr =
     ''commit-pending: '' @ mode_name (snap_mode snap) @ '' '' @ right_arrow @ '' ''
     @ mode_name (prop_to pr)
     @ '' (mid-commit halt; the badge is the mode journal's state, never a posture value)''"

definition pending :: "instant \<Rightarrow> engine \<Rightarrow> pending_view option" where
  "pending t e =
     (if e_state e \<noteq> CommitPending then None
      else (case (e_snapshot e, e_proposal e) of
              (Some snap, Some pr) \<Rightarrow>
                Some \<lparr>badge = pending_badge snap pr,
                      view_snapshot = snap,
                      view_cap_elapsed = cap_elapsed t e,
                      choices = (if cap_elapsed t e then Some [Abort, Resume] else None)\<rparr>
            | _ \<Rightarrow> None))"

fun via_name :: "resolve_via \<Rightarrow> string" where
  "via_name Force = ''force''"
| "via_name CapChoice = ''cap-choice''"

definition abort_reason :: "resolve_via \<Rightarrow> string" where
  "abort_reason via = ''commit-pending resolved: abort (via '' @ via_name via @ '')''"

text \<open>The two halves of \<open>resolvePendingVia\<close>: the journal record, then its execution.\<close>

definition journal_resolve :: "resolve_action \<Rightarrow> resolve_via \<Rightarrow> instant \<Rightarrow> sys \<Rightarrow> sys" where
  "journal_resolve act via t s =
     ((fst s)\<lparr>pending_since := None\<rparr>, append_journal (JResolve act via (now_iso t)) (snd s))"

definition resolve_pending_via ::
  "resolve_action \<Rightarrow> resolve_via \<Rightarrow> instant \<Rightarrow> sys \<Rightarrow> engine_error + sys" where
  "resolve_pending_via act via t s =
     (let s1 = journal_resolve act via t s
      in if act = Resume then complete_commit t s1
         else (case apply_rollback (abort_reason via) t s1 of
                 Inl err \<Rightarrow> Inl err | Inr (s', restored) \<Rightarrow> Inr s'))"

definition resolve_pending :: "resolve_action \<Rightarrow> instant \<Rightarrow> sys \<Rightarrow> engine_error + sys" where
  "resolve_pending act t s =
     (if e_state (fst s) \<noteq> CommitPending then Inl (NoPending (e_state (fst s)))
      else if \<not> cap_elapsed t (fst s) then Inl (CapNotElapsed (pending_cap_ms (fst s)))
      else resolve_pending_via act CapChoice t s)"

definition force_resolve_pending :: "resolve_action \<Rightarrow> instant \<Rightarrow> sys \<Rightarrow> engine_error + sys" where
  "force_resolve_pending act t s =
     (if e_state (fst s) \<noteq> CommitPending then Inl (NoPending (e_state (fst s)))
      else resolve_pending_via act Force t s)"

end
