(* ===== verification/Mode_Protocol.thy ===== *)
theory Mode_Protocol
  imports Mode_Engine
begin

text \<open>
  The protocol of the mode engine over its machine: the step relation of an engine whose verify
  attempts are awaited, interleaved with the writes of the other parties (the transport's
  posture writes, overlay rewrites, structural signals) and with process death; its invariant;
  and what it guarantees.
\<close>

section \<open>Steps\<close>

inductive engine_step :: "sys \<Rightarrow> sys \<Rightarrow> bool" where
  step_stage: "stage to reason ap sc uuid t s = Inr (s', snap) \<Longrightarrow> engine_step s s'"
| step_verify: "verify_attempt drain_ok v t s = Inr (s', out) \<Longrightarrow> engine_step s s'"
| step_commit: "commit pre mid t s = Inr s' \<Longrightarrow> engine_step s s'"
| step_resume: "engine_resume pre mid t s = Inr s' \<Longrightarrow> engine_step s s'"
| step_resolve: "resolve_pending act t s = Inr s' \<Longrightarrow> engine_step s s'"
| step_force: "force_resolve_pending act t s = Inr s' \<Longrightarrow> engine_step s s'"
| step_rollback: "rollback reason t s = Inr (s', out') \<Longrightarrow> engine_step s s'"
| step_posture: "engine_step (e, m) (e, write_posture p reason' now m)"
| step_overlay: "engine_step (e, m) (e, overlay_rewrite patch now m)"
| step_signal: "engine_step (e, m) (e, fst (emit_structural cls d now m))"
| step_death: "engine_step (e, m) (new_engine b c m, m)"

inductive reachable_sys :: "sys \<Rightarrow> bool" where
  reach_start: "reachable_sys (new_engine b c (new_machine r), new_machine r)"
| reach_step: "reachable_sys s \<Longrightarrow> engine_step s s' \<Longrightarrow> reachable_sys s'"

section \<open>The invariant\<close>

text \<open>The code's non-null assertions hold, a snapshot never names the posture, the journal and
  the engine agree on the pending transition, and the commit window is open between a passed
  verify and the end of its transition, and never outside a transition.\<close>

definition snapshot_ok :: "snapshot \<Rightarrow> bool" where
  "snapshot_ok snap \<longleftrightarrow> \<not> obj_has (snap_fields snap) ''posture''"

definition values_present :: "engine \<Rightarrow> bool" where
  "values_present e \<longleftrightarrow>
     (e_state e \<noteq> Idle \<longrightarrow> e_proposal e \<noteq> None \<and> e_snapshot e \<noteq> None)
     \<and> (\<forall>snap. e_snapshot e = Some snap \<longrightarrow> snapshot_ok snap)"

definition journal_agrees :: "sys \<Rightarrow> bool" where
  "journal_agrees s \<longleftrightarrow>
     (case open_pending (snd s) of
        None \<Rightarrow> e_state (fst s) \<noteq> CommitPending
      | Some (snap, pr, since) \<Rightarrow>
          e_state (fst s) = CommitPending \<and> e_snapshot (fst s) = Some snap
          \<and> e_proposal (fst s) = Some pr \<and> pending_since (fst s) = Some since)"

definition window_agrees :: "engine \<Rightarrow> bool" where
  "window_agrees e \<longleftrightarrow>
     (e_state e \<in> {Verified, CommitPending} \<longrightarrow> window_open e)
     \<and> (window_open e \<longrightarrow> in_flight (e_state e))"

definition engine_inv :: "sys \<Rightarrow> bool" where
  "engine_inv s \<longleftrightarrow> values_present (fst s) \<and> journal_agrees s \<and> window_agrees (fst s)"

lemma scan_pending_append: "scan_pending opn (es @ es') = scan_pending (scan_pending opn es) es'"
  by (induction opn es rule: scan_pending.induct) simp_all

lemma fire_window_frame [frame_simps, simp]:
  "e_state (fire_window ph r e) = e_state e"
  "halted_at (fire_window ph r e) = halted_at e"
  "e_proposal (fire_window ph r e) = e_proposal e"
  "e_snapshot (fire_window ph r e) = e_snapshot e"
  "pending_since (fire_window ph r e) = pending_since e"
  "verify_budget_ms (fire_window ph r e) = verify_budget_ms e"
  "pending_cap_ms (fire_window ph r e) = pending_cap_ms e"
  by (simp_all add: fire_window_def)

lemma window_open_fire [simp]:
  "window_open (fire_window WindowOpen r e)"
  "\<not> window_open (fire_window WindowClosed r e)"
  by (simp_all add: fire_window_def)

lemma snapshot_fields_posture:
  assumes "''posture'' \<notin> set scoped"
  shows "\<not> obj_has (snapshot_fields raw res scoped) ''posture''"
proof -
  have "obj_has (foldl (\<lambda>fs f. obj_set fs f (field_of raw f)) fs scoped) k
      \<longleftrightarrow> obj_has fs k \<or> k \<in> set scoped" for fs k
    by (induction scoped arbitrary: fs) auto
  then show ?thesis using assms by (simp add: snapshot_fields_def)
qed

text \<open>What each operation does, seen from the invariant. An operation that rolls back ends in
  \<open>RolledBack\<close> with the window closed and no pending record of its own.\<close>

definition closes_to :: "engine_state \<Rightarrow> sys \<Rightarrow> sys \<Rightarrow> bool" where
  "closes_to st s s' \<longleftrightarrow>
     e_state (fst s') = st \<and> \<not> window_open (fst s')
     \<and> e_proposal (fst s') = e_proposal (fst s) \<and> e_snapshot (fst s') = e_snapshot (fst s)"

lemma apply_rollback_closes:
  assumes "apply_rollback reason t s = Inr (s', restored)"
  shows "closes_to RolledBack s s'" "open_pending (snd s') = open_pending (snd s)"
proof -
  obtain e m where s: "s = (e, m)" by (cases s)
  from assms s obtain snap m1 where
    snap: "e_snapshot e = Some snap" and
    r: "restore_mode_scoped (snap_fields snap) (machine_now t) m = Inr (m1, restored)" and
    s': "s' = (fire_window WindowClosed (rolled_back_reason reason)
           (e\<lparr>e_state := RolledBack, halted_at := None, pending_since := None\<rparr>),
         append_journal (JRollback (snap_mode snap) (now_iso t) (Some reason)) m1)"
    by (auto simp: apply_rollback_def Let_def split: option.splits sum.splits)
  show "closes_to RolledBack s s'"
    by (simp add: closes_to_def s s')
  show "open_pending (snd s') = open_pending (snd s)"
    by (simp add: s s' restore_mode_scoped_frame [OF r] append_journal_frame scan_pending_append)
qed

lemma apply_rollback_total:
  assumes "e_snapshot (fst s) = Some snap" and "snapshot_ok snap"
  shows "\<exists>s' restored. apply_rollback reason t s = Inr (s', restored)"
proof -
  obtain e m where s: "s = (e, m)" by (cases s)
  have "\<exists>m' r. restore_mode_scoped (snap_fields snap) (machine_now t) m = Inr (m', r)"
    using assms(2) by (simp add: restore_mode_scoped_def snapshot_ok_def)
  with assms(1) s show ?thesis by (auto simp: apply_rollback_def Let_def)
qed

lemma complete_commit_closes:
  assumes "complete_commit t s = Inr s'"
  shows "closes_to Committed s s'" "open_pending (snd s') = None"
  using assms
  by (auto simp: complete_commit_def closes_to_def Let_def scan_pending_append frame_simps
      split: option.splits prod.splits)

lemma resolve_pending_via_closes:
  assumes "resolve_pending_via act via t s = Inr s'"
  shows "closes_to (if act = Resume then Committed else RolledBack) s s' \<and> open_pending (snd s') = None"
proof -
  let ?s1 = "journal_resolve act via t s"
  have s1: "e_proposal (fst ?s1) = e_proposal (fst s)" "e_snapshot (fst ?s1) = e_snapshot (fst s)"
    "open_pending (snd ?s1) = None"
    by (simp_all add: journal_resolve_def append_journal_frame scan_pending_append)
  show ?thesis
  proof (cases act)
    case Resume
    with assms have c: "complete_commit t ?s1 = Inr s'" by (simp add: resolve_pending_via_def Let_def)
    from complete_commit_closes [OF c] s1 Resume show ?thesis by (simp add: closes_to_def)
  next
    case Abort
    with assms obtain reason restored where c: "apply_rollback reason t ?s1 = Inr (s', restored)"
      by (auto simp: resolve_pending_via_def Let_def split: sum.splits)
    from apply_rollback_closes [OF c] s1 Abort show ?thesis by (simp add: closes_to_def)
  qed
qed

lemma closes_to_inv:
  assumes "closes_to st s s'" and "open_pending (snd s') = None"
    and "values_present (fst s)" and "e_state (fst s) \<noteq> Idle" and "st \<in> {Committed, RolledBack}"
  shows "engine_inv s'"
  using assms
  by (auto simp: engine_inv_def closes_to_def values_present_def journal_agrees_def window_agrees_def
      in_flight_def)

lemma not_pending_open: "engine_inv s \<Longrightarrow> e_state (fst s) \<noteq> CommitPending \<Longrightarrow> open_pending (snd s) = None"
  by (auto simp: engine_inv_def journal_agrees_def split: option.splits prod.splits)

section \<open>Every step keeps the invariant\<close>

lemma stage_inv [inv_intros]:
  assumes inv: "engine_inv s" and st: "stage to reason ap sc uuid t s = Inr (s', snap)"
  shows "engine_inv s'"
proof -
  obtain e m where s: "s = (e, m)" by (cases s)
  from st s have idle: "\<not> in_flight (e_state e)" and sc: "''posture'' \<notin> set (or_else sc [])"
    by (auto simp: stage_def Let_def split: if_splits)
  from inv s idle have op: "open_pending m = None" and w: "\<not> window_open e"
    using not_pending_open [of s] by (auto simp: engine_inv_def window_agrees_def in_flight_def)
  have np: "(''posture'', b) \<notin> set (snapshot_fields raw res (or_else sc []))" for raw res b
    using snapshot_fields_posture [OF sc] by force
  from st s sc show ?thesis
    by (auto simp: stage_def Let_def engine_inv_def values_present_def journal_agrees_def
        window_agrees_def snapshot_ok_def in_flight_def append_journal_frame scan_pending_append op w np
        split: if_splits)
qed

lemma rollback_inv [inv_intros]:
  assumes inv: "engine_inv s" and rb: "rollback reason t s = Inr (s', out)"
  shows "engine_inv s'"
proof (cases "e_state (fst s) = RolledBack")
  case True
  with rb inv show ?thesis by (auto simp: rollback_def)
next
  case False
  with rb have st: "e_state (fst s) = Staged \<or> e_state (fst s) = Verified"
    by (auto simp: rollback_def Let_def split: if_splits)
  from False rb st obtain r restored where a: "apply_rollback r t s = Inr (s', restored)"
    by (auto simp: rollback_def Let_def split: if_splits sum.splits)
  show ?thesis
    by (rule closes_to_inv [OF apply_rollback_closes(1) [OF a]])
      (use inv st apply_rollback_closes(2) [OF a] not_pending_open [OF inv]
        in \<open>auto simp: engine_inv_def\<close>)
qed

lemma verify_attempt_inv [inv_intros]:
  assumes inv: "engine_inv s" and v: "verify_attempt drain_ok v t s = Inr (s', out)"
  shows "engine_inv s'"
proof -
  obtain e m where s: "s = (e, m)" by (cases s)
  from v s obtain pr where st: "e_state e = Staged \<or> e_state e = Verified"
    and settle: "verify_settle \<lparr>ctx_proposal = pr, ctx_budget = verify_budget_ms e\<rparr> v t
      (verify_open \<lparr>ctx_proposal = pr, ctx_budget = verify_budget_ms e\<rparr> (e, m)) = Inr (s', out)"
    by (auto simp: verify_attempt_def verify_begin_def Let_def split: if_splits option.splits)
  define s1 where "s1 = verify_open \<lparr>ctx_proposal = pr, ctx_budget = verify_budget_ms e\<rparr> (e, m)"
  have s1: "e_state (fst s1) = e_state e" "e_proposal (fst s1) = e_proposal e"
    "e_snapshot (fst s1) = e_snapshot e" "window_open (fst s1)" "snd s1 = m"
    by (simp_all add: s1_def verify_open_def Let_def)
  from inv s st have op: "open_pending m = None" using not_pending_open [of s] by auto
  have vp: "values_present (fst s1)"
    using inv s s1 by (simp add: engine_inv_def values_present_def)
  obtain e1 where s1p: "s1 = (e1, m)" using s1(5) by (cases s1) auto
  show ?thesis
  proof (cases "\<exists>d. v = Settled (StructuralFail d)")
    case True
    then obtain d where d: "v = Settled (StructuralFail d)" ..
    with settle s1p obtain r restored where
      a: "apply_rollback r t (e1, journal_verify (StructuralFail d) t m) = Inr (s', restored)"
      by (auto simp: verify_settle_def Let_def s1_def [symmetric] split: sum.splits)
    show ?thesis
      by (rule closes_to_inv [OF apply_rollback_closes(1) [OF a]])
        (use vp st s1 s1p op apply_rollback_closes(2) [OF a]
          in \<open>auto simp: journal_verify_def append_journal_frame scan_pending_append\<close>)
  next
    case False
    with settle s1p s1 st op vp show ?thesis
      by (auto simp: verify_settle_def Let_def s1_def [symmetric] engine_inv_def values_present_def
          journal_agrees_def window_agrees_def in_flight_def journal_verify_def append_journal_frame
          scan_pending_append split: verify_end.splits verify_outcome.splits)
  qed
qed

lemma complete_commit_inv:
  assumes inv: "values_present (fst s)" "e_state (fst s) \<noteq> Idle" and c: "complete_commit t s = Inr s'"
  shows "engine_inv s'"
  by (rule closes_to_inv [OF complete_commit_closes [OF c]]) (use inv in auto)

lemma commit_inv [inv_intros]:
  assumes inv: "engine_inv s" and c: "commit pre mid t s = Inr s'"
  shows "engine_inv s'"
proof -
  obtain e m where s: "s = (e, m)" by (cases s)
  from c s obtain pr snap where st: "e_state e = Verified"
    and pp: "e_proposal e = Some pr" "e_snapshot e = Some snap"
    by (auto simp: commit_def Let_def split: if_splits option.splits)
  from inv s st have op: "open_pending m = None" and w: "window_open e" and vp: "values_present e"
    using not_pending_open [of s] by (auto simp: engine_inv_def window_agrees_def)
  show ?thesis
  proof (cases "pre \<or> mid")
    case True
    with c s st pp op w vp inv show ?thesis
      by (auto simp: commit_def Let_def engine_inv_def values_present_def journal_agrees_def
          window_agrees_def in_flight_def append_journal_frame scan_pending_append split: if_splits)
  next
    case False
    with c s st pp obtain e1 m1 where cc: "complete_commit t (e1, m1) = Inr s'"
      and e1: "e1 = e\<lparr>pending_since := Some (clock_ms t), e_state := CommitPending\<rparr>"
      by (auto simp: commit_def Let_def)
    show ?thesis
      by (rule complete_commit_inv [OF _ _ cc]) (use vp e1 in \<open>auto simp: values_present_def pp\<close>)
  qed
qed

lemma engine_resume_inv [inv_intros]:
  assumes inv: "engine_inv s" and c: "engine_resume pre mid t s = Inr s'"
  shows "engine_inv s'"
proof (cases "e_state (fst s) = Verified")
  case True
  have "engine_inv ((fst s)\<lparr>halted_at := None\<rparr>, snd s)"
    using inv by (auto simp: engine_inv_def values_present_def journal_agrees_def window_agrees_def
        split: option.splits)
  with True c show ?thesis by (auto simp: engine_resume_def intro: commit_inv)
next
  case False
  with c have "complete_commit t s = Inr s'" "e_state (fst s) = CommitPending"
    by (auto simp: engine_resume_def split: if_splits)
  moreover have "values_present (fst s)" using inv by (simp add: engine_inv_def)
  ultimately show ?thesis by (auto intro: complete_commit_inv)
qed

lemma resolve_pending_via_inv:
  assumes inv: "engine_inv s" and st: "e_state (fst s) = CommitPending"
    and r: "resolve_pending_via act via t s = Inr s'"
  shows "engine_inv s'"
  by (rule closes_to_inv [OF resolve_pending_via_closes [OF r, THEN conjunct1]])
    (use inv st resolve_pending_via_closes [OF r] in \<open>auto simp: engine_inv_def\<close>)

lemma new_engine_inv [inv_intros]:
  assumes "\<And>snap pr since. open_pending m = Some (snap, pr, since) \<Longrightarrow> snapshot_ok snap"
  shows "engine_inv (new_engine b c m, m)"
  using assms
  by (auto simp: new_engine_def recover_from_journal_def engine_inv_def values_present_def
      journal_agrees_def window_agrees_def in_flight_def split: option.splits prod.splits)

lemma other_write_inv:
  assumes "engine_inv (e, m)" and "journal_entries m' = journal_entries m"
  shows "engine_inv (e, m')"
  using assms by (auto simp: engine_inv_def journal_agrees_def split: option.splits)

lemma engine_inv_open_snapshot:
  assumes "engine_inv (e, m)" and "open_pending m = Some (snap, pr, since)"
  shows "snapshot_ok snap"
  using assms by (auto simp: engine_inv_def journal_agrees_def values_present_def)

lemma engine_step_inv: "engine_step s s' \<Longrightarrow> engine_inv s \<Longrightarrow> engine_inv s'"
proof (induction rule: engine_step.induct)
  case (step_resolve act t s s')
  then show ?case
    by (auto simp: resolve_pending_def split: if_splits intro: resolve_pending_via_inv)
next
  case (step_force act t s s')
  then show ?case
    by (auto simp: force_resolve_pending_def split: if_splits intro: resolve_pending_via_inv)
next
  case (step_death e m b c)
  then show ?case by (blast intro: new_engine_inv engine_inv_open_snapshot)
qed (auto intro: inv_intros other_write_inv simp: frame_simps)

lemma reachable_sys_inv: "reachable_sys s \<Longrightarrow> engine_inv s"
proof (induction rule: reachable_sys.induct)
  case (reach_start b c r)
  show ?case by (rule new_engine_inv) (simp add: new_machine_def)
next
  case (reach_step s s')
  then show ?case by (blast intro: engine_step_inv)
qed

section \<open>A concrete transition\<close>

text \<open>A transition to the fleet mode on an empty record, up to the mid-commit halt: the concrete
  inputs of the witnesses.\<close>

definition demo_instant :: instant where
  "demo_instant = \<lparr>clock_ms = 0, machine_now = ''t''\<rparr>"

definition demo_start :: sys where
  "demo_start = (new_engine None None (new_machine Map.empty), new_machine Map.empty)"

definition or_stay :: "sys \<Rightarrow> engine_error + (sys \<times> 'a) \<Rightarrow> sys" where
  "or_stay s r = (case r of Inl _ \<Rightarrow> s | Inr (s', _) \<Rightarrow> s')"

definition demo_staged :: sys where
  "demo_staged = or_stay demo_start (stage Fleet None (Some []) None ''u1'' demo_instant demo_start)"

definition demo_verified :: sys where
  "demo_verified = or_stay demo_staged (verify_attempt True (Settled Pass) demo_instant demo_staged)"

definition demo_pending :: sys where
  "demo_pending = (case commit False True demo_instant demo_verified of Inl _ \<Rightarrow> demo_verified | Inr s \<Rightarrow> s)"

lemma demo_start_simps [simp]:
  "rmode (resolve (snd demo_start)) = Standalone" "rposture (resolve (snd demo_start)) = Ok"
  "e_state (fst demo_start) = Idle" "mode_field (record_value (snd demo_start)) = None"
  "posture_field (record_value (snd demo_start)) = None"
  "field_of (record_value (snd demo_start)) k = Undefined"
  "journal_entries (snd demo_start) = []" "\<not> window_open (fst demo_start)"
  by (simp_all add: demo_start_def new_machine_def new_engine_def recover_from_journal_def
      resolve_def resolve_attach_state_def resolve_mode_def resolve_posture_def mode_field_def
      posture_field_def field_of_def)

lemma demo_stage:
  "\<exists>snap. stage Fleet None (Some []) None ''u1'' demo_instant demo_start = Inr (demo_staged, snap)"
proof -
  have "\<exists>s snap. stage Fleet None (Some []) None ''u1'' demo_instant demo_start = Inr (s, snap)"
    by (simp add: stage_def Let_def in_flight_def case_prod_beta)
  then show ?thesis by (auto simp: demo_staged_def or_stay_def)
qed

lemma demo_staged_simps:
  "e_state (fst demo_staged) = Staged \<and> mode_field (record_value (snd demo_staged)) = None
   \<and> (\<exists>p. e_proposal (fst demo_staged) = Some p \<and> prop_to p = Fleet \<and> prop_apply p = Some [])
   \<and> (\<exists>snap. e_snapshot (fst demo_staged) = Some snap)"
  by (simp add: demo_staged_def or_stay_def stage_def Let_def in_flight_def case_prod_beta frame_simps)

lemma demo_staged_state [simp]: "e_state (fst demo_staged) = Staged"
  using demo_staged_simps by simp

lemma demo_verify: "verify_attempt True (Settled Pass) demo_instant demo_staged = Inr (demo_verified, Some Pass)"
proof -
  have "\<exists>s. verify_attempt True (Settled Pass) demo_instant demo_staged = Inr (s, Some Pass)"
    using demo_staged_simps
    by (auto simp: verify_attempt_def verify_begin_def verify_settle_def verify_open_def Let_def)
  then show ?thesis by (auto simp: demo_verified_def or_stay_def)
qed

lemma demo_verified_simps:
  "e_state (fst demo_verified) = Verified \<and> mode_field (record_value (snd demo_verified)) = None
   \<and> (\<exists>p. e_proposal (fst demo_verified) = Some p \<and> prop_to p = Fleet \<and> prop_apply p = Some [])
   \<and> (\<exists>snap. e_snapshot (fst demo_verified) = Some snap)"
proof -
  obtain p snap where "e_proposal (fst demo_staged) = Some p" "prop_to p = Fleet" "prop_apply p = Some []"
    "e_snapshot (fst demo_staged) = Some snap" "mode_field (record_value (snd demo_staged)) = None"
    using demo_staged_simps by blast
  then show ?thesis
    by (simp add: demo_verified_def or_stay_def verify_attempt_def verify_begin_def verify_settle_def
        verify_open_def Let_def journal_verify_def frame_simps)
qed

lemma demo_verified_state [simp]: "e_state (fst demo_verified) = Verified"
  using demo_verified_simps by simp

lemma demo_commit: "commit False True demo_instant demo_verified = Inr demo_pending"
proof -
  have "\<exists>s. commit False True demo_instant demo_verified = Inr s"
    using demo_verified_simps by (auto simp: commit_def Let_def case_prod_beta)
  then show ?thesis by (auto simp: demo_pending_def)
qed

lemma demo_pending_state [simp]: "e_state (fst demo_pending) = CommitPending"
proof -
  obtain p snap where "e_proposal (fst demo_verified) = Some p" "e_snapshot (fst demo_verified) = Some snap"
    using demo_verified_simps by blast
  then show ?thesis by (simp add: demo_pending_def commit_def Let_def case_prod_beta)
qed

lemma demo_reachable: "reachable_sys demo_staged" "reachable_sys demo_verified" "reachable_sys demo_pending"
proof -
  have "reachable_sys demo_start" unfolding demo_start_def by (rule reach_start)
  with demo_stage show s: "reachable_sys demo_staged" by (blast intro: reach_step step_stage)
  with demo_verify show v: "reachable_sys demo_verified" by (blast intro: reach_step step_verify)
  with demo_commit show "reachable_sys demo_pending" by (blast intro: reach_step step_commit)
qed

section \<open>Membership\<close>

text \<open>A run of the transport's writes, and a run of the other parties' writes.\<close>

definition transport_run :: "(attach_posture \<times> string \<times> string) list \<Rightarrow> machine \<Rightarrow> machine" where
  "transport_run ws m = foldl (\<lambda>m (p, r, now). write_posture p r now m) m ws"

lemma transport_run_simps [simp]:
  "transport_run [] m = m"
  "transport_run ((p, r, now) # ws) m = transport_run ws (write_posture p r now m)"
  by (simp_all add: transport_run_def)

lemma transport_mode_write_count_posture [simp]:
  "transport_mode_write_count (write_posture p r now m) = transport_mode_write_count m"
  by (simp add: transport_mode_write_count_def write_posture_def Let_def)

lemma transport_run_mode_field:
  "mode_field (record_value (transport_run ws m)) = mode_field (record_value m)"
  by (induction ws arbitrary: m) (auto simp: frame_simps)

lemma transport_run_journal: "journal_entries (transport_run ws m) = journal_entries m"
  by (induction ws arbitrary: m) (auto simp: frame_simps)

lemma transport_run_count:
  "transport_mode_write_count (transport_run ws m) = transport_mode_write_count m"
  by (induction ws arbitrary: m) auto

lemma transport_run_posture:
  "ws \<noteq> [] \<Longrightarrow> rposture (resolve (transport_run ws m)) = fst (last ws)"
  by (induction ws arbitrary: m) auto

lemma rmode_of_field: "mode_field (record_value m) = Some md \<Longrightarrow> rmode (resolve m) = md"
  by (simp add: resolve_def resolve_attach_state_def resolve_mode_def)

text \<open>however the transport flaps, a machine whose record carries a mode field keeps its
  human-confirmed mode; no posture write reaches the mode journal, none counts as a mode write,
  and the posture read afterwards is the last one written.\<close>

theorem transport_run_keeps_mode:
  assumes "mode_field (record_value m) = Some md" and "ws \<noteq> []"
  shows "rmode (resolve (transport_run ws m)) = md
    \<and> rposture (resolve (transport_run ws m)) = fst (last ws)
    \<and> journal_entries (transport_run ws m) = journal_entries m
    \<and> transport_mode_write_count (transport_run ws m) = transport_mode_write_count m"
  using assms
  by (simp add: rmode_of_field transport_run_mode_field transport_run_posture transport_run_journal
      transport_run_count)

definition fleet_record :: attach_record where
  "fleet_record = [''mode'' \<mapsto> Text ''fleet'', ''posture'' \<mapsto> Text ''ok'', ''state'' \<mapsto> Text ''fleet'']"

lemma fleet_record_reads [simp]:
  "mode_field fleet_record = Some Fleet" "posture_field fleet_record = Some Ok"
  by (simp_all add: fleet_record_def mode_of_name_def posture_of_name_def)

theorem transport_run_keeps_mode_witness:
  "rmode (resolve (transport_run [(HubDown, ''r'', ''t''), (Ok, ''r'', ''t'')] (new_machine fleet_record))) = Fleet"
  using transport_run_keeps_mode
    [of "new_machine fleet_record" Fleet "[(HubDown, ''r'', ''t''), (Ok, ''r'', ''t'')]"]
  by (simp add: new_machine_def)

text \<open>a record that carries only the frozen \<open>state\<close> field does not keep its membership: one
  hub-down posture write makes a machine that read as fleet read as standalone, and no later
  posture write brings the fleet mode back.\<close>

theorem legacy_record_loses_membership:
  assumes "mode_field (record_value m) = None" and "rmode (resolve m) = Fleet"
  shows "rmode (resolve (transport_run ((HubDown, r, t) # ws) m)) = Standalone"
proof -
  have "mode_field (record_value m) = None \<Longrightarrow> rmode (resolve m) = Standalone \<Longrightarrow>
      rmode (resolve (transport_run ws m)) = Standalone" for m
  proof (induction ws arbitrary: m)
    case (Cons w ws)
    obtain p r now where "w = (p, r, now)" by (cases w)
    with Cons show ?case by (simp add: frame_simps resolve_write_posture_mode)
  qed simp
  with assms show ?thesis by (simp add: frame_simps resolve_write_posture_mode)
qed

theorem legacy_record_loses_membership_witness:
  "rmode (resolve (new_machine [''state'' \<mapsto> Text ''fleet''])) = Fleet
   \<and> rmode (resolve (transport_run [(HubDown, ''sustained'', ''t''), (Ok, ''recovered'', ''t'')]
        (new_machine [''state'' \<mapsto> Text ''fleet'']))) = Standalone"
proof -
  have h: "mode_field (record_value (new_machine [''state'' \<mapsto> Text ''fleet''])) = None"
    by (simp add: new_machine_def mode_field_def field_of_def)
  have f: "rmode (resolve (new_machine [''state'' \<mapsto> Text ''fleet''])) = Fleet"
    using h by (simp add: resolve_def resolve_attach_state_def resolve_mode_def new_machine_def)
  from legacy_record_loses_membership [OF h f, of "''sustained''" "''t''" "[(Ok, ''recovered'', ''t'')]"] f
  show ?thesis by simp
qed

section \<open>What a step may do to the mode\<close>

lemma step_mode_unchanged:
  assumes "engine_step s s'"
  shows "mode_field (record_value (snd s')) = mode_field (record_value (snd s))
    \<or> e_state (fst s') \<in> {Committed, RolledBack}"
  using assms
proof (induction rule: engine_step.induct)
  case (step_stage to reason ap sc uuid t s s' snap)
  then show ?case
    by (auto simp: stage_def Let_def frame_simps split: prod.splits if_splits)
next
  case (step_verify drain_ok v t s s' out)
  then show ?case
    by (auto simp: verify_attempt_def verify_begin_def verify_settle_def verify_open_def Let_def
        journal_verify_def frame_simps split: prod.splits if_splits option.splits sum.splits
          verify_end.splits verify_outcome.splits
        dest!: apply_rollback_closes(1) simp: closes_to_def)
next
  case (step_commit pre mid t s s')
  then show ?case
    by (auto simp: commit_def Let_def frame_simps closes_to_def
        split: prod.splits if_splits option.splits dest!: complete_commit_closes(1))
next
  case (step_resume pre mid t s s')
  then show ?case
    by (auto simp: engine_resume_def commit_def Let_def frame_simps closes_to_def
        split: prod.splits if_splits option.splits dest!: complete_commit_closes(1))
next
  case (step_resolve act t s s')
  then show ?case
    by (auto simp: resolve_pending_def closes_to_def split: if_splits
        dest!: resolve_pending_via_closes)
next
  case (step_force act t s s')
  then show ?case
    by (auto simp: force_resolve_pending_def closes_to_def split: if_splits
        dest!: resolve_pending_via_closes)
next
  case (step_rollback reason t s s' out')
  then show ?case
    by (auto simp: rollback_def Let_def closes_to_def split: if_splits sum.splits
        dest!: apply_rollback_closes(1))
qed (simp_all add: frame_simps)

text \<open>C2: in a reachable system the mode field moves only in a step that commits a transition or
  rolls one back; whichever other operation runs, and whatever the transport, the overlay or a
  process death does, it stays as it is.\<close>

theorem mode_moves_only_at_commit_or_rollback:
  assumes "reachable_sys s" and "engine_step s s'"
    and "mode_field (record_value (snd s')) \<noteq> mode_field (record_value (snd s))"
  shows "e_state (fst s') \<in> {Committed, RolledBack} \<and> \<not> window_open (fst s')
    \<and> open_pending (snd s') = None"
proof -
  have inv: "engine_inv s'"
    using assms(1,2) by (blast intro: reachable_sys_inv reach_step)
  have st: "e_state (fst s') \<in> {Committed, RolledBack}"
    using step_mode_unchanged [OF assms(2)] assms(3) by blast
  then have "\<not> in_flight (e_state (fst s'))" and "e_state (fst s') \<noteq> CommitPending"
    by (auto simp: in_flight_def)
  with inv st show ?thesis
    by (auto simp: engine_inv_def window_agrees_def intro: not_pending_open)
qed


text \<open>C10: a process death loses nothing of a journalled commit: a fresh engine on the same machine
  is commit-pending exactly when the dead one was, with the same snapshot, proposal and start of
  the cap, and its window is open again; otherwise it is idle with the window closed.\<close>

theorem process_death_recovers:
  assumes "reachable_sys (e, m)"
  shows "if e_state e = CommitPending
    then e_state (new_engine b c m) = CommitPending
      \<and> e_snapshot (new_engine b c m) = e_snapshot e \<and> e_proposal (new_engine b c m) = e_proposal e
      \<and> pending_since (new_engine b c m) = pending_since e \<and> window_open (new_engine b c m)
      \<and> halted_at (new_engine b c m) = Some MidCommit
    else e_state (new_engine b c m) = Idle \<and> \<not> window_open (new_engine b c m)"
proof -
  from assms have "journal_agrees (e, m)" by (auto dest: reachable_sys_inv simp: engine_inv_def)
  then show ?thesis
    by (auto simp: journal_agrees_def new_engine_def recover_from_journal_def
        split: option.splits prod.splits)
qed

theorem mode_moves_only_at_commit_or_rollback_witness:
  "\<exists>s'. commit False False demo_instant demo_verified = Inr s' \<and> e_state (fst s') \<in> {Committed, RolledBack}"
proof -
  obtain s' where c: "commit False False demo_instant demo_verified = Inr s'"
    "mode_field (record_value (snd s')) = Some Fleet"
    using demo_verified_simps
    by (auto simp: commit_def complete_commit_def Let_def case_prod_beta frame_simps)
  have nf: "mode_field (record_value (snd demo_verified)) = None" using demo_verified_simps by simp
  have "engine_step demo_verified s'" using c(1) by (rule step_commit)
  with mode_moves_only_at_commit_or_rollback [OF demo_reachable(2)] c nf show ?thesis by auto
qed


theorem process_death_recovers_witness:
  "e_state (new_engine None None (snd demo_pending)) = CommitPending"
  using process_death_recovers [of "fst demo_pending" "snd demo_pending" None None] demo_reachable(3)
  by simp

section \<open>Commit\<close>

lemma field_of_merge:
  assumes "(k, v) \<in> set p" and "distinct (map fst p)"
  shows "field_of (merge_attach_state r p) k = v"
  using assms
proof (induction p arbitrary: r)
  case (Cons kv p)
  show ?case
  proof (cases "kv = (k, v)")
    case True
    with Cons.prems have "k \<notin> fst ` set p" by auto
    with True show ?thesis by (simp add: field_of_merge_other)
  next
    case False
    with Cons.prems have "(k, v) \<in> set p" "distinct (map fst p)" by auto
    then have "field_of (merge_attach_state (r(fst kv \<mapsto> snd kv)) p) k = v" by (rule Cons.IH)
    then show ?thesis by (cases kv) simp
  qed
qed simp

lemma overlay_rewrite_value:
  assumes "(k, v) \<in> set patch" and "distinct (map fst patch)" and "k \<notin> set machine_owned_fields"
  shows "field_of (record_value (overlay_rewrite patch now m)) k = v"
proof -
  let ?d = "filter (\<lambda>(k, v). k \<notin> set machine_owned_fields) patch"
  have "(k, v) \<in> set ?d" using assms by auto
  moreover have "distinct (map fst ?d)" using assms(2) by (simp add: distinct_map_filter)
  ultimately show ?thesis by (simp add: overlay_rewrite_def Let_def field_of_merge)
qed

text \<open>a commit that no kill interrupts writes the pending record to the journal before the
  mode, confirms the proposed mode, applies every overlay field of the proposal that the machine
  does not own, and leaves the engine committed with the window closed.\<close>

theorem commit_executes_the_proposal:
  assumes "e_state e = Verified" and "e_proposal e = Some p" and "e_snapshot e = Some snap"
    and "prop_apply p = Some patch" and "distinct (map fst patch)"
  shows "\<exists>e' m'. commit False False t (e, m) = Inr (e', m')
    \<and> rmode (resolve m') = prop_to p
    \<and> (\<forall>(k, v) \<in> set patch. k \<notin> set machine_owned_fields \<longrightarrow> field_of (record_value m') k = v)
    \<and> e_state e' = Committed \<and> \<not> window_open e' \<and> pending_since e' = None
    \<and> journal_entries m' = journal_entries m
        @ [JPending (prop_to p) snap p (clock_ms t) (now_iso t),
           JConfirm (prop_to p) (machine_now t)
             (Some (or_else (prop_reason p) (''transition-commit '' @ prop_id p))),
           JCommit (prop_to p) (now_iso t)]"
proof -
  let ?m0 = "append_journal (JPending (prop_to p) snap p (clock_ms t) (now_iso t)) m"
  let ?m2 = "overlay_rewrite patch (machine_now t) (confirm_mode (prop_to p)
    (Some (or_else (prop_reason p) (''transition-commit '' @ prop_id p))) (machine_now t) ?m0)"
  let ?m3 = "append_journal (JCommit (prop_to p) (now_iso t)) ?m2"
  have c: "\<exists>e'. commit False False t (e, m) = Inr (e', ?m3) \<and> e_state e' = Committed
      \<and> \<not> window_open e' \<and> pending_since e' = None"
    using assms(1-4) by (simp add: commit_def complete_commit_def Let_def)
  have r: "rmode (resolve ?m3) = prop_to p"
    by (rule rmode_of_field) (simp add: frame_simps)
  have v: "\<forall>(k, v) \<in> set patch. k \<notin> set machine_owned_fields \<longrightarrow> field_of (record_value ?m3) k = v"
    using assms(5) by (auto simp: frame_simps overlay_rewrite_value)
  have j: "journal_entries ?m3 = journal_entries m
      @ [JPending (prop_to p) snap p (clock_ms t) (now_iso t),
         JConfirm (prop_to p) (machine_now t)
           (Some (or_else (prop_reason p) (''transition-commit '' @ prop_id p))),
         JCommit (prop_to p) (now_iso t)]"
    by (simp add: frame_simps)
  from c r v j show ?thesis by blast
qed

section \<open>The pending choice\<close>

lemma complete_commit_total: "e_proposal (fst s) = Some p \<Longrightarrow> \<exists>s'. complete_commit t s = Inr s'"
  by (cases s) (auto simp: complete_commit_def Let_def)

lemma resolve_pending_via_total:
  assumes "engine_inv s" and "e_state (fst s) = CommitPending"
  shows "\<exists>s'. resolve_pending_via act via t s = Inr s'"
proof -
  from assms obtain p snap where p: "e_proposal (fst s) = Some p" "e_snapshot (fst s) = Some snap"
    "snapshot_ok snap"
    by (auto simp: engine_inv_def values_present_def)
  then have s1: "e_proposal (fst (journal_resolve act via t s)) = Some p"
    "e_snapshot (fst (journal_resolve act via t s)) = Some snap"
    by (simp_all add: journal_resolve_def)
  show ?thesis
  proof (cases act)
    case Resume
    with complete_commit_total [OF s1(1), of t] show ?thesis
      by (simp add: resolve_pending_via_def Let_def)
  next
    case Abort
    obtain s' restored where "apply_rollback (abort_reason via) t (journal_resolve act via t s)
      = Inr (s', restored)"
      using apply_rollback_total [OF s1(2) p(3)] by blast
    with Abort show ?thesis by (simp add: resolve_pending_via_def Let_def)
  qed
qed

text \<open>C16: a pending transition is always resolvable on this machine: the force verb succeeds at
  once, the surfaced choice succeeds exactly when the cap has elapsed, which is when the view
  offers it, and either way the engine ends committed or rolled back with nothing pending.\<close>

theorem pending_is_locally_resolvable:
  assumes "reachable_sys s" and "e_state (fst s) = CommitPending"
  shows "(\<exists>s'. force_resolve_pending act t s = Inr s' \<and> open_pending (snd s') = None
        \<and> e_state (fst s') = (if act = Resume then Committed else RolledBack))
    \<and> ((\<exists>s'. resolve_pending act t s = Inr s') \<longleftrightarrow> cap_elapsed t (fst s))
    \<and> (\<exists>v. pending t (fst s) = Some v \<and> (choices v \<noteq> None \<longleftrightarrow> cap_elapsed t (fst s)))"
proof -
  have inv: "engine_inv s" using assms(1) by (rule reachable_sys_inv)
  obtain s1 where s1: "resolve_pending_via act Force t s = Inr s1"
    using resolve_pending_via_total [OF inv assms(2)] by blast
  obtain s2 where s2: "resolve_pending_via act CapChoice t s = Inr s2"
    using resolve_pending_via_total [OF inv assms(2)] by blast
  have "\<exists>p snap. e_proposal (fst s) = Some p \<and> e_snapshot (fst s) = Some snap"
    using inv assms(2) by (auto simp: engine_inv_def values_present_def)
  then have v: "\<exists>v. pending t (fst s) = Some v \<and> (choices v \<noteq> None \<longleftrightarrow> cap_elapsed t (fst s))"
    using assms(2) by (auto simp: pending_def)
  show ?thesis
    using resolve_pending_via_closes [OF s1] assms(2) s1 s2 v
    by (auto simp: force_resolve_pending_def resolve_pending_def closes_to_def)
qed

theorem pending_is_locally_resolvable_witness:
  "\<exists>s'. force_resolve_pending Abort demo_instant demo_pending = Inr s' \<and> e_state (fst s') = RolledBack"
  using pending_is_locally_resolvable [OF demo_reachable(3) demo_pending_state, of Abort demo_instant]
  by auto

theorem commit_executes_the_proposal_witness:
  "\<exists>e' m'. commit False False demo_instant demo_verified = Inr (e', m') \<and> rmode (resolve m') = Fleet"
proof -
  obtain p snap where p: "e_proposal (fst demo_verified) = Some p" "prop_to p = Fleet"
    "prop_apply p = Some []" "e_snapshot (fst demo_verified) = Some snap"
    using demo_verified_simps by blast
  from commit_executes_the_proposal [OF demo_verified_state p(1,4,3), of demo_instant "snd demo_verified"] p(2)
  show ?thesis by auto
qed

end
