(* ===== verification/Mode_Rollback.thy ===== *)
theory Mode_Rollback
  imports Mode_Protocol
begin

text \<open>
  What a rollback restores, and the orders of operations in which the engine does not do what
  its comments promise: a verify that settles after its transition was rolled back, a death
  between the two halves of a pending resolution, and the frozen projection that a rollback or
  a confirm leaves behind on a record with no posture field.
\<close>

section \<open>Restoring a staged snapshot\<close>

text \<open>The writes of the other parties while a transition is in flight.\<close>

datatype env_write = EnvPosture attach_posture string string | EnvOverlay field_patch string

fun env_step :: "env_write \<Rightarrow> machine \<Rightarrow> machine" where
  "env_step (EnvPosture p r now) m = write_posture p r now m"
| "env_step (EnvOverlay patch now) m = overlay_rewrite patch now m"

definition env_run :: "env_write list \<Rightarrow> machine \<Rightarrow> machine" where
  "env_run ws m = fold env_step ws m"

lemma env_run_mode_field: "mode_field (record_value (env_run ws m)) = mode_field (record_value m)"
proof -
  have "mode_field (record_value (env_step w m)) = mode_field (record_value m)" for w m
    by (cases w) (simp_all add: frame_simps)
  then show ?thesis
    by (induction ws arbitrary: m) (simp_all add: env_run_def)
qed

lemma snapshot_fields_mode_first:
  assumes "''mode'' \<notin> set scoped"
  shows "\<exists>rest. snapshot_fields raw res scoped = (''mode'', Text (mode_name (rmode res))) # rest
     \<and> distinct (map fst ((''mode'', Text (mode_name (rmode res))) # rest))"
proof -
  have "\<exists>rest. foldl (\<lambda>fs f. obj_set fs f (field_of raw f)) ((''mode'', x) # r0) scoped
        = (''mode'', x) # rest \<and> distinct (map fst ((''mode'', x) # rest))"
    if "distinct (map fst ((''mode'', x) # r0))" for x r0
    using assms that
  proof (induction scoped arbitrary: r0)
    case (Cons f scoped)
    then have f: "f \<noteq> ''mode''" by auto
    have "obj_wf (obj_set ((''mode'', x) # r0) f (field_of raw f))"
      using Cons.prems(2) by (intro obj_wf_set) (simp add: obj_wf_def)
    with f have "distinct (map fst ((''mode'', x) # obj_set r0 f (field_of raw f)))"
      by (auto simp: obj_wf_def)
    from Cons.IH [OF _ this] Cons.prems(1) f show ?case by auto
  qed auto
  from this [of "Text (mode_name (rmode res))"
      "[(''state'', if field_of raw ''state'' \<noteq> Undefined then field_of raw ''state''
         else Text (legacy_name (legacy_state_of (rmode res) (rposture res))))]"]
  show ?thesis by (simp add: snapshot_fields_def)
qed

lemma snapshot_fields_get:
  "obj_get (snapshot_fields raw res scoped) k =
     (if k \<in> set scoped then Some (field_of raw k)
      else if k = ''mode'' then Some (Text (mode_name (rmode res)))
      else if k = ''state'' then Some (if field_of raw ''state'' \<noteq> Undefined then field_of raw ''state''
         else Text (legacy_name (legacy_state_of (rmode res) (rposture res))))
      else None)"
proof -
  have "obj_get (foldl (\<lambda>fs f. obj_set fs f (field_of raw f)) fs scoped) k =
      (if k \<in> set scoped then Some (field_of raw k) else obj_get fs k)" for fs
    by (induction scoped arbitrary: fs) auto
  then show ?thesis by (simp add: snapshot_fields_def)
qed

text \<open>The state value of the snapshot reads as the staged mode where no mode field does.\<close>

lemma snapshot_state_reads_mode:
  assumes "mode_field raw = None" and "mode_field r = None"
    and "obj_get (snapshot_fields raw (resolve_attach_state raw) scoped) ''state'' = Some v"
    and "field_of r ''state'' = v"
  shows "resolve_mode r = resolve_mode raw"
  using assms
  by (auto simp: snapshot_fields_get resolve_attach_state_def resolve_mode_def split: if_splits)

lemma restore_staged:
  assumes fs: "fs = snapshot_fields raw (resolve_attach_state raw) scoped"
    and sc: "''mode'' \<notin> set scoped"
    and mf: "mode_field (record_value m) = mode_field raw"
    and m': "m' = fst (foldl (\<lambda>mr fv. restore_field now fv mr) (m, []) fs)"
  shows "rmode (resolve m') = resolve_mode raw"
    and "\<And>k v. (k, v) \<in> set fs \<Longrightarrow> k \<noteq> ''mode'' \<Longrightarrow> field_of (record_value m') k = v"
proof -
  let ?md = "resolve_mode raw"
  obtain rest where rest: "fs = (''mode'', Text (mode_name ?md)) # rest" "distinct (map fst fs)"
    using snapshot_fields_mode_first [OF sc, of raw "resolve_attach_state raw"] fs
    by (auto simp: resolve_attach_state_def)
  then have nm: "''mode'' \<notin> fst ` set rest" and dr: "distinct (map fst rest)" by auto
  define m1 where "m1 = fst (restore_field now (''mode'', Text (mode_name ?md)) (m, []))"
  obtain acc where fold: "restore_field now (''mode'', Text (mode_name ?md)) (m, []) = (m1, acc)"
    by (cases "restore_field now (''mode'', Text (mode_name ?md)) (m, [])") (simp add: m1_def)
  have m'1: "m' = fst (foldl (\<lambda>mr fv. restore_field now fv mr) (m1, acc) rest)"
    using m' rest fold by simp
  show vals: "field_of (record_value m') k = v" if "(k, v) \<in> set fs" "k \<noteq> ''mode''" for k v
    using that rest nm dr unfolding m'1 by (auto intro: restore_fold_value)
  have fm: "field_of (record_value m') ''mode'' = field_of (record_value m1) ''mode''"
    unfolding m'1 using nm by (simp add: restore_fold_other)
  then have mf': "mode_field (record_value m') = mode_field (record_value m1)"
    by (simp add: mode_field_def)
  have r1: "rmode (resolve m1) = ?md"
    unfolding m1_def by (rule restore_field_mode_resolved)
  show "rmode (resolve m') = ?md"
  proof (cases "mode_field (record_value m1)")
    case (Some md)
    with r1 mf' show ?thesis
      by (simp add: resolve_def resolve_attach_state_def resolve_mode_def)
  next
    case None
    have "m1 = m"
    proof (rule ccontr)
      assume "m1 \<noteq> m"
      then have "mode_field (record_value m1) = Some ?md"
        unfolding m1_def by (auto simp: restore_field_def Let_def split: if_splits)
      with None show False by simp
    qed
    with None mf have raw: "mode_field raw = None" by simp
    have "\<exists>v. obj_get fs ''state'' = Some v" by (simp add: fs snapshot_fields_get)
    then obtain v where v: "obj_get fs ''state'' = Some v" ..
    then have "(''state'', v) \<in> set fs" by (rule map_of_SomeD)
    then have "field_of (record_value m') ''state'' = v" by (rule vals) simp
    with v fs raw None mf' show ?thesis
      by (auto simp: resolve_def resolve_attach_state_def intro: snapshot_state_reads_mode)
  qed
qed

lemma stage_snapshot:
  assumes "stage to reason ap sc uuid t (e, m) = Inr ((e1, m1), snap)"
  shows "snap_fields snap = snapshot_fields (record_value m) (resolve_attach_state (record_value m)) (or_else sc [])"
    "snap_mode snap = rmode (resolve m)" "e_snapshot e1 = Some snap" "e_state e1 = Staged"
    "record_value m1 = record_value m" "''posture'' \<notin> set (or_else sc [])"
  using assms
  by (auto simp: stage_def Let_def resolve_def frame_simps split: if_splits)

text \<open>rolling a staged transition back restores what the stage captured: after any posture and
  overlay writes of the other parties, the resolved mode is the one the transition was staged
  from, every mode-scoped field has its staged value, a second restoration of the same snapshot
  writes nothing, and a second rollback is a no-op.\<close>

theorem rollback_restores_the_staged_state:
  assumes "stage to reason ap sc uuid t (e, m) = Inr ((e1, m1), snap)"
    and "''mode'' \<notin> set (or_else sc [])"
  shows "\<exists>e2 m2 restored. rollback r t2 (e1, env_run ws m1) = Inr ((e2, m2), True, restored)
    \<and> rmode (resolve m2) = rmode (resolve m)
    \<and> (\<forall>f \<in> set (or_else sc []). field_of (record_value m2) f = field_of (record_value m) f)
    \<and> restore_mode_scoped (snap_fields snap) now m2 = Inr (m2, [])
    \<and> rollback r' t3 (e2, m2) = Inr ((e2, m2), False, [])"
proof -
  note st = stage_snapshot [OF assms(1)]
  let ?fs = "snap_fields snap" and ?raw = "record_value m"
  let ?m = "env_run ws m1"
  have np: "\<not> obj_has ?fs ''posture''"
    unfolding st(1) by (rule snapshot_fields_posture [OF st(6)])
  obtain m3 restored where m3: "foldl (\<lambda>mr fv. restore_field (machine_now t2) fv mr) (?m, []) ?fs = (m3, restored)"
    by fastforce
  let ?m2 = "append_journal (JRollback (snap_mode snap) (now_iso t2) (Some (or_else r ''explicit rollback''))) m3"
  have mf: "mode_field (record_value ?m) = mode_field ?raw"
    by (simp add: env_run_mode_field st(5))
  have m3': "m3 = fst (foldl (\<lambda>mr fv. restore_field (machine_now t2) fv mr) (?m, []) ?fs)"
    by (simp add: m3)
  note rs = restore_staged [OF st(1) assms(2) mf m3']
  have md: "rmode (resolve ?m2) = rmode (resolve m)"
    using rs(1) by (simp add: frame_simps) (simp add: resolve_def resolve_attach_state_def)
  have vals: "field_of (record_value ?m2) k = v" if "(k, v) \<in> set ?fs" "k \<noteq> ''mode''" for k v
    using rs(2) [OF that] by (simp add: frame_simps)
  have scoped: "field_of (record_value ?m2) f = field_of ?raw f" if "f \<in> set (or_else sc [])" for f
  proof -
    have "obj_get ?fs f = Some (field_of ?raw f)" using that by (simp add: st(1) snapshot_fields_get)
    then have "(f, field_of ?raw f) \<in> set ?fs" by (rule map_of_SomeD)
    moreover have "f \<noteq> ''mode''" using that assms(2) by auto
    ultimately show ?thesis by (rule vals)
  qed
  have again: "restore_mode_scoped ?fs now ?m2 = Inr (?m2, [])"
  proof -
    obtain rest where rest: "?fs = (''mode'', Text (mode_name (rmode (resolve m)))) # rest"
      "distinct (map fst ?fs)"
      using snapshot_fields_mode_first [OF assms(2), of ?raw "resolve_attach_state ?raw"] st(1)
      by (auto simp: resolve_def)
    have "restore_field now (''mode'', Text (mode_name (rmode (resolve m)))) (?m2, []) = (?m2, [])"
      by (simp add: restore_field_def Let_def md)
    moreover have "foldl (\<lambda>mr fv. restore_field now fv mr) (?m2, []) rest = (?m2, [])"
    proof (rule restore_idle)
      show nm: "''mode'' \<notin> fst ` set rest" using rest by simp
      fix k v
      assume kv: "(k, v) \<in> set rest"
      with nm have "k \<noteq> ''mode''" by force
      with kv rest show "field_of (record_value ?m2) k = v" by (intro vals) simp_all
    qed
    ultimately show ?thesis using np rest(1) by (simp add: restore_mode_scoped_def)
  qed
  show ?thesis
    using md scoped again np st(3,4)
    by (auto simp: rollback_def apply_rollback_def restore_mode_scoped_def m3 Let_def)
qed

theorem rollback_restores_the_staged_state_witness:
  "\<exists>e1 m1 snap e2 m2 restored.
     stage Fleet None None (Some [''program'']) ''u'' \<lparr>clock_ms = 0, machine_now = ''t''\<rparr>
       (new_engine None None (new_machine Map.empty), new_machine Map.empty) = Inr ((e1, m1), snap)
     \<and> rollback None \<lparr>clock_ms = 1, machine_now = ''t''\<rparr>
         (e1, env_run [EnvPosture HubDown ''r'' ''t'', EnvOverlay [(''program'', Opaque 7)] ''t''] m1)
         = Inr ((e2, m2), True, restored)
     \<and> rmode (resolve m2) = Standalone \<and> field_of (record_value m2) ''program'' = Undefined"
proof -
  let ?t = "\<lparr>clock_ms = 0, machine_now = ''t''\<rparr>" and ?m = "new_machine Map.empty"
  let ?ws = "[EnvPosture HubDown ''r'' ''t'', EnvOverlay [(''program'', Opaque 7)] ''t'']"
  have rm: "rmode (resolve ?m) = Standalone"
    by (simp add: new_machine_def resolve_def resolve_attach_state_def resolve_mode_def mode_field_def
        field_of_def)
  obtain e1 m1 snap where st: "stage Fleet None None (Some [''program'']) ''u'' ?t
      (new_engine None None ?m, ?m) = Inr ((e1, m1), snap)"
    using rm by (simp add: stage_def Let_def new_engine_def recover_from_journal_def in_flight_def)
      (simp add: new_machine_def in_flight_def Let_def)
  have p: "field_of (record_value ?m) ''program'' = Undefined" by (simp add: new_machine_def field_of_def)
  from rollback_restores_the_staged_state [OF st, of None "\<lparr>clock_ms = 1, machine_now = ''t''\<rparr>" ?ws
      "''t''" None ?t]
  obtain e2 m2 restored where "rollback None \<lparr>clock_ms = 1, machine_now = ''t''\<rparr> (e1, env_run ?ws m1)
      = Inr ((e2, m2), True, restored)" "rmode (resolve m2) = Standalone"
      "field_of (record_value m2) ''program'' = Undefined"
    by (auto simp: rm p)
  with st show ?thesis by blast
qed

section \<open>Orders the engine does not guard\<close>

text \<open>a verify attempt does not notice that its transition was rolled back while it awaited the
  attach test: when the test then passes, the rolled-back transition is verified again with the
  commit window closed, and a commit moves the mode to the proposed one.\<close>

theorem settled_verify_revives_a_rollback:
  assumes "reachable_sys (e, m)" and "e_state e = Staged" and "e_proposal e = Some p"
  shows "\<exists>ctx s2 restored s3 s4. verify_begin (e, m) = Inr ctx
    \<and> rollback r t (verify_open ctx (e, m)) = Inr (s2, True, restored)
    \<and> e_state (fst s2) = RolledBack
    \<and> verify_settle ctx (Settled Pass) t s2 = Inr (s3, Some Pass)
    \<and> e_state (fst s3) = Verified \<and> \<not> window_open (fst s3)
    \<and> commit False False t s3 = Inr s4 \<and> rmode (resolve (snd s4)) = prop_to p"
proof -
  have inv: "engine_inv (e, m)" by (rule reachable_sys_inv) (rule assms(1))
  then obtain snap where snap: "e_snapshot e = Some snap" "snapshot_ok snap"
    using assms(2) by (auto simp: engine_inv_def values_present_def)
  define ctx where "ctx = \<lparr>ctx_proposal = p, ctx_budget = verify_budget_ms e\<rparr>"
  have b: "verify_begin (e, m) = Inr ctx"
    using assms(2,3) by (simp add: verify_begin_def ctx_def)
  have vo: "e_snapshot (fst (verify_open ctx (e, m))) = Some snap"
    "e_state (fst (verify_open ctx (e, m))) = Staged"
    "e_proposal (fst (verify_open ctx (e, m))) = Some p"
    using snap assms(2,3) by (simp_all add: verify_open_def Let_def)
  obtain s2 restored where ar: "apply_rollback (or_else r ''explicit rollback'') t (verify_open ctx (e, m))
      = Inr (s2, restored)"
    using apply_rollback_total [OF vo(1) snap(2)] by blast
  then have rb: "rollback r t (verify_open ctx (e, m)) = Inr (s2, True, restored)"
    using vo(2) by (simp add: rollback_def Let_def)
  from apply_rollback_closes(1) [OF ar] vo have s2: "e_state (fst s2) = RolledBack"
    "\<not> window_open (fst s2)" "e_proposal (fst s2) = Some p" "e_snapshot (fst s2) = Some snap"
    by (simp_all add: closes_to_def)
  define s3 where "s3 = ((fst s2)\<lparr>e_state := Verified\<rparr>, journal_verify Pass t (snd s2))"
  have vs: "verify_settle ctx (Settled Pass) t s2 = Inr (s3, Some Pass)"
    by (cases s2) (simp add: verify_settle_def s3_def)
  define pat where "pat = prop_apply p"
  have "\<exists>s4. commit False False t s3 = Inr s4 \<and> mode_field (record_value (snd s4)) = Some (prop_to p)"
    using s2 by (cases "prop_apply p")
      (auto simp: s3_def commit_def complete_commit_def Let_def frame_simps)
  then obtain s4 where s4: "commit False False t s3 = Inr s4"
    "mode_field (record_value (snd s4)) = Some (prop_to p)" by blast
  have "e_state (fst s3) = Verified" "\<not> window_open (fst s3)" using s2 by (simp_all add: s3_def)
  with b rb s2 vs s4 rmode_of_field [OF s4(2)] show ?thesis by blast
qed

text \<open>the resolve record closes the pending transition in the journal before the resolution has
  run: a death between the two leaves a fresh engine idle with nothing to resume or abort, the
  machine still in the mode it had, and the human's choice to resume lost.\<close>

theorem death_inside_a_resolution_loses_it:
  assumes "reachable_sys (e, m)" and "e_state e = CommitPending"
  shows "let m1 = snd (journal_resolve act via t (e, m)); e1 = new_engine b c m1
    in e_state e1 = Idle \<and> \<not> window_open e1 \<and> rmode (resolve m1) = rmode (resolve m)
      \<and> force_resolve_pending act' t' (e1, m1) = Inl (NoPending Idle)
      \<and> engine_resume pre mid t' (e1, m1) = Inl (NothingToResume Idle)
      \<and> rollback r t' (e1, m1) = Inl (NoRollback Idle)"
proof -
  let ?m1 = "snd (journal_resolve act via t (e, m))"
  have "open_pending ?m1 = None"
    by (simp add: journal_resolve_def frame_simps scan_pending_append)
  then have e1: "e_state (new_engine b c ?m1) = Idle" "\<not> window_open (new_engine b c ?m1)"
    by (simp_all add: new_engine_def recover_from_journal_def)
  have "resolve ?m1 = resolve m" by (simp add: journal_resolve_def frame_simps)
  with e1 show ?thesis
    by (simp add: Let_def force_resolve_pending_def engine_resume_def rollback_def)
qed

text \<open>on a standalone record that carries neither a posture nor the frozen field, a rolled-back
  transition moves the rendered posture from ok to hub-down: the restored legacy projection is
  read back as a transport-written hub-down entry.\<close>

theorem rollback_on_a_fresh_record_reads_hub_down:
  assumes "stage to reason ap sc uuid t (e, m) = Inr ((e1, m1), snap)"
    and "''mode'' \<notin> set (or_else sc [])" and "''state'' \<notin> set (or_else sc [])"
    and "posture_field (record_value m) = None" and "field_of (record_value m) ''state'' = Undefined"
    and "rmode (resolve m) = Standalone"
    and "rollback r t2 (e1, m1) = Inr ((e2, m2), True, restored)"
  shows "rposture (resolve m) = Ok \<and> rposture (resolve m2) = HubDown"
proof -
  note st = stage_snapshot [OF assms(1)]
  let ?fs = "snap_fields snap"
  have np: "\<not> obj_has ?fs ''posture''"
    unfolding st(1) by (rule snapshot_fields_posture [OF st(6)])
  define m3 where "m3 = fst (foldl (\<lambda>mr fv. restore_field (machine_now t2) fv mr) (m1, []) ?fs)"
  have m2: "record_value m2 = record_value m3"
    using assms(7) st(3,4) np
    by (auto simp: rollback_def apply_rollback_def restore_mode_scoped_def m3_def Let_def frame_simps
        split: prod.splits)
  have mf: "mode_field (record_value m1) = mode_field (record_value m)" by (simp add: st(5))
  have "obj_get ?fs ''state'' = Some (Text ''standalone'')"
    using assms(3,5,6) by (simp add: st(1) snapshot_fields_get resolve_def)
  then have "(''state'', Text ''standalone'') \<in> set ?fs" by (rule map_of_SomeD)
  then have state: "field_of (record_value m2) ''state'' = Text ''standalone''"
    using restore_staged(2) [OF st(1) assms(2) mf m3_def] by (simp add: m2)
  have keep: "''posture'' \<notin> fst ` set fs \<Longrightarrow>
      field_of (record_value (fst (foldl (\<lambda>mr fv. restore_field now fv mr) mr fs))) ''posture''
      = field_of (record_value (fst mr)) ''posture''" for fs now mr
    by (induction fs arbitrary: mr) (auto simp: restore_field_other)
  have "field_of (record_value m2) ''posture'' = field_of (record_value m) ''posture''"
    using keep [OF np, of "machine_now t2" "(m1, [])"] by (simp add: m2 m3_def st(5))
  then have "posture_field (record_value m2) = None"
    using assms(4) by (simp add: posture_field_def)
  with state assms(4,5) show ?thesis
    by (simp add: resolve_def resolve_attach_state_def resolve_posture_def)
qed

section \<open>Witnesses\<close>

theorem settled_verify_revives_a_rollback_witness:
  "\<exists>ctx s2 restored s3 s4. verify_begin demo_staged = Inr ctx
    \<and> rollback None demo_instant (verify_open ctx demo_staged) = Inr (s2, True, restored)
    \<and> verify_settle ctx (Settled Pass) demo_instant s2 = Inr (s3, Some Pass)
    \<and> commit False False demo_instant s3 = Inr s4 \<and> rmode (resolve (snd s4)) = Fleet"
proof -
  obtain p where p: "e_proposal (fst demo_staged) = Some p" "prop_to p = Fleet"
    using demo_staged_simps by blast
  have r: "reachable_sys (fst demo_staged, snd demo_staged)" using demo_reachable(1) by simp
  from settled_verify_revives_a_rollback [OF r demo_staged_state p(1), of None demo_instant] p(2)
  show ?thesis by auto
qed

theorem death_inside_a_resolution_loses_it_witness:
  "e_state (new_engine None None (snd (journal_resolve Resume Force demo_instant demo_pending))) = Idle"
proof -
  have r: "reachable_sys (fst demo_pending, snd demo_pending)" using demo_reachable(3) by simp
  from death_inside_a_resolution_loses_it [OF r demo_pending_state, of Resume Force demo_instant None None]
  show ?thesis by (simp add: Let_def)
qed

theorem rollback_on_a_fresh_record_reads_hub_down_witness:
  "\<exists>s2 restored. rollback None demo_instant demo_staged = Inr (s2, True, restored)
     \<and> rposture (resolve (snd s2)) = HubDown"
proof -
  obtain snap where st: "stage Fleet None (Some []) None ''u1'' demo_instant (fst demo_start, snd demo_start)
      = Inr ((fst demo_staged, snd demo_staged), snap)"
    using demo_stage by auto
  obtain sn where sn: "e_snapshot (fst demo_staged) = Some sn" "snapshot_ok sn"
    using reachable_sys_inv [OF demo_reachable(1)]
    by (auto simp: engine_inv_def values_present_def)
  obtain s2 restored where rb: "rollback None demo_instant demo_staged = Inr (s2, True, restored)"
    using apply_rollback_total [OF sn, of "''explicit rollback''" demo_instant]
    by (auto simp: rollback_def Let_def)
  then have rb': "rollback None demo_instant (fst demo_staged, snd demo_staged)
      = Inr ((fst s2, snd s2), True, restored)" by simp
  from rollback_on_a_fresh_record_reads_hub_down [OF st _ _ _ _ _ rb'] rb show ?thesis by auto
qed

end
