(* ===== verification/Fleet_Posture.thy ===== *)
theory Fleet_Posture
  imports Fleet_Prelude
begin

text \<open>
  The posture detector of the local-shell data plane
  (\<open>packages/extension/src/amicode_service/fleet_posture.ts\<close>): a synchronous state machine over
  the outcome stream, with hysteresis. Latencies are whole milliseconds; the reading of the
  injected clock is an argument.
\<close>

section \<open>Vocabulary and tuning\<close>

datatype posture_state = PFleet | PDegraded | PStandalone

datatype outcome = Responded int | NoResponse "string option"

record transition =
  t_from :: posture_state
  t_to :: posture_state
  t_at :: string
  t_reason :: string

record tuning =
  degraded_latency_p95_ms :: int
  degraded_window_samples :: nat
  hub_down_consecutive_no_responses :: nat
  recovery_consecutive_healthy :: nat

definition default_tuning :: tuning where
  "default_tuning =
     \<lparr>degraded_latency_p95_ms = 2000, degraded_window_samples = 5,
      hub_down_consecutive_no_responses = 3, recovery_consecutive_healthy = 3\<rparr>"

definition max_transitions_kept :: nat where
  "max_transitions_kept = 10"

text \<open>Nearest-rank p95: \<open>Math.ceil(0.95 * n)\<close> is the integer ceiling of \<open>19 n / 20\<close> (the double
  nearest to 0.95 lies below it, so the rounded product never passes the exact one).\<close>

definition percentile95 :: "int list \<Rightarrow> int" where
  "percentile95 samples =
     (if samples = [] then 0
      else (let sorted = sort samples in sorted ! ((19 * length sorted + 19) div 20 - 1)))"

text \<open>\<open>window.push(x)\<close>, then \<open>window.shift()\<close> when the window is longer than the bound.\<close>

definition push_window :: "nat \<Rightarrow> int \<Rightarrow> int list \<Rightarrow> int list" where
  "push_window bound x win = (let w = win @ [x] in if length w > bound then tl w else w)"

section \<open>The detector\<close>

record detector =
  d_state :: posture_state
  d_since :: string
  no_response_streak :: nat
  healthy_streak :: nat
  window :: "int list"
  epoch :: nat
  transitions :: "transition list"
  parity_version :: "string option"
  parity_previous :: "string option"

definition new_detector :: "string \<Rightarrow> detector" where
  "new_detector now =
     \<lparr>d_state = PFleet, d_since = now, no_response_streak = 0, healthy_streak = 0, window = [],
      epoch = 0, transitions = [], parity_version = None, parity_previous = None\<rparr>"

definition move_to :: "posture_state \<Rightarrow> string \<Rightarrow> string \<Rightarrow> detector \<Rightarrow> detector" where
  "move_to to reason now d =
     (let t = \<lparr>t_from = d_state d, t_to = to, t_at = now, t_reason = reason\<rparr>;
          ts = transitions d @ [t]
      in d\<lparr>d_state := to, d_since := now, epoch := Suc (epoch d),
           transitions := (if length ts > max_transitions_kept then tl ts else ts),
           window := (if to = PStandalone then [] else window d)\<rparr>)"

definition latency_reason :: "tuning \<Rightarrow> string" where
  "latency_reason tu =
     ''latency-window: p95 of the last '' @ string_of_nat (degraded_window_samples tu)
     @ '' data-plane responses >= '' @ string_of_int (degraded_latency_p95_ms tu)
     @ ''ms (hub-up-but-slow)''"

definition latency_recovered_reason :: string where
  "latency_recovered_reason =
     ''recovered: latency back under threshold across the recovery streak''"

definition answering_reason :: string where
  "answering_reason = ''recovered: the hub answering again across the recovery streak''"

definition hub_down_reason :: "nat \<Rightarrow> string" where
  "hub_down_reason n =
     ''hub-down: '' @ string_of_nat n
     @ '' consecutive data-plane requests resolved by the client-enforced timeout or a transport error''"

fun record_outcome :: "tuning \<Rightarrow> outcome \<Rightarrow> string \<Rightarrow> detector \<Rightarrow> detector" where
  "record_outcome tu (Responded latency) now d =
     (let d1 = d\<lparr>healthy_streak := Suc (healthy_streak d), no_response_streak := 0,
                 window := push_window (degraded_window_samples tu) latency (window d)\<rparr>;
          p95 = percentile95 (window d1)
      in if d_state d1 = PFleet \<and> length (window d1) \<ge> degraded_window_samples tu
            \<and> p95 \<ge> degraded_latency_p95_ms tu
         then move_to PDegraded (latency_reason tu) now d1
         else if d_state d1 = PDegraded \<and> healthy_streak d1 \<ge> recovery_consecutive_healthy tu
            \<and> p95 < degraded_latency_p95_ms tu
         then move_to PFleet latency_recovered_reason now d1
         else if d_state d1 = PStandalone \<and> healthy_streak d1 \<ge> recovery_consecutive_healthy tu
         then move_to PFleet answering_reason now d1
         else d1)"
| "record_outcome tu (NoResponse detail) now d =
     (let d1 = d\<lparr>no_response_streak := Suc (no_response_streak d), healthy_streak := 0\<rparr>
      in if d_state d1 \<noteq> PStandalone
            \<and> no_response_streak d1 \<ge> hub_down_consecutive_no_responses tu
         then move_to PStandalone (hub_down_reason (no_response_streak d1)) now d1
         else d1)"

definition note_hub_version :: "string option \<Rightarrow> detector \<Rightarrow> detector" where
  "note_hub_version version d =
     (case version of
        None \<Rightarrow> d
      | Some v \<Rightarrow>
          (case parity_version d of
             None \<Rightarrow> d\<lparr>parity_version := Some v\<rparr>
           | Some w \<Rightarrow>
               if v \<noteq> w then d\<lparr>parity_previous := Some w, parity_version := Some v\<rparr> else d))"

record posture_snapshot =
  ps_state :: posture_state
  ps_pointer :: bool
  ps_since :: string
  ps_no_response_streak :: nat
  ps_healthy_streak :: nat
  ps_latency_window :: "int list"
  ps_refetch_epoch :: nat
  ps_transitions :: "transition list"
  ps_last_transition :: "transition option"
  ps_parity_version :: "string option"
  ps_parity_previous :: "string option"
  ps_parity_changed :: bool

text \<open>\<open>ps_pointer\<close>: the hub-down pointer text is set.\<close>

definition posture_snapshot_of :: "detector \<Rightarrow> posture_snapshot" where
  "posture_snapshot_of d =
     \<lparr>ps_state = d_state d, ps_pointer = (d_state d = PStandalone), ps_since = d_since d,
      ps_no_response_streak = no_response_streak d, ps_healthy_streak = healthy_streak d,
      ps_latency_window = window d, ps_refetch_epoch = epoch d, ps_transitions = transitions d,
      ps_last_transition = (if transitions d = [] then None else Some (last (transitions d))),
      ps_parity_version = parity_version d, ps_parity_previous = parity_previous d,
      ps_parity_changed = (parity_version d \<noteq> None \<and> parity_previous d \<noteq> None
        \<and> parity_version d \<noteq> parity_previous d)\<rparr>"

definition detector_run :: "tuning \<Rightarrow> (outcome \<times> string) list \<Rightarrow> detector \<Rightarrow> detector" where
  "detector_run tu os d = foldl (\<lambda>d (out, now). record_outcome tu out now d) d os"

lemma detector_run_simps [simp]:
  "detector_run tu [] d = d"
  "detector_run tu ((out, now) # os) d = detector_run tu os (record_outcome tu out now d)"
  by (simp_all add: detector_run_def)

lemma detector_run_append: "detector_run tu (os @ os') d = detector_run tu os' (detector_run tu os d)"
  by (simp add: detector_run_def)

section \<open>The window and its percentile\<close>

lemma length_push_window: "length win \<le> bound \<Longrightarrow> length (push_window bound x win) \<le> bound"
  by (simp add: push_window_def Let_def)

lemma percentile95_in:
  assumes "samples \<noteq> []"
  shows "percentile95 samples \<in> set samples"
proof -
  from assms have "(19 * length samples + 19) div 20 - 1 < length samples" by (cases samples) auto
  then have "sort samples ! ((19 * length samples + 19) div 20 - 1) \<in> set (sort samples)"
    by (intro nth_mem) simp
  with assms show ?thesis by (simp add: percentile95_def)
qed

lemma last_sorted_Max:
  fixes xs :: "int list"
  assumes "sorted xs" and "xs \<noteq> []"
  shows "last xs = Max (set xs)"
proof -
  have xs: "xs = butlast xs @ [last xs]" using assms(2) by simp
  have "\<forall>x \<in> set (butlast xs). x \<le> last xs"
    using assms(1) by (subst (asm) xs) (simp add: sorted_append)
  then have "\<forall>x \<in> set xs. x \<le> last xs"
    by (subst xs) (simp del: append_butlast_last_id)
  then show ?thesis using assms(2) by (intro Max_eqI [symmetric]) auto
qed

text \<open>In a window of fewer than twenty samples the 95th percentile is the largest sample.\<close>

lemma percentile95_max:
  assumes "samples \<noteq> []" and "length samples < 20"
  shows "percentile95 samples = Max (set samples)"
proof -
  have i: "(19 * length samples + 19) div 20 - 1 = length samples - 1"
  proof -
    have "(19 * length samples + 19) div 20 = length samples"
      using assms(2) by (intro div_nat_eqI) auto
    then show ?thesis by simp
  qed
  have ne: "sort samples \<noteq> []"
    using assms(1) by (metis length_0_conv length_sort)
  have "percentile95 samples = last (sort samples)"
    using assms(1) i ne by (simp add: percentile95_def last_conv_nth)
  also have "\<dots> = Max (set (sort samples))"
    by (rule last_sorted_Max [OF sorted_sort ne])
  finally show ?thesis by simp
qed

section \<open>The invariant\<close>

text \<open>The window keeps to its bound, the streaks exclude each other, and the transition log is
  the last transitions of the run: each changes the state and the last one led here.\<close>

definition log_chain :: "posture_state \<Rightarrow> transition list \<Rightarrow> bool" where
  "log_chain st ts \<longleftrightarrow>
     (\<forall>t \<in> set ts. t_from t \<noteq> t_to t)
     \<and> (\<forall>i. Suc i < length ts \<longrightarrow> t_to (ts ! i) = t_from (ts ! Suc i))
     \<and> (ts \<noteq> [] \<longrightarrow> t_to (last ts) = st)"

definition detector_inv :: "tuning \<Rightarrow> detector \<Rightarrow> bool" where
  "detector_inv tu d \<longleftrightarrow>
     length (window d) \<le> degraded_window_samples tu
     \<and> (no_response_streak d = 0 \<or> healthy_streak d = 0)
     \<and> log_chain (d_state d) (transitions d)
     \<and> length (transitions d) = min max_transitions_kept (epoch d)
     \<and> (d_state d \<noteq> PStandalone \<longrightarrow> no_response_streak d < hub_down_consecutive_no_responses tu)
     \<and> (d_state d = PStandalone \<longrightarrow> healthy_streak d < recovery_consecutive_healthy tu)"

lemma log_chain_append:
  assumes "log_chain st ts" and "ts \<noteq> [] \<longrightarrow> t_from t = st" and "t_from t \<noteq> t_to t"
  shows "log_chain (t_to t) (ts @ [t])"
proof -
  have "t_to ((ts @ [t]) ! i) = t_from ((ts @ [t]) ! Suc i)" if "Suc i < length (ts @ [t])" for i
  proof (cases "Suc i < length ts")
    case True
    with assms(1) show ?thesis by (simp add: log_chain_def nth_append)
  next
    case False
    with that have "i = length ts - 1" "ts \<noteq> []" by auto
    with assms show ?thesis by (auto simp: log_chain_def nth_append last_conv_nth)
  qed
  with assms show ?thesis by (auto simp: log_chain_def)
qed

lemma log_chain_tl: "log_chain st ts \<Longrightarrow> length ts > 1 \<Longrightarrow> log_chain st (tl ts)"
  by (cases ts) (auto simp: log_chain_def nth_Cons' split: if_splits)

lemma move_to_log:
  assumes "log_chain (d_state d) (transitions d)" and "to \<noteq> d_state d"
    and "length (transitions d) = min max_transitions_kept (epoch d)"
  shows "log_chain to (transitions (move_to to reason now d))
    \<and> length (transitions (move_to to reason now d)) = min max_transitions_kept (epoch (move_to to reason now d))"
proof -
  define t where "t = \<lparr>t_from = d_state d, t_to = to, t_at = now, t_reason = reason\<rparr>"
  have "log_chain to (transitions d @ [t])"
    using log_chain_append [OF assms(1), of t] assms(2) by (auto simp: t_def)
  then show ?thesis
    using assms(3) log_chain_tl [of to "transitions d @ [t]"]
    by (auto simp: move_to_def Let_def t_def [symmetric] max_transitions_kept_def)
qed

lemma move_to_simps [simp]:
  "d_state (move_to to reason now d) = to"
  "no_response_streak (move_to to reason now d) = no_response_streak d"
  "healthy_streak (move_to to reason now d) = healthy_streak d"
  "window (move_to to reason now d) = (if to = PStandalone then [] else window d)"
  "epoch (move_to to reason now d) = Suc (epoch d)"
  "parity_version (move_to to reason now d) = parity_version d"
  "parity_previous (move_to to reason now d) = parity_previous d"
  by (simp_all add: move_to_def Let_def)

definition tuning_ok :: "tuning \<Rightarrow> bool" where
  "tuning_ok tu \<longleftrightarrow> 0 < hub_down_consecutive_no_responses tu \<and> 0 < recovery_consecutive_healthy tu"

lemma record_outcome_inv [inv_intros]:
  assumes "detector_inv tu d" and "tuning_ok tu"
  shows "detector_inv tu (record_outcome tu out now d)"
proof (cases out)
  case (Responded latency)
  let ?d1 = "d\<lparr>healthy_streak := Suc (healthy_streak d), no_response_streak := 0,
    window := push_window (degraded_window_samples tu) latency (window d)\<rparr>"
  have w: "length (window ?d1) \<le> degraded_window_samples tu"
    using assms(1) by (simp add: detector_inv_def length_push_window)
  have log: "to \<noteq> d_state ?d1 \<Longrightarrow> log_chain to (transitions (move_to to r now ?d1))
      \<and> length (transitions (move_to to r now ?d1)) = min max_transitions_kept (Suc (epoch d))" for to r
    using move_to_log [of ?d1 to r now] assms(1) by (simp add: detector_inv_def)
  show ?thesis
    using assms w log unfolding Responded
    by (auto simp: Let_def detector_inv_def tuning_ok_def)
next
  case (NoResponse detail)
  let ?d1 = "d\<lparr>no_response_streak := Suc (no_response_streak d), healthy_streak := 0\<rparr>"
  have log: "to \<noteq> d_state ?d1 \<Longrightarrow> log_chain to (transitions (move_to to r now ?d1))
      \<and> length (transitions (move_to to r now ?d1)) = min max_transitions_kept (Suc (epoch d))" for to r
    using move_to_log [of ?d1 to r now] assms(1) by (simp add: detector_inv_def)
  show ?thesis
    using assms log unfolding NoResponse
    by (auto simp: Let_def detector_inv_def tuning_ok_def)
qed

lemma new_detector_inv: "tuning_ok tu \<Longrightarrow> detector_inv tu (new_detector now)"
  by (simp add: detector_inv_def new_detector_def log_chain_def tuning_ok_def)

lemma detector_run_inv: "detector_inv tu d \<Longrightarrow> tuning_ok tu \<Longrightarrow> detector_inv tu (detector_run tu os d)"
  by (induction os arbitrary: d) (auto simp del: record_outcome.simps simp: record_outcome_inv)


section \<open>The hub-down posture, as a predicate of the outcome history\<close>

text \<open>The contract of the hysteresis, with no counters in it: the hub is down when some burst of
  \<open>n\<close> consecutive no-responses has not been followed by \<open>r\<close> consecutive answers.\<close>

fun answered :: "outcome \<Rightarrow> bool" where
  "answered (Responded latency) = True"
| "answered (NoResponse detail) = False"

definition has_run :: "nat \<Rightarrow> bool list \<Rightarrow> bool" where
  "has_run r bs \<longleftrightarrow> (\<exists>a b c. bs = a @ b @ c \<and> length b = r \<and> (\<forall>x \<in> set b. x))"

definition hub_is_down :: "nat \<Rightarrow> nat \<Rightarrow> bool list \<Rightarrow> bool" where
  "hub_is_down n r bs \<longleftrightarrow>
     (\<exists>pre burst post. bs = pre @ burst @ post \<and> length burst = n \<and> (\<forall>x \<in> set burst. \<not> x)
        \<and> \<not> has_run r post)"

definition trailing :: "bool \<Rightarrow> bool list \<Rightarrow> nat" where
  "trailing v bs = length (takeWhile (\<lambda>x. x = v) (rev bs))"

lemma trailing_simps [simp]:
  "trailing v [] = 0"
  "trailing v (bs @ [x]) = (if x = v then Suc (trailing v bs) else 0)"
  by (simp_all add: trailing_def)

lemma trailing_suffix:
  "k \<le> trailing v bs \<longleftrightarrow> (\<exists>a b. bs = a @ b \<and> length b = k \<and> (\<forall>x \<in> set b. x = v))"
proof (induction bs arbitrary: k rule: rev_induct)
  case (snoc x bs)
  show ?case
  proof (cases k)
    case 0
    then show ?thesis by auto
  next
    case (Suc j)
    have "(\<exists>a b. bs @ [x] = a @ b \<and> length b = Suc j \<and> (\<forall>y \<in> set b. y = v))
        \<longleftrightarrow> x = v \<and> (\<exists>a b. bs = a @ b \<and> length b = j \<and> (\<forall>y \<in> set b. y = v))" (is "?l \<longleftrightarrow> ?r")
    proof
      assume ?l
      then obtain a b where ab: "bs @ [x] = a @ b" "length b = Suc j" "\<forall>y \<in> set b. y = v" by blast
      from ab(2) obtain b' y where b: "b = b' @ [y]" by (cases b rule: rev_cases) auto
      have "bs @ [x] = (a @ b') @ [y]" using ab(1) b by simp
      then have "bs = a @ b'" "x = y" by (simp_all only: append1_eq_conv)
      with ab b show ?r by simp (intro exI [of _ a] exI [of _ b'], simp)
    next
      assume ?r
      then obtain a b where "bs = a @ b" "length b = j" "\<forall>y \<in> set b. y = v" "x = v"
        by (elim conjE exE)
      then show ?l by (intro exI [of _ a] exI [of _ "b @ [x]"]) simp
    qed
    with Suc snoc.IH [of j] show ?thesis by auto
  qed
qed auto

lemma has_run_snoc:
  "has_run r (bs @ [x]) \<longleftrightarrow> has_run r bs \<or> r \<le> trailing True (bs @ [x])"
proof
  assume "has_run r (bs @ [x])"
  then obtain a b c where abc: "bs @ [x] = a @ b @ c" "length b = r" "\<forall>y \<in> set b. y"
    unfolding has_run_def by blast
  show "has_run r bs \<or> r \<le> trailing True (bs @ [x])"
  proof (cases c rule: rev_cases)
    case Nil
    with abc have "bs @ [x] = a @ b \<and> length b = r \<and> (\<forall>y \<in> set b. y = True)" by simp
    then show ?thesis unfolding trailing_suffix by blast
  next
    case (snoc c' y)
    with abc have "bs = a @ b @ c'" by simp
    with abc show ?thesis unfolding has_run_def by blast
  qed
next
  assume "has_run r bs \<or> r \<le> trailing True (bs @ [x])"
  then show "has_run r (bs @ [x])"
  proof
    assume "has_run r bs"
    then obtain a b c where "bs = a @ b @ c" "length b = r" "\<forall>y \<in> set b. y"
      unfolding has_run_def by blast
    then show ?thesis unfolding has_run_def
      by (intro exI [of _ a] exI [of _ b] exI [of _ "c @ [x]"]) simp
  next
    assume "r \<le> trailing True (bs @ [x])"
    then obtain a b where "bs @ [x] = a @ b" "length b = r" "\<forall>y \<in> set b. y = True"
      unfolding trailing_suffix by blast
    then show ?thesis unfolding has_run_def
      by (intro exI [of _ a] exI [of _ b] exI [of _ "[]"]) simp
  qed
qed

lemma trailing_append_le: "trailing True bs \<le> trailing True (as @ bs)"
proof -
  obtain a b where "bs = a @ b" "length b = trailing True bs" "\<forall>x \<in> set b. x = True"
    using trailing_suffix [of "trailing True bs" True bs] by blast
  then have "as @ bs = (as @ a) @ b \<and> length b = trailing True bs \<and> (\<forall>x \<in> set b. x = True)" by simp
  then show ?thesis unfolding trailing_suffix by blast
qed

text \<open>A burst of failures in between stops the trailing run of answers.\<close>

lemma trailing_after_failure:
  assumes "burst \<noteq> []" and "\<forall>x \<in> set burst. \<not> x"
  shows "trailing True (pre @ burst @ post) = trailing True post"
proof (induction post rule: rev_induct)
  case Nil
  from assms obtain b' y where "burst = b' @ [y]" by (metis rev_exhaust)
  with assms show ?case by (simp add: trailing_def)
next
  case (snoc x post)
  have "trailing True ((pre @ burst @ post) @ [x]) = trailing True (post @ [x])"
    using snoc by (simp del: append_assoc)
  then show ?case by simp
qed

lemma hub_is_down_failure:
  assumes "0 < r"
  shows "hub_is_down n r (bs @ [False]) \<longleftrightarrow> hub_is_down n r bs \<or> n \<le> trailing False (bs @ [False])"
proof
  assume "hub_is_down n r (bs @ [False])"
  then obtain pre burst post where
    h: "bs @ [False] = pre @ burst @ post" "length burst = n" "\<forall>x \<in> set burst. \<not> x" "\<not> has_run r post"
    unfolding hub_is_down_def by blast
  show "hub_is_down n r bs \<or> n \<le> trailing False (bs @ [False])"
  proof (cases post rule: rev_cases)
    case Nil
    with h have "bs @ [False] = pre @ burst \<and> length burst = n \<and> (\<forall>x \<in> set burst. x = False)" by simp
    then show ?thesis unfolding trailing_suffix by blast
  next
    case (snoc post' y)
    with h have "bs = pre @ burst @ post'" "\<not> has_run r post'" by (auto simp: has_run_snoc)
    with h show ?thesis unfolding hub_is_down_def by blast
  qed
next
  assume "hub_is_down n r bs \<or> n \<le> trailing False (bs @ [False])"
  then show "hub_is_down n r (bs @ [False])"
  proof
    assume "hub_is_down n r bs"
    then obtain pre burst post where
      h: "bs = pre @ burst @ post" "length burst = n" "\<forall>x \<in> set burst. \<not> x" "\<not> has_run r post"
      unfolding hub_is_down_def by blast
    moreover from h assms have "\<not> has_run r (post @ [False])" by (simp add: has_run_snoc)
    ultimately show ?thesis unfolding hub_is_down_def
      by (intro exI [of _ pre] exI [of _ burst] exI [of _ "post @ [False]"]) simp
  next
    assume "n \<le> trailing False (bs @ [False])"
    then obtain a b where "bs @ [False] = a @ b" "length b = n" "\<forall>x \<in> set b. x = False"
      unfolding trailing_suffix by blast
    moreover have "\<not> has_run r []" using assms by (auto simp: has_run_def)
    ultimately show ?thesis unfolding hub_is_down_def
      by (intro exI [of _ a] exI [of _ b] exI [of _ "[]"]) simp
  qed
qed

lemma hub_is_down_answer:
  assumes "0 < n"
  shows "hub_is_down n r (bs @ [True]) \<longleftrightarrow> hub_is_down n r bs \<and> trailing True (bs @ [True]) < r"
proof
  assume "hub_is_down n r (bs @ [True])"
  then obtain pre burst post where
    h: "bs @ [True] = pre @ burst @ post" "length burst = n" "\<forall>x \<in> set burst. \<not> x" "\<not> has_run r post"
    unfolding hub_is_down_def by blast
  have ne: "burst \<noteq> []" using h(2) assms by auto
  have "post \<noteq> []"
  proof
    assume "post = []"
    with h(1) ne have "last burst = True" by (metis append_Nil2 last_appendR last_snoc)
    with h(3) ne show False using last_in_set by blast
  qed
  then obtain post' y where py: "post = post' @ [y]" by (cases post rule: rev_cases) auto
  have "bs @ [True] = (pre @ burst @ post') @ [y]" using h(1) py by simp
  then have b: "bs = pre @ burst @ post'" and "y = True" by (simp_all only: append1_eq_conv)
  with py have p: "post = post' @ [True]" by simp
  have "trailing True (bs @ [True]) = trailing True post"
    unfolding h(1) by (rule trailing_after_failure [OF ne h(3)])
  moreover have "\<not> (has_run r post' \<or> r \<le> trailing True post)"
    using h(4) unfolding p has_run_snoc .
  moreover have "hub_is_down n r bs" if "\<not> has_run r post'"
    unfolding hub_is_down_def using b h(2,3) that
    by (intro exI [of _ pre] exI [of _ burst] exI [of _ post']) simp
  ultimately show "hub_is_down n r bs \<and> trailing True (bs @ [True]) < r"
    by simp
next
  assume a: "hub_is_down n r bs \<and> trailing True (bs @ [True]) < r"
  then obtain pre burst post where
    h: "bs = pre @ burst @ post" "length burst = n" "\<forall>x \<in> set burst. \<not> x" "\<not> has_run r post"
    unfolding hub_is_down_def by blast
  have "trailing True (post @ [True]) \<le> trailing True (bs @ [True])"
    using trailing_append_le [of "post @ [True]" "pre @ burst"] h(1) by simp
  with a h(4) have "\<not> has_run r (post @ [True])" unfolding has_run_snoc by linarith
  with h show "hub_is_down n r (bs @ [True])" unfolding hub_is_down_def
    by (intro exI [of _ pre] exI [of _ burst] exI [of _ "post @ [True]"]) simp
qed


section \<open>The detector implements the predicate\<close>

definition history_of :: "(outcome \<times> string) list \<Rightarrow> bool list" where
  "history_of os = map (\<lambda>(out, now). answered out) os"

lemma history_of_snoc [simp]: "history_of (os @ [(out, now)]) = history_of os @ [answered out]"
  by (simp add: history_of_def)

lemma record_outcome_streaks [simp]:
  "no_response_streak (record_outcome tu out now d) =
     (if answered out then 0 else Suc (no_response_streak d))"
  "healthy_streak (record_outcome tu out now d) =
     (if answered out then Suc (healthy_streak d) else 0)"
  by (cases out; simp add: Let_def)+

lemma record_outcome_standalone:
  "d_state (record_outcome tu out now d) = PStandalone \<longleftrightarrow>
     (if answered out then d_state d = PStandalone \<and> Suc (healthy_streak d) < recovery_consecutive_healthy tu
      else d_state d = PStandalone
        \<or> hub_down_consecutive_no_responses tu \<le> Suc (no_response_streak d))"
  by (cases out) (auto simp: Let_def)

declare record_outcome.simps [simp del]

lemma detector_streaks:
  "no_response_streak (detector_run tu os (new_detector t0)) = trailing False (history_of os)
   \<and> healthy_streak (detector_run tu os (new_detector t0)) = trailing True (history_of os)"
proof (induction os rule: rev_induct)
  case (snoc o1 os)
  obtain out now where "o1 = (out, now)" by (cases o1)
  with snoc show ?case by (simp add: detector_run_append)
qed (simp add: new_detector_def history_of_def)

lemma detector_standalone_iff:
  assumes "tuning_ok tu"
  shows "d_state (detector_run tu os (new_detector t0)) = PStandalone
    \<longleftrightarrow> hub_is_down (hub_down_consecutive_no_responses tu) (recovery_consecutive_healthy tu)
          (history_of os)"
proof (induction os rule: rev_induct)
  case Nil
  from assms show ?case
    by (auto simp: new_detector_def history_of_def hub_is_down_def tuning_ok_def)
next
  case (snoc o1 os)
  obtain out now where o1: "o1 = (out, now)" by (cases o1)
  have st: "no_response_streak (detector_run tu os (new_detector t0)) = trailing False (history_of os)"
    "healthy_streak (detector_run tu os (new_detector t0)) = trailing True (history_of os)"
    using detector_streaks by blast+
  from assms have pos: "0 < hub_down_consecutive_no_responses tu" "0 < recovery_consecutive_healthy tu"
    by (simp_all add: tuning_ok_def)
  show ?case
    by (cases "answered out")
      (simp_all add: o1 detector_run_append record_outcome_standalone snoc.IH st
        hub_is_down_answer [OF pos(1)] hub_is_down_failure [OF pos(2)])
qed

text \<open>C14: For every tuning whose two streak lengths are positive and every outcome sequence, the
  detector is in standalone exactly when some burst of \<open>hubDownConsecutiveNoResponses\<close>
  consecutive no-responses has not been followed by \<open>recoveryConsecutiveHealthy\<close> consecutive
  answers; latencies play no part in it.\<close>

theorem standalone_iff_unrecovered_burst:
  assumes "tuning_ok tu"
  shows "d_state (detector_run tu os (new_detector t0)) = PStandalone
    \<longleftrightarrow> hub_is_down (hub_down_consecutive_no_responses tu) (recovery_consecutive_healthy tu)
          (history_of os)"
  by (rule detector_standalone_iff [OF assms])

text \<open>The shipped tuning, three refused requests and an answer.\<close>

definition demo_outage :: "(outcome \<times> string) list" where
  "demo_outage = replicate 3 (NoResponse None, ''t1'') @ [(Responded 40, ''t2'')]"

theorem standalone_iff_unrecovered_burst_witness:
  "tuning_ok default_tuning
   \<and> d_state (detector_run default_tuning demo_outage (new_detector ''t0'')) = PStandalone
   \<and> hub_is_down 3 3 [False, False, False, True]"
proof -
  have ok: "tuning_ok default_tuning" by (simp add: tuning_ok_def default_tuning_def)
  have "d_state (detector_run default_tuning demo_outage (new_detector ''t0'')) = PStandalone"
    by (simp add: demo_outage_def numeral_3_eq_3 default_tuning_def new_detector_def
        record_outcome.simps Let_def)
  with standalone_iff_unrecovered_burst [OF ok, of demo_outage "''t0''"] ok show ?thesis
    by (simp add: demo_outage_def numeral_3_eq_3 history_of_def default_tuning_def)
qed

text \<open>On the shipped tuning the detector enters degraded from fleet exactly when the answer
  completes a window of five and the slowest of the five took two seconds or more: the
  nearest-rank 95th percentile of five samples is their maximum, so one slow answer is enough.\<close>

theorem one_slow_answer_degrades:
  assumes "detector_inv default_tuning d" and "d_state d = PFleet"
  shows "d_state (record_outcome default_tuning (Responded latency) now d) =
    (if 4 \<le> length (window d) \<and> (\<exists>l \<in> set (push_window 5 latency (window d)). 2000 \<le> l)
     then PDegraded else PFleet)"
proof -
  let ?w = "push_window 5 latency (window d)"
  have len: "length (window d) \<le> 5" using assms(1) by (simp add: detector_inv_def default_tuning_def)
  have full: "5 \<le> length ?w \<longleftrightarrow> 4 \<le> length (window d)"
    using len by (auto simp: push_window_def Let_def)
  have w: "?w \<noteq> []" and "length ?w < 20"
    using length_push_window [OF len, of latency] len by (cases "window d"; auto simp: push_window_def Let_def)+
  then have "percentile95 ?w = Max (set ?w)" by (rule percentile95_max)
  moreover have "2000 \<le> Max (set ?w) \<longleftrightarrow> (\<exists>l \<in> set ?w. 2000 \<le> l)"
    using w by (intro Max_ge_iff) auto
  ultimately have p: "2000 \<le> percentile95 ?w \<longleftrightarrow> (\<exists>l \<in> set ?w. 2000 \<le> l)" by simp
  show ?thesis
    using assms(2) by (simp add: record_outcome.simps Let_def default_tuning_def full p)
qed

theorem one_slow_answer_degrades_witness:
  "d_state (record_outcome default_tuning (Responded 2000) ''t''
     (detector_run default_tuning (replicate 4 (Responded 20, ''t'')) (new_detector ''t0''))) = PDegraded"
proof -
  let ?d = "detector_run default_tuning (replicate 4 (Responded 20, ''t'')) (new_detector ''t0'')"
  have inv: "detector_inv default_tuning ?d"
    by (intro detector_run_inv new_detector_inv) (simp_all add: tuning_ok_def default_tuning_def)
  have four: "4 = Suc (Suc (Suc (Suc 0)))" by simp
  have d: "d_state ?d = PFleet \<and> window ?d = [20, 20, 20, 20]"
    by (simp add: four default_tuning_def new_detector_def record_outcome.simps Let_def push_window_def)
  from one_slow_answer_degrades [OF inv conjunct1 [OF d], of 2000 "''t''"] d
  show ?thesis by (simp add: push_window_def)
qed

text \<open>Along every run of the detector the latency window keeps to its bound, the transition
  log keeps the last ten transitions of as many as the refetch epoch counts, each logged
  transition changes the state and starts where the one before ended, the last one led to the
  state reported, and a detector that has not gone standalone has seen fewer than the threshold
  of consecutive no-responses.\<close>

theorem posture_history_is_consistent:
  assumes "tuning_ok tu"
  shows "let d = detector_run tu os (new_detector t0); ts = transitions d in
    length (window d) \<le> degraded_window_samples tu
    \<and> length ts = min 10 (epoch d)
    \<and> (\<forall>t \<in> set ts. t_from t \<noteq> t_to t)
    \<and> (\<forall>i. Suc i < length ts \<longrightarrow> t_to (ts ! i) = t_from (ts ! Suc i))
    \<and> (ts \<noteq> [] \<longrightarrow> t_to (last ts) = d_state d)
    \<and> (d_state d \<noteq> PStandalone \<longrightarrow> no_response_streak d < hub_down_consecutive_no_responses tu)"
  using detector_run_inv [OF new_detector_inv assms, OF assms, of os t0]
  by (simp add: detector_inv_def log_chain_def Let_def max_transitions_kept_def)

theorem posture_history_is_consistent_witness:
  "tuning_ok default_tuning
   \<and> length (transitions (detector_run default_tuning demo_outage (new_detector ''t0''))) = 1"
proof -
  have ok: "tuning_ok default_tuning" by (simp add: tuning_ok_def default_tuning_def)
  have "epoch (detector_run default_tuning demo_outage (new_detector ''t0'')) = 1"
    by (simp add: demo_outage_def numeral_3_eq_3 default_tuning_def new_detector_def
        record_outcome.simps Let_def)
  with posture_history_is_consistent [OF ok, of demo_outage "''t0''"] ok show ?thesis
    by (simp add: Let_def)
qed

end
