(* ===== verification/Transport_Classifier.thy ===== *)
theory Transport_Classifier
  imports Attach_State Fleet_Posture
begin

text \<open>
  The transport classifier (\<open>packages/extension/src/amicode_service/transport_classifier.ts\<close>):
  it derives the posture from the transport's outcome stream and hands it to the mode machine,
  its only way to write. The configuration extends the detector's tuning by the escalation cap.
  The clock readings of one call are the record \<open>readings\<close>.
\<close>

section \<open>Signals\<close>

datatype fault = FTimeout | FUnreachable | FHandshakeFail | FHalfOpen

fun fault_name :: "fault \<Rightarrow> string" where
  "fault_name FTimeout = ''timeout''"
| "fault_name FUnreachable = ''unreachable''"
| "fault_name FHandshakeFail = ''handshake-fail''"
| "fault_name FHalfOpen = ''half-open''"

datatype transport_signal = SigResponded int | SigNoResponse fault "string option"

datatype probe_outcome =
    ProbeResponse "string option"
  | ProbeTimeout int
  | ProbeRefused "string option"
  | ProbeReset "string option"
  | ProbeCleanClose

fun classify_probe_outcome :: "probe_outcome \<Rightarrow> int \<Rightarrow> transport_signal" where
  "classify_probe_outcome (ProbeResponse body) latency = SigResponded latency"
| "classify_probe_outcome (ProbeTimeout bytes) latency =
     (if bytes > 0
      then SigNoResponse FHalfOpen (Some (''handshake bytes: '' @ string_of_int bytes))
      else SigNoResponse FTimeout (Some ''client-enforced timeout, no handshake bytes''))"
| "classify_probe_outcome (ProbeRefused code) latency =
     SigNoResponse FUnreachable (Some (or_else code ''refused''))"
| "classify_probe_outcome (ProbeReset code) latency =
     SigNoResponse FUnreachable (Some (or_else code ''reset''))"
| "classify_probe_outcome ProbeCleanClose latency =
     SigNoResponse FUnreachable (Some ''clean-close: orderly EOF, zero payload'')"

section \<open>Configuration and state\<close>

record classifier_config = tuning +
  escalation_cap_ms :: int

definition default_classifier_config :: classifier_config where
  "default_classifier_config = tuning.extend default_tuning \<lparr>escalation_cap_ms = 300000\<rparr>"

record classifier =
  cl_no_response_streak :: nat
  cl_healthy_streak :: nat
  cl_window :: "int list"
  last_successful_fetch_ms :: int
  escalated :: bool

definition new_classifier :: "int \<Rightarrow> classifier" where
  "new_classifier now_ms =
     \<lparr>cl_no_response_streak = 0, cl_healthy_streak = 0, cl_window = [],
      last_successful_fetch_ms = now_ms, escalated = False\<rparr>"

text \<open>\<open>at_write\<close> and \<open>at_signal\<close> are the machine's stamps, \<open>ms_check\<close> the classifier's reading on an
  answer or at the escalation test, \<open>ms_detail\<close> the one rendered into the signal.\<close>

record readings =
  at_write :: string
  at_signal :: string
  ms_check :: int
  ms_detail :: int

section \<open>The posture leg\<close>

definition sustained_reason :: "nat \<Rightarrow> fault \<Rightarrow> string" where
  "sustained_reason n f =
     ''sustained: '' @ string_of_nat n @ '' consecutive no-responses ('' @ fault_name f @ '')''"

definition transient_fault_reason :: "fault \<Rightarrow> string option \<Rightarrow> string" where
  "transient_fault_reason f detail =
     ''transient '' @ fault_name f
     @ (case detail of None \<Rightarrow> [] | Some d \<Rightarrow> '' ('' @ d @ '')'')"

text \<open>The counters move first; the posture in force is read after that, and decides the write.
  \<open>None\<close>: no write.\<close>

fun count_signal :: "classifier_config \<Rightarrow> transport_signal \<Rightarrow> readings \<Rightarrow> classifier \<Rightarrow> classifier" where
  "count_signal cfg (SigResponded latency) rd c =
     c\<lparr>cl_healthy_streak := Suc (cl_healthy_streak c), cl_no_response_streak := 0,
       escalated := False, last_successful_fetch_ms := ms_check rd,
       cl_window := push_window (degraded_window_samples cfg) latency (cl_window c)\<rparr>"
| "count_signal cfg (SigNoResponse f detail) rd c =
     c\<lparr>cl_no_response_streak := Suc (cl_no_response_streak c), cl_healthy_streak := 0\<rparr>"

fun posture_decision ::
  "classifier_config \<Rightarrow> transport_signal \<Rightarrow> classifier \<Rightarrow> attach_posture \<Rightarrow> (attach_posture \<times> string) option" where
  "posture_decision cfg (SigResponded latency) c current =
     (let p95 = percentile95 (cl_window c) in
      case current of
        Ok \<Rightarrow>
          (if length (cl_window c) \<ge> degraded_window_samples cfg \<and> p95 \<ge> degraded_latency_p95_ms cfg
           then Some (Degraded, latency_reason (tuning.truncate cfg)) else None)
      | Degraded \<Rightarrow>
          (if cl_healthy_streak c \<ge> recovery_consecutive_healthy cfg \<and> p95 < degraded_latency_p95_ms cfg
           then Some (Ok, latency_recovered_reason) else None)
      | HubDown \<Rightarrow>
          (if cl_healthy_streak c \<ge> recovery_consecutive_healthy cfg
           then Some (Ok, answering_reason) else None))"
| "posture_decision cfg (SigNoResponse f detail) c current =
     (if cl_no_response_streak c \<ge> hub_down_consecutive_no_responses cfg
      then (if current \<noteq> HubDown
            then Some (HubDown, sustained_reason (cl_no_response_streak c) f) else None)
      else if current = Ok then Some (Degraded, transient_fault_reason f detail) else None)"

definition posture_leg ::
  "('m \<Rightarrow> attach_posture) \<Rightarrow> (attach_posture \<Rightarrow> string \<Rightarrow> string \<Rightarrow> 'm \<Rightarrow> 'm) \<Rightarrow>
   classifier_config \<Rightarrow> transport_signal \<Rightarrow> readings \<Rightarrow> classifier \<times> 'm \<Rightarrow> classifier \<times> 'm" where
  "posture_leg read_posture put_posture cfg s rd cm =
     (let (c, m) = cm; c1 = count_signal cfg s rd c
      in case posture_decision cfg s c1 (read_posture m) of
           None \<Rightarrow> (c1, m)
         | Some (p, reason) \<Rightarrow> (c1, put_posture p reason (at_write rd) m))"

section \<open>The classifier\<close>

definition escalation_detail :: "int \<Rightarrow> int \<Rightarrow> string" where
  "escalation_detail age cap =
     ''transient faults persisting past the fetch-age cap: time-since-last-successful-fetch ''
     @ string_of_int age @ ''ms > cap '' @ string_of_int cap @ ''ms''"

definition machine_posture :: "machine \<Rightarrow> attach_posture" where
  "machine_posture m = rposture (resolve m)"

text \<open>The result carries the signals emitted, each with the listeners it notified.\<close>

definition record_signal ::
  "classifier_config \<Rightarrow> transport_signal \<Rightarrow> readings \<Rightarrow> classifier \<times> machine \<Rightarrow>
   (classifier \<times> machine) \<times> (structural_signal \<times> nat list) list" where
  "record_signal cfg s rd cm =
     (let (c, m) = posture_leg machine_posture write_posture cfg s rd cm in
      case s of
        SigResponded latency \<Rightarrow> ((c, m), [])
      | SigNoResponse f detail \<Rightarrow>
          (if \<not> escalated c \<and> ms_check rd - last_successful_fetch_ms c > escalation_cap_ms cfg
           then (let (m', signal, notified) =
                       emit_structural PresumedStructural
                         (Some (escalation_detail (ms_detail rd - last_successful_fetch_ms c)
                            (escalation_cap_ms cfg)))
                         (at_signal rd) m
                 in ((c\<lparr>escalated := True\<rparr>, m'), [(signal, notified)]))
           else ((c, m), [])))"

definition note_auth_revoked ::
  "string option \<Rightarrow> string \<Rightarrow> machine \<Rightarrow> machine \<times> structural_signal \<times> nat list" where
  "note_auth_revoked detail now m = emit_structural AuthRevoked detail now m"

definition note_mode_changed_elsewhere ::
  "string option \<Rightarrow> string \<Rightarrow> machine \<Rightarrow> machine \<times> structural_signal \<times> nat list" where
  "note_mode_changed_elsewhere detail now m = emit_structural ModeChangedElsewhere detail now m"

text \<open>A run: the signals fed one after the other, with the structural events collected.\<close>

fun classifier_run ::
  "classifier_config \<Rightarrow> (transport_signal \<times> readings) list \<Rightarrow> classifier \<times> machine \<Rightarrow>
   (classifier \<times> machine) \<times> (structural_signal \<times> nat list) list" where
  "classifier_run cfg [] cm = (cm, [])"
| "classifier_run cfg ((s, rd) # ss) cm =
     (let (cm', evs) = record_signal cfg s rd cm; (cm'', evs') = classifier_run cfg ss cm'
      in (cm'', evs @ evs'))"

section \<open>The contract between the classifier and its register\<close>

text \<open>What the classifier relies on: a posture written is the posture read next, and writing
  one leaves the mode field alone.\<close>

locale posture_register =
  fixes read_posture :: "'m \<Rightarrow> attach_posture"
    and put_posture :: "attach_posture \<Rightarrow> string \<Rightarrow> string \<Rightarrow> 'm \<Rightarrow> 'm"
    and kept_mode :: "'m \<Rightarrow> attach_mode option"
  assumes read_write: "read_posture (put_posture p reason now m) = p"
    and mode_write: "kept_mode (put_posture p reason now m) = kept_mode m"
begin

lemma leg_counts: "fst (posture_leg read_posture put_posture cfg s rd (c, m)) = count_signal cfg s rd c"
  by (simp add: posture_leg_def Let_def split: option.splits prod.splits)

lemma leg_keeps_mode: "kept_mode (snd (posture_leg read_posture put_posture cfg s rd cm)) = kept_mode (snd cm)"
  by (simp add: posture_leg_def Let_def mode_write split: option.splits prod.splits)

lemma leg_posture:
  "read_posture (snd (posture_leg read_posture put_posture cfg s rd (c, m))) =
     (case posture_decision cfg s (count_signal cfg s rd c) (read_posture m) of
        None \<Rightarrow> read_posture m | Some (p, reason) \<Rightarrow> p)"
  by (simp add: posture_leg_def Let_def read_write split: option.splits prod.splits)

text \<open>Hub-down in and out, on the counters alone.\<close>

lemma leg_hub_down:
  "read_posture (snd (posture_leg read_posture put_posture cfg s rd (c, m))) = HubDown \<longleftrightarrow>
     (case s of
        SigResponded latency \<Rightarrow>
          read_posture m = HubDown \<and> Suc (cl_healthy_streak c) < recovery_consecutive_healthy cfg
      | SigNoResponse f detail \<Rightarrow>
          read_posture m = HubDown
          \<or> hub_down_consecutive_no_responses cfg \<le> Suc (cl_no_response_streak c))"
  by (cases s; cases "read_posture m") (auto simp: leg_posture Let_def)

lemma leg_failure_not_ok:
  "0 < hub_down_consecutive_no_responses cfg \<Longrightarrow>
   read_posture (snd (posture_leg read_posture put_posture cfg (SigNoResponse f detail) rd (c, m))) \<noteq> Ok"
  by (cases "read_posture m") (auto simp: leg_posture Let_def)

end

interpretation mode_machine: posture_register machine_posture write_posture
  "\<lambda>m. mode_field (record_value m)"
  by unfold_locales (simp_all add: machine_posture_def write_posture_frame)


section \<open>One signal\<close>

fun sig_answered :: "transport_signal \<Rightarrow> bool" where
  "sig_answered (SigResponded latency) = True"
| "sig_answered (SigNoResponse f detail) = False"

lemma count_signal_simps [simp]:
  "cl_no_response_streak (count_signal cfg s rd c) =
     (if sig_answered s then 0 else Suc (cl_no_response_streak c))"
  "cl_healthy_streak (count_signal cfg s rd c) =
     (if sig_answered s then Suc (cl_healthy_streak c) else 0)"
  "escalated (count_signal cfg s rd c) = (\<not> sig_answered s \<and> escalated c)"
  "last_successful_fetch_ms (count_signal cfg s rd c) =
     (if sig_answered s then ms_check rd else last_successful_fetch_ms c)"
  by (cases s; simp)+

text \<open>The machine after a signal is the one the posture leg leaves, but for the structural log;
  the counters are those of the posture leg.\<close>

lemma record_signal_leg:
  assumes "record_signal cfg s rd (c, m) = ((c', m'), evs)"
  shows "cl_no_response_streak c' = cl_no_response_streak (count_signal cfg s rd c)
    \<and> cl_healthy_streak c' = cl_healthy_streak (count_signal cfg s rd c)
    \<and> last_successful_fetch_ms c' = last_successful_fetch_ms (count_signal cfg s rd c)
    \<and> record_value m' = record_value (snd (posture_leg machine_posture write_posture cfg s rd (c, m)))
    \<and> writes m' = writes (snd (posture_leg machine_posture write_posture cfg s rd (c, m)))
    \<and> journal_entries m' = journal_entries (snd (posture_leg machine_posture write_posture cfg s rd (c, m)))"
proof -
  obtain c1 m1 where leg: "posture_leg machine_posture write_posture cfg s rd (c, m) = (c1, m1)"
    by (cases "posture_leg machine_posture write_posture cfg s rd (c, m)")
  then have "c1 = count_signal cfg s rd c"
    using mode_machine.leg_counts [of cfg s rd c m] by simp
  with assms leg show ?thesis
    by (auto simp: record_signal_def Let_def emit_structural_def split: transport_signal.splits if_splits)
qed

lemma machine_posture_cong: "record_value m = record_value m' \<Longrightarrow> machine_posture m = machine_posture m'"
  by (simp add: machine_posture_def resolve_def)

lemma record_signal_hub_down:
  assumes "record_signal cfg s rd (c, m) = ((c', m'), evs)"
  shows "machine_posture m' = HubDown \<longleftrightarrow>
     (if sig_answered s
      then machine_posture m = HubDown \<and> Suc (cl_healthy_streak c) < recovery_consecutive_healthy cfg
      else machine_posture m = HubDown
        \<or> hub_down_consecutive_no_responses cfg \<le> Suc (cl_no_response_streak c))"
proof -
  have "machine_posture m' = machine_posture (snd (posture_leg machine_posture write_posture cfg s rd (c, m)))"
    using record_signal_leg [OF assms] by (intro machine_posture_cong) simp
  then show ?thesis
    using mode_machine.leg_hub_down [of cfg s rd c m] by (cases s) simp_all
qed

lemma record_signal_streaks:
  assumes "record_signal cfg s rd (c, m) = ((c', m'), evs)"
  shows "cl_no_response_streak c' = (if sig_answered s then 0 else Suc (cl_no_response_streak c))
    \<and> cl_healthy_streak c' = (if sig_answered s then Suc (cl_healthy_streak c) else 0)"
  using record_signal_leg [OF assms] by simp

definition transport_posture_write :: "write_entry \<Rightarrow> bool" where
  "transport_posture_write w \<longleftrightarrow> w_writer w = Transport \<and> w_field w = PostureField"

lemma record_signal_writes:
  assumes "record_signal cfg s rd (c, m) = ((c', m'), evs)"
  shows "(\<exists>ws. writes m' = writes m @ ws \<and> (\<forall>w \<in> set ws. transport_posture_write w))
    \<and> mode_field (record_value m') = mode_field (record_value m)
    \<and> journal_entries m' = journal_entries m"
proof -
  let ?m1 = "snd (posture_leg machine_posture write_posture cfg s rd (c, m))"
  have "?m1 = m \<or> (\<exists>p reason. ?m1 = write_posture p reason (at_write rd) m)"
    by (auto simp: posture_leg_def Let_def split: option.splits)
  then have "(\<exists>ws. writes ?m1 = writes m @ ws \<and> (\<forall>w \<in> set ws. transport_posture_write w))
      \<and> journal_entries ?m1 = journal_entries m"
    by (auto simp: write_posture_def Let_def transport_posture_write_def)
  with record_signal_leg [OF assms] mode_machine.leg_keeps_mode [of cfg s rd "(c, m)"]
  show ?thesis by simp
qed

section \<open>Runs\<close>

lemma classifier_run_append:
  "classifier_run cfg (ss @ ss') cm =
     (let (cm', evs) = classifier_run cfg ss cm; (cm'', evs') = classifier_run cfg ss' cm'
      in (cm'', evs @ evs'))"
proof (induction ss arbitrary: cm)
  case (Cons x ss)
  show ?case
    using Cons.IH [of "fst (record_signal cfg (fst x) (snd x) cm)"]
    by (cases x) (simp add: Let_def case_prod_beta)
qed simp

lemma classifier_run_single [simp]: "classifier_run cfg [(s, rd)] cm = record_signal cfg s rd cm"
  by (simp add: case_prod_beta)

definition outcome_of :: "transport_signal \<times> readings \<Rightarrow> outcome \<times> string" where
  "outcome_of srd =
     (case srd of
        (SigResponded latency, rd) \<Rightarrow> (Responded latency, at_write rd)
      | (SigNoResponse f detail, rd) \<Rightarrow> (NoResponse detail, at_write rd))"

definition answers_of :: "(transport_signal \<times> readings) list \<Rightarrow> bool list" where
  "answers_of ss = map (\<lambda>(s, rd). sig_answered s) ss"

lemma history_of_outcomes: "history_of (map outcome_of ss) = answers_of ss"
  by (induction ss)
    (auto simp: history_of_def answers_of_def outcome_of_def split: transport_signal.splits)

lemma answers_of_snoc [simp]: "answers_of (ss @ [(s, rd)]) = answers_of ss @ [sig_answered s]"
  by (simp add: answers_of_def)

lemma classifier_run_streaks:
  assumes "classifier_run cfg ss (new_classifier t0, m) = ((c', m'), evs)"
  shows "cl_no_response_streak c' = trailing False (answers_of ss)
    \<and> cl_healthy_streak c' = trailing True (answers_of ss)"
  using assms
proof (induction ss arbitrary: c' m' evs rule: rev_induct)
  case Nil
  then show ?case by (auto simp: new_classifier_def answers_of_def)
next
  case (snoc srd ss)
  obtain s rd where srd: "srd = (s, rd)" by (cases srd)
  obtain c1 m1 e1 where pre: "classifier_run cfg ss (new_classifier t0, m) = ((c1, m1), e1)"
    by (metis prod.exhaust)
  with snoc.prems srd obtain e2 where "record_signal cfg s rd (c1, m1) = ((c', m'), e2)"
    by (auto simp: classifier_run_append Let_def case_prod_beta prod_eq_iff)
  from record_signal_streaks [OF this] snoc.IH [OF pre] show ?case by (simp add: srd)
qed

lemma classifier_run_hub_down:
  assumes "0 < hub_down_consecutive_no_responses cfg" and "0 < recovery_consecutive_healthy cfg"
    and "machine_posture m \<noteq> HubDown"
    and "classifier_run cfg ss (new_classifier t0, m) = ((c', m'), evs)"
  shows "machine_posture m' = HubDown \<longleftrightarrow>
    hub_is_down (hub_down_consecutive_no_responses cfg) (recovery_consecutive_healthy cfg) (answers_of ss)"
  using assms(4)
proof (induction ss arbitrary: c' m' evs rule: rev_induct)
  case Nil
  with assms show ?case by (auto simp: answers_of_def hub_is_down_def)
next
  case (snoc srd ss)
  obtain s rd where srd: "srd = (s, rd)" by (cases srd)
  obtain c1 m1 e1 where pre: "classifier_run cfg ss (new_classifier t0, m) = ((c1, m1), e1)"
    by (metis prod.exhaust)
  with snoc.prems srd obtain e2 where step: "record_signal cfg s rd (c1, m1) = ((c', m'), e2)"
    by (auto simp: classifier_run_append Let_def case_prod_beta prod_eq_iff)
  show ?case
    using record_signal_hub_down [OF step] snoc.IH [OF pre] classifier_run_streaks [OF pre]
    by (cases "sig_answered s")
      (simp_all add: srd hub_is_down_answer [OF assms(1)] hub_is_down_failure [OF assms(2)])
qed

lemma classifier_run_writes:
  assumes "classifier_run cfg ss (c, m) = ((c', m'), evs)"
  shows "(\<exists>ws. writes m' = writes m @ ws \<and> (\<forall>w \<in> set ws. transport_posture_write w))
    \<and> mode_field (record_value m') = mode_field (record_value m)
    \<and> journal_entries m' = journal_entries m"
  using assms
proof (induction ss arbitrary: c m evs)
  case (Cons srd ss)
  obtain s rd where srd: "srd = (s, rd)" by (cases srd)
  obtain c1 m1 e1 where one: "record_signal cfg s rd (c, m) = ((c1, m1), e1)"
    by (metis prod.exhaust)
  with Cons.prems srd obtain e2 where rest: "classifier_run cfg ss (c1, m1) = ((c', m'), e2)"
    by (auto simp: Let_def case_prod_beta prod_eq_iff)
  from record_signal_writes [OF one] Cons.IH [OF rest] show ?case by auto
qed simp


section \<open>The escalation episode\<close>

lemma record_failure_escalates:
  assumes "record_signal cfg (SigNoResponse f detail) rd (c, m) = ((c', m'), evs)"
  shows "length evs = (if \<not> escalated c \<and> escalation_cap_ms cfg < ms_check rd - last_successful_fetch_ms c
      then 1 else 0)
    \<and> escalated c' = (escalated c \<or> escalation_cap_ms cfg < ms_check rd - last_successful_fetch_ms c)
    \<and> last_successful_fetch_ms c' = last_successful_fetch_ms c
    \<and> (\<forall>e \<in> set evs. sig_class (fst e) = PresumedStructural)"
proof -
  obtain c1 m1 where leg:
    "posture_leg machine_posture write_posture cfg (SigNoResponse f detail) rd (c, m) = (c1, m1)"
    by (cases "posture_leg machine_posture write_posture cfg (SigNoResponse f detail) rd (c, m)")
  then have "c1 = count_signal cfg (SigNoResponse f detail) rd c"
    using mode_machine.leg_counts [of cfg "SigNoResponse f detail" rd c m] by simp
  with assms leg show ?thesis
    by (auto simp: record_signal_def Let_def emit_structural_def split: if_splits)
qed

lemma escalation_run:
  assumes "classifier_run cfg ss (c, m) = ((c', m'), evs)"
    and "\<forall>(s, rd) \<in> set ss. \<not> sig_answered s" and "\<not> escalated c"
  shows "length evs = (if \<exists>(s, rd) \<in> set ss. escalation_cap_ms cfg < ms_check rd - last_successful_fetch_ms c
      then 1 else 0)
    \<and> (\<forall>e \<in> set evs. sig_class (fst e) = PresumedStructural)"
proof -
  have quiet: "evs = []" if "classifier_run cfg ss (c, m) = ((c', m'), evs)"
    "\<forall>(s, rd) \<in> set ss. \<not> sig_answered s" "escalated c" for ss c m c' m' evs
    using that
  proof (induction ss arbitrary: c m evs)
    case (Cons srd ss)
    then obtain f detail rd where srd: "srd = (SigNoResponse f detail, rd)"
      by (cases srd; cases "fst srd") auto
    obtain c1 m1 e1 where one: "record_signal cfg (SigNoResponse f detail) rd (c, m) = ((c1, m1), e1)"
      by (metis prod.exhaust)
    with Cons.prems srd obtain e2 where rest: "classifier_run cfg ss (c1, m1) = ((c', m'), e2)"
      and evs: "evs = e1 @ e2"
      by (auto simp: Let_def case_prod_beta prod_eq_iff)
    from record_failure_escalates [OF one] Cons.prems have "e1 = []" "escalated c1" by simp_all
    with Cons.IH [OF rest] Cons.prems evs show ?case by simp
  qed simp
  show ?thesis
    using assms
  proof (induction ss arbitrary: c m evs)
    case (Cons srd ss)
    then obtain f detail rd where srd: "srd = (SigNoResponse f detail, rd)"
      by (cases srd; cases "fst srd") auto
    obtain c1 m1 e1 where one: "record_signal cfg (SigNoResponse f detail) rd (c, m) = ((c1, m1), e1)"
      by (metis prod.exhaust)
    with Cons.prems srd obtain e2 where rest: "classifier_run cfg ss (c1, m1) = ((c', m'), e2)"
      and evs: "evs = e1 @ e2"
      by (auto simp: Let_def case_prod_beta prod_eq_iff)
    note step = record_failure_escalates [OF one]
    show ?case
    proof (cases "escalated c1")
      case True
      with quiet [OF rest] Cons.prems have "e2 = []" by simp
      with True step Cons.prems(3) evs srd show ?thesis by simp
    next
      case False
      with step Cons.prems(3) have "e1 = []" by (auto simp: length_0_conv [symmetric])
      with False step Cons.IH [OF rest] Cons.prems evs srd show ?thesis by simp
    qed
  qed simp
qed

section \<open>Properties\<close>

text \<open>Whatever the transport does, the classifier moves no mode: every write it makes is a
  transport write of the posture field, the mode field and the journal stay what they were, and
  so does the mode of a record that carries one.\<close>

theorem classifier_never_moves_the_mode:
  assumes "classifier_run cfg ss (c, m) = ((c', m'), evs)"
  shows "(\<exists>ws. writes m' = writes m @ ws \<and> (\<forall>w \<in> set ws. w_writer w = Transport \<and> w_field w = PostureField))
    \<and> transport_mode_write_count m' = transport_mode_write_count m
    \<and> journal_entries m' = journal_entries m
    \<and> mode_field (record_value m') = mode_field (record_value m)
    \<and> (mode_field (record_value m) \<noteq> None \<longrightarrow> rmode (resolve m') = rmode (resolve m))"
proof -
  obtain ws where ws: "writes m' = writes m @ ws" "\<forall>w \<in> set ws. transport_posture_write w"
    and mf: "mode_field (record_value m') = mode_field (record_value m)"
    and j: "journal_entries m' = journal_entries m"
    using classifier_run_writes [OF assms] by blast
  have "filter (\<lambda>w. w_writer w = Transport \<and> w_field w = ModeField) ws = []"
    using ws(2) by (auto simp: filter_empty_conv transport_posture_write_def)
  then have "transport_mode_write_count m' = transport_mode_write_count m"
    by (simp add: transport_mode_write_count_def ws(1))
  moreover have "rmode (resolve m') = rmode (resolve m)" if "mode_field (record_value m) \<noteq> None"
    using that mf by (auto simp: resolve_def resolve_attach_state_def resolve_mode_def)
  ultimately show ?thesis
    using ws mf j unfolding transport_posture_write_def by blast
qed

definition demo_machine :: machine where
  "demo_machine = new_machine [''mode'' \<mapsto> Text ''fleet'', ''posture'' \<mapsto> Text ''ok'', ''state'' \<mapsto> Text ''fleet'']"

definition demo_readings :: "int \<Rightarrow> readings" where
  "demo_readings ms = \<lparr>at_write = ''w'', at_signal = ''s'', ms_check = ms, ms_detail = ms\<rparr>"

definition demo_failure :: "int \<Rightarrow> transport_signal \<times> readings" where
  "demo_failure ms = (SigNoResponse FTimeout None, demo_readings ms)"

theorem classifier_never_moves_the_mode_witness:
  "mode_field (record_value (snd (fst (classifier_run default_classifier_config
     [demo_failure 1, demo_failure 2, demo_failure 3] (new_classifier 0, demo_machine))))) = Some Fleet"
proof -
  let ?r = "classifier_run default_classifier_config
     [demo_failure 1, demo_failure 2, demo_failure 3] (new_classifier 0, demo_machine)"
  have "?r = ((fst (fst ?r), snd (fst ?r)), snd ?r)" by simp
  from classifier_never_moves_the_mode [OF this]
  have "mode_field (record_value (snd (fst ?r))) = mode_field (record_value demo_machine)" by simp
  then show ?thesis by (simp add: demo_machine_def new_machine_def mode_of_name_def)
qed

text \<open>The classifier and the posture detector it replaces agree on the outage: on the same
  outcome stream, from a machine that is not in hub-down, the posture is hub-down exactly when
  the detector is in standalone, which is exactly when an unrecovered burst is in the stream.\<close>

theorem classifier_agrees_with_detector_on_outage:
  assumes "0 < hub_down_consecutive_no_responses cfg" and "0 < recovery_consecutive_healthy cfg"
    and "machine_posture m \<noteq> HubDown"
    and "classifier_run cfg ss (new_classifier t0, m) = ((c', m'), evs)"
  shows "(machine_posture m' = HubDown \<longleftrightarrow>
      d_state (detector_run (tuning.truncate cfg) (map outcome_of ss) (new_detector d0)) = PStandalone)
    \<and> (machine_posture m' = HubDown \<longleftrightarrow>
      hub_is_down (hub_down_consecutive_no_responses cfg) (recovery_consecutive_healthy cfg)
        (map (\<lambda>(s, rd). sig_answered s) ss))"
proof -
  have ok: "tuning_ok (tuning.truncate cfg)"
    using assms(1,2) by (simp add: tuning_ok_def tuning.truncate_def)
  have "d_state (detector_run (tuning.truncate cfg) (map outcome_of ss) (new_detector d0)) = PStandalone
      \<longleftrightarrow> hub_is_down (hub_down_consecutive_no_responses cfg) (recovery_consecutive_healthy cfg)
            (answers_of ss)"
    using detector_standalone_iff [OF ok, of "map outcome_of ss" d0]
    by (simp add: history_of_outcomes tuning.truncate_def)
  with classifier_run_hub_down [OF assms] show ?thesis by (simp add: answers_of_def)
qed

theorem classifier_agrees_with_detector_on_outage_witness:
  "machine_posture (snd (fst (classifier_run default_classifier_config
     [demo_failure 1, demo_failure 2, demo_failure 3] (new_classifier 0, demo_machine)))) = HubDown"
proof -
  let ?r = "classifier_run default_classifier_config
     [demo_failure 1, demo_failure 2, demo_failure 3] (new_classifier 0, demo_machine)"
  have r: "?r = ((fst (fst ?r), snd (fst ?r)), snd ?r)" by simp
  have cfg: "hub_down_consecutive_no_responses default_classifier_config = 3"
    "recovery_consecutive_healthy default_classifier_config = 3"
    by (simp_all add: default_classifier_config_def tuning.extend_def default_tuning_def)
  have "machine_posture demo_machine \<noteq> HubDown"
    by (simp add: demo_machine_def machine_posture_def new_machine_def resolve_def
        resolve_attach_state_def resolve_posture_def posture_of_name_def)
  moreover have "hub_is_down 3 3 [False, False, False]"
    unfolding hub_is_down_def
    by (intro exI [of _ "[]"] exI [of _ "[False, False, False]"]) (simp add: has_run_def)
  ultimately show ?thesis
    using classifier_agrees_with_detector_on_outage [OF _ _ _ r] cfg
    by (simp add: demo_failure_def)
qed

text \<open>One escalation per episode: along a run of failures the classifier emits exactly one
  presumed-structural signal if some failure finds the last successful fetch older than the cap,
  and none otherwise.\<close>

theorem one_escalation_per_episode:
  assumes "classifier_run cfg ss (c, m) = ((c', m'), evs)"
    and "\<forall>(s, rd) \<in> set ss. \<not> sig_answered s" and "\<not> escalated c"
  shows "length evs = (if \<exists>(s, rd) \<in> set ss. escalation_cap_ms cfg < ms_check rd - last_successful_fetch_ms c
      then 1 else 0)
    \<and> (\<forall>e \<in> set evs. sig_class (fst e) = PresumedStructural)"
  using assms escalation_run by blast

theorem one_escalation_per_episode_witness:
  "length (snd (classifier_run default_classifier_config
     [demo_failure 1, demo_failure 300001, demo_failure 300002] (new_classifier 0, demo_machine))) = 1"
proof -
  let ?r = "classifier_run default_classifier_config
     [demo_failure 1, demo_failure 300001, demo_failure 300002] (new_classifier 0, demo_machine)"
  have r: "?r = ((fst (fst ?r), snd (fst ?r)), snd ?r)" by simp
  show ?thesis
    using one_escalation_per_episode [OF r]
    by (simp add: demo_failure_def demo_readings_def new_classifier_def default_classifier_config_def
        tuning.extend_def del: classifier_run.simps)
qed


definition stale_window_stream :: "(transport_signal \<times> readings) list" where
  "stale_window_stream =
     map (\<lambda>l. (SigResponded l, demo_readings 0)) [2000, 2000, 2000, 2000]
     @ [demo_failure 1, demo_failure 2, demo_failure 3]
     @ map (\<lambda>l. (SigResponded l, demo_readings 4)) [10, 10, 10, 10]"

text \<open>The latency window does not carry over unchanged: the detector drops its window when it
  goes standalone, the classifier keeps its own through a hub-down. On the shipped tuning, after
  four slow answers, an outage of three failures and four fast answers the classifier's posture
  is degraded, by the latencies measured before the outage, while the detector is in fleet.\<close>

theorem latency_window_survives_the_outage:
  "machine_posture (snd (fst (classifier_run default_classifier_config stale_window_stream
      (new_classifier 0, demo_machine)))) = Degraded
   \<and> d_state (detector_run default_tuning (map outcome_of stale_window_stream) (new_detector ''w'')) = PFleet"
proof -
  have p: "percentile95 [2000, 2000, 10, 10, 10] = 2000" "percentile95 [2000, 10, 10, 10, 10] = 2000"
    "percentile95 [2000, 2000, 2000, 10, 10] = 2000" "percentile95 [2000, 2000, 2000, 2000, 10] = 2000"
    by (simp_all add: percentile95_def)
  have resolve_ok: "machine_posture demo_machine = Ok"
    by (simp add: demo_machine_def machine_posture_def new_machine_def resolve_def
        resolve_attach_state_def resolve_posture_def posture_of_name_def)
  have wp: "machine_posture (write_posture p r n m) = p" for p r n m
    by (rule mode_machine.read_write)
  show ?thesis
    by (simp add: stale_window_stream_def demo_failure_def demo_readings_def outcome_of_def
        record_outcome.simps record_signal_def posture_leg_def Let_def wp resolve_ok p
        default_classifier_config_def tuning.extend_def default_tuning_def push_window_def
        new_classifier_def new_detector_def)
qed

end
