(* ===== verification/Canonical_Json.thy ===== *)
theory Canonical_Json
  imports Fleet_Prelude "HOL-Library.Char_ord" "HOL-Library.List_Lexorder"
begin

text \<open>
  The canonical JSON of the proposal queue (\<open>canonicalize\<close>, \<open>deepEqual\<close>, \<open>clone\<close> in
  \<open>packages/extension/src/amicode_service/proposal_queue.ts\<close>), with the part of
  \<open>JSON.stringify\<close> it rests on. Numbers are integers of less than twenty-two digits (the
  renderer switches to exponents there); keys are ordered by their bytes.
\<close>

section \<open>Values\<close>

datatype json =
    JUndefined
  | JNull
  | JBool bool
  | JNum int
  | JStr string
  | JArr "json list"
  | JObj "(string \<times> json) list"

section \<open>Quoting a string\<close>

definition hex_char :: "nat \<Rightarrow> char" where
  "hex_char d = ''0123456789abcdef'' ! d"

text \<open>What \<open>JSON.stringify\<close> writes for one character; from the space up every other character
  stands for itself.\<close>

definition json_escape :: "char \<Rightarrow> string" where
  "json_escape c =
     (if c = CHR 0x22 then [CHR 0x5C, CHR 0x22]
      else if c = CHR 0x5C then [CHR 0x5C, CHR 0x5C]
      else if c = CHR 0x08 then [CHR 0x5C, CHR ''b'']
      else if c = CHR 0x0C then [CHR 0x5C, CHR ''f'']
      else if c = CHR 0x0A then [CHR 0x5C, CHR ''n'']
      else if c = CHR 0x0D then [CHR 0x5C, CHR ''r'']
      else if c = CHR 0x09 then [CHR 0x5C, CHR ''t'']
      else if of_char c < (32 :: nat)
        then [CHR 0x5C, CHR ''u'', CHR ''0'', CHR ''0'',
              hex_char (of_char c div 16), hex_char (of_char c mod 16)]
      else [c])"

definition json_quote :: "string \<Rightarrow> string" where
  "json_quote s = CHR 0x22 # concat (map json_escape s) @ [CHR 0x22]"

section \<open>The canonical form\<close>

text \<open>\<open>null\<close> for \<open>undefined\<close>, an array element by element, an object without its undefined
  entries and with its keys sorted.\<close>

function canonicalize :: "json \<Rightarrow> string" where
  "canonicalize JUndefined = ''null''"
| "canonicalize JNull = ''null''"
| "canonicalize (JBool b) = (if b then ''true'' else ''false'')"
| "canonicalize (JNum i) = string_of_int i"
| "canonicalize (JStr s) = json_quote s"
| "canonicalize (JArr vs) = ''['' @ join_with '','' (map canonicalize vs) @ '']''"
| "canonicalize (JObj fs) =
     ''{'' @ join_with '','' (map (\<lambda>(k, v). json_quote k @ '':'' @ canonicalize v)
                 (sort_key fst (filter (\<lambda>(k, v). v \<noteq> JUndefined) fs))) @ ''}''"
  by pat_completeness auto
termination
proof (relation "measure size", goal_cases)
  case (2 vs v)
  then show ?case by (induction vs) auto
next
  case (3 fs x k v)
  then have "(k, v) \<in> set fs" by auto
  then have "size v < Suc (size_list (size_prod (\<lambda>_. 0) size) fs)"
    by (induction fs) auto
  then show ?case by simp
qed auto

definition deep_equal :: "json \<Rightarrow> json \<Rightarrow> bool" where
  "deep_equal a b \<longleftrightarrow> canonicalize a = canonicalize b"

text \<open>\<open>clone\<close>: the value \<open>JSON.parse\<close> reads back; undefined entries of objects are gone.\<close>

function clone_json :: "json \<Rightarrow> json" where
  "clone_json JUndefined = JNull"
| "clone_json JNull = JNull"
| "clone_json (JBool b) = JBool b"
| "clone_json (JNum i) = JNum i"
| "clone_json (JStr s) = JStr s"
| "clone_json (JArr vs) = JArr (map clone_json vs)"
| "clone_json (JObj fs) = JObj (map (\<lambda>(k, v). (k, clone_json v)) (filter (\<lambda>(k, v). v \<noteq> JUndefined) fs))"
  by pat_completeness auto
termination
proof (relation "measure size", goal_cases)
  case (2 vs v)
  then show ?case by (induction vs) auto
next
  case (3 fs x k v)
  then have "(k, v) \<in> set fs" by auto
  then have "size v < Suc (size_list (size_prod (\<lambda>_. 0) size) fs)"
    by (induction fs) auto
  then show ?case by simp
qed auto

section \<open>The value a text stands for\<close>

text \<open>The specification: two values are the same JSON value when they agree once undefined is
  read as null, undefined entries are dropped and keys are put in order.\<close>

function json_value :: "json \<Rightarrow> json" where
  "json_value JUndefined = JNull"
| "json_value JNull = JNull"
| "json_value (JBool b) = JBool b"
| "json_value (JNum i) = JNum i"
| "json_value (JStr s) = JStr s"
| "json_value (JArr vs) = JArr (map json_value vs)"
| "json_value (JObj fs) =
     JObj (map (\<lambda>(k, v). (k, json_value v)) (sort_key fst (filter (\<lambda>(k, v). v \<noteq> JUndefined) fs)))"
  by pat_completeness auto
termination
proof (relation "measure size", goal_cases)
  case (2 vs v)
  then show ?case by (induction vs) auto
next
  case (3 fs x k v)
  then have "(k, v) \<in> set fs" by auto
  then have "size v < Suc (size_list (size_prod (\<lambda>_. 0) size) fs)"
    by (induction fs) auto
  then show ?case by simp
qed auto

fun render :: "json \<Rightarrow> string" where
  "render JUndefined = ''null''"
| "render JNull = ''null''"
| "render (JBool b) = (if b then ''true'' else ''false'')"
| "render (JNum i) = string_of_int i"
| "render (JStr s) = json_quote s"
| "render (JArr vs) = ''['' @ join_with '','' (map render vs) @ '']''"
| "render (JObj fs) = ''{'' @ join_with '','' (map (\<lambda>(k, v). json_quote k @ '':'' @ render v) fs) @ ''}''"

lemma canonicalize_render: "canonicalize v = render (json_value v)"
proof (induction v rule: canonicalize.induct)
  case (7 fs)
  have "map (\<lambda>(k, v). json_quote k @ '':'' @ canonicalize v) (sort_key fst (filter (\<lambda>(k, v). v \<noteq> JUndefined) fs))
      = map (\<lambda>(k, v). json_quote k @ '':'' @ render (json_value v)) (sort_key fst (filter (\<lambda>(k, v). v \<noteq> JUndefined) fs))"
    (is "?l = ?r")
    by (rule map_cong) (use "7" in \<open>auto\<close>)
  then have "canonicalize (JObj fs) = ''{'' @ join_with '','' ?r @ ''}''"
    by (simp only: canonicalize.simps)
  then show ?case by (simp add: comp_def case_prod_beta')
qed (simp_all add: comp_def cong: map_cong)


section \<open>Reading a quoted string back\<close>

definition hex_value :: "char \<Rightarrow> nat" where
  "hex_value c = (let n = of_char c in if n < (58 :: nat) then n - 48 else n - 87)"

lemma hex_value_char: "d < 16 \<Longrightarrow> hex_value (hex_char d) = d"
proof -
  assume "d < 16"
  then have "d \<in> set [0 ..< 16]" by simp
  then show ?thesis by (auto simp: upt_rec hex_value_def hex_char_def)
qed

fun unescape :: "string \<Rightarrow> (char \<times> string) option" where
  "unescape [] = None"
| "unescape [c] = Some (c, [])"
| "unescape (c # d # r) =
     (if c \<noteq> CHR 0x5C then Some (c, d # r)
      else if d = CHR ''b'' then Some (CHR 0x08, r)
      else if d = CHR ''f'' then Some (CHR 0x0C, r)
      else if d = CHR ''n'' then Some (CHR 0x0A, r)
      else if d = CHR ''r'' then Some (CHR 0x0D, r)
      else if d = CHR ''t'' then Some (CHR 0x09, r)
      else if d = CHR ''u'' then
        Some (char_of (16 * hex_value (r ! 2) + hex_value (r ! 3)), drop 4 r)
      else Some (d, r))"

lemma unescape_escape: "unescape (json_escape c @ r) = Some (c, r)"
proof -
  have plain: "unescape (c # r) = Some (c, r)" if "c \<noteq> CHR 0x5C"
    using that by (cases r) auto
  have control: "char_of (16 * hex_value (hex_char (of_char c div 16)) + hex_value (hex_char (of_char c mod 16))) = c"
    if "of_char c < (32 :: nat)"
  proof -
    have "of_char c div 16 < (16 :: nat)" and "of_char c mod 16 < (16 :: nat)" using that by auto
    then show ?thesis by (simp add: hex_value_char)
  qed
  show ?thesis
    using plain control by (simp add: json_escape_def)
qed

lemma json_escape_hd: "json_escape c \<noteq> [] \<and> hd (json_escape c) \<noteq> CHR 0x22"
  by (simp add: json_escape_def)

lemma escaped_unique:
  "concat (map json_escape k) @ CHR 0x22 # s = concat (map json_escape l) @ CHR 0x22 # t \<Longrightarrow> k = l \<and> s = t"
proof (induction k arbitrary: l)
  case Nil
  show ?case
  proof (cases l)
    case (Cons d l')
    with Nil json_escape_hd [of d] show ?thesis by (auto simp: hd_append dest: arg_cong [where f = hd])
  qed (use Nil in simp)
next
  case (Cons c k)
  show ?case
  proof (cases l)
    case Nil
    with Cons.prems json_escape_hd [of c] show ?thesis by (auto simp: hd_append dest: arg_cong [where f = hd])
  next
    case (Cons d l')
    with Cons.prems have "unescape (json_escape c @ concat (map json_escape k) @ CHR 0x22 # s)
        = unescape (json_escape d @ concat (map json_escape l') @ CHR 0x22 # t)" by simp
    then have "c = d" "concat (map json_escape k) @ CHR 0x22 # s = concat (map json_escape l') @ CHR 0x22 # t"
      by (simp_all add: unescape_escape)
    with Cons.IH Cons show ?thesis by simp
  qed
qed

lemma json_quote_unique: "json_quote k @ s = json_quote l @ t \<Longrightarrow> k = l \<and> s = t"
  using escaped_unique [of k s l t] by (simp add: json_quote_def)

section \<open>A canonical text stands for one value\<close>

definition delimited :: "string \<Rightarrow> bool" where
  "delimited s \<longleftrightarrow> s = [] \<or> hd s \<in> {CHR '','', CHR '']'', CHR ''}''}"

lemma delimited_not_digit: "delimited s \<Longrightarrow> takeWhile is_digit s = []"
  by (cases s) (auto simp: delimited_def digit_value_def)

lemma digits_unique:
  assumes "string_of_nat m @ s = string_of_nat n @ t" and "delimited s" and "delimited t"
  shows "m = n \<and> s = t"
proof -
  have tw: "takeWhile is_digit (string_of_nat m @ s) = string_of_nat m" if "delimited s" for m s
    using string_of_nat_digits [of m] delimited_not_digit [OF that] by (simp add: takeWhile_append2)
  from assms have "string_of_nat m = string_of_nat n" using tw by metis
  with assms(1) show ?thesis by simp
qed

lemma string_of_nat_hd: "is_digit (hd (string_of_nat n))"
  using string_of_nat_digits [of n] by (cases "string_of_nat n") auto

lemma minus_not_digit: "string_of_nat n @ s \<noteq> CHR ''-'' # t"
proof
  assume a: "string_of_nat n @ s = CHR ''-'' # t"
  have "hd (string_of_nat n @ s) = hd (string_of_nat n)" by simp
  with a have "hd (string_of_nat n) = CHR ''-''" by simp
  moreover have "\<not> is_digit (CHR ''-'')" by (simp add: digit_value_def)
  ultimately show False using string_of_nat_hd [of n] by simp
qed

lemma int_unique:
  assumes "string_of_int i @ s = string_of_int j @ t" and "delimited s" and "delimited t"
  shows "i = j \<and> s = t"
proof (cases "i < 0"; cases "j < 0")
  assume neg: "i < 0" "j < 0"
  with assms digits_unique [of "nat (- i)" s "nat (- j)" t] have "nat (- i) = nat (- j) \<and> s = t"
    by (simp add: string_of_int_def)
  with neg show ?thesis by linarith
next
  assume pos: "\<not> i < 0" "\<not> j < 0"
  with assms digits_unique [of "nat i" s "nat j" t] have "nat i = nat j \<and> s = t"
    by (simp add: string_of_int_def)
  with pos show ?thesis by linarith
next
  assume "i < 0" "\<not> j < 0"
  with assms(1) show ?thesis by (simp add: string_of_int_def) (metis minus_not_digit)
next
  assume "\<not> i < 0" "j < 0"
  with assms(1) show ?thesis by (simp add: string_of_int_def minus_not_digit)
qed

lemma join_unique:
  assumes "\<And>x y s t. x \<in> set xs \<Longrightarrow> Q y \<Longrightarrow> delimited s \<Longrightarrow> delimited t \<Longrightarrow> r x @ s = r y @ t \<Longrightarrow> x = y \<and> s = t"
    and "\<And>x. x \<in> set xs \<Longrightarrow> r x \<noteq> [] \<and> hd (r x) \<noteq> close"
    and "\<And>y. y \<in> set ys \<Longrightarrow> Q y \<and> r y \<noteq> [] \<and> hd (r y) \<noteq> close"
    and "close \<in> {CHR '']'', CHR ''}''}"
    and "join_with '','' (map r xs) @ close # s = join_with '','' (map r ys) @ close # t"
  shows "xs = ys \<and> s = t"
  using assms
proof (induction xs arbitrary: ys)
  case Nil
  show ?case
  proof (cases ys)
    case (Cons y ys')
    then have "hd (join_with '','' (map r ys) @ close # t) = hd (r y)"
      using Nil.prems(3) [of y] by (cases ys') (auto simp: hd_append)
    with Nil.prems Cons show ?thesis by (metis append_Nil hd_append list.sel(1) list.set_intros(1) list.simps(8) join_with.simps(1))
  qed (use Nil in simp)
next
  case (Cons x xs)
  show ?case
  proof (cases ys)
    case Nil
    have "hd (join_with '','' (map r (x # xs)) @ close # s) = hd (r x)"
      using Cons.prems(2) [of x] by (cases xs) (auto simp: hd_append)
    with Cons.prems Nil show ?thesis by (metis append_Nil list.sel(1) list.set_intros(1) list.simps(8) join_with.simps(1))
  next
    case (Cons y ys')
    define tx where "tx = (if xs = [] then close # s else CHR '','' # join_with '','' (map r xs) @ close # s)"
    define ty where "ty = (if ys' = [] then close # t else CHR '','' # join_with '','' (map r ys') @ close # t)"
    have x: "join_with '','' (map r (x # xs)) @ close # s = r x @ tx"
      by (cases xs) (simp_all add: tx_def)
    have y: "join_with '','' (map r ys) @ close # t = r y @ ty"
      unfolding Cons by (cases ys') (simp_all add: ty_def)
    have "delimited tx" using Cons.prems(4) by (auto simp: delimited_def tx_def)
    moreover have "delimited ty" using Cons.prems(4) by (auto simp: delimited_def ty_def)
    moreover have "Q y" using Cons.prems(3) Cons by simp
    moreover have "r x @ tx = r y @ ty" using Cons.prems(5) unfolding x y .
    ultimately have xy: "x = y \<and> tx = ty" by (intro Cons.prems(1)) simp_all
    have c: "close \<noteq> CHR '',''" using Cons.prems(4) by auto
    have "xs = ys' \<and> s = t"
    proof (cases "xs = [] \<or> ys' = []")
      case True
      with xy c show ?thesis by (auto simp: tx_def ty_def split: if_splits)
    next
      case False
      with xy have "join_with '','' (map r xs) @ close # s = join_with '','' (map r ys') @ close # t"
        by (simp add: tx_def ty_def)
      note j = this
      show ?thesis
      proof (rule Cons.IH [OF _ _ _ Cons.prems(4) j])
        fix u v p q
        assume "u \<in> set xs" "Q v" "delimited p" "delimited q" "r u @ p = r v @ q"
        then show "u = v \<and> p = q" by (intro Cons.prems(1)) simp_all
      next
        fix u
        assume "u \<in> set xs"
        then show "r u \<noteq> [] \<and> hd (r u) \<noteq> close" by (intro Cons.prems(2)) simp
      next
        fix v
        assume "v \<in> set ys'"
        then show "Q v \<and> r v \<noteq> [] \<and> hd (r v) \<noteq> close" using Cons by (intro Cons.prems(3)) simp
      qed
    qed
    with xy Cons show ?thesis by simp
  qed
qed


fun defined :: "json \<Rightarrow> bool" where
  "defined JUndefined = False"
| "defined (JArr vs) = (\<forall>v \<in> set vs. defined v)"
| "defined (JObj fs) = (\<forall>e \<in> set fs. defined (snd e))"
| "defined v = True"

lemma defined_json_value: "defined (json_value v)"
  by (induction v rule: json_value.induct) auto

definition structural_chars :: "char set" where
  "structural_chars = {CHR ''n'', CHR ''t'', CHR ''f'', CHR 0x22, CHR ''['', CHR ''{'', CHR '']'', CHR ''}''}"

lemma string_of_int_hd: "hd (string_of_int i) \<notin> structural_chars"
proof -
  have "\<forall>c \<in> structural_chars. \<not> is_digit c \<and> c \<noteq> CHR ''-''"
    by (simp add: structural_chars_def digit_value_def)
  moreover have "hd (string_of_int i) = CHR ''-'' \<or> is_digit (hd (string_of_int i))"
  proof (cases "i < 0")
    case False
    then have "string_of_int i = string_of_nat (nat i)" by (simp add: string_of_int_def)
    with string_of_nat_hd [of "nat i"] show ?thesis by simp
  qed (simp add: string_of_int_def)
  ultimately show ?thesis by blast
qed

text \<open>The first character tells the constructor.\<close>

lemma render_hd:
  "render v \<noteq> [] \<and> hd (render v) \<in>
     (case v of JUndefined \<Rightarrow> {CHR ''n''} | JNull \<Rightarrow> {CHR ''n''}
      | JBool b \<Rightarrow> {if b then CHR ''t'' else CHR ''f''}
      | JNum i \<Rightarrow> - structural_chars
      | JStr s \<Rightarrow> {CHR 0x22} | JArr vs \<Rightarrow> {CHR ''[''} | JObj fs \<Rightarrow> {CHR ''{''})"
  using string_of_int_hd
  by (cases v) (auto simp: json_quote_def string_of_int_def)

lemma render_hd_close: "close \<in> {CHR '']'', CHR ''}''} \<Longrightarrow> hd (render v) \<noteq> close"
  using render_hd [of v] by (cases v) (auto simp: structural_chars_def split: if_splits)

lemma render_same_shape:
  assumes "render a @ s = render b @ t" and "defined a" and "defined b"
  shows "case a of JUndefined \<Rightarrow> False | JNull \<Rightarrow> b = JNull | JBool x \<Rightarrow> b = JBool x
    | JNum i \<Rightarrow> (\<exists>j. b = JNum j) | JStr k \<Rightarrow> (\<exists>l. b = JStr l)
    | JArr vs \<Rightarrow> (\<exists>ws. b = JArr ws) | JObj fs \<Rightarrow> (\<exists>gs. b = JObj gs)"
proof -
  have "hd (render a @ s) = hd (render b @ t)" using assms(1) by simp
  then have h: "hd (render a) = hd (render b)" using render_hd by (simp add: hd_append)
  show ?thesis
    using assms(2,3) render_hd [of a] render_hd [of b] h
    by (cases a; cases b) (auto simp: structural_chars_def split: if_splits)
qed

lemma render_unique:
  "defined a \<Longrightarrow> defined b \<Longrightarrow> delimited s \<Longrightarrow> delimited t \<Longrightarrow> render a @ s = render b @ t \<Longrightarrow> a = b \<and> s = t"
proof (induction a arbitrary: b s t)
  case (JArr vs)
  obtain ws where b: "b = JArr ws" using render_same_shape [OF JArr.prems(5,1,2)] by auto
  have "join_with '','' (map render vs) @ CHR '']'' # s = join_with '','' (map render ws) @ CHR '']'' # t"
    using JArr.prems(5) unfolding b by simp
  then have "vs = ws \<and> s = t"
  proof (rule join_unique [where Q = defined, rotated 4])
    fix x y p q
    assume "x \<in> set vs" "defined y" "delimited p" "delimited q" "render x @ p = render y @ q"
    then show "x = y \<and> p = q" using JArr.prems(1) by (intro JArr.IH) auto
  next
    show "\<And>y. y \<in> set ws \<Longrightarrow> defined y \<and> render y \<noteq> [] \<and> hd (render y) \<noteq> CHR '']''"
      using JArr.prems(2) render_hd render_hd_close unfolding b by auto
  qed (use render_hd render_hd_close in auto)
  with b show ?case by simp
next
  case (JObj fs)
  obtain gs where b: "b = JObj gs" using render_same_shape [OF JObj.prems(5,1,2)] by auto
  let ?r = "\<lambda>(k, v). json_quote k @ '':'' @ render v"
  have q: "?r e \<noteq> [] \<and> hd (?r e) \<noteq> CHR ''}''" for e by (cases e) (simp add: json_quote_def)
  have "join_with '','' (map ?r fs) @ CHR ''}'' # s = join_with '','' (map ?r gs) @ CHR ''}'' # t"
    using JObj.prems(5) unfolding b by simp
  then have "fs = gs \<and> s = t"
  proof (rule join_unique [where Q = "\<lambda>e. defined (snd e)", rotated 4])
    fix x y p q
    assume a: "x \<in> set fs" "defined (snd y)" "delimited p" "delimited q" "?r x @ p = ?r y @ q"
    obtain k v l w where xy: "x = (k, v)" "y = (l, w)" by (cases x; cases y)
    from a(5) have "json_quote k @ CHR '':'' # render v @ p = json_quote l @ CHR '':'' # render w @ q"
      by (simp add: xy)
    from json_quote_unique [OF this] have "k = l" "render v @ p = render w @ q" by simp_all
    moreover have "v = w \<and> p = q"
      by (rule JObj.IH [of x v]) (use a xy JObj.prems(1) \<open>render v @ p = render w @ q\<close> in auto)
    ultimately show "x = y \<and> p = q" by (simp add: xy)
  next
    show "\<And>e. e \<in> set gs \<Longrightarrow> defined (snd e) \<and> ?r e \<noteq> [] \<and> hd (?r e) \<noteq> CHR ''}''"
      using JObj.prems(2) q unfolding b by auto
  qed (use q in auto)
  with b show ?case by simp
next
  case (JNum i)
  obtain j where b: "b = JNum j" using render_same_shape [OF JNum.prems(5,1,2)] by auto
  from JNum.prems(5) have "string_of_int i @ s = string_of_int j @ t" by (simp add: b)
  from int_unique [OF this JNum.prems(3,4)] b show ?case by simp
next
  case (JStr k)
  obtain l where b: "b = JStr l" using render_same_shape [OF JStr.prems(5,1,2)] by auto
  from JStr.prems(5) have "json_quote k @ s = json_quote l @ t" by (simp add: b)
  from json_quote_unique [OF this] b show ?case by simp
next
  case (JBool x)
  have "b = JBool x" using render_same_shape [OF JBool.prems(5,1,2)] by simp
  with JBool show ?case by simp
next
  case JNull
  have "b = JNull" using render_same_shape [OF JNull.prems(5,1,2)] by simp
  with JNull show ?case by simp
qed simp

lemma deep_equal_iff: "deep_equal a b \<longleftrightarrow> json_value a = json_value b"
  using render_unique [of "json_value a" "json_value b" "[]" "[]"]
  by (auto simp: deep_equal_def canonicalize_render defined_json_value delimited_def)

section \<open>Properties\<close>

text \<open>Canonical texts decide JSON equality: two values get the same canonical text, the one
  hashed into a proposal's identity and compared by the re-verification, exactly when they are the
  same JSON value, key order and undefined entries aside.\<close>

theorem canonical_text_decides_equality:
  "(canonicalize a = canonicalize b \<longleftrightarrow> json_value a = json_value b)
   \<and> (deep_equal a b \<longleftrightarrow> json_value a = json_value b)"
  using deep_equal_iff [of a b] by (simp add: deep_equal_def)

end
