(* ===== verification/Proposal_Queue.thy ===== *)
theory Proposal_Queue
  imports Attach_State Canonical_Json
begin

text \<open>
  The durable proposal queue (\<open>packages/extension/src/amicode_service/proposal_queue.ts\<close>):
  the store, staging, and the drain. A drain is cut at its two \<open>await\<close>s, the truth fetch and the
  executor call, into synchronous segments; a segment reads the clock once. The hash, the uuid
  and what the fetch and the executor deliver are arguments.
\<close>

section \<open>The record vocabulary\<close>

datatype proposal_type = ModeChange | Checkout | ReturnSession | FleetWrite | TopologyEdit | StructuralSurface

datatype proposal_state = Staged | BlockedDegraded | PendingReconfirm

fun proposal_type_name :: "proposal_type \<Rightarrow> string" where
  "proposal_type_name ModeChange = ''mode-change''"
| "proposal_type_name Checkout = ''checkout''"
| "proposal_type_name ReturnSession = ''return''"
| "proposal_type_name FleetWrite = ''fleet-write''"
| "proposal_type_name TopologyEdit = ''topology-edit''"
| "proposal_type_name StructuralSurface = ''structural-surface''"

record precondition =
  pc_claim :: string
  pc_expected :: json

record identity =
  content_hash :: string
  confirm_stamp :: string

record queued_proposal =
  q_id :: string
  q_type :: proposal_type
  q_payload :: json
  q_precondition :: precondition
  q_identity :: identity
  contract_version :: int
  q_state :: proposal_state
  auto_apply :: bool
  attempts :: nat
  enqueued_at :: string
  updated_at :: string
  last_error :: "string option"
  rejection :: "string option"

record apply_receipt =
  identity_key :: string
  receipt_result :: json
  receipt_at :: string

record store_file =
  proposals :: "queued_proposal list"
  applied_receipts :: "apply_receipt list"

definition identity_key_of :: "identity \<Rightarrow> string" where
  "identity_key_of i = content_hash i @ '':'' @ confirm_stamp i"

definition fleet_contract_version :: int where
  "fleet_contract_version = 1"

definition contract_version_message :: "int \<Rightarrow> string" where
  "contract_version_message seen =
     ''projection carries contract v'' @ string_of_int seen @ ''; this consumer speaks v''
     @ string_of_int fleet_contract_version @ '' '' @ em_dash
     @ '' refusing loudly (never silently coerced)''"

section \<open>The durable store\<close>

text \<open>What the target path holds: nothing, text that does not parse, a JSON value that is not an
  object, or an object with its version and, where they are arrays, its two lists. Parsing what
  \<open>JSON.stringify\<close> wrote gives the file back.\<close>

datatype disk_content =
    Absent
  | Unparsable
  | NotAnObject
  | Carrier "int option" "queued_proposal list option" "apply_receipt list option"

datatype store_error = CorruptFile | UnsupportedVersion "int option" | ListsMissing

definition proposal_store_version :: int where
  "proposal_store_version = 1"

fun load_store :: "disk_content \<Rightarrow> store_error + store_file" where
  "load_store Absent = Inr \<lparr>proposals = [], applied_receipts = []\<rparr>"
| "load_store Unparsable = Inl CorruptFile"
| "load_store NotAnObject = Inl CorruptFile"
| "load_store (Carrier version ps rs) =
     (if version \<noteq> Some proposal_store_version then Inl (UnsupportedVersion version)
      else (case (ps, rs) of
              (Some ps', Some rs') \<Rightarrow> Inr \<lparr>proposals = ps', applied_receipts = rs'\<rparr>
            | _ \<Rightarrow> Inl ListsMissing))"

definition store_document :: "store_file \<Rightarrow> disk_content" where
  "store_document f = Carrier (Some proposal_store_version) (Some (proposals f)) (Some (applied_receipts f))"

record queue_disk =
  target :: disk_content
  tmp_file :: "disk_content option"

text \<open>Write, then rename; \<open>halted\<close> is the kill at the pre-rename boundary.\<close>

definition save_store :: "bool \<Rightarrow> store_file \<Rightarrow> queue_disk \<Rightarrow> queue_disk" where
  "save_store halted f d =
     (if halted then d\<lparr>tmp_file := Some (store_document f)\<rparr>
      else d\<lparr>target := store_document f, tmp_file := None\<rparr>)"

section \<open>The queue\<close>

record queue_config =
  max_retries :: nat
  retry_base_delay_ms :: int
  retry_max_delay_ms :: int

definition default_queue_config :: queue_config where
  "default_queue_config = \<lparr>max_retries = 3, retry_base_delay_ms = 1000, retry_max_delay_ms = 30000\<rparr>"

text \<open>\<open>in_flight_keys\<close>: the keys of the \<open>inFlight\<close> map. \<open>retry_delays\<close>: the timers armed, in order.\<close>

record queue =
  disk :: queue_disk
  file_value :: "store_file option"
  in_flight_keys :: "string list"
  hold_active :: bool
  duplicate_applies :: nat
  retry_delays :: "int list"

definition new_queue :: "queue_disk \<Rightarrow> queue" where
  "new_queue d = \<lparr>disk = d, file_value = None, in_flight_keys = [], hold_active = False,
     duplicate_applies = 0, retry_delays = []\<rparr>"

definition ensure_file :: "queue \<Rightarrow> store_error + (queue \<times> store_file)" where
  "ensure_file q =
     (case file_value q of
        Some f \<Rightarrow> Inr (q, f)
      | None \<Rightarrow>
          (case load_store (target (disk q)) of
             Inl e \<Rightarrow> Inl e
           | Inr f \<Rightarrow> Inr (q\<lparr>file_value := Some f\<rparr>, f)))"

definition put_file :: "bool \<Rightarrow> store_file \<Rightarrow> queue \<Rightarrow> queue" where
  "put_file halted f q = q\<lparr>file_value := Some f, disk := save_store halted f (disk q)\<rparr>"

definition find_proposal :: "string \<Rightarrow> store_file \<Rightarrow> queued_proposal option" where
  "find_proposal i f = find (\<lambda>p. q_id p = i) (proposals f)"

definition update_proposal ::
  "string \<Rightarrow> (queued_proposal \<Rightarrow> queued_proposal) \<Rightarrow> store_file \<Rightarrow> store_file" where
  "update_proposal i g f = f\<lparr>proposals := map (\<lambda>p. if q_id p = i then g p else p) (proposals f)\<rparr>"

definition remove_proposal :: "string \<Rightarrow> store_file \<Rightarrow> store_file" where
  "remove_proposal i f = f\<lparr>proposals := filter (\<lambda>p. q_id p \<noteq> i) (proposals f)\<rparr>"

definition add_receipt :: "apply_receipt \<Rightarrow> store_file \<Rightarrow> store_file" where
  "add_receipt r f = f\<lparr>applied_receipts := applied_receipts f @ [r]\<rparr>"

section \<open>Staging\<close>

record enqueue_input =
  in_type :: proposal_type
  in_payload :: json
  in_precondition :: precondition
  in_confirm_stamp :: string
  in_contract_version :: "int option"

record enqueue_result =
  er_proposal :: "queued_proposal option"
  er_deduped :: bool
  er_already_applied :: bool
  er_prior_result :: "json option"

definition content_text :: "enqueue_input \<Rightarrow> string" where
  "content_text inp =
     canonicalize (JObj [(''type'', JStr (proposal_type_name (in_type inp))),
       (''payload'', in_payload inp),
       (''precondition'', JObj [(''claim'', JStr (pc_claim (in_precondition inp))),
                                (''expected'', pc_expected (in_precondition inp))])])"

definition input_identity :: "(string \<Rightarrow> string) \<Rightarrow> enqueue_input \<Rightarrow> identity" where
  "input_identity sha inp = \<lparr>content_hash = sha (content_text inp), confirm_stamp = in_confirm_stamp inp\<rparr>"

definition staged_record :: "(string \<Rightarrow> string) \<Rightarrow> string \<Rightarrow> int \<Rightarrow> enqueue_input \<Rightarrow> queued_proposal" where
  "staged_record sha uuid now inp =
     \<lparr>q_id = uuid, q_type = in_type inp, q_payload = clone_json (in_payload inp),
      q_precondition = \<lparr>pc_claim = pc_claim (in_precondition inp),
        pc_expected = clone_json (pc_expected (in_precondition inp))\<rparr>,
      q_identity = input_identity sha inp,
      contract_version = or_else (in_contract_version inp) fleet_contract_version,
      q_state = Staged, auto_apply = (in_type inp \<noteq> StructuralSurface), attempts = 0,
      enqueued_at = to_iso_string now, updated_at = to_iso_string now,
      last_error = None, rejection = None\<rparr>"

definition enqueue ::
  "(string \<Rightarrow> string) \<Rightarrow> string \<Rightarrow> int \<Rightarrow> bool \<Rightarrow> enqueue_input \<Rightarrow> queue \<Rightarrow>
   store_error + (queue \<times> enqueue_result)" where
  "enqueue sha uuid now halted inp q =
     (case ensure_file q of
        Inl e \<Rightarrow> Inl e
      | Inr (q1, f) \<Rightarrow>
          (let key = identity_key_of (input_identity sha inp) in
           case find (\<lambda>r. identity_key r = key) (applied_receipts f) of
             Some r \<Rightarrow> Inr (q1, \<lparr>er_proposal = None, er_deduped = True, er_already_applied = True,
                              er_prior_result = Some (receipt_result r)\<rparr>)
           | None \<Rightarrow>
               (case find (\<lambda>p. identity_key_of (q_identity p) = key) (proposals f) of
                  Some p \<Rightarrow> Inr (q1, \<lparr>er_proposal = Some p, er_deduped = True,
                                   er_already_applied = False, er_prior_result = None\<rparr>)
                | None \<Rightarrow>
                    (let p = staged_record sha uuid now inp
                     in Inr (put_file halted (f\<lparr>proposals := proposals f @ [p]\<rparr>) q1,
                             \<lparr>er_proposal = Some p, er_deduped = False, er_already_applied = False,
                              er_prior_result = None\<rparr>)))))"

fun signal_class_name :: "signal_class \<Rightarrow> string" where
  "signal_class_name AuthRevoked = ''auth-revoked''"
| "signal_class_name ModeChangedElsewhere = ''mode-changed-elsewhere''"
| "signal_class_name PresumedStructural = ''presumed-structural''"

definition default_structural_classes :: "signal_class list" where
  "default_structural_classes = [AuthRevoked, ModeChangedElsewhere, PresumedStructural]"

definition surface_input :: "structural_signal \<Rightarrow> enqueue_input" where
  "surface_input s =
     (let cls = signal_class_name (sig_class s) in
      \<lparr>in_type = StructuralSurface,
       in_payload = JObj ((''class'', JStr cls)
         # (case sig_detail s of None \<Rightarrow> [] | Some d \<Rightarrow> [(''detail'', JStr d)])),
       in_precondition = \<lparr>pc_claim = ''structural:'' @ cls, pc_expected = JObj [(''class'', JStr cls)]\<rparr>,
       in_confirm_stamp = sig_at s, in_contract_version = None\<rparr>)"

text \<open>The listener the constructor registers on the machine's structural surface.\<close>

definition on_structural_signal ::
  "signal_class list \<Rightarrow> (string \<Rightarrow> string) \<Rightarrow> string \<Rightarrow> int \<Rightarrow> bool \<Rightarrow> structural_signal \<Rightarrow> queue \<Rightarrow>
   store_error + queue" where
  "on_structural_signal classes sha uuid now halted s q =
     (if sig_class s \<notin> set classes then Inr q
      else (case enqueue sha uuid now halted (surface_input s) q of
              Inl e \<Rightarrow> Inl e | Inr (q', r) \<Rightarrow> Inr q'))"

definition queued_proposals :: "queue \<Rightarrow> store_error + queued_proposal list" where
  "queued_proposals q = (case ensure_file q of Inl e \<Rightarrow> Inl e | Inr (q', f) \<Rightarrow> Inr (proposals f))"

definition queue_receipts :: "queue \<Rightarrow> store_error + apply_receipt list" where
  "queue_receipts q = (case ensure_file q of Inl e \<Rightarrow> Inl e | Inr (q', f) \<Rightarrow> Inr (applied_receipts f))"

section \<open>The drain\<close>

record drain_report =
  dr_drained :: nat
  dr_applied :: "string list"
  dr_held :: "string list"
  dr_pending_reconfirm :: "string list"
  dr_blocked_degraded :: "string list"
  dr_rejected :: "(string \<times> string) list"
  dr_surface_retained :: "string list"
  dr_surface_resolved :: "string list"

definition empty_report :: "nat \<Rightarrow> drain_report" where
  "empty_report n =
     \<lparr>dr_drained = n, dr_applied = [], dr_held = [], dr_pending_reconfirm = [],
      dr_blocked_degraded = [], dr_rejected = [], dr_surface_retained = [], dr_surface_resolved = []\<rparr>"

text \<open>Where the drain is: between two proposals (with the rest of the snapshot), waiting for a
  fetch, for the executor, or for an execution of the same identity already in flight.\<close>

datatype drain_phase =
    DrainIdle
  | Scanning "string list" drain_report
  | Fetching string "string list" drain_report
  | Applying string "string list" drain_report
  | Joining string "string list" drain_report

definition drain_begin :: "queue \<Rightarrow> store_error + (queue \<times> drain_phase)" where
  "drain_begin q =
     (case ensure_file q of
        Inl e \<Rightarrow> Inl e
      | Inr (q', f) \<Rightarrow> Inr (q', Scanning (map q_id (proposals f)) (empty_report (length (proposals f)))))"

text \<open>One proposal of the snapshot, up to its fetch.\<close>

definition scan_proposal ::
  "queue_config \<Rightarrow> int \<Rightarrow> bool \<Rightarrow> store_file \<Rightarrow> string \<Rightarrow> string list \<Rightarrow> drain_report \<Rightarrow> queue \<Rightarrow>
   queue \<times> drain_phase" where
  "scan_proposal cfg now halted f i rest rep q =
     (case find_proposal i f of
        None \<Rightarrow> (q, Scanning rest rep)
      | Some p \<Rightarrow>
          if q_state p = PendingReconfirm
          then (q, Scanning rest (rep\<lparr>dr_pending_reconfirm := dr_pending_reconfirm rep @ [i]\<rparr>))
          else if q_state p = BlockedDegraded \<and> attempts p \<ge> max_retries cfg
          then (q, Scanning rest (rep\<lparr>dr_blocked_degraded := dr_blocked_degraded rep @ [i]\<rparr>))
          else if auto_apply p \<and> contract_version p \<noteq> fleet_contract_version
          then (let msg = contract_version_message (contract_version p) in
                (put_file halted
                   (update_proposal i (\<lambda>p. p\<lparr>rejection := Some msg, updated_at := to_iso_string now\<rparr>) f) q,
                 Scanning rest (rep\<lparr>dr_rejected := dr_rejected rep @ [(i, msg)]\<rparr>)))
          else (q, Fetching i rest rep))"

definition retry_delay :: "queue_config \<Rightarrow> nat \<Rightarrow> int" where
  "retry_delay cfg n = min (retry_base_delay_ms cfg * 2 ^ (n - 1)) (retry_max_delay_ms cfg)"

definition schedule_retry :: "queue_config \<Rightarrow> nat \<Rightarrow> queue \<Rightarrow> queue" where
  "schedule_retry cfg n q =
     (if n \<ge> max_retries cfg then q else q\<lparr>retry_delays := retry_delays q @ [retry_delay cfg n]\<rparr>)"

definition fetch_failed_reason :: "queued_proposal \<Rightarrow> string \<Rightarrow> string" where
  "fetch_failed_reason p err =
     ''proposal '' @ q_id p @ '' ('' @ proposal_type_name (q_type p) @ '') re-verify fetch failed: ''
     @ err @ '' '' @ em_dash @ '' a fetch failure is not a world change (D2)''"

text \<open>The fetch threw.\<close>

definition fetch_failed ::
  "queue_config \<Rightarrow> int \<Rightarrow> string \<Rightarrow> bool \<Rightarrow> string \<Rightarrow> store_file \<Rightarrow> string \<Rightarrow> string list \<Rightarrow>
   drain_report \<Rightarrow> queue \<times> machine \<Rightarrow> (queue \<times> machine) \<times> drain_phase" where
  "fetch_failed cfg now stamp halted err f i rest rep qm =
     (let (q, m) = qm in
      case find_proposal i f of
        None \<Rightarrow> ((q, m), Scanning rest rep)
      | Some p \<Rightarrow>
          (let f' = update_proposal i (\<lambda>p. p\<lparr>q_state := BlockedDegraded, attempts := attempts p + 1,
                      last_error := Some err, updated_at := to_iso_string now\<rparr>) f;
               m' = write_posture Degraded (fetch_failed_reason p err) stamp m;
               q' = schedule_retry cfg (attempts p + 1) (put_file halted f' q)
           in ((q', m'), Scanning rest (rep\<lparr>dr_blocked_degraded := dr_blocked_degraded rep @ [i]\<rparr>))))"

definition surface_resolution :: json where
  "surface_resolution =
     JObj [(''resolved'', JStr (''the structural claim no longer holds '' @ em_dash @ '' the episode ended''))]"

text \<open>\<open>applyProposal\<close> up to the executor call: the third component tells whether it was called.\<close>

definition apply_begin ::
  "store_file \<Rightarrow> queued_proposal \<Rightarrow> string list \<Rightarrow> drain_report \<Rightarrow> queue \<Rightarrow> queue \<times> drain_phase \<times> bool" where
  "apply_begin f p rest rep q =
     (let key = identity_key_of (q_identity p) in
      if key \<in> set (in_flight_keys q) then (q, Joining (q_id p) rest rep, False)
      else if key \<in> identity_key ` set (applied_receipts f)
      then (q\<lparr>duplicate_applies := Suc (duplicate_applies q)\<rparr>,
            Scanning rest (rep\<lparr>dr_applied := dr_applied rep @ [q_id p]\<rparr>), False)
      else (q\<lparr>in_flight_keys := in_flight_keys q @ [key]\<rparr>, Applying (q_id p) rest rep, True))"

text \<open>The fetch delivered \<open>actual\<close>.\<close>

definition fetch_succeeded ::
  "int \<Rightarrow> bool \<Rightarrow> json \<Rightarrow> store_file \<Rightarrow> string \<Rightarrow> string list \<Rightarrow> drain_report \<Rightarrow> queue \<Rightarrow>
   queue \<times> drain_phase \<times> bool" where
  "fetch_succeeded now halted actual f i rest rep q =
     (case find_proposal i f of
        None \<Rightarrow> (q, Scanning rest rep, False)
      | Some p \<Rightarrow>
          (let revived = q_state p = BlockedDegraded;
               f1 = (if revived then update_proposal i (\<lambda>p. p\<lparr>q_state := Staged, updated_at := to_iso_string now\<rparr>) f
                     else f);
               q1 = (if revived then put_file halted f1 q else q);
               holds = deep_equal actual (pc_expected (q_precondition p))
           in if \<not> auto_apply p
              then (if holds
                    then (q1, Scanning rest (rep\<lparr>dr_surface_retained := dr_surface_retained rep @ [i]\<rparr>), False)
                    else (put_file halted
                            (remove_proposal i (add_receipt
                               \<lparr>identity_key = identity_key_of (q_identity p),
                                receipt_result = surface_resolution, receipt_at = to_iso_string now\<rparr> f1)) q1,
                          Scanning rest (rep\<lparr>dr_surface_resolved := dr_surface_resolved rep @ [i]\<rparr>), False))
              else if \<not> holds
              then (put_file halted
                      (update_proposal i (\<lambda>p. p\<lparr>q_state := PendingReconfirm, updated_at := to_iso_string now\<rparr>) f1) q1,
                    Scanning rest (rep\<lparr>dr_pending_reconfirm := dr_pending_reconfirm rep @ [i]\<rparr>), False)
              else if hold_active q1
              then (q1, Scanning rest (rep\<lparr>dr_held := dr_held rep @ [i]\<rparr>), False)
              else apply_begin f1 p rest rep q1))"

text \<open>The executor returned: the receipt and the removal in one save. \<open>None\<close> is \<open>undefined\<close>.\<close>

definition apply_done ::
  "int \<Rightarrow> bool \<Rightarrow> json option \<Rightarrow> store_file \<Rightarrow> string \<Rightarrow> string list \<Rightarrow> drain_report \<Rightarrow> queue \<Rightarrow>
   queue \<times> drain_phase" where
  "apply_done now halted raw f i rest rep q =
     (case find_proposal i f of
        None \<Rightarrow> (q, Scanning rest rep)
      | Some p \<Rightarrow>
          (let key = identity_key_of (q_identity p);
               r = \<lparr>identity_key = key, receipt_result = clone_json (or_else raw JNull),
                    receipt_at = to_iso_string now\<rparr>;
               q1 = put_file halted (remove_proposal i (add_receipt r f)) q
           in (q1\<lparr>in_flight_keys := removeAll key (in_flight_keys q1)\<rparr>,
               Scanning rest (rep\<lparr>dr_applied := dr_applied rep @ [i]\<rparr>))))"

text \<open>The executor threw: the identity leaves the in-flight map and the drain rejects.\<close>

definition apply_threw :: "store_file \<Rightarrow> string \<Rightarrow> queue \<Rightarrow> queue \<times> drain_phase" where
  "apply_threw f i q =
     (case find_proposal i f of
        None \<Rightarrow> (q, DrainIdle)
      | Some p \<Rightarrow>
          (q\<lparr>in_flight_keys := removeAll (identity_key_of (q_identity p)) (in_flight_keys q)\<rparr>, DrainIdle))"

definition hold_queue :: "queue \<Rightarrow> queue" where
  "hold_queue q = q\<lparr>hold_active := True\<rparr>"

definition unhold_queue :: "queue \<Rightarrow> queue" where
  "unhold_queue q = q\<lparr>hold_active := False\<rparr>"

end
