(* ===== verification/Queue_Protocol.thy ===== *)
theory Queue_Protocol
  imports Proposal_Queue "HOL-Library.Multiset"
begin

text \<open>
  The proposal queue as a protocol: its public calls, the segments of its drains, the machine's
  signals, the engine's window hooks and a restart as events, in any order the activity chain
  admits. Drains run one after the other (\<open>activity\<close>); the continuation of the engine that awaits
  a verify-entry drain opens the window before any result of a later fetch is delivered.
\<close>

section \<open>The system\<close>

datatype drain_origin = VerifyEntry | Background

text \<open>\<open>executed\<close> records the identities whose execution returned; \<open>last_report\<close> the last drain
  report that resolved.\<close>

record queue_system =
  qs_queue :: queue
  qs_machine :: machine
  qs_phase :: drain_phase
  qs_running :: drain_origin
  qs_waiting :: "drain_origin list"
  qs_window_due :: bool
  executed :: "string list"
  last_report :: "drain_report option"

datatype queue_event =
    EvEnqueue enqueue_input string int
  | EvSignal structural_signal string int
  | EvRequest drain_origin
  | EvStart
  | EvScan int
  | EvFetched json int
  | EvFetchFailed string string int
  | EvReturned "json option" int
  | EvThrew
  | EvOpenWindow
  | EvCloseWindow
  | EvRestart

text \<open>The setting: the configuration, the classes that enqueue, the hash.\<close>

record queue_setting =
  qc :: queue_config
  classes :: "signal_class list"
  sha256 :: "string \<Rightarrow> string"

text \<open>\<open>None\<close>: the event cannot happen there. A rejected drain leaves the chain idle.\<close>

fun queue_step :: "queue_setting \<Rightarrow> queue_event \<Rightarrow> queue_system \<Rightarrow> queue_system option" where
  "queue_step st (EvEnqueue inp uuid now) s =
     (case enqueue (sha256 st) uuid now False inp (qs_queue s) of
        Inl e \<Rightarrow> Some s
      | Inr (q, r) \<Rightarrow> Some (s\<lparr>qs_queue := q\<rparr>))"
| "queue_step st (EvSignal sig uuid now) s =
     (case on_structural_signal (classes st) (sha256 st) uuid now False sig (qs_queue s) of
        Inl e \<Rightarrow> Some s
      | Inr q \<Rightarrow> Some (s\<lparr>qs_queue := q\<rparr>))"
| "queue_step st (EvRequest origin) s = Some (s\<lparr>qs_waiting := qs_waiting s @ [origin]\<rparr>)"
| "queue_step st EvStart s =
     (case (qs_phase s, qs_waiting s) of
        (DrainIdle, origin # rest) \<Rightarrow>
          (case drain_begin (qs_queue s) of
             Inl e \<Rightarrow> Some (s\<lparr>qs_waiting := rest\<rparr>)
           | Inr (q, ph) \<Rightarrow>
               Some (s\<lparr>qs_queue := q, qs_phase := ph, qs_running := origin, qs_waiting := rest\<rparr>))
      | _ \<Rightarrow> None)"
| "queue_step st (EvScan now) s =
     (case (qs_phase s, file_value (qs_queue s)) of
        (Scanning (i # rest) rep, Some f) \<Rightarrow>
          (let (q, ph) = scan_proposal (qc st) now False f i rest rep (qs_queue s)
           in Some (s\<lparr>qs_queue := q, qs_phase := ph\<rparr>))
      | (Scanning [] rep, Some f) \<Rightarrow>
          Some (s\<lparr>qs_phase := DrainIdle, last_report := Some rep,
                  qs_window_due := (qs_window_due s \<or> qs_running s = VerifyEntry)\<rparr>)
      | _ \<Rightarrow> None)"
| "queue_step st (EvFetched actual now) s =
     (case (qs_phase s, file_value (qs_queue s)) of
        (Fetching i rest rep, Some f) \<Rightarrow>
          (if qs_window_due s then None
           else (let (q, ph, called) = fetch_succeeded now False actual f i rest rep (qs_queue s)
                 in Some (s\<lparr>qs_queue := q, qs_phase := ph\<rparr>)))
      | _ \<Rightarrow> None)"
| "queue_step st (EvFetchFailed err stamp now) s =
     (case (qs_phase s, file_value (qs_queue s)) of
        (Fetching i rest rep, Some f) \<Rightarrow>
          (if qs_window_due s then None
           else (let ((q, m), ph) =
                       fetch_failed (qc st) now stamp False err f i rest rep (qs_queue s, qs_machine s)
                 in Some (s\<lparr>qs_queue := q, qs_machine := m, qs_phase := ph\<rparr>)))
      | _ \<Rightarrow> None)"
| "queue_step st (EvReturned raw now) s =
     (case (qs_phase s, file_value (qs_queue s)) of
        (Applying i rest rep, Some f) \<Rightarrow>
          (let (q, ph) = apply_done now False raw f i rest rep (qs_queue s)
           in Some (s\<lparr>qs_queue := q, qs_phase := ph,
                executed := executed s
                  @ (case find_proposal i f of None \<Rightarrow> [] | Some p \<Rightarrow> [identity_key_of (q_identity p)])\<rparr>))
      | _ \<Rightarrow> None)"
| "queue_step st EvThrew s =
     (case (qs_phase s, file_value (qs_queue s)) of
        (Applying i rest rep, Some f) \<Rightarrow>
          (let (q, ph) = apply_threw f i (qs_queue s) in Some (s\<lparr>qs_queue := q, qs_phase := ph\<rparr>))
      | _ \<Rightarrow> None)"
| "queue_step st EvOpenWindow s =
     (if qs_window_due s then Some (s\<lparr>qs_queue := hold_queue (qs_queue s), qs_window_due := False\<rparr>)
      else None)"
| "queue_step st EvCloseWindow s =
     (if hold_active (qs_queue s)
      then Some (s\<lparr>qs_queue := unhold_queue (qs_queue s), qs_waiting := qs_waiting s @ [Background]\<rparr>)
      else None)"
| "queue_step st EvRestart s =
     Some (s\<lparr>qs_queue := new_queue (disk (qs_queue s)), qs_phase := DrainIdle, qs_waiting := [],
             qs_window_due := False\<rparr>)"

definition current_file :: "queue \<Rightarrow> store_file option" where
  "current_file q =
     (case file_value q of
        Some f \<Rightarrow> Some f
      | None \<Rightarrow> (case load_store (target (disk q)) of Inl e \<Rightarrow> None | Inr f \<Rightarrow> Some f))"

text \<open>\<open>randomUUID\<close> does not repeat an id that is in the file.\<close>

definition fresh_id :: "string \<Rightarrow> queue \<Rightarrow> bool" where
  "fresh_id uuid q = (case current_file q of None \<Rightarrow> True | Some f \<Rightarrow> uuid \<notin> q_id ` set (proposals f))"

fun event_ok :: "queue_event \<Rightarrow> queue_system \<Rightarrow> bool" where
  "event_ok (EvEnqueue inp uuid now) s = fresh_id uuid (qs_queue s)"
| "event_ok (EvSignal sig uuid now) s = fresh_id uuid (qs_queue s)"
| "event_ok ev s = True"

section \<open>The invariant of the file\<close>

definition proposal_inv :: "queue_config \<Rightarrow> queued_proposal \<Rightarrow> bool" where
  "proposal_inv cfg p \<longleftrightarrow>
     auto_apply p = (q_type p \<noteq> StructuralSurface)
     \<and> attempts p \<le> max_retries cfg
     \<and> (attempts p = max_retries cfg \<longrightarrow> q_state p = BlockedDegraded)"

definition file_keys :: "store_file \<Rightarrow> string list" where
  "file_keys f = map (\<lambda>p. identity_key_of (q_identity p)) (proposals f) @ map identity_key (applied_receipts f)"

definition file_inv :: "queue_config \<Rightarrow> store_file \<Rightarrow> bool" where
  "file_inv cfg f \<longleftrightarrow>
     distinct (map q_id (proposals f)) \<and> distinct (file_keys f)
     \<and> (\<forall>p \<in> set (proposals f). proposal_inv cfg p)"

lemma find_proposal_Some:
  "find_proposal i f = Some p \<Longrightarrow> p \<in> set (proposals f) \<and> q_id p = i"
  by (auto simp: find_proposal_def find_Some_iff)

lemma find_proposal_iff:
  "distinct (map q_id (proposals f)) \<Longrightarrow> find_proposal i f = Some p \<longleftrightarrow> p \<in> set (proposals f) \<and> q_id p = i"
proof
  assume d: "distinct (map q_id (proposals f))" and p: "p \<in> set (proposals f) \<and> q_id p = i"
  then have "find_proposal i f \<noteq> None" by (auto simp: find_proposal_def find_None_iff)
  then obtain r where r: "find_proposal i f = Some r" by blast
  with find_proposal_Some [OF r] p d have "r = p" by (auto dest: inj_onD [OF distinct_map [THEN iffD1, THEN conjunct2]])
  with r show "find_proposal i f = Some p" by simp
qed (rule find_proposal_Some)

lemma find_proposal_exists: "i \<in> q_id ` set (proposals f) \<Longrightarrow> \<exists>p. find_proposal i f = Some p"
  by (cases "find_proposal i f") (auto simp: find_proposal_def find_None_iff)

lemma proposals_update [simp]:
  "proposals (update_proposal i g f) = map (\<lambda>p. if q_id p = i then g p else p) (proposals f)"
  "applied_receipts (update_proposal i g f) = applied_receipts f"
  by (simp_all add: update_proposal_def)

lemma proposals_remove [simp]:
  "proposals (remove_proposal i f) = filter (\<lambda>p. q_id p \<noteq> i) (proposals f)"
  "applied_receipts (remove_proposal i f) = applied_receipts f"
  "proposals (add_receipt r f) = proposals f"
  "applied_receipts (add_receipt r f) = applied_receipts f @ [r]"
  by (simp_all add: remove_proposal_def add_receipt_def)

lemma file_inv_update:
  assumes "file_inv cfg f"
    and "\<And>p. q_id (g p) = q_id p" and "\<And>p. q_identity (g p) = q_identity p"
    and "\<And>p. p \<in> set (proposals f) \<Longrightarrow> q_id p = i \<Longrightarrow> proposal_inv cfg (g p)"
  shows "file_inv cfg (update_proposal i g f)"
proof -
  have "map q_id (proposals (update_proposal i g f)) = map q_id (proposals f)"
    using assms(2) by (simp add: comp_def)
  moreover have "file_keys (update_proposal i g f) = file_keys f"
    using assms(3) by (simp add: file_keys_def comp_def)
  ultimately show ?thesis
    using assms(1,4) by (auto simp: file_inv_def simp del: map_map)
qed

lemma update_ids:
  assumes "\<And>p. q_id (g p) = q_id p"
  shows "q_id ` set (proposals (update_proposal i g f)) = q_id ` set (proposals f)"
proof -
  have "(\<lambda>p. q_id (if q_id p = i then g p else p)) = q_id" by (simp add: fun_eq_iff assms)
  then show ?thesis by (simp only: proposals_update set_map image_image)
qed

lemma file_inv_apply:
  assumes "file_inv cfg f" and "find_proposal i f = Some p"
    and "identity_key r = identity_key_of (q_identity p)"
  shows "file_inv cfg (remove_proposal i (add_receipt r f))"
proof -
  let ?k = "\<lambda>p. identity_key_of (q_identity p)"
  have p: "p \<in> set (proposals f)" "q_id p = i" using find_proposal_Some [OF assms(2)] by auto
  have d: "distinct (map ?k (proposals f))" "distinct (map identity_key (applied_receipts f))"
    "set (map ?k (proposals f)) \<inter> set (map identity_key (applied_receipts f)) = {}"
    using assms(1) by (auto simp: file_inv_def file_keys_def)
  have "?k p \<notin> ?k ` {q \<in> set (proposals f). q_id q \<noteq> i}"
    using d(1) p by (auto simp: distinct_map dest: inj_onD)
  with p d assms(1,3) show ?thesis
    by (auto simp: file_inv_def file_keys_def distinct_map_filter)
qed

lemma file_inv_stage:
  assumes "file_inv cfg f" and "q_id p \<notin> q_id ` set (proposals f)"
    and "identity_key_of (q_identity p) \<notin> set (file_keys f)" and "proposal_inv cfg p"
  shows "file_inv cfg (f\<lparr>proposals := proposals f @ [p]\<rparr>)"
  using assms by (auto simp: file_inv_def file_keys_def)

lemma staged_record_inv: "0 < max_retries cfg \<Longrightarrow> proposal_inv cfg (staged_record sha uuid now inp)"
  by (simp add: proposal_inv_def staged_record_def)


section \<open>The invariant of the system\<close>

definition report_ids :: "drain_report \<Rightarrow> string list" where
  "report_ids rep =
     dr_applied rep @ dr_held rep @ dr_pending_reconfirm rep @ dr_blocked_degraded rep
     @ map fst (dr_rejected rep) @ dr_surface_retained rep @ dr_surface_resolved rep"

text \<open>Every proposal of the snapshot is in one list of the report or still to come.\<close>

definition accounts :: "string list \<Rightarrow> drain_report \<Rightarrow> store_file \<Rightarrow> bool" where
  "accounts todo rep f \<longleftrightarrow>
     distinct (report_ids rep @ todo) \<and> length (report_ids rep) + length todo = dr_drained rep
     \<and> set todo \<subseteq> q_id ` set (proposals f)"

text \<open>A proposal past the gates of the scan.\<close>

definition examinable :: "queue_config \<Rightarrow> queued_proposal \<Rightarrow> bool" where
  "examinable cfg p \<longleftrightarrow>
     q_state p \<noteq> PendingReconfirm
     \<and> \<not> (q_state p = BlockedDegraded \<and> attempts p \<ge> max_retries cfg)
     \<and> (auto_apply p \<longrightarrow> contract_version p = fleet_contract_version)"

fun phase_inv :: "queue_config \<Rightarrow> drain_phase \<Rightarrow> queue \<Rightarrow> bool" where
  "phase_inv cfg DrainIdle q = (in_flight_keys q = [])"
| "phase_inv cfg (Scanning todo rep) q =
     (in_flight_keys q = [] \<and> (\<exists>f. file_value q = Some f \<and> accounts todo rep f))"
| "phase_inv cfg (Fetching i rest rep) q =
     (in_flight_keys q = []
      \<and> (\<exists>f p. file_value q = Some f \<and> accounts (i # rest) rep f
            \<and> find_proposal i f = Some p \<and> examinable cfg p))"
| "phase_inv cfg (Applying i rest rep) q =
     (\<not> hold_active q
      \<and> (\<exists>f p. file_value q = Some f \<and> accounts (i # rest) rep f
            \<and> find_proposal i f = Some p \<and> examinable cfg p \<and> auto_apply p \<and> q_state p = Staged
            \<and> in_flight_keys q = [identity_key_of (q_identity p)]))"
| "phase_inv cfg (Joining i rest rep) q = False"

definition disk_inv :: "queue_config \<Rightarrow> queue \<Rightarrow> bool" where
  "disk_inv cfg q \<longleftrightarrow>
     (\<exists>f. current_file q = Some f \<and> file_inv cfg f
        \<and> (file_value q = Some f \<longrightarrow> load_store (target (disk q)) = Inr f))"

definition report_complete :: "drain_report \<Rightarrow> bool" where
  "report_complete rep \<longleftrightarrow> distinct (report_ids rep) \<and> length (report_ids rep) = dr_drained rep"

definition queue_inv :: "queue_config \<Rightarrow> queue_system \<Rightarrow> bool" where
  "queue_inv cfg s \<longleftrightarrow>
     disk_inv cfg (qs_queue s) \<and> phase_inv cfg (qs_phase s) (qs_queue s)
     \<and> duplicate_applies (qs_queue s) = 0
     \<and> (qs_window_due s \<longrightarrow> (\<forall>i rest rep. qs_phase s \<noteq> Applying i rest rep))
     \<and> distinct (executed s)
     \<and> (\<forall>f. current_file (qs_queue s) = Some f \<longrightarrow> set (executed s) \<subseteq> identity_key ` set (applied_receipts f))
     \<and> (\<forall>rep. last_report s = Some rep \<longrightarrow> report_complete rep)"

lemma load_store_document [simp]: "load_store (store_document f) = Inr f"
  by (simp add: store_document_def)

lemma current_file_loaded [simp]: "file_value q = Some f \<Longrightarrow> current_file q = Some f"
  by (simp add: current_file_def)

lemma current_file_hold [simp]: "current_file (q\<lparr>hold_active := b\<rparr>) = current_file q"
  by (cases "file_value q") (simp_all add: current_file_def)

lemma put_file_simps [simp]:
  "file_value (put_file h f q) = Some f"
  "current_file (put_file h f q) = Some f"
  "in_flight_keys (put_file h f q) = in_flight_keys q"
  "hold_active (put_file h f q) = hold_active q"
  "duplicate_applies (put_file h f q) = duplicate_applies q"
  "target (disk (put_file False f q)) = store_document f"
  by (simp_all add: put_file_def current_file_def save_store_def)

lemma disk_inv_put: "file_inv cfg f \<Longrightarrow> disk_inv cfg (put_file False f q)"
  by (simp add: disk_inv_def)

lemma disk_inv_cong:
  "file_value q' = file_value q \<Longrightarrow> target (disk q') = target (disk q) \<Longrightarrow> disk_inv cfg q' = disk_inv cfg q"
  by (simp only: disk_inv_def current_file_def)

lemma disk_inv_file: "disk_inv cfg q \<Longrightarrow> file_value q = Some f \<Longrightarrow> file_inv cfg f"
  by (auto simp: disk_inv_def)

lemma ensure_file_current:
  assumes "disk_inv cfg q"
  obtains f where "ensure_file q = Inr (q\<lparr>file_value := Some f\<rparr>, f)" and "current_file q = Some f"
    and "file_inv cfg f" and "disk_inv cfg (q\<lparr>file_value := Some f\<rparr>)"
proof -
  from assms obtain f where f: "current_file q = Some f" "file_inv cfg f"
    and l: "file_value q = Some f \<longrightarrow> load_store (target (disk q)) = Inr f"
    by (auto simp: disk_inv_def)
  have "load_store (target (disk q)) = Inr f"
    using f l by (auto simp: current_file_def split: option.splits sum.splits)
  moreover have "ensure_file q = Inr (q\<lparr>file_value := Some f\<rparr>, f)"
    using f(1) by (auto simp: ensure_file_def current_file_def split: option.splits sum.splits)
  ultimately show ?thesis using f that by (simp add: disk_inv_def)
qed

text \<open>The file may gain proposals while a drain waits: its accounts stay in order.\<close>

lemma accounts_mono:
  "accounts todo rep f \<Longrightarrow> q_id ` set (proposals f) \<subseteq> q_id ` set (proposals f') \<Longrightarrow> accounts todo rep f'"
  by (auto simp: accounts_def)

lemma accounts_update:
  "(\<And>p. q_id (g p) = q_id p) \<Longrightarrow> accounts todo rep (update_proposal i g f) = accounts todo rep f"
  by (simp only: accounts_def update_ids)

text \<open>Filing the proposal just examined under one of the lists.\<close>

definition files_under :: "string \<Rightarrow> drain_report \<Rightarrow> drain_report \<Rightarrow> bool" where
  "files_under i rep rep' \<longleftrightarrow>
     dr_drained rep' = dr_drained rep \<and> mset (report_ids rep') = add_mset i (mset (report_ids rep))"

lemma accounts_file:
  assumes "accounts (i # rest) rep f" and "files_under i rep rep'"
    and "set rest \<subseteq> q_id ` set (proposals f')"
  shows "accounts rest rep' f'"
proof -
  have m: "mset (report_ids rep') = mset (report_ids rep @ [i])" and n: "dr_drained rep' = dr_drained rep"
    using assms(2) by (simp_all add: files_under_def)
  have s: "set (report_ids rep') = insert i (set (report_ids rep))"
    using mset_eq_setD [OF m] by auto
  have d: "distinct (report_ids rep') = distinct (report_ids rep @ [i])"
    using m by (rule mset_eq_imp_distinct_iff)
  have l: "length (report_ids rep') = Suc (length (report_ids rep))"
    using mset_eq_length [OF m] by simp
  show ?thesis
    using assms(1,3) s d l n by (auto simp: accounts_def)
qed

lemma files_under_simps [simp]:
  "files_under i rep (rep\<lparr>dr_applied := dr_applied rep @ [i]\<rparr>)"
  "files_under i rep (rep\<lparr>dr_held := dr_held rep @ [i]\<rparr>)"
  "files_under i rep (rep\<lparr>dr_pending_reconfirm := dr_pending_reconfirm rep @ [i]\<rparr>)"
  "files_under i rep (rep\<lparr>dr_blocked_degraded := dr_blocked_degraded rep @ [i]\<rparr>)"
  "files_under i rep (rep\<lparr>dr_rejected := dr_rejected rep @ [(i, msg)]\<rparr>)"
  "files_under i rep (rep\<lparr>dr_surface_retained := dr_surface_retained rep @ [i]\<rparr>)"
  "files_under i rep (rep\<lparr>dr_surface_resolved := dr_surface_resolved rep @ [i]\<rparr>)"
  by (simp_all add: files_under_def report_ids_def)

lemma accounts_rest: "accounts (i # rest) rep f \<Longrightarrow> set rest \<subseteq> q_id ` set (proposals f) - {i}"
  by (auto simp: accounts_def)


section \<open>Each segment keeps the invariant\<close>

text \<open>What a segment started on the file \<open>f\<close> establishes: the receipts only grow.\<close>

definition segment_ok :: "queue_config \<Rightarrow> store_file \<Rightarrow> queue \<Rightarrow> drain_phase \<Rightarrow> bool" where
  "segment_ok cfg f q ph \<longleftrightarrow>
     disk_inv cfg q \<and> phase_inv cfg ph q \<and> duplicate_applies q = 0
     \<and> (\<exists>f'. file_value q = Some f' \<and> set (applied_receipts f) \<subseteq> set (applied_receipts f'))"

lemma segment_put:
  assumes "file_inv cfg f'" and "accounts rest rep f'" and "in_flight_keys q = []"
    and "duplicate_applies q = 0" and "set (applied_receipts f) \<subseteq> set (applied_receipts f')"
  shows "segment_ok cfg f (put_file False f' q) (Scanning rest rep)"
  using assms by (simp add: segment_ok_def disk_inv_put)

lemma segment_same:
  assumes "disk_inv cfg q" and "file_value q = Some f" and "accounts rest rep f"
    and "in_flight_keys q = []" and "duplicate_applies q = 0"
  shows "segment_ok cfg f q (Scanning rest rep)"
  using assms by (simp add: segment_ok_def)

lemma accounts_file_update:
  assumes "accounts (i # rest) rep f" and "files_under i rep rep'" and "\<And>p. q_id (g p) = q_id p"
  shows "accounts rest rep' (update_proposal j g f)"
  using assms(1,2)
proof (rule accounts_file)
  show "set rest \<subseteq> q_id ` set (proposals (update_proposal j g f))"
    unfolding update_ids [OF assms(3)] using accounts_rest [OF assms(1)] by blast
qed

lemma accounts_file_same:
  "accounts (i # rest) rep f \<Longrightarrow> files_under i rep rep' \<Longrightarrow> accounts rest rep' f"
  by (rule accounts_file) (auto dest: accounts_rest)

lemma scan_segment:
  assumes "disk_inv cfg q" and "file_value q = Some f" and "accounts (i # rest) rep f"
    and "in_flight_keys q = []" and "duplicate_applies q = 0"
    and "scan_proposal cfg now False f i rest rep q = (q', ph)"
  shows "segment_ok cfg f q' ph \<and> (\<forall>i rest rep. ph \<noteq> Applying i rest rep)"
proof -
  have fi: "file_inv cfg f" using disk_inv_file assms(1,2) by blast
  obtain p where p: "find_proposal i f = Some p"
    using find_proposal_exists [of i f] assms(3) by (auto simp: accounts_def)
  have pp: "p \<in> set (proposals f)" "q_id p = i" using find_proposal_Some [OF p] by auto
  have upd: "file_inv cfg (update_proposal i (\<lambda>p. p\<lparr>rejection := Some msg, updated_at := u\<rparr>) f)" for msg u
    using fi by (intro file_inv_update) (auto simp: file_inv_def proposal_inv_def)
  have rej: "segment_ok cfg f
      (put_file False (update_proposal i (\<lambda>p. p\<lparr>rejection := Some msg, updated_at := u\<rparr>) f) q)
      (Scanning rest (rep\<lparr>dr_rejected := dr_rejected rep @ [(i, msg)]\<rparr>))" for msg u
    by (rule segment_put [OF upd _ assms(4,5)], rule accounts_file_update [OF assms(3)]) simp_all
  have same: "segment_ok cfg f q (Scanning rest rep')" if "files_under i rep rep'" for rep'
    by (rule segment_same [OF assms(1,2) accounts_file_same [OF assms(3) that] assms(4,5)])
  have fetching: "segment_ok cfg f q (Fetching i rest rep)" if "examinable cfg p"
    using that assms(1-5) p by (simp add: segment_ok_def)
  show ?thesis
    using assms(6) rej same fetching unfolding scan_proposal_def p Let_def examinable_def option.case
    by (simp split: if_splits; elim conjE; hypsubst; simp)
qed

lemma fetch_failed_segment:
  assumes "disk_inv cfg q" and "file_value q = Some f" and "accounts (i # rest) rep f"
    and "in_flight_keys q = []" and "duplicate_applies q = 0"
    and "find_proposal i f = Some p" and "examinable cfg p"
    and "fetch_failed cfg now stamp False err f i rest rep (q, m) = ((q', m'), ph)"
  shows "segment_ok cfg f q' ph \<and> (\<forall>i rest rep. ph \<noteq> Applying i rest rep)"
proof -
  have fi: "file_inv cfg f" using disk_inv_file assms(1,2) by blast
  have pp: "p \<in> set (proposals f)" "q_id p = i" using find_proposal_Some [OF assms(6)] by auto
  have uniq: "r \<in> set (proposals f) \<Longrightarrow> q_id r = i \<Longrightarrow> r = p" for r
    using find_proposal_iff [of f i r] fi assms(6) by (auto simp: file_inv_def)
  have "attempts p < max_retries cfg"
    using assms(7) fi pp by (fastforce simp: examinable_def file_inv_def proposal_inv_def)
  then have upd: "file_inv cfg (update_proposal i (\<lambda>p. p\<lparr>q_state := BlockedDegraded, attempts := attempts p + 1,
      last_error := Some err, updated_at := u\<rparr>) f)" for u
    using fi by (intro file_inv_update) (auto simp: file_inv_def proposal_inv_def dest: uniq)
  define f' where "f' = update_proposal i (\<lambda>p. p\<lparr>q_state := BlockedDegraded, attempts := attempts p + 1,
      last_error := Some err, updated_at := to_iso_string now\<rparr>) f"
  have acc: "accounts rest (rep\<lparr>dr_blocked_degraded := dr_blocked_degraded rep @ [i]\<rparr>) f'"
    unfolding f'_def using assms(3) by (rule accounts_file_update) simp_all
  have q': "q' = schedule_retry cfg (attempts p + 1) (put_file False f' q)"
    and ph: "ph = Scanning rest (rep\<lparr>dr_blocked_degraded := dr_blocked_degraded rep @ [i]\<rparr>)"
    using assms(8) by (simp_all add: fetch_failed_def assms(6) Let_def f'_def)
  have f'i: "file_inv cfg f'" unfolding f'_def by (rule upd)
  have fv: "file_value q' = Some f'" and tg: "target (disk q') = store_document f'"
    and fl: "in_flight_keys q' = []" and du: "duplicate_applies q' = 0"
    using assms(4,5) by (simp_all add: q' schedule_retry_def)
  have "applied_receipts f' = applied_receipts f" by (simp add: f'_def)
  with f'i fv tg fl du acc show ?thesis
    by (simp add: ph segment_ok_def disk_inv_def)
qed


lemma find_proposal_update:
  assumes "\<And>p. q_id (g p) = q_id p" and "find_proposal i f = Some p"
  shows "find_proposal i (update_proposal i g f) = Some (g p)"
proof -
  have "find (\<lambda>p. q_id p = i) (map (\<lambda>p. if q_id p = i then g p else p) ps)
      = map_option g (find (\<lambda>p. q_id p = i) ps)" for ps
    by (induction ps) (auto simp: assms(1))
  with assms(2) show ?thesis by (simp add: find_proposal_def)
qed

text \<open>The proposal as it is after the fetch: a blocked one is staged again.\<close>

definition revive :: "int \<Rightarrow> queued_proposal \<Rightarrow> queued_proposal" where
  "revive now p = p\<lparr>q_state := Staged, updated_at := to_iso_string now\<rparr>"

lemma revive_simps [simp]:
  "q_id (revive now p) = q_id p" "q_identity (revive now p) = q_identity p"
  "q_type (revive now p) = q_type p" "auto_apply (revive now p) = auto_apply p"
  "attempts (revive now p) = attempts p" "contract_version (revive now p) = contract_version p"
  "q_precondition (revive now p) = q_precondition p" "q_state (revive now p) = Staged"
  by (simp_all add: revive_def)

lemma revive_file:
  assumes "file_inv cfg f" and "find_proposal i f = Some p" and "examinable cfg p"
  shows "file_inv cfg (update_proposal i (revive now) f)"
proof -
  have uniq: "r \<in> set (proposals f) \<Longrightarrow> q_id r = i \<Longrightarrow> r = p" for r
    using find_proposal_iff [of f i r] assms(1,2) by (auto simp: file_inv_def)
  have "attempts p < max_retries cfg"
    using assms find_proposal_Some [OF assms(2)]
    by (fastforce simp: examinable_def file_inv_def proposal_inv_def)
  with assms(1) show ?thesis
    by (intro file_inv_update) (auto simp: file_inv_def proposal_inv_def dest: uniq)
qed

lemma key_not_applied:
  assumes "file_inv cfg f" and "find_proposal i f = Some p"
  shows "identity_key_of (q_identity p) \<notin> identity_key ` set (applied_receipts f)"
proof -
  have "p \<in> set (proposals f)" using find_proposal_Some [OF assms(2)] by simp
  then have "identity_key_of (q_identity p) \<in> set (map (\<lambda>p. identity_key_of (q_identity p)) (proposals f))"
    by simp
  with assms(1) show ?thesis unfolding file_inv_def file_keys_def distinct_append by auto
qed

text \<open>The rest of the segment, once the proposal is staged.\<close>

lemma verdict_segment:
  assumes "disk_inv cfg q" and "file_value q = Some f" and "accounts (i # rest) rep f"
    and "in_flight_keys q = []" and "duplicate_applies q = 0"
    and "find_proposal i f = Some p" and "examinable cfg p" and "q_state p = Staged"
  shows "files_under i rep rep' \<Longrightarrow> segment_ok cfg f q (Scanning rest rep')"
    and "files_under i rep rep' \<Longrightarrow> identity_key r = identity_key_of (q_identity p) \<Longrightarrow>
      segment_ok cfg f (put_file False (remove_proposal i (add_receipt r f)) q) (Scanning rest rep')"
    and "files_under i rep rep' \<Longrightarrow>
      segment_ok cfg f (put_file False (update_proposal i
        (\<lambda>p. p\<lparr>q_state := PendingReconfirm, updated_at := u\<rparr>) f) q) (Scanning rest rep')"
    and "auto_apply p \<Longrightarrow> \<not> hold_active q \<Longrightarrow>
      apply_begin f p rest rep q =
        (q\<lparr>in_flight_keys := [identity_key_of (q_identity p)]\<rparr>, Applying i rest rep, True)
      \<and> segment_ok cfg f (q\<lparr>in_flight_keys := [identity_key_of (q_identity p)]\<rparr>) (Applying i rest rep)"
proof -
  have fi: "file_inv cfg f" using disk_inv_file assms(1,2) by blast
  have uniq: "r \<in> set (proposals f) \<Longrightarrow> q_id r = i \<Longrightarrow> r = p" for r
    using find_proposal_iff [of f i r] fi assms(6) by (auto simp: file_inv_def)
  have pp: "p \<in> set (proposals f)" "q_id p = i" using find_proposal_Some [OF assms(6)] by auto
  have at: "attempts p < max_retries cfg"
    using fi pp(1) assms(8) by (fastforce simp: file_inv_def proposal_inv_def)
  show "segment_ok cfg f q (Scanning rest rep')" if "files_under i rep rep'" for rep'
    by (rule segment_same [OF assms(1,2) accounts_file_same [OF assms(3) that] assms(4,5)])
  show "segment_ok cfg f (put_file False (remove_proposal i (add_receipt r f)) q) (Scanning rest rep')"
    if "files_under i rep rep'" "identity_key r = identity_key_of (q_identity p)" for r rep'
  proof (rule segment_put [OF file_inv_apply [OF fi assms(6) that(2)] _ assms(4,5)])
    show "accounts rest rep' (remove_proposal i (add_receipt r f))"
      using accounts_rest [OF assms(3)] by (intro accounts_file [OF assms(3) that(1)]) auto
  qed auto
  show "segment_ok cfg f (put_file False (update_proposal i
        (\<lambda>p. p\<lparr>q_state := PendingReconfirm, updated_at := u\<rparr>) f) q) (Scanning rest rep')"
    if "files_under i rep rep'" for u rep'
  proof (rule segment_put [OF _ _ assms(4,5)])
    show "file_inv cfg (update_proposal i (\<lambda>p. p\<lparr>q_state := PendingReconfirm, updated_at := u\<rparr>) f)"
      using fi at by (intro file_inv_update) (auto simp: file_inv_def proposal_inv_def dest: uniq)
    show "accounts rest rep' (update_proposal i (\<lambda>p. p\<lparr>q_state := PendingReconfirm, updated_at := u\<rparr>) f)"
      by (rule accounts_file_update [OF assms(3) that]) simp
  qed simp
  show "apply_begin f p rest rep q =
        (q\<lparr>in_flight_keys := [identity_key_of (q_identity p)]\<rparr>, Applying i rest rep, True)
      \<and> segment_ok cfg f (q\<lparr>in_flight_keys := [identity_key_of (q_identity p)]\<rparr>) (Applying i rest rep)"
    if "auto_apply p" "\<not> hold_active q"
  proof -
    have "disk_inv cfg (q\<lparr>in_flight_keys := [identity_key_of (q_identity p)]\<rparr>)"
      using assms(1) by (subst disk_inv_cong [of _ q]) simp_all
    then show ?thesis
      using assms key_not_applied [OF fi assms(6)] that pp by (simp add: apply_begin_def segment_ok_def)
  qed
qed


lemma fetch_succeeded_segment:
  assumes "disk_inv cfg q" and "file_value q = Some f" and "accounts (i # rest) rep f"
    and "in_flight_keys q = []" and "duplicate_applies q = 0"
    and "find_proposal i f = Some p" and "examinable cfg p"
    and "fetch_succeeded now False actual f i rest rep q = (q', ph, called)"
  shows "segment_ok cfg f q' ph
    \<and> (called \<longleftrightarrow> auto_apply p \<and> deep_equal actual (pc_expected (q_precondition p)) \<and> \<not> hold_active q)
    \<and> (\<forall>i' rest' rep'. ph = Applying i' rest' rep' \<longrightarrow> called \<and> i' = i)"
proof -
  define revived where "revived = (q_state p = BlockedDegraded)"
  define f1 where "f1 = (if revived then update_proposal i (revive now) f else f)"
  define q1 where "q1 = (if revived then put_file False f1 q else q)"
  define p1 where "p1 = (if revived then revive now p else p)"
  have fi: "file_inv cfg f" using disk_inv_file assms(1,2) by blast
  have st: "q_state p1 = Staged" and ex: "examinable cfg p1"
    using assms(7) by (cases "q_state p"; simp add: p1_def revived_def examinable_def)+
  have fp: "find_proposal i f1 = Some p1"
    using assms(6) find_proposal_update [of "revive now" i f p] by (simp add: f1_def p1_def)
  have f1i: "file_inv cfg f1" using fi revive_file [OF fi assms(6,7)] by (simp add: f1_def)
  have di: "disk_inv cfg q1" using f1i assms(1) disk_inv_put by (simp add: q1_def)
  have fv: "file_value q1 = Some f1" using assms(2) by (simp add: q1_def f1_def)
  have acc: "accounts (i # rest) rep f1" using assms(3) by (simp add: f1_def accounts_update)
  have fl: "in_flight_keys q1 = []" and du: "duplicate_applies q1 = 0" and ho: "hold_active q1 = hold_active q"
    using assms(4,5) by (simp_all add: q1_def)
  have rc: "applied_receipts f1 = applied_receipts f" by (simp add: f1_def)
  have same: "q_id p1 = q_id p" "q_identity p1 = q_identity p" "auto_apply p1 = auto_apply p"
    "q_precondition p1 = q_precondition p" by (simp_all add: p1_def)
  have ab: "apply_begin f1 p rest rep q1 = apply_begin f1 p1 rest rep q1"
    by (simp only: apply_begin_def same)
  have so: "segment_ok cfg f1 r x \<Longrightarrow> segment_ok cfg f r x" for r x
    using rc by (simp add: segment_ok_def)
  note v = verdict_segment [OF di fv acc fl du fp ex st, unfolded same ho]
  have unfold: "fetch_succeeded now False actual f i rest rep q =
     (let holds = deep_equal actual (pc_expected (q_precondition p)) in
      if \<not> auto_apply p
      then (if holds
            then (q1, Scanning rest (rep\<lparr>dr_surface_retained := dr_surface_retained rep @ [i]\<rparr>), False)
            else (put_file False
                    (remove_proposal i (add_receipt
                       \<lparr>identity_key = identity_key_of (q_identity p),
                        receipt_result = surface_resolution, receipt_at = to_iso_string now\<rparr> f1)) q1,
                  Scanning rest (rep\<lparr>dr_surface_resolved := dr_surface_resolved rep @ [i]\<rparr>), False))
      else if \<not> holds
      then (put_file False
              (update_proposal i (\<lambda>p. p\<lparr>q_state := PendingReconfirm, updated_at := to_iso_string now\<rparr>) f1) q1,
            Scanning rest (rep\<lparr>dr_pending_reconfirm := dr_pending_reconfirm rep @ [i]\<rparr>), False)
      else if hold_active q then (q1, Scanning rest (rep\<lparr>dr_held := dr_held rep @ [i]\<rparr>), False)
      else apply_begin f1 p1 rest rep q1)"
    unfolding fetch_succeeded_def assms(6) option.case Let_def ab [symmetric] ho [symmetric]
    by (simp add: f1_def q1_def revived_def revive_def [abs_def])
  show ?thesis
    using assms(8) v(1) v(2) v(3) v(4) so unfolding unfold Let_def
    by (simp split: if_splits; elim conjE; hypsubst; simp)
qed

lemma apply_done_segment:
  assumes "disk_inv cfg q" and "phase_inv cfg (Applying i rest rep) q" and "duplicate_applies q = 0"
    and "file_value q = Some f" and "apply_done now False raw f i rest rep q = (q', ph)"
  shows "\<exists>p. find_proposal i f = Some p \<and> segment_ok cfg f q' ph
    \<and> (\<exists>f'. file_value q' = Some f' \<and> identity_key_of (q_identity p) \<in> identity_key ` set (applied_receipts f'))
    \<and> (\<exists>rep'. ph = Scanning rest rep')"
proof -
  from assms(2,4) obtain p where p: "find_proposal i f = Some p" and acc: "accounts (i # rest) rep f"
    and fl: "in_flight_keys q = [identity_key_of (q_identity p)]" by auto
  have fi: "file_inv cfg f" using disk_inv_file assms(1,4) by blast
  define r where "r = \<lparr>identity_key = identity_key_of (q_identity p),
    receipt_result = clone_json (or_else raw JNull), receipt_at = to_iso_string now\<rparr>"
  define f' where "f' = remove_proposal i (add_receipt r f)"
  have f'i: "file_inv cfg f'" unfolding f'_def by (rule file_inv_apply [OF fi p]) (simp add: r_def)
  have "q' = (put_file False f' q)\<lparr>in_flight_keys := []\<rparr>"
    and ph: "ph = Scanning rest (rep\<lparr>dr_applied := dr_applied rep @ [i]\<rparr>)"
    using assms(5) by (simp_all add: apply_done_def p Let_def r_def f'_def fl)
  then have fv: "file_value q' = Some f'" and di: "disk_inv cfg q'" and "in_flight_keys q' = []"
    and "duplicate_applies q' = 0"
    using f'i assms(3) by (simp_all add: disk_inv_def)
  moreover have "accounts rest (rep\<lparr>dr_applied := dr_applied rep @ [i]\<rparr>) f'"
    using accounts_rest [OF acc] by (intro accounts_file [OF acc]) (auto simp: f'_def)
  ultimately show ?thesis
    using p ph by (auto simp: segment_ok_def f'_def r_def)
qed


lemma apply_threw_segment:
  assumes "phase_inv cfg (Applying i rest rep) q" and "file_value q = Some f"
    and "apply_threw f i q = (q', ph)"
  shows "ph = DrainIdle \<and> in_flight_keys q' = [] \<and> file_value q' = Some f
    \<and> target (disk q') = target (disk q) \<and> duplicate_applies q' = duplicate_applies q"
  using assms by (auto simp: apply_threw_def)

text \<open>Staging, whatever the drain is waiting for.\<close>

lemma phase_inv_grow:
  assumes "phase_inv cfg ph q" and "file_value q = Some f"
    and "file_value q' = Some (f\<lparr>proposals := proposals f @ [p]\<rparr>)" and "q_id p \<notin> q_id ` set (proposals f)"
    and "in_flight_keys q' = in_flight_keys q" and "hold_active q' = hold_active q"
  shows "phase_inv cfg ph q'"
proof -
  have acc: "accounts todo rep f \<Longrightarrow> accounts todo rep (f\<lparr>proposals := proposals f @ [p]\<rparr>)" for todo rep
    by (erule accounts_mono) auto
  have "find P (xs @ ys) = Some r" if "find P xs = Some r" for P and xs ys :: "queued_proposal list" and r
    using that by (induction xs) (auto split: if_splits)
  then have fnd: "find_proposal i f = Some r \<Longrightarrow> find_proposal i (f\<lparr>proposals := proposals f @ [p]\<rparr>) = Some r" for i r
    by (simp add: find_proposal_def)
  show ?thesis
    using assms by (cases ph) (auto intro!: acc fnd)
qed

lemma phase_inv_load:
  assumes "phase_inv cfg ph q" and "current_file q = Some f"
  shows "phase_inv cfg ph (q\<lparr>file_value := Some f\<rparr>)"
proof -
  have "g = f" if "file_value q = Some g" for g
    using assms(2) that by (simp add: current_file_def)
  with assms(1) show ?thesis by (cases ph) auto
qed

lemma enqueue_inv:
  assumes "disk_inv cfg q" and "phase_inv cfg ph q" and "0 < max_retries cfg" and "fresh_id uuid q"
    and "enqueue sha uuid now False inp q = Inr (q', r)"
  shows "disk_inv cfg q' \<and> phase_inv cfg ph q' \<and> duplicate_applies q' = duplicate_applies q
    \<and> (\<exists>f f'. current_file q = Some f \<and> current_file q' = Some f' \<and> applied_receipts f' = applied_receipts f)"
proof -
  obtain f where en: "ensure_file q = Inr (q\<lparr>file_value := Some f\<rparr>, f)" and cf: "current_file q = Some f"
    and fi: "file_inv cfg f" and di: "disk_inv cfg (q\<lparr>file_value := Some f\<rparr>)"
    using ensure_file_current [OF assms(1)] .
  let ?q1 = "q\<lparr>file_value := Some f\<rparr>" and ?p = "staged_record sha uuid now inp"
  let ?key = "identity_key_of (input_identity sha inp)"
  have ph1: "phase_inv cfg ph ?q1" using phase_inv_load [OF assms(2) cf] .
  have "q' = ?q1 \<or> (?key \<notin> set (file_keys f) \<and> q' = put_file False (f\<lparr>proposals := proposals f @ [?p]\<rparr>) ?q1)"
    using assms(5) unfolding enqueue_def en
    by (auto simp: Let_def file_keys_def find_None_iff split: option.splits)
  then consider "q' = ?q1" | "?key \<notin> set (file_keys f)" "q' = put_file False (f\<lparr>proposals := proposals f @ [?p]\<rparr>) ?q1"
    by blast
  then show ?thesis
  proof cases
    case 1
    with di ph1 cf show ?thesis by simp
  next
    case 2
    have new: "q_id ?p \<notin> q_id ` set (proposals f)"
      using assms(4) cf by (simp add: fresh_id_def staged_record_def)
    have "file_inv cfg (f\<lparr>proposals := proposals f @ [?p]\<rparr>)"
      using fi new 2(1) staged_record_inv [OF assms(3)]
      by (intro file_inv_stage) (simp_all add: staged_record_def)
    then have "disk_inv cfg q'" unfolding 2(2) by (rule disk_inv_put)
    moreover have "phase_inv cfg ph q'"
      unfolding 2(2) by (rule phase_inv_grow [OF ph1 _ _ new]) simp_all
    ultimately show ?thesis using cf 2(2) by simp
  qed
qed

text \<open>The invariant of the system, from that of a segment.\<close>

lemma queue_inv_segment:
  assumes "queue_inv cfg s" and "file_value (qs_queue s) = Some f" and "segment_ok cfg f q ph"
    and "qs_window_due s \<longrightarrow> (\<forall>i rest rep. ph \<noteq> Applying i rest rep)"
  shows "queue_inv cfg (s\<lparr>qs_queue := q, qs_phase := ph\<rparr>)"
  using assms unfolding queue_inv_def segment_ok_def by fastforce

lemma queue_step_inv:
  assumes "queue_inv (qc st) s" and "0 < max_retries (qc st)" and "event_ok ev s"
    and "queue_step st ev s = Some s'"
  shows "queue_inv (qc st) s'"
proof -
  let ?cfg = "qc st" and ?q = "qs_queue s"
  have di: "disk_inv ?cfg ?q" and ph: "phase_inv ?cfg (qs_phase s) ?q" and du: "duplicate_applies ?q = 0"
    using assms(1) by (simp_all add: queue_inv_def)
  show ?thesis
  proof (cases ev)
    case (EvScan now)
    then obtain todo rep f where st: "qs_phase s = Scanning todo rep" "file_value ?q = Some f"
      using assms(4) by (cases "qs_phase s"; cases "file_value ?q") (auto split: list.splits)
    show ?thesis
    proof (cases todo)
      case Nil
      with st ph have "report_complete rep" by (auto simp: accounts_def report_complete_def)
      with assms(1,4) EvScan st Nil ph show ?thesis by (auto simp: queue_inv_def)
    next
      case (Cons i rest)
      obtain q1 ph1 where sc: "scan_proposal ?cfg now False f i rest rep ?q = (q1, ph1)"
        by (cases "scan_proposal ?cfg now False f i rest rep ?q")
      have "accounts (i # rest) rep f" and "in_flight_keys ?q = []" using ph st Cons by auto
      from scan_segment [OF di st(2) this du sc] have
        "segment_ok ?cfg f q1 ph1" "\<forall>i rest rep. ph1 \<noteq> Applying i rest rep" by auto
      from queue_inv_segment [OF assms(1) st(2) this(1)] this(2)
      show ?thesis using assms(4) EvScan st Cons sc by auto
    qed
  next
    case (EvFetched actual now)
    then obtain i rest rep f where st: "qs_phase s = Fetching i rest rep" "file_value ?q = Some f"
      and nd: "\<not> qs_window_due s"
      using assms(4) by (cases "qs_phase s"; cases "file_value ?q") (auto split: if_splits)
    obtain q1 ph1 called where fs: "fetch_succeeded now False actual f i rest rep ?q = (q1, ph1, called)"
      by (cases "fetch_succeeded now False actual f i rest rep ?q")
    from ph st obtain p where p: "accounts (i # rest) rep f" "in_flight_keys ?q = []"
      "find_proposal i f = Some p" "examinable ?cfg p" by auto
    from fetch_succeeded_segment [OF di st(2) p(1,2) du p(3,4) fs] have "segment_ok ?cfg f q1 ph1" by simp
    from queue_inv_segment [OF assms(1) st(2) this] nd
    show ?thesis using assms(4) EvFetched st fs by auto
  next
    case (EvFetchFailed err stamp now)
    then obtain i rest rep f where st: "qs_phase s = Fetching i rest rep" "file_value ?q = Some f"
      using assms(4) by (cases "qs_phase s"; cases "file_value ?q") auto
    obtain q1 m1 ph1 where ff:
      "fetch_failed ?cfg now stamp False err f i rest rep (?q, qs_machine s) = ((q1, m1), ph1)"
      by (metis prod.exhaust)
    from ph st obtain p where p: "accounts (i # rest) rep f" "in_flight_keys ?q = []"
      "find_proposal i f = Some p" "examinable ?cfg p" by auto
    from fetch_failed_segment [OF di st(2) p(1,2) du p(3,4) ff] have
      "segment_ok ?cfg f q1 ph1" "\<forall>i rest rep. ph1 \<noteq> Applying i rest rep" by auto
    from queue_inv_segment [OF assms(1) st(2) this(1)] this(2)
    have "queue_inv ?cfg (s\<lparr>qs_queue := q1, qs_phase := ph1\<rparr>)" by blast
    then show ?thesis using assms(4) EvFetchFailed st ff by (auto simp: queue_inv_def split: if_splits)
  next
    case (EvReturned raw now)
    then obtain i rest rep f where st: "qs_phase s = Applying i rest rep" "file_value ?q = Some f"
      using assms(4) by (cases "qs_phase s"; cases "file_value ?q") auto
    obtain q1 ph1 where ad: "apply_done now False raw f i rest rep ?q = (q1, ph1)"
      by (cases "apply_done now False raw f i rest rep ?q")
    from apply_done_segment [OF di ph [unfolded st(1)] du st(2) ad] obtain p f1 rep1 where
      p: "find_proposal i f = Some p" and seg: "segment_ok ?cfg f q1 ph1"
      and f1: "file_value q1 = Some f1"
      and k: "identity_key_of (q_identity p) \<in> identity_key ` set (applied_receipts f1)"
      and ph1: "ph1 = Scanning rest rep1" by blast
    have inv: "queue_inv ?cfg (s\<lparr>qs_queue := q1, qs_phase := ph1\<rparr>)"
      using queue_inv_segment [OF assms(1) st(2) seg] ph1 by simp
    have "identity_key_of (q_identity p) \<notin> set (executed s)"
      using key_not_applied [OF disk_inv_file [OF di st(2)] p] assms(1) st(2)
      by (auto simp: queue_inv_def)
    with inv f1 k have "queue_inv ?cfg (s\<lparr>qs_queue := q1, qs_phase := ph1,
        executed := executed s @ [identity_key_of (q_identity p)]\<rparr>)"
      by (auto simp: queue_inv_def)
    then show ?thesis using assms(4) EvReturned st ad p by auto
  next
    case EvThrew
    then obtain i rest rep f where st: "qs_phase s = Applying i rest rep" "file_value ?q = Some f"
      using assms(4) by (cases "qs_phase s"; cases "file_value ?q") auto
    obtain q1 ph1 where at: "apply_threw f i ?q = (q1, ph1)" by (cases "apply_threw f i ?q")
    note t = apply_threw_segment [OF ph [unfolded st(1)] st(2) at]
    have "disk_inv ?cfg q1" using t di st(2) disk_inv_cong [of q1 ?q] by simp
    with t assms(1,4) EvThrew st at show ?thesis by (auto simp: queue_inv_def)
  next
    case (EvEnqueue inp uuid now)
    show ?thesis
    proof (cases "enqueue (sha256 st) uuid now False inp ?q")
      case (Inl e)
      with EvEnqueue assms show ?thesis by simp
    next
      case (Inr qr)
      then obtain q1 r where e: "enqueue (sha256 st) uuid now False inp ?q = Inr (q1, r)" by (cases qr) auto
      have "fresh_id uuid ?q" using assms(3) EvEnqueue by simp
      from enqueue_inv [OF di ph assms(2) this e] EvEnqueue assms(1,4) e show ?thesis
        by (auto simp: queue_inv_def)
    qed
  next
    case (EvSignal sig uuid now)
    show ?thesis
    proof (cases "sig_class sig \<in> set (classes st)")
      case False
      with EvSignal assms show ?thesis by (simp add: on_structural_signal_def)
    next
      case True
      show ?thesis
      proof (cases "enqueue (sha256 st) uuid now False (surface_input sig) ?q")
        case (Inl e)
        with True EvSignal assms show ?thesis by (simp add: on_structural_signal_def)
      next
        case (Inr qr)
        then obtain q1 r where e: "enqueue (sha256 st) uuid now False (surface_input sig) ?q = Inr (q1, r)"
          by (cases qr) auto
        have "fresh_id uuid ?q" using assms(3) EvSignal by simp
        from enqueue_inv [OF di ph assms(2) this e] True EvSignal assms(1,4) e show ?thesis
          by (auto simp: queue_inv_def on_structural_signal_def)
      qed
    qed
  next
    case (EvRequest origin)
    with assms show ?thesis by (auto simp: queue_inv_def)
  next
    case EvStart
    then obtain origin rest where st: "qs_phase s = DrainIdle" "qs_waiting s = origin # rest"
      using assms(4) by (cases "qs_phase s"; cases "qs_waiting s") auto
    obtain f where en: "ensure_file ?q = Inr (?q\<lparr>file_value := Some f\<rparr>, f)" and cf: "current_file ?q = Some f"
      and fi: "file_inv ?cfg f" and d1: "disk_inv ?cfg (?q\<lparr>file_value := Some f\<rparr>)"
      using ensure_file_current [OF di] .
    have "accounts (map q_id (proposals f)) (empty_report (length (proposals f))) f"
      using fi by (simp add: accounts_def empty_report_def report_ids_def file_inv_def)
    with d1 ph st cf du assms(1,4) EvStart en show ?thesis
      by (auto simp: drain_begin_def queue_inv_def)
  next
    case EvOpenWindow
    then have w: "qs_window_due s" and s': "s' = s\<lparr>qs_queue := hold_queue ?q, qs_window_due := False\<rparr>"
      using assms(4) by (auto split: if_splits)
    have "disk_inv ?cfg (hold_queue ?q)"
      using di disk_inv_cong [of "hold_queue ?q" ?q] by (simp add: hold_queue_def)
    moreover have "current_file (hold_queue ?q) = current_file ?q"
      by (simp add: hold_queue_def)
    moreover have "phase_inv ?cfg (qs_phase s) (hold_queue ?q)"
      using ph w assms(1) by (cases "qs_phase s") (auto simp: hold_queue_def queue_inv_def)
    ultimately show ?thesis
      using assms(1) s' by (auto simp: queue_inv_def hold_queue_def)
  next
    case EvCloseWindow
    then have s': "s' = s\<lparr>qs_queue := unhold_queue ?q, qs_waiting := qs_waiting s @ [Background]\<rparr>"
      using assms(4) by (auto split: if_splits)
    have "disk_inv ?cfg (unhold_queue ?q)"
      using di disk_inv_cong [of "unhold_queue ?q" ?q] by (simp add: unhold_queue_def)
    moreover have "current_file (unhold_queue ?q) = current_file ?q"
      by (simp add: unhold_queue_def)
    moreover have "phase_inv ?cfg (qs_phase s) (unhold_queue ?q)"
      using ph by (cases "qs_phase s") (auto simp: unhold_queue_def)
    ultimately show ?thesis
      using assms(1) s' by (auto simp: queue_inv_def unhold_queue_def)
  next
    case EvRestart
    have "\<exists>f. load_store (target (disk ?q)) = Inr f \<and> current_file ?q = Some f \<and> file_inv ?cfg f"
      using ensure_file_current [OF di] di
      by (auto simp: disk_inv_def current_file_def split: option.splits sum.splits)
    then obtain f where f: "load_store (target (disk ?q)) = Inr f" "current_file ?q = Some f" "file_inv ?cfg f"
      by blast
    then have "current_file (new_queue (disk ?q)) = Some f" and "disk_inv ?cfg (new_queue (disk ?q))"
      by (simp_all add: new_queue_def current_file_def disk_inv_def)
    with f assms(1,4) EvRestart show ?thesis
      by (auto simp: queue_inv_def new_queue_def)
  qed
qed


section \<open>What becomes of a proposal\<close>

text \<open>From one file to the next a proposal keeps its place and identity, with no fewer attempts,
  and untouched when it is pending reconfirmation; or a receipt of its identity takes its place.\<close>

definition evolves :: "store_file \<Rightarrow> store_file \<Rightarrow> bool" where
  "evolves f f' \<longleftrightarrow>
     set (applied_receipts f) \<subseteq> set (applied_receipts f')
     \<and> (\<forall>p \<in> set (proposals f).
          (\<exists>p' \<in> set (proposals f'). q_id p' = q_id p \<and> q_identity p' = q_identity p
             \<and> attempts p \<le> attempts p' \<and> (q_state p = PendingReconfirm \<longrightarrow> p' = p))
          \<or> (q_state p \<noteq> PendingReconfirm
             \<and> identity_key_of (q_identity p) \<in> identity_key ` set (applied_receipts f')))"

lemma evolves_refl [simp]: "evolves f f"
  by (auto simp: evolves_def)

lemma evolves_append: "evolves f (f\<lparr>proposals := proposals f @ [p]\<rparr>)"
  by (auto simp: evolves_def)

lemma evolves_update:
  assumes "distinct (map q_id (proposals f))" and "find_proposal i f = Some p"
    and "q_state p \<noteq> PendingReconfirm"
    and "q_id (g p) = q_id p" and "q_identity (g p) = q_identity p" and "attempts p \<le> attempts (g p)"
  shows "evolves f (update_proposal i g f)"
proof -
  have uniq: "r \<in> set (proposals f) \<Longrightarrow> q_id r = i \<Longrightarrow> r = p" for r
    using find_proposal_iff [OF assms(1), of i r] assms(2) by auto
  show ?thesis unfolding evolves_def
  proof (intro conjI ballI disjI1)
    fix r
    assume r: "r \<in> set (proposals f)"
    show "\<exists>p' \<in> set (proposals (update_proposal i g f)). q_id p' = q_id r \<and> q_identity p' = q_identity r
        \<and> attempts r \<le> attempts p' \<and> (q_state r = PendingReconfirm \<longrightarrow> p' = r)"
      using r assms(3-6) uniq [OF r] by (intro bexI [of _ "if q_id r = i then g r else r"]) auto
  qed simp
qed

lemma evolves_receipt:
  assumes "distinct (map q_id (proposals f))" and "find_proposal i f = Some p"
    and "q_state p \<noteq> PendingReconfirm" and "identity_key r = identity_key_of (q_identity p)"
  shows "evolves f (remove_proposal i (add_receipt r f))"
proof -
  have uniq: "s \<in> set (proposals f) \<Longrightarrow> q_id s = i \<Longrightarrow> s = p" for s
    using find_proposal_iff [OF assms(1), of i s] assms(2) by auto
  show ?thesis unfolding evolves_def
  proof (intro conjI ballI)
    fix s
    assume s: "s \<in> set (proposals f)"
    show "(\<exists>p' \<in> set (proposals (remove_proposal i (add_receipt r f))). q_id p' = q_id s
          \<and> q_identity p' = q_identity s \<and> attempts s \<le> attempts p' \<and> (q_state s = PendingReconfirm \<longrightarrow> p' = s))
        \<or> (q_state s \<noteq> PendingReconfirm
          \<and> identity_key_of (q_identity s) \<in> identity_key ` set (applied_receipts (remove_proposal i (add_receipt r f))))"
      using s uniq [OF s] assms(3,4) by (cases "q_id s = i") auto
  qed auto
qed

lemma evolves_trans:
  assumes "evolves f g" and "evolves g h"
  shows "evolves f h"
  unfolding evolves_def
proof (intro conjI ballI)
  show "set (applied_receipts f) \<subseteq> set (applied_receipts h)"
    using assms unfolding evolves_def by blast
  fix p
  assume "p \<in> set (proposals f)"
  with assms(1) consider p' where "p' \<in> set (proposals g)" "q_id p' = q_id p" "q_identity p' = q_identity p"
      "attempts p \<le> attempts p'" "q_state p = PendingReconfirm \<longrightarrow> p' = p"
    | "q_state p \<noteq> PendingReconfirm" "identity_key_of (q_identity p) \<in> identity_key ` set (applied_receipts g)"
    unfolding evolves_def by blast
  then show "(\<exists>p' \<in> set (proposals h). q_id p' = q_id p \<and> q_identity p' = q_identity p
      \<and> attempts p \<le> attempts p' \<and> (q_state p = PendingReconfirm \<longrightarrow> p' = p))
    \<or> (q_state p \<noteq> PendingReconfirm
      \<and> identity_key_of (q_identity p) \<in> identity_key ` set (applied_receipts h))"
  proof cases
    case (1 p')
    with assms(2) show ?thesis unfolding evolves_def by (metis (no_types, lifting) order_trans)
  next
    case 2
    with assms(2) show ?thesis unfolding evolves_def by blast
  qed
qed

lemma scan_evolves:
  assumes "file_inv cfg f" and "file_value q = Some f"
    and "scan_proposal cfg' now False f i rest rep q = (q', ph)"
  shows "\<exists>f'. file_value q' = Some f' \<and> evolves f f'"
proof (cases "find_proposal i f")
  case None
  with assms show ?thesis by (simp add: scan_proposal_def)
next
  case (Some p)
  have "evolves f (update_proposal i (\<lambda>p. p\<lparr>rejection := m, updated_at := u\<rparr>) f)"
    if "q_state p \<noteq> PendingReconfirm" for m u
    using assms(1) Some that by (intro evolves_update [of f i p]) (auto simp: file_inv_def)
  with assms(2,3) show ?thesis
    unfolding scan_proposal_def Some Let_def option.case
    by (simp split: if_splits; elim conjE; hypsubst; simp)
qed

lemma fetch_failed_evolves:
  assumes "file_inv cfg f" and "find_proposal i f = Some p" and "q_state p \<noteq> PendingReconfirm"
    and "fetch_failed cfg' now stamp False err f i rest rep (q, m) = ((q', m'), ph)"
  shows "\<exists>f'. file_value q' = Some f' \<and> evolves f f'"
proof -
  have "evolves f (update_proposal i (\<lambda>p. p\<lparr>q_state := BlockedDegraded, attempts := attempts p + 1,
      last_error := Some err, updated_at := u\<rparr>) f)" for u
    using assms(1-3) by (intro evolves_update [of f i p]) (auto simp: file_inv_def)
  with assms(4) show ?thesis
    by (auto simp: fetch_failed_def assms(2) Let_def schedule_retry_def)
qed

lemma fetch_succeeded_evolves:
  assumes "file_inv cfg f" and "file_value q = Some f" and "find_proposal i f = Some p"
    and "examinable cfg p"
    and "fetch_succeeded now False actual f i rest rep q = (q', ph, called)"
  shows "\<exists>f'. file_value q' = Some f' \<and> evolves f f'"
proof -
  have pr: "q_state p \<noteq> PendingReconfirm" using assms(4) by (simp add: examinable_def)
  define f1 where "f1 = (if q_state p = BlockedDegraded then update_proposal i (revive now) f else f)"
  define p1 where "p1 = (if q_state p = BlockedDegraded then revive now p else p)"
  have e1: "evolves f f1"
    using assms(1,3) pr by (auto simp: f1_def file_inv_def intro: evolves_update [of f i p])
  have fp: "find_proposal i f1 = Some p1"
    using assms(3) find_proposal_update [of "revive now" i f p] by (simp add: f1_def p1_def)
  have i1: "file_inv cfg f1" using assms(1) revive_file [OF assms(1,3,4)] by (simp add: f1_def)
  have s1: "q_state p1 \<noteq> PendingReconfirm" "q_identity p1 = q_identity p" using pr by (simp_all add: p1_def)
  have pe: "evolves f1 (update_proposal i (\<lambda>p. p\<lparr>q_state := PendingReconfirm, updated_at := u\<rparr>) f1)" for u
    using i1 fp s1 by (intro evolves_update [of f1 i p1]) (auto simp: file_inv_def)
  have re: "evolves f1 (remove_proposal i (add_receipt r f1))"
    if "identity_key r = identity_key_of (q_identity p)" for r
    using i1 fp s1 that by (intro evolves_receipt [of f1 i p1]) (auto simp: file_inv_def)
  have "file_value q' \<in> {Some f1,
      Some (update_proposal i (\<lambda>p. p\<lparr>q_state := PendingReconfirm, updated_at := to_iso_string now\<rparr>) f1),
      Some (remove_proposal i (add_receipt \<lparr>identity_key = identity_key_of (q_identity p),
        receipt_result = surface_resolution, receipt_at = to_iso_string now\<rparr> f1))}"
    using assms(2,5) unfolding fetch_succeeded_def assms(3) option.case Let_def apply_begin_def
    by (cases "q_state p = BlockedDegraded") (auto simp: f1_def revive_def [abs_def] split: if_splits)
  then show ?thesis
    using e1 evolves_trans [OF e1 pe] evolves_trans [OF e1 re] by fastforce
qed

end
