(* ===== verification/Queue_Properties.thy ===== *)
theory Queue_Properties
  imports Queue_Protocol Transport_Classifier
begin

text \<open>
  What the queue protocol promises: reachability, the effect of one step on the staged
  proposals, and the properties of the queue.
\<close>

section \<open>Reachable systems\<close>

text \<open>The queue starts on a store that loads; the engine may have recovered a journaled
  interruption and hold the window open from the start.\<close>

definition queue_start :: "queue_setting \<Rightarrow> queue_system \<Rightarrow> bool" where
  "queue_start st s \<longleftrightarrow>
     file_value (qs_queue s) = None \<and> in_flight_keys (qs_queue s) = [] \<and> duplicate_applies (qs_queue s) = 0
     \<and> (\<exists>f. load_store (target (disk (qs_queue s))) = Inr f \<and> file_inv (qc st) f)
     \<and> qs_phase s = DrainIdle \<and> \<not> qs_window_due s \<and> executed s = [] \<and> last_report s = None"

inductive queue_reach :: "queue_setting \<Rightarrow> queue_system \<Rightarrow> bool" for st where
  start: "queue_start st s \<Longrightarrow> queue_reach st s"
| step: "queue_reach st s \<Longrightarrow> event_ok ev s \<Longrightarrow> queue_step st ev s = Some s' \<Longrightarrow> queue_reach st s'"

lemma queue_reach_inv: "queue_reach st s \<Longrightarrow> 0 < max_retries (qc st) \<Longrightarrow> queue_inv (qc st) s"
proof (induction rule: queue_reach.induct)
  case (start s)
  then show ?case by (auto simp: queue_start_def queue_inv_def disk_inv_def current_file_def)
next
  case (step s ev s')
  then show ?case using queue_step_inv by blast
qed

lemma queue_inv_files:
  assumes "queue_inv cfg s"
  obtains f where "current_file (qs_queue s) = Some f" and "file_inv cfg f"
  using assms by (auto simp: queue_inv_def disk_inv_def)

lemma enqueue_evolves:
  assumes "current_file q = Some f" and "enqueue sha uuid now False inp q = Inr (q', r)"
  shows "\<exists>f'. current_file q' = Some f' \<and> evolves f f'"
proof -
  have en: "ensure_file q = Inr (q\<lparr>file_value := Some f\<rparr>, f)"
    using assms(1) by (auto simp: ensure_file_def current_file_def split: option.splits sum.splits)
  from assms(2) show ?thesis
    unfolding enqueue_def en
    by (auto simp: Let_def evolves_append split: option.splits)
qed

lemma queue_step_evolves:
  assumes "queue_inv (qc st) s" and "queue_step st ev s = Some s'"
  shows "\<exists>f f'. current_file (qs_queue s) = Some f \<and> current_file (qs_queue s') = Some f' \<and> evolves f f'"
proof -
  let ?cfg = "qc st" and ?q = "qs_queue s"
  obtain f where cf: "current_file ?q = Some f" and fi: "file_inv ?cfg f"
    using queue_inv_files [OF assms(1)] .
  have ph: "phase_inv ?cfg (qs_phase s) ?q" and di: "disk_inv ?cfg ?q"
    using assms(1) by (simp_all add: queue_inv_def)
  have ensure: "ensure_file ?q = Inr (?q\<lparr>file_value := Some f\<rparr>, f)"
    using cf by (auto simp: ensure_file_def current_file_def split: option.splits sum.splits)
  have "\<exists>f'. current_file (qs_queue s') = Some f' \<and> evolves f f'"
  proof (cases ev)
    case (EvEnqueue inp uuid now)
    with assms(2) cf enqueue_evolves [OF cf] show ?thesis by (auto split: sum.splits)
  next
    case (EvSignal sig uuid now)
    with assms(2) cf enqueue_evolves [OF cf] show ?thesis
      by (auto simp: on_structural_signal_def split: sum.splits if_splits)
  next
    case EvStart
    with assms(2) cf ensure show ?thesis
      by (auto simp: drain_begin_def split: drain_phase.splits list.splits)
  next
    case (EvScan now)
    then obtain todo rep g where st: "qs_phase s = Scanning todo rep" "file_value ?q = Some g"
      using assms(2) by (cases "qs_phase s"; cases "file_value ?q") (auto split: list.splits)
    then have "g = f" using cf by simp
    show ?thesis
    proof (cases todo)
      case Nil
      with assms(2) EvScan st cf show ?thesis by auto
    next
      case (Cons i rest)
      obtain q1 ph1 where sc: "scan_proposal ?cfg now False f i rest rep ?q = (q1, ph1)"
        by (cases "scan_proposal ?cfg now False f i rest rep ?q")
      from scan_evolves [OF fi _ sc] st \<open>g = f\<close> obtain f' where "file_value q1 = Some f'" "evolves f f'" by auto
      with assms(2) EvScan st Cons sc \<open>g = f\<close> show ?thesis by auto
    qed
  next
    case (EvFetched actual now)
    then obtain i rest rep g where st: "qs_phase s = Fetching i rest rep" "file_value ?q = Some g"
      using assms(2) by (cases "qs_phase s"; cases "file_value ?q") auto
    then have "g = f" using cf by simp
    obtain q1 ph1 called where fs: "fetch_succeeded now False actual f i rest rep ?q = (q1, ph1, called)"
      by (cases "fetch_succeeded now False actual f i rest rep ?q")
    from ph st \<open>g = f\<close> obtain p where "find_proposal i f = Some p" "examinable ?cfg p" by auto
    from fetch_succeeded_evolves [OF fi _ this fs] st \<open>g = f\<close>
    obtain f' where "file_value q1 = Some f'" "evolves f f'" by auto
    with assms(2) EvFetched st fs \<open>g = f\<close> show ?thesis by (auto split: if_splits)
  next
    case (EvFetchFailed err stamp now)
    then obtain i rest rep g where st: "qs_phase s = Fetching i rest rep" "file_value ?q = Some g"
      using assms(2) by (cases "qs_phase s"; cases "file_value ?q") auto
    then have "g = f" using cf by simp
    obtain q1 m1 ph1 where ff:
      "fetch_failed ?cfg now stamp False err f i rest rep (?q, qs_machine s) = ((q1, m1), ph1)"
      by (metis prod.exhaust)
    from ph st \<open>g = f\<close> obtain p where p: "find_proposal i f = Some p" "examinable ?cfg p" by auto
    then have "q_state p \<noteq> PendingReconfirm" by (simp add: examinable_def)
    from fetch_failed_evolves [OF fi p(1) this ff]
    obtain f' where "file_value q1 = Some f'" "evolves f f'" by auto
    with assms(2) EvFetchFailed st ff \<open>g = f\<close> show ?thesis by (auto split: if_splits)
  next
    case (EvReturned raw now)
    then obtain i rest rep g where st: "qs_phase s = Applying i rest rep" "file_value ?q = Some g"
      using assms(2) by (cases "qs_phase s"; cases "file_value ?q") auto
    then have "g = f" using cf by simp
    from ph st \<open>g = f\<close> obtain p where p: "find_proposal i f = Some p" "q_state p = Staged" by auto
    have "evolves f (remove_proposal i (add_receipt r f))" if "identity_key r = identity_key_of (q_identity p)" for r
      using fi p that by (intro evolves_receipt [of f i p]) (auto simp: file_inv_def)
    with assms(2) EvReturned st p \<open>g = f\<close> show ?thesis
      by (auto simp: apply_done_def Let_def current_file_def)
  next
    case EvThrew
    then obtain i rest rep g where st: "qs_phase s = Applying i rest rep" "file_value ?q = Some g"
      using assms(2) by (cases "qs_phase s"; cases "file_value ?q") auto
    obtain q1 ph1 where at: "apply_threw g i ?q = (q1, ph1)" by (cases "apply_threw g i ?q")
    from apply_threw_segment [OF ph [unfolded st(1)] st(2) at] assms(2) EvThrew st at cf
    show ?thesis by auto
  next
    case EvRestart
    have "load_store (target (disk ?q)) = Inr f"
      using di cf by (auto simp: disk_inv_def current_file_def split: option.splits sum.splits)
    with assms(2) EvRestart show ?thesis by (auto simp: new_queue_def current_file_def)
  qed (use assms(2) cf in \<open>auto simp: hold_queue_def unhold_queue_def split: if_splits\<close>)
  with cf show ?thesis by blast
qed


lemma execution_gate:
  assumes "queue_inv (qc st) s" and "queue_step st ev s = Some s'" and "qs_phase s' = Applying i rest rep"
    and "\<forall>i rest rep. qs_phase s \<noteq> Applying i rest rep"
  shows "\<exists>actual now f p. ev = EvFetched actual now
    \<and> current_file (qs_queue s) = Some f \<and> find_proposal i f = Some p
    \<and> json_value actual = json_value (pc_expected (q_precondition p))
    \<and> q_type p \<noteq> StructuralSurface \<and> contract_version p = fleet_contract_version
    \<and> q_state p \<noteq> PendingReconfirm \<and> \<not> hold_active (qs_queue s)"
proof -
  let ?cfg = "qc st" and ?q = "qs_queue s"
  have di: "disk_inv ?cfg ?q" and ph: "phase_inv ?cfg (qs_phase s) ?q" and du: "duplicate_applies ?q = 0"
    using assms(1) by (simp_all add: queue_inv_def)
  show ?thesis
  proof (cases ev)
    case (EvFetched actual now)
    then obtain j todo rp f where st: "qs_phase s = Fetching j todo rp" "file_value ?q = Some f"
      using assms(2) by (cases "qs_phase s"; cases "file_value ?q") auto
    obtain q1 ph1 called where fs: "fetch_succeeded now False actual f j todo rp ?q = (q1, ph1, called)"
      by (cases "fetch_succeeded now False actual f j todo rp ?q")
    from ph st obtain p where p: "accounts (j # todo) rp f" "in_flight_keys ?q = []"
      "find_proposal j f = Some p" "examinable ?cfg p" by auto
    have "ph1 = Applying i rest rep" using assms(2,3) EvFetched st fs by (auto split: if_splits)
    with fetch_succeeded_segment [OF di st(2) p(1,2) du p(3,4) fs]
    have *: "called" "i = j" "auto_apply p" "deep_equal actual (pc_expected (q_precondition p))"
      "\<not> hold_active ?q" by auto
    have "q_type p \<noteq> StructuralSurface"
      using disk_inv_file [OF di st(2)] find_proposal_Some [OF p(3)] *(3)
      by (auto simp: file_inv_def proposal_inv_def)
    with * p st(2) EvFetched show ?thesis by (auto simp: deep_equal_iff examinable_def)
  next
    case (EvScan now)
    then obtain todo rp f where st: "qs_phase s = Scanning todo rp" "file_value ?q = Some f"
      using assms(2) by (cases "qs_phase s"; cases "file_value ?q") (auto split: list.splits)
    show ?thesis
    proof (cases todo)
      case Nil
      with assms(2,3) EvScan st show ?thesis by auto
    next
      case (Cons j js)
      obtain q1 ph1 where sc: "scan_proposal ?cfg now False f j js rp ?q = (q1, ph1)"
        by (cases "scan_proposal ?cfg now False f j js rp ?q")
      have "accounts (j # js) rp f" and "in_flight_keys ?q = []" using ph st Cons by auto
      from scan_segment [OF di st(2) this du sc] assms(2,3) EvScan st Cons sc show ?thesis by auto
    qed
  next
    case (EvFetchFailed err stamp now)
    then obtain j todo rp f where st: "qs_phase s = Fetching j todo rp" "file_value ?q = Some f"
      using assms(2) by (cases "qs_phase s"; cases "file_value ?q") auto
    obtain q1 m1 ph1 where ff:
      "fetch_failed ?cfg now stamp False err f j todo rp (?q, qs_machine s) = ((q1, m1), ph1)"
      by (metis prod.exhaust)
    from ph st obtain p where p: "accounts (j # todo) rp f" "in_flight_keys ?q = []"
      "find_proposal j f = Some p" "examinable ?cfg p" by auto
    from fetch_failed_segment [OF di st(2) p(1,2) du p(3,4) ff] assms(2,3) EvFetchFailed st ff
    show ?thesis by (auto split: if_splits)
  next
    case EvStart
    with assms(2,3) show ?thesis
      by (auto simp: drain_begin_def split: drain_phase.splits list.splits sum.splits)
  qed (use assms(2-4) in \<open>auto split: sum.splits if_splits drain_phase.splits option.splits prod.splits\<close>)
qed

section \<open>A run of events, for the examples\<close>

fun run_events :: "queue_setting \<Rightarrow> queue_event list \<Rightarrow> queue_system \<Rightarrow> queue_system option" where
  "run_events st [] s = Some s"
| "run_events st (ev # evs) s =
     (if event_ok ev s then (case queue_step st ev s of None \<Rightarrow> None | Some s' \<Rightarrow> run_events st evs s')
      else None)"

lemma run_events_reach: "queue_reach st s \<Longrightarrow> run_events st evs s = Some s' \<Longrightarrow> queue_reach st s'"
  by (induction evs arbitrary: s) (auto split: if_splits option.splits intro: queue_reach.step)

definition demo_proposal :: "proposal_type \<Rightarrow> queued_proposal" where
  "demo_proposal ty =
     \<lparr>q_id = ''p1'', q_type = ty, q_payload = JObj [],
      q_precondition = \<lparr>pc_claim = ''c'', pc_expected = JBool True\<rparr>,
      q_identity = \<lparr>content_hash = ''h'', confirm_stamp = ''t''\<rparr>,
      contract_version = fleet_contract_version, q_state = Staged,
      auto_apply = (ty \<noteq> StructuralSurface), attempts = 0, enqueued_at = ''t'', updated_at = ''t'',
      last_error = None, rejection = None\<rparr>"

definition demo_setting :: queue_setting where
  "demo_setting = \<lparr>qc = default_queue_config, classes = default_structural_classes, sha256 = (\<lambda>s. s)\<rparr>"

definition demo_system :: "proposal_type \<Rightarrow> queue_system" where
  "demo_system ty =
     \<lparr>qs_queue = new_queue \<lparr>target = store_document \<lparr>proposals = [demo_proposal ty], applied_receipts = []\<rparr>,
        tmp_file = None\<rparr>,
      qs_machine = demo_machine, qs_phase = DrainIdle, qs_running = Background, qs_waiting = [],
      qs_window_due = False, executed = [], last_report = None\<rparr>"

lemma demo_reach: "queue_reach demo_setting (demo_system ty)"
  by (rule queue_reach.start)
    (simp add: queue_start_def demo_system_def new_queue_def file_inv_def file_keys_def proposal_inv_def
      demo_proposal_def demo_setting_def default_queue_config_def)

lemma demo_retries: "0 < max_retries (qc demo_setting)"
  by (simp add: demo_setting_def default_queue_config_def)

lemmas demo_eval =
  demo_system_def new_queue_def demo_proposal_def demo_setting_def default_queue_config_def
  drain_begin_def ensure_file_def scan_proposal_def find_proposal_def fetch_succeeded_def
  apply_begin_def apply_done_def fetch_failed_def schedule_retry_def put_file_def save_store_def
  update_proposal_def remove_proposal_def add_receipt_def deep_equal_def empty_report_def Let_def

section \<open>Properties\<close>


definition demo_apply :: "queue_event list" where
  "demo_apply = [EvRequest VerifyEntry, EvStart, EvScan 0, EvFetched (JBool True) 0]"

lemma demo_apply_run:
  "\<exists>s. run_events demo_setting demo_apply (demo_system FleetWrite) = Some s
     \<and> qs_phase s = Applying ''p1'' [] (empty_report 1)"
  by (simp add: demo_apply_def demo_eval)

lemma demo_return_run:
  "\<exists>s. run_events demo_setting (demo_apply @ [EvReturned None 0, EvScan 0]) (demo_system FleetWrite) = Some s
     \<and> executed s = [''h:t''] \<and> (\<exists>rep. last_report s = Some rep \<and> dr_applied rep = [''p1''])"
  by (simp add: demo_apply_def demo_eval identity_key_of_def)


text \<open>The two machines never interleave: in no reachable state is an execution in flight while
  the engine's window is open.\<close>

theorem no_execution_inside_the_window:
  assumes "queue_reach st s" and "0 < max_retries (qc st)" and "hold_active (qs_queue s)"
  shows "qs_phase s \<noteq> Applying i rest rep \<and> qs_phase s \<noteq> Joining i rest rep"
  using queue_reach_inv [OF assms(1,2)] assms(3)
  by (auto simp: queue_inv_def)

definition demo_held :: "queue_event list" where
  "demo_held = [EvRequest VerifyEntry, EvRequest Background, EvStart, EvScan 0, EvFetchFailed ''down'' ''s'' 0,
     EvScan 0, EvStart, EvScan 0, EvOpenWindow, EvFetched (JBool True) 0]"

lemma demo_held_run:
  "\<exists>s. run_events demo_setting demo_held (demo_system FleetWrite) = Some s
     \<and> hold_active (qs_queue s) \<and> (\<exists>rep. qs_phase s = Scanning [] rep \<and> dr_held rep = [''p1''])"
  by (simp add: demo_held_def demo_eval hold_queue_def)

theorem no_execution_inside_the_window_witness:
  "\<exists>s. queue_reach demo_setting s \<and> hold_active (qs_queue s)
     \<and> qs_phase s \<noteq> Applying ''p1'' [] (empty_report 1)"
proof -
  obtain s where s: "run_events demo_setting demo_held (demo_system FleetWrite) = Some s"
    and h: "hold_active (qs_queue s)"
    using demo_held_run by blast
  from run_events_reach [OF demo_reach s] have r: "queue_reach demo_setting s" .
  with no_execution_inside_the_window [OF r demo_retries h] h show ?thesis by blast
qed

text \<open>C9: The gate of an execution: the executor is called only on a fetch result that is the same
  JSON value as the proposal's expected truth, for a proposal of a type that applies on its own,
  at the current contract version, not pending reconfirmation, with no window open.\<close>

theorem execution_needs_fresh_agreeing_truth:
  assumes "queue_reach st s" and "0 < max_retries (qc st)" and "event_ok ev s"
    and "queue_step st ev s = Some s'" and "qs_phase s' = Applying i rest rep"
    and "\<forall>i rest rep. qs_phase s \<noteq> Applying i rest rep"
  shows "\<exists>actual now f p. ev = EvFetched actual now
    \<and> current_file (qs_queue s) = Some f \<and> find_proposal i f = Some p
    \<and> json_value actual = json_value (pc_expected (q_precondition p))
    \<and> q_type p \<noteq> StructuralSurface \<and> contract_version p = fleet_contract_version
    \<and> q_state p \<noteq> PendingReconfirm \<and> \<not> hold_active (qs_queue s)"
  using execution_gate [OF queue_reach_inv [OF assms(1,2)] assms(4-6)] by blast

theorem execution_needs_fresh_agreeing_truth_witness:
  "\<exists>s. queue_reach demo_setting s \<and> (\<exists>s'. queue_step demo_setting (EvFetched (JBool True) 0) s = Some s'
     \<and> qs_phase s' = Applying ''p1'' [] (empty_report 1)) \<and> \<not> hold_active (qs_queue s)"
proof -
  have "\<exists>s s'. run_events demo_setting [EvRequest VerifyEntry, EvStart, EvScan 0] (demo_system FleetWrite) = Some s
     \<and> qs_phase s = Fetching ''p1'' [] (empty_report 1)
     \<and> queue_step demo_setting (EvFetched (JBool True) 0) s = Some s'
     \<and> qs_phase s' = Applying ''p1'' [] (empty_report 1)"
    by (simp add: demo_eval)
  then obtain s s' where s: "run_events demo_setting [EvRequest VerifyEntry, EvStart, EvScan 0] (demo_system FleetWrite) = Some s"
    and f: "qs_phase s = Fetching ''p1'' [] (empty_report 1)"
    and s': "queue_step demo_setting (EvFetched (JBool True) 0) s = Some s'"
    and a: "qs_phase s' = Applying ''p1'' [] (empty_report 1)" by blast
  from run_events_reach [OF demo_reach s] have r: "queue_reach demo_setting s" .
  from execution_needs_fresh_agreeing_truth [OF r demo_retries _ s' a] f have "\<not> hold_active (qs_queue s)" by auto
  with r s' a show ?thesis by blast
qed




text \<open>C17: A fetch failure is not a world change: it blocks the proposal (never pending
  reconfirmation), consumes one attempt, writes posture degraded and leaves the mode alone, the
  drain goes on with the next proposal, and a retry is armed, no later than the longest delay,
  while the budget lasts; no proposal ever exceeds the budget.\<close>

theorem fetch_failure_is_not_a_world_change:
  assumes "queue_reach st s" and "0 < max_retries (qc st)" and "qs_phase s = Fetching i rest rep"
    and "queue_step st (EvFetchFailed err stamp now) s = Some s'"
  shows "\<exists>f f' p p'. current_file (qs_queue s) = Some f \<and> find_proposal i f = Some p
    \<and> current_file (qs_queue s') = Some f' \<and> find_proposal i f' = Some p'
    \<and> q_state p' = BlockedDegraded \<and> attempts p' = attempts p + 1
    \<and> attempts p' \<le> max_retries (qc st) \<and> last_error p' = Some err
    \<and> machine_posture (qs_machine s') = Degraded
    \<and> mode_field (record_value (qs_machine s')) = mode_field (record_value (qs_machine s))
    \<and> qs_phase s' = Scanning rest (rep\<lparr>dr_blocked_degraded := dr_blocked_degraded rep @ [i]\<rparr>)
    \<and> (if attempts p' = max_retries (qc st) then retry_delays (qs_queue s') = retry_delays (qs_queue s)
       else \<exists>d \<le> retry_max_delay_ms (qc st). retry_delays (qs_queue s') = retry_delays (qs_queue s) @ [d])"
proof -
  have inv: "queue_inv (qc st) s" using queue_reach_inv [OF assms(1,2)] .
  with assms(3) obtain f p where f: "file_value (qs_queue s) = Some f" and p: "find_proposal i f = Some p"
    and ex: "examinable (qc st) p" by (auto simp: queue_inv_def)
  have "file_inv (qc st) f" using inv f disk_inv_file by (auto simp: queue_inv_def)
  then have at: "attempts p < max_retries (qc st)"
    using find_proposal_Some [OF p] ex by (fastforce simp: file_inv_def proposal_inv_def examinable_def)
  let ?g = "\<lambda>p. p\<lparr>q_state := BlockedDegraded, attempts := attempts p + 1,
    last_error := Some err, updated_at := to_iso_string now\<rparr>"
  have fp: "find_proposal i (update_proposal i ?g f) = Some (?g p)"
    by (rule find_proposal_update [OF _ p]) simp
  show ?thesis
    using assms(3,4) f p fp at
    by (intro exI [of _ f] exI [of _ "update_proposal i ?g f"] exI [of _ p] exI [of _ "?g p"])
      (auto simp: fetch_failed_def schedule_retry_def Let_def retry_delay_def
        mode_machine.read_write mode_machine.mode_write put_file_def split: if_splits)
qed

theorem fetch_failure_is_not_a_world_change_witness:
  "\<exists>s s'. queue_reach demo_setting s
     \<and> queue_step demo_setting (EvFetchFailed ''down'' ''s'' 0) s = Some s'
     \<and> machine_posture (qs_machine s') = Degraded"
proof -
  have "\<exists>s s'. run_events demo_setting [EvRequest Background, EvStart, EvScan 0] (demo_system FleetWrite) = Some s
     \<and> qs_phase s = Fetching ''p1'' [] (empty_report 1)
     \<and> queue_step demo_setting (EvFetchFailed ''down'' ''s'' 0) s = Some s'"
    by (simp add: demo_eval)
  then obtain s s' where s: "run_events demo_setting [EvRequest Background, EvStart, EvScan 0] (demo_system FleetWrite) = Some s"
    and f: "qs_phase s = Fetching ''p1'' [] (empty_report 1)"
    and s': "queue_step demo_setting (EvFetchFailed ''down'' ''s'' 0) s = Some s'" by blast
  from run_events_reach [OF demo_reach s] have r: "queue_reach demo_setting s" .
  from fetch_failure_is_not_a_world_change [OF r demo_retries f s'] r s' show ?thesis by blast
qed

text \<open>A drain accounts for every proposal: in the report of a drain that resolves, each proposal
  of the snapshot stands in exactly one of the lists, whatever was staged, held or restarted
  meanwhile; a blocked one never wedges the drain.\<close>

theorem drain_accounts_for_every_proposal:
  assumes "queue_reach st s" and "0 < max_retries (qc st)" and "last_report s = Some rep"
  shows "distinct (dr_applied rep @ dr_held rep @ dr_pending_reconfirm rep @ dr_blocked_degraded rep
      @ map fst (dr_rejected rep) @ dr_surface_retained rep @ dr_surface_resolved rep)
    \<and> length (dr_applied rep) + length (dr_held rep) + length (dr_pending_reconfirm rep)
      + length (dr_blocked_degraded rep) + length (dr_rejected rep)
      + length (dr_surface_retained rep) + length (dr_surface_resolved rep) = dr_drained rep"
  using queue_reach_inv [OF assms(1,2)] assms(3)
  by (simp add: queue_inv_def report_complete_def report_ids_def)

theorem drain_accounts_for_every_proposal_witness:
  "\<exists>s rep. queue_reach demo_setting s \<and> last_report s = Some rep \<and> dr_drained rep = 1"
proof -
  obtain s rep where s: "run_events demo_setting (demo_apply @ [EvReturned None 0, EvScan 0]) (demo_system FleetWrite) = Some s"
    and l: "last_report s = Some rep" and a: "dr_applied rep = [''p1'']"
    and o: "dr_held rep = []" "dr_pending_reconfirm rep = []" "dr_blocked_degraded rep = []"
      "dr_rejected rep = []" "dr_surface_retained rep = []" "dr_surface_resolved rep = []"
    by (atomize_elim) (simp add: demo_apply_def demo_eval identity_key_of_def)
  from run_events_reach [OF demo_reach s] have r: "queue_reach demo_setting s" .
  from drain_accounts_for_every_proposal [OF r demo_retries l] a o r l show ?thesis by auto
qed

definition demo_isolated_failures :: "queue_event list" where
  "demo_isolated_failures =
     concat (replicate 2 [EvRequest Background, EvStart, EvScan 0, EvFetchFailed ''down'' ''s'' 0, EvScan 0,
                          EvRequest Background, EvStart, EvScan 0, EvFetched (JBool True) 0, EvScan 0])
     @ [EvRequest Background, EvStart, EvScan 0, EvFetchFailed ''down'' ''s'' 0, EvScan 0,
        EvRequest Background, EvStart, EvScan 0, EvScan 0]"

text \<open>The retry budget is one for life, not one per blocked episode: three fetch failures, each of
  the first two followed by a successful fetch that found the claim unchanged, leave a proposal
  blocked with its budget spent, and the next drain files it as blocked without fetching.\<close>

theorem isolated_failures_spend_the_budget:
  "\<exists>s f p rep. run_events demo_setting demo_isolated_failures (demo_system StructuralSurface) = Some s
     \<and> current_file (qs_queue s) = Some f \<and> proposals f = [p]
     \<and> q_state p = BlockedDegraded \<and> attempts p = max_retries (qc demo_setting)
     \<and> last_report s = Some rep \<and> dr_blocked_degraded rep = [''p1'']"
  by (simp add: demo_isolated_failures_def numeral_2_eq_2 demo_eval)

end
