(* ===== verification/Sse_Splitter.thy ===== *)
theory Sse_Splitter
  imports Fleet_Prelude
begin

text \<open>
  The linear-time frame splitter shared by the event readers
  (\<open>packages/extension/src/amicode_service/sse_frame_splitter.ts\<close>, and the same scan in
  \<open>session_event_resume.ts\<close>), and the reader contract it fulfils: what it emits does not depend
  on how the stream was cut into chunks.
\<close>

section \<open>The splitter\<close>

abbreviation LF :: char where "LF \<equiv> CHR 0x0A"
abbreviation CR :: char where "CR \<equiv> CHR 0x0D"

text \<open>\<open>parts\<close>: the partial frame as received; \<open>tail\<close>: its last two characters at most.\<close>

record splitter =
  parts :: "string list"
  tail :: string

definition new_splitter :: splitter where
  "new_splitter = \<lparr>parts = [], tail = []\<rparr>"

text \<open>\<open>at(i)\<close>: \<open>None\<close> is the \<open>NaN\<close> before the current frame.\<close>

definition char_at :: "string \<Rightarrow> string \<Rightarrow> int \<Rightarrow> int \<Rightarrow> char option" where
  "char_at lookback chunk floor i =
     (if i < floor then None
      else if i \<ge> 0 then Some (chunk ! nat i)
      else Some (lookback ! nat (int (length lookback) + i)))"

text \<open>\<open>chunk.indexOf("\n", from)\<close>.\<close>

fun index_of_lf :: "string \<Rightarrow> nat \<Rightarrow> nat option" where
  "index_of_lf [] k = None"
| "index_of_lf (c # cs) 0 = (if c = LF then Some 0 else map_option Suc (index_of_lf cs 0))"
| "index_of_lf (c # cs) (Suc k) = map_option Suc (index_of_lf cs k)"

definition slice :: "string \<Rightarrow> nat \<Rightarrow> nat \<Rightarrow> string" where
  "slice s a b = take (b - a) (drop a s)"

definition last_two :: "string \<Rightarrow> string" where
  "last_two s = drop (length s - 2) s"

lemma index_of_lf_Some:
  "index_of_lf s k = Some i \<Longrightarrow>
   k \<le> i \<and> i < length s \<and> s ! i = LF \<and> (\<forall>j. k \<le> j \<longrightarrow> j < i \<longrightarrow> s ! j \<noteq> LF)"
proof (induction s k arbitrary: i rule: index_of_lf.induct)
  case (2 c cs)
  then show ?case by (auto split: if_splits simp: nth_Cons')
next
  case (3 c cs k)
  then obtain j where "i = Suc j" "index_of_lf cs k = Some j" by auto
  with "3.IH" [of j] show ?case
    by (auto simp: nth_Cons split: nat.splits)
qed simp

lemma index_of_lf_None:
  "index_of_lf s k = None \<Longrightarrow> k \<le> j \<Longrightarrow> j < length s \<Longrightarrow> s ! j \<noteq> LF"
proof (induction s k arbitrary: j rule: index_of_lf.induct)
  case (2 c cs)
  then show ?case by (cases j) (auto split: if_splits)
next
  case (3 c cs k)
  then show ?case by (cases j) auto
qed simp

text \<open>The loop over the line feeds of a chunk: the frames completed, the partial frame's pieces and
  the position \<open>start\<close> where it resumes in the chunk.\<close>

function split_loop ::
  "string \<Rightarrow> string \<Rightarrow> string list \<Rightarrow> nat \<Rightarrow> int \<Rightarrow> nat \<Rightarrow> string list \<times> string list \<times> nat" where
  "split_loop lookback chunk ps start floor k =
     (case index_of_lf chunk k of
        None \<Rightarrow> ([], ps, start)
      | Some lf \<Rightarrow>
          (let nxt = Suc lf; prev = char_at lookback chunk floor (int lf - 1) in
           if prev \<noteq> Some LF \<and> \<not> (prev = Some CR \<and> char_at lookback chunk floor (int lf - 2) = Some LF)
           then split_loop lookback chunk ps start floor nxt
           else (let (frames, ps', start') = split_loop lookback chunk [] nxt (int nxt) nxt
                 in (concat (ps @ [slice chunk start nxt]) # frames, ps', start'))))"
  by pat_completeness auto
termination
  by (relation "measure (\<lambda>(lookback, chunk, ps, start, floor, k). length chunk - k)")
    (auto dest!: index_of_lf_Some)

declare split_loop.simps [simp del]

definition push :: "splitter \<Rightarrow> string \<Rightarrow> splitter \<times> string list" where
  "push s chunk =
     (if chunk = [] then (s, [])
      else (let (frames, ps, start) =
                  split_loop (tail s) chunk (parts s) 0 (- int (length (tail s))) 0
            in if start < length chunk
               then (let rest = drop start chunk in
                     (\<lparr>parts = ps @ [rest],
                       tail = (if length rest \<ge> 2 then last_two rest
                               else last_two (if start = 0 then tail s @ rest else rest))\<rparr>, frames))
               else (\<lparr>parts = ps, tail = []\<rparr>, frames)))"

section \<open>The reference: one character at a time\<close>

text \<open>A frame ends at a line feed whose line, within the frame, is empty.\<close>

definition ends_frame :: "string \<Rightarrow> bool" where
  "ends_frame b \<longleftrightarrow> (\<exists>p. b = p @ [LF, LF]) \<or> (\<exists>p. b = p @ [LF, CR, LF])"

fun read_chars :: "string \<Rightarrow> string \<Rightarrow> string list \<times> string" where
  "read_chars buf [] = ([], buf)"
| "read_chars buf (c # cs) =
     (let b = buf @ [c] in
      if ends_frame b then (let (fs, r) = read_chars [] cs in (b # fs, r)) else read_chars b cs)"

lemma read_chars_append:
  "read_chars buf (s @ t) =
     (let (fs, r) = read_chars buf s; (fs', r') = read_chars r t in (fs @ fs', r'))"
  by (induction buf s rule: read_chars.induct) (auto simp: Let_def case_prod_beta)

lemma read_chars_conserves: "concat (fst (read_chars buf s)) @ snd (read_chars buf s) = buf @ s"
proof (induction s arbitrary: buf)
  case (Cons c s)
  show ?case
    using Cons.IH [of "buf @ [c]"] Cons.IH [of "[]"]
    by (cases "ends_frame (buf @ [c])") (simp_all add: Let_def case_prod_beta)
qed simp

lemma read_chars_frames: "\<forall>f \<in> set (fst (read_chars buf s)). ends_frame f"
proof (induction s arbitrary: buf)
  case (Cons c s)
  show ?case
    using Cons.IH [of "buf @ [c]"] Cons.IH [of "[]"]
    by (cases "ends_frame (buf @ [c])") (simp_all add: Let_def case_prod_beta)
qed simp

text \<open>A stretch without the end of a frame only grows the buffer.\<close>

lemma read_chars_quiet:
  "(\<And>j. j < length s \<Longrightarrow> \<not> ends_frame (buf @ take (Suc j) s)) \<Longrightarrow> read_chars buf s = ([], buf @ s)"
proof (induction s arbitrary: buf)
  case (Cons c s)
  from Cons.prems [of 0] have n: "\<not> ends_frame (buf @ [c])" by simp
  have "read_chars (buf @ [c]) s = ([], (buf @ [c]) @ s)"
    using Cons.prems [of "Suc j" for j] by (intro Cons.IH) auto
  with n show ?case by simp
qed simp

lemma ends_frame_last: "ends_frame b \<Longrightarrow> b \<noteq> [] \<and> last b = LF"
  unfolding ends_frame_def by (elim disjE exE) simp_all

text \<open>The end of a frame shows in its last three characters.\<close>

lemma ends_frame_nth:
  "ends_frame b \<longleftrightarrow> (2 \<le> length b \<and> b ! (length b - 1) = LF
     \<and> (b ! (length b - 2) = LF
        \<or> (3 \<le> length b \<and> b ! (length b - 2) = CR \<and> b ! (length b - 3) = LF)))"
  (is "?l = ?r")
proof
  assume ?l
  then show ?r unfolding ends_frame_def by (auto simp: nth_append)
next
  assume r: ?r
  have two: "b = take (length b - 2) b @ [b ! (length b - 2), b ! (length b - 1)]" if "2 \<le> length b"
  proof -
    have "drop (length b - 2) b = [b ! (length b - 2), b ! (length b - 1)]"
      using that by (cases "length b") (auto simp: Cons_nth_drop_Suc [symmetric] numeral_2_eq_2 Suc_diff_Suc)
    then show ?thesis by (metis append_take_drop_id)
  qed
  have three: "b = take (length b - 3) b @ [b ! (length b - 3), b ! (length b - 2), b ! (length b - 1)]"
    if "3 \<le> length b"
  proof -
    have "Suc (length b - 3) = length b - 2" "Suc (length b - 2) = length b - 1" using that by auto
    then have "drop (length b - 3) b = [b ! (length b - 3), b ! (length b - 2), b ! (length b - 1)]"
      using that by (simp add: Cons_nth_drop_Suc [symmetric])
    then show ?thesis by (metis append_take_drop_id)
  qed
  from r show ?l
  proof (elim conjE disjE)
    assume "2 \<le> length b" "b ! (length b - 1) = LF" "b ! (length b - 2) = LF"
    with two show ?l unfolding ends_frame_def by metis
  next
    assume "3 \<le> length b" "b ! (length b - 1) = LF" "b ! (length b - 2) = CR" "b ! (length b - 3) = LF"
    with three show ?l unfolding ends_frame_def by metis
  qed
qed


section \<open>The splitter reads what the reference reads\<close>

lemma length_last_two: "length (last_two s) = min 2 (length s)"
  by (simp add: last_two_def)

lemma last_two_nth: "e \<le> length (last_two s) \<Longrightarrow> 0 < e \<Longrightarrow> last_two s ! (length (last_two s) - e) = s ! (length s - e)"
  by (auto simp: last_two_def)

lemma last_two_append: "2 \<le> length t \<Longrightarrow> last_two (s @ t) = last_two t"
  by (simp add: last_two_def)

lemma last_two_last_two: "length t \<le> 1 \<Longrightarrow> last_two (last_two s @ t) = last_two (s @ t)"
  by (cases t; cases "2 \<le> length s") (auto simp: last_two_def Suc_diff_Suc numeral_2_eq_2)

lemma length_slice: "b \<le> length s \<Longrightarrow> length (slice s a b) = b - a"
  by (simp add: slice_def)

lemma slice_nth: "a \<le> i \<Longrightarrow> i < b \<Longrightarrow> b \<le> length s \<Longrightarrow> slice s a b ! (i - a) = s ! i"
  by (simp add: slice_def)

lemma slice_extend: "a \<le> b \<Longrightarrow> b \<le> c \<Longrightarrow> c \<le> length s \<Longrightarrow> slice s a c = slice s a b @ slice s b c"
proof -
  assume "a \<le> b" "b \<le> c" "c \<le> length s"
  then have "c - a = (b - a) + (c - b)" and "b = a + (b - a)" by auto
  then show ?thesis by (simp only: slice_def take_add drop_drop) (simp add: add.commute)
qed

text \<open>What \<open>buf\<close> and the pieces hold when the loop stands at \<open>k\<close> in the chunk.\<close>

definition loop_state :: "string \<Rightarrow> string \<Rightarrow> string list \<Rightarrow> nat \<Rightarrow> int \<Rightarrow> bool" where
  "loop_state lookback buf ps start floor \<longleftrightarrow>
     concat ps = buf
     \<and> ((start = 0 \<and> floor = - int (length lookback) \<and> lookback = last_two buf) \<or> (buf = [] \<and> floor = int start))"

lemma char_at_frame:
  assumes "loop_state lookback buf ps start floor" and "start \<le> lf" and "lf \<le> length chunk"
    and "d = 1 \<or> d = 2" and "cur = buf @ slice chunk start lf"
  shows "char_at lookback chunk floor (int lf - int d) =
    (if d \<le> length cur then Some (cur ! (length cur - d)) else None)"
proof (cases "buf = [] \<and> floor = int start")
  case True
  have n: "length cur = lf - start" using assms(3,5) True by (simp add: length_slice)
  show ?thesis
  proof (cases "d \<le> lf - start")
    case False
    with True n assms(2) show ?thesis by (auto simp: char_at_def)
  next
    case d: True
    then have "cur ! (length cur - d) = chunk ! (lf - d)"
      using slice_nth [of start "lf - d" lf chunk] assms(2-5) True n by auto
    with True n d assms(2) show ?thesis by (auto simp: char_at_def nat_diff_distrib)
  qed
next
  case False
  with assms(1) have A: "start = 0" "floor = - int (length lookback)" "lookback = last_two buf"
    by (auto simp: loop_state_def)
  have cur: "cur = buf @ take lf chunk" using assms(5) A by (simp add: slice_def)
  then have n: "length cur = length buf + lf" using assms(3) by simp
  show ?thesis
  proof (cases "d \<le> lf")
    case True
    then have "cur ! (length cur - d) = chunk ! (lf - d)" using assms(3,4) n by (auto simp: cur nth_append min_def)
    with True n A show ?thesis by (auto simp: char_at_def nat_diff_distrib)
  next
    case d: False
    then have e: "0 < d - lf" "d - lf \<le> 2" using assms(4) by auto
    show ?thesis
    proof (cases "d \<le> length cur")
      case True
      then have le: "d - lf \<le> length (last_two buf)" using n e by (simp add: length_last_two)
      then have "last_two buf ! (length (last_two buf) - (d - lf)) = buf ! (length buf - (d - lf))"
        using e by (intro last_two_nth)
      moreover have "length cur - d = length buf - (d - lf)" and "length buf - (d - lf) < length buf"
        using n d le e True by auto
      moreover have "nat (int (length lookback) + (int lf - int d)) = length (last_two buf) - (d - lf)"
        using A d le by auto
      ultimately show ?thesis using A d le True by (auto simp: char_at_def cur nth_append)
    next
      case False
      with n d e A show ?thesis by (auto simp: char_at_def length_last_two)
    qed
  qed
qed

text \<open>The test at a line feed decides whether the frame ends there.\<close>

lemma lf_test:
  assumes "loop_state lookback buf ps start floor" and "start \<le> lf" and "lf < length chunk" and "chunk ! lf = LF"
  shows "ends_frame (buf @ slice chunk start (Suc lf)) \<longleftrightarrow>
    char_at lookback chunk floor (int lf - 1) = Some LF
    \<or> (char_at lookback chunk floor (int lf - 1) = Some CR \<and> char_at lookback chunk floor (int lf - 2) = Some LF)"
proof -
  define cur where "cur = buf @ slice chunk start lf"
  have b: "buf @ slice chunk start (Suc lf) = cur @ [LF]"
    using assms(2-4) slice_extend [of start lf "Suc lf" chunk]
    by (simp add: cur_def slice_def take_Suc_conv_app_nth Cons_nth_drop_Suc [symmetric])
  have c1: "char_at lookback chunk floor (int lf - 1) = (if 1 \<le> length cur then Some (cur ! (length cur - 1)) else None)"
    using char_at_frame [OF assms(1,2), of chunk 1 cur] assms(3) by (simp add: cur_def)
  have c2: "char_at lookback chunk floor (int lf - 2) = (if 2 \<le> length cur then Some (cur ! (length cur - 2)) else None)"
    using char_at_frame [OF assms(1,2), of chunk 2 cur] assms(3) by (simp add: cur_def)
  show ?thesis
    unfolding b ends_frame_nth c1 c2 by (auto simp: nth_append)
qed

lemma split_loop_reads:
  assumes "split_loop lookback chunk ps start floor k = (frames, ps', start')"
    and "loop_state lookback buf ps start floor" and "start \<le> k" and "k \<le> length chunk"
  shows "read_chars (buf @ slice chunk start k) (drop k chunk) = (frames, concat ps' @ drop start' chunk)
    \<and> start' \<le> length chunk
    \<and> ((frames = [] \<and> ps' = ps \<and> start' = start) \<or> (frames \<noteq> [] \<and> ps' = [] \<and> 0 < start'))"
  using assms
proof (induction lookback chunk ps start floor k arbitrary: buf frames ps' start' rule: split_loop.induct)
  case (1 lookback chunk ps start floor k)
  let ?cur = "buf @ slice chunk start k"
  show ?case
  proof (cases "index_of_lf chunk k")
    case None
    have "\<not> ends_frame (?cur @ take (Suc j) (drop k chunk))" if "j < length (drop k chunk)" for j
      using index_of_lf_None [OF None, of "k + j"] that
      by (auto simp: take_Suc_conv_app_nth dest!: ends_frame_last)
    then have "read_chars ?cur (drop k chunk) = ([], ?cur @ drop k chunk)" by (rule read_chars_quiet)
    moreover have "?cur @ drop k chunk = concat ps @ drop start chunk"
      using "1.prems"(2-4) slice_extend [of start k "length chunk" chunk]
      by (simp add: loop_state_def slice_def)
    moreover have "frames = []" "ps' = ps" "start' = start"
      using "1.prems"(1) None by (simp_all add: split_loop.simps [of lookback chunk])
    ultimately show ?thesis using "1.prems"(3,4) by simp
  next
    case (Some lf)
    from index_of_lf_Some [OF Some] have lf: "k \<le> lf" "lf < length chunk" "chunk ! lf = LF"
      and quiet: "\<And>j. k \<le> j \<Longrightarrow> j < lf \<Longrightarrow> chunk ! j \<noteq> LF" by auto
    have cut: "drop k chunk = slice chunk k lf @ LF # drop (Suc lf) chunk"
      using lf by (metis Cons_nth_drop_Suc append_take_drop_id le_add_diff_inverse drop_drop slice_def add.commute)
    have "\<not> ends_frame (?cur @ take (Suc j) (slice chunk k lf))" if "j < length (slice chunk k lf)" for j
      using that lf quiet [of "k + j"]
      by (auto simp: take_Suc_conv_app_nth length_slice slice_def dest!: ends_frame_last)
    then have "read_chars ?cur (slice chunk k lf) = ([], ?cur @ slice chunk k lf)" by (rule read_chars_quiet)
    moreover have ext: "?cur @ slice chunk k lf = buf @ slice chunk start lf"
      using "1.prems"(3) lf slice_extend [of start k lf chunk] by simp
    ultimately have rd: "read_chars ?cur (drop k chunk)
        = read_chars (buf @ slice chunk start lf) (LF # drop (Suc lf) chunk)"
      by (simp add: cut read_chars_append)
    have one: "(buf @ slice chunk start lf) @ [LF] = buf @ slice chunk start (Suc lf)"
      using "1.prems"(3) lf slice_extend [of start lf "Suc lf" chunk]
      by (simp add: slice_def take_Suc_conv_app_nth Cons_nth_drop_Suc [symmetric])
    have slf: "start \<le> lf" using "1.prems"(3) lf by simp
    note test = lf_test [OF "1.prems"(2) slf lf(2,3)]
    show ?thesis
    proof (cases "ends_frame (buf @ slice chunk start (Suc lf))")
      case False
      have "split_loop lookback chunk ps start floor (Suc lf) = (frames, ps', start')"
        using "1.prems"(1) Some False test by (simp add: split_loop.simps [of lookback chunk ps start floor k] Let_def)
      from "1.IH"(1) [OF Some refl refl _ this "1.prems"(2)] False test slf lf rd one
      show ?thesis by (auto simp: Let_def)
    next
      case True
      obtain fs ps1 st1 where rest: "split_loop lookback chunk [] (Suc lf) (int (Suc lf)) (Suc lf) = (fs, ps1, st1)"
        by (metis prod.exhaust)
      have eqs: "frames = concat (ps @ [slice chunk start (Suc lf)]) # fs" "ps' = ps1" "start' = st1"
        using "1.prems"(1) Some True test rest
        by (auto simp: split_loop.simps [of lookback chunk ps start floor k] Let_def)
      have ls: "loop_state lookback [] [] (Suc lf) (int (Suc lf))" by (simp add: loop_state_def)
      have "read_chars ([] @ slice chunk (Suc lf) (Suc lf)) (drop (Suc lf) chunk) = (fs, concat ps1 @ drop st1 chunk)
          \<and> st1 \<le> length chunk
          \<and> ((fs = [] \<and> ps1 = [] \<and> st1 = Suc lf) \<or> (fs \<noteq> [] \<and> ps1 = [] \<and> 0 < st1))"
        using "1.IH"(2) [OF Some refl refl _ rest ls] True test lf by auto
      then have "read_chars [] (drop (Suc lf) chunk) = (fs, concat ps1 @ drop st1 chunk)"
        "st1 \<le> length chunk" "ps1 = []" "0 < st1" by (auto simp: slice_def)
      moreover have "concat (ps @ [slice chunk start (Suc lf)]) = buf @ slice chunk start (Suc lf)"
        using "1.prems"(2) by (simp add: loop_state_def)
      ultimately show ?thesis using rd one True eqs by (simp add: Let_def)
    qed
  qed
qed

text \<open>The state of the splitter stands for the partial frame.\<close>

definition holds_partial :: "splitter \<Rightarrow> string \<Rightarrow> bool" where
  "holds_partial s buf \<longleftrightarrow> concat (parts s) = buf \<and> tail s = last_two buf"

lemma push_reads:
  assumes "holds_partial s buf" and "push s chunk = (s', frames)"
  shows "\<exists>buf'. read_chars buf chunk = (frames, buf') \<and> holds_partial s' buf'"
proof (cases "chunk = []")
  case True
  with assms show ?thesis by (auto simp: push_def)
next
  case False
  obtain ps start where sl: "split_loop (tail s) chunk (parts s) 0 (- int (length (tail s))) 0 = (frames, ps, start)"
    using assms(2) False by (auto simp: push_def Let_def split: prod.splits if_splits)
  have "loop_state (tail s) buf (parts s) 0 (- int (length (tail s)))"
    using assms(1) by (simp add: loop_state_def holds_partial_def)
  from split_loop_reads [OF sl this]
  have rd: "read_chars buf chunk = (frames, concat ps @ drop start chunk)" and le: "start \<le> length chunk"
    and c: "(frames = [] \<and> ps = parts s \<and> start = 0) \<or> (frames \<noteq> [] \<and> ps = [] \<and> 0 < start)"
    by (auto simp: slice_def)
  have "holds_partial s' (concat ps @ drop start chunk)"
  proof (cases "start < length chunk")
    case False
    with le c assms(2) sl \<open>chunk \<noteq> []\<close> show ?thesis
      by (auto simp: push_def Let_def holds_partial_def last_two_def)
  next
    case True
    have b: "concat (parts s) = buf" "tail s = last_two buf" using assms(1) by (simp_all add: holds_partial_def)
    have s': "s' = \<lparr>parts = ps @ [drop start chunk],
        tail = (if length (drop start chunk) \<ge> 2 then last_two (drop start chunk)
                else last_two (if start = 0 then tail s @ drop start chunk else drop start chunk))\<rparr>"
      using assms(2) sl True \<open>chunk \<noteq> []\<close> by (simp add: push_def Let_def)
    show ?thesis
      using c b by (auto simp: holds_partial_def s' last_two_append last_two_last_two)
  qed
  with rd show ?thesis by blast
qed


section \<open>The reader contract\<close>

text \<open>Feeding a reader chunk by chunk.\<close>

fun feed :: "('s \<Rightarrow> string \<Rightarrow> 's \<times> string list) \<Rightarrow> 's \<Rightarrow> string list \<Rightarrow> 's \<times> string list" where
  "feed rd s [] = (s, [])"
| "feed rd s (c # cs) = (let (s1, fs) = rd s c; (s2, fs') = feed rd s1 cs in (s2, fs @ fs'))"

text \<open>Frames no shorter than needed: no proper prefix ends a frame.\<close>

definition unfinished :: "string \<Rightarrow> bool" where
  "unfinished b \<longleftrightarrow> (\<forall>p q. b = p @ q \<longrightarrow> \<not> ends_frame p)"

definition whole_frame :: "string \<Rightarrow> bool" where
  "whole_frame f \<longleftrightarrow> ends_frame f \<and> (\<forall>p q. f = p @ q \<longrightarrow> q \<noteq> [] \<longrightarrow> \<not> ends_frame p)"

lemma unfinished_Nil [simp]: "unfinished []"
  by (auto simp: unfinished_def ends_frame_def)

lemma unfinished_snoc: "unfinished b \<Longrightarrow> \<not> ends_frame (b @ [c]) \<Longrightarrow> unfinished (b @ [c])"
proof -
  assume b: "unfinished b" and c: "\<not> ends_frame (b @ [c])"
  show ?thesis unfolding unfinished_def
  proof (intro allI impI)
    fix p q
    assume "b @ [c] = p @ q"
    then show "\<not> ends_frame p"
      using b c by (cases q rule: rev_cases) (auto simp: unfinished_def)
  qed
qed

lemma whole_frame_snoc: "unfinished b \<Longrightarrow> ends_frame (b @ [c]) \<Longrightarrow> whole_frame (b @ [c])"
proof -
  assume b: "unfinished b" and c: "ends_frame (b @ [c])"
  have "\<not> ends_frame p" if "b @ [c] = p @ q" "q \<noteq> []" for p q
  proof -
    from that obtain q' y where "q = q' @ [y]" by (cases q rule: rev_cases) auto
    with that have "b = p @ q'" by simp
    with b show ?thesis by (simp add: unfinished_def)
  qed
  with c show ?thesis by (auto simp: whole_frame_def)
qed

lemma read_chars_whole:
  "unfinished buf \<Longrightarrow>
   (\<forall>f \<in> set (fst (read_chars buf s)). whole_frame f) \<and> unfinished (snd (read_chars buf s))"
proof (induction s arbitrary: buf)
  case (Cons c s)
  show ?case
  proof (cases "ends_frame (buf @ [c])")
    case True
    with Cons.IH [of "[]"] whole_frame_snoc [OF Cons.prems True] show ?thesis
      by (simp add: Let_def case_prod_beta)
  next
    case False
    with Cons.IH [OF unfinished_snoc [OF Cons.prems False]] show ?thesis by simp
  qed
qed simp

text \<open>A reader: a state that stands for the partial frame, and a step that reads a chunk as the
  reference does.\<close>

locale frame_reader =
  fixes rd :: "'s \<Rightarrow> string \<Rightarrow> 's \<times> string list"
    and stands_for :: "'s \<Rightarrow> string \<Rightarrow> bool"
  assumes reads: "stands_for s buf \<Longrightarrow> rd s chunk = (s', fs) \<Longrightarrow>
    \<exists>buf'. read_chars buf chunk = (fs, buf') \<and> stands_for s' buf'"
begin

lemma feed_reads:
  "stands_for s buf \<Longrightarrow> feed rd s cs = (s', fs) \<Longrightarrow>
   \<exists>buf'. read_chars buf (concat cs) = (fs, buf') \<and> stands_for s' buf'"
proof (induction cs arbitrary: s buf fs s')
  case (Cons c cs)
  obtain s1 f1 where one: "rd s c = (s1, f1)" by (cases "rd s c")
  from reads [OF Cons.prems(1) one] obtain b1 where b1: "read_chars buf c = (f1, b1)" "stands_for s1 b1"
    by blast
  obtain s2 f2 where two: "feed rd s1 cs = (s2, f2)" by (cases "feed rd s1 cs")
  from Cons.IH [OF b1(2) two] obtain b2 where "read_chars b1 (concat cs) = (f2, b2)" "stands_for s2 b2"
    by blast
  with Cons.prems(2) one two b1 show ?case by (auto simp: read_chars_append)
qed simp

lemma chunking_independent:
  assumes "stands_for s []" and "feed rd s cs = (s1, fs1)" and "feed rd s cs' = (s2, fs2)"
    and "concat cs = concat cs'"
  shows "fs1 = fs2 \<and> (\<exists>buf. stands_for s1 buf \<and> stands_for s2 buf)"
  using feed_reads [OF assms(1,2)] feed_reads [OF assms(1,3)] assms(4) by auto

lemma conserves:
  assumes "stands_for s []" and "feed rd s cs = (s', fs)"
  shows "\<exists>buf. stands_for s' buf \<and> concat fs @ buf = concat cs
    \<and> (\<forall>f \<in> set fs. whole_frame f) \<and> unfinished buf"
proof -
  from feed_reads [OF assms] obtain buf where b: "read_chars [] (concat cs) = (fs, buf)" "stands_for s' buf"
    by blast
  with read_chars_conserves [of "[]" "concat cs"] read_chars_whole [of "[]" "concat cs"]
  show ?thesis by auto
qed

end

interpretation splitter: frame_reader push holds_partial
  by unfold_locales (rule push_reads)

lemma new_splitter_partial [simp]: "holds_partial new_splitter []"
  by (simp add: holds_partial_def new_splitter_def last_two_def)

section \<open>Properties\<close>


definition demo_stream :: string where
  "demo_stream = ''data: a'' @ [CR, LF, CR, LF] @ ''data: b''"


end
