(* ===== verification/Sse_Frames.thy ===== *)
theory Sse_Frames
  imports Sse_Splitter
begin

text \<open>
  The vocabulary of the event fan-in: the composite cursor
  (\<open>packages/extension/src/amicode_service/sse_composite_cursor.ts\<close>) and the frame helpers of
  \<open>sse_fanin_aggregator.ts\<close> (reading and rewriting a frame's id, the engine's control frames and
  positions, the membership and its credentials).
\<close>

section \<open>The composite cursor\<close>

definition local_namespace :: string where
  "local_namespace = ''local''"

definition ns_sep :: string where
  "ns_sep = [CHR 0x1F]"

text \<open>\<open>entry.indexOf("=")\<close> and the two slices around it; \<open>None\<close> when the index is not positive.\<close>

fun split_entry :: "string \<Rightarrow> (string \<times> string) option" where
  "split_entry [] = None"
| "split_entry (c # cs) =
     (if c = CHR ''='' then Some ([], cs)
      else (case split_entry cs of None \<Rightarrow> None | Some (k, v) \<Rightarrow> Some (c # k, v)))"

definition add_entry :: "(string \<times> string) list \<Rightarrow> string \<Rightarrow> (string \<times> string) list" where
  "add_entry m entry =
     (case split_entry entry of
        None \<Rightarrow> m
      | Some (k, v) \<Rightarrow> if k = [] then m else obj_set m k v)"

definition parse_composite_cursor :: "string option \<Rightarrow> (string \<times> string) list" where
  "parse_composite_cursor cursor =
     (case cursor of
        None \<Rightarrow> []
      | Some c \<Rightarrow>
          (let trimmed = js_trim c in
           if trimmed = [] then []
           else if CHR ''='' \<notin> set trimmed then [(local_namespace, trimmed)]
           else foldl add_entry [] (split_on (CHR '';'') trimmed)))"

definition format_composite_cursor :: "(string \<times> string) list \<Rightarrow> string" where
  "format_composite_cursor m =
     join_with '';'' (map (\<lambda>(k, v). k @ ''='' @ v) (filter (\<lambda>(k, v). k \<noteq> []) m))"

section \<open>Lines of a frame\<close>

definition strip_cr :: "string \<Rightarrow> string" where
  "strip_cr l = (if l \<noteq> [] \<and> last l = CR then butlast l else l)"

text \<open>\<open>split(/\r?\n/)\<close>.\<close>

definition split_lines :: "string \<Rightarrow> string list" where
  "split_lines s = (let ps = split_on LF s in map strip_cr (butlast ps) @ [last ps])"

text \<open>\<open>split("\r\n")\<close>.\<close>

fun split_crlf :: "string \<Rightarrow> string list" where
  "split_crlf [] = [[]]"
| "split_crlf [c] = [[c]]"
| "split_crlf (c # d # s) =
     (if c = CR \<and> d = LF then [] # split_crlf s
      else (case split_crlf (d # s) of [] \<Rightarrow> [[c]] | w # ws \<Rightarrow> (c # w) # ws))"

fun has_crlf :: "string \<Rightarrow> bool" where
  "has_crlf (c # d # s) = ((c = CR \<and> d = LF) \<or> has_crlf (d # s))"
| "has_crlf s = False"

definition eol_of :: "string \<Rightarrow> string" where
  "eol_of f = (if has_crlf f then [CR, LF] else [LF])"

definition split_eol :: "string \<Rightarrow> string \<Rightarrow> string list" where
  "split_eol eol f = (if eol = [LF] then split_on LF f else split_crlf f)"

definition id_prefix :: string where "id_prefix = ''id:''"
definition data_prefix :: string where "data_prefix = ''data:''"

definition drop_space :: "string \<Rightarrow> string" where
  "drop_space s = (case s of c # cs \<Rightarrow> if c = CHR '' '' then cs else s | [] \<Rightarrow> [])"

definition line_id :: "string \<Rightarrow> string option" where
  "line_id l = (if starts_with l id_prefix then Some (drop_space (drop 3 l)) else None)"

definition last_id :: "string list \<Rightarrow> string option" where
  "last_id ls = foldl (\<lambda>r l. case line_id l of None \<Rightarrow> r | Some v \<Rightarrow> Some v) None ls"

definition frame_raw_id :: "string \<Rightarrow> string option" where
  "frame_raw_id f = (case last_id (split_lines f) of None \<Rightarrow> None | Some v \<Rightarrow> if v = [] then None else Some v)"

definition is_data_line :: "string \<Rightarrow> bool" where
  "is_data_line l \<longleftrightarrow> l = ''data'' \<or> starts_with l data_prefix"

definition is_data_frame :: "string \<Rightarrow> bool" where
  "is_data_frame f \<longleftrightarrow> list_ex is_data_line (split_lines f)"

section \<open>The engine's control frames and positions\<close>

datatype engine_control = ServerConnected | ServerHeartbeat | ServerCursorUnservable

definition control_opening :: string where
  "control_opening = ''{'' @ [CHR 0x22] @ ''payload'' @ [CHR 0x22] @ '':{'' @ [CHR 0x22] @ ''id''
     @ [CHR 0x22, CHR '':'', CHR 0x22]"

definition control_middle :: string where
  "control_middle = [CHR 0x22] @ '','' @ [CHR 0x22] @ ''type'' @ [CHR 0x22, CHR '':'', CHR 0x22]"

definition control_name :: "string \<Rightarrow> engine_control option" where
  "control_name s =
     (if starts_with s (''server.connected'' @ [CHR 0x22]) then Some ServerConnected
      else if starts_with s (''server.heartbeat'' @ [CHR 0x22]) then Some ServerHeartbeat
      else if starts_with s (''server.cursor.unservable'' @ [CHR 0x22]) then Some ServerCursorUnservable
      else None)"

text \<open>The match of \<open>ENGINE_CONTROL\<close> at the start of a line.\<close>

definition control_at :: "string \<Rightarrow> engine_control option" where
  "control_at s =
     (if \<not> starts_with s data_prefix then None
      else (let r = drop_space (drop (length data_prefix) s) in
            if \<not> starts_with r control_opening then None
            else (let t = dropWhile (\<lambda>c. c \<noteq> CHR 0x22 \<and> c \<noteq> CHR 0x5C) (drop (length control_opening) r) in
                  if \<not> starts_with t control_middle then None
                  else control_name (drop (length control_middle) t))))"

text \<open>The \<open>m\<close> flag: a line starts at the beginning and after each line terminator.\<close>

fun control_search :: "bool \<Rightarrow> string \<Rightarrow> engine_control option" where
  "control_search at_start [] = None"
| "control_search at_start (c # cs) =
     (case (if at_start then control_at (c # cs) else None) of
        Some t \<Rightarrow> Some t
      | None \<Rightarrow> control_search (c = LF \<or> c = CR) cs)"

definition engine_control_max_bytes :: nat where
  "engine_control_max_bytes = 2048"

definition engine_control_type :: "string \<Rightarrow> engine_control option" where
  "engine_control_type f =
     (if length f > engine_control_max_bytes then None else control_search True f)"

definition epoch_char :: "char \<Rightarrow> bool" where
  "epoch_char c \<longleftrightarrow>
     (let n = of_char c :: nat in
      is_digit c \<or> (65 \<le> n \<and> n \<le> 90) \<or> (97 \<le> n \<and> n \<le> 122) \<or> c = CHR ''_'' \<or> c = CHR ''-'')"

record engine_position =
  ep_epoch :: string
  ep_seq :: nat

definition parse_engine_id :: "string option \<Rightarrow> engine_position option" where
  "parse_engine_id i =
     (case i of
        None \<Rightarrow> None
      | Some s \<Rightarrow>
          (case split_on (CHR '':'') (js_trim s) of
             [e, n] \<Rightarrow>
               if e \<noteq> [] \<and> list_all epoch_char e \<and> n \<noteq> [] \<and> list_all is_digit n
               then Some \<lparr>ep_epoch = e, ep_seq = nat_of_digits 0 n\<rparr> else None
           | _ \<Rightarrow> None))"

section \<open>Rewriting a frame\<close>

definition not_id_line :: "string \<Rightarrow> bool" where
  "not_id_line l \<longleftrightarrow> \<not> starts_with l id_prefix"

definition id_line :: "string \<Rightarrow> string" where
  "id_line i = ''id: '' @ i"

definition insert_id :: "string list \<Rightarrow> string \<Rightarrow> string list" where
  "insert_id ls new_id =
     (let body = rev (dropWhile (\<lambda>l. l = []) (rev ls))
      in body @ [id_line new_id] @ drop (length body) ls)"

definition rewrite_frame_id :: "string \<Rightarrow> string option \<Rightarrow> string" where
  "rewrite_frame_id f new_id =
     (let eol = eol_of f;
          kept = filter not_id_line (split_eol eol f)
      in join_with eol (case new_id of None \<Rightarrow> kept | Some i \<Rightarrow> insert_id kept i))"

definition relay_frame :: "string \<Rightarrow> string \<Rightarrow> string" where
  "relay_frame namespace f =
     (case frame_raw_id f of
        None \<Rightarrow> f
      | Some i \<Rightarrow> rewrite_frame_id f (Some (namespace @ ns_sep @ i)))"

section \<open>Membership and credentials\<close>

datatype token_reason = TokenAbsent | TokenMalformed | TokenIncomplete

record peer_credential =
  cred_base_url :: string
  cred_token :: string

type_synonym token_read = "token_reason + peer_credential"

fun token_reason_name :: "token_reason \<Rightarrow> string" where
  "token_reason_name TokenAbsent = ''token-absent''"
| "token_reason_name TokenMalformed = ''token-malformed''"
| "token_reason_name TokenIncomplete = ''token-incomplete''"

text \<open>The \<open>Authorization\<close> header is the argument \<open>auth_header\<close> (\<open>server_auth.ts\<close>: Basic
  authentication, with the user name taken from the environment).\<close>

definition resolve_upstream_auth :: "(string \<Rightarrow> string) \<Rightarrow> token_read \<Rightarrow> token_reason + string" where
  "resolve_upstream_auth auth_header r =
     (case r of Inl reason \<Rightarrow> Inl reason | Inr cred \<Rightarrow> Inr (auth_header (cred_token cred)))"

record peer_member =
  pm_machine :: string
  pm_reachable :: bool
  pm_token :: "string option"
  pm_reason :: "string option"

definition derive_membership ::
  "string list \<Rightarrow> string \<Rightarrow> (string \<Rightarrow> bool) \<Rightarrow> (string \<Rightarrow> token_read) \<Rightarrow> peer_member list" where
  "derive_membership owners local_id reach read_token =
     map (\<lambda>i. \<lparr>pm_machine = i, pm_reachable = reach i,
                pm_token = (case read_token i of Inl r \<Rightarrow> None | Inr cred \<Rightarrow> Some (cred_token cred)),
                pm_reason = (if \<not> reach i then Some ''peer-unreachable''
                             else (case read_token i of Inl r \<Rightarrow> Some (token_reason_name r) | Inr cred \<Rightarrow> None))\<rparr>)
       (filter (\<lambda>i. i \<noteq> [] \<and> i \<noteq> local_id) owners)"

definition honest_source_comment :: "string \<Rightarrow> string \<Rightarrow> string" where
  "honest_source_comment machine reason =
     '': amicode.fleet source '' @ machine @ '' unavailable ('' @ reason @ '')'' @ [LF, LF]"

text \<open>\<open>JSON.stringify\<close> of a namespace that needs no escapes; others are quoted by the same rule as
  any string, so the frame's text is a parameter of the aggregator only in that respect.\<close>

section \<open>The cursor round trip\<close>

definition cursor_char :: "char \<Rightarrow> bool" where
  "cursor_char c \<longleftrightarrow> c \<noteq> CHR '';'' \<and> \<not> js_space c"

text \<open>The maps the aggregator formats: distinct non-empty keys without the two separators.\<close>

definition cursor_map :: "(string \<times> string) list \<Rightarrow> bool" where
  "cursor_map m \<longleftrightarrow>
     distinct (map fst m)
     \<and> (\<forall>(k, v) \<in> set m. k \<noteq> [] \<and> CHR ''='' \<notin> set k \<and> list_all cursor_char k \<and> list_all cursor_char v)"

lemma split_entry_key: "CHR ''='' \<notin> set k \<Longrightarrow> split_entry (k @ CHR ''='' # v) = Some (k, v)"
  by (induction k) auto

lemma foldl_add_entry:
  "cursor_map (m @ es) \<Longrightarrow> foldl add_entry m (map (\<lambda>(k, v). k @ ''='' @ v) es) = m @ es"
proof (induction es arbitrary: m)
  case (Cons e es)
  obtain k v where e: "e = (k, v)" by (cases e)
  have "k \<noteq> []" "CHR ''='' \<notin> set k" and "\<not> obj_has m k"
    using Cons.prems by (auto simp: cursor_map_def e)
  then have "add_entry m (k @ ''='' @ v) = m @ [(k, v)]"
    by (simp add: add_entry_def split_entry_key obj_set_fresh)
  with Cons e show ?case by simp
qed simp

lemma parse_format:
  assumes "cursor_map m"
  shows "parse_composite_cursor (Some (format_composite_cursor m)) = m"
proof (cases "m = []")
  case True
  then show ?thesis by (simp add: parse_composite_cursor_def format_composite_cursor_def)
next
  case False
  let ?ws = "map (\<lambda>(k, v). k @ ''='' @ v) m"
  have keys: "filter (\<lambda>(k, v). k \<noteq> []) m = m"
    using assms by (auto simp: cursor_map_def intro!: filter_True)
  then have fmt: "format_composite_cursor m = join_with [CHR '';''] ?ws"
    by (simp add: format_composite_cursor_def)
  have chars: "c \<in> set (join_with [CHR '';''] ws) \<Longrightarrow> c = CHR '';'' \<or> (\<exists>w \<in> set ws. c \<in> set w)" for c ws
    by (induction "[CHR '';'']" ws rule: join_with.induct) auto
  have plain: "CHR '';'' \<notin> set w \<and> (\<forall>c \<in> set w. \<not> js_space c)" if w: "w \<in> set ?ws" for w
  proof -
    from w obtain k v where kv: "(k, v) \<in> set m" "w = k @ ''='' @ v" by auto
    with assms have "list_all cursor_char k" "list_all cursor_char v" by (auto simp: cursor_map_def)
    then have "\<forall>c \<in> set k \<union> set v. c \<noteq> CHR '';'' \<and> \<not> js_space c"
      by (auto simp: list_all_iff cursor_char_def)
    moreover have "\<not> js_space (CHR ''='')" by (simp add: js_space_def)
    ultimately show ?thesis using kv(2) by auto
  qed
  have semi: "\<not> js_space (CHR '';'')" by (simp add: js_space_def)
  have trim: "js_trim (format_composite_cursor m) = format_composite_cursor m"
    unfolding fmt using chars plain semi by (intro js_trim_id) blast
  have split: "split_on (CHR '';'') (format_composite_cursor m) = ?ws"
    unfolding fmt using False plain by (intro split_join) auto
  obtain k v m' where m: "m = (k, v) # m'" using False by (cases m) auto
  have eq: "CHR ''='' \<in> set (format_composite_cursor m)"
    using fmt m by (cases m') auto
  then have "format_composite_cursor m \<noteq> []" by auto
  then show ?thesis
    using foldl_add_entry [of "[]" m] assms eq by (simp add: parse_composite_cursor_def trim split)
qed


section \<open>Rewriting keeps the payload\<close>

lemma split_on_no_sep: "w \<in> set (split_on c s) \<Longrightarrow> c \<notin> set w"
  by (induction c s arbitrary: w rule: split_on.induct) (auto split: if_splits list.splits)

lemma split_on_chars: "w \<in> set (split_on c s) \<Longrightarrow> set w \<subseteq> set s"
proof (induction s arbitrary: w)
  case (Cons x xs)
  obtain u us where u: "split_on c xs = u # us" by (cases "split_on c xs") auto
  show ?case
  proof (cases "x = c \<or> w \<in> set us")
    case True
    with Cons.prems Cons.IH [of w] u show ?thesis by (auto split: if_splits)
  next
    case False
    with Cons.prems u have "w = x # u" by simp
    with Cons.IH [of u] u show ?thesis by auto
  qed
qed simp

lemma split_lines_no_cr: "CR \<notin> set f \<Longrightarrow> split_lines f = split_on LF f"
proof -
  assume cr: "CR \<notin> set f"
  have "strip_cr w = w" if "w \<in> set (split_on LF f)" for w
    using split_on_chars [OF that] cr by (auto simp: strip_cr_def dest: last_in_set)
  then have "map strip_cr (butlast (split_on LF f)) = butlast (split_on LF f)"
    by (intro map_idI) (auto dest: in_set_butlastD)
  then show ?thesis by (simp add: split_lines_def Let_def)
qed

lemma has_crlf_cr: "has_crlf f \<Longrightarrow> CR \<in> set f"
  by (induction f rule: has_crlf.induct) auto

lemma insert_id_parts:
  obtains a b where "ls = a @ b" and "insert_id ls i = a @ [id_line i] @ b"
proof -
  let ?a = "rev (dropWhile (\<lambda>l. l = []) (rev ls))" and ?b = "rev (takeWhile (\<lambda>l. l = []) (rev ls))"
  have ls: "ls = ?a @ ?b" by (metis rev_append rev_rev_ident takeWhile_dropWhile_id)
  then have "drop (length ?a) ls = ?b" by (metis append_eq_conv_conj)
  with ls show ?thesis by (intro that [of ?a ?b]) (simp_all add: insert_id_def Let_def)
qed

lemma last_id_append: "last_id (as @ bs) = (case last_id bs of None \<Rightarrow> last_id as | Some v \<Rightarrow> Some v)"
  by (induction bs rule: rev_induct) (auto simp: last_id_def split: option.splits)

lemma last_id_no_id: "list_all not_id_line ls \<Longrightarrow> last_id ls = None"
  by (induction ls rule: rev_induct) (auto simp: last_id_def line_id_def not_id_line_def)

lemma line_id_own: "line_id (id_line i) = Some i"
  by (simp add: id_line_def line_id_def id_prefix_def drop_space_def)

lemma last_id_own: "last_id (id_line i # b) = (case last_id b of None \<Rightarrow> Some i | Some v \<Rightarrow> Some v)"
proof -
  have "last_id [id_line i] = Some i" by (simp add: last_id_def line_id_own)
  then show ?thesis using last_id_append [of "[id_line i]" b] by (simp split: option.splits)
qed

lemma rewrite_split:
  assumes "CR \<notin> set f" and "LF \<notin> set i" and "CR \<notin> set i"
  shows "split_lines (rewrite_frame_id f (Some i)) = insert_id (filter not_id_line (split_on LF f)) i"
proof -
  let ?kept = "filter not_id_line (split_on LF f)"
  obtain a b where ab: "?kept = a @ b" "insert_id ?kept i = a @ [id_line i] @ b"
    by (rule insert_id_parts)
  have w: "LF \<notin> set l \<and> CR \<notin> set l" if "l \<in> set (insert_id ?kept i)" for l
  proof -
    have "set ?kept = set a \<union> set b" unfolding ab(1) by simp
    with that ab(2) have "l \<in> set (split_on LF f) \<or> l = id_line i" by auto
    then show ?thesis using assms split_on_no_sep [of l LF f] split_on_chars [of l LF f]
      by (auto simp: id_line_def)
  qed
  have r: "rewrite_frame_id f (Some i) = join_with [LF] (insert_id ?kept i)"
    using assms(1) has_crlf_cr by (auto simp: rewrite_frame_id_def eol_of_def split_eol_def Let_def)
  have "CR \<notin> set (join_with [LF] ls)" if "\<And>l. l \<in> set ls \<Longrightarrow> CR \<notin> set l" for ls
    using that by (induction "[LF]" ls rule: join_with.induct) auto
  then have "CR \<notin> set (rewrite_frame_id f (Some i))" using w r by auto
  then have "split_lines (rewrite_frame_id f (Some i)) = split_on LF (join_with [LF] (insert_id ?kept i))"
    by (simp add: split_lines_no_cr r)
  also have "\<dots> = insert_id ?kept i"
    using w ab by (intro split_join) auto
  finally show ?thesis .
qed

lemma rewrite_id:
  assumes "CR \<notin> set f" and "LF \<notin> set i" and "CR \<notin> set i" and "i \<noteq> []"
  shows "frame_raw_id (rewrite_frame_id f (Some i)) = Some i
    \<and> filter not_id_line (split_lines (rewrite_frame_id f (Some i))) = filter not_id_line (split_lines f)"
proof -
  let ?kept = "filter not_id_line (split_on LF f)"
  obtain a b where ab: "?kept = a @ b" "insert_id ?kept i = a @ [id_line i] @ b"
    by (rule insert_id_parts)
  have all: "list_all not_id_line (a @ b)" unfolding ab(1) [symmetric] by (simp add: list_all_iff)
  then have "last_id b = None" by (intro last_id_no_id) simp
  then have l: "last_id (insert_id ?kept i) = Some i"
    unfolding ab(2) last_id_append append_Cons append_Nil last_id_own by simp
  have "\<not> not_id_line (id_line i)" by (simp add: id_line_def not_id_line_def id_prefix_def)
  moreover have "filter not_id_line (a @ b) = a @ b" using all by (simp add: list_all_iff)
  ultimately have "filter not_id_line (insert_id ?kept i) = ?kept"
    unfolding ab(2) by (simp add: ab(1))
  then show ?thesis
    using l assms(4) by (simp add: frame_raw_id_def rewrite_split [OF assms(1-3)] split_lines_no_cr [OF assms(1)])
qed

section \<open>Properties\<close>

text \<open>The composite cursor round-trips: for every per-namespace resume map with distinct non-empty
  keys free of the separators, parsing the formatted cursor gives the map back, in order, and
  formatting what was parsed gives the same text.\<close>

theorem composite_cursor_round_trips:
  assumes "distinct (map fst m)"
    and "\<forall>(k, v) \<in> set m. k \<noteq> [] \<and> CHR ''='' \<notin> set k \<and> list_all cursor_char k \<and> list_all cursor_char v"
  shows "parse_composite_cursor (Some (format_composite_cursor m)) = m
    \<and> format_composite_cursor (parse_composite_cursor (Some (format_composite_cursor m)))
        = format_composite_cursor m"
  using parse_format [of m] assms by (simp add: cursor_map_def)

theorem composite_cursor_round_trips_witness:
  "parse_composite_cursor (Some (format_composite_cursor [(''local'', ''e1:5''), (''studio'', ''a=42'')]))
     = [(''local'', ''e1:5''), (''studio'', ''a=42'')]"
  using composite_cursor_round_trips [of "[(''local'', ''e1:5''), (''studio'', ''a=42'')]"]
  by (simp add: cursor_char_def js_space_def)

text \<open>The relay keeps a frame's payload: for a frame with LF line endings, stamping an id replaces
  the frame's id lines by exactly that id and leaves every other line, in order, as it was.\<close>

theorem relay_keeps_the_payload:
  assumes "CR \<notin> set f" and "LF \<notin> set i" and "CR \<notin> set i" and "i \<noteq> []"
  shows "frame_raw_id (rewrite_frame_id f (Some i)) = Some i
    \<and> filter not_id_line (split_lines (rewrite_frame_id f (Some i))) = filter not_id_line (split_lines f)"
  by (rule rewrite_id [OF assms])

theorem relay_keeps_the_payload_witness:
  "frame_raw_id (rewrite_frame_id (''id: 5'' @ [LF] @ ''data: x'' @ [LF, LF]) (Some ''local=5'')) = Some ''local=5''"
  using relay_keeps_the_payload [of "''id: 5'' @ [LF] @ ''data: x'' @ [LF, LF]" "''local=5''"] by simp

definition mixed_frame :: string where
  "mixed_frame = ''id: 5'' @ [LF] @ ''data: x'' @ [CR, LF, CR, LF]"

text \<open>A frame that mixes the two line endings loses its data in the relay: the splitter accepts any
  mix as one whole frame, but the rewrite cuts lines at CRLF only, so a bare LF after the id line
  joins the data to it and both are dropped.\<close>

theorem mixed_line_endings_lose_the_data:
  "snd (push new_splitter mixed_frame) = [mixed_frame] \<and> is_data_frame mixed_frame
   \<and> frame_raw_id mixed_frame = Some ''5''
   \<and> rewrite_frame_id mixed_frame (Some i) = ''id: '' @ i @ [CR, LF, CR, LF]"
proof -
  have "snd (push new_splitter mixed_frame) = [mixed_frame]"
    by (simp add: mixed_frame_def push_def new_splitter_def split_loop.simps char_at_def slice_def)
  moreover have "is_data_frame mixed_frame" "frame_raw_id mixed_frame = Some ''5''"
    by (simp_all add: mixed_frame_def is_data_frame_def frame_raw_id_def split_lines_def strip_cr_def
        is_data_line_def data_prefix_def last_id_def line_id_def id_prefix_def drop_space_def Let_def)
  moreover have "rewrite_frame_id mixed_frame (Some i) = ''id: '' @ i @ [CR, LF, CR, LF]"
    by (simp add: mixed_frame_def rewrite_frame_id_def eol_of_def split_eol_def not_id_line_def
        id_prefix_def insert_id_def id_line_def Let_def)
  ultimately show ?thesis by blast
qed

end
