(* ===== verification/Session_Resume.thy ===== *)
theory Session_Resume
  imports Sse_Frames
begin

text \<open>
  Lossless reconnect of one session's event stream
  (\<open>packages/extension/src/amicode_service/session_event_resume.ts\<close>): the per-connection filter
  that drops the replayed boundary, and the store of the last sequence number delivered per
  session. Sequence numbers are integers: of the numerals \<open>Number\<close> accepts, the decimal integers
  and the empty text are read here, fractions, exponents and radix prefixes are not.
\<close>

section \<open>Positions that only move forward\<close>

text \<open>The contract of a table of stream positions: advancing one key stores the new position or
  keeps a later one, and touches no other key.\<close>

locale position_table =
  fixes pos :: "'s \<Rightarrow> string \<Rightarrow> 'p option"
    and advance :: "string \<Rightarrow> 'p \<Rightarrow> 's \<Rightarrow> 's"
    and before :: "'p \<Rightarrow> 'p \<Rightarrow> bool"
  assumes advance_other: "k' \<noteq> k \<Longrightarrow> pos (advance k p s) k' = pos s k'"
    and advance_self: "pos (advance k p s) k =
      (case pos s k of None \<Rightarrow> Some p | Some q \<Rightarrow> if before p q then Some q else Some p)"
    and before_irrefl: "\<not> before p p"
begin

lemma never_back:
  "pos s k = Some q \<Longrightarrow> pos (advance k' p s) k = Some q' \<Longrightarrow> \<not> before q' q"
  by (cases "k' = k") (auto simp: advance_self advance_other before_irrefl split: if_splits)

lemma fold_other: "k' \<noteq> k \<Longrightarrow> pos (foldl (\<lambda>s p. advance k p s) s ps) k' = pos s k'"
  by (induction ps arbitrary: s) (auto simp: advance_other)

lemma advance_set: "pos (advance k p s) k \<noteq> None"
  by (auto simp: advance_self split: option.splits)

end

section \<open>The sequence number of a block\<close>

definition js_integer :: "string \<Rightarrow> int option" where
  "js_integer s =
     (let t = js_trim s in
      if t = [] then Some 0
      else if hd t = CHR ''-'' \<and> tl t \<noteq> [] \<and> list_all is_digit (tl t)
        then Some (- int (nat_of_digits 0 (tl t)))
      else if hd t = CHR ''+'' \<and> tl t \<noteq> [] \<and> list_all is_digit (tl t)
        then Some (int (nat_of_digits 0 (tl t)))
      else if list_all is_digit t then Some (int (nat_of_digits 0 t))
      else None)"

definition line_seq :: "string \<Rightarrow> int option" where
  "line_seq l = (if starts_with l id_prefix then js_integer (drop 3 l) else None)"

definition block_seq :: "string \<Rightarrow> int option" where
  "block_seq block =
     foldl (\<lambda>r l. case line_seq l of None \<Rightarrow> r | Some v \<Rightarrow> Some v) None (split_lines block)"

section \<open>The store of delivered positions\<close>

type_synonym delivered = "(string \<times> int) list"

definition resume_cursor :: "delivered \<Rightarrow> string \<Rightarrow> int option" where
  "resume_cursor d session = obj_get d session"

definition reset_cursors :: "delivered \<Rightarrow> delivered" where
  "reset_cursors d = []"

definition record_seq :: "string \<Rightarrow> int \<Rightarrow> delivered \<Rightarrow> delivered" where
  "record_seq session sq d =
     (case obj_get d session of
        None \<Rightarrow> obj_set d session sq
      | Some prev \<Rightarrow> if sq > prev then obj_set d session sq else d)"

interpretation delivered: position_table resume_cursor record_seq "(\<lambda>p q. p < q)"
  by unfold_locales (auto simp: resume_cursor_def record_seq_def split: option.splits)

section \<open>The filter\<close>

text \<open>Per connection: the scan of the frame splitter and the resume threshold.\<close>

record stream_filter =
  scan :: splitter
  resume_from :: "int option"

definition new_filter :: "int option \<Rightarrow> stream_filter" where
  "new_filter threshold = \<lparr>scan = new_splitter, resume_from = threshold\<rparr>"

text \<open>One whole frame: dropped, or forwarded with its number reported.\<close>

definition forward_frame ::
  "string \<Rightarrow> int option \<Rightarrow> string \<Rightarrow> delivered \<times> string list \<Rightarrow> delivered \<times> string list" where
  "forward_frame session threshold frame do =
     (let (d, out) = do in
      case block_seq frame of
        None \<Rightarrow> (d, out @ [frame])
      | Some sq \<Rightarrow>
          if (case threshold of None \<Rightarrow> False | Some c \<Rightarrow> sq \<le> c) then (d, out)
          else (record_seq session sq d, out @ [frame]))"

definition filter_push ::
  "string \<Rightarrow> stream_filter \<Rightarrow> delivered \<Rightarrow> string \<Rightarrow> stream_filter \<times> delivered \<times> string" where
  "filter_push session fl d chunk =
     (let (s', frames) = push (scan fl) chunk;
          (d', out) = foldl (\<lambda>do frame. forward_frame session (resume_from fl) frame do) (d, []) frames
      in (fl\<lparr>scan := s'\<rparr>, d', concat out))"

definition filter_flush :: "stream_filter \<Rightarrow> stream_filter \<times> string" where
  "filter_flush fl = (fl\<lparr>scan := new_splitter\<rparr>, concat (parts (scan fl)))"

section \<open>The plan\<close>

definition api_prefix :: string where "api_prefix = ''/api/session/''"
definition event_suffix :: string where "event_suffix = ''/event''"

text \<open>\<open>^/api/session/([^/]+)/event$\<close>.\<close>

definition match_session_event_path :: "string \<Rightarrow> string option" where
  "match_session_event_path path =
     (if starts_with path api_prefix
      then (let r = drop (length api_prefix) path;
                i = takeWhile (\<lambda>c. c \<noteq> CHR ''/'') r
            in if i \<noteq> [] \<and> drop (length i) r = event_suffix then Some i else None)
      else None)"

record resume_plan =
  plan_session :: string
  after_to_inject :: "string option"
  plan_filter :: stream_filter

definition plan_resume :: "delivered \<Rightarrow> string \<Rightarrow> string option \<Rightarrow> resume_plan option" where
  "plan_resume d path after =
     (case match_session_event_path path of
        None \<Rightarrow> None
      | Some session \<Rightarrow>
          (let explicit = (case after of None \<Rightarrow> None | Some a \<Rightarrow> js_integer a);
               cursor = obj_get d session
           in Some \<lparr>plan_session = session,
                    after_to_inject = (case (after, cursor) of
                       (None, Some c) \<Rightarrow> Some (string_of_int c) | _ \<Rightarrow> None),
                    plan_filter = new_filter (case explicit of None \<Rightarrow> cursor | Some e \<Rightarrow> Some e)\<rparr>))"

section \<open>A connection\<close>

text \<open>The chunks of one connection, with the bytes forwarded to the client.\<close>

fun run_connection ::
  "string \<Rightarrow> stream_filter \<Rightarrow> delivered \<Rightarrow> string list \<Rightarrow> stream_filter \<times> delivered \<times> string" where
  "run_connection session fl d [] = (fl, d, [])"
| "run_connection session fl d (c # cs) =
     (let (fl1, d1, o1) = filter_push session fl d c;
          (fl2, d2, o2) = run_connection session fl1 d1 cs
      in (fl2, d2, o1 @ o2))"

definition passes :: "int option \<Rightarrow> string \<Rightarrow> bool" where
  "passes threshold frame \<longleftrightarrow>
     (case (block_seq frame, threshold) of (Some sq, Some c) \<Rightarrow> c < sq | _ \<Rightarrow> True)"

definition note_frame :: "string \<Rightarrow> delivered \<Rightarrow> string \<Rightarrow> delivered" where
  "note_frame session d frame = (case block_seq frame of None \<Rightarrow> d | Some sq \<Rightarrow> record_seq session sq d)"

lemma forward_frame_eq:
  "forward_frame session threshold frame (d, out) =
     (if passes threshold frame then (note_frame session d frame, out @ [frame]) else (d, out))"
  by (auto simp: forward_frame_def passes_def note_frame_def split: option.splits)

lemma forward_frames_eq:
  "foldl (\<lambda>do frame. forward_frame session threshold frame do) (d, out) frames =
     (foldl (note_frame session) d (filter (passes threshold) frames), out @ filter (passes threshold) frames)"
  by (induction frames arbitrary: d out) (simp_all add: forward_frame_eq)

lemma filter_push_eq:
  "filter_push session fl d chunk =
     (let (s', frames) = push (scan fl) chunk; kept = filter (passes (resume_from fl)) frames
      in (fl\<lparr>scan := s'\<rparr>, foldl (note_frame session) d kept, concat kept))"
  by (simp add: filter_push_def forward_frames_eq case_prod_beta Let_def)

lemma run_connection_eq:
  "run_connection session fl d cs =
     (let (s', frames) = feed push (scan fl) cs; kept = filter (passes (resume_from fl)) frames
      in (fl\<lparr>scan := s'\<rparr>, foldl (note_frame session) d kept, concat kept))"
  by (induction cs arbitrary: fl d) (simp_all add: filter_push_eq case_prod_beta Let_def)

lemma note_frames_cursor_other:
  "session' \<noteq> session \<Longrightarrow>
   resume_cursor (foldl (note_frame session) d frames) session' = resume_cursor d session'"
  by (induction frames arbitrary: d)
    (auto simp: note_frame_def delivered.advance_other split: option.splits)

text \<open>The whole frames of a stream, read by the reference.\<close>

definition frames_of :: "string \<Rightarrow> string list" where
  "frames_of s = fst (read_chars [] s)"

lemma feed_new: "snd (feed push new_splitter cs) = frames_of (concat cs)"
proof -
  obtain s fs where f: "feed push new_splitter cs = (s, fs)" by (metis prod.exhaust)
  from splitter.feed_reads [OF new_splitter_partial f] obtain b where "read_chars [] (concat cs) = (fs, b)"
    by blast
  with f show ?thesis by (simp add: frames_of_def)
qed

lemma connection_output:
  "snd (snd (run_connection session (new_filter threshold) d cs)) =
     concat (filter (passes threshold) (frames_of (concat cs)))
   \<and> fst (snd (run_connection session (new_filter threshold) d cs)) =
     foldl (note_frame session) d (filter (passes threshold) (frames_of (concat cs)))"
  using feed_new [of cs] by (simp add: run_connection_eq new_filter_def case_prod_beta Let_def)


section \<open>Whole frames read back\<close>

lemma read_whole: "whole_frame f \<Longrightarrow> read_chars [] (f @ s) = (f # fst (read_chars [] s), snd (read_chars [] s))"
proof -
  assume w: "whole_frame f"
  then have ne: "f \<noteq> []" by (auto simp: whole_frame_def ends_frame_def)
  have f: "f = butlast f @ [last f]" using ne by simp
  have "\<not> ends_frame ([] @ take (Suc j) (butlast f))" if "j < length (butlast f)" for j
  proof -
    have "f = take (Suc j) (butlast f) @ (drop (Suc j) (butlast f) @ [last f])"
      using f by (metis append_assoc append_take_drop_id)
    with w show ?thesis unfolding whole_frame_def by (metis append_Nil append_is_Nil_conv not_Cons_self2)
  qed
  then have "read_chars [] (butlast f) = ([], butlast f)" using read_chars_quiet [of "butlast f" "[]"] by simp
  moreover have "read_chars (butlast f) (last f # s) = (f # fst (read_chars [] s), snd (read_chars [] s))"
    using w f ne by (simp add: whole_frame_def Let_def case_prod_beta)
  ultimately have "read_chars [] (butlast f @ last f # s) = (f # fst (read_chars [] s), snd (read_chars [] s))"
    by (simp add: read_chars_append)
  moreover have "butlast f @ last f # s = f @ s" using ne by simp
  ultimately show ?thesis by simp
qed

lemma frames_of_whole:
  "\<forall>f \<in> set fs. whole_frame f \<Longrightarrow> unfinished q \<Longrightarrow> frames_of (concat fs @ q) = fs"
proof (induction fs)
  case Nil
  then have "read_chars [] q = ([], q)"
    using read_chars_quiet [of q "[]"] by (metis append_Nil append_take_drop_id unfinished_def)
  then show ?case by (simp add: frames_of_def)
next
  case (Cons f fs)
  then show ?case by (simp add: frames_of_def read_whole)
qed

section \<open>A stream of increasing numbers\<close>

definition increasing :: "string list \<Rightarrow> bool" where
  "increasing fs \<longleftrightarrow> (\<forall>f \<in> set fs. block_seq f \<noteq> None)
     \<and> sorted_wrt (\<lambda>f g. the (block_seq f) < the (block_seq g)) fs"

lemma increasing_append:
  "increasing (as @ bs) \<longleftrightarrow> increasing as \<and> increasing bs
     \<and> (\<forall>f \<in> set as. \<forall>g \<in> set bs. the (block_seq f) < the (block_seq g))"
  by (auto simp: increasing_def sorted_wrt_append)

lemma increasing_cursor:
  assumes "increasing fs" and "fs \<noteq> []" and "resume_cursor d session = None"
  shows "resume_cursor (foldl (note_frame session) d fs) session = Some (the (block_seq (last fs)))"
  using assms(1,2)
proof (induction fs rule: rev_induct)
  case (snoc f fs)
  from snoc.prems obtain sq where sq: "block_seq f = Some sq"
    by (auto simp: increasing_append increasing_def [of "[f]"])
  show ?case
  proof (cases "fs = []")
    case True
    with sq assms(3) show ?thesis by (simp add: note_frame_def delivered.advance_self)
  next
    case False
    with snoc have "resume_cursor (foldl (note_frame session) d fs) session = Some (the (block_seq (last fs)))"
      by (simp add: increasing_append)
    moreover have "the (block_seq (last fs)) < sq"
      using snoc.prems False sq by (simp add: increasing_append)
    moreover have "note_frame session e f = record_seq session sq e" for e
      by (simp add: note_frame_def sq)
    ultimately show ?thesis by (simp add: sq delivered.advance_self)
  qed
qed simp

lemma passes_split:
  assumes "increasing fs" and "0 < n" and "n \<le> length fs" and "m \<le> n"
  shows "filter (passes (Some (the (block_seq (last (take n fs)))))) (drop m fs) = drop n fs"
proof -
  let ?c = "the (block_seq (last (take n fs)))"
  have inc: "increasing (take n fs @ drop n fs)" using assms(1) by simp
  have ne: "take n fs \<noteq> []" using assms(2,3) by auto
  then obtain init x where tl: "take n fs = init @ [x]" by (cases "take n fs" rule: rev_cases) auto
  have low: "the (block_seq f) \<le> ?c \<and> block_seq f \<noteq> None" if "f \<in> set (take n fs)" for f
  proof -
    have "increasing (init @ [x])" using inc unfolding increasing_append tl by blast
    with that show ?thesis unfolding tl by (auto simp: increasing_def sorted_wrt_append less_imp_le)
  qed
  have high: "?c < the (block_seq f) \<and> block_seq f \<noteq> None" if "f \<in> set (drop n fs)" for f
  proof -
    have "\<forall>f \<in> set (take n fs). \<forall>g \<in> set (drop n fs). the (block_seq f) < the (block_seq g)"
      and "increasing (drop n fs)"
      using inc unfolding increasing_append by blast+
    with that last_in_set [OF ne] show ?thesis unfolding increasing_def by blast
  qed
  have "drop m fs = drop m (take n fs) @ drop n fs"
    using assms(4) by (metis append_take_drop_id drop_append drop_0 diff_is_0_eq' length_take
        min.absorb2 assms(3))
  moreover have "filter (passes (Some ?c)) (drop m (take n fs)) = []"
    using low by (fastforce simp: filter_empty_conv passes_def dest: in_set_dropD)
  moreover have "filter (passes (Some ?c)) (drop n fs) = drop n fs"
    using high by (fastforce simp: passes_def intro: filter_True)
  ultimately show ?thesis by simp
qed


lemma reconnect:
  assumes "\<forall>f \<in> set fs. whole_frame f \<and> block_seq f \<noteq> None"
    and "sorted_wrt (\<lambda>f g. the (block_seq f) < the (block_seq g)) fs"
    and "n \<le> length fs" and "m \<le> n"
    and "resume_cursor d session = None"
    and "concat cs1 = concat (take n fs) @ stub" and "unfinished stub" and "concat cs2 = concat (drop m fs)"
    and "match_session_event_path path = Some session"
    and "plan_resume d path None = Some plan1"
    and "run_connection session (plan_filter plan1) d cs1 = (fl1, d1, out1)"
    and "plan_resume d1 path None = Some plan2"
    and "run_connection session (plan_filter plan2) d1 cs2 = (fl2, d2, out2)"
  shows "out1 @ out2 = concat fs
    \<and> (0 < n \<longrightarrow> after_to_inject plan2 = Some (string_of_int (the (block_seq (fs ! (n - 1))))))"
proof -
  have inc: "increasing fs" using assms(1,2) by (auto simp: increasing_def)
  have all: "filter (passes None) xs = xs" for xs
    by (rule filter_True) (auto simp: passes_def split: option.splits)
  have p1: "plan_filter plan1 = new_filter None"
    using assms(5,9,10) by (auto simp: plan_resume_def resume_cursor_def Let_def)
  have f1: "frames_of (concat cs1) = take n fs"
    unfolding assms(6) using assms(1) by (intro frames_of_whole [OF _ assms(7)]) (auto dest: in_set_takeD)
  have o1: "out1 = concat (take n fs)" and d1: "d1 = foldl (note_frame session) d (take n fs)"
    using connection_output [of session None d cs1] assms(11) by (simp_all add: p1 f1 all)
  have p2: "plan_filter plan2 = new_filter (resume_cursor d1 session)"
    and inj: "after_to_inject plan2 = map_option string_of_int (resume_cursor d1 session)"
    using assms(9,12) by (auto simp: plan_resume_def resume_cursor_def Let_def split: option.splits)
  have f2: "frames_of (concat cs2) = drop m fs"
    using frames_of_whole [of "drop m fs" "[]"] assms(1,8) by (auto dest: in_set_dropD)
  have o2: "out2 = concat (filter (passes (resume_cursor d1 session)) (drop m fs))"
    using connection_output [of session "resume_cursor d1 session" d1 cs2] assms(13) by (simp add: p2 f2)
  show ?thesis
  proof (cases "n = 0")
    case True
    with assms(4,5) d1 o1 o2 show ?thesis by (simp add: all)
  next
    case False
    with assms(3) have ne: "take n fs \<noteq> []" by auto
    have it: "increasing (take n fs)"
      using inc increasing_append [of "take n fs" "drop n fs"] by simp
    have c: "resume_cursor d1 session = Some (the (block_seq (last (take n fs))))"
      unfolding d1 by (rule increasing_cursor [OF it ne assms(5)])
    have "out2 = concat (drop n fs)"
      unfolding o2 c using False by (subst passes_split [OF inc _ assms(3,4)]) simp_all
    then have "out1 @ out2 = concat (take n fs @ drop n fs)" by (simp add: o1 del: append_take_drop_id)
    moreover have "last (take n fs) = fs ! (n - 1)"
      using False assms(3) ne by (simp add: last_conv_nth)
    ultimately show ?thesis using inj c by simp
  qed
qed

section \<open>Properties\<close>


definition demo_block :: "string \<Rightarrow> string" where
  "demo_block i = ''id: '' @ i @ [LF] @ ''data: x'' @ [LF, LF]"

lemma demo_blocks:
  "whole_frame (demo_block ''1'')" "whole_frame (demo_block ''2'')"
  "block_seq (demo_block ''1'') = Some 1" "block_seq (demo_block ''2'') = Some 2"
proof -
  have w: "whole_frame f" if "read_chars [] f = ([f], [])" for f
    using read_chars_whole [OF unfinished_Nil, of f] that by simp
  show "whole_frame (demo_block ''1'')" "whole_frame (demo_block ''2'')"
    by (rule w; simp add: demo_block_def ends_frame_nth Let_def)+
  show "block_seq (demo_block ''1'') = Some 1" "block_seq (demo_block ''2'') = Some 2"
    by (simp_all add: demo_block_def block_seq_def split_lines_def strip_cr_def line_seq_def id_prefix_def
        js_integer_def js_trim_def js_space_def digit_value_def Let_def)
qed


text \<open>Cursors only move forward, session by session: whatever a connection of one session reads,
  the cursor of every other session stays, and its own never goes back.\<close>

theorem session_cursors_only_advance:
  assumes "run_connection session fl d cs = (fl', d', out)" and "resume_cursor d s = Some q"
  shows "\<exists>q'. resume_cursor d' s = Some q' \<and> q \<le> q' \<and> (s \<noteq> session \<longrightarrow> q' = q)"
proof -
  obtain frames where d': "d' = foldl (note_frame session) d frames"
    using assms(1) by (auto simp: run_connection_eq Let_def case_prod_beta)
  have "\<exists>q'. resume_cursor (foldl (note_frame session) d frames) session = Some q' \<and> q \<le> q'"
    if "resume_cursor d session = Some q" for d q
    using that
  proof (induction frames arbitrary: d q)
    case (Cons f frames)
    have "\<exists>q1. resume_cursor (note_frame session d f) session = Some q1 \<and> q \<le> q1"
      using Cons.prems delivered.advance_self [of session _ d]
      by (cases "block_seq f") (auto simp: note_frame_def)
    then obtain q1 where q1: "resume_cursor (note_frame session d f) session = Some q1" "q \<le> q1" by blast
    from Cons.IH [OF q1(1)] q1(2) show ?case by auto
  qed simp
  with assms(2) note_frames_cursor_other [of s session d frames] show ?thesis
    unfolding d' by (cases "s = session") auto
qed

theorem session_cursors_only_advance_witness:
  "\<exists>q'. resume_cursor (fst (snd (run_connection ''s1'' (new_filter (Some 7)) [(''s1'', 7), (''s2'', 3)]
       [demo_block ''2'']))) ''s2'' = Some q' \<and> q' = 3"
proof -
  obtain fl' d' out where r: "run_connection ''s1'' (new_filter (Some 7)) [(''s1'', 7), (''s2'', 3)]
      [demo_block ''2''] = (fl', d', out)" by (metis prod.exhaust)
  from session_cursors_only_advance [OF r, of "''s2''" 3] r show ?thesis by (auto simp: resume_cursor_def)
qed

text \<open>An event with an empty id line is taken for number zero: on a resumed connection whose cursor
  is not negative the filter drops it, although it carries data and no number.\<close>

theorem empty_id_events_are_dropped:
  "let f = ''id:'' @ [LF] @ ''data: x'' @ [LF, LF] in
   frame_raw_id f = None \<and> is_data_frame f \<and> block_seq f = Some 0
   \<and> (0 \<le> c \<longrightarrow> snd (snd (filter_push session (new_filter (Some c)) d f)) = [])
   \<and> snd (snd (filter_push session (new_filter None) d f)) = f"
proof -
  let ?f = "''id:'' @ [LF] @ ''data: x'' @ [LF, LF]"
  have sq: "block_seq ?f = Some 0"
    by (simp add: block_seq_def split_lines_def strip_cr_def line_seq_def id_prefix_def js_integer_def Let_def)
  have "push new_splitter ?f = (\<lparr>parts = [], tail = []\<rparr>, [?f])"
    by (simp add: push_def new_splitter_def split_loop.simps char_at_def slice_def)
  then have o: "snd (snd (filter_push session (new_filter th) d ?f)) = concat (filter (passes th) [?f])" for th
    unfolding filter_push_eq new_filter_def by (simp only: Let_def case_prod_beta fst_conv snd_conv stream_filter.simps)
  have "frame_raw_id ?f = None" "is_data_frame ?f"
    by (simp_all add: is_data_frame_def frame_raw_id_def split_lines_def strip_cr_def
        is_data_line_def data_prefix_def last_id_def line_id_def id_prefix_def drop_space_def Let_def)
  moreover have "0 \<le> c \<longrightarrow> \<not> passes (Some c) ?f" and "passes None ?f"
    unfolding passes_def sq by simp_all
  ultimately show ?thesis using sq unfolding Let_def o by simp
qed

theorem empty_id_events_are_dropped_witness:
  "snd (snd (filter_push ''s1'' (new_filter (Some 3)) [] (''id:'' @ [LF] @ ''data: x'' @ [LF, LF]))) = []"
  using empty_id_events_are_dropped [of 3 "''s1''" "[]"] unfolding Let_def by simp

end
