(* ===== verification/Sse_Fanin.thy ===== *)
theory Sse_Fanin
  imports Sse_Frames Session_Resume Canonical_Json
begin

text \<open>
  The fan-in aggregator (\<open>packages/extension/src/amicode_service/sse_fanin_aggregator.ts\<close>, class
  \<open>SseFanInAggregator\<close>): the synchronous core that routes every arm's frames onto the one
  downstream response. The sink answers the \<open>n\<close>-th write by \<open>accepts n\<close>; what was written is the
  field \<open>out\<close>. \<open>handed\<close> records which raw frame of which arm each data write carries.
\<close>

section \<open>State\<close>

datatype pending_entry = PData string string | PControl string

record arm_traffic =
  tr_frames :: nat
  tr_bytes :: nat
  tr_largest :: nat
  tr_last_at :: "int option"
  tr_drops :: nat
  tr_gaps :: nat

definition no_traffic :: arm_traffic where
  "no_traffic = \<lparr>tr_frames = 0, tr_bytes = 0, tr_largest = 0, tr_last_at = None, tr_drops = 0, tr_gaps = 0\<rparr>"

datatype gap_cause = GapReopen | GapOverflow | GapReset

datatype observation = SawOverflow string nat | SawGap "string list" gap_cause

datatype reopen_verdict = VOpen | VResume | VGap | VSever

datatype ingest_verdict = IngestOk | IngestSever

record fanin_options =
  accepts :: "nat \<Rightarrow> bool"
  buffer_bound :: nat
  focus_provider :: "(string \<times> json) list option option"

record aggregator =
  composite :: "(string \<times> string) list"
  peer_arms :: "string list"
  unavailable :: "string list"
  flowing :: bool
  pending :: "pending_entry list"
  dropped_count :: "(string \<times> nat) list"
  ever_delivered :: "string list"
  resume_at :: "(string \<times> string) list"
  resuming :: "string list"
  verbatim_buffer :: "string list"
  traffic_by_arm :: "(string \<times> arm_traffic) list"
  backpressure_signals :: nat
  observed :: "observation list"
  out :: "string list"
  handed :: "(string \<times> string) list"

definition new_aggregator :: aggregator where
  "new_aggregator =
     \<lparr>composite = [], peer_arms = [], unavailable = [], flowing = True, pending = [], dropped_count = [],
      ever_delivered = [], resume_at = [], resuming = [], verbatim_buffer = [], traffic_by_arm = [],
      backpressure_signals = 0, observed = [], out = [], handed = []\<rparr>"

section \<open>Frames of the relay's own\<close>

definition quoted :: "string \<Rightarrow> string" where
  "quoted s = [CHR 0x22] @ s @ [CHR 0x22]"

definition gap_frame :: "string list \<Rightarrow> string" where
  "gap_frame namespaces =
     ''event: amicode.sync.gap'' @ [LF] @ ''data: {'' @ quoted ''type'' @ '':'' @ quoted ''amicode.sync.gap''
     @ '','' @ quoted ''namespaces'' @ '':['' @ join_with '','' (map json_quote namespaces) @ '']}'' @ [LF, LF]"

text \<open>\<open>JSON.stringify({ type, ...snapshot })\<close>: the entries in order, undefined ones left out.\<close>

definition focus_frame :: "(string \<times> json) list option \<Rightarrow> string" where
  "focus_frame snapshot =
     (let fs = or_else snapshot [(''isHome'', JBool True), (''absent'', JBool False), (''empty'', JBool True)]
      in ''event: amicode.fleet.focus'' @ [LF] @ ''data: ''
         @ render (JObj ((''type'', JStr ''amicode.fleet.focus'') # filter (\<lambda>(k, v). v \<noteq> JUndefined) fs))
         @ [LF, LF])"

section \<open>Writing\<close>

text \<open>\<open>sink.write\<close> and \<open>flush\<close>; a refusal while flowing stops the flow and signals the driver.\<close>

definition sink_write :: "fanin_options \<Rightarrow> string \<Rightarrow> aggregator \<Rightarrow> aggregator" where
  "sink_write opts chunk a =
     (let ok = accepts opts (length (out a)); a1 = a\<lparr>out := out a @ [chunk]\<rparr>
      in if \<not> ok \<and> flowing a1
         then a1\<lparr>flowing := False, backpressure_signals := Suc (backpressure_signals a1)\<rparr> else a1)"

definition write_control :: "fanin_options \<Rightarrow> string \<Rightarrow> aggregator \<Rightarrow> aggregator" where
  "write_control opts frame a =
     (if \<not> flowing a then a\<lparr>pending := pending a @ [PControl frame]\<rparr> else sink_write opts frame a)"

section \<open>Positions\<close>

definition engine_before :: "string \<Rightarrow> string \<Rightarrow> bool" where
  "engine_before p q \<longleftrightarrow>
     (case (parse_engine_id (Some p), parse_engine_id (Some q)) of
        (Some n, Some v) \<Rightarrow> ep_epoch n = ep_epoch v \<and> ep_seq n < ep_seq v
      | _ \<Rightarrow> False)"

definition cursor_for :: "aggregator \<Rightarrow> string \<Rightarrow> string option" where
  "cursor_for a namespace = obj_get (resume_at a) namespace"

definition advance_resume :: "string \<Rightarrow> string \<Rightarrow> aggregator \<Rightarrow> aggregator" where
  "advance_resume namespace raw_id a =
     (case obj_get (resume_at a) namespace of
        Some prev \<Rightarrow>
          (if engine_before raw_id prev then a
           else a\<lparr>resume_at := obj_set (resume_at a) namespace raw_id\<rparr>)
      | None \<Rightarrow> a\<lparr>resume_at := obj_set (resume_at a) namespace raw_id\<rparr>)"

interpretation fanin_resume: position_table cursor_for advance_resume engine_before
  by unfold_locales
    (auto simp: cursor_for_def advance_resume_def engine_before_def split: option.splits)

definition cursor :: "aggregator \<Rightarrow> string" where
  "cursor a = format_composite_cursor (composite a)"

section \<open>The census\<close>

definition traffic :: "aggregator \<Rightarrow> string \<Rightarrow> arm_traffic" where
  "traffic a namespace = or_else (obj_get (traffic_by_arm a) namespace) no_traffic"

definition set_traffic :: "string \<Rightarrow> (arm_traffic \<Rightarrow> arm_traffic) \<Rightarrow> aggregator \<Rightarrow> aggregator" where
  "set_traffic namespace g a =
     a\<lparr>traffic_by_arm := obj_set (traffic_by_arm a) namespace (g (traffic a namespace))\<rparr>"

definition count_frame :: "string \<Rightarrow> string \<Rightarrow> int \<Rightarrow> aggregator \<Rightarrow> aggregator" where
  "count_frame namespace f now =
     set_traffic namespace
       (\<lambda>t. t\<lparr>tr_frames := Suc (tr_frames t), tr_bytes := tr_bytes t + length f,
               tr_largest := (if length f > tr_largest t then length f else tr_largest t),
               tr_last_at := Some now\<rparr>)"

definition note_gap :: "string list \<Rightarrow> gap_cause \<Rightarrow> aggregator \<Rightarrow> aggregator" where
  "note_gap namespaces cause a =
     (let a1 = foldl (\<lambda>a ns. set_traffic ns (\<lambda>t. t\<lparr>tr_gaps := Suc (tr_gaps t)\<rparr>) a) a namespaces
      in a1\<lparr>observed := observed a1 @ [SawGap namespaces cause]\<rparr>)"

section \<open>Delivering and queueing\<close>

definition deliver :: "fanin_options \<Rightarrow> string \<Rightarrow> string \<Rightarrow> aggregator \<Rightarrow> aggregator" where
  "deliver opts namespace f a =
     (let a1 = (case frame_raw_id f of
                  None \<Rightarrow> a
                | Some i \<Rightarrow> advance_resume namespace i (a\<lparr>composite := obj_set (composite a) namespace i\<rparr>));
          wire = rewrite_frame_id f (Some (format_composite_cursor (composite a1)))
      in sink_write opts wire (a1\<lparr>handed := handed a1 @ [(namespace, f)]\<rparr>))"

definition live_entries :: "string \<Rightarrow> pending_entry list \<Rightarrow> nat" where
  "live_entries namespace ps =
     length (filter (\<lambda>e. case e of PData ns f \<Rightarrow> ns = namespace | PControl f \<Rightarrow> False) ps)"

definition dropped :: "aggregator \<Rightarrow> string \<Rightarrow> nat" where
  "dropped a namespace = or_else (obj_get (dropped_count a) namespace) 0"

definition enqueue_frame :: "fanin_options \<Rightarrow> string \<Rightarrow> string \<Rightarrow> aggregator \<Rightarrow> aggregator" where
  "enqueue_frame opts namespace f a =
     (let live = live_entries namespace (pending a) in
      if live \<ge> buffer_bound opts
      then (let before = dropped a namespace;
                a1 = set_traffic namespace (\<lambda>t. t\<lparr>tr_drops := Suc (tr_drops t)\<rparr>)
                       (a\<lparr>dropped_count := obj_set (dropped_count a) namespace (Suc before)\<rparr>)
            in if before = 0 then a1\<lparr>observed := observed a1 @ [SawOverflow namespace live]\<rparr> else a1)
      else (let a1 = a\<lparr>pending := pending a @ [PData namespace f]\<rparr>
            in (case frame_raw_id f of None \<Rightarrow> a1 | Some i \<Rightarrow> advance_resume namespace i a1)))"

definition pending_depth :: "aggregator \<Rightarrow> string \<Rightarrow> nat" where
  "pending_depth a namespace =
     live_entries namespace (pending a)
     + (if namespace = local_namespace then length (verbatim_buffer a) else 0)"

definition emit_gap_if_dropped :: "fanin_options \<Rightarrow> aggregator \<Rightarrow> aggregator" where
  "emit_gap_if_dropped opts a =
     (let lost = map fst (filter (\<lambda>(ns, n). n > 0) (dropped_count a)) in
      if lost = [] then a
      else (let a1 = write_control opts (gap_frame lost) a;
                a2 = a1\<lparr>dropped_count := foldl (\<lambda>m ns. obj_set m ns 0) (dropped_count a1) lost\<rparr>
            in note_gap lost GapOverflow a2))"

section \<open>The operations\<close>

definition connect :: "fanin_options \<Rightarrow> string option \<Rightarrow> aggregator \<Rightarrow> aggregator \<times> (string \<times> string) list" where
  "connect opts cur a =
     (let m = parse_composite_cursor cur;
          a1 = a\<lparr>composite := m, resume_at := m\<rparr>
      in (case focus_provider opts of
            None \<Rightarrow> a1 | Some snapshot \<Rightarrow> write_control opts (focus_frame snapshot) a1, m))"

definition member_usable :: "peer_member \<Rightarrow> bool" where
  "member_usable p \<longleftrightarrow>
     pm_reachable p \<and> (case pm_token p of None \<Rightarrow> False | Some t \<Rightarrow> js_trim t \<noteq> [])"

definition admit_member :: "fanin_options \<Rightarrow> aggregator \<Rightarrow> peer_member \<Rightarrow> aggregator" where
  "admit_member opts a p =
     (let i = pm_machine p in
      if member_usable p
      then a\<lparr>peer_arms := set_add i (peer_arms a), unavailable := removeAll i (unavailable a)\<rparr>
      else (let a1 = a\<lparr>peer_arms := removeAll i (peer_arms a)\<rparr> in
            if i \<in> set (unavailable a1) then a1
            else write_control opts
                   (honest_source_comment i
                     (or_else (pm_reason p) (if pm_reachable p then ''token-absent'' else ''peer-unreachable'')))
                   (a1\<lparr>unavailable := unavailable a1 @ [i]\<rparr>)))"

definition set_membership :: "fanin_options \<Rightarrow> peer_member list \<Rightarrow> aggregator \<Rightarrow> aggregator" where
  "set_membership opts peers a =
     (let a1 = foldl (admit_member opts) a peers; seen = map pm_machine peers
      in a1\<lparr>peer_arms := filter (\<lambda>i. i \<in> set seen) (peer_arms a1),
            unavailable := filter (\<lambda>i. i \<in> set seen) (unavailable a1)\<rparr>)"

text \<open>\<open>ingest\<close> after the replay's first answer and the reset have been dealt with.\<close>

definition route_frame :: "fanin_options \<Rightarrow> string \<Rightarrow> string \<Rightarrow> aggregator \<Rightarrow> aggregator" where
  "route_frame opts namespace f a =
     (if namespace = local_namespace \<and> peer_arms a = []
      then (let a1 = (case frame_raw_id f of
                        None \<Rightarrow> a
                      | Some i \<Rightarrow>
                          advance_resume local_namespace i
                            (a\<lparr>composite := obj_set (composite a) local_namespace i\<rparr>))
            in if \<not> flowing a1 then a1\<lparr>verbatim_buffer := verbatim_buffer a1 @ [f]\<rparr>
               else sink_write opts f (a1\<lparr>handed := handed a1 @ [(namespace, f)]\<rparr>))
      else if flowing a then deliver opts namespace f a
      else enqueue_frame opts namespace f a)"

definition ingest_reset :: "fanin_options \<Rightarrow> string \<Rightarrow> string \<Rightarrow> aggregator \<Rightarrow> aggregator" where
  "ingest_reset opts namespace f a =
     (let a1 = (case frame_raw_id f of None \<Rightarrow> a | Some i \<Rightarrow> advance_resume namespace i a)
      in note_gap [namespace] GapReset (write_control opts (gap_frame [namespace]) a1))"

definition ingest ::
  "fanin_options \<Rightarrow> string \<Rightarrow> string \<Rightarrow> int \<Rightarrow> aggregator \<Rightarrow> aggregator \<times> ingest_verdict" where
  "ingest opts namespace f now a =
     (let a1 = count_frame namespace f now a;
          data = is_data_frame f;
          a2 = (if data then a1\<lparr>ever_delivered := set_add namespace (ever_delivered a1)\<rparr> else a1);
          raw_id = frame_raw_id f;
          verbatim = (namespace = local_namespace \<and> peer_arms a2 = []);
          control = (if data then engine_control_type f else None);
          was_resuming = (data \<and> namespace \<in> set (resuming a2));
          a3 = (if was_resuming then a2\<lparr>resuming := removeAll namespace (resuming a2)\<rparr> else a2)
      in if was_resuming \<and> raw_id = None \<and> verbatim then (a3, IngestSever)
         else if was_resuming \<and> raw_id \<noteq> None \<and> control = Some ServerConnected \<and> \<not> verbatim
         then (advance_resume namespace (the raw_id) a3, IngestOk)
         else (let a4 = (if was_resuming \<and> raw_id = None
                         then note_gap [namespace] GapReopen (write_control opts (gap_frame [namespace]) a3)
                         else a3)
               in if control = Some ServerCursorUnservable \<and> \<not> verbatim
                  then (ingest_reset opts namespace f a4, IngestOk)
                  else (route_frame opts namespace f a4, IngestOk)))"

text \<open>The two loops of \<open>resume\<close>.\<close>

fun drain_verbatim :: "fanin_options \<Rightarrow> string list \<Rightarrow> aggregator \<Rightarrow> aggregator" where
  "drain_verbatim opts [] a = a\<lparr>verbatim_buffer := []\<rparr>"
| "drain_verbatim opts (f # fs) a =
     (if flowing a
      then drain_verbatim opts fs (sink_write opts f (a\<lparr>handed := handed a @ [(local_namespace, f)]\<rparr>))
      else a\<lparr>verbatim_buffer := f # fs\<rparr>)"

fun drain_pending :: "fanin_options \<Rightarrow> pending_entry list \<Rightarrow> aggregator \<Rightarrow> aggregator" where
  "drain_pending opts [] a = a\<lparr>pending := []\<rparr>"
| "drain_pending opts (e # es) a =
     (if flowing a
      then drain_pending opts es
             (case e of PData ns f \<Rightarrow> deliver opts ns f a | PControl f \<Rightarrow> sink_write opts f a)
      else a\<lparr>pending := e # es\<rparr>)"

definition resume_flow :: "fanin_options \<Rightarrow> aggregator \<Rightarrow> aggregator" where
  "resume_flow opts a =
     (if flowing a then a
      else (let a1 = a\<lparr>flowing := True\<rparr>;
                a2 = drain_verbatim opts (verbatim_buffer a1) a1;
                a3 = drain_pending opts (pending a2) a2
            in if flowing a3 then emit_gap_if_dropped opts a3 else a3))"

definition reopen_arm :: "fanin_options \<Rightarrow> string \<Rightarrow> aggregator \<Rightarrow> aggregator \<times> reopen_verdict" where
  "reopen_arm opts namespace a =
     (if namespace \<notin> set (ever_delivered a) then (a, VOpen)
      else if parse_engine_id (obj_get (resume_at a) namespace) \<noteq> None
      then (a\<lparr>resuming := set_add namespace (resuming a)\<rparr>, VResume)
      else if peer_arms a = [] then (a, VSever)
      else (let a1 = note_gap [namespace] GapReopen (write_control opts (gap_frame [namespace]) a)
            in (a1\<lparr>ever_delivered := removeAll namespace (ever_delivered a1)\<rparr>, VGap)))"

end
