(* ===== verification/Fanin_Properties.thy ===== *)
theory Fanin_Properties
  imports Sse_Fanin "HOL-Library.Sublist"
begin

text \<open>
  What the fan-in aggregator guarantees: nothing waits while the downstream flows and no buffer
  passes its bound; the fleet of one is a verbatim relay; with peers, order is kept and every
  frame not delivered is counted; resume points never go back within an engine epoch.
\<close>

section \<open>Frames of the operations\<close>

lemma sink_write_simps [simp]:
  "composite (sink_write opts c a) = composite a"
  "peer_arms (sink_write opts c a) = peer_arms a"
  "unavailable (sink_write opts c a) = unavailable a"
  "flowing (sink_write opts c a) = (flowing a \<and> accepts opts (length (out a)))"
  "pending (sink_write opts c a) = pending a"
  "dropped_count (sink_write opts c a) = dropped_count a"
  "ever_delivered (sink_write opts c a) = ever_delivered a"
  "resume_at (sink_write opts c a) = resume_at a"
  "resuming (sink_write opts c a) = resuming a"
  "verbatim_buffer (sink_write opts c a) = verbatim_buffer a"
  "traffic_by_arm (sink_write opts c a) = traffic_by_arm a"
  "out (sink_write opts c a) = out a @ [c]"
  "handed (sink_write opts c a) = handed a"
  by (simp_all add: sink_write_def Let_def)

lemma advance_resume_simps [simp]:
  "composite (advance_resume n i a) = composite a"
  "peer_arms (advance_resume n i a) = peer_arms a"
  "unavailable (advance_resume n i a) = unavailable a"
  "flowing (advance_resume n i a) = flowing a"
  "pending (advance_resume n i a) = pending a"
  "dropped_count (advance_resume n i a) = dropped_count a"
  "ever_delivered (advance_resume n i a) = ever_delivered a"
  "resuming (advance_resume n i a) = resuming a"
  "verbatim_buffer (advance_resume n i a) = verbatim_buffer a"
  "traffic_by_arm (advance_resume n i a) = traffic_by_arm a"
  "out (advance_resume n i a) = out a"
  "handed (advance_resume n i a) = handed a"
  by (simp_all add: advance_resume_def split: option.splits)

lemma write_control_simps [simp]:
  "composite (write_control opts c a) = composite a"
  "peer_arms (write_control opts c a) = peer_arms a"
  "unavailable (write_control opts c a) = unavailable a"
  "flowing (write_control opts c a) = (flowing a \<and> accepts opts (length (out a)))"
  "dropped_count (write_control opts c a) = dropped_count a"
  "resume_at (write_control opts c a) = resume_at a"
  "resuming (write_control opts c a) = resuming a"
  "verbatim_buffer (write_control opts c a) = verbatim_buffer a"
  "traffic_by_arm (write_control opts c a) = traffic_by_arm a"
  "handed (write_control opts c a) = handed a"
  "pending (write_control opts c a) = (if flowing a then pending a else pending a @ [PControl c])"
  by (simp_all add: write_control_def)

lemma set_traffic_simps [simp]:
  "composite (set_traffic n g a) = composite a"
  "peer_arms (set_traffic n g a) = peer_arms a"
  "unavailable (set_traffic n g a) = unavailable a"
  "flowing (set_traffic n g a) = flowing a"
  "pending (set_traffic n g a) = pending a"
  "dropped_count (set_traffic n g a) = dropped_count a"
  "ever_delivered (set_traffic n g a) = ever_delivered a"
  "resume_at (set_traffic n g a) = resume_at a"
  "resuming (set_traffic n g a) = resuming a"
  "verbatim_buffer (set_traffic n g a) = verbatim_buffer a"
  "out (set_traffic n g a) = out a"
  "handed (set_traffic n g a) = handed a"
  "traffic (set_traffic n g a) m = (if m = n then g (traffic a n) else traffic a m)"
  by (simp_all add: set_traffic_def traffic_def)

lemma count_frame_simps [simp]:
  "composite (count_frame n f t a) = composite a"
  "peer_arms (count_frame n f t a) = peer_arms a"
  "unavailable (count_frame n f t a) = unavailable a"
  "flowing (count_frame n f t a) = flowing a"
  "pending (count_frame n f t a) = pending a"
  "dropped_count (count_frame n f t a) = dropped_count a"
  "ever_delivered (count_frame n f t a) = ever_delivered a"
  "resume_at (count_frame n f t a) = resume_at a"
  "resuming (count_frame n f t a) = resuming a"
  "verbatim_buffer (count_frame n f t a) = verbatim_buffer a"
  "out (count_frame n f t a) = out a"
  "handed (count_frame n f t a) = handed a"
  "tr_drops (traffic (count_frame n f t a) m) = tr_drops (traffic a m)"
  by (simp_all add: count_frame_def)

lemma set_traffic_fold: "\<exists>T. foldl (\<lambda>a ns. set_traffic ns g a) a nss = a\<lparr>traffic_by_arm := T\<rparr>"
proof (induction nss arbitrary: a)
  case Nil
  show ?case by (intro exI [of _ "traffic_by_arm a"]) simp
next
  case (Cons n nss)
  from Cons.IH [of "set_traffic n g a"] show ?case by (auto simp: set_traffic_def)
qed

lemma set_traffic_fold_drops:
  assumes "\<And>t. tr_drops (g t) = tr_drops t"
  shows "tr_drops (traffic (foldl (\<lambda>a ns. set_traffic ns g a) a nss) m) = tr_drops (traffic a m)"
  by (induction nss arbitrary: a) (simp_all add: assms)

lemma note_gap_eq: "\<exists>T obs. note_gap nss c a = a\<lparr>traffic_by_arm := T, observed := obs\<rparr>"
proof -
  obtain T where "foldl (\<lambda>a ns. set_traffic ns (\<lambda>t. t\<lparr>tr_gaps := Suc (tr_gaps t)\<rparr>) a) a nss = a\<lparr>traffic_by_arm := T\<rparr>"
    using set_traffic_fold by blast
  then show ?thesis by (auto simp: note_gap_def Let_def)
qed

lemma note_gap_drops [simp]: "tr_drops (traffic (note_gap nss c a) m) = tr_drops (traffic a m)"
proof -
  have "traffic (b\<lparr>observed := x\<rparr>) m = traffic b m" for b x by (simp add: traffic_def)
  then show ?thesis by (simp add: note_gap_def Let_def set_traffic_fold_drops)
qed

lemma note_gap_simps [simp]:
  "composite (note_gap nss c a) = composite a"
  "peer_arms (note_gap nss c a) = peer_arms a"
  "unavailable (note_gap nss c a) = unavailable a"
  "flowing (note_gap nss c a) = flowing a"
  "pending (note_gap nss c a) = pending a"
  "dropped_count (note_gap nss c a) = dropped_count a"
  "ever_delivered (note_gap nss c a) = ever_delivered a"
  "resume_at (note_gap nss c a) = resume_at a"
  "resuming (note_gap nss c a) = resuming a"
  "verbatim_buffer (note_gap nss c a) = verbatim_buffer a"
  "out (note_gap nss c a) = out a"
  "handed (note_gap nss c a) = handed a"
  using note_gap_eq [of nss c a] by auto


section \<open>Events\<close>

datatype fanin_event =
    FConnect "string option"
  | FMembers "peer_member list"
  | FIngest string string int
  | FReopen string
  | FDrain

fun fanin_step :: "fanin_options \<Rightarrow> fanin_event \<Rightarrow> aggregator \<Rightarrow> aggregator" where
  "fanin_step opts (FConnect cur) a = fst (connect opts cur a)"
| "fanin_step opts (FMembers peers) a = set_membership opts peers a"
| "fanin_step opts (FIngest ns f now) a = fst (ingest opts ns f now a)"
| "fanin_step opts (FReopen ns) a = fst (reopen_arm opts ns a)"
| "fanin_step opts FDrain a = resume_flow opts a"

definition fanin_run :: "fanin_options \<Rightarrow> fanin_event list \<Rightarrow> aggregator \<Rightarrow> aggregator" where
  "fanin_run opts evs a = foldl (\<lambda>a ev. fanin_step opts ev a) a evs"

lemma fanin_run_simps [simp]:
  "fanin_run opts [] a = a"
  "fanin_run opts (ev # evs) a = fanin_run opts evs (fanin_step opts ev a)"
  by (simp_all add: fanin_run_def)

section \<open>The invariant\<close>

definition fanin_inv :: "fanin_options \<Rightarrow> aggregator \<Rightarrow> bool" where
  "fanin_inv opts a \<longleftrightarrow>
     obj_wf (dropped_count a)
     \<and> (flowing a \<longrightarrow> pending a = [] \<and> verbatim_buffer a = [] \<and> (\<forall>n. dropped a n = 0))
     \<and> (\<forall>n. live_entries n (pending a) \<le> buffer_bound opts)"

lemma fanin_inv_cong:
  "flowing b = flowing a \<Longrightarrow> pending b = pending a \<Longrightarrow> verbatim_buffer b = verbatim_buffer a \<Longrightarrow>
   dropped_count b = dropped_count a \<Longrightarrow> fanin_inv opts b = fanin_inv opts a"
  by (simp add: fanin_inv_def dropped_def)

lemma live_entries_simps [simp]:
  "live_entries n [] = 0"
  "live_entries n (ps @ qs) = live_entries n ps + live_entries n qs"
  "live_entries n (PData m f # ps) = (if m = n then Suc (live_entries n ps) else live_entries n ps)"
  "live_entries n (PControl f # ps) = live_entries n ps"
  by (simp_all add: live_entries_def)

lemma dropped_cong [simp]:
  "dropped (sink_write opts c a) n = dropped a n"
  "dropped (write_control opts c a) n = dropped a n"
  "dropped (advance_resume m i a) n = dropped a n"
  "dropped (set_traffic m g a) n = dropped a n"
  "dropped (count_frame m f t a) n = dropped a n"
  "dropped (note_gap nss cause a) n = dropped a n"
  by (simp_all add: dropped_def)

text \<open>The steps that only stop the flow, or append a control frame where it is stopped.\<close>

lemma inv_sink_write [inv_intros]: "fanin_inv opts a \<Longrightarrow> fanin_inv opts (sink_write opts c a)"
  by (auto simp: fanin_inv_def)

lemma inv_write_control [inv_intros]: "fanin_inv opts a \<Longrightarrow> fanin_inv opts (write_control opts c a)"
  by (auto simp: fanin_inv_def)

lemma inv_note_gap [inv_intros]: "fanin_inv opts a \<Longrightarrow> fanin_inv opts (note_gap nss c a)"
  by (subst fanin_inv_cong [of _ a]) simp_all

lemma inv_advance [inv_intros]: "fanin_inv opts a \<Longrightarrow> fanin_inv opts (advance_resume n i a)"
  by (subst fanin_inv_cong [of _ a]) simp_all

lemma inv_count [inv_intros]: "fanin_inv opts a \<Longrightarrow> fanin_inv opts (count_frame n f t a)"
  by (subst fanin_inv_cong [of _ a]) simp_all

lemma inv_ever_delivered: "fanin_inv opts a \<Longrightarrow> fanin_inv opts (a\<lparr>ever_delivered := r\<rparr>)"
  by (subst fanin_inv_cong [of _ a]) simp_all

text \<open>The cursor update shared by the two delivery paths.\<close>

definition note_position :: "string \<Rightarrow> string \<Rightarrow> aggregator \<Rightarrow> aggregator" where
  "note_position n f a =
     (case frame_raw_id f of
        None \<Rightarrow> a
      | Some i \<Rightarrow> advance_resume n i (a\<lparr>composite := obj_set (composite a) n i\<rparr>))"

lemma note_position_simps [simp]:
  "peer_arms (note_position n f a) = peer_arms a"
  "flowing (note_position n f a) = flowing a"
  "pending (note_position n f a) = pending a"
  "dropped_count (note_position n f a) = dropped_count a"
  "resuming (note_position n f a) = resuming a"
  "verbatim_buffer (note_position n f a) = verbatim_buffer a"
  "traffic_by_arm (note_position n f a) = traffic_by_arm a"
  "out (note_position n f a) = out a"
  "handed (note_position n f a) = handed a"
  by (simp_all add: note_position_def split: option.splits)

lemma deliver_eq:
  "deliver opts n f a =
     sink_write opts (rewrite_frame_id f (Some (format_composite_cursor (composite (note_position n f a)))))
       ((note_position n f a)\<lparr>handed := handed a @ [(n, f)]\<rparr>)"
proof -
  have "(note_position n f a)\<lparr>handed := handed (note_position n f a) @ [(n, f)]\<rparr>
      = (note_position n f a)\<lparr>handed := handed a @ [(n, f)]\<rparr>" by simp
  then show ?thesis unfolding deliver_def note_position_def [symmetric] Let_def by simp
qed

lemma deliver_simps [simp]:
  "peer_arms (deliver opts n f a) = peer_arms a"
  "flowing (deliver opts n f a) = (flowing a \<and> accepts opts (length (out a)))"
  "pending (deliver opts n f a) = pending a"
  "dropped_count (deliver opts n f a) = dropped_count a"
  "resuming (deliver opts n f a) = resuming a"
  "verbatim_buffer (deliver opts n f a) = verbatim_buffer a"
  "traffic_by_arm (deliver opts n f a) = traffic_by_arm a"
  "handed (deliver opts n f a) = handed a @ [(n, f)]"
  by (simp_all add: deliver_eq)

lemma inv_deliver [inv_intros]: "fanin_inv opts a \<Longrightarrow> fanin_inv opts (deliver opts n f a)"
  by (auto simp: fanin_inv_def dropped_def)

lemma enqueue_cases:
  "live_entries n (pending a) \<ge> buffer_bound opts \<Longrightarrow>
     \<exists>obs. enqueue_frame opts n f a =
       (set_traffic n (\<lambda>t. t\<lparr>tr_drops := Suc (tr_drops t)\<rparr>)
         (a\<lparr>dropped_count := obj_set (dropped_count a) n (Suc (dropped a n))\<rparr>))\<lparr>observed := obs\<rparr>"
  "live_entries n (pending a) < buffer_bound opts \<Longrightarrow>
     \<exists>r. enqueue_frame opts n f a = a\<lparr>pending := pending a @ [PData n f], resume_at := r\<rparr>"
proof -
  assume "live_entries n (pending a) \<ge> buffer_bound opts"
  then show "\<exists>obs. enqueue_frame opts n f a =
       (set_traffic n (\<lambda>t. t\<lparr>tr_drops := Suc (tr_drops t)\<rparr>)
         (a\<lparr>dropped_count := obj_set (dropped_count a) n (Suc (dropped a n))\<rparr>))\<lparr>observed := obs\<rparr>"
    by (auto simp: enqueue_frame_def Let_def set_traffic_def traffic_def intro: exI [of _ "observed a"])
next
  assume lt: "live_entries n (pending a) < buffer_bound opts"
  have adv: "\<exists>r. advance_resume n i b = b\<lparr>resume_at := r\<rparr>" for i b
  proof -
    have "b\<lparr>resume_at := resume_at b\<rparr> = b" by simp
    then show ?thesis
      by (cases "obj_get (resume_at b) n") (auto simp: advance_resume_def intro: exI [of _ "resume_at b"])
  qed
  show "\<exists>r. enqueue_frame opts n f a = a\<lparr>pending := pending a @ [PData n f], resume_at := r\<rparr>"
  proof (cases "frame_raw_id f")
    case None
    with lt show ?thesis
      by (intro exI [of _ "resume_at a"]) (simp add: enqueue_frame_def Let_def)
  next
    case (Some i)
    obtain r where "advance_resume n i (a\<lparr>pending := pending a @ [PData n f]\<rparr>)
        = a\<lparr>pending := pending a @ [PData n f]\<rparr>\<lparr>resume_at := r\<rparr>"
      using adv by blast
    with lt Some show ?thesis by (intro exI [of _ r]) (simp add: enqueue_frame_def Let_def)
  qed
qed

lemma inv_enqueue: "fanin_inv opts a \<Longrightarrow> \<not> flowing a \<Longrightarrow> fanin_inv opts (enqueue_frame opts n f a)"
proof (cases "live_entries n (pending a) \<ge> buffer_bound opts")
  case True
  assume "fanin_inv opts a" "\<not> flowing a"
  with enqueue_cases(1) [OF True, of f] show ?thesis by (auto simp: fanin_inv_def)
next
  case False
  assume "fanin_inv opts a" "\<not> flowing a"
  with enqueue_cases(2) [of n a opts f] False show ?thesis
    by (auto simp: fanin_inv_def not_le Suc_le_eq)
qed

lemma route_eq:
  "route_frame opts n f a =
     (if n = local_namespace \<and> peer_arms a = []
      then (let a1 = note_position n f a in
            if \<not> flowing a then a1\<lparr>verbatim_buffer := verbatim_buffer a @ [f]\<rparr>
            else sink_write opts f (a1\<lparr>handed := handed a @ [(n, f)]\<rparr>))
      else if flowing a then deliver opts n f a else enqueue_frame opts n f a)"
  by (auto simp: route_frame_def note_position_def Let_def split: option.splits)

lemma inv_route [inv_intros]: "fanin_inv opts a \<Longrightarrow> fanin_inv opts (route_frame opts n f a)"
proof -
  assume inv: "fanin_inv opts a"
  have "fanin_inv opts ((note_position m f a)\<lparr>verbatim_buffer := vb\<rparr>)" if "\<not> flowing a" for vb m
    using inv that by (simp add: fanin_inv_def dropped_def)
  moreover have "fanin_inv opts (sink_write opts f ((note_position m f a)\<lparr>handed := h\<rparr>))" for h m
    using inv by (intro inv_sink_write) (subst fanin_inv_cong [of _ a], simp_all)
  ultimately show ?thesis
    using inv by (simp add: route_eq Let_def inv_deliver inv_enqueue)
qed

lemma inv_ingest [inv_intros]: "fanin_inv opts a \<Longrightarrow> fanin_inv opts (fst (ingest opts n f now a))"
proof -
  assume inv: "fanin_inv opts a"
  define a2 where "a2 = (if is_data_frame f
    then (count_frame n f now a)\<lparr>ever_delivered := set_add n (ever_delivered (count_frame n f now a))\<rparr>
    else count_frame n f now a)"
  define a3 where "a3 = (if is_data_frame f \<and> n \<in> set (resuming a2)
    then a2\<lparr>resuming := removeAll n (resuming a2)\<rparr> else a2)"
  have i3: "fanin_inv opts a3"
    using inv by (subst fanin_inv_cong [of _ a]) (auto simp: a3_def a2_def)
  then show ?thesis
    unfolding ingest_def Let_def a2_def [symmetric] a3_def [symmetric] ingest_reset_def
    by (auto intro!: inv_intros split: option.splits)
qed

lemma inv_drain_verbatim:
  assumes "obj_wf (dropped_count a)" and "\<forall>n. live_entries n (pending a) \<le> buffer_bound opts"
  shows "obj_wf (dropped_count (drain_verbatim opts vb a))
    \<and> pending (drain_verbatim opts vb a) = pending a
    \<and> dropped_count (drain_verbatim opts vb a) = dropped_count a
    \<and> peer_arms (drain_verbatim opts vb a) = peer_arms a
    \<and> resuming (drain_verbatim opts vb a) = resuming a
    \<and> (flowing (drain_verbatim opts vb a) \<longrightarrow> verbatim_buffer (drain_verbatim opts vb a) = [])"
  using assms
proof (induction vb arbitrary: a)
  case (Cons f fs)
  then show ?case by (cases "flowing a") simp_all
qed simp

lemma inv_drain_pending:
  assumes "\<forall>n. live_entries n ps \<le> buffer_bound opts"
  shows "dropped_count (drain_pending opts ps a) = dropped_count a
    \<and> verbatim_buffer (drain_pending opts ps a) = verbatim_buffer a
    \<and> peer_arms (drain_pending opts ps a) = peer_arms a
    \<and> resuming (drain_pending opts ps a) = resuming a
    \<and> (flowing (drain_pending opts ps a) \<longrightarrow> flowing a \<and> pending (drain_pending opts ps a) = [])
    \<and> (\<forall>n. live_entries n (pending (drain_pending opts ps a)) \<le> buffer_bound opts)"
  using assms
proof (induction ps arbitrary: a)
  case (Cons e es)
  show ?case
  proof (cases "flowing a")
    case False
    with Cons.prems show ?thesis by simp
  next
    case True
    let ?b = "case e of PData ns f \<Rightarrow> deliver opts ns f a | PControl f \<Rightarrow> sink_write opts f a"
    have "live_entries n es \<le> live_entries n (e # es)" for n by (cases e) auto
    with Cons.prems have "\<forall>n. live_entries n es \<le> buffer_bound opts" using le_trans by blast
    from Cons.IH [OF this, of ?b] True show ?thesis by (cases e) auto
  qed
qed simp

lemma zeroed:
  "obj_get (foldl (\<lambda>m ns. obj_set m ns 0) m nss) k = (if k \<in> set nss then Some (0::nat) else obj_get m k)"
  by (induction nss arbitrary: m) auto

lemma zeroed_wf: "obj_wf m \<Longrightarrow> obj_wf (foldl (\<lambda>m ns. obj_set m ns (0::nat)) m nss)"
  by (induction nss arbitrary: m) auto

text \<open>The namespaces an overflow gap names.\<close>

definition lost_namespaces :: "aggregator \<Rightarrow> string list" where
  "lost_namespaces a = map fst (filter (\<lambda>(ns, n). n > 0) (dropped_count a))"

lemma lost_iff: "obj_wf (dropped_count a) \<Longrightarrow> n \<in> set (lost_namespaces a) \<longleftrightarrow> 0 < dropped a n"
proof -
  assume wf: "obj_wf (dropped_count a)"
  have "(n, v) \<in> set (dropped_count a) \<longleftrightarrow> obj_get (dropped_count a) n = Some v" for v
    using wf by (simp add: obj_wf_def)
  then show ?thesis
    by (force simp: lost_namespaces_def dropped_def or_else_def split: option.splits)
qed

lemma emit_gap_eq:
  assumes "obj_wf (dropped_count a)" and "flowing a"
  shows "pending (emit_gap_if_dropped opts a) = pending a
    \<and> verbatim_buffer (emit_gap_if_dropped opts a) = verbatim_buffer a
    \<and> peer_arms (emit_gap_if_dropped opts a) = peer_arms a
    \<and> resuming (emit_gap_if_dropped opts a) = resuming a
    \<and> handed (emit_gap_if_dropped opts a) = handed a
    \<and> obj_wf (dropped_count (emit_gap_if_dropped opts a))
    \<and> (\<forall>n. dropped (emit_gap_if_dropped opts a) n = 0)
    \<and> out (emit_gap_if_dropped opts a) =
        out a @ (if lost_namespaces a = [] then [] else [gap_frame (lost_namespaces a)])
    \<and> (\<forall>m. tr_drops (traffic (emit_gap_if_dropped opts a) m) = tr_drops (traffic a m))"
proof (cases "lost_namespaces a = []")
  case True
  then have "\<forall>n. dropped a n = 0" using lost_iff [OF assms(1)] by auto
  with True assms(1) show ?thesis by (simp add: emit_gap_if_dropped_def lost_namespaces_def Let_def)
next
  case False
  have d: "dropped b n = 0" if "dropped_count b = foldl (\<lambda>m ns. obj_set m ns 0) (dropped_count a) (lost_namespaces a)" for b n
  proof (cases "n \<in> set (lost_namespaces a)")
    case True
    with that show ?thesis by (simp add: dropped_def zeroed)
  next
    case False
    with that lost_iff [OF assms(1), of n] show ?thesis by (simp add: dropped_def zeroed)
  qed
  let ?a2 = "(write_control opts (gap_frame (lost_namespaces a)) a)
    \<lparr>dropped_count := foldl (\<lambda>m ns. obj_set m ns 0) (dropped_count a) (lost_namespaces a)\<rparr>"
  have e: "emit_gap_if_dropped opts a = note_gap (lost_namespaces a) GapOverflow ?a2"
    using False by (simp add: emit_gap_if_dropped_def lost_namespaces_def Let_def)
  have t: "traffic ?a2 m = traffic a m" for m by (simp add: traffic_def)
  show ?thesis
    using False assms zeroed_wf d [of "note_gap (lost_namespaces a) GapOverflow ?a2"] t
    unfolding e by (simp add: write_control_def)
qed

lemma inv_resume_flow [inv_intros]: "fanin_inv opts a \<Longrightarrow> fanin_inv opts (resume_flow opts a)"
proof (cases "flowing a")
  case False
  assume inv: "fanin_inv opts a"
  let ?a1 = "a\<lparr>flowing := True\<rparr>"
  let ?a2 = "drain_verbatim opts (verbatim_buffer a) ?a1"
  let ?a3 = "drain_pending opts (pending ?a2) ?a2"
  have v: "obj_wf (dropped_count ?a2)" "pending ?a2 = pending a"
    "flowing ?a2 \<longrightarrow> verbatim_buffer ?a2 = []"
    using inv inv_drain_verbatim [of ?a1 opts "verbatim_buffer a"] by (simp_all add: fanin_inv_def)
  have pb: "\<forall>n. live_entries n (pending ?a2) \<le> buffer_bound opts" using inv v(2) by (simp add: fanin_inv_def)
  note p = inv_drain_pending [OF pb, of ?a2]
  have e: "resume_flow opts a = (if flowing ?a3 then emit_gap_if_dropped opts ?a3 else ?a3)"
    using False by (simp add: resume_flow_def Let_def)
  show ?thesis
  proof (cases "flowing ?a3")
    case True
    have "obj_wf (dropped_count ?a3)" using p v(1) by simp
    from emit_gap_eq [OF this True, of opts] p v True show ?thesis
      unfolding e by (auto simp: fanin_inv_def)
  next
    case False
    with p v show ?thesis unfolding e by (auto simp: fanin_inv_def)
  qed
qed (simp add: resume_flow_def)

lemma inv_membership [inv_intros]: "fanin_inv opts a \<Longrightarrow> fanin_inv opts (set_membership opts peers a)"
proof -
  have one: "fanin_inv opts (admit_member opts b p)" if "fanin_inv opts b" for b p
  proof -
    have "fanin_inv opts (b\<lparr>peer_arms := x, unavailable := y\<rparr>)" for x y
      using that by (subst fanin_inv_cong [of _ b]) simp_all
    moreover have "fanin_inv opts (b\<lparr>peer_arms := x\<rparr>)" for x
      using that by (subst fanin_inv_cong [of _ b]) simp_all
    ultimately show ?thesis
      by (auto simp: admit_member_def Let_def intro: inv_write_control)
  qed
  assume "fanin_inv opts a"
  then have "fanin_inv opts (foldl (admit_member opts) a peers)"
    by (induction peers arbitrary: a) (auto intro: one)
  then show ?thesis
    unfolding set_membership_def Let_def by (subst fanin_inv_cong) simp_all
qed

lemma inv_step: "fanin_inv opts a \<Longrightarrow> fanin_inv opts (fanin_step opts ev a)"
proof (cases ev)
  case (FConnect cur)
  assume inv: "fanin_inv opts a"
  have "fanin_inv opts (a\<lparr>composite := m, resume_at := m\<rparr>)" for m
    using inv by (subst fanin_inv_cong [of _ a]) simp_all
  with FConnect show ?thesis by (auto simp: connect_def Let_def intro: inv_write_control split: option.splits)
next
  case (FReopen ns)
  assume inv: "fanin_inv opts a"
  have "fanin_inv opts (a\<lparr>resuming := r\<rparr>)" for r
    using inv by (subst fanin_inv_cong [of _ a]) simp_all
  then show ?thesis
    using FReopen inv
    by (auto simp: reopen_arm_def Let_def simp del: note_gap_simps
        intro!: inv_ever_delivered inv_note_gap inv_write_control)
qed (auto intro: inv_intros)

lemma inv_run: "fanin_inv opts a \<Longrightarrow> fanin_inv opts (fanin_run opts evs a)"
  by (induction evs arbitrary: a) (auto intro: inv_step simp del: fanin_step.simps)

lemma inv_new: "fanin_inv opts new_aggregator"
  by (simp add: fanin_inv_def new_aggregator_def dropped_def)


section \<open>Ingesting, by cases\<close>

text \<open>The state a frame is routed in: counted, noted as delivered, its arm no longer resuming.\<close>

definition received :: "string \<Rightarrow> string \<Rightarrow> int \<Rightarrow> aggregator \<Rightarrow> aggregator" where
  "received n f now a =
     (let a1 = count_frame n f now a;
          a2 = (if is_data_frame f then a1\<lparr>ever_delivered := set_add n (ever_delivered a1)\<rparr> else a1)
      in if is_data_frame f \<and> n \<in> set (resuming a2) then a2\<lparr>resuming := removeAll n (resuming a2)\<rparr> else a2)"

lemma received_simps [simp]:
  "composite (received n f now a) = composite a"
  "peer_arms (received n f now a) = peer_arms a"
  "flowing (received n f now a) = flowing a"
  "pending (received n f now a) = pending a"
  "dropped_count (received n f now a) = dropped_count a"
  "resume_at (received n f now a) = resume_at a"
  "verbatim_buffer (received n f now a) = verbatim_buffer a"
  "out (received n f now a) = out a"
  "handed (received n f now a) = handed a"
  by (simp_all add: received_def Let_def)

lemma received_drops [simp]: "tr_drops (traffic (received n f now a) m) = tr_drops (traffic a m)"
proof -
  have "traffic (b\<lparr>ever_delivered := x\<rparr>) m = traffic b m" "traffic (b\<lparr>resuming := y\<rparr>) m = traffic b m" for b x y
    by (simp_all add: traffic_def)
  then show ?thesis by (simp add: received_def Let_def)
qed

lemma received_resuming: "resuming a = [] \<Longrightarrow> resuming (received n f now a) = []"
  by (simp add: received_def Let_def)

lemma ingest_plain:
  assumes "resuming a = []"
    and "\<not> (is_data_frame f \<and> engine_control_type f = Some ServerCursorUnservable)
      \<or> (n = local_namespace \<and> peer_arms a = [])"
  shows "ingest opts n f now a = (route_frame opts n f (received n f now a), IngestOk)"
  using assms by (auto simp: ingest_def received_def Let_def)

section \<open>The fleet of one\<close>

fun local_event :: "fanin_event \<Rightarrow> bool" where
  "local_event (FIngest n f now) = (n = local_namespace)"
| "local_event FDrain = True"
| "local_event ev = False"

fun arrivals :: "fanin_event list \<Rightarrow> (string \<times> string) list" where
  "arrivals [] = []"
| "arrivals (FIngest n f now # evs) = (n, f) # arrivals evs"
| "arrivals (ev # evs) = arrivals evs"

definition solo :: "aggregator \<Rightarrow> bool" where
  "solo a \<longleftrightarrow> peer_arms a = [] \<and> resuming a = [] \<and> pending a = [] \<and> dropped_count a = []"

lemma solo_ingest:
  assumes "solo a" and "flowing a \<longrightarrow> verbatim_buffer a = []"
  shows "let b = fst (ingest opts local_namespace f now a) in
    solo b \<and> (flowing b \<longrightarrow> verbatim_buffer b = [])
    \<and> out b @ verbatim_buffer b = out a @ verbatim_buffer a @ [f]"
proof -
  have "fst (ingest opts local_namespace f now a) = route_frame opts local_namespace f (received local_namespace f now a)"
    using assms by (subst ingest_plain) (auto simp: solo_def)
  with assms received_resuming show ?thesis by (simp add: solo_def route_eq Let_def)
qed

lemma drain_verbatim_out:
  "out (drain_verbatim opts vb a) @ verbatim_buffer (drain_verbatim opts vb a) = out a @ vb
   \<and> (flowing (drain_verbatim opts vb a) \<longrightarrow> verbatim_buffer (drain_verbatim opts vb a) = [])
   \<and> pending (drain_verbatim opts vb a) = pending a \<and> peer_arms (drain_verbatim opts vb a) = peer_arms a
   \<and> resuming (drain_verbatim opts vb a) = resuming a \<and> dropped_count (drain_verbatim opts vb a) = dropped_count a"
proof (induction vb arbitrary: a)
  case (Cons f fs)
  show ?case
    using Cons.IH [of "sink_write opts f (a\<lparr>handed := handed a @ [(local_namespace, f)]\<rparr>)"]
    by (cases "flowing a") simp_all
qed simp

lemma solo_drain:
  assumes "solo a" and "flowing a \<longrightarrow> verbatim_buffer a = []"
  shows "let b = resume_flow opts a in
    solo b \<and> (flowing b \<longrightarrow> verbatim_buffer b = [])
    \<and> out b @ verbatim_buffer b = out a @ verbatim_buffer a"
proof (cases "flowing a")
  case False
  let ?a2 = "drain_verbatim opts (verbatim_buffer a) (a\<lparr>flowing := True\<rparr>)"
  note d = drain_verbatim_out [of opts "verbatim_buffer a" "a\<lparr>flowing := True\<rparr>"]
  have "pending ?a2 = []" using d assms(1) by (simp add: solo_def)
  then have "drain_pending opts (pending ?a2) ?a2 = ?a2" by simp
  moreover have "emit_gap_if_dropped opts ?a2 = ?a2"
    using d assms(1) by (simp add: emit_gap_if_dropped_def solo_def Let_def)
  ultimately have "resume_flow opts a = ?a2" using False by (simp add: resume_flow_def Let_def)
  with d assms show ?thesis by (simp add: solo_def Let_def)
qed (use assms in \<open>simp add: resume_flow_def\<close>)

lemma solo_run:
  "solo a \<Longrightarrow> (flowing a \<longrightarrow> verbatim_buffer a = []) \<Longrightarrow> list_all local_event evs \<Longrightarrow>
   out (fanin_run opts evs a) @ verbatim_buffer (fanin_run opts evs a)
     = out a @ verbatim_buffer a @ map snd (arrivals evs)
   \<and> (flowing (fanin_run opts evs a) \<longrightarrow> verbatim_buffer (fanin_run opts evs a) = [])"
proof (induction evs arbitrary: a)
  case (Cons ev evs)
  show ?case
  proof (cases ev)
    case (FIngest n f now)
    with Cons.prems have n: "n = local_namespace" by simp
    note s = solo_ingest [OF Cons.prems(1,2), of opts f now, unfolded Let_def]
    from Cons.IH [of "fst (ingest opts n f now a)"] s Cons.prems(3) show ?thesis
      by (simp add: FIngest n append_assoc [symmetric] del: append_assoc)
  next
    case FDrain
    note s = solo_drain [OF Cons.prems(1,2), of opts, unfolded Let_def]
    from Cons.IH [of "resume_flow opts a"] s Cons.prems(3) show ?thesis
      by (simp add: FDrain append_assoc [symmetric] del: append_assoc)
  qed (use Cons.prems in simp_all)
qed simp

section \<open>With peers\<close>

fun data_entries :: "pending_entry list \<Rightarrow> (string \<times> string) list" where
  "data_entries [] = []"
| "data_entries (PData n f # ps) = (n, f) # data_entries ps"
| "data_entries (PControl f # ps) = data_entries ps"

lemma data_entries_append [simp]: "data_entries (ps @ qs) = data_entries ps @ data_entries qs"
  by (induction ps rule: data_entries.induct) auto

lemma live_data_entries: "live_entries n ps = length (filter (\<lambda>e. fst e = n) (data_entries ps))"
  by (induction ps rule: data_entries.induct) auto

text \<open>What is on its way to the listener, in order.\<close>

definition accepted :: "aggregator \<Rightarrow> (string \<times> string) list" where
  "accepted a = handed a @ data_entries (pending a)"

definition of_arm :: "string \<Rightarrow> (string \<times> string) list \<Rightarrow> nat" where
  "of_arm n xs = length (filter (\<lambda>e. fst e = n) xs)"

lemma of_arm_simps [simp]:
  "of_arm n [] = 0" "of_arm n (xs @ ys) = of_arm n xs + of_arm n ys"
  "of_arm n (e # xs) = (if fst e = n then Suc (of_arm n xs) else of_arm n xs)"
  by (simp_all add: of_arm_def)

definition fanning :: "aggregator \<Rightarrow> bool" where
  "fanning a \<longleftrightarrow> peer_arms a \<noteq> [] \<and> resuming a = [] \<and> verbatim_buffer a = []"

fun plain_event :: "fanin_event \<Rightarrow> bool" where
  "plain_event (FIngest n f now) = (engine_control_type f \<noteq> Some ServerCursorUnservable)"
| "plain_event FDrain = True"
| "plain_event ev = False"

lemma fanning_ingest:
  assumes "fanin_inv opts a" and "fanning a" and "engine_control_type f \<noteq> Some ServerCursorUnservable"
  shows "let b = fst (ingest opts n f now a) in fanning b
    \<and> (accepted b = accepted a @ [(n, f)] \<and> (\<forall>m. tr_drops (traffic b m) = tr_drops (traffic a m))
      \<or> accepted b = accepted a
        \<and> (\<forall>m. tr_drops (traffic b m) = tr_drops (traffic a m) + (if m = n then 1 else 0)))"
proof -
  let ?r = "received n f now a"
  have rr: "resuming ?r = []" using assms(2) received_resuming by (simp add: fanning_def)
  have i: "fst (ingest opts n f now a) = route_frame opts n f ?r"
    using assms(2,3) by (subst ingest_plain) (auto simp: fanning_def)
  have tc: "traffic b m = traffic c m" if "traffic_by_arm b = traffic_by_arm c" for b c :: aggregator and m
    using that by (simp add: traffic_def)
  show ?thesis
  proof (cases "flowing a")
    case True
    then have "route_frame opts n f ?r = deliver opts n f ?r"
      using assms(2) by (simp add: route_eq fanning_def)
    moreover have "tr_drops (traffic (deliver opts n f ?r) m) = tr_drops (traffic a m)" for m
      using tc [of "deliver opts n f ?r" ?r] by simp
    moreover have "pending a = []" using assms(1) True by (simp add: fanin_inv_def)
    ultimately show ?thesis
      using assms(2) rr i by (simp add: fanning_def accepted_def Let_def)
  next
    case False
    then have e: "route_frame opts n f ?r = enqueue_frame opts n f ?r"
      using assms(2) by (simp add: route_eq fanning_def)
    show ?thesis
    proof (cases "live_entries n (pending ?r) \<ge> buffer_bound opts")
      case True
      obtain obs where q: "enqueue_frame opts n f ?r =
         (set_traffic n (\<lambda>t. t\<lparr>tr_drops := Suc (tr_drops t)\<rparr>)
           (?r\<lparr>dropped_count := obj_set (dropped_count ?r) n (Suc (dropped ?r n))\<rparr>))\<lparr>observed := obs\<rparr>"
        using enqueue_cases(1) [OF True] by blast
      have "tr_drops (traffic (enqueue_frame opts n f ?r) m) = tr_drops (traffic a m) + (if m = n then 1 else 0)" for m
      proof -
        let ?s = "?r\<lparr>dropped_count := obj_set (dropped_count ?r) n (Suc (dropped ?r n))\<rparr>"
        have "traffic (enqueue_frame opts n f ?r) m
            = traffic (set_traffic n (\<lambda>t. t\<lparr>tr_drops := Suc (tr_drops t)\<rparr>) ?s) m"
          unfolding q by (rule tc) simp
        moreover have "traffic ?s k = traffic ?r k" for k by (rule tc) simp
        ultimately show ?thesis by simp
      qed
      then show ?thesis
        using assms(2) rr i e q by (simp add: fanning_def accepted_def Let_def)
    next
      case False
      then obtain r where q: "enqueue_frame opts n f ?r = ?r\<lparr>pending := pending ?r @ [PData n f], resume_at := r\<rparr>"
        using enqueue_cases(2) [of n ?r opts f] by auto
      have "tr_drops (traffic (enqueue_frame opts n f ?r) m) = tr_drops (traffic a m)" for m
        unfolding q using tc [of "?r\<lparr>pending := pending ?r @ [PData n f], resume_at := r\<rparr>" ?r] by simp
      then show ?thesis
        using assms(2) rr i e q by (simp add: fanning_def accepted_def Let_def)
    qed
  qed
qed

lemma drain_pending_accepted:
  "handed (drain_pending opts ps a) @ data_entries (pending (drain_pending opts ps a)) = handed a @ data_entries ps
   \<and> traffic_by_arm (drain_pending opts ps a) = traffic_by_arm a"
proof (induction ps arbitrary: a)
  case (Cons e es)
  show ?case
  proof (cases "flowing a")
    case True
    then show ?thesis
      using Cons.IH [of "case e of PData ns f \<Rightarrow> deliver opts ns f a | PControl f \<Rightarrow> sink_write opts f a"]
      by (cases e) simp_all
  qed simp
qed simp

lemma fanning_drain:
  assumes "fanin_inv opts a" and "fanning a"
  shows "let b = resume_flow opts a in fanning b \<and> accepted b = accepted a
    \<and> (\<forall>m. tr_drops (traffic b m) = tr_drops (traffic a m))"
proof (cases "flowing a")
  case False
  let ?a1 = "a\<lparr>flowing := True, verbatim_buffer := []\<rparr>"
  let ?a3 = "drain_pending opts (pending a) ?a1"
  have vb: "verbatim_buffer a = []" using assms(2) by (simp add: fanning_def)
  have pb: "\<forall>n. live_entries n (pending a) \<le> buffer_bound opts" using assms(1) by (simp add: fanin_inv_def)
  have r: "resume_flow opts a = (if flowing ?a3 then emit_gap_if_dropped opts ?a3 else ?a3)"
    using False vb by (simp add: resume_flow_def Let_def)
  note p = inv_drain_pending [OF pb, of ?a1] and q = drain_pending_accepted [of opts "pending a" ?a1]
  have f3: "fanning ?a3" using p assms(2) by (simp add: fanning_def)
  have a3: "accepted ?a3 = accepted a" using q by (simp add: accepted_def)
  have t3: "tr_drops (traffic ?a3 m) = tr_drops (traffic a m)" for m using q by (simp add: traffic_def)
  show ?thesis
  proof (cases "flowing ?a3")
    case True
    have "obj_wf (dropped_count ?a3)" using p assms(1) by (simp add: fanin_inv_def)
    from emit_gap_eq [OF this True, of opts] r True f3 a3 t3 show ?thesis
      by (simp add: fanning_def accepted_def Let_def)
  next
    case False
    with r f3 a3 t3 show ?thesis by (simp add: Let_def)
  qed
qed (use assms in \<open>simp add: resume_flow_def\<close>)

lemma fanning_run:
  "fanin_inv opts a \<Longrightarrow> fanning a \<Longrightarrow> list_all plain_event evs \<Longrightarrow>
   subseq (accepted (fanin_run opts evs a)) (accepted a @ arrivals evs)
   \<and> (\<forall>m. of_arm m (accepted (fanin_run opts evs a)) + tr_drops (traffic (fanin_run opts evs a) m)
        = of_arm m (accepted a) + of_arm m (arrivals evs) + tr_drops (traffic a m))"
proof (induction evs arbitrary: a)
  case (Cons ev evs)
  have inv: "fanin_inv opts (fanin_step opts ev a)" using Cons.prems(1) by (rule inv_step)
  show ?case
  proof (cases ev)
    case (FIngest n f now)
    let ?b = "fst (ingest opts n f now a)"
    have s: "fanning ?b \<and> (accepted ?b = accepted a @ [(n, f)] \<and> (\<forall>m. tr_drops (traffic ?b m) = tr_drops (traffic a m))
        \<or> accepted ?b = accepted a
          \<and> (\<forall>m. tr_drops (traffic ?b m) = tr_drops (traffic a m) + (if m = n then 1 else 0)))"
      using fanning_ingest [OF Cons.prems(1,2), of f n now] Cons.prems(3) FIngest by (simp add: Let_def)
    have ih: "subseq (accepted (fanin_run opts evs ?b)) (accepted ?b @ arrivals evs)"
      "\<forall>m. of_arm m (accepted (fanin_run opts evs ?b)) + tr_drops (traffic (fanin_run opts evs ?b) m)
        = of_arm m (accepted ?b) + of_arm m (arrivals evs) + tr_drops (traffic ?b m)"
      using Cons.IH [of ?b] inv s Cons.prems(3) FIngest by simp_all
    have "subseq (accepted ?b) (accepted a @ [(n, f)])" using s by (auto intro: list_emb_append2)
    then have "subseq (accepted ?b @ arrivals evs) ((accepted a @ [(n, f)]) @ arrivals evs)"
      by (intro list_emb_append_mono) simp_all
    with ih(1) have "subseq (accepted (fanin_run opts evs ?b)) (accepted a @ (n, f) # arrivals evs)"
      using subseq_order.order_trans by fastforce
    moreover have "of_arm m (accepted (fanin_run opts evs ?b)) + tr_drops (traffic (fanin_run opts evs ?b) m)
        = of_arm m (accepted a) + of_arm m ((n, f) # arrivals evs) + tr_drops (traffic a m)" for m
      using ih(2) s by auto
    ultimately show ?thesis by (simp add: FIngest)
  next
    case FDrain
    have s: "fanning (resume_flow opts a)" "accepted (resume_flow opts a) = accepted a"
      "\<forall>m. tr_drops (traffic (resume_flow opts a) m) = tr_drops (traffic a m)"
      using fanning_drain [OF Cons.prems(1,2)] by (simp_all add: Let_def)
    from Cons.IH [of "resume_flow opts a"] s inv Cons.prems(3) show ?thesis by (simp add: FDrain)
  qed (use Cons.prems in simp_all)
qed simp


section \<open>Resume points\<close>

lemma ingest_position:
  "cursor_for (fst (ingest opts n f now a)) = cursor_for a
   \<or> (\<exists>i b. frame_raw_id f = Some i \<and> cursor_for b = cursor_for a
        \<and> cursor_for (fst (ingest opts n f now a)) = cursor_for (advance_resume n i b))"
proof -
  have c: "cursor_for b = cursor_for c" if "resume_at b = resume_at c" for b c :: aggregator
    using that by (simp add: cursor_for_def fun_eq_iff)
  have adv: "cursor_for (advance_resume m i b) = cursor_for (advance_resume m i d)"
    if "resume_at b = resume_at d" for m i and b d :: aggregator
    using that by (simp add: cursor_for_def advance_resume_def fun_eq_iff split: option.splits)
  have route: "cursor_for (route_frame opts n f b) = cursor_for b
      \<or> (\<exists>i. frame_raw_id f = Some i \<and> cursor_for (route_frame opts n f b) = cursor_for (advance_resume n i b))" for b
  proof -
    have np: "cursor_for (note_position n f b) = cursor_for b
      \<or> (\<exists>i. frame_raw_id f = Some i \<and> cursor_for (note_position n f b) = cursor_for (advance_resume n i b))"
      using adv [of "b\<lparr>composite := x\<rparr>" b for x]
      by (cases "frame_raw_id f") (auto simp: note_position_def)
    have del: "cursor_for (deliver opts n f b) = cursor_for (note_position n f b)"
      by (rule c) (simp add: deliver_eq)
    have enq: "cursor_for (enqueue_frame opts n f b) = cursor_for b
      \<or> (\<exists>i. frame_raw_id f = Some i \<and> cursor_for (enqueue_frame opts n f b) = cursor_for (advance_resume n i b))"
    proof (cases "live_entries n (pending b) \<ge> buffer_bound opts")
      case True
      from enqueue_cases(1) [OF True, of f] show ?thesis by (auto intro!: c)
    next
      case False
      then show ?thesis
        using adv [of "b\<lparr>pending := x\<rparr>" b for x] c [of "b\<lparr>pending := x\<rparr>" b for x]
        by (cases "frame_raw_id f") (auto simp: enqueue_frame_def Let_def)
    qed
    have vb: "cursor_for ((note_position n f b)\<lparr>verbatim_buffer := x\<rparr>) = cursor_for (note_position n f b)"
      "cursor_for (sink_write opts f ((note_position n f b)\<lparr>handed := y\<rparr>)) = cursor_for (note_position n f b)" for x y
      by (rule c, simp)+
    have "(\<exists>x. route_frame opts n f b = (note_position n f b)\<lparr>verbatim_buffer := x\<rparr>)
      \<or> (\<exists>y. route_frame opts n f b = sink_write opts f ((note_position n f b)\<lparr>handed := y\<rparr>))
      \<or> route_frame opts n f b = deliver opts n f b \<or> route_frame opts n f b = enqueue_frame opts n f b"
      unfolding route_eq Let_def by auto
    then show ?thesis
    proof (elim disjE exE)
      fix x
      assume "route_frame opts n f b = (note_position n f b)\<lparr>verbatim_buffer := x\<rparr>"
      with np vb(1) [of x] show ?thesis by simp
    next
      fix y
      assume "route_frame opts n f b = sink_write opts f ((note_position n f b)\<lparr>handed := y\<rparr>)"
      with np vb(2) [of y] show ?thesis by simp
    next
      assume "route_frame opts n f b = deliver opts n f b"
      with np del show ?thesis by simp
    next
      assume "route_frame opts n f b = enqueue_frame opts n f b"
      with enq show ?thesis by simp
    qed
  qed
  let ?r = "received n f now a"
  have r0: "cursor_for ?r = cursor_for a" by (rule c) simp
  have gap: "cursor_for (note_gap nss g (write_control opts w b)) = cursor_for b" for nss g w b
    by (rule c) simp
  have reset: "cursor_for (ingest_reset opts n f b) = cursor_for b
      \<or> (\<exists>i. frame_raw_id f = Some i \<and> cursor_for (ingest_reset opts n f b) = cursor_for (advance_resume n i b))" for b
    unfolding ingest_reset_def Let_def gap by (cases "frame_raw_id f") auto
  have "\<exists>b. cursor_for b = cursor_for a \<and> (fst (ingest opts n f now a) = b
      \<or> (\<exists>i. frame_raw_id f = Some i \<and> fst (ingest opts n f now a) = advance_resume n i b)
      \<or> fst (ingest opts n f now a) = ingest_reset opts n f b
      \<or> fst (ingest opts n f now a) = route_frame opts n f b)"
  proof -
    define a2 where "a2 = (if is_data_frame f
      then (count_frame n f now a)\<lparr>ever_delivered := set_add n (ever_delivered (count_frame n f now a))\<rparr>
      else count_frame n f now a)"
    define a3 where "a3 = (if is_data_frame f \<and> n \<in> set (resuming a2)
      then a2\<lparr>resuming := removeAll n (resuming a2)\<rparr> else a2)"
    define a4 where "a4 = (if (is_data_frame f \<and> n \<in> set (resuming a2)) \<and> frame_raw_id f = None
      then note_gap [n] GapReopen (write_control opts (gap_frame [n]) a3) else a3)"
    have c3: "cursor_for a3 = cursor_for a" by (rule c) (simp add: a3_def a2_def)
    then have c4: "cursor_for a4 = cursor_for a" unfolding a4_def using gap by simp
    have "fst (ingest opts n f now a) \<in> {a3, ingest_reset opts n f a4, route_frame opts n f a4}
      \<or> (\<exists>i. frame_raw_id f = Some i \<and> fst (ingest opts n f now a) = advance_resume n i a3)"
      unfolding ingest_def Let_def a2_def [symmetric] a3_def [symmetric] a4_def [symmetric] by auto
    with c3 c4 show ?thesis by blast
  qed
  then obtain b where b: "cursor_for b = cursor_for a" and
    d: "fst (ingest opts n f now a) = b
      \<or> (\<exists>i. frame_raw_id f = Some i \<and> fst (ingest opts n f now a) = advance_resume n i b)
      \<or> fst (ingest opts n f now a) = ingest_reset opts n f b
      \<or> fst (ingest opts n f now a) = route_frame opts n f b" by blast
  from d b reset [of b] route [of b] show ?thesis by metis
qed

section \<open>Properties\<close>

text \<open>While the downstream flows nothing waits: after any sequence of connects, membership changes,
  frames, re-opens and drains, a flowing aggregator has no pending entry, no buffered verbatim
  frame and no unannounced drop; and no arm ever has more frames pending than the bound.\<close>

theorem flowing_leaves_nothing_waiting:
  assumes "a = fanin_run opts evs new_aggregator"
  shows "(flowing a \<longrightarrow> pending a = [] \<and> verbatim_buffer a = [] \<and> (\<forall>n. dropped a n = 0))
    \<and> (\<forall>n. live_entries n (pending a) \<le> buffer_bound opts)"
  using inv_run [OF inv_new, of opts evs] assms by (simp add: fanin_inv_def)

definition demo_opts :: "nat \<Rightarrow> (nat \<Rightarrow> bool) \<Rightarrow> fanin_options" where
  "demo_opts bound acc = \<lparr>accepts = acc, buffer_bound = bound, focus_provider = None\<rparr>"

definition demo_peer :: peer_member where
  "demo_peer = \<lparr>pm_machine = ''m'', pm_reachable = True, pm_token = Some ''t'', pm_reason = None\<rparr>"

definition demo_frame :: "string \<Rightarrow> string" where
  "demo_frame i = ''id: '' @ i @ [LF] @ ''data: x'' @ [LF, LF]"

theorem flowing_leaves_nothing_waiting_witness:
  "live_entries ''m'' (pending (fanin_run (demo_opts 1 (\<lambda>n. n \<noteq> 0))
     [FMembers [demo_peer], FIngest ''m'' (demo_frame ''1'') 0, FIngest ''m'' (demo_frame ''2'') 0,
      FIngest ''m'' (demo_frame ''3'') 0] new_aggregator)) \<le> 1"
  using flowing_leaves_nothing_waiting [OF refl, of "demo_opts 1 (\<lambda>n. n \<noteq> 0)"]
  by (simp add: demo_opts_def del: fanin_run_simps)

text \<open>The fleet of one is the local stream, byte for byte: without peer arms, whatever the
  downstream refuses and whenever it drains, what has been written followed by what is held back
  is exactly the frames received, in order and unaltered, and once it flows nothing is held back.\<close>

theorem fleet_of_one_is_verbatim:
  assumes "list_all local_event evs" and "a = fanin_run opts evs new_aggregator"
  shows "out a @ verbatim_buffer a = map snd (arrivals evs)
    \<and> (flowing a \<longrightarrow> out a = map snd (arrivals evs))"
  using solo_run [of new_aggregator evs opts] assms
  by (auto simp: solo_def new_aggregator_def)

theorem fleet_of_one_is_verbatim_witness:
  "let a = fanin_run (demo_opts 256 (\<lambda>n. n \<noteq> 0))
      [FIngest ''local'' (demo_frame ''1'') 0, FIngest ''local'' (demo_frame ''2'') 0, FDrain] new_aggregator
   in out a @ verbatim_buffer a = [demo_frame ''1'', demo_frame ''2'']"
  using fleet_of_one_is_verbatim [OF _ refl, of
      "[FIngest ''local'' (demo_frame ''1'') 0, FIngest ''local'' (demo_frame ''2'') 0, FDrain]"
      "demo_opts 256 (\<lambda>n. n \<noteq> 0)"]
  by (simp add: local_namespace_def Let_def del: fanin_run_simps)


definition demo_fanning :: aggregator where
  "demo_fanning = new_aggregator\<lparr>peer_arms := [''m'']\<rparr>"

lemma demo_control: "engine_control_type (demo_frame ''1'') \<noteq> Some ServerCursorUnservable"
  by (simp add: demo_frame_def engine_control_type_def engine_control_max_bytes_def control_at_def
      data_prefix_def control_opening_def drop_space_def Let_def)


text \<open>Resume points are sound: a frame moves only its own arm's resume point, never back within one
  engine epoch, and a frame without an id moves none.\<close>

theorem resume_points_never_regress:
  assumes "ingest opts n f now a = (b, v)"
  shows "(\<forall>m. m \<noteq> n \<longrightarrow> cursor_for b m = cursor_for a m)
    \<and> (frame_raw_id f = None \<longrightarrow> cursor_for b n = cursor_for a n)
    \<and> (\<forall>q q' p p'. cursor_for a n = Some q \<and> cursor_for b n = Some q'
         \<and> parse_engine_id (Some q) = Some p \<and> parse_engine_id (Some q') = Some p'
         \<and> ep_epoch p' = ep_epoch p \<longrightarrow> ep_seq p \<le> ep_seq p')"
proof -
  have b: "b = fst (ingest opts n f now a)" using assms by simp
  consider "cursor_for b = cursor_for a"
    | i c where "frame_raw_id f = Some i" "cursor_for c = cursor_for a" "cursor_for b = cursor_for (advance_resume n i c)"
    using ingest_position [of opts n f now a] unfolding b by blast
  then show ?thesis
  proof cases
    case 1
    then show ?thesis by auto
  next
    case (2 i c)
    have "\<not> engine_before q' q" if "cursor_for a n = Some q" "cursor_for b n = Some q'" for q q'
      using fanin_resume.never_back [of c n q n i q'] that 2 by simp
    then have "ep_seq p \<le> ep_seq p'"
      if "cursor_for a n = Some q" "cursor_for b n = Some q'" "parse_engine_id (Some q) = Some p"
        "parse_engine_id (Some q') = Some p'" "ep_epoch p' = ep_epoch p" for q q' p p'
      using that by (fastforce simp: engine_before_def)
    moreover have "cursor_for b m = cursor_for a m" if "m \<noteq> n" for m
      using fanin_resume.advance_other [of m n i c] that 2 by simp
    ultimately show ?thesis using 2(1) by auto
  qed
qed

theorem resume_points_never_regress_witness:
  "cursor_for (fst (ingest (demo_opts 1 (\<lambda>n. True)) ''m'' (demo_frame ''e:9'') 0
     (demo_fanning\<lparr>resume_at := [(''local'', ''e:5'')]\<rparr>))) ''local'' = Some ''e:5''"
proof -
  obtain b v where i: "ingest (demo_opts 1 (\<lambda>n. True)) ''m'' (demo_frame ''e:9'') 0
     (demo_fanning\<lparr>resume_at := [(''local'', ''e:5'')]\<rparr>) = (b, v)" by (metis prod.exhaust)
  from resume_points_never_regress [OF i]
  have "cursor_for b ''local'' = cursor_for (demo_fanning\<lparr>resume_at := [(''local'', ''e:5'')]\<rparr>) ''local''" by auto
  then show ?thesis unfolding i fst_conv by (simp add: cursor_for_def)
qed

text \<open>Leaving the fleet under backpressure reorders the local stream: a local frame that waits in
  the composite queue when the last peer leaves is overtaken by a later one, which waits in the
  verbatim buffer and is flushed first; afterwards the composite cursor stands at the earlier one.\<close>

theorem leaving_the_fleet_reorders_frames:
  "let a = fanin_run (demo_opts 256 (\<lambda>n. n \<noteq> 0))
      [FMembers [demo_peer], FIngest ''local'' (demo_frame ''1'') 0, FIngest ''local'' (demo_frame ''2'') 0,
       FMembers [], FIngest ''local'' (demo_frame ''3'') 0, FDrain] new_aggregator
   in handed a = [(''local'', demo_frame ''1''), (''local'', demo_frame ''3''), (''local'', demo_frame ''2'')]
      \<and> flowing a \<and> cursor a = ''local=2''"
proof -
  have ctl: "engine_control_type (demo_frame i) \<noteq> Some ServerCursorUnservable" if "i \<in> {''1'', ''2'', ''3''}" for i
    using that by (auto simp: demo_frame_def engine_control_type_def engine_control_max_bytes_def control_at_def
      data_prefix_def control_opening_def drop_space_def Let_def)
  have raw: "frame_raw_id (demo_frame i) = Some i" if "i \<in> {''1'', ''2'', ''3''}" for i
    using that by (auto simp: demo_frame_def frame_raw_id_def split_lines_def strip_cr_def last_id_def
        line_id_def id_prefix_def drop_space_def Let_def)
  show ?thesis
    using ctl raw
    by (simp add: Let_def demo_opts_def set_membership_def admit_member_def demo_peer_def member_usable_def
        js_trim_def js_space_def new_aggregator_def set_add_def ingest_plain route_eq
        local_namespace_def received_resuming note_position_def deliver_eq enqueue_frame_def
        resume_flow_def emit_gap_if_dropped_def cursor_def format_composite_cursor_def)
qed

end
