(* ===== verification/Owner_Map.thy ===== *)
theory Owner_Map
  imports Fleet_Prelude
begin

text \<open>
  Which machine owns a session (\<open>packages/extension/src/amicode_service/session_multiplexer.ts\<close>):
  the session id carried by a request path, and \<open>SessionOwnerMap\<close>, the binding of session ids
  to owner machines that the fleet projection feeds. The clock is an argument: \<open>update\<close> reads
  it once while it applies the peers' outcomes (\<open>now\<close>) and once while it prunes the create-time
  bindings (\<open>now'\<close>). The contract of the map is stated per peer: what one refresh does to one
  peer is a step of a three-state automaton that reads only that peer's part of the refresh.
\<close>

section \<open>Session ids in request paths\<close>

definition slash :: char where
  "slash = CHR ''/''"

text \<open>\<open>^prefix([^/]+)\<close>: the non-empty segment that follows a prefix, and what follows it.\<close>

definition segment_after :: "string \<Rightarrow> string \<Rightarrow> (string \<times> string) option" where
  "segment_after prefix path =
     (if starts_with path prefix then
        let rest = drop (length prefix) path;
            seg = takeWhile (\<lambda>c. c \<noteq> slash) rest
        in if seg = [] then None else Some (seg, drop (length seg) rest)
      else None)"

definition extract_session_id_from_path :: "string \<Rightarrow> string option" where
  "extract_session_id_from_path path =
     (case segment_after ''/api/session/'' path of
        None \<Rightarrow> None
      | Some (seg, rest) \<Rightarrow> if rest = [] then None else Some seg)"

definition extract_session_id_from_read_path :: "string \<Rightarrow> string option" where
  "extract_session_id_from_read_path path =
     (if path = ''/session/status'' then None
      else case segment_after ''/session/'' path of
        Some (seg, rest) \<Rightarrow> Some seg
      | None \<Rightarrow>
          (case segment_after ''/api/session/'' path of
             Some (seg, rest) \<Rightarrow> Some seg
           | None \<Rightarrow>
               (case segment_after ''/experimental/session/'' path of
                  Some (seg, rest) \<Rightarrow> if rest = ''/background'' then Some seg else None
                | None \<Rightarrow> None)))"

lemma takeWhile_no_slash: "slash \<notin> set s \<Longrightarrow> takeWhile (\<lambda>c. c \<noteq> slash) (s @ slash # t) = s"
  by (induction s) auto

lemma takeWhile_no_slash_end: "slash \<notin> set s \<Longrightarrow> takeWhile (\<lambda>c. c \<noteq> slash) s = s"
  by (induction s) auto

lemma segment_after_append:
  "s \<noteq> [] \<Longrightarrow> slash \<notin> set s \<Longrightarrow> segment_after p (p @ s @ slash # t) = Some (s, slash # t)"
  by (simp add: segment_after_def takeWhile_no_slash)

lemma segment_after_append_end:
  "s \<noteq> [] \<Longrightarrow> slash \<notin> set s \<Longrightarrow> segment_after p (p @ s) = Some (s, [])"
  by (simp add: segment_after_def takeWhile_no_slash_end)

lemma segment_after_Some:
  "segment_after p path = Some (seg, rest) \<Longrightarrow>
   path = p @ seg @ rest \<and> seg \<noteq> [] \<and> slash \<notin> set seg \<and> (rest = [] \<or> hd rest = slash)"
proof -
  assume a: "segment_after p path = Some (seg, rest)"
  then obtain r where r: "path = p @ r"
    by (auto simp: segment_after_def starts_with_iff split: if_splits)
  with a have seg: "seg = takeWhile (\<lambda>c. c \<noteq> slash) r" and rest: "rest = drop (length seg) r"
    and ne: "seg \<noteq> []"
    by (auto simp: segment_after_def Let_def split: if_splits)
  have rest': "rest = dropWhile (\<lambda>c. c \<noteq> slash) r"
    unfolding rest seg by (metis dropWhile_eq_drop)
  have "path = p @ seg @ rest" unfolding r rest' seg by simp
  moreover have "slash \<notin> set seg" unfolding seg by (auto dest: set_takeWhileD)
  moreover have "rest = [] \<or> hd rest = slash"
    unfolding rest' using hd_dropWhile [of "\<lambda>c. c \<noteq> slash" r] by auto
  ultimately show ?thesis using ne by blast
qed

text \<open>Every path the narrow matcher recognises names the same session in the wide one.\<close>

lemma wide_matcher_extends_narrow:
  assumes "extract_session_id_from_path path = Some sid"
  shows "extract_session_id_from_read_path path = Some sid"
proof -
  from assms obtain rest where m: "segment_after ''/api/session/'' path = Some (sid, rest)"
    by (auto simp: extract_session_id_from_path_def split: option.splits prod.splits if_splits)
  then have p: "path = ''/api/session/'' @ sid @ rest" by (blast dest: segment_after_Some)
  have "segment_after ''/session/'' path = None" unfolding p by (simp add: segment_after_def)
  moreover have "path \<noteq> ''/session/status''" unfolding p by simp
  ultimately show ?thesis using m by (simp add: extract_session_id_from_read_path_def)
qed

section \<open>The state\<close>

record session_owner_tag =
  owner_machine_id :: string
  owner_name :: string
  device_type :: "string option"
  tag_directory :: "string option"
  tag_is_local :: bool

text \<open>A field that is not a string in the projection's JSON is \<open>None\<close>.\<close>

record session_entry =
  entry_id :: "string option"
  amicode_owner :: "session_owner_tag option"
  entry_directory :: "string option"

datatype refresh_outcome = Refresh_ok | Refresh_timeout | Refresh_error | Refresh_unauthorized

datatype absence_reason =
  Credential_missing | No_upstream | Fetch_failed | Source_unauthorized | Untrusted | Identity_conflict

record refresh_peer =
  refreshed_peer :: string
  refresh_outcome_of :: refresh_outcome
  refresh_reason :: "absence_reason option"

datatype owner_retention =
    Retained nat int
  | Expired nat
  | Dropped nat
  | Retention_unavailable

record held_entry =
  held_id :: string
  held_directory :: "string option"

record peer_slice =
  good_at :: int
  good_entries :: "held_entry list"

record pending_owner =
  pending_machine :: string
  pending_at :: int

record owner_map =
  owners :: "string obj"
  directories :: "string obj"
  pending :: "pending_owner obj"
  last_good :: "peer_slice obj"
  unavailable_peers :: "string list"
  retention_ms :: int

definition PENDING_OWNER_TTL_MS :: int where "PENDING_OWNER_TTL_MS = 60000"
definition OWNER_RETENTION_MS :: int where "OWNER_RETENTION_MS = 60000"

definition new_owner_map :: "int option \<Rightarrow> owner_map" where
  "new_owner_map retention =
     \<lparr> owners = [], directories = [], pending = [], last_good = [], unavailable_peers = [],
       retention_ms = or_else retention OWNER_RETENTION_MS \<rparr>"

text \<open>A string that is present and not empty: what a condition of the source accepts.\<close>

fun truthy :: "string option \<Rightarrow> string option" where
  "truthy (Some []) = None"
| "truthy s = s"

lemma truthy_Some [simp]: "truthy s = Some t \<longleftrightarrow> s = Some t \<and> t \<noteq> []"
  by (cases s rule: truthy.cases) auto

lemma truthy_not_Nil [simp]: "t \<noteq> [] \<Longrightarrow> truthy (Some t) = Some t"
  by (cases t) auto

section \<open>One refresh\<close>

definition refresh_retains :: "refresh_peer \<Rightarrow> bool" where
  "refresh_retains peer =
     (if refresh_outcome_of peer = Refresh_timeout then True
      else if refresh_outcome_of peer \<noteq> Refresh_error then False
      else refresh_reason peer = Some Fetch_failed \<or> refresh_reason peer = Some No_upstream)"

definition owner_of_entry :: "session_entry \<Rightarrow> (string \<times> held_entry) option" where
  "owner_of_entry e =
     (case entry_id e of
        None \<Rightarrow> None
      | Some sid \<Rightarrow>
          (case amicode_owner e of
             None \<Rightarrow> None
           | Some tag \<Rightarrow>
               if owner_machine_id tag = [] then None
               else
                 let directory = (case truthy (entry_directory e) of
                                    Some d \<Rightarrow> Some d
                                  | None \<Rightarrow> tag_directory tag)
                 in Some (owner_machine_id tag,
                          \<lparr> held_id = sid, held_directory = truthy directory \<rparr>)))"

definition hold :: "string \<Rightarrow> held_entry \<Rightarrow> owner_map \<Rightarrow> owner_map" where
  "hold owner e m =
     m\<lparr> owners := obj_set (owners m) (held_id e) owner,
        directories := (case held_directory e of
                          None \<Rightarrow> directories m
                        | Some d \<Rightarrow> obj_set (directories m) (held_id e) d) \<rparr>"

definition push_fresh :: "held_entry list obj \<Rightarrow> string \<Rightarrow> held_entry \<Rightarrow> held_entry list obj" where
  "push_fresh fresh owner e =
     (case obj_get fresh owner of
        Some l \<Rightarrow> obj_set fresh owner (l @ [e])
      | None \<Rightarrow> obj_set fresh owner [e])"

definition take_entry ::
  "owner_map \<times> held_entry list obj \<Rightarrow> session_entry \<Rightarrow> owner_map \<times> held_entry list obj" where
  "take_entry mf s =
     (case owner_of_entry s of
        None \<Rightarrow> mf
      | Some (owner, e) \<Rightarrow> (hold owner e (fst mf), push_fresh (snd mf) owner e))"

definition read_projection ::
  "session_entry list \<Rightarrow> owner_map \<Rightarrow> owner_map \<times> held_entry list obj" where
  "read_projection sessions m =
     foldl take_entry (m\<lparr> owners := [], directories := [] \<rparr>, []) sessions"

definition forget_peers :: "owner_map \<Rightarrow> owner_map \<times> owner_retention obj" where
  "forget_peers m = (m\<lparr> last_good := [], unavailable_peers := [] \<rparr>, [])"

definition keep_unconfirmed :: "string \<Rightarrow> held_entry list \<Rightarrow> owner_map \<Rightarrow> owner_map" where
  "keep_unconfirmed peer es m =
     foldl (\<lambda>m e. if obj_has (owners m) (held_id e) then m else hold peer e m) m es"

definition apply_peer ::
  "held_entry list obj \<Rightarrow> int \<Rightarrow> owner_map \<times> owner_retention obj \<Rightarrow> refresh_peer
     \<Rightarrow> owner_map \<times> owner_retention obj" where
  "apply_peer fresh now mo peer =
     (let m = fst mo; out = snd mo; p = refreshed_peer peer in
      if refresh_outcome_of peer = Refresh_ok then
        let entries = or_else (obj_get fresh p) [] in
        (m\<lparr> last_good := (if entries \<noteq> []
                            then obj_set (last_good m) p \<lparr> good_at = now, good_entries = entries \<rparr>
                            else obj_del (last_good m) p),
            unavailable_peers := set_delete p (unavailable_peers m) \<rparr>, out)
      else
        (case obj_get (last_good m) p of
           Some kept \<Rightarrow>
             if refresh_retains peer \<and> now - good_at kept \<le> retention_ms m then
               (keep_unconfirmed p (good_entries kept) m,
                obj_set out p (Retained (length (good_entries kept)) (now - good_at kept)))
             else
               (m\<lparr> last_good := obj_del (last_good m) p,
                   unavailable_peers := set_add p (unavailable_peers m) \<rparr>,
                obj_set out p (if refresh_retains peer then Expired (length (good_entries kept))
                               else Dropped (length (good_entries kept))))
         | None \<Rightarrow>
             if p \<in> set (unavailable_peers m) then (m, obj_set out p Retention_unavailable)
             else (m, out)))"

definition apply_peer_outcomes ::
  "held_entry list obj \<Rightarrow> refresh_peer list \<Rightarrow> int \<Rightarrow> owner_map \<Rightarrow> owner_map \<times> owner_retention obj"
where
  "apply_peer_outcomes fresh peers now m =
     (let refreshed = map refreshed_peer peers;
          m = m\<lparr> last_good := filter (\<lambda>e. fst e \<in> set refreshed) (last_good m),
                 unavailable_peers := filter (\<lambda>p. p \<in> set refreshed) (unavailable_peers m) \<rparr>
      in foldl (apply_peer fresh now) (m, []) peers)"

definition prune_pending :: "int \<Rightarrow> owner_map \<Rightarrow> owner_map" where
  "prune_pending now m =
     (let cutoff = now - PENDING_OWNER_TTL_MS in
      m\<lparr> pending := filter (\<lambda>(sid, p). \<not> (obj_has (owners m) sid \<or> pending_at p < cutoff)) (pending m) \<rparr>)"

definition update_owner_map ::
  "session_entry list \<Rightarrow> refresh_peer list option \<Rightarrow> int \<Rightarrow> int \<Rightarrow> owner_map
     \<Rightarrow> owner_map \<times> owner_retention obj" where
  "update_owner_map sessions peers now now' m =
     (let (m, fresh) = read_projection sessions m;
          (m, retention) = (case peers of
                              None \<Rightarrow> forget_peers m
                            | Some ps \<Rightarrow> apply_peer_outcomes fresh ps now m)
      in (prune_pending now' m, retention))"

section \<open>Reading the map, and the create-time bindings\<close>

definition record_pending_owner :: "string \<Rightarrow> string \<Rightarrow> int \<Rightarrow> owner_map \<Rightarrow> owner_map" where
  "record_pending_owner sid machine now m =
     (if sid = [] \<or> machine = [] then m
      else m\<lparr> pending := obj_set (pending m) sid \<lparr> pending_machine = machine, pending_at = now \<rparr> \<rparr>)"

definition resolve_owner :: "string \<Rightarrow> int \<Rightarrow> owner_map \<Rightarrow> string option \<times> owner_map" where
  "resolve_owner sid now m =
     (case truthy (obj_get (owners m) sid) of
        Some authoritative \<Rightarrow> (Some authoritative, m)
      | None \<Rightarrow>
          (case obj_get (pending m) sid of
             None \<Rightarrow> (None, m)
           | Some p \<Rightarrow>
               if pending_at p < now - PENDING_OWNER_TTL_MS
               then (None, m\<lparr> pending := obj_del (pending m) sid \<rparr>)
               else (Some (pending_machine p), m)))"

definition resolve_directory :: "string \<Rightarrow> owner_map \<Rightarrow> string option" where
  "resolve_directory sid m = obj_get (directories m) sid"

definition owner_machine_ids :: "owner_map \<Rightarrow> string list" where
  "owner_machine_ids m = foldl (\<lambda>s p. set_add p s) [] (map snd (owners m) @ unavailable_peers m)"

definition is_unavailable :: "string \<Rightarrow> owner_map \<Rightarrow> bool" where
  "is_unavailable machine m \<longleftrightarrow> machine \<in> set (unavailable_peers m)"

definition owner_map_size :: "owner_map \<Rightarrow> nat" where
  "owner_map_size m = length (owners m)"

definition fan_in_reachable :: "owner_map \<Rightarrow> (string \<Rightarrow> bool) \<Rightarrow> string \<Rightarrow> bool" where
  "fan_in_reachable m transport_up machine \<longleftrightarrow> \<not> is_unavailable machine m \<and> transport_up machine"

definition owner_map_refresh ::
  "(session_entry list \<times> refresh_peer list option) option \<Rightarrow> bool \<Rightarrow> int \<Rightarrow> int \<Rightarrow> owner_map \<Rightarrow> owner_map"
where
  "owner_map_refresh projection stopped now now' m =
     (case projection of
        None \<Rightarrow> m
      | Some (sessions, peers) \<Rightarrow>
          if stopped then m else fst (update_owner_map sessions peers now now' m))"

end
