(* ===== verification/Owner_Retention.thy ===== *)
theory Owner_Retention
  imports Owner_Map
begin

text \<open>
  What a refresh does to the owner map, stated twice: per peer, as a step of an automaton that
  sees that peer's part of the refresh only, and per session, as the owner it ends up with. The
  properties follow a peer's sessions through a run of refreshes.
\<close>

section \<open>One peer's view of the map\<close>

datatype peer_view = Nothing_held | Holding int "held_entry list" | Named_unavailable

definition peer_view_of :: "owner_map \<Rightarrow> string \<Rightarrow> peer_view" where
  "peer_view_of m p =
     (case obj_get (last_good m) p of
        Some kept \<Rightarrow> Holding (good_at kept) (good_entries kept)
      | None \<Rightarrow> if p \<in> set (unavailable_peers m) then Named_unavailable else Nothing_held)"

datatype peer_news = Not_refreshed | Answered "held_entry list" | Failed bool

definition claims :: "session_entry list \<Rightarrow> (string \<times> held_entry) list" where
  "claims sessions = List.map_filter owner_of_entry sessions"

definition owned_by :: "string \<Rightarrow> (string \<times> held_entry) list \<Rightarrow> held_entry list" where
  "owned_by p cs = map snd (filter (\<lambda>c. fst c = p) cs)"

definition news_of :: "session_entry list \<Rightarrow> refresh_peer list \<Rightarrow> string \<Rightarrow> peer_news" where
  "news_of sessions peers p =
     (case find (\<lambda>q. refreshed_peer q = p) peers of
        None \<Rightarrow> Not_refreshed
      | Some q \<Rightarrow> if refresh_outcome_of q = Refresh_ok then Answered (owned_by p (claims sessions))
                  else Failed (refresh_retains q))"

fun next_view :: "int \<Rightarrow> int \<Rightarrow> peer_view \<Rightarrow> peer_news \<Rightarrow> peer_view" where
  "next_view retention now v Not_refreshed = Nothing_held"
| "next_view retention now v (Answered es) = (if es = [] then Nothing_held else Holding now es)"
| "next_view retention now (Holding at es) (Failed retains) =
     (if retains \<and> now - at \<le> retention then Holding at es else Named_unavailable)"
| "next_view retention now v (Failed retains) = v"

section \<open>Reading the projection\<close>

definition take_claim ::
  "owner_map \<times> held_entry list obj \<Rightarrow> string \<times> held_entry \<Rightarrow> owner_map \<times> held_entry list obj" where
  "take_claim mf c = (hold (fst c) (snd c) (fst mf), push_fresh (snd mf) (fst c) (snd c))"

lemma read_projection_claims:
  "read_projection sessions m =
     foldl take_claim (m\<lparr> owners := [], directories := [] \<rparr>, []) (claims sessions)"
proof -
  have "foldl take_entry mf sessions = foldl take_claim mf (claims sessions)" for mf
    by (induction sessions arbitrary: mf)
      (auto simp: claims_def map_filter_simps take_entry_def take_claim_def split: option.splits)
  then show ?thesis by (simp add: read_projection_def)
qed

lemma hold_frame [simp]:
  "last_good (hold p e m) = last_good m" "unavailable_peers (hold p e m) = unavailable_peers m"
  "retention_ms (hold p e m) = retention_ms m" "pending (hold p e m) = pending m"
  "owners (hold p e m) = obj_set (owners m) (held_id e) p"
  by (simp_all add: hold_def)

lemma take_claims_frame:
  "last_good (fst (foldl take_claim mf cs)) = last_good (fst mf)"
  "unavailable_peers (fst (foldl take_claim mf cs)) = unavailable_peers (fst mf)"
  "retention_ms (fst (foldl take_claim mf cs)) = retention_ms (fst mf)"
  "pending (fst (foldl take_claim mf cs)) = pending (fst mf)"
  by (induction cs arbitrary: mf) (auto simp: take_claim_def)

lemma or_else_push_fresh:
  "or_else (obj_get (push_fresh f o' e) p) [] = or_else (obj_get f p) [] @ (if o' = p then [e] else [])"
  by (auto simp: push_fresh_def split: option.splits)

lemma take_claims_fresh:
  "or_else (obj_get (snd (foldl take_claim mf cs)) p) [] = or_else (obj_get (snd mf) p) [] @ owned_by p cs"
proof (induction cs arbitrary: mf)
  case (Cons c cs)
  show ?case
    by (simp only: foldl_Cons Cons.IH)
      (simp add: take_claim_def or_else_push_fresh owned_by_def)
qed (simp add: owned_by_def)

definition claimant :: "session_entry list \<Rightarrow> string \<Rightarrow> string option" where
  "claimant sessions sid = map_option fst (find (\<lambda>c. held_id (snd c) = sid) (rev (claims sessions)))"

lemma find_append: "find P (xs @ ys) = (case find P xs of Some x \<Rightarrow> Some x | None \<Rightarrow> find P ys)"
  by (induction xs) auto

lemma take_claims_owners:
  "obj_get (owners (fst (foldl take_claim mf cs))) x =
     (case find (\<lambda>c. held_id (snd c) = x) (rev cs) of
        Some c \<Rightarrow> Some (fst c) | None \<Rightarrow> obj_get (owners (fst mf)) x)"
proof (induction cs arbitrary: mf)
  case (Cons c cs)
  show ?case
    by (simp only: foldl_Cons Cons.IH rev.simps find_append)
      (auto simp: take_claim_def split: option.splits)
qed simp

lemmas read_projection_facts =
  take_claims_frame take_claims_fresh take_claims_owners

section \<open>The peers' outcomes\<close>

lemma keep_unconfirmed_frame [simp]:
  "last_good (keep_unconfirmed p es m) = last_good m"
  "unavailable_peers (keep_unconfirmed p es m) = unavailable_peers m"
  "retention_ms (keep_unconfirmed p es m) = retention_ms m"
  "pending (keep_unconfirmed p es m) = pending m"
  by (induction es arbitrary: m) (auto simp: keep_unconfirmed_def)

lemma keep_unconfirmed_owners:
  "obj_get (owners (keep_unconfirmed p es m)) x =
     (case obj_get (owners m) x of
        Some o' \<Rightarrow> Some o' | None \<Rightarrow> if x \<in> held_id ` set es then Some p else None)"
proof (induction es arbitrary: m)
  case (Cons e es)
  have step: "keep_unconfirmed p (e # es) m =
    keep_unconfirmed p es (if obj_has (owners m) (held_id e) then m else hold p e m)"
    by (simp add: keep_unconfirmed_def)
  show ?case
    unfolding step Cons.IH
  proof (cases "obj_get (owners m) (held_id e)")
    case None
    then have "\<not> obj_has (owners m) (held_id e)" by (simp add: obj_get_None_iff)
    with None show "(case obj_get (owners (if obj_has (owners m) (held_id e) then m else hold p e m)) x of
        Some o' \<Rightarrow> Some o' | None \<Rightarrow> if x \<in> held_id ` set es then Some p else None) =
      (case obj_get (owners m) x of
        Some o' \<Rightarrow> Some o' | None \<Rightarrow> if x \<in> held_id ` set (e # es) then Some p else None)"
      by (auto split: option.splits)
  next
    case (Some o')
    then have "obj_has (owners m) (held_id e)" by (metis obj_get_None_iff option.distinct(1))
    with Some show "(case obj_get (owners (if obj_has (owners m) (held_id e) then m else hold p e m)) x of
        Some o' \<Rightarrow> Some o' | None \<Rightarrow> if x \<in> held_id ` set es then Some p else None) =
      (case obj_get (owners m) x of
        Some o' \<Rightarrow> Some o' | None \<Rightarrow> if x \<in> held_id ` set (e # es) then Some p else None)"
      by (auto split: option.splits)
  qed
qed (simp add: keep_unconfirmed_def split: option.splits)

lemma apply_peer_retention [simp]:
  "retention_ms (fst (apply_peer fresh now mo q)) = retention_ms (fst mo)"
  "pending (fst (apply_peer fresh now mo q)) = pending (fst mo)"
  by (auto simp: apply_peer_def Let_def split: option.splits)

lemma apply_peer_view:
  "peer_view_of (fst (apply_peer fresh now mo q)) p =
     (if refreshed_peer q = p then
        next_view (retention_ms (fst mo)) now (peer_view_of (fst mo) p)
          (if refresh_outcome_of q = Refresh_ok then Answered (or_else (obj_get fresh p) [])
           else Failed (refresh_retains q))
      else peer_view_of (fst mo) p)"
  by (auto simp: apply_peer_def peer_view_of_def Let_def set_add_def split: option.splits)

lemma apply_peers_frame:
  "retention_ms (fst (foldl (apply_peer fresh now) mo peers)) = retention_ms (fst mo)"
  "pending (fst (foldl (apply_peer fresh now) mo peers)) = pending (fst mo)"
  by (induction peers arbitrary: mo) auto

lemma apply_peers_other_view:
  "p \<notin> refreshed_peer ` set peers \<Longrightarrow>
   peer_view_of (fst (foldl (apply_peer fresh now) mo peers)) p = peer_view_of (fst mo) p"
  by (induction peers arbitrary: mo) (auto simp: apply_peer_view)

lemma apply_peers_view:
  assumes "distinct (map refreshed_peer peers)" and "p \<in> refreshed_peer ` set peers"
  shows "peer_view_of (fst (foldl (apply_peer fresh now) mo peers)) p =
    next_view (retention_ms (fst mo)) now (peer_view_of (fst mo) p)
      (case find (\<lambda>q. refreshed_peer q = p) peers of
         None \<Rightarrow> Not_refreshed
       | Some q \<Rightarrow> if refresh_outcome_of q = Refresh_ok then Answered (or_else (obj_get fresh p) [])
                   else Failed (refresh_retains q))"
  using assms
proof (induction peers arbitrary: mo)
  case (Cons q peers)
  show ?case
  proof (cases "refreshed_peer q = p")
    case True
    with Cons.prems have "p \<notin> refreshed_peer ` set peers" by auto
    with True show ?thesis by (simp add: apply_peers_other_view apply_peer_view)
  next
    case False
    with Cons.prems have "p \<in> refreshed_peer ` set peers" by auto
    with Cons False show ?thesis by (simp add: apply_peer_view)
  qed
qed simp

lemma map_of_filter_keys:
  "map_of (filter (\<lambda>e. fst e \<in> A) m) k = (if k \<in> A then map_of m k else None)"
  by (induction m) auto

lemma apply_peer_outcomes_view:
  assumes "distinct (map refreshed_peer peers)"
  shows "peer_view_of (fst (apply_peer_outcomes fresh peers now m)) p =
    next_view (retention_ms m) now (peer_view_of m p)
      (case find (\<lambda>q. refreshed_peer q = p) peers of
         None \<Rightarrow> Not_refreshed
       | Some q \<Rightarrow> if refresh_outcome_of q = Refresh_ok then Answered (or_else (obj_get fresh p) [])
                   else Failed (refresh_retains q))"
proof (cases "p \<in> refreshed_peer ` set peers")
  case True
  with assms show ?thesis
    by (simp add: apply_peer_outcomes_def Let_def apply_peers_view)
      (simp add: peer_view_of_def map_of_filter_keys)
next
  case False
  then have "find (\<lambda>q. refreshed_peer q = p) peers = None" by (auto simp: find_None_iff)
  with False show ?thesis
    by (simp add: apply_peer_outcomes_def Let_def apply_peers_other_view)
      (simp add: peer_view_of_def map_of_filter_keys)
qed

lemma prune_pending_frame [simp]:
  "owners (prune_pending now m) = owners m" "last_good (prune_pending now m) = last_good m"
  "unavailable_peers (prune_pending now m) = unavailable_peers m"
  "retention_ms (prune_pending now m) = retention_ms m"
  by (simp_all add: prune_pending_def Let_def)

lemma peer_view_prune [simp]: "peer_view_of (prune_pending now m) p = peer_view_of m p"
  by (simp add: peer_view_of_def)

lemma fst_update:
  "fst (update_owner_map sessions (Some peers) now now' m) =
     prune_pending now' (fst (apply_peer_outcomes (snd (read_projection sessions m)) peers now
       (fst (read_projection sessions m))))"
  by (simp add: update_owner_map_def case_prod_beta Let_def)

lemma read_projection_frame:
  "peer_view_of (fst (read_projection sessions m)) p = peer_view_of m p"
  "retention_ms (fst (read_projection sessions m)) = retention_ms m"
  "or_else (obj_get (snd (read_projection sessions m)) p) [] = owned_by p (claims sessions)"
  by (simp_all add: peer_view_of_def read_projection_claims take_claims_frame take_claims_fresh)

lemma update_view:
  assumes "distinct (map refreshed_peer peers)"
  shows "peer_view_of (fst (update_owner_map sessions (Some peers) now now' m)) p =
    next_view (retention_ms m) now (peer_view_of m p) (news_of sessions peers p)"
  by (simp only: fst_update peer_view_prune apply_peer_outcomes_view [OF assms]
      read_projection_frame news_of_def)

lemma apply_peer_outcomes_retention:
  "retention_ms (fst (apply_peer_outcomes fresh peers now m)) = retention_ms m"
  by (simp add: apply_peer_outcomes_def Let_def apply_peers_frame)

lemma update_retention [simp]:
  "retention_ms (fst (update_owner_map sessions (Some peers) now now' m)) = retention_ms m"
  by (simp only: fst_update prune_pending_frame apply_peer_outcomes_retention read_projection_frame)

section \<open>The owner of a session after a refresh\<close>

fun view_keeps :: "int \<Rightarrow> int \<Rightarrow> string \<Rightarrow> peer_view \<Rightarrow> bool" where
  "view_keeps retention now sid (Holding at es) \<longleftrightarrow> now - at \<le> retention \<and> sid \<in> held_id ` set es"
| "view_keeps retention now sid v \<longleftrightarrow> False"

definition keeps :: "owner_map \<Rightarrow> int \<Rightarrow> string \<Rightarrow> refresh_peer \<Rightarrow> bool" where
  "keeps m now sid q \<longleftrightarrow>
     refresh_outcome_of q \<noteq> Refresh_ok \<and> refresh_retains q \<and>
     view_keeps (retention_ms m) now sid (peer_view_of m (refreshed_peer q))"

definition owner_after :: "session_entry list \<Rightarrow> refresh_peer list \<Rightarrow> int \<Rightarrow> owner_map \<Rightarrow> string \<Rightarrow> string option"
where
  "owner_after sessions peers now m sid =
     (case claimant sessions sid of
        Some owner \<Rightarrow> Some owner
      | None \<Rightarrow> map_option refreshed_peer (find (keeps m now sid) peers))"

lemma apply_peer_owners:
  "obj_get (owners (fst (apply_peer fresh now mo q))) x =
     (case obj_get (owners (fst mo)) x of
        Some o' \<Rightarrow> Some o'
      | None \<Rightarrow> if keeps (fst mo) now x q then Some (refreshed_peer q) else None)"
  by (auto simp: apply_peer_def keeps_def peer_view_of_def Let_def keep_unconfirmed_owners
      split: option.splits)

lemma keeps_frame:
  assumes "refreshed_peer q' \<noteq> refreshed_peer q"
  shows "keeps (fst (apply_peer fresh now mo q)) now x q' = keeps (fst mo) now x q'"
  using assms by (simp add: keeps_def apply_peer_view)

lemma find_cong_on: "(\<And>x. x \<in> set xs \<Longrightarrow> P x = Q x) \<Longrightarrow> find P xs = find Q xs"
  by (induction xs) auto

lemma apply_peers_owners:
  assumes "distinct (map refreshed_peer peers)"
  shows "obj_get (owners (fst (foldl (apply_peer fresh now) mo peers))) x =
    (case obj_get (owners (fst mo)) x of
       Some o' \<Rightarrow> Some o'
     | None \<Rightarrow> map_option refreshed_peer (find (keeps (fst mo) now x) peers))"
  using assms
proof (induction peers arbitrary: mo)
  case (Cons q peers)
  have tail: "find (keeps (fst (apply_peer fresh now mo q)) now x) peers = find (keeps (fst mo) now x) peers"
  proof (intro find_cong_on keeps_frame)
    fix q' assume "q' \<in> set peers"
    with Cons.prems show "refreshed_peer q' \<noteq> refreshed_peer q"
      by (metis distinct.simps(2) image_eqI list.simps(9) list.set_map)
  qed
  show ?case
    using Cons by (auto simp: tail apply_peer_owners split: option.splits)
qed (simp split: option.splits)

lemma keeps_restrict:
  "q \<in> set peers \<Longrightarrow>
   keeps (m\<lparr> last_good := filter (\<lambda>e. fst e \<in> refreshed_peer ` set peers) (last_good m),
            unavailable_peers := filter (\<lambda>p. p \<in> refreshed_peer ` set peers) (unavailable_peers m) \<rparr>) now x q
   = keeps m now x q"
  by (simp add: keeps_def peer_view_of_def map_of_filter_keys)

lemma apply_peer_outcomes_owners:
  assumes "distinct (map refreshed_peer peers)"
  shows "obj_get (owners (fst (apply_peer_outcomes fresh peers now m))) x =
    (case obj_get (owners m) x of
       Some o' \<Rightarrow> Some o'
     | None \<Rightarrow> map_option refreshed_peer (find (keeps m now x) peers))"
proof -
  let ?m = "m\<lparr> last_good := filter (\<lambda>e. fst e \<in> refreshed_peer ` set peers) (last_good m),
            unavailable_peers := filter (\<lambda>p. p \<in> refreshed_peer ` set peers) (unavailable_peers m) \<rparr>"
  have "find (keeps ?m now x) peers = find (keeps m now x) peers"
    by (intro find_cong_on keeps_restrict)
  with apply_peers_owners [OF assms, of fresh now "(?m, [])" x] show ?thesis
    by (simp add: apply_peer_outcomes_def Let_def cong: option.case_cong)
qed

lemma update_owners:
  assumes "distinct (map refreshed_peer peers)"
  shows "obj_get (owners (fst (update_owner_map sessions (Some peers) now now' m))) x =
    owner_after sessions peers now m x"
proof -
  have "keeps (fst (read_projection sessions m)) now x = keeps m now x"
    by (rule ext) (simp only: keeps_def read_projection_frame)
  moreover have "obj_get (owners (fst (read_projection sessions m))) x = claimant sessions x"
    by (simp add: read_projection_claims take_claims_owners claimant_def map_option_case
        cong: option.case_cong)
  ultimately show ?thesis
    by (simp only: fst_update prune_pending_frame apply_peer_outcomes_owners [OF assms] owner_after_def)
qed

section \<open>Runs of refreshes\<close>

record refresh =
  r_sessions :: "session_entry list"
  r_peers :: "refresh_peer list"
  r_now :: int
  r_prune_now :: int

definition refresh_once :: "owner_map \<Rightarrow> refresh \<Rightarrow> owner_map" where
  "refresh_once m r =
     fst (update_owner_map (r_sessions r) (Some (r_peers r)) (r_now r) (r_prune_now r) m)"

definition run_refreshes :: "refresh list \<Rightarrow> owner_map \<Rightarrow> owner_map" where
  "run_refreshes rs m = foldl refresh_once m rs"

text \<open>The fleet lists each machine once, and only \<open>p\<close> ever reports the session.\<close>

definition reported_only_by :: "string \<Rightarrow> string \<Rightarrow> refresh \<Rightarrow> bool" where
  "reported_only_by p sid r \<longleftrightarrow>
     distinct (map refreshed_peer (r_peers r)) \<and>
     list_all (\<lambda>c. held_id (snd c) = sid \<longrightarrow> fst c = p) (claims (r_sessions r))"

definition answered_with :: "string \<Rightarrow> string \<Rightarrow> refresh \<Rightarrow> bool" where
  "answered_with p sid r \<longleftrightarrow>
     claimant (r_sessions r) sid = Some p \<and>
     (case find (\<lambda>q. refreshed_peer q = p) (r_peers r) of
        None \<Rightarrow> False | Some q \<Rightarrow> refresh_outcome_of q = Refresh_ok)"

definition blackout :: "string \<Rightarrow> string \<Rightarrow> refresh \<Rightarrow> bool" where
  "blackout p sid r \<longleftrightarrow>
     claimant (r_sessions r) sid = None \<and>
     (case find (\<lambda>q. refreshed_peer q = p) (r_peers r) of
        None \<Rightarrow> False | Some q \<Rightarrow> refresh_outcome_of q \<noteq> Refresh_ok \<and> refresh_retains q)"

fun view_has :: "string \<Rightarrow> peer_view \<Rightarrow> bool" where
  "view_has sid (Holding at es) \<longleftrightarrow> sid \<in> held_id ` set es"
| "view_has sid v \<longleftrightarrow> False"

lemma view_keeps_has: "view_keeps retention now sid v \<Longrightarrow> view_has sid v"
  by (cases v) auto

lemma refresh_once_facts:
  assumes "distinct (map refreshed_peer (r_peers r))"
  shows "peer_view_of (refresh_once m r) p =
      next_view (retention_ms m) (r_now r) (peer_view_of m p) (news_of (r_sessions r) (r_peers r) p)"
    and "obj_get (owners (refresh_once m r)) x = owner_after (r_sessions r) (r_peers r) (r_now r) m x"
    and "retention_ms (refresh_once m r) = retention_ms m"
  using assms by (simp_all add: refresh_once_def update_view update_owners)

definition disjoint_inv :: "owner_map \<Rightarrow> bool" where
  "disjoint_inv m \<longleftrightarrow> (\<forall>p. obj_get (last_good m) p \<noteq> None \<longrightarrow> p \<notin> set (unavailable_peers m))"

lemma apply_peer_disjoint: "disjoint_inv (fst mo) \<Longrightarrow> disjoint_inv (fst (apply_peer fresh now mo q))"
  by (auto simp: disjoint_inv_def apply_peer_def Let_def split: option.splits)

lemma apply_peers_disjoint:
  "disjoint_inv (fst mo) \<Longrightarrow> disjoint_inv (fst (foldl (apply_peer fresh now) mo peers))"
proof (induction peers arbitrary: mo)
  case (Cons q peers)
  from Cons.IH [OF apply_peer_disjoint [OF Cons.prems]] show ?case by simp
qed simp

lemma refresh_once_disjoint [inv_intros]: "disjoint_inv m \<Longrightarrow> disjoint_inv (refresh_once m r)"
proof -
  assume m: "disjoint_inv m"
  let ?rp = "read_projection (r_sessions r) m"
  have rp: "disjoint_inv (fst ?rp)"
    using m by (simp add: disjoint_inv_def read_projection_claims take_claims_frame)
  let ?m = "(fst ?rp)\<lparr> last_good := filter (\<lambda>e. fst e \<in> refreshed_peer ` set (r_peers r)) (last_good (fst ?rp)),
    unavailable_peers := filter (\<lambda>p. p \<in> refreshed_peer ` set (r_peers r)) (unavailable_peers (fst ?rp)) \<rparr>"
  have "disjoint_inv ?m"
    using rp by (simp add: disjoint_inv_def map_of_filter_keys)
  then have "disjoint_inv (fst (foldl (apply_peer (snd ?rp) (r_now r)) (?m, []) (r_peers r)))"
    by (intro apply_peers_disjoint) simp
  then show ?thesis
    by (simp add: refresh_once_def fst_update apply_peer_outcomes_def Let_def disjoint_inv_def)
qed

lemma disjoint_new [simp]: "disjoint_inv (new_owner_map retention)"
  by (simp add: disjoint_inv_def new_owner_map_def)

lemma run_disjoint: "disjoint_inv m \<Longrightarrow> disjoint_inv (run_refreshes rs m)"
  by (induction rs arbitrary: m) (auto simp: run_refreshes_def intro: inv_intros)

lemma unavailable_view: "disjoint_inv m \<Longrightarrow> is_unavailable p m \<longleftrightarrow> peer_view_of m p = Named_unavailable"
  by (auto simp: disjoint_inv_def is_unavailable_def peer_view_of_def split: option.splits)

lemma run_retention: "(\<And>r. r \<in> set rs \<Longrightarrow> distinct (map refreshed_peer (r_peers r))) \<Longrightarrow>
   retention_ms (run_refreshes rs m) = retention_ms m"
  by (induction rs arbitrary: m) (auto simp: run_refreshes_def refresh_once_def)

section \<open>The session only one machine reports\<close>

lemma owned_by_claimed:
  "e \<in> set (owned_by q cs) \<Longrightarrow> (q, e) \<in> set cs"
  by (auto simp: owned_by_def)

lemma others_stay_clean:
  assumes only: "reported_only_by p sid r" and clean: "\<And>q. q \<noteq> p \<Longrightarrow> \<not> view_has sid (peer_view_of m q)"
    and q: "q \<noteq> p"
  shows "\<not> view_has sid (peer_view_of (refresh_once m r) q)"
proof -
  have d: "distinct (map refreshed_peer (r_peers r))" using only by (simp add: reported_only_by_def)
  have "sid \<notin> held_id ` set (owned_by q (claims (r_sessions r)))"
    using only q by (auto simp: reported_only_by_def list_all_iff dest!: owned_by_claimed)
  then have ans: "\<not> view_has sid (next_view (retention_ms m) (r_now r) (peer_view_of m q)
      (Answered (owned_by q (claims (r_sessions r)))))"
    by simp
  have keep: "\<not> view_has sid (next_view (retention_ms m) (r_now r) (peer_view_of m q) (Failed b))" for b
    using clean [OF q] by (cases "peer_view_of m q") auto
  show ?thesis
    unfolding refresh_once_facts(1) [OF d] news_of_def
    using ans keep by (auto split: option.splits)
qed

lemma run_others_clean:
  assumes "\<And>r. r \<in> set rs \<Longrightarrow> reported_only_by p sid r"
    and "\<And>q. q \<noteq> p \<Longrightarrow> \<not> view_has sid (peer_view_of m q)" and "q \<noteq> p"
  shows "\<not> view_has sid (peer_view_of (run_refreshes rs m) q)"
  using assms
proof (induction rs arbitrary: m)
  case (Cons r rs)
  have "\<not> view_has sid (peer_view_of (refresh_once m r) q')" if "q' \<noteq> p" for q'
    using others_stay_clean [OF _ Cons.prems(2) that] Cons.prems(1) by simp
  with Cons show ?case by (simp add: run_refreshes_def)
qed (simp add: run_refreshes_def)

lemma new_views [simp]: "peer_view_of (new_owner_map retention) p = Nothing_held"
  by (simp add: peer_view_of_def new_owner_map_def)

definition in_window :: "int \<Rightarrow> int \<Rightarrow> refresh list \<Rightarrow> bool" where
  "in_window retention at rs = list_all (\<lambda>r. r_now r - at \<le> retention) rs"

lemma owner_of_entry_owner: "owner_of_entry e = Some c \<Longrightarrow> fst c \<noteq> []"
  by (auto simp: owner_of_entry_def Let_def split: option.splits if_splits)

lemma claims_owner: "c \<in> set (claims sessions) \<Longrightarrow> fst c \<noteq> []"
  by (induction sessions)
    (auto simp: claims_def map_filter_simps split: option.splits dest: owner_of_entry_owner)

lemma claimant_owned:
  assumes "claimant sessions sid = Some p"
  shows "sid \<in> held_id ` set (owned_by p (claims sessions))" and "p \<noteq> []"
proof -
  from assms obtain e where e: "(p, e) \<in> set (claims sessions)" and sid: "held_id e = sid"
    by (auto simp: claimant_def dest!: find_SomeD)
  from e sid show "sid \<in> held_id ` set (owned_by p (claims sessions))"
    by (force simp: owned_by_def image_iff)
  from claims_owner [OF e] show "p \<noteq> []" by simp
qed

lemma after_the_answer:
  assumes "distinct (map refreshed_peer (r_peers a))" and "answered_with p sid a"
  shows "\<exists>es. peer_view_of (refresh_once m a) p = Holding (r_now a) es \<and> sid \<in> held_id ` set es"
    and "obj_get (owners (refresh_once m a)) sid = Some p"
proof -
  let ?es = "owned_by p (claims (r_sessions a))"
  have c: "claimant (r_sessions a) sid = Some p" using assms(2) by (simp add: answered_with_def)
  from assms(2) have n: "news_of (r_sessions a) (r_peers a) p = Answered ?es"
    by (auto simp: answered_with_def news_of_def split: option.splits)
  have es: "sid \<in> held_id ` set ?es" by (rule claimant_owned [OF c])
  then have "?es \<noteq> []" by auto
  with es show "\<exists>es. peer_view_of (refresh_once m a) p = Holding (r_now a) es \<and> sid \<in> held_id ` set es"
    unfolding refresh_once_facts(1) [OF assms(1)] n by simp
  show "obj_get (owners (refresh_once m a)) sid = Some p"
    by (simp add: refresh_once_facts(2) [OF assms(1)] owner_after_def c)
qed

lemma blackout_owner:
  assumes d: "distinct (map refreshed_peer (r_peers r))" and b: "blackout p sid r"
    and clean: "\<And>q. q \<noteq> p \<Longrightarrow> \<not> view_has sid (peer_view_of m q)"
  shows "obj_get (owners (refresh_once m r)) sid =
    (if view_keeps (retention_ms m) (r_now r) sid (peer_view_of m p) then Some p else None)"
proof -
  from b obtain q where q: "find (\<lambda>q. refreshed_peer q = p) (r_peers r) = Some q"
    and fails: "refresh_outcome_of q \<noteq> Refresh_ok" "refresh_retains q"
    by (auto simp: blackout_def split: option.splits)
  from q have qp: "refreshed_peer q = p" "q \<in> set (r_peers r)"
    by (auto simp: find_Some_iff)
  have only: "keeps m (r_now r) sid q' \<Longrightarrow> refreshed_peer q' = p" for q'
    using clean [of "refreshed_peer q'"] by (auto simp: keeps_def dest: view_keeps_has)
  have pick: "map_option refreshed_peer (find (keeps m (r_now r) sid) (r_peers r)) =
      (if keeps m (r_now r) sid q then Some p else None)"
  proof (cases "find (keeps m (r_now r) sid) (r_peers r)")
    case None
    with qp(2) have "\<not> keeps m (r_now r) sid q" by (simp add: find_None_iff)
    with None show ?thesis by simp
  next
    case (Some q')
    then have q': "keeps m (r_now r) sid q'" "q' \<in> set (r_peers r)" by (auto simp: find_Some_iff)
    then have "refreshed_peer q' = p" by (simp add: only)
    moreover from this qp d q'(2) have "q' = q" by (auto simp: distinct_map inj_on_def)
    ultimately show ?thesis using Some q'(1) by simp
  qed
  have "claimant (r_sessions r) sid = None" using b by (simp add: blackout_def)
  with pick fails qp show ?thesis
    by (simp add: refresh_once_facts(2) [OF d] owner_after_def keeps_def)
qed

lemma blackout_view:
  assumes d: "distinct (map refreshed_peer (r_peers r))" and b: "blackout p sid r"
  shows "peer_view_of (refresh_once m r) p =
    next_view (retention_ms m) (r_now r) (peer_view_of m p) (Failed True)"
  unfolding refresh_once_facts(1) [OF d]
  using b by (auto simp: blackout_def news_of_def split: option.splits)

lemma run_snoc: "run_refreshes (rs @ [r]) m = refresh_once (run_refreshes rs m) r"
  by (simp add: run_refreshes_def)

lemma run_append: "run_refreshes (rs @ rs') m = run_refreshes rs' (run_refreshes rs m)"
  by (simp add: run_refreshes_def)

lemma reported_distinct: "reported_only_by p sid r \<Longrightarrow> distinct (map refreshed_peer (r_peers r))"
  by (simp add: reported_only_by_def)

lemma blackout_run:
  assumes h: "peer_view_of m p = Holding at es" "sid \<in> held_id ` set es"
      "obj_get (owners m) sid = Some p"
    and clean: "\<And>q. q \<noteq> p \<Longrightarrow> \<not> view_has sid (peer_view_of m q)"
    and rs: "\<And>r. r \<in> set rs \<Longrightarrow> reported_only_by p sid r \<and> blackout p sid r"
  shows "peer_view_of (run_refreshes rs m) p =
      (if in_window (retention_ms m) at rs then Holding at es else Named_unavailable)
    \<and> obj_get (owners (run_refreshes rs m)) sid =
      (if in_window (retention_ms m) at rs then Some p else None)"
  using rs
proof (induction rs rule: rev_induct)
  case Nil
  with h show ?case by (simp add: run_refreshes_def in_window_def)
next
  case (snoc r rs)
  let ?m = "run_refreshes rs m"
  have r: "reported_only_by p sid r" "blackout p sid r" using snoc.prems by auto
  note d = reported_distinct [OF r(1)]
  have ret: "retention_ms ?m = retention_ms m"
    using snoc.prems by (intro run_retention reported_distinct) auto
  have "\<not> view_has sid (peer_view_of ?m q)" if "q \<noteq> p" for q
    by (rule run_others_clean [OF _ clean that]) (use snoc.prems in auto)
  then have own: "obj_get (owners (refresh_once ?m r)) sid =
      (if view_keeps (retention_ms m) (r_now r) sid (peer_view_of ?m p) then Some p else None)"
    by (simp add: blackout_owner [OF d r(2)] ret)
  have v: "peer_view_of (refresh_once ?m r) p =
      next_view (retention_ms m) (r_now r) (peer_view_of ?m p) (Failed True)"
    by (simp add: blackout_view [OF d r(2)] ret)
  have "peer_view_of ?m p =
      (if in_window (retention_ms m) at rs then Holding at es else Named_unavailable)"
    using snoc by simp
  with h(2) show ?case by (simp add: run_snoc own v in_window_def)
qed

lemma foldl_set_add: "set (foldl (\<lambda>s p. set_add p s) xs ys) = set xs \<union> set ys"
  by (induction ys arbitrary: xs) auto

lemma owner_machine_ids_set [simp]:
  "set (owner_machine_ids m) = snd ` set (owners m) \<union> set (unavailable_peers m)"
  by (simp add: owner_machine_ids_def foldl_set_add)

section \<open>Properties\<close>

text \<open>C15: Each peer's part of the owner map is governed by that peer's answers alone: whatever
  the other peers reported or failed at, one refresh takes the peer's held slice through one step
  of the retention automaton (an answer replaces it, a timeout or a transport failure keeps it
  while the last answer is within the retention window, any other failure or a lapsed window
  names the peer unavailable, leaving the fleet forgets it), and a session's new owner is the
  machine the projection tags it with, or else the first failed peer still holding it.\<close>

theorem refresh_refines_the_peer_automaton:
  assumes "distinct (map refreshed_peer peers)"
  shows "peer_view_of (fst (update_owner_map sessions (Some peers) now now' m)) p =
      next_view (retention_ms m) now (peer_view_of m p) (news_of sessions peers p)
    \<and> obj_get (owners (fst (update_owner_map sessions (Some peers) now now' m))) sid =
      owner_after sessions peers now m sid"
  by (simp only: update_view [OF assms] update_owners [OF assms])

text \<open>C11: A failing peer keeps its sessions for exactly the retention window. Take any history of
  refreshes in which only \<open>p\<close> ever reports the session; after an answer of \<open>p\<close> that carries it,
  followed by any number of refreshes in which \<open>p\<close>'s fetch times out or fails in transport, the
  map binds the session to \<open>p\<close> as long as every one of them came within the window of that answer,
  and from the first that did not, the session has no owner and \<open>p\<close> is named unavailable: it
  still counts as an owner of the fleet, and no transport makes it a fan-in arm.\<close>

theorem failed_peer_keeps_its_sessions_for_the_window:
  fixes retention :: "int option"
  defines "window \<equiv> or_else retention OWNER_RETENTION_MS"
  assumes only: "\<And>r. r \<in> set (before @ answer # failures) \<Longrightarrow> reported_only_by p sid r"
    and ans: "answered_with p sid answer"
    and fails: "\<And>r. r \<in> set failures \<Longrightarrow> blackout p sid r"
  shows "let m = run_refreshes (before @ answer # failures) (new_owner_map retention) in
    if in_window window (r_now answer) failures
    then resolve_owner sid t m = (Some p, m) \<and> \<not> is_unavailable p m
    else obj_get (owners m) sid = None \<and> is_unavailable p m \<and> p \<in> set (owner_machine_ids m)
      \<and> \<not> fan_in_reachable m transport_up p"
proof -
  let ?start = "run_refreshes before (new_owner_map retention)"
  let ?told = "refresh_once ?start answer"
  let ?m = "run_refreshes (before @ answer # failures) (new_owner_map retention)"
  have m: "?m = run_refreshes failures ?told" by (simp add: run_refreshes_def)
  have d: "distinct (map refreshed_peer (r_peers r))" if "r \<in> set (before @ answer # failures)" for r
    using only [OF that] by (rule reported_distinct)
  have clean0: "\<not> view_has sid (peer_view_of ?start q)" if "q \<noteq> p" for q
    by (rule run_others_clean [OF _ _ that]) (use only in auto)
  have clean1: "\<not> view_has sid (peer_view_of ?told q)" if "q \<noteq> p" for q
    by (rule others_stay_clean [where p = p]) (use only clean0 that in auto)
  have da: "distinct (map refreshed_peer (r_peers answer))" by (rule d) simp
  have "retention_ms ?start = window"
    using d by (subst run_retention) (auto simp: new_owner_map_def window_def)
  then have ret: "retention_ms ?told = window" by (simp add: refresh_once_facts(3) [OF da])
  obtain es where h: "peer_view_of ?told p = Holding (r_now answer) es" "sid \<in> held_id ` set es"
    using after_the_answer(1) [OF da ans] by blast
  have "peer_view_of ?m p =
      (if in_window window (r_now answer) failures then Holding (r_now answer) es else Named_unavailable)
    \<and> obj_get (owners ?m) sid = (if in_window window (r_now answer) failures then Some p else None)"
    unfolding m ret [symmetric]
    by (rule blackout_run [OF h after_the_answer(2) [OF da ans] clean1]) (use only fails in auto)
  moreover have "disjoint_inv ?m" by (simp add: run_disjoint)
  then have "is_unavailable p ?m \<longleftrightarrow> peer_view_of ?m p = Named_unavailable" by (rule unavailable_view)
  moreover have "p \<noteq> []" using ans by (auto simp: answered_with_def dest: claimant_owned)
  ultimately show ?thesis
    by (auto simp: Let_def resolve_owner_def owner_machine_ids_set fan_in_reachable_def
        is_unavailable_def split: if_splits)
qed

definition demo_answer :: refresh where
  "demo_answer =
     \<lparr> r_sessions = [\<lparr> entry_id = Some ''s1'',
                        amicode_owner = Some \<lparr> owner_machine_id = ''P'', owner_name = ''peer'',
                          device_type = None, tag_directory = Some ''/w'', tag_is_local = False \<rparr>,
                        entry_directory = Some ''/work'' \<rparr>],
       r_peers = [\<lparr> refreshed_peer = ''P'', refresh_outcome_of = Refresh_ok, refresh_reason = None \<rparr>],
       r_now = 1000, r_prune_now = 1000 \<rparr>"

definition demo_timeout :: "int \<Rightarrow> refresh" where
  "demo_timeout t =
     \<lparr> r_sessions = [],
       r_peers = [\<lparr> refreshed_peer = ''P'', refresh_outcome_of = Refresh_timeout, refresh_reason = None \<rparr>],
       r_now = t, r_prune_now = t \<rparr>"

lemmas demo_refresh_eval =
  demo_answer_def demo_timeout_def reported_only_by_def answered_with_def blackout_def claimant_def
  claims_def map_filter_simps owner_of_entry_def Let_def refresh_retains_def in_window_def
  OWNER_RETENTION_MS_def

lemma demo_refreshes:
  "r \<in> set ([] @ demo_answer # [demo_timeout t]) \<Longrightarrow> reported_only_by ''P'' ''s1'' r"
  "answered_with ''P'' ''s1'' demo_answer"
  "r \<in> set [demo_timeout t] \<Longrightarrow> blackout ''P'' ''s1'' r"
  by (auto simp: demo_refresh_eval)

theorem failed_peer_keeps_its_sessions_for_the_window_witness:
  "fst (resolve_owner ''s1'' 61000 (run_refreshes [demo_answer, demo_timeout 61000] (new_owner_map None))) = Some ''P''
   \<and> is_unavailable ''P'' (run_refreshes [demo_answer, demo_timeout 61001] (new_owner_map None))"
proof
  have w: "in_window (or_else None OWNER_RETENTION_MS) (r_now demo_answer) [demo_timeout 61000]"
    "\<not> in_window (or_else None OWNER_RETENTION_MS) (r_now demo_answer) [demo_timeout 61001]"
    by (simp_all add: demo_refresh_eval)
  show "fst (resolve_owner ''s1'' 61000 (run_refreshes [demo_answer, demo_timeout 61000] (new_owner_map None)))
      = Some ''P''"
    using failed_peer_keeps_its_sessions_for_the_window [where retention = None and t = 61000
        and before = "[]" and failures = "[demo_timeout 61000]" and transport_up = "\<lambda>_. True", OF demo_refreshes(1) [where t = 61000] demo_refreshes(2) demo_refreshes(3) [where t = 61000]] w(1)
    by (simp add: Let_def del: or_else_simps)
  show "is_unavailable ''P'' (run_refreshes [demo_answer, demo_timeout 61001] (new_owner_map None))"
    using failed_peer_keeps_its_sessions_for_the_window [where retention = None and t = 61001
        and before = "[]" and failures = "[demo_timeout 61001]" and transport_up = "\<lambda>_. True", OF demo_refreshes(1) [where t = 61001] demo_refreshes(2) demo_refreshes(3) [where t = 61001]] w(2)
    by (simp add: Let_def del: or_else_simps)
qed

theorem refresh_refines_the_peer_automaton_witness:
  "peer_view_of (fst (update_owner_map [] (Some (r_peers (demo_timeout 5))) 5 5
     ((new_owner_map None)\<lparr> last_good := [(''P'', \<lparr> good_at = 0, good_entries = [] \<rparr>)] \<rparr>))) ''P''
   = Holding 0 []"
  using refresh_refines_the_peer_automaton [of "r_peers (demo_timeout 5)" "[]" 5 5
      "(new_owner_map None)\<lparr> last_good := [(''P'', \<lparr> good_at = 0, good_entries = [] \<rparr>)] \<rparr>"
      "''P''" "''s1''"]
  by (simp add: demo_refresh_eval news_of_def new_owner_map_def peer_view_of_def)

end
