(* ===== verification/Control_Gates.thy ===== *)
theory Control_Gates
  imports Fleet_Prelude
begin

text \<open>
  Who may drive a session on another machine: the creation target of the machine picker
  (\<open>session_creation_target.ts\<close>), the state of a remote session and its projection for the UI
  (\<open>remote_session_state.ts\<close>) and the gate of remote writes (\<open>remote_write_gate.ts\<close>), all under
  \<open>packages/extension/src/amicode_service/\<close>. The three read the same two facts, the grant held for
  a peer and whether its transport is up; the grant store and the transport are arguments. What
  the gates share is the locale \<open>fail_closed_gate\<close>, interpreted on each of them here and on the
  request router in \<open>Owner_Routing\<close>.
\<close>

section \<open>What the gates read\<close>

datatype grant_scope = Observe | Control | Lifecycle_admin
datatype grant_state = Grant_active | Revocation_pending | Grant_revoked

record grant_read =
  scope :: grant_scope
  state :: grant_state

record gate_deps =
  local_machine_id :: string
  grant_reader :: "string \<Rightarrow> grant_read option"
  peer_reachable :: "string \<Rightarrow> bool"

definition no_control_grant :: string where "no_control_grant = ''no-control-grant''"
definition grant_revoked :: string where "grant_revoked = ''grant-revoked''"
definition revocation_pending :: string where "revocation_pending = ''revocation-pending''"
definition insufficient_scope :: string where "insufficient_scope = ''insufficient-scope''"
definition transport_down :: string where "transport_down = ''transport-down''"

lemmas reason_defs =
  no_control_grant_def grant_revoked_def revocation_pending_def insufficient_scope_def
  transport_down_def

section \<open>The creation target\<close>

datatype creation_target =
    Create_local
  | Create_remote string
  | Create_blocked string string

definition resolve_creation_target :: "string option \<Rightarrow> gate_deps \<Rightarrow> creation_target" where
  "resolve_creation_target selected deps =
     (case selected of
        None \<Rightarrow> Create_local
      | Some p \<Rightarrow>
          if p = local_machine_id deps then Create_local
          else (case grant_reader deps p of
                  None \<Rightarrow> Create_blocked p no_control_grant
                | Some grant \<Rightarrow>
                    if state grant = Grant_revoked \<or> state grant = Revocation_pending
                    then Create_blocked p grant_revoked
                    else if scope grant \<noteq> Control then Create_blocked p insufficient_scope
                    else if \<not> peer_reachable deps p then Create_blocked p transport_down
                    else Create_remote p))"

section \<open>The state of a remote session\<close>

datatype remote_session_state =
    Session_local
  | Session_interactive string
  | Session_read_only string string
  | Session_suspended string string

definition resolve_remote_session_state :: "string \<Rightarrow> string \<Rightarrow> gate_deps \<Rightarrow> remote_session_state" where
  "resolve_remote_session_state session_id owner deps =
     (if owner = local_machine_id deps then Session_local
      else (case grant_reader deps owner of
              None \<Rightarrow> Session_read_only owner no_control_grant
            | Some grant \<Rightarrow>
                if state grant = Grant_revoked then Session_read_only owner grant_revoked
                else if state grant = Revocation_pending
                then Session_suspended owner revocation_pending
                else if scope grant \<noteq> Control then Session_read_only owner insufficient_scope
                else if \<not> peer_reachable deps owner then Session_suspended owner transport_down
                else Session_interactive owner))"

datatype control_state = State_local | State_interactive | State_read_only | State_suspended
datatype control_eligibility = Enable_control | Request_control | No_affordance

definition CONTROL_CHIP_REASONS :: "string list" where
  "CONTROL_CHIP_REASONS =
     [no_control_grant, grant_revoked, revocation_pending, insufficient_scope, transport_down]"

record session_control_projection =
  control_state_of :: control_state
  chip_reason :: "string option"
  eligibility :: control_eligibility

definition project_session_control_state ::
  "remote_session_state \<Rightarrow> bool \<Rightarrow> session_control_projection" where
  "project_session_control_state st self_owned =
     (let affordance = (if self_owned then Enable_control else Request_control) in
      case st of
        Session_local \<Rightarrow>
          \<lparr> control_state_of = State_local, chip_reason = None, eligibility = No_affordance \<rparr>
      | Session_interactive p \<Rightarrow>
          \<lparr> control_state_of = State_interactive, chip_reason = None, eligibility = No_affordance \<rparr>
      | Session_read_only p reason \<Rightarrow>
          \<lparr> control_state_of = State_read_only, chip_reason = Some reason, eligibility = affordance \<rparr>
      | Session_suspended p reason \<Rightarrow>
          \<lparr> control_state_of = State_suspended, chip_reason = Some reason, eligibility = affordance \<rparr>)"

definition build_control_resolver ::
  "gate_deps \<Rightarrow> (string \<Rightarrow> bool) \<Rightarrow> string \<Rightarrow> bool \<Rightarrow> session_control_projection" where
  "build_control_resolver deps is_self_owned owner is_local =
     (if is_local \<or> owner = local_machine_id deps
      then \<lparr> control_state_of = State_local, chip_reason = None, eligibility = No_affordance \<rparr>
      else project_session_control_state (resolve_remote_session_state owner owner deps)
             (is_self_owned owner))"

section \<open>The write gate\<close>

record write_request =
  owner_machine :: string
  write_action :: string
  write_path :: string

datatype write_gate_result =
    Write_local
  | Write_confirmed_remotely write_request
  | Write_denied string

definition evaluate_remote_write_gate :: "write_request \<Rightarrow> gate_deps \<Rightarrow> write_gate_result" where
  "evaluate_remote_write_gate request deps =
     (if owner_machine request = local_machine_id deps then Write_local
      else (case grant_reader deps (owner_machine request) of
              None \<Rightarrow> Write_denied no_control_grant
            | Some grant \<Rightarrow>
                if state grant = Grant_revoked \<or> state grant = Revocation_pending
                then Write_denied grant_revoked
                else if scope grant \<noteq> Control then Write_denied insufficient_scope
                else if \<not> peer_reachable deps (owner_machine request) then Write_denied transport_down
                else Write_confirmed_remotely
                       \<lparr> owner_machine = owner_machine request, write_action = write_action request,
                         write_path = write_path request \<rparr>))"

section \<open>The contract the gates share\<close>

text \<open>Control of a machine: an active grant of the control scope, and a transport that is up.\<close>

definition control_held :: "gate_deps \<Rightarrow> string \<Rightarrow> bool" where
  "control_held deps p \<longleftrightarrow>
     (case grant_reader deps p of
        None \<Rightarrow> False
      | Some grant \<Rightarrow> state grant = Grant_active \<and> scope grant = Control)
     \<and> peer_reachable deps p"

text \<open>Fewer facts in the operator's favour: a grant gone or weakened, a transport gone down.\<close>

definition no_more_control :: "gate_deps \<Rightarrow> gate_deps \<Rightarrow> bool" where
  "no_more_control deps deps' \<longleftrightarrow>
     local_machine_id deps = local_machine_id deps' \<and>
     (\<forall>p. (peer_reachable deps p \<longrightarrow> peer_reachable deps' p) \<and>
          (grant_reader deps p = None \<or> grant_reader deps p = grant_reader deps' p
           \<or> (\<exists>g. grant_reader deps p = Some g \<and> \<not> (state g = Grant_active \<and> scope g = Control))))"

lemma control_held_mono: "no_more_control deps deps' \<Longrightarrow> control_held deps p \<Longrightarrow> control_held deps' p"
  unfolding no_more_control_def control_held_def
  by (elim conjE allE [of _ p] disjE) (auto split: option.splits)

locale fail_closed_gate =
  fixes facts :: "'d \<Rightarrow> gate_deps"
    and decide :: "'q \<Rightarrow> 'd \<Rightarrow> 'r"
    and target :: "'q \<Rightarrow> string option"
    and stays_local :: "'r \<Rightarrow> bool"
    and opens :: "'r \<Rightarrow> string option"
  assumes local_iff: "stays_local (decide q d) \<longleftrightarrow>
      target q = None \<or> target q = Some (local_machine_id (facts d))"
    and opens_iff: "opens (decide q d) = Some p \<longleftrightarrow>
      target q = Some p \<and> p \<noteq> local_machine_id (facts d) \<and> control_held (facts d) p"
begin

lemma open_is_remote: "opens (decide q d) = Some p \<Longrightarrow> \<not> stays_local (decide q d)"
  by (auto simp: local_iff opens_iff)

lemma closed_without_control:
  "target q = Some p \<Longrightarrow> \<not> control_held (facts d) p \<Longrightarrow> opens (decide q d) = None"
  by (cases "opens (decide q d)") (auto simp: opens_iff)

lemma remote_never_local:
  "target q = Some p \<Longrightarrow> p \<noteq> local_machine_id (facts d) \<Longrightarrow> \<not> stays_local (decide q d)"
  by (simp add: local_iff)

lemma less_control_opens_nothing_new:
  "no_more_control (facts d) (facts d') \<Longrightarrow> opens (decide q d) = Some p \<Longrightarrow> opens (decide q d') = Some p"
  by (auto simp: opens_iff intro: control_held_mono)
    (simp add: no_more_control_def)

end

text \<open>Two gates over the same facts agree.\<close>

locale two_gates = one: fail_closed_gate facts decide target stays_local opens
  + other: fail_closed_gate facts' decide' target' stays_local' opens'
  for facts :: "'d \<Rightarrow> gate_deps" and decide :: "'q \<Rightarrow> 'd \<Rightarrow> 'r" and target stays_local opens
    and facts' :: "'d2 \<Rightarrow> gate_deps" and decide' :: "'q2 \<Rightarrow> 'd2 \<Rightarrow> 'r2"
    and target' stays_local' opens'
begin

lemma agree:
  assumes "target q = target' q'" and "facts d = facts' d'"
  shows "opens (decide q d) = opens' (decide' q' d')"
    and "stays_local (decide q d) \<longleftrightarrow> stays_local' (decide' q' d')"
proof -
  have "opens (decide q d) = Some p \<longleftrightarrow> opens' (decide' q' d') = Some p" for p
    by (simp add: one.opens_iff other.opens_iff assms)
  then show "opens (decide q d) = opens' (decide' q' d')"
    by (metis not_Some_eq)
  show "stays_local (decide q d) \<longleftrightarrow> stays_local' (decide' q' d')"
    by (simp add: one.local_iff other.local_iff assms)
qed

end

fun creation_opens :: "creation_target \<Rightarrow> string option" where
  "creation_opens (Create_remote p) = Some p"
| "creation_opens _ = None"

fun session_opens :: "remote_session_state \<Rightarrow> string option" where
  "session_opens (Session_interactive p) = Some p"
| "session_opens _ = None"

fun write_opens :: "write_gate_result \<Rightarrow> string option" where
  "write_opens (Write_confirmed_remotely ctx) = Some (owner_machine ctx)"
| "write_opens _ = None"

lemma not_active: "state g \<noteq> Grant_active \<longleftrightarrow> state g = Grant_revoked \<or> state g = Revocation_pending"
  by (cases "state g") auto

interpretation creation: fail_closed_gate "\<lambda>d. d" resolve_creation_target "\<lambda>q. q"
  "\<lambda>r. r = Create_local" creation_opens
  by unfold_locales
    (auto simp: resolve_creation_target_def control_held_def not_active split: option.splits,
      (metis not_active)+)

interpretation session_state: fail_closed_gate
  "\<lambda>d. d" "\<lambda>q deps. resolve_remote_session_state (fst q) (snd q) deps" "\<lambda>q. Some (snd q)"
  "\<lambda>r. r = Session_local" session_opens
  by unfold_locales
    (auto simp: resolve_remote_session_state_def control_held_def not_active split: option.splits,
      (metis grant_state.exhaust)+)

interpretation write_gate: fail_closed_gate "\<lambda>d. d" evaluate_remote_write_gate
  "\<lambda>q. Some (owner_machine q)" "\<lambda>r. r = Write_local" write_opens
  by unfold_locales
    (auto simp: evaluate_remote_write_gate_def control_held_def not_active split: option.splits,
      (metis grant_state.exhaust)+)

interpretation session_and_write: two_gates
  "\<lambda>d. d" "\<lambda>q deps. resolve_remote_session_state (fst q) (snd q) deps" "\<lambda>q. Some (snd q)"
  "\<lambda>r. r = Session_local" session_opens
  "\<lambda>d. d" evaluate_remote_write_gate "\<lambda>q. Some (owner_machine q)" "\<lambda>r. r = Write_local" write_opens
  by unfold_locales

interpretation creation_and_session: two_gates
  "\<lambda>d. d" resolve_creation_target "\<lambda>q. q" "\<lambda>r. r = Create_local" creation_opens
  "\<lambda>d. d" "\<lambda>q deps. resolve_remote_session_state (fst q) (snd q) deps" "\<lambda>q. Some (snd q)"
  "\<lambda>r. r = Session_local" session_opens
  by unfold_locales

section \<open>The chip and the denial\<close>

text \<open>The write gate's reason forgets whether a revocation is still pending; the chip keeps it.\<close>

definition collapse_reason :: "string \<Rightarrow> string" where
  "collapse_reason r = (if r = revocation_pending then grant_revoked else r)"

fun denial_reason :: "write_gate_result \<Rightarrow> string option" where
  "denial_reason (Write_denied r) = Some r"
| "denial_reason _ = None"

fun blocked_reason :: "creation_target \<Rightarrow> string option" where
  "blocked_reason (Create_blocked p r) = Some r"
| "blocked_reason _ = None"

lemma reasons_agree:
  "map_option collapse_reason
     (chip_reason (project_session_control_state (resolve_remote_session_state sid (owner_machine q) deps) own))
   = denial_reason (evaluate_remote_write_gate q deps)"
  "blocked_reason (resolve_creation_target (Some (owner_machine q)) deps)
   = denial_reason (evaluate_remote_write_gate q deps)"
  by (auto simp: project_session_control_state_def resolve_remote_session_state_def
      evaluate_remote_write_gate_def resolve_creation_target_def collapse_reason_def reason_defs
      split: option.splits)

lemma chip_reason_listed:
  "chip_reason (project_session_control_state (resolve_remote_session_state sid owner deps) own) = Some r
   \<Longrightarrow> r \<in> set CONTROL_CHIP_REASONS"
  by (auto simp: project_session_control_state_def resolve_remote_session_state_def
      CONTROL_CHIP_REASONS_def split: option.splits if_splits)

lemma affordance_iff_no_control:
  "eligibility (build_control_resolver deps self owner is_local) \<noteq> No_affordance \<longleftrightarrow>
     \<not> is_local \<and> owner \<noteq> local_machine_id deps \<and> \<not> control_held deps owner"
  by (auto simp: build_control_resolver_def project_session_control_state_def
      resolve_remote_session_state_def control_held_def split: option.splits if_splits
      grant_state.splits)
    (metis grant_state.exhaust)+

section \<open>Properties\<close>

text \<open>The picker, the session view and the write gate never disagree about a machine: creation
  goes to it exactly when its sessions are interactive and exactly when a write to it is offered
  for confirmation, namely when it is another machine, an active control grant is held for it
  and its transport is up; all three answer "local" exactly when it is this machine.\<close>

theorem the_gates_agree:
  "creation_opens (resolve_creation_target (Some (owner_machine q)) deps)
     = session_opens (resolve_remote_session_state sid (owner_machine q) deps)
   \<and> session_opens (resolve_remote_session_state sid (owner_machine q) deps)
     = write_opens (evaluate_remote_write_gate q deps)
   \<and> (write_opens (evaluate_remote_write_gate q deps) =
       (if owner_machine q \<noteq> local_machine_id deps \<and> control_held deps (owner_machine q)
        then Some (owner_machine q) else None))
   \<and> (resolve_creation_target (Some (owner_machine q)) deps = Create_local
       \<longleftrightarrow> owner_machine q = local_machine_id deps)
   \<and> (resolve_remote_session_state sid (owner_machine q) deps = Session_local
       \<longleftrightarrow> owner_machine q = local_machine_id deps)
   \<and> (evaluate_remote_write_gate q deps = Write_local
       \<longleftrightarrow> owner_machine q = local_machine_id deps)"
proof -
  have w: "write_opens (evaluate_remote_write_gate q deps) =
       (if owner_machine q \<noteq> local_machine_id deps \<and> control_held deps (owner_machine q)
        then Some (owner_machine q) else None)"
  proof (cases "owner_machine q \<noteq> local_machine_id deps \<and> control_held deps (owner_machine q)")
    case True
    then show ?thesis using write_gate.opens_iff [of q deps "owner_machine q"] by simp
  next
    case False
    then have "write_opens (evaluate_remote_write_gate q deps) \<noteq> Some p" for p
      using write_gate.opens_iff [of q deps p] by auto
    with False show ?thesis by (metis not_Some_eq)
  qed
  have a: "creation_opens (resolve_creation_target (Some (owner_machine q)) deps)
     = session_opens (resolve_remote_session_state sid (owner_machine q) deps)"
    using creation_and_session.agree(1) [of "Some (owner_machine q)" "(sid, owner_machine q)" deps deps]
    by (simp only: fst_conv snd_conv)
  have b: "session_opens (resolve_remote_session_state sid (owner_machine q) deps)
     = write_opens (evaluate_remote_write_gate q deps)"
    using session_and_write.agree(1) [of "(sid, owner_machine q)" q deps deps]
    by (simp only: fst_conv snd_conv)
  have c: "resolve_creation_target (Some (owner_machine q)) deps = Create_local
       \<longleftrightarrow> owner_machine q = local_machine_id deps"
    using creation.local_iff [of "Some (owner_machine q)" deps] by simp
  have d: "resolve_remote_session_state sid (owner_machine q) deps = Session_local
       \<longleftrightarrow> owner_machine q = local_machine_id deps"
    using session_state.local_iff [of "(sid, owner_machine q)" deps] by simp
  have e: "evaluate_remote_write_gate q deps = Write_local
       \<longleftrightarrow> owner_machine q = local_machine_id deps"
    using write_gate.local_iff [of q deps] by simp
  show ?thesis by (intro conjI a b w c d e)
qed

text \<open>Losing control only ever closes gates: when grants disappear, are revoked, start being
  revoked or lose the control scope, and transports go down, then whatever is still open was
  open before, for creation, for the session view and for writes alike.\<close>

theorem losing_control_opens_no_gate:
  assumes "no_more_control deps deps'"
  shows "(creation_opens (resolve_creation_target sel deps) = Some p \<longrightarrow>
      creation_opens (resolve_creation_target sel deps') = Some p)
    \<and> (session_opens (resolve_remote_session_state sid owner deps) = Some p \<longrightarrow>
      session_opens (resolve_remote_session_state sid owner deps') = Some p)
    \<and> (write_opens (evaluate_remote_write_gate q deps) = Some p \<longrightarrow>
      write_opens (evaluate_remote_write_gate q deps') = Some p)"
  using creation.less_control_opens_nothing_new [OF assms, of sel p]
    session_state.less_control_opens_nothing_new [OF assms, of "(sid, owner)" p]
    write_gate.less_control_opens_nothing_new [OF assms, of q p]
  by simp

definition demo_grant :: "grant_state \<Rightarrow> string \<Rightarrow> grant_read option" where
  "demo_grant st p = (if p = ''peer'' then Some \<lparr> scope = Control, state = st \<rparr> else None)"

theorem losing_control_opens_no_gate_witness:
  "creation_opens (resolve_creation_target (Some ''peer'')
     \<lparr> local_machine_id = ''me'', grant_reader = demo_grant Grant_active,
       peer_reachable = \<lambda>_. True \<rparr>) = Some ''peer''"
  using losing_control_opens_no_gate [of
      "\<lparr> local_machine_id = ''me'', grant_reader = demo_grant Grant_active, peer_reachable = \<lambda>p. p = ''peer'' \<rparr>"
      "\<lparr> local_machine_id = ''me'', grant_reader = demo_grant Grant_active, peer_reachable = \<lambda>_. True \<rparr>"
      "Some ''peer''" "''peer''" "''s''" "''peer''"
      "\<lparr> owner_machine = ''peer'', write_action = ''POST'', write_path = ''/session/s'' \<rparr>"]
  by (simp add: no_more_control_def demo_grant_def resolve_creation_target_def)

text \<open>The chip tells the operator why control is missing, and the write gate's and the
  picker's reasons are that chip with a pending revocation reported as a completed one: a reason
  is shown exactly when a write would be denied, it is one of the five documented ones, and the
  resolver offers a way to gain control exactly for the remote machines that are not held.\<close>

theorem chip_explains_every_denial:
  "map_option collapse_reason (chip_reason (project_session_control_state
       (resolve_remote_session_state sid (owner_machine q) deps) own))
     = denial_reason (evaluate_remote_write_gate q deps)
   \<and> blocked_reason (resolve_creation_target (Some (owner_machine q)) deps)
     = denial_reason (evaluate_remote_write_gate q deps)
   \<and> (chip_reason (project_session_control_state
       (resolve_remote_session_state sid (owner_machine q) deps) own)
       \<in> insert None (Some ` set CONTROL_CHIP_REASONS))
   \<and> (eligibility (build_control_resolver deps self owner is_local) = No_affordance \<longleftrightarrow>
       is_local \<or> owner = local_machine_id deps \<or> control_held deps owner)"
proof -
  have "chip_reason (project_session_control_state
       (resolve_remote_session_state sid (owner_machine q) deps) own)
       \<in> insert None (Some ` set CONTROL_CHIP_REASONS)"
    by (cases "chip_reason (project_session_control_state
       (resolve_remote_session_state sid (owner_machine q) deps) own)")
      (auto dest: chip_reason_listed)
  then show ?thesis
    using affordance_iff_no_control [of deps self owner is_local] reasons_agree by auto
qed

end
