(* ===== verification/Owner_Routing.thy ===== *)
theory Owner_Routing
  imports Owner_Retention Control_Gates
begin

text \<open>
  Where a request goes (\<open>control_gated_routing.ts\<close> and the routers of
  \<open>session_multiplexer.ts\<close>, under \<open>packages/extension/src/amicode_service/\<close>): the Control-gated
  resolver and its multiplexer adapter, the owner-routing proxy, and the read and write routers of
  an observation-only machine. A router reads the owner map, so it returns the map a lapsed
  create-time binding may have been dropped from. A peer's transport (its late-bound URL and its
  token) is what the router reads during the one synchronous call; the machines' transports are a
  map of own keys.
\<close>

section \<open>What the routers share\<close>

record peer_transport =
  peer_url :: "string option"
  peer_token :: "string option"

datatype header_value = Header string | Header_list "string list"

definition OWNER_ROUTING_HEADER :: string where "OWNER_ROUTING_HEADER = ''x-amicode-owner''"

definition owner_header :: "header_value obj \<Rightarrow> string option" where
  "owner_header headers =
     (case obj_get headers OWNER_ROUTING_HEADER of
        Some (Header v) \<Rightarrow> if js_trim v \<noteq> [] then Some (js_trim v) else None
      | _ \<Rightarrow> None)"

definition honesty_path :: "string \<Rightarrow> bool" where
  "honesty_path path \<longleftrightarrow> path = ''/amicode/fleet'' \<or> starts_with path ''/amicode/fleet/''"

definition own_surface :: "string \<Rightarrow> bool" where
  "own_surface path \<longleftrightarrow> path = ''/amicode'' \<or> starts_with path ''/amicode/''"

definition method_or_get :: "string \<Rightarrow> string" where
  "method_or_get m = to_upper (if m = [] then ''GET'' else m)"

text \<open>The owner a request names: the session in its path, or else the routing header.\<close>

definition request_owner ::
  "string \<Rightarrow> header_value obj \<Rightarrow> int \<Rightarrow> owner_map \<Rightarrow> string option \<times> owner_map" where
  "request_owner path headers now m =
     (let (by_path, m) = (case extract_session_id_from_path path of
                            None \<Rightarrow> (None, m)
                          | Some sid \<Rightarrow> resolve_owner sid now m)
      in (case truthy by_path of
            Some p \<Rightarrow> (Some p, m)
          | None \<Rightarrow> (owner_header headers, m)))"

section \<open>The Control-gated resolver\<close>

record control_grant_read = grant_read +
  grant_token :: string
  grant_machine_id :: string

datatype control_gated_target =
    Target_local
  | Target_peer string string string
  | Target_unavailable string string
  | Target_read_only string string

record control_gated_opts =
  cg_local_machine_id :: string
  cg_peer_transports :: "peer_transport obj"
  cg_grant_reader :: "string \<Rightarrow> control_grant_read option"

definition is_read_method :: "string \<Rightarrow> bool" where
  "is_read_method m \<longleftrightarrow>
     (let m = to_upper m in m = ''GET'' \<or> m = ''HEAD'' \<or> m = ''OPTIONS'')"

definition transport_url :: "peer_transport option \<Rightarrow> string option" where
  "transport_url peer = truthy (case peer of None \<Rightarrow> None | Some t \<Rightarrow> peer_url t)"

definition route_to_owner :: "string \<Rightarrow> control_gated_opts \<Rightarrow> string \<Rightarrow> control_gated_target" where
  "route_to_owner req_method opts p =
     (case cg_grant_reader opts p of
        None \<Rightarrow> Target_unavailable p no_control_grant
      | Some grant \<Rightarrow>
          if state grant = Grant_revoked then Target_unavailable p grant_revoked
          else if state grant = Revocation_pending then Target_read_only p revocation_pending
          else if scope grant \<noteq> Control then Target_unavailable p insufficient_scope
          else (case transport_url (obj_get (cg_peer_transports opts) p) of
                  None \<Rightarrow> if is_read_method req_method then Target_read_only p transport_down
                          else Target_unavailable p transport_down
                | Some url \<Rightarrow> Target_peer p url (grant_token grant)))"

definition control_gated_resolve ::
  "string \<Rightarrow> string \<Rightarrow> header_value obj \<Rightarrow> int \<Rightarrow> owner_map \<Rightarrow> control_gated_opts
     \<Rightarrow> control_gated_target \<times> owner_map" where
  "control_gated_resolve req_method path headers now m opts =
     (if honesty_path path then (Target_local, m)
      else (case request_owner path headers now m of
              (None, m) \<Rightarrow> (Target_local, m)
            | (Some p, m) \<Rightarrow>
                (if p = cg_local_machine_id opts then Target_local
                 else route_to_owner req_method opts p, m)))"

text \<open>The multiplexer's view of a target: a reachable peer, a known peer that cannot be reached, or
  \<open>None\<close>, which is local.\<close>

datatype resolved_target =
    Reachable string string "string option"
  | Unreachable string

fun control_gated_adapter :: "control_gated_target \<Rightarrow> resolved_target option" where
  "control_gated_adapter Target_local = None"
| "control_gated_adapter (Target_peer p url credential) = Some (Reachable p url None)"
| "control_gated_adapter (Target_unavailable p reason) = Some (Unreachable p)"
| "control_gated_adapter (Target_read_only p reason) = Some (Unreachable p)"

section \<open>The owner-routing proxy\<close>

definition multiplex_resolve_target ::
  "string \<Rightarrow> header_value obj \<Rightarrow> int \<Rightarrow> owner_map \<Rightarrow> string \<Rightarrow> peer_transport obj
     \<Rightarrow> resolved_target option \<times> owner_map" where
  "multiplex_resolve_target path headers now m local_id peers =
     (if honesty_path path then (None, m)
      else (case request_owner path headers now m of
              (None, m) \<Rightarrow> (None, m)
            | (Some p, m) \<Rightarrow>
                (if p = local_id then None
                 else (case obj_get peers p of
                         None \<Rightarrow> None
                       | Some peer \<Rightarrow>
                           (case truthy (peer_url peer) of
                              None \<Rightarrow> Some (Unreachable p)
                            | Some url \<Rightarrow> Some (Reachable p url (peer_token peer)))), m)))"

section \<open>The routers of an observation-only machine\<close>

datatype observation_resolution =
    Observe_peer string string string
  | Observe_degraded string
  | Observe_unknown_owner string
  | Observe_denied string string

definition usable :: "peer_transport option \<Rightarrow> (string \<times> string) option" where
  "usable peer =
     (case peer of
        None \<Rightarrow> None
      | Some t \<Rightarrow> (case (truthy (peer_url t), truthy (peer_token t)) of
                     (Some url, Some token) \<Rightarrow> Some (url, token)
                   | _ \<Rightarrow> None))"

definition observation_read ::
  "string \<Rightarrow> string \<Rightarrow> int \<Rightarrow> owner_map \<Rightarrow> string \<Rightarrow> (string \<Rightarrow> peer_transport option)
     \<Rightarrow> observation_resolution option \<times> owner_map" where
  "observation_read req_method path now m local_id peer =
     (let mt = method_or_get req_method in
      if mt \<noteq> ''GET'' \<and> mt \<noteq> ''HEAD'' then (None, m)
      else if own_surface path then (None, m)
      else (case extract_session_id_from_read_path path of
              None \<Rightarrow> (None, m)
            | Some sid \<Rightarrow>
                (case resolve_owner sid now m of
                   (owner, m) \<Rightarrow>
                     (case truthy owner of
                        None \<Rightarrow> (Some (Observe_unknown_owner sid), m)
                      | Some p \<Rightarrow>
                          (if p = local_id then None
                           else if peer p = None then None
                           else (case usable (peer p) of
                                   None \<Rightarrow> Some (Observe_degraded p)
                                 | Some (url, token) \<Rightarrow> Some (Observe_peer p url token)), m)))))"

definition authorize_write ::
  "string \<Rightarrow> string \<Rightarrow> string \<Rightarrow> string \<Rightarrow> (string \<Rightarrow> peer_transport option)
     \<Rightarrow> (string \<Rightarrow> grant_read option) \<Rightarrow> observation_resolution" where
  "authorize_write action path owner local_id peer grants =
     (case evaluate_remote_write_gate
             \<lparr> owner_machine = owner, write_action = action, write_path = path \<rparr>
             \<lparr> local_machine_id = local_id, grant_reader = grants,
               peer_reachable = (\<lambda>p. usable (peer p) \<noteq> None) \<rparr> of
        Write_denied reason \<Rightarrow> Observe_denied owner reason
      | _ \<Rightarrow> (case usable (peer owner) of
                None \<Rightarrow> Observe_denied owner transport_down
              | Some (url, token) \<Rightarrow> Observe_peer owner url token))"

definition observation_write ::
  "string \<Rightarrow> string \<Rightarrow> int \<Rightarrow> owner_map \<Rightarrow> string \<Rightarrow> (string \<Rightarrow> peer_transport option)
     \<Rightarrow> (string \<Rightarrow> grant_read option) \<Rightarrow> observation_resolution option \<times> owner_map" where
  "observation_write req_method path now m local_id peer grants =
     (let mt = method_or_get req_method in
      if mt = ''GET'' \<or> mt = ''HEAD'' then (None, m)
      else if own_surface path then (None, m)
      else (case extract_session_id_from_read_path path of
              None \<Rightarrow> (None, m)
            | Some sid \<Rightarrow>
                (case resolve_owner sid now m of
                   (owner, m) \<Rightarrow>
                     (case truthy owner of
                        None \<Rightarrow> (Some (Observe_unknown_owner sid), m)
                      | Some p \<Rightarrow>
                          (if p = local_id then None
                           else if peer p = None then None
                           else Some (authorize_write mt path p local_id peer grants), m)))))"

definition observation_create ::
  "string \<Rightarrow> string \<Rightarrow> header_value obj \<Rightarrow> string \<Rightarrow> (string \<Rightarrow> peer_transport option)
     \<Rightarrow> (string \<Rightarrow> grant_read option) \<Rightarrow> observation_resolution option" where
  "observation_create req_method path headers local_id peer grants =
     (if method_or_get req_method \<noteq> ''POST'' then None
      else if path \<noteq> ''/session'' \<and> path \<noteq> ''/api/session'' then None
      else (case owner_header headers of
              None \<Rightarrow> None
            | Some p \<Rightarrow>
                if p = local_id then None
                else if peer p = None then None
                else Some (authorize_write (to_upper req_method) path p local_id peer grants)))"

section \<open>The resolver is one more gate\<close>

record routed_request =
  rq_method :: string
  rq_path :: string
  rq_headers :: "header_value obj"
  rq_now :: int
  rq_map :: owner_map

definition gate_facts :: "control_gated_opts \<Rightarrow> gate_deps" where
  "gate_facts opts =
     \<lparr> local_machine_id = cg_local_machine_id opts,
       grant_reader = (\<lambda>p. map_option grant_read.truncate (cg_grant_reader opts p)),
       peer_reachable = (\<lambda>p. transport_url (obj_get (cg_peer_transports opts) p) \<noteq> None) \<rparr>"

definition decide_route :: "routed_request \<Rightarrow> control_gated_opts \<Rightarrow> control_gated_target" where
  "decide_route q opts =
     fst (control_gated_resolve (rq_method q) (rq_path q) (rq_headers q) (rq_now q) (rq_map q) opts)"

definition routed_owner :: "routed_request \<Rightarrow> string option" where
  "routed_owner q =
     (if honesty_path (rq_path q) then None
      else fst (request_owner (rq_path q) (rq_headers q) (rq_now q) (rq_map q)))"

fun route_opens :: "control_gated_target \<Rightarrow> string option" where
  "route_opens (Target_peer p url credential) = Some p"
| "route_opens _ = None"

lemma truncate_sel [simp]:
  "state (grant_read.truncate g) = state g" "scope (grant_read.truncate g) = scope g"
  by (simp_all add: grant_read.truncate_def)

lemma decide_route_owner:
  "decide_route q opts =
     (case routed_owner q of
        None \<Rightarrow> Target_local
      | Some p \<Rightarrow> if p = cg_local_machine_id opts then Target_local
                  else route_to_owner (rq_method q) opts p)"
  by (auto simp: decide_route_def control_gated_resolve_def routed_owner_def
      split: prod.splits option.splits)

lemma route_to_owner_not_local [simp]: "route_to_owner req_method opts p \<noteq> Target_local"
  by (auto simp: route_to_owner_def split: option.splits)

lemma route_to_owner_opens:
  "route_opens (route_to_owner req_method opts p) = Some p' \<longleftrightarrow> p' = p \<and> control_held (gate_facts opts) p"
proof (cases "cg_grant_reader opts p")
  case None
  then show ?thesis by (simp add: route_to_owner_def control_held_def gate_facts_def)
next
  case (Some g)
  then show ?thesis
    by (cases "state g"; cases "transport_url (obj_get (cg_peer_transports opts) p)")
      (auto simp: route_to_owner_def control_held_def gate_facts_def)
qed

interpretation router: fail_closed_gate gate_facts decide_route routed_owner
  "\<lambda>r. r = Target_local" route_opens
proof unfold_locales
  fix q opts p
  show "decide_route q opts = Target_local \<longleftrightarrow>
      routed_owner q = None \<or> routed_owner q = Some (local_machine_id (gate_facts opts))"
    by (auto simp: decide_route_owner gate_facts_def split: option.splits)
  show "route_opens (decide_route q opts) = Some p \<longleftrightarrow>
      routed_owner q = Some p \<and> p \<noteq> local_machine_id (gate_facts opts) \<and> control_held (gate_facts opts) p"
    by (auto simp: decide_route_owner route_to_owner_opens gate_facts_def split: option.splits)
qed

interpretation router_and_write: two_gates gate_facts decide_route routed_owner
  "\<lambda>r. r = Target_local" route_opens
  "\<lambda>d. d" evaluate_remote_write_gate "\<lambda>q. Some (owner_machine q)" "\<lambda>r. r = Write_local" write_opens
  by unfold_locales

lemma route_credential:
  "route_to_owner req_method opts p = Target_peer p' url credential \<Longrightarrow>
   p' = p \<and> map_option grant_token (cg_grant_reader opts p) = Some credential
   \<and> transport_url (obj_get (cg_peer_transports opts) p) = Some url"
  by (auto simp: route_to_owner_def split: option.splits if_splits)

lemma adapter_None_iff: "control_gated_adapter t = None \<longleftrightarrow> t = Target_local"
  by (cases t) auto

lemma session_path_not_own_surface:
  "extract_session_id_from_read_path path = Some sid \<Longrightarrow> \<not> own_surface path"
proof
  assume e: "extract_session_id_from_read_path path = Some sid" and o: "own_surface path"
  from o obtain t where "path = ''/amicode'' @ t" by (auto simp: own_surface_def starts_with_iff)
  with e show False
    by (simp add: extract_session_id_from_read_path_def segment_after_def split: if_splits)
qed

section \<open>Properties\<close>

text \<open>C4: A request that belongs to another machine never lands here. When its path or its routing
  header names a machine other than this one, the resolver answers that machine or a refusal
  naming it, and the multiplexer never takes the refusal for local; it routes exactly when the
  write gate would let a confirmed write through, to the URL the peer's transport gives, with the
  credential of the grant held for that peer and no other.\<close>

theorem routing_fails_closed:
  assumes "routed_owner q = Some p" and "p \<noteq> cg_local_machine_id opts"
  shows "decide_route q opts \<noteq> Target_local
    \<and> control_gated_adapter (decide_route q opts) \<noteq> None
    \<and> route_opens (decide_route q opts) =
        write_opens (evaluate_remote_write_gate
          \<lparr> owner_machine = p, write_action = action, write_path = rq_path q \<rparr> (gate_facts opts))
    \<and> (\<forall>p' url credential. decide_route q opts = Target_peer p' url credential \<longrightarrow>
         p' = p \<and> map_option grant_token (cg_grant_reader opts p) = Some credential
         \<and> transport_url (obj_get (cg_peer_transports opts) p) = Some url)"
proof -
  have r: "decide_route q opts = route_to_owner (rq_method q) opts p"
    using assms by (simp add: decide_route_owner)
  have "route_opens (decide_route q opts) =
        write_opens (evaluate_remote_write_gate
          \<lparr> owner_machine = p, write_action = action, write_path = rq_path q \<rparr> (gate_facts opts))"
    by (rule router_and_write.agree(1)) (simp_all add: assms)
  then show ?thesis using r by (auto simp: adapter_None_iff dest: route_credential)
qed

definition demo_routing :: control_gated_opts where
  "demo_routing =
     \<lparr> cg_local_machine_id = ''me'',
       cg_peer_transports = [(''P'', \<lparr> peer_url = Some ''http://127.0.0.1:4100'', peer_token = None \<rparr>)],
       cg_grant_reader = (\<lambda>p. if p = ''P''
          then Some \<lparr> scope = Control, state = Grant_active, grant_token = ''tok'', grant_machine_id = ''P'' \<rparr>
          else None) \<rparr>"

definition demo_request :: routed_request where
  "demo_request =
     \<lparr> rq_method = ''POST'', rq_path = ''/file/write'',
       rq_headers = [(''x-amicode-owner'', Header '' P '')], rq_now = 0, rq_map = new_owner_map None \<rparr>"

lemmas demo_route_eval =
  demo_routing_def demo_request_def routed_owner_def honesty_path_def request_owner_def
  extract_session_id_from_path_def segment_after_def owner_header_def OWNER_ROUTING_HEADER_def
  js_trim_def js_space_def gate_facts_def control_held_def transport_url_def
  evaluate_remote_write_gate_def grant_read.truncate_def

theorem routing_fails_closed_witness:
  "route_opens (decide_route demo_request demo_routing) = Some ''P''"
  using routing_fails_closed [of demo_request "''P''" demo_routing "''POST''"]
  by (simp add: demo_route_eval)

text \<open>On an observation-only machine a request for a session of a serving peer is claimed by
  exactly one plane: GET and HEAD by the read router, everything else by the write router, so it
  is never served by the local engine; a write reaches the peer only when control of it is held,
  with the peer's own token, and otherwise gets the write gate's reason.\<close>

theorem observation_planes_split_a_peer_session:
  fixes req_method :: string and grants :: "string \<Rightarrow> grant_read option"
  assumes "extract_session_id_from_read_path path = Some sid"
    and "resolve_owner sid now m = (Some p, m')" and "p \<noteq> []" and "p \<noteq> local_id"
    and "peer p \<noteq> None"
  defines "reading \<equiv> method_or_get req_method = ''GET'' \<or> method_or_get req_method = ''HEAD''"
    and "deps \<equiv> \<lparr> local_machine_id = local_id, grant_reader = grants,
                  peer_reachable = (\<lambda>p. usable (peer p) \<noteq> None) \<rparr>"
  shows "(fst (observation_read req_method path now m local_id peer) \<noteq> None) = reading
    \<and> (fst (observation_write req_method path now m local_id peer grants) = None) = reading
    \<and> (\<not> reading \<longrightarrow>
        fst (observation_write req_method path now m local_id peer grants) =
          Some (case usable (peer p) of
                  Some (url, token) \<Rightarrow>
                    if control_held deps p then Observe_peer p url token
                    else Observe_denied p (the (denial_reason (evaluate_remote_write_gate
                           \<lparr> owner_machine = p, write_action = method_or_get req_method, write_path = path \<rparr> deps)))
                | None \<Rightarrow>
                    Observe_denied p (the (denial_reason (evaluate_remote_write_gate
                           \<lparr> owner_machine = p, write_action = method_or_get req_method, write_path = path \<rparr> deps)))))"
proof -
  note own = session_path_not_own_surface [OF assms(1)]
  have rd: "fst (observation_read req_method path now m local_id peer) =
      (if reading then (case usable (peer p) of
           None \<Rightarrow> Some (Observe_degraded p) | Some (url, token) \<Rightarrow> Some (Observe_peer p url token))
       else None)"
    using assms(1-5) own by (auto simp: observation_read_def reading_def Let_def)
  have wr: "fst (observation_write req_method path now m local_id peer grants) =
      (if reading then None else Some (authorize_write (method_or_get req_method) path p local_id peer grants))"
    using assms(1-5) own by (auto simp: observation_write_def reading_def Let_def)
  have auth: "authorize_write action path p local_id peer grants =
      (case usable (peer p) of
         Some (url, token) \<Rightarrow>
           if control_held deps p then Observe_peer p url token
           else Observe_denied p (the (denial_reason (evaluate_remote_write_gate
                  \<lparr> owner_machine = p, write_action = action, write_path = path \<rparr> deps)))
       | None \<Rightarrow>
           Observe_denied p (the (denial_reason (evaluate_remote_write_gate
                  \<lparr> owner_machine = p, write_action = action, write_path = path \<rparr> deps))))" for action
    using assms(4)
    by (cases "grants p")
      (auto simp: authorize_write_def deps_def evaluate_remote_write_gate_def control_held_def
        not_active split: option.splits prod.splits grant_state.splits)
  show ?thesis by (auto simp: rd wr auth split: option.splits)
qed

definition demo_serving_peer :: "string \<Rightarrow> peer_transport option" where
  "demo_serving_peer p = (if p = ''P'' then Some \<lparr> peer_url = Some ''http://p'', peer_token = Some ''rt'' \<rparr> else None)"

definition demo_map :: owner_map where
  "demo_map = (new_owner_map None)\<lparr> owners := [(''s1'', ''P'')] \<rparr>"

lemmas demo_plane_eval =
  extract_session_id_from_read_path_def segment_after_def slash_def resolve_owner_def demo_map_def
  demo_serving_peer_def new_owner_map_def method_or_get_def to_upper_def Let_def

theorem observation_planes_split_a_peer_session_witness:
  "fst (observation_write ''POST'' ''/session/s1/message'' 0 demo_map ''me'' demo_serving_peer (demo_grant Grant_active))
   \<noteq> None"
proof -
  have e: "extract_session_id_from_read_path ''/session/s1/message'' = Some ''s1''"
    "resolve_owner ''s1'' 0 demo_map = (Some ''P'', demo_map)" "''P'' \<noteq> []" "''P'' \<noteq> ''me''"
    "demo_serving_peer ''P'' \<noteq> None"
    by (simp_all add: demo_plane_eval)
  have "method_or_get ''POST'' = ''POST''" by (simp add: demo_plane_eval)
  with observation_planes_split_a_peer_session [where peer = demo_serving_peer and req_method = "''POST''"
      and grants = "demo_grant Grant_active", OF e]
  show ?thesis by simp
qed

text \<open>A session created on a peer keeps going to that peer before the projection knows it: when
  the create was routed there and the new id is bound, every later write to the session, on any of
  its paths, reaches the same peer with the same token while the binding is younger than its
  time-to-live, unless the projection has since named an owner.\<close>

theorem created_session_follows_its_create:
  assumes "observation_create create_method create_path headers local_id peer grants
      = Some (Observe_peer p url token)"
    and "sid \<noteq> []" and "obj_get (owners m) sid = None"
    and "now - t \<le> PENDING_OWNER_TTL_MS"
    and "extract_session_id_from_read_path path = Some sid"
    and "method_or_get req_method \<noteq> ''GET''" and "method_or_get req_method \<noteq> ''HEAD''"
  shows "fst (observation_write req_method path now (record_pending_owner sid p t m) local_id peer grants)
    = Some (Observe_peer p url token)"
proof -
  from assms(1) obtain q where q: "owner_header headers = Some q" "q \<noteq> local_id" "peer q \<noteq> None"
    and auth: "authorize_write (to_upper create_method) create_path q local_id peer grants
      = Observe_peer p url token"
    by (auto simp: observation_create_def split: option.splits if_splits)
  from auth have "q = p"
    by (auto simp: authorize_write_def split: write_gate_result.splits option.splits)
  have "p \<noteq> []" using q(1) \<open>q = p\<close>
    by (auto simp: owner_header_def split: option.splits header_value.splits if_splits)
  then have r: "resolve_owner sid now (record_pending_owner sid p t m) = (Some p, record_pending_owner sid p t m)"
    using assms(2-4) by (simp add: resolve_owner_def record_pending_owner_def)
  have "authorize_write action path p local_id peer grants = Observe_peer p url token" for action
    using auth unfolding \<open>q = p\<close>
    by (auto simp: authorize_write_def evaluate_remote_write_gate_def split: option.splits if_splits)
  with r q \<open>q = p\<close> \<open>p \<noteq> []\<close> assms(5-7) session_path_not_own_surface [OF assms(5)]
  show ?thesis by (auto simp: observation_write_def Let_def)
qed

definition demo_p_grant :: "string \<Rightarrow> grant_read option" where
  "demo_p_grant p = (if p = ''P'' then Some \<lparr> scope = Control, state = Grant_active \<rparr> else None)"

theorem created_session_follows_its_create_witness:
  "fst (observation_write ''PATCH'' ''/session/s9'' 60000
      (record_pending_owner ''s9'' ''P'' 0 (new_owner_map None)) ''me'' demo_serving_peer demo_p_grant)
   = Some (Observe_peer ''P'' ''http://p'' ''rt'')"
proof (rule created_session_follows_its_create
    [of "''POST''" "''/session''" "[(''x-amicode-owner'', Header ''P'')]"])
  show "observation_create ''POST'' ''/session'' [(''x-amicode-owner'', Header ''P'')] ''me'' demo_serving_peer demo_p_grant
      = Some (Observe_peer ''P'' ''http://p'' ''rt'')"
    by (simp add: observation_create_def authorize_write_def owner_header_def OWNER_ROUTING_HEADER_def
        js_trim_def js_space_def method_or_get_def to_upper_def demo_serving_peer_def demo_p_grant_def
        evaluate_remote_write_gate_def usable_def)
qed (simp_all add: demo_plane_eval PENDING_OWNER_TTL_MS_def)

section \<open>A lapsed owner\<close>

text \<open>Once the retention window of a failing peer has lapsed, the map names the peer unavailable
  but no longer knows whose the session was: the owner-routing resolvers then treat a request on
  the session's own path as local, where they would have refused it one refresh earlier.\<close>

theorem lapsed_owner_falls_to_local:
  "let m = run_refreshes [demo_answer, demo_timeout 61000] (new_owner_map None);
       m' = run_refreshes [demo_answer, demo_timeout 61001] (new_owner_map None);
       opts = demo_routing\<lparr> cg_peer_transports := [] \<rparr>;
       route = (\<lambda>m. fst (control_gated_resolve ''POST'' ''/api/session/s1/prompt'' [] 0 m opts));
       proxy = (\<lambda>m. fst (multiplex_resolve_target ''/api/session/s1/prompt'' [] 0 m ''me''
                  [(''P'', \<lparr> peer_url = None, peer_token = None \<rparr>)]))
   in route m = Target_unavailable ''P'' transport_down \<and> proxy m = Some (Unreachable ''P'')
    \<and> route m' = Target_local \<and> proxy m' = None \<and> is_unavailable ''P'' m'"
proof -
  let ?m = "\<lambda>t. run_refreshes [demo_answer, demo_timeout t] (new_owner_map None)"
  have e: "extract_session_id_from_path ''/api/session/s1/prompt'' = Some ''s1''"
    by (simp add: extract_session_id_from_path_def segment_after_def slash_def)
  have h: "\<not> honesty_path ''/api/session/s1/prompt''" by (simp add: honesty_path_def)
  have eval: "fst (resolve_owner ''s1'' 0 (?m 61000)) = Some ''P''"
    "fst (resolve_owner ''s1'' 0 (?m 61001)) = None" "is_unavailable ''P'' (?m 61001)"
    by (simp_all add: run_refreshes_def refresh_once_def fst_update demo_answer_def demo_timeout_def
        read_projection_def take_entry_def owner_of_entry_def hold_def push_fresh_def
        apply_peer_outcomes_def apply_peer_def refresh_retains_def keep_unconfirmed_def
        prune_pending_def new_owner_map_def OWNER_RETENTION_MS_def resolve_owner_def
        is_unavailable_def set_add_def set_delete_def obj_del_def Let_def)
  show ?thesis
    using eval
    by (auto simp: Let_def control_gated_resolve_def multiplex_resolve_target_def request_owner_def e h owner_header_def
        route_to_owner_def demo_routing_def transport_url_def is_read_method_def to_upper_def
        split: prod.splits option.splits)
qed

end
