(* ===== verification/Keyed_Store.thy ===== *)
theory Keyed_Store
  imports Canonical_Json
begin

text \<open>
  The keyed store primitive under the fleet's trust stores
  (\<open>packages/extension/src/amicode_service/keyed_store.ts\<close>): one JSON document per file, named
  collections of entries by id. A file is what parsing it gives, \<open>None\<close> when it is absent or
  does not parse; a written document is read back as it was written (its values hold no
  \<open>undefined\<close>). Ids are own keys, not array indices. The contract the stores above rely on is the
  locale \<open>keyed_store\<close>.
\<close>

type_synonym keyed_file = "json option"
type_synonym keyed_doc = "(string \<times> json) list"

definition read_doc :: "keyed_file \<Rightarrow> keyed_doc" where
  "read_doc f = (case f of Some (JObj d) \<Rightarrow> d | _ \<Rightarrow> [])"

definition collection_of :: "keyed_doc \<Rightarrow> string \<Rightarrow> keyed_doc" where
  "collection_of d coll = (case map_of d coll of Some (JObj c) \<Rightarrow> c | _ \<Rightarrow> [])"

definition read_keyed_collection :: "keyed_file \<Rightarrow> string \<Rightarrow> keyed_doc" where
  "read_keyed_collection f coll = collection_of (read_doc f) coll"

definition store_version_key :: string where
  "store_version_key = ''store_version''"

definition upsert_keyed_entry :: "string \<Rightarrow> string \<Rightarrow> json \<Rightarrow> int \<Rightarrow> keyed_file \<Rightarrow> keyed_file" where
  "upsert_keyed_entry coll i v version f =
     (let d = read_doc f; c = obj_set (collection_of d coll) i v
      in Some (JObj (obj_set (obj_set d store_version_key (JNum version)) coll (JObj c))))"

definition delete_keyed_entry :: "string \<Rightarrow> string \<Rightarrow> int \<Rightarrow> keyed_file \<Rightarrow> keyed_file" where
  "delete_keyed_entry coll i version f =
     (let d = read_doc f; c = collection_of d coll
      in if \<not> obj_has c i then f
         else Some (JObj (obj_set (obj_set d store_version_key (JNum version)) coll (JObj (obj_del c i)))))"

definition clear_keyed_store_file :: "keyed_file \<Rightarrow> keyed_file" where
  "clear_keyed_store_file f = None"

abbreviation keyed_entry :: "keyed_file \<Rightarrow> string \<Rightarrow> string \<Rightarrow> json option" where
  "keyed_entry f coll i \<equiv> map_of (read_keyed_collection f coll) i"

section \<open>The contract\<close>

text \<open>\<open>coll_ok\<close> says which names can name a collection. An upsert writes one entry and a delete
  removes one; both leave every other entry of every collection alone.\<close>

locale keyed_store =
  fixes entry :: "'f \<Rightarrow> string \<Rightarrow> string \<Rightarrow> 'v option"
    and upsert :: "string \<Rightarrow> string \<Rightarrow> 'v \<Rightarrow> 'f \<Rightarrow> 'f"
    and delete :: "string \<Rightarrow> string \<Rightarrow> 'f \<Rightarrow> 'f"
    and coll_ok :: "string \<Rightarrow> bool"
  assumes entry_upsert: "coll_ok coll \<Longrightarrow> coll_ok coll' \<Longrightarrow>
      entry (upsert coll i v f) coll' j = (if coll' = coll \<and> j = i then Some v else entry f coll' j)"
    and entry_delete: "coll_ok coll \<Longrightarrow> coll_ok coll' \<Longrightarrow>
      entry (delete coll i f) coll' j = (if coll' = coll \<and> j = i then None else entry f coll' j)"
begin

lemma upsert_then_delete:
  "coll_ok coll \<Longrightarrow> entry (delete coll i (upsert coll i v f)) coll i = None"
  by (simp add: entry_delete)

lemma move:
  assumes "coll_ok coll" and "coll_ok coll'" and "coll' \<noteq> coll"
  shows "entry (upsert coll' i v (delete coll i f)) coll i = None"
    and "entry (upsert coll' i v (delete coll i f)) coll' i = Some v"
  using assms by (simp_all add: entry_upsert entry_delete)

lemma others_kept:
  assumes "coll_ok coll" and "coll_ok coll'" and "j \<noteq> i \<or> coll' \<noteq> coll"
  shows "entry (upsert coll i v f) coll' j = entry f coll' j"
    and "entry (delete coll i f) coll' j = entry f coll' j"
  using assms by (auto simp: entry_upsert entry_delete)

end

section \<open>The file provides it\<close>

lemma read_doc_Some [simp]: "read_doc (Some (JObj d)) = d"
  by (simp add: read_doc_def)

lemma collection_of_set [simp]:
  "collection_of (obj_set d k (JObj c)) coll = (if coll = k then c else collection_of d coll)"
  by (simp add: collection_of_def)

lemma collection_of_version [simp]:
  "coll \<noteq> store_version_key \<Longrightarrow> collection_of (obj_set d store_version_key v) coll = collection_of d coll"
  by (simp add: collection_of_def)

interpretation file_store: keyed_store keyed_entry
  "\<lambda>coll i v. upsert_keyed_entry coll i v version"
  "\<lambda>coll i. delete_keyed_entry coll i version"
  "\<lambda>coll. coll \<noteq> store_version_key" for version
proof unfold_locales
  fix coll coll' i j :: string and v :: json and f :: keyed_file
  assume c: "coll \<noteq> store_version_key" "coll' \<noteq> store_version_key"
  show "keyed_entry (upsert_keyed_entry coll i v version f) coll' j =
      (if coll' = coll \<and> j = i then Some v else keyed_entry f coll' j)"
    using c by (auto simp: upsert_keyed_entry_def read_keyed_collection_def Let_def)
  show "keyed_entry (delete_keyed_entry coll i version f) coll' j =
      (if coll' = coll \<and> j = i then None else keyed_entry f coll' j)"
  proof (cases "obj_has (collection_of (read_doc f) coll) i")
    case True
    with c show ?thesis by (auto simp: delete_keyed_entry_def read_keyed_collection_def Let_def)
  next
    case False
    then have "map_of (collection_of (read_doc f) coll) i = None" by (simp add: obj_get_None_iff)
    with False show ?thesis
      by (simp add: delete_keyed_entry_def read_keyed_collection_def Let_def)
  qed
qed

text \<open>Whatever else the document holds is kept.\<close>

lemma upsert_keeps_unknown_keys:
  "k \<noteq> store_version_key \<Longrightarrow> k \<noteq> coll \<Longrightarrow>
   map_of (read_doc (upsert_keyed_entry coll i v version f)) k = map_of (read_doc f) k"
  by (simp add: upsert_keyed_entry_def Let_def)

end
