(* ===== verification/Fleet_Grants.thy ===== *)
theory Fleet_Grants
  imports Keyed_Store Control_Gates
begin

text \<open>
  The lifecycle grants of a fleet
  (\<open>packages/extension/src/amicode_service/fleet_control_lifecycle.ts\<close>): the record of a grant and
  its place in the keyed store, the operations issue, revoke, acknowledge and re-admit, the
  validation of a presented credential, the route matrix of the scopes, and the lookups by token
  and by target that the boundary and the gates use. The store is a file of \<open>Keyed_Store\<close>; the
  token factory and the clock are arguments (the token and the time stamp they give). Strings that
  are truncated for display are ASCII.
\<close>

section \<open>The grant record\<close>

definition scope_of_string :: "string \<Rightarrow> grant_scope option" where
  "scope_of_string s =
     (if s = ''observe'' then Some Observe else if s = ''control'' then Some Control
      else if s = ''lifecycle-admin'' then Some Lifecycle_admin else None)"

fun string_of_scope :: "grant_scope \<Rightarrow> string" where
  "string_of_scope Observe = ''observe''"
| "string_of_scope Control = ''control''"
| "string_of_scope Lifecycle_admin = ''lifecycle-admin''"

definition grant_state_of_string :: "string \<Rightarrow> grant_state option" where
  "grant_state_of_string s =
     (if s = ''active'' then Some Grant_active
      else if s = ''revocation-pending'' then Some Revocation_pending
      else if s = ''revoked'' then Some Grant_revoked else None)"

fun string_of_grant_state :: "grant_state \<Rightarrow> string" where
  "string_of_grant_state Grant_active = ''active''"
| "string_of_grant_state Revocation_pending = ''revocation-pending''"
| "string_of_grant_state Grant_revoked = ''revoked''"

record lifecycle_grant =
  requester_machine_id :: string
  requester_identity_key :: string
  target_machine_id :: string
  target_identity_key :: string
  lg_scope :: grant_scope
  generation :: int
  lg_state :: grant_state
  lg_token :: string
  issued_at :: string
  revoked_at :: "string option"

section \<open>Reading and writing the store\<close>

definition LIFECYCLE_GRANT_STORE_VERSION :: int where
  "LIFECYCLE_GRANT_STORE_VERSION = 1"

definition GRANTS_COLLECTION :: string where
  "GRANTS_COLLECTION = ''lifecycle_grants''"

text \<open>\<open>typeof r.k === "string" ? r.k : ""\<close>, and the same for a number with default 0.\<close>

definition str_field :: "keyed_doc \<Rightarrow> string \<Rightarrow> string" where
  "str_field r k = (case map_of r k of Some (JStr s) \<Rightarrow> s | _ \<Rightarrow> [])"

definition num_field :: "keyed_doc \<Rightarrow> string \<Rightarrow> int" where
  "num_field r k = (case map_of r k of Some (JNum n) \<Rightarrow> n | _ \<Rightarrow> 0)"

text \<open>An optional string that is kept only when it is not empty.\<close>

definition opt_str_field :: "keyed_doc \<Rightarrow> string \<Rightarrow> string option" where
  "opt_str_field r k = (if str_field r k = [] then None else Some (str_field r k))"

definition parse_grant_fields :: "string \<Rightarrow> keyed_doc \<Rightarrow> lifecycle_grant option" where
  "parse_grant_fields peer r =
     (if str_field r ''requester_identity_key'' = [] \<or> str_field r ''target_machine_id'' = []
         \<or> str_field r ''target_identity_key'' = [] then None
      else (case scope_of_string (str_field r ''scope'') of
              None \<Rightarrow> None
            | Some sc \<Rightarrow>
                (case grant_state_of_string (str_field r ''state'') of
                   None \<Rightarrow> None
                 | Some st \<Rightarrow>
                     if num_field r ''generation'' < 1 \<or> str_field r ''token'' = []
                        \<or> str_field r ''issued_at'' = [] then None
                     else Some
                       \<lparr> requester_machine_id = peer,
                         requester_identity_key = str_field r ''requester_identity_key'',
                         target_machine_id = str_field r ''target_machine_id'',
                         target_identity_key = str_field r ''target_identity_key'',
                         lg_scope = sc, generation = num_field r ''generation'', lg_state = st,
                         lg_token = str_field r ''token'', issued_at = str_field r ''issued_at'',
                         revoked_at = opt_str_field r ''revoked_at'' \<rparr>)))"

fun parse_stored_grant :: "string \<Rightarrow> json option \<Rightarrow> lifecycle_grant option" where
  "parse_stored_grant peer (Some (JObj r)) = parse_grant_fields peer r"
| "parse_stored_grant peer _ = None"

definition read_lifecycle_grant :: "string \<Rightarrow> keyed_file \<Rightarrow> lifecycle_grant option" where
  "read_lifecycle_grant peer f = parse_stored_grant peer (keyed_entry f GRANTS_COLLECTION peer)"

fun parse_grants :: "keyed_doc \<Rightarrow> lifecycle_grant list" where
  "parse_grants [] = []"
| "parse_grants ((peer, raw) # es) =
     (case parse_stored_grant peer (Some raw) of
        None \<Rightarrow> parse_grants es
      | Some g \<Rightarrow> g # parse_grants es)"

definition read_all_lifecycle_grants :: "keyed_file \<Rightarrow> lifecycle_grant list" where
  "read_all_lifecycle_grants f = parse_grants (read_keyed_collection f GRANTS_COLLECTION)"

text \<open>A JavaScript string is truthy when it is present and not empty.\<close>

definition non_empty :: "string option \<Rightarrow> string option" where
  "non_empty s = (if s = Some [] then None else s)"

definition grant_fields :: "lifecycle_grant \<Rightarrow> keyed_doc" where
  "grant_fields g =
     [(''requester_identity_key'', JStr (requester_identity_key g)),
      (''target_machine_id'', JStr (target_machine_id g)),
      (''target_identity_key'', JStr (target_identity_key g)),
      (''scope'', JStr (string_of_scope (lg_scope g))),
      (''generation'', JNum (generation g)),
      (''state'', JStr (string_of_grant_state (lg_state g))),
      (''token'', JStr (lg_token g)),
      (''issued_at'', JStr (issued_at g))]
      @ (case non_empty (revoked_at g) of None \<Rightarrow> [] | Some r \<Rightarrow> [(''revoked_at'', JStr r)])"

definition grant_record :: "lifecycle_grant \<Rightarrow> json" where
  "grant_record g = JObj (grant_fields g)"

definition write_grant :: "string \<Rightarrow> lifecycle_grant \<Rightarrow> keyed_file \<Rightarrow> keyed_file" where
  "write_grant peer g f =
     upsert_keyed_entry GRANTS_COLLECTION peer (grant_record g) LIFECYCLE_GRANT_STORE_VERSION f"

section \<open>Issue, revoke, acknowledge, re-admit\<close>

record grant_request =
  gr_requester_machine_id :: string
  gr_requester_identity_key :: string
  gr_target_machine_id :: string
  gr_target_identity_key :: string
  gr_scope :: grant_scope

datatype issue_refusal = Identity_mismatch | Target_mismatch | Already_revoked

definition issue_refused :: "lifecycle_grant option \<Rightarrow> string \<Rightarrow> issue_refusal option" where
  "issue_refused existing key =
     (case existing of
        None \<Rightarrow> None
      | Some g \<Rightarrow> if requester_identity_key g \<noteq> key then Some Identity_mismatch
                  else if lg_state g = Grant_revoked then Some Already_revoked else None)"

definition issued_grant :: "grant_request \<Rightarrow> int \<Rightarrow> string \<Rightarrow> string \<Rightarrow> lifecycle_grant" where
  "issued_grant req gen token now =
     \<lparr> requester_machine_id = gr_requester_machine_id req,
       requester_identity_key = gr_requester_identity_key req,
       target_machine_id = gr_target_machine_id req,
       target_identity_key = gr_target_identity_key req,
       lg_scope = gr_scope req, generation = gen, lg_state = Grant_active, lg_token = token,
       issued_at = now, revoked_at = None \<rparr>"

definition issue_lifecycle_grant ::
  "grant_request \<Rightarrow> string \<Rightarrow> string \<Rightarrow> keyed_file \<Rightarrow> (issue_refusal + lifecycle_grant) \<times> keyed_file" where
  "issue_lifecycle_grant req token now f =
     (let existing = read_lifecycle_grant (gr_requester_machine_id req) f
      in (case issue_refused existing (gr_requester_identity_key req) of
            Some r \<Rightarrow> (Inl r, f)
          | None \<Rightarrow>
              let g = issued_grant req (case existing of None \<Rightarrow> 1 | Some e \<Rightarrow> generation e) token now
              in (Inr g, write_grant (gr_requester_machine_id req) g f)))"

datatype revoke_refusal = Revoke_not_found | Revoke_already_revoked

text \<open>The generation reported by a revocation that is now pending.\<close>

definition revoke_lifecycle_grant ::
  "string \<Rightarrow> string \<Rightarrow> keyed_file \<Rightarrow> (revoke_refusal + int) \<times> keyed_file" where
  "revoke_lifecycle_grant peer now f =
     (case read_lifecycle_grant peer f of
        None \<Rightarrow> (Inl Revoke_not_found, f)
      | Some g \<Rightarrow>
          if lg_state g = Grant_revoked then (Inl Revoke_already_revoked, f)
          else if lg_state g = Revocation_pending then (Inr (generation g), f)
          else (Inr (generation g),
                write_grant peer (g\<lparr>lg_state := Revocation_pending, revoked_at := Some now\<rparr>) f))"

datatype acknowledge_refusal = Acknowledge_not_found | Acknowledge_not_pending

definition acknowledge_revocation ::
  "string \<Rightarrow> keyed_file \<Rightarrow> (acknowledge_refusal + unit) \<times> keyed_file" where
  "acknowledge_revocation peer f =
     (case read_lifecycle_grant peer f of
        None \<Rightarrow> (Inl Acknowledge_not_found, f)
      | Some g \<Rightarrow>
          if lg_state g \<noteq> Revocation_pending then (Inl Acknowledge_not_pending, f)
          else (Inr (), write_grant peer (g\<lparr>lg_state := Grant_revoked\<rparr>) f))"

record readmit_request =
  ra_peer_id :: string
  ra_target_approved :: bool
  ra_scope :: grant_scope
  ra_requester_identity_key :: string
  ra_target_machine_id :: string
  ra_target_identity_key :: string

datatype readmit_refusal =
    Readmit_not_found | Readmit_not_revoked | Readmit_approval_required | Readmit_identity_mismatch

definition readmit_refused :: "lifecycle_grant option \<Rightarrow> readmit_request \<Rightarrow> readmit_refusal option" where
  "readmit_refused existing req =
     (case existing of
        None \<Rightarrow> Some Readmit_not_found
      | Some g \<Rightarrow>
          if lg_state g \<noteq> Grant_revoked then Some Readmit_not_revoked
          else if \<not> ra_target_approved req then Some Readmit_approval_required
          else if requester_identity_key g \<noteq> ra_requester_identity_key req
          then Some Readmit_identity_mismatch
          else None)"

definition readmitted_grant :: "readmit_request \<Rightarrow> int \<Rightarrow> string \<Rightarrow> string \<Rightarrow> lifecycle_grant" where
  "readmitted_grant req gen token now =
     \<lparr> requester_machine_id = ra_peer_id req,
       requester_identity_key = ra_requester_identity_key req,
       target_machine_id = ra_target_machine_id req,
       target_identity_key = ra_target_identity_key req,
       lg_scope = ra_scope req, generation = gen, lg_state = Grant_active, lg_token = token,
       issued_at = now, revoked_at = None \<rparr>"

definition readmit_peer ::
  "readmit_request \<Rightarrow> string \<Rightarrow> string \<Rightarrow> keyed_file
     \<Rightarrow> (readmit_refusal + lifecycle_grant) \<times> keyed_file" where
  "readmit_peer req token now f =
     (let existing = read_lifecycle_grant (ra_peer_id req) f
      in (case readmit_refused existing req of
            Some r \<Rightarrow> (Inl r, f)
          | None \<Rightarrow>
              let g = readmitted_grant req
                        (case existing of None \<Rightarrow> 1 | Some e \<Rightarrow> generation e + 1) token now
              in (Inr g, write_grant (ra_peer_id req) g f)))"

section \<open>Validating a credential\<close>

datatype grant_verdict =
    Valid | Not_found | Revoked_credential | Pending_credential | Stale_generation | Wrong_token

definition validate_lifecycle_grant ::
  "string \<Rightarrow> string \<Rightarrow> int \<Rightarrow> keyed_file \<Rightarrow> grant_verdict" where
  "validate_lifecycle_grant peer token gen f =
     (case read_lifecycle_grant peer f of
        None \<Rightarrow> Not_found
      | Some g \<Rightarrow>
          if lg_state g = Grant_revoked then Revoked_credential
          else if lg_state g = Revocation_pending then Pending_credential
          else if gen \<noteq> generation g then Stale_generation
          else if token \<noteq> lg_token g then Wrong_token
          else Valid)"

section \<open>The route matrix\<close>

definition OBSERVE_PREFIXES :: "string list" where
  "OBSERVE_PREFIXES =
     [''/amicode/fleet/status'', ''/amicode/fleet/sessions'', ''/amicode/fleet/roster'']"

definition CONTROL_PREFIXES :: "string list" where
  "CONTROL_PREFIXES = OBSERVE_PREFIXES @
     [''/amicode/fleet/dispatch'', ''/amicode/fleet/solve'', ''/amicode/fleet/session-control'',
      ''/session'', ''/pty/'']"

definition LIFECYCLE_ADMIN_PREFIXES :: "string list" where
  "LIFECYCLE_ADMIN_PREFIXES =
     [''/amicode/fleet/peer-token'', ''/amicode/fleet/revoke'', ''/amicode/fleet/readmit'',
      ''/amicode/fleet/lifecycle'', ''/amicode/fleet/control-approve'',
      ''/amicode/fleet/control-deny'']"

definition matches_prefixes :: "string list \<Rightarrow> string \<Rightarrow> bool" where
  "matches_prefixes prefixes path \<longleftrightarrow>
     list_ex (\<lambda>p. path = p \<or> starts_with path (p @ ''/'') \<or> starts_with path p) prefixes"

definition matrix_read_method :: "string \<Rightarrow> bool" where
  "matrix_read_method m \<longleftrightarrow>
     (let m = to_upper m in m = ''GET'' \<or> m = ''HEAD'' \<or> m = ''OPTIONS'')"

fun evaluate_route_matrix :: "grant_scope \<Rightarrow> string \<Rightarrow> string \<Rightarrow> bool" where
  "evaluate_route_matrix Observe req_method path =
     (matches_prefixes OBSERVE_PREFIXES path \<and> matrix_read_method req_method)"
| "evaluate_route_matrix Control req_method path = matches_prefixes CONTROL_PREFIXES path"
| "evaluate_route_matrix Lifecycle_admin req_method path =
     matches_prefixes LIFECYCLE_ADMIN_PREFIXES path"

section \<open>Who may change the lifecycle\<close>

record authority_deps =
  authority_identity_key :: string
  local_service_mint :: string

definition is_lifecycle_authority :: "string option \<Rightarrow> string option \<Rightarrow> authority_deps \<Rightarrow> bool" where
  "is_lifecycle_authority identity_key credential deps \<longleftrightarrow>
     (if identity_key = Some (authority_identity_key deps) then True
      else if credential \<noteq> None \<and> credential = Some (local_service_mint deps) then True
      else False)"

section \<open>Lookups\<close>

definition find_grant_by_token :: "string \<Rightarrow> keyed_file \<Rightarrow> lifecycle_grant option" where
  "find_grant_by_token token f =
     find (\<lambda>g. lg_token g = token \<and> lg_state g = Grant_active) (read_all_lifecycle_grants f)"

definition find_control_grant_by_target :: "string \<Rightarrow> keyed_file \<Rightarrow> lifecycle_grant option" where
  "find_control_grant_by_target target f =
     find (\<lambda>g. target_machine_id g = target \<and> lg_scope g = Control \<and> lg_state g = Grant_active)
       (read_all_lifecycle_grants f)"

datatype scope_decision =
    No_active_grant
  | Scope_denied grant_scope
  | Scope_allowed grant_scope

definition enforce_scope_for_request ::
  "string \<Rightarrow> string \<Rightarrow> string \<Rightarrow> keyed_file \<Rightarrow> scope_decision" where
  "enforce_scope_for_request token req_method path f =
     (case find_grant_by_token token f of
        None \<Rightarrow> No_active_grant
      | Some g \<Rightarrow> if \<not> evaluate_route_matrix (lg_scope g) req_method path
                  then Scope_denied (lg_scope g) else Scope_allowed (lg_scope g))"

section \<open>Display\<close>

definition ellipsis :: string where
  "ellipsis = [CHR 0xE2, CHR 0x80, CHR 0xA6]"

definition sanitize_grant_for_display :: "lifecycle_grant \<Rightarrow> json" where
  "sanitize_grant_for_display g = JObj
     ([(''requesterMachineId'', JStr (requester_machine_id g)),
       (''requesterIdentityKey'', JStr (take 16 (requester_identity_key g) @ ellipsis)),
       (''targetMachineId'', JStr (target_machine_id g)),
       (''scope'', JStr (string_of_scope (lg_scope g))),
       (''generation'', JNum (generation g)),
       (''state'', JStr (string_of_grant_state (lg_state g))),
       (''issuedAt'', JStr (issued_at g))]
      @ (case non_empty (revoked_at g) of None \<Rightarrow> [] | Some r \<Rightarrow> [(''revokedAt'', JStr r)]))"

end
