(* ===== verification/Grant_Lifecycle.thy ===== *)
theory Grant_Lifecycle
  imports Fleet_Grants
begin

text \<open>
  What the grant operations guarantee: a grant is read back as it was written, every operation is
  one step of the lifecycle of one requester, and a credential that stopped validating never
  validates again.
\<close>

section \<open>Reading back a written grant\<close>

definition readable_grant :: "lifecycle_grant \<Rightarrow> bool" where
  "readable_grant g \<longleftrightarrow>
     requester_identity_key g \<noteq> [] \<and> target_machine_id g \<noteq> [] \<and> target_identity_key g \<noteq> [] \<and>
     1 \<le> generation g \<and> lg_token g \<noteq> [] \<and> issued_at g \<noteq> []"

lemma scope_of_string_of_scope [simp]: "scope_of_string (string_of_scope sc) = Some sc"
  by (cases sc) (simp_all add: scope_of_string_def)

lemma state_of_string_of_state [simp]: "grant_state_of_string (string_of_grant_state st) = Some st"
  by (cases st) (simp_all add: grant_state_of_string_def)

lemma grant_fields_simps:
  "str_field (grant_fields g) ''requester_identity_key'' = requester_identity_key g"
  "str_field (grant_fields g) ''target_machine_id'' = target_machine_id g"
  "str_field (grant_fields g) ''target_identity_key'' = target_identity_key g"
  "str_field (grant_fields g) ''scope'' = string_of_scope (lg_scope g)"
  "str_field (grant_fields g) ''state'' = string_of_grant_state (lg_state g)"
  "num_field (grant_fields g) ''generation'' = generation g"
  "str_field (grant_fields g) ''token'' = lg_token g"
  "str_field (grant_fields g) ''issued_at'' = issued_at g"
  "opt_str_field (grant_fields g) ''revoked_at'' = non_empty (revoked_at g)"
  by (simp_all add: grant_fields_def str_field_def num_field_def)
    (simp add: opt_str_field_def str_field_def non_empty_def split: option.split)

lemma parse_grant_record:
  "parse_stored_grant peer (Some (grant_record g)) =
     (if readable_grant g
      then Some (g\<lparr>requester_machine_id := peer, revoked_at := non_empty (revoked_at g)\<rparr>)
      else None)"
  by (auto simp: grant_record_def parse_grant_fields_def readable_grant_def grant_fields_simps
      intro!: lifecycle_grant.equality)

lemma grants_collection_ok [simp]: "GRANTS_COLLECTION \<noteq> store_version_key"
  by (simp add: GRANTS_COLLECTION_def store_version_key_def)

lemma read_write_grant:
  "read_lifecycle_grant q (write_grant peer g f) =
     (if q = peer
      then (if readable_grant g
            then Some (g\<lparr>requester_machine_id := peer, revoked_at := non_empty (revoked_at g)\<rparr>)
            else None)
      else read_lifecycle_grant q f)"
  by (simp add: read_lifecycle_grant_def write_grant_def file_store.entry_upsert parse_grant_record)

lemma parse_stored_grant_SomeD:
  assumes "parse_stored_grant peer raw = Some g"
  shows "requester_machine_id g = peer \<and> readable_grant g \<and> revoked_at g \<noteq> Some []"
  using assms
  by (cases "(peer, raw)" rule: parse_stored_grant.cases)
    (auto simp: parse_grant_fields_def readable_grant_def opt_str_field_def
      split: if_splits option.splits)

lemma read_lifecycle_grant_SomeD:
  assumes "read_lifecycle_grant peer f = Some g"
  shows "requester_machine_id g = peer" and "readable_grant g" and "revoked_at g \<noteq> Some []"
  using parse_stored_grant_SomeD [of peer "keyed_entry f GRANTS_COLLECTION peer" g] assms
  by (simp_all add: read_lifecycle_grant_def)

lemma non_empty_id [simp]: "s \<noteq> Some [] \<Longrightarrow> non_empty s = s"
  by (simp add: non_empty_def)

section \<open>All grants\<close>

definition store_ok :: "keyed_file \<Rightarrow> bool" where
  "store_ok f \<longleftrightarrow> obj_wf (read_keyed_collection f GRANTS_COLLECTION)"

lemma parse_grants_iff:
  assumes "obj_wf es"
  shows "g \<in> set (parse_grants es) \<longleftrightarrow>
    parse_stored_grant (requester_machine_id g) (map_of es (requester_machine_id g)) = Some g"
  using assms
proof (induction es)
  case (Cons e es)
  obtain k v where e: "e = (k, v)" by (cases e)
  from Cons.prems have wf: "obj_wf es" and fresh: "map_of es k = None"
    by (auto simp: obj_wf_def e map_of_eq_None_iff)
  show ?case
    by (cases "parse_stored_grant k (Some v)")
      (use Cons.IH [OF wf] fresh in \<open>auto simp: e dest: parse_stored_grant_SomeD\<close>)
qed simp

lemma parse_grants_keys: "requester_machine_id ` set (parse_grants es) \<subseteq> fst ` set es"
  by (induction es rule: parse_grants.induct) (auto split: option.splits dest: parse_stored_grant_SomeD)

lemma parse_grants_distinct: "obj_wf es \<Longrightarrow> distinct (map requester_machine_id (parse_grants es))"
proof (induction es)
  case (Cons e es)
  obtain k v where e: "e = (k, v)" by (cases e)
  from Cons.prems have wf: "obj_wf es" and fresh: "k \<notin> fst ` set es" by (auto simp: obj_wf_def e)
  from fresh parse_grants_keys [of es] have "k \<notin> requester_machine_id ` set (parse_grants es)" by blast
  with Cons.IH [OF wf] show ?case
    by (auto simp: e split: option.split dest: parse_stored_grant_SomeD)
qed simp

lemma read_all_iff:
  "store_ok f \<Longrightarrow> g \<in> set (read_all_lifecycle_grants f) \<longleftrightarrow>
     read_lifecycle_grant (requester_machine_id g) f = Some g"
  by (simp add: store_ok_def read_all_lifecycle_grants_def read_lifecycle_grant_def parse_grants_iff)

lemma store_ok_write [simp, intro]: "store_ok f \<Longrightarrow> store_ok (write_grant peer g f)"
  by (auto simp: store_ok_def write_grant_def upsert_keyed_entry_def read_keyed_collection_def Let_def)

lemma store_ok_None [simp]: "store_ok None"
  by (simp add: store_ok_def read_keyed_collection_def read_doc_def collection_of_def)

section \<open>The operations as one kind of event\<close>

datatype grant_op =
    Grant_issue grant_request string string
  | Grant_revoke string string
  | Grant_acknowledge string
  | Grant_readmit readmit_request string string

fun op_peer :: "grant_op \<Rightarrow> string" where
  "op_peer (Grant_issue req token now) = gr_requester_machine_id req"
| "op_peer (Grant_revoke peer now) = peer"
| "op_peer (Grant_acknowledge peer) = peer"
| "op_peer (Grant_readmit req token now) = ra_peer_id req"

fun op_token :: "grant_op \<Rightarrow> string option" where
  "op_token (Grant_issue req token now) = Some token"
| "op_token (Grant_readmit req token now) = Some token"
| "op_token _ = None"

text \<open>Whether the operation was accepted, and the store after it.\<close>

fun apply_grant_op :: "grant_op \<Rightarrow> keyed_file \<Rightarrow> bool \<times> keyed_file" where
  "apply_grant_op (Grant_issue req token now) f =
     (let r = issue_lifecycle_grant req token now f in (\<not> isl (fst r), snd r))"
| "apply_grant_op (Grant_revoke peer now) f =
     (let r = revoke_lifecycle_grant peer now f in (\<not> isl (fst r), snd r))"
| "apply_grant_op (Grant_acknowledge peer) f =
     (let r = acknowledge_revocation peer f in (\<not> isl (fst r), snd r))"
| "apply_grant_op (Grant_readmit req token now) f =
     (let r = readmit_peer req token now f in (\<not> isl (fst r), snd r))"

fun run_grant_ops :: "grant_op list \<Rightarrow> keyed_file \<Rightarrow> keyed_file" where
  "run_grant_ops [] f = f"
| "run_grant_ops (op # ops) f = run_grant_ops ops (snd (apply_grant_op op f))"

lemma run_grant_ops_append [simp]:
  "run_grant_ops (ops @ ops') f = run_grant_ops ops' (run_grant_ops ops f)"
  by (induction ops arbitrary: f) auto

lemmas grant_operation_defs =
  issue_lifecycle_grant_def issue_refused_def issued_grant_def revoke_lifecycle_grant_def
  acknowledge_revocation_def readmit_peer_def readmit_refused_def readmitted_grant_def

text \<open>An operation leaves the store as it is, or writes one grant for the peer it names: with the
  token it was given, active, or with the token held, no longer active.\<close>

lemma apply_grant_op_cases:
  "snd (apply_grant_op op f) = f
   \<or> (\<exists>g. snd (apply_grant_op op f) = write_grant (op_peer op) g f \<and>
        op_token op = Some (lg_token g) \<and> lg_state g = Grant_active)
   \<or> (\<exists>g h. snd (apply_grant_op op f) = write_grant (op_peer op) g f \<and>
        read_lifecycle_grant (op_peer op) f = Some h \<and> lg_token g = lg_token h \<and>
        lg_state g \<noteq> Grant_active \<and> op_token op = None)"
proof (cases "read_lifecycle_grant (op_peer op) f")
  case None
  then show ?thesis
    by (cases op; simp add: grant_operation_defs Let_def)
      (rule disjI2, rule exI, rule conjI [OF refl], simp)
next
  case (Some g)
  then show ?thesis
    by (cases op; cases "lg_state g"; simp add: grant_operation_defs Let_def)
      (intro impI disjI2 exI conjI, rule refl, simp_all)+
qed

lemma apply_grant_op_shape:
  obtains "snd (apply_grant_op op f) = f"
  | g where "snd (apply_grant_op op f) = write_grant (op_peer op) g f"
      "op_token op = Some (lg_token g)" "lg_state g = Grant_active"
  | g h where "snd (apply_grant_op op f) = write_grant (op_peer op) g f"
      "read_lifecycle_grant (op_peer op) f = Some h" "lg_token g = lg_token h"
      "lg_state g \<noteq> Grant_active" "op_token op = None"
  using apply_grant_op_cases [of op f] by blast

lemma store_ok_apply [simp, intro]: "store_ok f \<Longrightarrow> store_ok (snd (apply_grant_op op f))"
  by (rule apply_grant_op_shape [of op f]) auto

lemma store_ok_run [simp, intro]: "store_ok f \<Longrightarrow> store_ok (run_grant_ops ops f)"
  by (induction ops arbitrary: f) auto

lemma other_peers_kept:
  "q \<noteq> op_peer op \<Longrightarrow> read_lifecycle_grant q (snd (apply_grant_op op f)) = read_lifecycle_grant q f"
  by (rule apply_grant_op_shape [of op f]) (auto simp: read_write_grant)

section \<open>The lifecycle\<close>

text \<open>Where a requester stands, and the steps of a standing. Issuing while a revocation is pending
  admits the requester again, in the same generation; only a completed revocation leads to a new
  one.\<close>

datatype standing =
    Unknown_requester
  | Admitted int string
  | Leaving int string
  | Barred int

fun standing_of :: "lifecycle_grant option \<Rightarrow> standing" where
  "standing_of None = Unknown_requester"
| "standing_of (Some g) =
     (case lg_state g of
        Grant_active \<Rightarrow> Admitted (generation g) (lg_token g)
      | Revocation_pending \<Rightarrow> Leaving (generation g) (lg_token g)
      | Grant_revoked \<Rightarrow> Barred (generation g))"

abbreviation standing_in :: "keyed_file \<Rightarrow> string \<Rightarrow> standing" where
  "standing_in f p \<equiv> standing_of (read_lifecycle_grant p f)"

inductive lifecycle_step :: "standing \<Rightarrow> grant_op \<Rightarrow> standing \<Rightarrow> bool" where
  step_first: "lifecycle_step Unknown_requester (Grant_issue req token now) (Admitted 1 token)"
| step_refresh: "lifecycle_step (Admitted n t) (Grant_issue req token now) (Admitted n token)"
| step_reissue: "lifecycle_step (Leaving n t) (Grant_issue req token now) (Admitted n token)"
| step_revoke: "lifecycle_step (Admitted n t) (Grant_revoke p now) (Leaving n t)"
| step_revoke_again: "lifecycle_step (Leaving n t) (Grant_revoke p now) (Leaving n t)"
| step_acknowledge: "lifecycle_step (Leaving n t) (Grant_acknowledge p) (Barred n)"
| step_readmit: "ra_target_approved req \<Longrightarrow>
    lifecycle_step (Barred n) (Grant_readmit req token now) (Admitted (n + 1) token)"

inductive_cases step_issueE [elim!]: "lifecycle_step s (Grant_issue req token now) s'"
inductive_cases step_revokeE [elim!]: "lifecycle_step s (Grant_revoke p now) s'"
inductive_cases step_acknowledgeE [elim!]: "lifecycle_step s (Grant_acknowledge p) s'"
inductive_cases step_readmitE [elim!]: "lifecycle_step s (Grant_readmit req token now) s'"
inductive_simps from_barred_simps: "lifecycle_step (Barred n) op s'"

lemma lifecycle_step_deterministic:
  "lifecycle_step s op s1 \<Longrightarrow> lifecycle_step s op s2 \<Longrightarrow> s1 = s2"
  by (cases op) auto

text \<open>The requester's identity matches the one the store binds to its machine.\<close>

fun identity_matches :: "grant_op \<Rightarrow> keyed_file \<Rightarrow> bool" where
  "identity_matches (Grant_issue req token now) f \<longleftrightarrow>
     (\<forall>g. read_lifecycle_grant (gr_requester_machine_id req) f = Some g
        \<longrightarrow> requester_identity_key g = gr_requester_identity_key req)"
| "identity_matches (Grant_readmit req token now) f \<longleftrightarrow>
     (\<forall>g. read_lifecycle_grant (ra_peer_id req) f = Some g
        \<longrightarrow> requester_identity_key g = ra_requester_identity_key req)"
| "identity_matches _ f \<longleftrightarrow> True"

text \<open>What an operation is given is not empty.\<close>

fun op_complete :: "grant_op \<Rightarrow> bool" where
  "op_complete (Grant_issue req token now) \<longleftrightarrow>
     gr_requester_identity_key req \<noteq> [] \<and> gr_target_machine_id req \<noteq> [] \<and>
     gr_target_identity_key req \<noteq> [] \<and> token \<noteq> [] \<and> now \<noteq> []"
| "op_complete (Grant_readmit req token now) \<longleftrightarrow>
     ra_requester_identity_key req \<noteq> [] \<and> ra_target_machine_id req \<noteq> [] \<and>
     ra_target_identity_key req \<noteq> [] \<and> token \<noteq> [] \<and> now \<noteq> []"
| "op_complete _ \<longleftrightarrow> True"

lemma readable_update [simp]:
  "readable_grant (g\<lparr>lg_state := st\<rparr>) = readable_grant g"
  "readable_grant (g\<lparr>revoked_at := r\<rparr>) = readable_grant g"
  by (simp_all add: readable_grant_def)

lemma refused_keeps_store: "\<not> fst (apply_grant_op op f) \<Longrightarrow> snd (apply_grant_op op f) = f"
  by (cases op) (auto simp: grant_operation_defs Let_def split: option.splits if_splits)

lemma accepted_is_step:
  assumes "op_complete op" and "fst (apply_grant_op op f)"
  shows "lifecycle_step (standing_in f (op_peer op)) op
           (standing_in (snd (apply_grant_op op f)) (op_peer op))"
proof (cases "read_lifecycle_grant (op_peer op) f")
  case None
  with assms show ?thesis
    by (cases op)
      (auto simp: grant_operation_defs Let_def read_write_grant readable_grant_def
        intro: lifecycle_step.intros)
next
  case (Some g)
  then have "readable_grant g" by (rule read_lifecycle_grant_SomeD)
  with assms Some show ?thesis
    by (cases op; cases "lg_state g")
      (auto simp: grant_operation_defs Let_def read_write_grant readable_grant_def
        split: if_splits intro: lifecycle_step.intros)
qed

lemma accepted_iff:
  "fst (apply_grant_op op f) \<longleftrightarrow>
     identity_matches op f \<and> (\<exists>s'. lifecycle_step (standing_in f (op_peer op)) op s')"
proof (cases "read_lifecycle_grant (op_peer op) f")
  case None
  then show ?thesis
    by (cases op)
      (auto simp: grant_operation_defs Let_def intro: lifecycle_step.intros)
next
  case (Some g)
  then show ?thesis
    by (cases op; cases "lg_state g")
      (auto simp: grant_operation_defs Let_def split: if_splits intro: lifecycle_step.intros)
qed

section \<open>Credentials\<close>

text \<open>The token a peer's active grant carries.\<close>

definition carries :: "keyed_file \<Rightarrow> string \<Rightarrow> string \<Rightarrow> bool" where
  "carries f p token \<longleftrightarrow>
     (\<exists>g. read_lifecycle_grant p f = Some g \<and> lg_state g = Grant_active \<and> lg_token g = token)"

lemma valid_carries: "validate_lifecycle_grant p token gen f = Valid \<Longrightarrow> carries f p token"
  by (auto simp: validate_lifecycle_grant_def carries_def split: option.splits if_splits)
    (metis grant_state.exhaust)

lemma carries_only_by_token:
  assumes "carries (snd (apply_grant_op op f)) p token" and "op_token op \<noteq> Some token"
  shows "carries f p token"
  by (rule apply_grant_op_shape [of op f])
    (use assms in \<open>auto simp: carries_def read_write_grant split: if_splits\<close>)

lemma run_carries_only_by_token:
  "carries (run_grant_ops ops f) p token \<Longrightarrow> (\<And>op. op \<in> set ops \<Longrightarrow> op_token op \<noteq> Some token)
    \<Longrightarrow> carries f p token"
  by (induction ops arbitrary: f) (auto dest: carries_only_by_token)

lemma find_token_SomeD:
  assumes "store_ok f" and "find_grant_by_token token f = Some g"
  shows "read_lifecycle_grant (requester_machine_id g) f = Some g \<and> lg_state g = Grant_active \<and>
     lg_token g = token"
  using find_SomeD [OF assms(2) [unfolded find_grant_by_token_def]] by (simp add: read_all_iff assms(1))

lemma find_token_carries:
  "store_ok f \<Longrightarrow> find_grant_by_token token f = Some g \<Longrightarrow> carries f (requester_machine_id g) token"
  by (auto simp: carries_def dest: find_token_SomeD)

section \<open>Distinct tokens\<close>

definition tokens_unique :: "keyed_file \<Rightarrow> bool" where
  "tokens_unique f \<longleftrightarrow>
     (\<forall>p q g h. read_lifecycle_grant p f = Some g \<longrightarrow> read_lifecycle_grant q f = Some h
        \<longrightarrow> lg_token g = lg_token h \<longrightarrow> p = q)"

definition tokens_within :: "string set \<Rightarrow> keyed_file \<Rightarrow> bool" where
  "tokens_within U f \<longleftrightarrow> (\<forall>p g. read_lifecycle_grant p f = Some g \<longrightarrow> lg_token g \<in> U)"

lemma read_empty_store [simp]: "read_lifecycle_grant p None = None"
  by (simp add: read_lifecycle_grant_def read_keyed_collection_def read_doc_def collection_of_def)

lemma tokens_step:
  assumes "tokens_unique f" and "tokens_within U f" and "\<And>t. op_token op = Some t \<Longrightarrow> t \<notin> U"
  shows "tokens_unique (snd (apply_grant_op op f))"
    and "tokens_within (U \<union> set_option (op_token op)) (snd (apply_grant_op op f))"
proof -
  have "tokens_unique (snd (apply_grant_op op f)) \<and>
      tokens_within (U \<union> set_option (op_token op)) (snd (apply_grant_op op f))"
  proof (rule apply_grant_op_shape [of op f])
    assume "snd (apply_grant_op op f) = f"
    with assms show ?thesis by (auto simp: tokens_within_def)
  next
    fix g assume "snd (apply_grant_op op f) = write_grant (op_peer op) g f"
      "op_token op = Some (lg_token g)"
    moreover from this(2) assms(2,3)
    have "read_lifecycle_grant p f = Some h \<Longrightarrow> lg_token h \<noteq> lg_token g \<and> lg_token g \<noteq> lg_token h"
      for p h
      by (metis tokens_within_def)
    ultimately show ?thesis using assms(1,2)
      by (auto simp: tokens_unique_def tokens_within_def read_write_grant)
  next
    fix g h assume "snd (apply_grant_op op f) = write_grant (op_peer op) g f"
      "read_lifecycle_grant (op_peer op) f = Some h" "lg_token g = lg_token h"
    with assms(1,2) show ?thesis
      by (auto simp: tokens_unique_def tokens_within_def read_write_grant)
  qed
  then show "tokens_unique (snd (apply_grant_op op f))"
    and "tokens_within (U \<union> set_option (op_token op)) (snd (apply_grant_op op f))" by auto
qed

lemma tokens_run:
  assumes "distinct (List.map_filter op_token ops)" and "tokens_unique f" and "tokens_within U f"
    and "set (List.map_filter op_token ops) \<inter> U = {}"
  shows "tokens_unique (run_grant_ops ops f)"
  using assms
proof (induction ops arbitrary: f U)
  case (Cons op ops)
  have fresh: "t \<notin> U" if "op_token op = Some t" for t
    using Cons.prems(4) that by (auto simp: map_filter_simps)
  note step = tokens_step [OF Cons.prems(2,3) fresh]
  show ?case
    unfolding run_grant_ops.simps
  proof (rule Cons.IH [OF _ step])
    show "distinct (List.map_filter op_token ops)"
      using Cons.prems(1) by (auto simp: map_filter_simps split: option.splits)
    show "set (List.map_filter op_token ops) \<inter> (U \<union> set_option (op_token op)) = {}"
      using Cons.prems(1,4) by (auto simp: map_filter_simps split: option.splits)
  qed
qed simp

lemma fresh_run_unique:
  "distinct (List.map_filter op_token ops) \<Longrightarrow> tokens_unique (run_grant_ops ops None)"
  by (rule tokens_run [where U = "{}"]) (auto simp: tokens_unique_def tokens_within_def)

lemma find_token_iff:
  assumes "store_ok f" and "tokens_unique f"
  shows "find_grant_by_token token f = Some g \<longleftrightarrow>
     read_lifecycle_grant (requester_machine_id g) f = Some g \<and> lg_state g = Grant_active \<and>
     lg_token g = token"
proof
  assume g: "read_lifecycle_grant (requester_machine_id g) f = Some g \<and> lg_state g = Grant_active \<and>
     lg_token g = token"
  then have "g \<in> set (read_all_lifecycle_grants f)" by (simp add: read_all_iff [OF assms(1)])
  with g find_exists [where P = "\<lambda>g. lg_token g = token \<and> lg_state g = Grant_active"]
  obtain h where h: "find_grant_by_token token f = Some h"
    unfolding find_grant_by_token_def by blast
  note h' = find_token_SomeD [OF assms(1) h]
  have "requester_machine_id g = requester_machine_id h"
    by (rule assms(2) [unfolded tokens_unique_def, rule_format, of _ g _ h]) (simp_all add: g h')
  then have "Some h = Some g" using g h' by metis
  with h show "find_grant_by_token token f = Some g" by simp
qed (rule find_token_SomeD [OF assms(1)])

section \<open>The scopes of the matrix\<close>

lemma matches_prefixes_iff: "matches_prefixes ps path \<longleftrightarrow> (\<exists>p \<in> set ps. starts_with path p)"
  by (auto simp: matches_prefixes_def list_ex_iff starts_with_iff)

lemma admin_routes_are_apart:
  assumes "matches_prefixes LIFECYCLE_ADMIN_PREFIXES path"
  shows "\<not> matches_prefixes CONTROL_PREFIXES path"
proof
  assume "matches_prefixes CONTROL_PREFIXES path"
  with assms obtain p q where "p \<in> set LIFECYCLE_ADMIN_PREFIXES" "q \<in> set CONTROL_PREFIXES"
    and "starts_with path p" "starts_with path q"
    by (auto simp: matches_prefixes_iff)
  then have pq: "starts_with p q \<or> starts_with q p" by (simp add: starts_with_comparable)
  have "\<forall>p \<in> set LIFECYCLE_ADMIN_PREFIXES. \<forall>q \<in> set CONTROL_PREFIXES.
      \<not> starts_with p q \<and> \<not> starts_with q p"
    by (simp add: LIFECYCLE_ADMIN_PREFIXES_def CONTROL_PREFIXES_def OBSERVE_PREFIXES_def)
  with pq \<open>p \<in> _\<close> \<open>q \<in> _\<close> show False by blast
qed

lemma observe_within_control:
  "evaluate_route_matrix Observe m path \<Longrightarrow> evaluate_route_matrix Control m path"
  by (auto simp: matches_prefixes_iff CONTROL_PREFIXES_def)

section \<open>The binding and the generation\<close>

lemma binding_step:
  assumes "op_complete op" and "read_lifecycle_grant p f = Some g"
  obtains g' where "read_lifecycle_grant p (snd (apply_grant_op op f)) = Some g'"
    and "requester_identity_key g' = requester_identity_key g"
    and "generation g' = generation g \<or>
      generation g' = generation g + 1 \<and> standing_in f p = Barred (generation g)"
proof (cases "p = op_peer op")
  case False
  with assms(2) show thesis by (intro that) (auto simp: other_peers_kept)
next
  case True
  have "readable_grant g" using assms(2) by (rule read_lifecycle_grant_SomeD)
  with assms True have "\<exists>g'. read_lifecycle_grant p (snd (apply_grant_op op f)) = Some g'
      \<and> requester_identity_key g' = requester_identity_key g
      \<and> (generation g' = generation g \<or>
          generation g' = generation g + 1 \<and> standing_in f p = Barred (generation g))"
    by (cases op; cases "lg_state g")
      (auto simp: grant_operation_defs Let_def read_write_grant readable_grant_def)
  with that show thesis by blast
qed

lemma binding_run:
  assumes "\<And>op. op \<in> set ops \<Longrightarrow> op_complete op" and "read_lifecycle_grant p f = Some g"
  shows "\<exists>g'. read_lifecycle_grant p (run_grant_ops ops f) = Some g'
    \<and> requester_identity_key g' = requester_identity_key g \<and> generation g \<le> generation g'
    \<and> (generation g < generation g' \<longrightarrow>
        (\<exists>n \<le> length ops. standing_in (run_grant_ops (take n ops) f) p = Barred (generation g)))"
  using assms
proof (induction ops arbitrary: f g)
  case (Cons op ops)
  have "op_complete op" using Cons.prems(1) by simp
  from this Cons.prems(2) obtain g1 where g1: "read_lifecycle_grant p (snd (apply_grant_op op f)) = Some g1"
    "requester_identity_key g1 = requester_identity_key g"
    and gen: "generation g1 = generation g \<or>
      generation g1 = generation g + 1 \<and> standing_in f p = Barred (generation g)"
    by (rule binding_step)
  let ?f1 = "snd (apply_grant_op op f)"
  obtain g' where g': "read_lifecycle_grant p (run_grant_ops ops ?f1) = Some g'"
    "requester_identity_key g' = requester_identity_key g" "generation g1 \<le> generation g'"
    and later: "generation g1 < generation g' \<longrightarrow>
      (\<exists>n \<le> length ops. standing_in (run_grant_ops (take n ops) ?f1) p = Barred (generation g1))"
    using Cons.IH [OF _ g1(1)] Cons.prems(1) g1(2) by auto
  have "\<exists>n \<le> length (op # ops). standing_in (run_grant_ops (take n (op # ops)) f) p
      = Barred (generation g)" if "generation g < generation g'"
    using gen
  proof
    assume same: "generation g1 = generation g"
    with later that obtain n where "n \<le> length ops"
      "standing_in (run_grant_ops (take n ops) ?f1) p = Barred (generation g)" by auto
    then show ?thesis by (intro exI [of _ "Suc n"]) simp
  next
    assume "generation g1 = generation g + 1 \<and> standing_in f p = Barred (generation g)"
    then show ?thesis by (intro exI [of _ 0]) simp
  qed
  moreover have "generation g \<le> generation g'" using gen g'(3) by auto
  ultimately show ?case using g'(1,2) by simp
qed simp

section \<open>Properties\<close>

text \<open>C19: Every operation of the grant store is a step of the lifecycle: it is accepted exactly
  when the standing of the requester it names admits it and the identity matches the one bound to
  that machine; then the standing moves along the lifecycle, and the grant of every other
  requester stays; a refused operation changes nothing.\<close>

theorem grant_operations_refine_lifecycle:
  assumes "op_complete op"
  shows "(fst (apply_grant_op op f) \<longleftrightarrow>
      identity_matches op f \<and> (\<exists>s. lifecycle_step (standing_in f (op_peer op)) op s))
    \<and> (if fst (apply_grant_op op f)
       then lifecycle_step (standing_in f (op_peer op)) op
              (standing_in (snd (apply_grant_op op f)) (op_peer op))
       else snd (apply_grant_op op f) = f)
    \<and> (\<forall>q. q \<noteq> op_peer op \<longrightarrow>
        read_lifecycle_grant q (snd (apply_grant_op op f)) = read_lifecycle_grant q f)"
  using assms by (simp add: accepted_iff [symmetric] accepted_is_step refused_keeps_store other_peers_kept)

definition demo_issue :: "string \<Rightarrow> string \<Rightarrow> grant_op" where
  "demo_issue key token = Grant_issue
     \<lparr> gr_requester_machine_id = ''laptop'', gr_requester_identity_key = key,
       gr_target_machine_id = ''rig'', gr_target_identity_key = ''k-rig'', gr_scope = Control \<rparr>
     token ''2026-01-01''"

theorem grant_operations_refine_lifecycle_witness:
  "lifecycle_step Unknown_requester (demo_issue ''k-laptop'' ''t1'') (Admitted 1 ''t1'')
   \<and> fst (apply_grant_op (demo_issue ''k-laptop'' ''t1'') None)"
  using grant_operations_refine_lifecycle [of "demo_issue ''k-laptop'' ''t1''" None]
  by (auto simp: demo_issue_def intro: lifecycle_step.intros)

text \<open>Over any sequence of operations the identity bound to a machine never changes and the
  generation of its grant never falls; it only rises after a revocation in the old generation was
  completed, so no requester reaches a new generation while an old credential is still out.\<close>

theorem identity_binding_and_generation:
  assumes "\<And>op. op \<in> set ops \<Longrightarrow> op_complete op" and "read_lifecycle_grant p f = Some g"
  shows "\<exists>g'. read_lifecycle_grant p (run_grant_ops ops f) = Some g'
    \<and> requester_identity_key g' = requester_identity_key g \<and> generation g \<le> generation g'
    \<and> (generation g < generation g' \<longrightarrow>
        (\<exists>n \<le> length ops. standing_in (run_grant_ops (take n ops) f) p = Barred (generation g)))"
  by (rule binding_run [OF assms])

definition demo_readmit :: grant_op where
  "demo_readmit = Grant_readmit
     \<lparr> ra_peer_id = ''laptop'', ra_target_approved = True, ra_scope = Observe,
       ra_requester_identity_key = ''k-laptop'', ra_target_machine_id = ''rig'',
       ra_target_identity_key = ''k-rig'' \<rparr> ''t2'' ''2026-01-03''"

definition demo_grant_held :: lifecycle_grant where
  "demo_grant_held = issued_grant
     \<lparr> gr_requester_machine_id = ''laptop'', gr_requester_identity_key = ''k-laptop'',
       gr_target_machine_id = ''rig'', gr_target_identity_key = ''k-rig'', gr_scope = Control \<rparr>
     1 ''t1'' ''2026-01-01''"

lemma demo_held: "read_lifecycle_grant ''laptop'' (write_grant ''laptop'' demo_grant_held None)
    = Some demo_grant_held"
  by (simp add: read_write_grant demo_grant_held_def issued_grant_def readable_grant_def)

definition demo_cycle_ops :: "grant_op list" where
  "demo_cycle_ops = [Grant_acknowledge ''laptop'', demo_readmit]"

lemma demo_cycle_complete: "op \<in> set (Grant_revoke ''laptop'' now # demo_cycle_ops) \<Longrightarrow> op_complete op"
  by (auto simp: demo_cycle_ops_def demo_readmit_def)

lemma demo_cycle_fresh: "op \<in> set demo_cycle_ops \<Longrightarrow> op_token op \<noteq> Some ''t1''"
  by (auto simp: demo_cycle_ops_def demo_readmit_def)

lemma demo_cycle:
  "map_option generation (read_lifecycle_grant ''laptop'' (run_grant_ops
     (Grant_revoke ''laptop'' ''2026-01-02'' # demo_cycle_ops)
     (write_grant ''laptop'' demo_grant_held None))) = Some 2"
  by (simp add: grant_operation_defs Let_def read_write_grant demo_grant_held_def
      demo_cycle_ops_def demo_readmit_def readable_grant_def)

theorem identity_binding_and_generation_witness:
  "\<exists>n \<le> length (Grant_revoke ''laptop'' ''2026-01-02'' # demo_cycle_ops).
     standing_in (run_grant_ops (take n (Grant_revoke ''laptop'' ''2026-01-02'' # demo_cycle_ops))
     (write_grant ''laptop'' demo_grant_held None)) ''laptop'' = Barred 1"
proof -
  from demo_cycle obtain g' where g': "read_lifecycle_grant ''laptop'' (run_grant_ops
     (Grant_revoke ''laptop'' ''2026-01-02'' # demo_cycle_ops)
     (write_grant ''laptop'' demo_grant_held None)) = Some g'" "generation g' = 2" by blast
  have "generation demo_grant_held = 1" by (simp add: demo_grant_held_def issued_grant_def)
  with g' identity_binding_and_generation [where
      ops = "Grant_revoke ''laptop'' ''2026-01-02'' # demo_cycle_ops", OF demo_cycle_complete demo_held]
  show ?thesis by (simp del: run_grant_ops.simps)
qed

text \<open>C18: A credential that is retired stays retired: once its peer's grant was revoked, or issued
  anew with another token, no sequence of operations whose tokens are fresh makes it validate
  again, in whatever generation it is presented, and the boundary never again takes it for that
  peer's grant.\<close>

theorem retired_credential_never_returns:
  assumes "fst (apply_grant_op op f)" and "op_peer op = p"
    and "op = Grant_revoke p now \<or> (\<exists>req. op = Grant_issue req token' now) \<and> token' \<noteq> token"
    and "\<And>op'. op' \<in> set ops \<Longrightarrow> op_token op' \<noteq> Some token"
    and "store_ok f"
  shows "validate_lifecycle_grant p token gen (run_grant_ops (op # ops) f) \<noteq> Valid
    \<and> (\<forall>g. find_grant_by_token token (run_grant_ops (op # ops) f) = Some g \<longrightarrow>
        requester_machine_id g \<noteq> p)"
proof -
  have "\<not> carries (snd (apply_grant_op op f)) p token"
    using assms(3)
  proof
    assume op: "op = Grant_revoke p now"
    then obtain g where "read_lifecycle_grant p f = Some g" "lg_state g \<noteq> Grant_revoked"
      using assms(1) by (auto simp: revoke_lifecycle_grant_def Let_def split: option.splits if_splits)
    with op show ?thesis
      by (cases "lg_state g") (auto simp: carries_def revoke_lifecycle_grant_def Let_def read_write_grant)
  next
    assume "(\<exists>req. op = Grant_issue req token' now) \<and> token' \<noteq> token"
    with assms(1,2) show ?thesis
      by (auto simp: carries_def issue_lifecycle_grant_def issued_grant_def Let_def read_write_grant
          split: option.splits if_splits)
  qed
  then have "\<not> carries (run_grant_ops (op # ops) f) p token"
    using run_carries_only_by_token assms(4) by auto
  moreover have "store_ok (run_grant_ops (op # ops) f)" using assms(5) by blast
  ultimately show ?thesis using valid_carries find_token_carries by blast
qed

theorem retired_credential_never_returns_witness:
  "validate_lifecycle_grant ''laptop'' ''t1'' 1
     (run_grant_ops (Grant_revoke ''laptop'' ''2026-01-02'' # demo_cycle_ops)
       (write_grant ''laptop'' demo_grant_held None)) \<noteq> Valid"
proof -
  have "fst (apply_grant_op (Grant_revoke ''laptop'' ''2026-01-02'')
      (write_grant ''laptop'' demo_grant_held None))"
    by (simp add: revoke_lifecycle_grant_def Let_def demo_held)
      (simp add: demo_grant_held_def issued_grant_def)
  note retired_credential_never_returns [where p = "''laptop''" and token = "''t1''"
      and now = "''2026-01-02''" and token' = "''t''" and gen = 1, OF this _ _ demo_cycle_fresh]
  then show ?thesis by (simp del: run_grant_ops.simps)
qed



text \<open>C21: Where no token is given out twice, the boundary admits a request exactly when some peer
  holds an active grant with the presented token whose scope opens the route, and it reports that
  scope. The routes of the lifecycle are open to the lifecycle-admin scope alone, which opens no
  other, and what observing opens controlling opens too.\<close>

theorem boundary_admits_exactly_held_scopes:
  assumes "distinct (List.map_filter op_token ops)"
  shows "(enforce_scope_for_request token m path (run_grant_ops ops None) = Scope_allowed sc \<longleftrightarrow>
      (\<exists>p g. read_lifecycle_grant p (run_grant_ops ops None) = Some g \<and> lg_state g = Grant_active \<and>
         lg_token g = token \<and> lg_scope g = sc \<and> evaluate_route_matrix sc m path))
    \<and> (evaluate_route_matrix Lifecycle_admin m path \<longrightarrow>
        \<not> evaluate_route_matrix Control m path \<and> \<not> evaluate_route_matrix Observe m path)
    \<and> (evaluate_route_matrix Observe m path \<longrightarrow> evaluate_route_matrix Control m path)"
proof -
  let ?f = "run_grant_ops ops None"
  have "find_grant_by_token token ?f = Some g \<longleftrightarrow>
     read_lifecycle_grant (requester_machine_id g) ?f = Some g \<and> lg_state g = Grant_active \<and>
     lg_token g = token" for g
    using assms by (intro find_token_iff) (auto intro: fresh_run_unique)
  moreover have "enforce_scope_for_request token m path ?f = Scope_allowed sc \<longleftrightarrow>
      (\<exists>g. find_grant_by_token token ?f = Some g \<and> lg_scope g = sc \<and> evaluate_route_matrix sc m path)"
    by (auto simp: enforce_scope_for_request_def split: option.splits)
  ultimately have "enforce_scope_for_request token m path ?f = Scope_allowed sc \<longleftrightarrow>
      (\<exists>g. read_lifecycle_grant (requester_machine_id g) ?f = Some g \<and> lg_state g = Grant_active \<and>
         lg_token g = token \<and> lg_scope g = sc \<and> evaluate_route_matrix sc m path)"
    by auto
  also have "\<dots> \<longleftrightarrow> (\<exists>p g. read_lifecycle_grant p ?f = Some g \<and> lg_state g = Grant_active \<and>
         lg_token g = token \<and> lg_scope g = sc \<and> evaluate_route_matrix sc m path)"
    by (metis read_lifecycle_grant_SomeD(1))
  finally show ?thesis
    using admin_routes_are_apart [of path] observe_within_control [of m path] by auto
qed

theorem boundary_admits_exactly_held_scopes_witness:
  "enforce_scope_for_request ''t1'' ''POST'' ''/amicode/fleet/dispatch''
     (run_grant_ops [demo_issue ''k-laptop'' ''t1''] None) = Scope_allowed Control"
  using boundary_admits_exactly_held_scopes [of "[demo_issue ''k-laptop'' ''t1'']" "''t1''" "''POST''"
      "''/amicode/fleet/dispatch''" Control]
  by (auto simp: demo_issue_def List.map_filter_def grant_operation_defs Let_def read_write_grant
      readable_grant_def matches_prefixes_def CONTROL_PREFIXES_def OBSERVE_PREFIXES_def)

text \<open>The matrix denies by default only up to the prefix test: an unrecognized route that merely
  begins with the letters of a recognized one is admitted.\<close>

theorem letters_of_a_prefix_admit_the_route:
  "evaluate_route_matrix Observe ''GET'' ''/amicode/fleet/statusX''
   \<and> evaluate_route_matrix Control ''DELETE'' ''/sessionfoo''
   \<and> evaluate_route_matrix Lifecycle_admin ''POST'' ''/amicode/fleet/revoke-all''"
  by (simp add: matches_prefixes_def OBSERVE_PREFIXES_def CONTROL_PREFIXES_def
      LIFECYCLE_ADMIN_PREFIXES_def matrix_read_method_def to_upper_def)

text \<open>Issuing does not stop at a pending revocation, contrary to what its comment requires: the
  requester is active again without acknowledgement or re-admission.\<close>

theorem issue_undoes_a_pending_revocation:
  "standing_in (run_grant_ops [demo_issue ''k-laptop'' ''t1'', Grant_revoke ''laptop'' ''2026-01-02'']
     None) ''laptop'' = Leaving 1 ''t1''
   \<and> standing_in (run_grant_ops [demo_issue ''k-laptop'' ''t1'', Grant_revoke ''laptop'' ''2026-01-02'',
     demo_issue ''k-laptop'' ''t2''] None) ''laptop'' = Admitted 1 ''t2''"
  by (simp add: demo_issue_def grant_operation_defs Let_def read_write_grant readable_grant_def)

text \<open>What is displayed does not depend on the token; of the requester's key it shows sixteen
  characters where eight are documented.\<close>

lemma display_hides_the_token:
  "sanitize_grant_for_display (g\<lparr>lg_token := t\<rparr>) = sanitize_grant_for_display g"
  by (simp add: sanitize_grant_for_display_def)

end
