(* ===== verification/Trust_Stores.thy ===== *)
theory Trust_Stores
  imports Fleet_Grants
begin

text \<open>
  The stores of peer trust, under \<open>packages/extension/src/amicode_service/\<close>: enrollment nonces,
  plain and bound to a target and an identity (\<open>fleet_enrollment_nonce.ts\<close>); the tokens this
  machine issued and its bar list (\<open>fleet_issued_tokens.ts\<close>); the tokens it holds for others
  (\<open>fleet_peer_store.ts\<close>); the reciprocal Observe bootstrap (\<open>fleet_observe_bootstrap.ts\<close>) and
  the handlers of the mint and revoke endpoints (\<open>fleet_mint_route.ts\<close>). Each store is a file of
  \<open>Keyed_Store\<close>; nonce and token factories and clocks are arguments. Times are integers.
\<close>

section \<open>Enrollment nonces\<close>

definition ENROLLMENT_NONCE_STORE_VERSION :: int where
  "ENROLLMENT_NONCE_STORE_VERSION = 1"

definition ENROLLMENT_NONCE_DEFAULT_TTL_MS :: int where
  "ENROLLMENT_NONCE_DEFAULT_TTL_MS = 5 * 60 * 1000"

definition NONCES :: string where
  "NONCES = ''nonces''"

definition BOUND_NONCES :: string where
  "BOUND_NONCES = ''bound_nonces''"

record nonce_record =
  expires_at :: int
  nonce_used :: bool

definition flag_field :: "keyed_doc \<Rightarrow> string \<Rightarrow> bool" where
  "flag_field r k \<longleftrightarrow> map_of r k = Some (JBool True)"

fun parse_nonce :: "json option \<Rightarrow> nonce_record option" where
  "parse_nonce (Some (JObj r)) =
     (case map_of r ''expires_at'' of
        Some (JNum t) \<Rightarrow> Some \<lparr> expires_at = t, nonce_used = flag_field r ''used'' \<rparr>
      | _ \<Rightarrow> None)"
| "parse_nonce _ = None"

definition read_nonce :: "string \<Rightarrow> keyed_file \<Rightarrow> nonce_record option" where
  "read_nonce nonce f = parse_nonce (keyed_entry f NONCES nonce)"

definition write_nonce :: "string \<Rightarrow> int \<Rightarrow> bool \<Rightarrow> keyed_file \<Rightarrow> keyed_file" where
  "write_nonce nonce expiry used f =
     upsert_keyed_entry NONCES nonce (JObj [(''expires_at'', JNum expiry), (''used'', JBool used)])
       ENROLLMENT_NONCE_STORE_VERSION f"

definition mint_enrollment_nonce :: "string \<Rightarrow> int \<Rightarrow> int option \<Rightarrow> keyed_file \<Rightarrow> keyed_file" where
  "mint_enrollment_nonce nonce now ttl f =
     write_nonce nonce (now + or_else ttl ENROLLMENT_NONCE_DEFAULT_TTL_MS) False f"

definition validate_enrollment_nonce :: "string \<Rightarrow> int \<Rightarrow> keyed_file \<Rightarrow> bool" where
  "validate_enrollment_nonce nonce now f \<longleftrightarrow>
     (case read_nonce nonce f of
        None \<Rightarrow> False
      | Some rec \<Rightarrow> \<not> nonce_used rec \<and> now \<le> expires_at rec)"

definition consume_enrollment_nonce :: "string \<Rightarrow> int \<Rightarrow> keyed_file \<Rightarrow> bool \<times> keyed_file" where
  "consume_enrollment_nonce nonce now f =
     (if \<not> validate_enrollment_nonce nonce now f then (False, f)
      else (case read_nonce nonce f of
              None \<Rightarrow> (False, f)
            | Some rec \<Rightarrow> (True, write_nonce nonce (expires_at rec) True f)))"

record nonce_binding =
  nb_target :: string
  nb_identity_key :: string

record bound_nonce_record = nonce_record +
  bn_binding :: nonce_binding

fun parse_bound_nonce :: "json option \<Rightarrow> bound_nonce_record option" where
  "parse_bound_nonce (Some (JObj r)) =
     (case map_of r ''expires_at'' of
        Some (JNum t) \<Rightarrow>
          if str_field r ''target'' = [] \<or> str_field r ''identity_key'' = [] then None
          else Some \<lparr> expires_at = t, nonce_used = flag_field r ''used'',
                      bn_binding = \<lparr> nb_target = str_field r ''target'',
                                     nb_identity_key = str_field r ''identity_key'' \<rparr> \<rparr>
      | _ \<Rightarrow> None)"
| "parse_bound_nonce _ = None"

definition read_bound_nonce :: "string \<Rightarrow> keyed_file \<Rightarrow> bound_nonce_record option" where
  "read_bound_nonce nonce f = parse_bound_nonce (keyed_entry f BOUND_NONCES nonce)"

definition write_bound_nonce ::
  "string \<Rightarrow> int \<Rightarrow> bool \<Rightarrow> nonce_binding \<Rightarrow> keyed_file \<Rightarrow> keyed_file" where
  "write_bound_nonce nonce expiry used b f =
     upsert_keyed_entry BOUND_NONCES nonce
       (JObj [(''expires_at'', JNum expiry), (''used'', JBool used), (''target'', JStr (nb_target b)),
              (''identity_key'', JStr (nb_identity_key b))])
       ENROLLMENT_NONCE_STORE_VERSION f"

definition mint_bound_enrollment_nonce ::
  "nonce_binding \<Rightarrow> string \<Rightarrow> int \<Rightarrow> int option \<Rightarrow> keyed_file \<Rightarrow> keyed_file" where
  "mint_bound_enrollment_nonce b nonce now ttl f =
     write_bound_nonce nonce (now + or_else ttl ENROLLMENT_NONCE_DEFAULT_TTL_MS) False b f"

definition validate_bound_enrollment_nonce ::
  "string \<Rightarrow> nonce_binding \<Rightarrow> int \<Rightarrow> keyed_file \<Rightarrow> bool" where
  "validate_bound_enrollment_nonce nonce b now f \<longleftrightarrow>
     (case read_bound_nonce nonce f of
        None \<Rightarrow> False
      | Some rec \<Rightarrow>
          if nonce_used rec then False
          else if nb_target (bn_binding rec) \<noteq> nb_target b
               \<or> nb_identity_key (bn_binding rec) \<noteq> nb_identity_key b then False
          else now \<le> expires_at rec)"

definition consume_bound_enrollment_nonce ::
  "string \<Rightarrow> nonce_binding \<Rightarrow> int \<Rightarrow> keyed_file \<Rightarrow> bool \<times> keyed_file" where
  "consume_bound_enrollment_nonce nonce b now f =
     (case read_bound_nonce nonce f of
        None \<Rightarrow> (False, f)
      | Some rec \<Rightarrow>
          if nonce_used rec then (False, f)
          else if nb_target (bn_binding rec) \<noteq> nb_target b
               \<or> nb_identity_key (bn_binding rec) \<noteq> nb_identity_key b then (False, f)
          else if now > expires_at rec then (False, f)
          else (True, write_bound_nonce nonce (expires_at rec) True (bn_binding rec) f))"

section \<open>Issued tokens\<close>

definition ISSUED_TOKEN_STORE_VERSION :: int where
  "ISSUED_TOKEN_STORE_VERSION = 1"

definition ISSUED :: string where
  "ISSUED = ''issued''"

definition REVOKED :: string where
  "REVOKED = ''revoked''"

definition is_mint_barred :: "string \<Rightarrow> keyed_file \<Rightarrow> bool" where
  "is_mint_barred m f \<longleftrightarrow> keyed_entry f REVOKED m \<noteq> None"

definition mint_peer_token ::
  "string \<Rightarrow> string \<Rightarrow> string option \<Rightarrow> string \<Rightarrow> keyed_file \<Rightarrow> string option \<times> keyed_file" where
  "mint_peer_token m token scp now f =
     (if is_mint_barred m f then (None, f)
      else (Some token, upsert_keyed_entry ISSUED m
              (JObj [(''token'', JStr token), (''scope'', JStr (or_else scp ''full-session'')),
                     (''issued_at'', JStr now)])
              ISSUED_TOKEN_STORE_VERSION f))"

text \<open>The token of an entry, when it has one.\<close>

fun entry_token :: "json option \<Rightarrow> string option" where
  "entry_token (Some (JObj r)) = opt_str_field r ''token''"
| "entry_token _ = None"

definition issued_token_for :: "string \<Rightarrow> keyed_file \<Rightarrow> string option" where
  "issued_token_for m f = entry_token (keyed_entry f ISSUED m)"

definition has_issued_token :: "string \<Rightarrow> keyed_file \<Rightarrow> bool" where
  "has_issued_token m f \<longleftrightarrow> issued_token_for m f \<noteq> None"

definition read_issued_tokens :: "keyed_file \<Rightarrow> string list" where
  "read_issued_tokens f =
     List.map_filter (\<lambda>e. entry_token (Some (snd e))) (read_keyed_collection f ISSUED)"

definition revoke_peer_token :: "string \<Rightarrow> string \<Rightarrow> keyed_file \<Rightarrow> keyed_file" where
  "revoke_peer_token m now f =
     upsert_keyed_entry REVOKED m (JObj [(''revoked_at'', JStr now)]) ISSUED_TOKEN_STORE_VERSION
       (delete_keyed_entry ISSUED m ISSUED_TOKEN_STORE_VERSION f)"

definition delete_issued_token :: "string \<Rightarrow> keyed_file \<Rightarrow> keyed_file" where
  "delete_issued_token m f = delete_keyed_entry ISSUED m ISSUED_TOKEN_STORE_VERSION f"

section \<open>Tokens held for other machines\<close>

definition PEER_TOKEN_STORE_VERSION :: int where
  "PEER_TOKEN_STORE_VERSION = 1"

definition PEERS_COLLECTION :: string where
  "PEERS_COLLECTION = ''peers''"

record peer_token =
  pt_base_url :: string
  pt_token :: string

datatype peer_token_read_reason = Token_absent | Token_malformed | Token_incomplete

fun parse_peer_token :: "json option \<Rightarrow> peer_token_read_reason + peer_token" where
  "parse_peer_token None = Inl Token_absent"
| "parse_peer_token (Some (JObj e)) =
     (let base_url = js_trim (str_field e ''base_url''); token = js_trim (str_field e ''token'')
      in if base_url = [] \<or> token = [] then Inl Token_incomplete
         else Inr \<lparr> pt_base_url = base_url, pt_token = token \<rparr>)"
| "parse_peer_token (Some _) = Inl Token_malformed"

definition read_peer_token :: "string \<Rightarrow> keyed_file \<Rightarrow> peer_token_read_reason + peer_token" where
  "read_peer_token m f = parse_peer_token (keyed_entry f PEERS_COLLECTION m)"

definition write_peer_token :: "string \<Rightarrow> peer_token \<Rightarrow> keyed_file \<Rightarrow> keyed_file" where
  "write_peer_token m v f =
     upsert_keyed_entry PEERS_COLLECTION m
       (JObj [(''base_url'', JStr (js_trim (pt_base_url v))), (''token'', JStr (js_trim (pt_token v)))])
       PEER_TOKEN_STORE_VERSION f"

definition clear_peer_token :: "string \<Rightarrow> keyed_file \<Rightarrow> keyed_file" where
  "clear_peer_token m f = delete_keyed_entry PEERS_COLLECTION m PEER_TOKEN_STORE_VERSION f"

definition has_peer_token :: "string \<Rightarrow> keyed_file \<Rightarrow> bool" where
  "has_peer_token m f \<longleftrightarrow> \<not> isl (read_peer_token m f)"

fun base_url_of :: "json \<Rightarrow> string option" where
  "base_url_of (JObj e) =
     (let u = js_trim (str_field e ''base_url'') in if u = [] then None else Some u)"
| "base_url_of _ = None"

definition list_peer_base_urls :: "keyed_file \<Rightarrow> (string \<times> string) list" where
  "list_peer_base_urls f =
     (let peers = read_keyed_collection f PEERS_COLLECTION
      in List.map_filter
           (\<lambda>m. map_option (Pair m) (Option.bind (map_of peers m) base_url_of))
           (sort (map fst peers)))"

definition clear_all_peer_tokens :: "keyed_file \<Rightarrow> keyed_file" where
  "clear_all_peer_tokens f = clear_keyed_store_file f"

section \<open>The reciprocal Observe bootstrap\<close>

datatype peer_ownership = Self_owned | Shared_peer
datatype observe_decision = Reciprocal_observe | Hold_for_approval

definition evaluate_observe_bootstrap :: "peer_ownership \<Rightarrow> bool \<Rightarrow> bool \<Rightarrow> observe_decision" where
  "evaluate_observe_bootstrap ownership management_verified target_approved =
     (if ownership = Self_owned \<and> management_verified then Reciprocal_observe
      else if target_approved then Reciprocal_observe
      else Hold_for_approval)"

record reciprocal_grant =
  rg_requester_machine_id :: string
  rg_peer_base_url :: string
  rg_reciprocal_token :: string

text \<open>Persisting the reciprocal half: whether it threw, and the store it left.\<close>

type_synonym persist_grant = "reciprocal_grant \<Rightarrow> keyed_file \<Rightarrow> bool \<times> keyed_file"

definition persist_by_write :: persist_grant where
  "persist_by_write g f =
     (False, write_peer_token (rg_requester_machine_id g)
        \<lparr> pt_base_url = rg_peer_base_url g, pt_token = rg_reciprocal_token g \<rparr> f)"

datatype reciprocal_refusal = Mint_barred | Persist_failed

definition issue_reciprocal_observe_grant ::
  "reciprocal_grant \<Rightarrow> persist_grant \<Rightarrow> bool \<Rightarrow> string \<Rightarrow> string \<Rightarrow> keyed_file \<Rightarrow> keyed_file
     \<Rightarrow> (reciprocal_refusal + string) \<times> keyed_file \<times> keyed_file" where
  "issue_reciprocal_observe_grant g persist clear_throws token now reg peers =
     (case mint_peer_token (rg_requester_machine_id g) token (Some ''observe'') now reg of
        (None, reg1) \<Rightarrow> (Inl Mint_barred, reg1, peers)
      | (Some t, reg1) \<Rightarrow>
          (case persist g peers of
             (True, peers1) \<Rightarrow>
               (Inl Persist_failed, delete_issued_token (rg_requester_machine_id g) reg1,
                if clear_throws then peers1
                else clear_peer_token (rg_requester_machine_id g) peers1)
           | (False, peers1) \<Rightarrow> (Inr t, reg1, peers1)))"

section \<open>The mint and revoke endpoints\<close>

datatype mint_response =
    Mint_machine_required
  | Mint_target_unconfigured
  | Mint_unauthorized
  | Mint_forbidden
  | Mint_created string string

definition trimmed_or_empty :: "string option \<Rightarrow> string" where
  "trimmed_or_empty s = js_trim (or_else s [])"

definition finish_mint ::
  "string \<Rightarrow> string \<Rightarrow> string option \<Rightarrow> string \<Rightarrow> keyed_file \<Rightarrow> mint_response \<times> keyed_file" where
  "finish_mint m token scp issued reg =
     (case mint_peer_token m token scp issued reg of
        (None, reg') \<Rightarrow> (Mint_forbidden, reg')
      | (Some t, reg') \<Rightarrow> (Mint_created m t, reg'))"

text \<open>The response, the nonce store and the registry.\<close>

definition peer_token_mint_handler ::
  "string option \<Rightarrow> string option \<Rightarrow> string option \<Rightarrow> int \<Rightarrow> string \<Rightarrow> string
     \<Rightarrow> keyed_file \<Rightarrow> keyed_file \<Rightarrow> mint_response \<times> keyed_file \<times> keyed_file" where
  "peer_token_mint_handler machine nonce scp now token issued ns reg =
     (let m = trimmed_or_empty machine
      in if m = [] then (Mint_machine_required, ns, reg)
         else let (ok, ns') = consume_enrollment_nonce (or_else nonce []) now ns
              in if \<not> ok then (Mint_unauthorized, ns', reg)
                 else let (r, reg') = finish_mint m token scp issued reg in (r, ns', reg'))"

definition bound_peer_token_mint_handler ::
  "string option \<Rightarrow> string option \<Rightarrow> string option \<Rightarrow> string option \<Rightarrow> string option \<Rightarrow> int
     \<Rightarrow> string \<Rightarrow> string \<Rightarrow> keyed_file \<Rightarrow> keyed_file \<Rightarrow> mint_response \<times> keyed_file \<times> keyed_file" where
  "bound_peer_token_mint_handler machine self nonce_header identity_header scp now token issued ns reg =
     (let m = trimmed_or_empty machine; target = trimmed_or_empty self;
          nonce = trimmed_or_empty nonce_header; key = trimmed_or_empty identity_header
      in if m = [] then (Mint_machine_required, ns, reg)
         else if target = [] then (Mint_target_unconfigured, ns, reg)
         else if nonce = [] \<or> key = [] then (Mint_unauthorized, ns, reg)
         else let (ok, ns') = consume_bound_enrollment_nonce nonce
                    \<lparr> nb_target = target, nb_identity_key = key \<rparr> now ns
              in if \<not> ok then (Mint_unauthorized, ns', reg)
                 else let (r, reg') = finish_mint m token (Some (or_else scp ''observe'')) issued reg
                      in (r, ns', reg'))"

text \<open>Whether the request named a machine, and the registry.\<close>

definition peer_revoke_handler :: "string option \<Rightarrow> string \<Rightarrow> keyed_file \<Rightarrow> bool \<times> keyed_file" where
  "peer_revoke_handler machine now reg =
     (let m = trimmed_or_empty machine
      in if m = [] then (False, reg) else (True, revoke_peer_token m now reg))"

end
