(* ===== verification/Control_Plane.thy ===== *)
theory Control_Plane
  imports Grant_Lifecycle Trust_Stores
begin

text \<open>
  How control over a machine is obtained, under \<open>packages/extension/src/amicode_service/\<close>: the
  request and approval handshake of shared peers (\<open>fleet_control_request.ts\<close>), the self-owned
  bootstrap and the handler of the enable-control intent (\<open>fleet_control_bootstrap.ts\<close>), and the
  readers of the grant store that feed the gates (\<open>session_creation_route.ts\<close>, the wiring of
  \<open>index.ts\<close>), with the authority store of \<open>packages/schema/src/fleet_lifecycle_authority.ts\<close>. Requests and grants are two files of \<open>Keyed_Store\<close>; the dialog's answer, the
  serving peers, the reader tokens and the resolved authority are arguments of the handler, and what
  it records is returned.
\<close>

section \<open>Control requests\<close>

datatype control_request_status = Request_pending | Request_approved | Request_denied

record control_request_record =
  cr_requester_machine_id :: string
  cr_requester_identity_key :: string
  cr_target_machine_id :: string
  cr_target_identity_key :: string
  cr_status :: control_request_status
  cr_requested_at :: string
  cr_resolved_at :: "string option"

record control_request =
  rq_requester_machine_id :: string
  rq_requester_identity_key :: string
  rq_target_machine_id :: string
  rq_target_identity_key :: string

definition CONTROL_REQUEST_STORE_VERSION :: int where
  "CONTROL_REQUEST_STORE_VERSION = 1"

definition REQUESTS_COLLECTION :: string where
  "REQUESTS_COLLECTION = ''control_requests''"

definition request_key :: "string \<Rightarrow> string \<Rightarrow> string" where
  "request_key requester target = requester @ ''::'' @ target"

text \<open>\<open>key.slice(0, key.indexOf("::"))\<close>, the whole key when it has none.\<close>

fun before_colons :: "string \<Rightarrow> string" where
  "before_colons (c # d # cs) =
     (if c = CHR '':'' \<and> d = CHR '':'' then [] else c # before_colons (d # cs))"
| "before_colons s = s"

definition status_of_string :: "string \<Rightarrow> control_request_status option" where
  "status_of_string s =
     (if s = ''pending'' then Some Request_pending
      else if s = ''approved'' then Some Request_approved
      else if s = ''denied'' then Some Request_denied else None)"

fun string_of_status :: "control_request_status \<Rightarrow> string" where
  "string_of_status Request_pending = ''pending''"
| "string_of_status Request_approved = ''approved''"
| "string_of_status Request_denied = ''denied''"

definition parse_request_fields :: "string \<Rightarrow> keyed_doc \<Rightarrow> control_request_record option" where
  "parse_request_fields key r =
     (if str_field r ''requester_identity_key'' = [] \<or> str_field r ''target_machine_id'' = []
         \<or> str_field r ''requested_at'' = [] then None
      else (case status_of_string (str_field r ''status'') of
              None \<Rightarrow> None
            | Some st \<Rightarrow> Some
                \<lparr> cr_requester_machine_id = before_colons key,
                  cr_requester_identity_key = str_field r ''requester_identity_key'',
                  cr_target_machine_id = str_field r ''target_machine_id'',
                  cr_target_identity_key = str_field r ''target_identity_key'',
                  cr_status = st, cr_requested_at = str_field r ''requested_at'',
                  cr_resolved_at = opt_str_field r ''resolved_at'' \<rparr>))"

fun parse_stored_request :: "string \<Rightarrow> json option \<Rightarrow> control_request_record option" where
  "parse_stored_request key (Some (JObj r)) = parse_request_fields key r"
| "parse_stored_request key _ = None"

definition read_control_request ::
  "string \<Rightarrow> string \<Rightarrow> keyed_file \<Rightarrow> control_request_record option" where
  "read_control_request requester target rf =
     parse_stored_request (request_key requester target)
       (keyed_entry rf REQUESTS_COLLECTION (request_key requester target))"

fun parse_requests :: "keyed_doc \<Rightarrow> control_request_record list" where
  "parse_requests [] = []"
| "parse_requests ((key, raw) # es) =
     (case parse_stored_request key (Some raw) of
        None \<Rightarrow> parse_requests es
      | Some rec \<Rightarrow> rec # parse_requests es)"

definition read_all_control_requests :: "keyed_file \<Rightarrow> control_request_record list" where
  "read_all_control_requests rf = parse_requests (read_keyed_collection rf REQUESTS_COLLECTION)"

definition read_pending_requests :: "keyed_file \<Rightarrow> control_request_record list" where
  "read_pending_requests rf =
     filter (\<lambda>rec. cr_status rec = Request_pending)
       (parse_requests (read_keyed_collection rf REQUESTS_COLLECTION))"

definition request_fields :: "control_request_record \<Rightarrow> keyed_doc" where
  "request_fields rec =
     [(''requester_identity_key'', JStr (cr_requester_identity_key rec)),
      (''target_machine_id'', JStr (cr_target_machine_id rec)),
      (''target_identity_key'', JStr (cr_target_identity_key rec)),
      (''status'', JStr (string_of_status (cr_status rec))),
      (''requested_at'', JStr (cr_requested_at rec))]
      @ (case non_empty (cr_resolved_at rec) of None \<Rightarrow> [] | Some r \<Rightarrow> [(''resolved_at'', JStr r)])"

definition write_control_request :: "control_request_record \<Rightarrow> keyed_file \<Rightarrow> keyed_file" where
  "write_control_request rec rf =
     upsert_keyed_entry REQUESTS_COLLECTION
       (request_key (cr_requester_machine_id rec) (cr_target_machine_id rec))
       (JObj (request_fields rec)) CONTROL_REQUEST_STORE_VERSION rf"

section \<open>Submit, approve, deny\<close>

datatype submit_answer = Submit_pending | Submit_already_granted

definition holds_control :: "string \<Rightarrow> string \<Rightarrow> keyed_file \<Rightarrow> lifecycle_grant option" where
  "holds_control requester target gf =
     (case find_control_grant_by_target target gf of
        None \<Rightarrow> None
      | Some g \<Rightarrow> if requester_machine_id g = requester then Some g else None)"

definition request_is_pending :: "control_request_record option \<Rightarrow> bool" where
  "request_is_pending existing \<longleftrightarrow> (case existing of None \<Rightarrow> False | Some rec \<Rightarrow> cr_status rec = Request_pending)"

definition submit_control_request ::
  "control_request \<Rightarrow> string \<Rightarrow> keyed_file \<Rightarrow> keyed_file \<Rightarrow> submit_answer \<times> keyed_file" where
  "submit_control_request req now gf rf =
     (if holds_control (rq_requester_machine_id req) (rq_target_machine_id req) gf \<noteq> None
      then (Submit_already_granted, rf)
      else if request_is_pending
          (read_control_request (rq_requester_machine_id req) (rq_target_machine_id req) rf)
      then (Submit_pending, rf)
      else (Submit_pending, write_control_request
              \<lparr> cr_requester_machine_id = rq_requester_machine_id req,
                cr_requester_identity_key = rq_requester_identity_key req,
                cr_target_machine_id = rq_target_machine_id req,
                cr_target_identity_key = rq_target_identity_key req,
                cr_status = Request_pending, cr_requested_at = now, cr_resolved_at = None \<rparr> rf))"

datatype approve_refusal = Approve_not_found | Approve_grant_failed

record approval =
  ap_grant :: lifecycle_grant
  ap_already :: bool

definition standing_approval ::
  "string \<Rightarrow> string \<Rightarrow> control_request_record \<Rightarrow> keyed_file \<Rightarrow> lifecycle_grant option" where
  "standing_approval requester target existing gf =
     (if cr_status existing = Request_approved then holds_control requester target gf else None)"

definition control_grant_request ::
  "string \<Rightarrow> string \<Rightarrow> control_request_record \<Rightarrow> grant_request" where
  "control_grant_request requester target existing =
     \<lparr> gr_requester_machine_id = requester,
       gr_requester_identity_key = cr_requester_identity_key existing,
       gr_target_machine_id = target,
       gr_target_identity_key = cr_target_identity_key existing, gr_scope = Control \<rparr>"

definition approve_control_request ::
  "string \<Rightarrow> string \<Rightarrow> string \<Rightarrow> string \<Rightarrow> string \<Rightarrow> keyed_file \<Rightarrow> keyed_file
     \<Rightarrow> (approve_refusal + approval) \<times> keyed_file \<times> keyed_file" where
  "approve_control_request requester target token issued now gf rf =
     (case read_control_request requester target rf of
        None \<Rightarrow> (Inl Approve_not_found, gf, rf)
      | Some existing \<Rightarrow>
          (case standing_approval requester target existing gf of
             Some g \<Rightarrow> (Inr \<lparr> ap_grant = g, ap_already = True \<rparr>, gf, rf)
           | None \<Rightarrow>
               let (r, gf') = issue_lifecycle_grant
                     (control_grant_request requester target existing) token issued gf
               in (case r of
                     Inl _ \<Rightarrow> (Inl Approve_grant_failed, gf', rf)
                   | Inr g \<Rightarrow> (Inr \<lparr> ap_grant = g, ap_already = False \<rparr>, gf',
                       write_control_request (existing\<lparr>cr_status := Request_approved,
                                               cr_resolved_at := Some now\<rparr>) rf))))"

definition deny_control_request ::
  "string \<Rightarrow> string \<Rightarrow> string \<Rightarrow> keyed_file \<Rightarrow> bool \<times> keyed_file" where
  "deny_control_request requester target now rf =
     (case read_control_request requester target rf of
        None \<Rightarrow> (False, rf)
      | Some existing \<Rightarrow>
          if cr_status existing = Request_denied then (True, rf)
          else (True, write_control_request (existing\<lparr>cr_status := Request_denied,
                                              cr_resolved_at := Some now\<rparr>) rf))"

section \<open>The self-owned bootstrap\<close>

datatype control_bootstrap_decision = Authorize_control | Requires_approval

definition evaluate_control_bootstrap :: "peer_ownership \<Rightarrow> bool \<Rightarrow> control_bootstrap_decision" where
  "evaluate_control_bootstrap ownership management_verified =
     (if ownership = Self_owned \<and> management_verified then Authorize_control else Requires_approval)"

record management_facts =
  authority_seeded_for_self :: bool
  peer_serving :: bool
  reader_token_held :: bool

definition evaluate_management_verified :: "management_facts \<Rightarrow> bool" where
  "evaluate_management_verified facts \<longleftrightarrow>
     authority_seeded_for_self facts \<and> peer_serving facts \<and> reader_token_held facts"

record authority_record =
  au_target_machine_id :: string
  au_authority_machine_id :: string
  au_authority_identity_key :: string
  au_recorded_at :: string

text \<open>The authority store of \<open>packages/schema/src/fleet_lifecycle_authority.ts\<close>; it has the
  document layout of the keyed store and its own copy of its reader and writer.\<close>

definition LIFECYCLE_AUTHORITY_STORE_VERSION :: int where
  "LIFECYCLE_AUTHORITY_STORE_VERSION = 1"

definition AUTHORITIES_COLLECTION :: string where
  "AUTHORITIES_COLLECTION = ''authorities''"

fun parse_stored_authority :: "string \<Rightarrow> json option \<Rightarrow> authority_record option" where
  "parse_stored_authority target (Some (JObj r)) =
     (if str_field r ''authority_machine_id'' = [] \<or> str_field r ''authority_identity_key'' = [] then None
      else Some \<lparr> au_target_machine_id = target,
                  au_authority_machine_id = str_field r ''authority_machine_id'',
                  au_authority_identity_key = str_field r ''authority_identity_key'',
                  au_recorded_at = str_field r ''recorded_at'' \<rparr>)"
| "parse_stored_authority target _ = None"

definition record_lifecycle_authority :: "authority_record \<Rightarrow> keyed_file \<Rightarrow> keyed_file" where
  "record_lifecycle_authority rec af =
     (let d = read_doc af;
          c = obj_set (collection_of d AUTHORITIES_COLLECTION) (au_target_machine_id rec)
                (JObj [(''authority_machine_id'', JStr (au_authority_machine_id rec)),
                       (''authority_identity_key'', JStr (au_authority_identity_key rec)),
                       (''recorded_at'', JStr (au_recorded_at rec))])
      in Some (JObj (obj_set (obj_set d store_version_key (JNum LIFECYCLE_AUTHORITY_STORE_VERSION))
           AUTHORITIES_COLLECTION (JObj c))))"

definition resolve_lifecycle_authority :: "string \<Rightarrow> keyed_file \<Rightarrow> authority_record option" where
  "resolve_lifecycle_authority target af =
     parse_stored_authority target (map_of (collection_of (read_doc af) AUTHORITIES_COLLECTION) target)"

fun parse_authorities :: "keyed_doc \<Rightarrow> authority_record list" where
  "parse_authorities [] = []"
| "parse_authorities ((target, raw) # es) =
     (case parse_stored_authority target (Some raw) of
        None \<Rightarrow> parse_authorities es
      | Some rec \<Rightarrow> rec # parse_authorities es)"

definition read_all_lifecycle_authorities :: "keyed_file \<Rightarrow> authority_record list" where
  "read_all_lifecycle_authorities af =
     parse_authorities (collection_of (read_doc af) AUTHORITIES_COLLECTION)"

text \<open>An authority record that names this machine.\<close>

definition names_self :: "authority_record option \<Rightarrow> string \<Rightarrow> bool" where
  "names_self existing self \<longleftrightarrow>
     (case existing of
        None \<Rightarrow> False
      | Some a \<Rightarrow> au_authority_machine_id a = self \<or> au_authority_identity_key a = self)"

definition establish_management_verified ::
  "string \<Rightarrow> string \<Rightarrow> string list \<Rightarrow> (string \<Rightarrow> bool) \<Rightarrow> (string \<Rightarrow> authority_record option) \<Rightarrow> bool"
where
  "establish_management_verified self target serving token_held resolve_authority \<longleftrightarrow>
     evaluate_management_verified
       \<lparr> authority_seeded_for_self = names_self (resolve_authority target) self,
         peer_serving = target \<in> set serving, reader_token_held = token_held target \<rparr>"

record fleet_identity =
  fi_machine_id :: string
  fi_identity_key :: string

datatype enable_refusal = Enable_requires_approval | Enable_issue_failed issue_refusal

definition self_control_request :: "fleet_identity \<Rightarrow> fleet_identity \<Rightarrow> grant_request" where
  "self_control_request self target =
     \<lparr> gr_requester_machine_id = fi_machine_id self,
       gr_requester_identity_key = fi_identity_key self,
       gr_target_machine_id = fi_machine_id target,
       gr_target_identity_key = fi_identity_key target, gr_scope = Control \<rparr>"

definition enable_self_owned_control ::
  "peer_ownership \<Rightarrow> bool \<Rightarrow> fleet_identity \<Rightarrow> fleet_identity \<Rightarrow> string \<Rightarrow> string \<Rightarrow> keyed_file
     \<Rightarrow> (enable_refusal + lifecycle_grant) \<times> keyed_file" where
  "enable_self_owned_control ownership management_verified self target token now gf =
     (if evaluate_control_bootstrap ownership management_verified \<noteq> Authorize_control
      then (Inl Enable_requires_approval, gf)
      else let (r, gf') = issue_lifecycle_grant (self_control_request self target) token now gf
           in (case r of
                 Inl reason \<Rightarrow> (Inl (Enable_issue_failed reason), gf')
               | Inr g \<Rightarrow> (Inr g, gf')))"

section \<open>The enable-control handler\<close>

record enable_deps =
  ed_self :: fleet_identity
  ed_target_identity_key :: "string \<Rightarrow> string"
  ed_ownership_of :: "string \<Rightarrow> peer_ownership"
  ed_serving_peers :: "string list"
  ed_token_held :: "string \<Rightarrow> bool"
  ed_resolve_authority :: "string \<Rightarrow> authority_record option"

datatype enable_outcome =
    Minted lifecycle_grant bool
  | Cancelled
  | Shared_requires_approval
  | Peer_unreachable
  | Authority_not_established
  | Issue_failed issue_refusal

text \<open>The outcome, the authority records it wrote, and the grant store.\<close>

definition handle_enable_control_request ::
  "string \<Rightarrow> bool \<Rightarrow> enable_deps \<Rightarrow> string \<Rightarrow> string \<Rightarrow> string \<Rightarrow> keyed_file
     \<Rightarrow> enable_outcome \<times> authority_record list \<times> keyed_file" where
  "handle_enable_control_request owner confirmed deps recorded token now gf =
     (let self = ed_self deps;
          ownership = ed_ownership_of deps owner;
          serving = owner \<in> set (ed_serving_peers deps);
          held = ed_token_held deps owner;
          existing = ed_resolve_authority deps owner;
          healed = existing = None;
          writes = (if healed then
                     [\<lparr> au_target_machine_id = owner, au_authority_machine_id = fi_machine_id self,
                        au_authority_identity_key = fi_identity_key self,
                        au_recorded_at = recorded \<rparr>] else [])
      in if \<not> confirmed then (Cancelled, [], gf)
         else if ownership \<noteq> Self_owned then (Shared_requires_approval, [], gf)
         else if \<not> serving \<or> \<not> held then (Peer_unreachable, [], gf)
         else if \<not> healed \<and> \<not> names_self existing (fi_machine_id self)
         then (Authority_not_established, [], gf)
         else
           let verified = evaluate_management_verified
                 \<lparr> authority_seeded_for_self = healed \<or> names_self existing (fi_machine_id self),
                   peer_serving = serving, reader_token_held = held \<rparr>;
               (r, gf') = enable_self_owned_control ownership verified self
                 \<lparr> fi_machine_id = owner, fi_identity_key = ed_target_identity_key deps owner \<rparr>
                 token now gf
           in (case r of
                 Inl Enable_requires_approval \<Rightarrow> (Authority_not_established, writes, gf')
               | Inl (Enable_issue_failed reason) \<Rightarrow> (Issue_failed reason, writes, gf')
               | Inr g \<Rightarrow> (Minted g healed, writes, gf')))"

section \<open>The gates' readers\<close>

definition grant_facts :: "lifecycle_grant \<Rightarrow> grant_read" where
  "grant_facts g = \<lparr> scope = lg_scope g, state = lg_state g \<rparr>"

text \<open>The newest grant, the later of two with the same generation.\<close>

fun newest_grant :: "lifecycle_grant \<Rightarrow> lifecycle_grant list \<Rightarrow> lifecycle_grant" where
  "newest_grant a [] = a"
| "newest_grant a (b # bs) = newest_grant (if generation b \<ge> generation a then b else a) bs"

definition select_grant_for_target :: "lifecycle_grant list \<Rightarrow> string \<Rightarrow> grant_read option" where
  "select_grant_for_target grants target =
     (case filter (\<lambda>g. target_machine_id g = target) grants of
        [] \<Rightarrow> None
      | a # bs \<Rightarrow>
          Some (grant_facts
            (case find (\<lambda>g. lg_scope g = Control \<and> lg_state g = Grant_active) (a # bs) of
               Some g \<Rightarrow> g
             | None \<Rightarrow> newest_grant a bs)))"

text \<open>The readers of the creation route, the write plane and the session projection.\<close>

definition creation_grant_reader :: "keyed_file \<Rightarrow> string \<Rightarrow> grant_read option" where
  "creation_grant_reader gf peer = select_grant_for_target (read_all_lifecycle_grants gf) peer"

definition write_grant_reader :: "keyed_file \<Rightarrow> string \<Rightarrow> grant_read option" where
  "write_grant_reader gf owner = map_option grant_facts (find_control_grant_by_target owner gf)"

definition session_grant_reader :: "keyed_file \<Rightarrow> string \<Rightarrow> grant_read option" where
  "session_grant_reader gf owner =
     map_option grant_facts
       (find (\<lambda>g. target_machine_id g = owner \<and> lg_scope g = Control) (read_all_lifecycle_grants gf))"

datatype creation_response = Missing_machine | Creation_answer creation_target

definition creation_target_response ::
  "string option \<Rightarrow> string \<Rightarrow> keyed_file \<Rightarrow> (string \<Rightarrow> bool) \<Rightarrow> creation_response" where
  "creation_target_response machine local_id gf reachable =
     (case machine of
        None \<Rightarrow> Missing_machine
      | Some m \<Rightarrow>
          if js_trim m = [] then Missing_machine
          else Creation_answer (resolve_creation_target (Some m)
                 \<lparr> local_machine_id = local_id, grant_reader = creation_grant_reader gf,
                   peer_reachable = reachable \<rparr>))"

end
