(* ===== verification/Control_Properties.thy ===== *)
theory Control_Properties
  imports Control_Plane
begin

text \<open>
  What the control plane guarantees: no control without a submitted and approved request or the
  confirmed self-owned path, and gates that follow the grant store.
\<close>

section \<open>Request keys and records\<close>

definition plain_id :: "string \<Rightarrow> bool" where
  "plain_id s \<longleftrightarrow> CHR '':'' \<notin> set s"

lemma before_colons_key: "plain_id r \<Longrightarrow> before_colons (request_key r t) = r"
proof (induction r)
  case (Cons c r)
  then show ?case by (cases r) (auto simp: request_key_def plain_id_def)
qed (simp add: request_key_def)

lemma request_key_inject:
  assumes "plain_id r" and "plain_id r'"
  shows "request_key r t = request_key r' t' \<longleftrightarrow> r = r' \<and> t = t'"
proof
  assume eq: "request_key r t = request_key r' t'"
  then have "r = r'" using before_colons_key assms by metis
  with eq show "r = r' \<and> t = t'" by (simp add: request_key_def)
qed simp

definition readable_request :: "control_request_record \<Rightarrow> bool" where
  "readable_request rec \<longleftrightarrow>
     cr_requester_identity_key rec \<noteq> [] \<and> cr_target_machine_id rec \<noteq> [] \<and> cr_requested_at rec \<noteq> []"

lemma status_of_string_of_status [simp]: "status_of_string (string_of_status st) = Some st"
  by (cases st) (simp_all add: status_of_string_def)

lemma request_fields_simps:
  "str_field (request_fields rec) ''requester_identity_key'' = cr_requester_identity_key rec"
  "str_field (request_fields rec) ''target_machine_id'' = cr_target_machine_id rec"
  "str_field (request_fields rec) ''target_identity_key'' = cr_target_identity_key rec"
  "str_field (request_fields rec) ''status'' = string_of_status (cr_status rec)"
  "str_field (request_fields rec) ''requested_at'' = cr_requested_at rec"
  "opt_str_field (request_fields rec) ''resolved_at'' = non_empty (cr_resolved_at rec)"
  by (simp_all add: request_fields_def str_field_def)
    (simp add: opt_str_field_def str_field_def non_empty_def split: option.split)

lemma parse_request_record:
  "parse_request_fields key (request_fields rec) =
     (if readable_request rec
      then Some (rec\<lparr>cr_requester_machine_id := before_colons key,
                     cr_resolved_at := non_empty (cr_resolved_at rec)\<rparr>)
      else None)"
  by (auto simp: parse_request_fields_def readable_request_def request_fields_simps
      intro!: control_request_record.equality)

lemma requests_collection_ok [simp]: "REQUESTS_COLLECTION \<noteq> store_version_key"
  by (simp add: REQUESTS_COLLECTION_def store_version_key_def)

lemma read_write_request:
  assumes "plain_id r" and "plain_id (cr_requester_machine_id rec)"
  shows "read_control_request r t (write_control_request rec rf) =
     (if r = cr_requester_machine_id rec \<and> t = cr_target_machine_id rec
      then (if readable_request rec
            then Some (rec\<lparr>cr_resolved_at := non_empty (cr_resolved_at rec)\<rparr>) else None)
      else read_control_request r t rf)"
  using assms
  by (auto simp: read_control_request_def write_control_request_def file_store.entry_upsert
      parse_request_record request_key_inject before_colons_key)

lemma read_empty_requests [simp]: "read_control_request r t None = None"
  by (simp add: read_control_request_def read_keyed_collection_def read_doc_def collection_of_def)

section \<open>The handshake as runs\<close>

datatype handshake_op =
    Submit_request control_request string
  | Approve_request string string string string string
  | Deny_request string string string

fun handshake_requester :: "handshake_op \<Rightarrow> string" where
  "handshake_requester (Submit_request req now) = rq_requester_machine_id req"
| "handshake_requester (Approve_request r t token issued now) = r"
| "handshake_requester (Deny_request r t now) = r"

text \<open>On the grant store and the request store.\<close>

fun apply_handshake :: "handshake_op \<Rightarrow> keyed_file \<times> keyed_file \<Rightarrow> keyed_file \<times> keyed_file" where
  "apply_handshake (Submit_request req now) (gf, rf) = (gf, snd (submit_control_request req now gf rf))"
| "apply_handshake (Approve_request r t token issued now) (gf, rf) =
     snd (approve_control_request r t token issued now gf rf)"
| "apply_handshake (Deny_request r t now) (gf, rf) = (gf, snd (deny_control_request r t now rf))"

fun run_handshake :: "handshake_op list \<Rightarrow> keyed_file \<times> keyed_file \<Rightarrow> keyed_file \<times> keyed_file" where
  "run_handshake [] s = s"
| "run_handshake (op # ops) s = run_handshake ops (apply_handshake op s)"

text \<open>A request was submitted by that requester with these identities.\<close>

definition submitted ::
  "handshake_op set \<Rightarrow> string \<Rightarrow> string \<Rightarrow> string \<Rightarrow> string \<Rightarrow> bool" where
  "submitted H r rkey t tkey \<longleftrightarrow>
     (\<exists>now. Submit_request \<lparr> rq_requester_machine_id = r, rq_requester_identity_key = rkey,
        rq_target_machine_id = t, rq_target_identity_key = tkey \<rparr> now \<in> H)"

definition approved :: "handshake_op set \<Rightarrow> string \<Rightarrow> string \<Rightarrow> bool" where
  "approved H r t \<longleftrightarrow> (\<exists>token issued now. Approve_request r t token issued now \<in> H)"

definition requests_submitted :: "handshake_op set \<Rightarrow> keyed_file \<Rightarrow> bool" where
  "requests_submitted H rf \<longleftrightarrow>
     (\<forall>r t rec. plain_id r \<longrightarrow> read_control_request r t rf = Some rec \<longrightarrow>
        cr_requester_machine_id rec = r \<and> cr_target_machine_id rec = t \<and>
        submitted H r (cr_requester_identity_key rec) t (cr_target_identity_key rec))"

definition grants_approved :: "handshake_op set \<Rightarrow> keyed_file \<Rightarrow> bool" where
  "grants_approved H gf \<longleftrightarrow>
     (\<forall>p g. read_lifecycle_grant p gf = Some g \<longrightarrow>
        lg_scope g = Control \<and> approved H p (target_machine_id g) \<and>
        submitted H p (requester_identity_key g) (target_machine_id g) (target_identity_key g))"

lemma submitted_mono: "submitted H r k t tk \<Longrightarrow> submitted (insert op H) r k t tk"
  by (auto simp: submitted_def)

lemma approved_mono: "approved H r t \<Longrightarrow> approved (insert op H) r t"
  by (auto simp: approved_def)

lemma requests_submitted_mono: "requests_submitted H rf \<Longrightarrow> requests_submitted (insert op H) rf"
  by (auto simp: requests_submitted_def intro: submitted_mono)

lemma grants_approved_mono: "grants_approved H gf \<Longrightarrow> grants_approved (insert op H) gf"
  by (auto simp: grants_approved_def intro: submitted_mono approved_mono)

lemma requests_submitted_write:
  assumes "requests_submitted H rf" and "plain_id (cr_requester_machine_id rec)"
    and "submitted H (cr_requester_machine_id rec) (cr_requester_identity_key rec)
           (cr_target_machine_id rec) (cr_target_identity_key rec)"
  shows "requests_submitted H (write_control_request rec rf)"
  unfolding requests_submitted_def
proof (intro allI impI)
  fix r t rec'
  assume p: "plain_id r" and "read_control_request r t (write_control_request rec rf) = Some rec'"
  then have e: "(if r = cr_requester_machine_id rec \<and> t = cr_target_machine_id rec
      then (if readable_request rec
            then Some (rec\<lparr>cr_resolved_at := non_empty (cr_resolved_at rec)\<rparr>) else None)
      else read_control_request r t rf) = Some rec'"
    by (simp only: read_write_request [OF p assms(2)])
  show "cr_requester_machine_id rec' = r \<and> cr_target_machine_id rec' = t \<and>
      submitted H r (cr_requester_identity_key rec') t (cr_target_identity_key rec')"
  proof (cases "r = cr_requester_machine_id rec \<and> t = cr_target_machine_id rec")
    case True
    with e have "rec' = rec\<lparr>cr_resolved_at := non_empty (cr_resolved_at rec)\<rparr>"
      by (simp split: if_splits)
    with True assms(3) show ?thesis by simp
  next
    case False
    with e have "read_control_request r t rf = Some rec'"
      by (simp split: if_splits)
    with p assms(1) show ?thesis by (simp add: requests_submitted_def)
  qed
qed

text \<open>Resolving a request keeps who asked for what.\<close>

lemma requests_submitted_resolve:
  assumes "requests_submitted H rf" and "plain_id r" and "read_control_request r t rf = Some rec"
  shows "requests_submitted H (write_control_request (rec\<lparr>cr_status := st, cr_resolved_at := at\<rparr>) rf)"
  using assms by (intro requests_submitted_write) (auto simp: requests_submitted_def)

lemma issue_shape:
  obtains reason where "issue_lifecycle_grant req token now gf = (Inl reason, gf)"
  | gen where "issue_lifecycle_grant req token now gf =
      (Inr (issued_grant req gen token now),
       write_grant (gr_requester_machine_id req) (issued_grant req gen token now) gf)"
  by (cases "issue_refused (read_lifecycle_grant (gr_requester_machine_id req) gf)
      (gr_requester_identity_key req)")
    (auto simp: issue_lifecycle_grant_def Let_def)

lemma grants_approved_issue:
  assumes "grants_approved H gf" and "approved H r t"
    and "submitted H r (cr_requester_identity_key rec) t (cr_target_identity_key rec)"
  shows "grants_approved H (snd (issue_lifecycle_grant (control_grant_request r t rec) token now gf))"
  by (rule issue_shape [of "control_grant_request r t rec" token now gf])
    (use assms in \<open>auto simp: grants_approved_def read_write_grant issued_grant_def
       control_grant_request_def split: if_splits\<close>)

lemma approve_shape:
  assumes "approve_control_request r t token issued now gf rf = (res, gf', rf')"
  obtains "gf' = gf" "rf' = rf"
  | rec where "read_control_request r t rf = Some rec"
      "gf' = snd (issue_lifecycle_grant (control_grant_request r t rec) token issued gf)"
      "rf' = rf \<or> rf' = write_control_request (rec\<lparr>cr_status := Request_approved, cr_resolved_at := Some now\<rparr>) rf"
  using assms
  by (auto simp: approve_control_request_def split: option.splits prod.splits sum.splits)

lemma handshake_step:
  assumes "grants_approved H gf" and "requests_submitted H rf" and "plain_id (handshake_requester op)"
  shows "grants_approved (insert op H) (fst (apply_handshake op (gf, rf)))"
    and "requests_submitted (insert op H) (snd (apply_handshake op (gf, rf)))"
proof -
  let ?H = "insert op H"
  have g: "grants_approved ?H gf" and r: "requests_submitted ?H rf"
    using assms by (auto intro: grants_approved_mono requests_submitted_mono)
  have "grants_approved ?H (fst (apply_handshake op (gf, rf)))
      \<and> requests_submitted ?H (snd (apply_handshake op (gf, rf)))"
  proof (cases op)
    case (Submit_request req now)
    have "submitted ?H (rq_requester_machine_id req) (rq_requester_identity_key req)
        (rq_target_machine_id req) (rq_target_identity_key req)"
      by (auto simp: Submit_request submitted_def)
    with g r assms(3) Submit_request show ?thesis
      by (auto simp: submit_control_request_def intro!: requests_submitted_write)
  next
    case (Approve_request p t token issued now)
    obtain res gf' rf' where run: "approve_control_request p t token issued now gf rf = (res, gf', rf')"
      by (metis prod.exhaust)
    from run show ?thesis
    proof (rule approve_shape)
      assume "gf' = gf" "rf' = rf"
      with g r run show ?thesis by (simp add: Approve_request)
    next
      fix rec assume rec: "read_control_request p t rf = Some rec"
        and gf': "gf' = snd (issue_lifecycle_grant (control_grant_request p t rec) token issued gf)"
        and rf': "rf' = rf \<or> rf' = write_control_request
          (rec\<lparr>cr_status := Request_approved, cr_resolved_at := Some now\<rparr>) rf"
      have p: "plain_id p" using assms(3) Approve_request by simp
      have "approved ?H p t" by (auto simp: approved_def Approve_request)
      moreover have "submitted ?H p (cr_requester_identity_key rec) t (cr_target_identity_key rec)"
        using r rec p by (auto simp: requests_submitted_def)
      ultimately have "grants_approved ?H gf'" unfolding gf' using g by (intro grants_approved_issue)
      moreover have "requests_submitted ?H rf'"
        using rf' r requests_submitted_resolve [OF r p rec] by auto
      ultimately show ?thesis using run by (simp add: Approve_request)
    qed
  next
    case (Deny_request p t now)
    with g r assms(3) requests_submitted_resolve [OF r, of p t] show ?thesis
      by (auto simp: deny_control_request_def split: option.splits)
  qed
  then show "grants_approved ?H (fst (apply_handshake op (gf, rf)))"
    and "requests_submitted ?H (snd (apply_handshake op (gf, rf)))" by auto
qed

lemma handshake_run:
  assumes "grants_approved H (fst s)" and "requests_submitted H (snd s)"
    and "\<And>op. op \<in> set ops \<Longrightarrow> plain_id (handshake_requester op)"
  shows "grants_approved (H \<union> set ops) (fst (run_handshake ops s))"
  using assms
proof (induction ops arbitrary: s H)
  case (Cons op ops)
  obtain gf rf where s: "s = (gf, rf)" by (cases s)
  from Cons.prems have "plain_id (handshake_requester op)" by simp
  then have "grants_approved (insert op H) (fst (apply_handshake op s))"
    and "requests_submitted (insert op H) (snd (apply_handshake op s))"
    using Cons.prems(1,2) by (auto simp: s intro: handshake_step)
  from Cons.IH [OF this] Cons.prems(3) show ?case by simp
qed simp

section \<open>The readers of the grant store\<close>

text \<open>Some requester holds an active grant of control over the machine.\<close>

definition control_stored :: "keyed_file \<Rightarrow> string \<Rightarrow> bool" where
  "control_stored gf t \<longleftrightarrow>
     (\<exists>p g. read_lifecycle_grant p gf = Some g \<and> target_machine_id g = t \<and> lg_scope g = Control \<and>
        lg_state g = Grant_active)"

lemma find_control_SomeD:
  assumes "store_ok gf" and "find_control_grant_by_target t gf = Some g"
  shows "read_lifecycle_grant (requester_machine_id g) gf = Some g \<and> target_machine_id g = t \<and>
     lg_scope g = Control \<and> lg_state g = Grant_active"
  using find_SomeD [OF assms(2) [unfolded find_control_grant_by_target_def]]
  by (simp add: read_all_iff assms(1))

lemma find_control_iff:
  assumes "store_ok gf"
  shows "(\<exists>g. find_control_grant_by_target t gf = Some g) \<longleftrightarrow> control_stored gf t"
proof
  assume "control_stored gf t"
  then obtain p g where g: "read_lifecycle_grant p gf = Some g" "target_machine_id g = t"
    "lg_scope g = Control" "lg_state g = Grant_active" by (auto simp: control_stored_def)
  moreover have "g \<in> set (read_all_lifecycle_grants gf)"
    using g(1) read_lifecycle_grant_SomeD(1) [OF g(1)] by (simp add: read_all_iff assms)
  ultimately show "\<exists>g. find_control_grant_by_target t gf = Some g"
    unfolding find_control_grant_by_target_def by (intro find_exists [of g]) simp_all
qed (auto simp: control_stored_def dest: find_control_SomeD [OF assms])

lemma newest_grant_in: "newest_grant a bs \<in> set (a # bs)"
proof (induction bs arbitrary: a)
  case (Cons b bs)
  show ?case
    using Cons.IH [of a] Cons.IH [of b] by (cases "generation a \<le> generation b") auto
qed simp

text \<open>The facts of the gates, read through the readers of the creation route and of the write
  plane.\<close>

definition creation_facts :: "string \<Rightarrow> keyed_file \<Rightarrow> (string \<Rightarrow> bool) \<Rightarrow> gate_deps" where
  "creation_facts me gf up =
     \<lparr> local_machine_id = me, grant_reader = creation_grant_reader gf, peer_reachable = up \<rparr>"

definition write_facts :: "string \<Rightarrow> keyed_file \<Rightarrow> (string \<Rightarrow> bool) \<Rightarrow> gate_deps" where
  "write_facts me gf up =
     \<lparr> local_machine_id = me, grant_reader = write_grant_reader gf, peer_reachable = up \<rparr>"

lemma facts_me [simp]:
  "local_machine_id (write_facts me gf up) = me" "local_machine_id (creation_facts me gf up) = me"
  by (simp_all add: write_facts_def creation_facts_def)

lemma write_facts_held:
  assumes "store_ok gf"
  shows "control_held (write_facts me gf up) t \<longleftrightarrow> control_stored gf t \<and> up t"
proof (cases "find_control_grant_by_target t gf")
  case None
  with find_control_iff [OF assms, of t] show ?thesis
    by (simp add: control_held_def write_facts_def write_grant_reader_def)
next
  case (Some g)
  with find_control_iff [OF assms, of t] find_control_SomeD [OF assms Some] show ?thesis
    by (simp add: control_held_def write_facts_def write_grant_reader_def grant_facts_def)
qed

lemma creation_facts_held:
  assumes "store_ok gf"
  shows "control_held (creation_facts me gf up) t \<longleftrightarrow> control_stored gf t \<and> up t"
proof -
  let ?all = "read_all_lifecycle_grants gf" and ?P = "\<lambda>g. lg_scope g = Control \<and> lg_state g = Grant_active"
  have stored: "control_stored gf t \<longleftrightarrow> (\<exists>g \<in> set (filter (\<lambda>g. target_machine_id g = t) ?all). ?P g)"
    using read_lifecycle_grant_SomeD(1) unfolding control_stored_def set_filter
    by (auto simp: read_all_iff [OF assms])
  show ?thesis
  proof (cases "filter (\<lambda>g. target_machine_id g = t) ?all")
    case Nil
    then have "\<not> control_stored gf t" using stored by (simp only: list.set) blast
    with Nil show ?thesis
      by (simp add: control_held_def creation_facts_def creation_grant_reader_def select_grant_for_target_def)
  next
    case (Cons a bs)
    show ?thesis
    proof (cases "find ?P (a # bs)")
      case None
      then have no: "\<not> ?P g" if "g \<in> set (a # bs)" for g using that unfolding find_None_iff by blast
      then have "\<not> control_stored gf t" unfolding stored Cons by blast
      moreover have "\<not> ?P (newest_grant a bs)" by (rule no) (rule newest_grant_in)
      ultimately show ?thesis
        using Cons None
        by (auto simp: control_held_def creation_facts_def creation_grant_reader_def
            select_grant_for_target_def grant_facts_def)
    next
      case (Some g)
      then have g: "g \<in> set (a # bs)" "?P g" using find_SomeD [OF Some] by blast+
      then have "control_stored gf t" unfolding stored Cons by blast
      with Cons Some g(2) show ?thesis
        by (simp add: control_held_def creation_facts_def creation_grant_reader_def
            select_grant_for_target_def grant_facts_def del: find.simps)
    qed
  qed
qed

lemma creation_opens_iff:
  "store_ok gf \<Longrightarrow> creation_opens (resolve_creation_target sel (creation_facts me gf up)) = Some t \<longleftrightarrow>
     sel = Some t \<and> t \<noteq> me \<and> control_stored gf t \<and> up t"
  by (simp add: creation.opens_iff creation_facts_held)

lemma write_opens_iff:
  "store_ok gf \<Longrightarrow> write_opens (evaluate_remote_write_gate q (write_facts me gf up)) = Some t \<longleftrightarrow>
     owner_machine q = t \<and> t \<noteq> me \<and> control_stored gf t \<and> up t"
  by (simp add: write_gate.opens_iff write_facts_held)

lemma find_control_after_issue:
  assumes "store_ok gf" and "issue_lifecycle_grant (self_control_request self target) token now gf = (Inr g, gf')"
    and "fi_identity_key self \<noteq> []" and "fi_machine_id target \<noteq> []" and "fi_identity_key target \<noteq> []"
    and "token \<noteq> []" and "now \<noteq> []"
  shows "store_ok gf'" and "read_lifecycle_grant (fi_machine_id self) gf' = Some g"
    and "control_stored gf' (fi_machine_id target)"
proof -
  have "op_complete (Grant_issue (self_control_request self target) token now)"
    using assms(3-) by (simp add: self_control_request_def)
  from accepted_is_step [OF this, of gf] assms(2)
  have step: "lifecycle_step (standing_in gf (fi_machine_id self))
      (Grant_issue (self_control_request self target) token now)
      (standing_in gf' (fi_machine_id self))"
    by (simp add: self_control_request_def)
  show "store_ok gf'"
    using store_ok_apply [OF assms(1), of "Grant_issue (self_control_request self target) token now"]
      assms(2) by simp
  obtain gen where g: "g = issued_grant (self_control_request self target) gen token now"
    and gf': "gf' = write_grant (fi_machine_id self) g gf"
    using issue_shape [of "self_control_request self target" token now gf] assms(2)
    by (auto simp: self_control_request_def)
  have "readable_grant g"
    using step unfolding gf' read_write_grant
    by (cases "readable_grant g") auto
  then show r: "read_lifecycle_grant (fi_machine_id self) gf' = Some g"
    by (simp add: gf' read_write_grant) (simp add: g issued_grant_def self_control_request_def)
  show "control_stored gf' (fi_machine_id target)"
    unfolding control_stored_def
    by (intro exI conjI, rule r) (simp_all add: g issued_grant_def self_control_request_def)
qed

section \<open>The enable-control handler\<close>

text \<open>The operator confirmed, the machine is the operator's own, it serves, its reader token is
  held, and no other machine is recorded as its lifecycle authority.\<close>

definition may_enable :: "string \<Rightarrow> bool \<Rightarrow> enable_deps \<Rightarrow> bool" where
  "may_enable owner confirmed deps \<longleftrightarrow>
     confirmed \<and> ed_ownership_of deps owner = Self_owned \<and> owner \<in> set (ed_serving_peers deps) \<and>
     ed_token_held deps owner \<and>
     (ed_resolve_authority deps owner = None
      \<or> names_self (ed_resolve_authority deps owner) (fi_machine_id (ed_self deps)))"

abbreviation enable_target :: "string \<Rightarrow> enable_deps \<Rightarrow> fleet_identity" where
  "enable_target owner deps \<equiv>
     \<lparr> fi_machine_id = owner, fi_identity_key = ed_target_identity_key deps owner \<rparr>"

lemma names_self_None [simp]: "\<not> names_self None self"
  by (simp add: names_self_def)

lemma enable_when_allowed:
  assumes "may_enable owner confirmed deps"
  shows "handle_enable_control_request owner confirmed deps recorded token now gf =
    (let (r, gf') = issue_lifecycle_grant
           (self_control_request (ed_self deps) (enable_target owner deps)) token now gf
     in ((case r of Inl reason \<Rightarrow> Issue_failed reason
                  | Inr g \<Rightarrow> Minted g (ed_resolve_authority deps owner = None)),
         (if ed_resolve_authority deps owner = None
          then [\<lparr> au_target_machine_id = owner,
                  au_authority_machine_id = fi_machine_id (ed_self deps),
                  au_authority_identity_key = fi_identity_key (ed_self deps),
                  au_recorded_at = recorded \<rparr>] else []), gf'))"
  using assms
  by (auto simp: handle_enable_control_request_def may_enable_def Let_def
      enable_self_owned_control_def evaluate_control_bootstrap_def evaluate_management_verified_def
      split: prod.splits sum.splits)

lemma enable_when_not_allowed:
  "\<not> may_enable owner confirmed deps \<Longrightarrow>
   \<exists>out \<in> {Cancelled, Shared_requires_approval, Peer_unreachable, Authority_not_established}.
     handle_enable_control_request owner confirmed deps recorded token now gf = (out, [], gf)"
  by (auto simp: handle_enable_control_request_def may_enable_def Let_def)

section \<open>Properties\<close>


definition demo_request :: "string \<Rightarrow> control_request" where
  "demo_request r =
     \<lparr> rq_requester_machine_id = r, rq_requester_identity_key = ''k-'' @ r,
       rq_target_machine_id = ''rig'', rq_target_identity_key = ''k-rig'' \<rparr>"

definition demo_handshake :: "handshake_op list" where
  "demo_handshake =
     [Submit_request (demo_request ''guest'') ''t0'', Approve_request ''guest'' ''rig'' ''tok'' ''t1'' ''t2'']"

lemma demo_plain: "op \<in> set demo_handshake \<Longrightarrow> plain_id (handshake_requester op)"
  by (auto simp: demo_handshake_def demo_request_def plain_id_def)

lemmas handshake_defs =
  submit_control_request_def approve_control_request_def deny_control_request_def
  standing_approval_def holds_control_def find_control_grant_by_target_def
  read_all_lifecycle_grants_def request_is_pending_def control_grant_request_def
  issue_lifecycle_grant_def issue_refused_def issued_grant_def read_write_request read_write_grant
  readable_request_def readable_grant_def plain_id_def Let_def

lemma collection_write_grant:
  "read_keyed_collection (write_grant peer g f) GRANTS_COLLECTION =
     obj_set (read_keyed_collection f GRANTS_COLLECTION) peer (grant_record g)"
  by (simp add: write_grant_def upsert_keyed_entry_def read_keyed_collection_def Let_def)

lemma read_collection_empty [simp]: "read_keyed_collection None c = []"
  by (simp add: read_keyed_collection_def read_doc_def collection_of_def)

lemma demo_handshake_run:
  "read_lifecycle_grant ''guest'' (fst (run_handshake demo_handshake (None, None))) =
     Some (issued_grant (control_grant_request ''guest'' ''rig''
       \<lparr> cr_requester_machine_id = ''guest'', cr_requester_identity_key = ''k-guest'',
         cr_target_machine_id = ''rig'', cr_target_identity_key = ''k-rig'',
         cr_status = Request_pending, cr_requested_at = ''t0'', cr_resolved_at = None \<rparr>)
       1 ''tok'' ''t1'')"
  by (simp add: demo_handshake_def demo_request_def handshake_defs)


text \<open>Enabling control mints only when the operator confirmed and the machine is the operator's
  own, serving, with its reader token held and no foreign lifecycle authority, and then exactly
  when the grant store admits it; in every other case neither a grant nor an authority record is
  written. An authority record is written only where none was.\<close>

theorem enabling_needs_every_fact:
  "((\<exists>g h. fst (handle_enable_control_request owner confirmed deps recorded token now gf) = Minted g h)
      \<longleftrightarrow> may_enable owner confirmed deps \<and>
          issue_refused (read_lifecycle_grant (fi_machine_id (ed_self deps)) gf)
            (fi_identity_key (ed_self deps)) = None)
   \<and> ((\<forall>g h. fst (handle_enable_control_request owner confirmed deps recorded token now gf) \<noteq> Minted g h)
      \<longrightarrow> snd (snd (handle_enable_control_request owner confirmed deps recorded token now gf)) = gf)
   \<and> (fst (snd (handle_enable_control_request owner confirmed deps recorded token now gf)) \<noteq> []
      \<longleftrightarrow> may_enable owner confirmed deps \<and> ed_resolve_authority deps owner = None)"
proof (cases "may_enable owner confirmed deps")
  case True
  then show ?thesis
    by (cases "issue_refused (read_lifecycle_grant (fi_machine_id (ed_self deps)) gf)
        (fi_identity_key (ed_self deps))")
      (auto simp: True enable_when_allowed [OF True] issue_lifecycle_grant_def self_control_request_def Let_def)
next
  case False
  from enable_when_not_allowed [OF False, of recorded token now gf] False show ?thesis by auto
qed

definition demo_enable_deps :: enable_deps where
  "demo_enable_deps =
     \<lparr> ed_self = \<lparr> fi_machine_id = ''me'', fi_identity_key = ''k-me'' \<rparr>,
       ed_target_identity_key = (\<lambda>m. ''k-'' @ m), ed_ownership_of = (\<lambda>_. Self_owned),
       ed_serving_peers = [''rig'', ''bench''], ed_token_held = (\<lambda>_. True),
       ed_resolve_authority = (\<lambda>_. None) \<rparr>"

theorem enabling_needs_every_fact_witness:
  "snd (snd (handle_enable_control_request ''rig'' False demo_enable_deps ''t'' ''tok'' ''t''
     (Some (JObj [(''kept'', JBool True)])))) = Some (JObj [(''kept'', JBool True)])"
proof -
  have "\<not> may_enable ''rig'' False demo_enable_deps" by (simp add: may_enable_def)
  with enabling_needs_every_fact [of "''rig''" False demo_enable_deps "''t''" "''tok''" "''t''"
      "Some (JObj [(''kept'', JBool True)])"]
  show ?thesis by blast
qed

text \<open>The self-heal is found by the resolver, so that enabling again needs no second one.\<close>

lemma recorded_authority_is_resolved:
  "resolve_lifecycle_authority target (record_lifecycle_authority rec af) =
     (if target = au_target_machine_id rec
      then (if au_authority_machine_id rec = [] \<or> au_authority_identity_key rec = [] then None else Some rec)
      else resolve_lifecycle_authority target af)"
  by (simp add: resolve_lifecycle_authority_def record_lifecycle_authority_def Let_def str_field_def
      AUTHORITIES_COLLECTION_def store_version_key_def)

lemma self_heal_names_self:
  assumes "fst (snd (handle_enable_control_request owner confirmed deps recorded token now gf)) = [rec]"
    and "fi_machine_id (ed_self deps) \<noteq> []" and "fi_identity_key (ed_self deps) \<noteq> []"
  shows "names_self (resolve_lifecycle_authority owner (record_lifecycle_authority rec af))
    (fi_machine_id (ed_self deps))"
proof (cases "may_enable owner confirmed deps")
  case True
  with assms show ?thesis
    by (auto simp: enable_when_allowed [OF True] recorded_authority_is_resolved names_self_def Let_def
        split: prod.splits if_splits)
next
  case False
  with enable_when_not_allowed [OF False, of recorded token now gf] assms(1) show ?thesis by auto
qed

text \<open>Minting takes effect at the gates: right after control of a machine was enabled, and while
  its transport is up, the machine picker offers it for creation and a write to it is offered for
  confirmation.\<close>

theorem minted_control_opens_the_gates:
  assumes "handle_enable_control_request owner confirmed deps recorded token now gf = (Minted g h, ws, gf')"
    and "store_ok gf" and "up owner" and "owner \<noteq> fi_machine_id (ed_self deps)"
    and "fi_identity_key (ed_self deps) \<noteq> []" and "owner \<noteq> []"
    and "ed_target_identity_key deps owner \<noteq> []" and "token \<noteq> []" and "now \<noteq> []"
  shows "creation_opens (resolve_creation_target (Some owner)
        (creation_facts (fi_machine_id (ed_self deps)) gf' up)) = Some owner
    \<and> (owner_machine q = owner \<longrightarrow> write_opens (evaluate_remote_write_gate q
        (write_facts (fi_machine_id (ed_self deps)) gf' up)) = Some owner)"
proof -
  have may: "may_enable owner confirmed deps"
    using enable_when_not_allowed [of owner confirmed deps recorded token now gf] assms(1) by auto
  have "issue_lifecycle_grant (self_control_request (ed_self deps) (enable_target owner deps)) token now gf
      = (Inr g, gf')"
    using assms(1) enable_when_allowed [OF may, of recorded token now gf]
    by (auto split: prod.splits sum.splits)
  from find_control_after_issue [OF assms(2) this] assms(3-) show ?thesis
    by (simp add: creation_opens_iff write_opens_iff)
qed

definition demo_enabled :: "string \<Rightarrow> keyed_file \<Rightarrow> keyed_file" where
  "demo_enabled m gf =
     snd (snd (handle_enable_control_request m True demo_enable_deps ''t'' (''tok-'' @ m) ''t'' gf))"

lemma demo_enable_minted:
  "\<exists>g. handle_enable_control_request ''rig'' True demo_enable_deps ''t'' ''tok-rig'' ''t'' None =
     (Minted g True, [\<lparr> au_target_machine_id = ''rig'', au_authority_machine_id = ''me'',
        au_authority_identity_key = ''k-me'', au_recorded_at = ''t'' \<rparr>], demo_enabled ''rig'' None)"
  by (simp add: demo_enabled_def enable_when_allowed may_enable_def demo_enable_deps_def
      issue_lifecycle_grant_def issue_refused_def self_control_request_def Let_def)

theorem minted_control_opens_the_gates_witness:
  "creation_opens (resolve_creation_target (Some ''rig'')
     (creation_facts ''me'' (demo_enabled ''rig'' None) (\<lambda>_. True))) = Some ''rig''"
proof -
  obtain g where "handle_enable_control_request ''rig'' True demo_enable_deps ''t'' ''tok-rig'' ''t'' None =
     (Minted g True, [\<lparr> au_target_machine_id = ''rig'', au_authority_machine_id = ''me'',
        au_authority_identity_key = ''k-me'', au_recorded_at = ''t'' \<rparr>], demo_enabled ''rig'' None)"
    using demo_enable_minted by blast
  from minted_control_opens_the_gates [OF this, where up = "\<lambda>_. True"] show ?thesis
    by (simp add: demo_enable_deps_def)
qed

text \<open>The gates follow the grant store: creation on a machine and a write to it open exactly
  when it is another machine, its transport is up and some active grant of control over it is
  stored, although the creation route and the write plane read the store differently.\<close>

theorem gates_follow_the_grant_store:
  assumes "store_ok gf"
  shows "(creation_opens (resolve_creation_target (Some (owner_machine q)) (creation_facts me gf up)) = Some t
      \<longleftrightarrow> owner_machine q = t \<and> t \<noteq> me \<and> up t \<and> control_stored gf t)
    \<and> write_opens (evaluate_remote_write_gate q (write_facts me gf up))
      = creation_opens (resolve_creation_target (Some (owner_machine q)) (creation_facts me gf up))"
proof -
  have "write_opens (evaluate_remote_write_gate q (write_facts me gf up)) = Some p \<longleftrightarrow>
      creation_opens (resolve_creation_target (Some (owner_machine q)) (creation_facts me gf up)) = Some p"
    for p
    using assms by (auto simp: creation_opens_iff write_opens_iff)
  then have "write_opens (evaluate_remote_write_gate q (write_facts me gf up))
      = creation_opens (resolve_creation_target (Some (owner_machine q)) (creation_facts me gf up))"
    by (metis not_Some_eq)
  with assms show ?thesis by (auto simp: creation_opens_iff)
qed

theorem gates_follow_the_grant_store_witness:
  "creation_opens (resolve_creation_target (Some ''rig'') (creation_facts ''me'' None (\<lambda>_. True))) = None"
  using gates_follow_the_grant_store [OF store_ok_None, of
      "\<lparr> owner_machine = ''rig'', write_action = [], write_path = [] \<rparr>" "''me''" "\<lambda>_. True" "''rig''"]
  by (cases "creation_opens (resolve_creation_target (Some ''rig'') (creation_facts ''me'' None (\<lambda>_. True)))")
    (auto simp: control_stored_def creation_opens_iff)

section \<open>Approving\<close>

lemma approve_fresh:
  assumes "read_control_request r t rf = Some rec" and "standing_approval r t rec gf = None"
  shows "approve_control_request r t token issued now gf rf =
    (case issue_refused (read_lifecycle_grant r gf) (cr_requester_identity_key rec) of
       Some _ \<Rightarrow> (Inl Approve_grant_failed, gf, rf)
     | None \<Rightarrow>
         let g = issued_grant (control_grant_request r t rec)
               (case read_lifecycle_grant r gf of None \<Rightarrow> 1 | Some e \<Rightarrow> generation e) token issued
         in (Inr \<lparr> ap_grant = g, ap_already = False \<rparr>, write_grant r g gf,
             write_control_request (rec\<lparr>cr_status := Request_approved, cr_resolved_at := Some now\<rparr>) rf))"
  using assms
  by (auto simp: approve_control_request_def issue_lifecycle_grant_def control_grant_request_def Let_def
      split: option.splits)

text \<open>An approval either grants or changes nothing: without a request, or when the identity
  bound to the requester differs or its grant is revoked, both stores stay as they are; a request
  already approved whose grant is found answers with that grant and changes nothing; otherwise
  the requester holds the new control grant over the target, in the generation it had, and the
  grants of all other requesters stay.\<close>

theorem approval_grants_or_changes_nothing:
  assumes "approve_control_request r t token issued now gf rf = (res, gf', rf')"
    and "\<And>rec. read_control_request r t rf = Some rec \<Longrightarrow> cr_requester_identity_key rec \<noteq> [] \<and> cr_target_identity_key rec \<noteq> []"
    and "t \<noteq> []" and "token \<noteq> []" and "issued \<noteq> []"
  shows "(isl res \<longrightarrow> gf' = gf \<and> rf' = rf)
    \<and> (isl res \<longleftrightarrow> (case read_control_request r t rf of
          None \<Rightarrow> True
        | Some rec \<Rightarrow> standing_approval r t rec gf = None \<and>
            issue_refused (read_lifecycle_grant r gf) (cr_requester_identity_key rec) \<noteq> None))
    \<and> (\<forall>a. res = Inr a \<longrightarrow>
        (if ap_already a then gf' = gf \<and> rf' = rf \<and> holds_control r t gf = Some (ap_grant a)
         else read_lifecycle_grant r gf' = Some (ap_grant a) \<and> control_stored gf' t \<and>
              generation (ap_grant a) = (case read_lifecycle_grant r gf of None \<Rightarrow> 1 | Some e \<Rightarrow> generation e) \<and>
              (\<forall>p. p \<noteq> r \<longrightarrow> read_lifecycle_grant p gf' = read_lifecycle_grant p gf)))"
proof (cases "read_control_request r t rf")
  case None
  with assms(1) show ?thesis by (auto simp: approve_control_request_def)
next
  case (Some rec)
  show ?thesis
  proof (cases "standing_approval r t rec gf")
    case None
    let ?gen = "case read_lifecycle_grant r gf of None \<Rightarrow> 1 | Some e \<Rightarrow> generation e"
    let ?g = "issued_grant (control_grant_request r t rec) ?gen token issued"
    have gen: "1 \<le> ?gen"
      using read_lifecycle_grant_SomeD(2) [of r gf] by (auto simp: readable_grant_def split: option.split)
    have rd: "readable_grant ?g"
      using gen assms(2) [OF Some] assms(3-)
      by (simp add: readable_grant_def issued_grant_def control_grant_request_def)
    have again: "read_lifecycle_grant r (write_grant r ?g gf) = Some ?g"
      using rd by (simp add: read_write_grant) (simp add: issued_grant_def control_grant_request_def)
    then have stored: "control_stored (write_grant r ?g gf) t"
      unfolding control_stored_def
      by (intro exI conjI, assumption) (simp_all add: issued_grant_def control_grant_request_def)
    show ?thesis
      using assms(1) approve_fresh [OF Some None, of token issued now] Some None again stored
      by (cases "issue_refused (read_lifecycle_grant r gf) (cr_requester_identity_key rec)")
        (auto simp: Let_def read_write_grant, simp_all add: issued_grant_def)
  next
    case (Some g)
    with \<open>read_control_request r t rf = Some rec\<close> assms(1) show ?thesis
      by (auto simp: approve_control_request_def standing_approval_def split: if_splits)
  qed
qed

lemma demo_request_submitted:
  "read_control_request ''guest'' ''rig'' (snd (run_handshake [Submit_request (demo_request ''guest'') ''t0''] (None, None)))
     = Some \<lparr> cr_requester_machine_id = ''guest'', cr_requester_identity_key = ''k-guest'',
         cr_target_machine_id = ''rig'', cr_target_identity_key = ''k-rig'',
         cr_status = Request_pending, cr_requested_at = ''t0'', cr_resolved_at = None \<rparr>"
  by (simp add: demo_request_def handshake_defs)

theorem approval_grants_or_changes_nothing_witness:
  "control_stored (fst (snd (approve_control_request ''guest'' ''rig'' ''tok'' ''t1'' ''t2'' None
     (snd (run_handshake [Submit_request (demo_request ''guest'') ''t0''] (None, None)))))) ''rig''"
proof -
  let ?rf = "snd (run_handshake [Submit_request (demo_request ''guest'') ''t0''] (None, None))"
  obtain res gf' rf' where run: "approve_control_request ''guest'' ''rig'' ''tok'' ''t1'' ''t2'' None ?rf = (res, gf', rf')"
    by (metis prod.exhaust)
  have "standing_approval ''guest'' ''rig'' rec None = None" for rec
    by (simp add: standing_approval_def holds_control_def find_control_grant_by_target_def
        read_all_lifecycle_grants_def)
  with approval_grants_or_changes_nothing [OF run] show ?thesis
    unfolding run fst_conv snd_conv
    by (cases res) (auto simp: demo_request_submitted issue_refused_def holds_control_def
        find_control_grant_by_target_def read_all_lifecycle_grants_def simp del: run_handshake.simps
        split: if_splits)
qed

section \<open>Where the code departs from its comments\<close>

text \<open>A grant the operator enabled is keyed by this machine, so enabling control of a second peer
  takes control of the first one away.\<close>

definition demo_own_grant :: "string \<Rightarrow> lifecycle_grant" where
  "demo_own_grant m = issued_grant
     (self_control_request \<lparr> fi_machine_id = ''me'', fi_identity_key = ''k-me'' \<rparr>
       \<lparr> fi_machine_id = m, fi_identity_key = ''k-'' @ m \<rparr>) 1 (''tok-'' @ m) ''t''"

lemma demo_own_readable [simp]: "m \<noteq> [] \<Longrightarrow> readable_grant (demo_own_grant m)"
  by (simp add: demo_own_grant_def readable_grant_def issued_grant_def self_control_request_def)

lemma demo_enabled_eq:
  assumes "m \<in> {''rig'', ''bench''}" and "read_lifecycle_grant ''me'' gf \<in> {None, Some (demo_own_grant ''rig'')}"
  shows "demo_enabled m gf = write_grant ''me'' (demo_own_grant m) gf"
proof -
  have "may_enable m True demo_enable_deps" using assms(1) by (auto simp: may_enable_def demo_enable_deps_def)
  then have "demo_enabled m gf = snd (issue_lifecycle_grant
      (self_control_request (ed_self demo_enable_deps) (enable_target m demo_enable_deps)) (''tok-'' @ m) ''t'' gf)"
    by (simp add: demo_enabled_def enable_when_allowed split: prod.split)
  also have "\<dots> = write_grant ''me'' (demo_own_grant m) gf"
    using assms(2)
    by (auto simp: issue_lifecycle_grant_def issue_refused_def demo_enable_deps_def Let_def
        self_control_request_def demo_own_grant_def issued_grant_def)
  finally show ?thesis .
qed

lemma demo_own_read:
  "m \<noteq> [] \<Longrightarrow> read_lifecycle_grant p (write_grant ''me'' (demo_own_grant m) gf) =
     (if p = ''me'' then Some (demo_own_grant m) else read_lifecycle_grant p gf)"
  by (simp add: read_write_grant) (simp add: demo_own_grant_def issued_grant_def self_control_request_def)

theorem enabling_a_second_peer_drops_the_first:
  "control_stored (demo_enabled ''rig'' None) ''rig''
   \<and> \<not> control_stored (demo_enabled ''bench'' (demo_enabled ''rig'' None)) ''rig''"
proof -
  have one: "demo_enabled ''rig'' None = write_grant ''me'' (demo_own_grant ''rig'') None"
    by (simp add: demo_enabled_eq)
  have two: "demo_enabled ''bench'' (demo_enabled ''rig'' None) =
      write_grant ''me'' (demo_own_grant ''bench'') (write_grant ''me'' (demo_own_grant ''rig'') None)"
    unfolding one by (rule demo_enabled_eq) (simp_all add: demo_own_read)
  show ?thesis
    unfolding two unfolding one control_stored_def
    by (simp add: demo_own_read)
      (simp add: demo_own_grant_def issued_grant_def self_control_request_def)
qed

text \<open>A denied request can still be approved.\<close>

theorem denied_request_can_be_approved:
  "read_lifecycle_grant ''guest'' (fst (run_handshake
     [Submit_request (demo_request ''guest'') ''t0'', Deny_request ''guest'' ''rig'' ''t1'',
      Approve_request ''guest'' ''rig'' ''tok'' ''t2'' ''t3''] (None, None))) \<noteq> None"
  by (simp add: demo_request_def handshake_defs)

text \<open>The lookup behind an idempotent approval finds the first grant over the target only: with two
  requesters approved, approving the second again replaces the token it uses.\<close>

definition demo_two_approved :: "handshake_op list" where
  "demo_two_approved =
     [Submit_request (demo_request ''guest'') ''t0'', Approve_request ''guest'' ''rig'' ''tok-guest'' ''t1'' ''t1'',
      Submit_request (demo_request ''peer'') ''t0'', Approve_request ''peer'' ''rig'' ''tok-peer'' ''t1'' ''t1'']"

theorem approving_again_replaces_the_token:
  "validate_lifecycle_grant ''peer'' ''tok-peer'' 1 (fst (run_handshake demo_two_approved (None, None))) = Valid
   \<and> validate_lifecycle_grant ''peer'' ''tok-peer'' 1 (fst (run_handshake
       (demo_two_approved @ [Approve_request ''peer'' ''rig'' ''tok-new'' ''t2'' ''t2'']) (None, None)))
     = Wrong_token"
  by (simp add: demo_two_approved_def demo_request_def handshake_defs validate_lifecycle_grant_def
      collection_write_grant parse_grant_record del: parse_stored_grant.simps)

text \<open>The write plane reads active control grants only, so its denials never say that a grant was
  revoked or that its scope is insufficient.\<close>

theorem denials_never_name_a_revocation:
  assumes "store_ok gf" and "evaluate_remote_write_gate q (write_facts me gf up) = Write_denied reason"
  shows "reason = no_control_grant \<or> reason = transport_down"
  using assms(2) find_control_SomeD [OF assms(1)]
  by (auto simp: evaluate_remote_write_gate_def write_facts_def write_grant_reader_def grant_facts_def
      split: option.splits if_splits)

theorem denials_never_name_a_revocation_witness:
  "no_control_grant = no_control_grant \<or> no_control_grant = transport_down"
  by (rule denials_never_name_a_revocation [OF store_ok_None, of
      "\<lparr> owner_machine = ''rig'', write_action = [], write_path = [] \<rparr>" "''me''" "\<lambda>_. True"])
    (simp add: evaluate_remote_write_gate_def write_facts_def write_grant_reader_def
      find_control_grant_by_target_def read_all_lifecycle_grants_def)

end
