(* ===== verification/Access_Boundary.thy ===== *)
theory Access_Boundary
  imports Trust_Stores Owner_Routing
begin

text \<open>
  Who may reach this machine's service, under \<open>packages/extension/src/amicode_service/\<close>: the
  accept set with its staged phases and the readiness gate that guards the close
  (\<open>fleet_accept_set.ts\<close>), the public paths (\<open>public_ui.ts\<close>), the boundary check of the server
  (\<open>credential\<close>, \<open>authorized\<close>, \<open>acceptSetAuthorized\<close> in \<open>server.ts\<close>), the fleet peer provider
  (\<open>fleet_peer_provider.ts\<close>), and the rehydration of peer relationships after a reboot
  (\<open>fleet_headless_rehydration.ts\<close>). The stores are the files of \<open>Trust_Stores\<close> and
  \<open>Fleet_Grants\<close>, read afresh per request; decoding base64 is an argument. Comparing secrets in
  constant time is comparing them.
\<close>

section \<open>The phase of the accept set\<close>

datatype accept_set_phase = Additive | Closed

definition phase_of_file :: "keyed_file \<Rightarrow> accept_set_phase" where
  "phase_of_file f =
     (case f of
        Some (JObj d) \<Rightarrow> if map_of d ''phase'' = Some (JStr ''closed'') then Closed else Additive
      | _ \<Rightarrow> Additive)"

definition close_accept_set :: "keyed_file \<Rightarrow> keyed_file" where
  "close_accept_set f = Some (JObj [(''phase'', JStr ''closed'')])"

definition rollback_accept_set :: "keyed_file \<Rightarrow> keyed_file" where
  "rollback_accept_set f = Some (JObj [(''phase'', JStr ''additive'')])"

section \<open>The accept set\<close>

definition MINT_ENDPOINT_PATH :: string where
  "MINT_ENDPOINT_PATH = ''/amicode/fleet/peer-token''"

text \<open>What the boundary asks the accept set, answered at the time of one request.\<close>

record accept_set =
  as_phase :: accept_set_phase
  as_issued_tokens :: "string list"
  as_hub_credential_token :: "string option"
  as_is_mint_endpoint :: "string \<Rightarrow> string \<Rightarrow> bool"
  as_validate_nonce :: "string \<Rightarrow> bool"
  as_validate_bound_nonce :: "string \<Rightarrow> string \<Rightarrow> string \<Rightarrow> bool"
  as_self_machine_id :: "string option"

record accept_stores =
  bs_registry :: keyed_file
  bs_phase_file :: keyed_file
  bs_nonce_file :: keyed_file
  bs_hub_token :: "string option"
  bs_self :: "string option"

definition build_accept_set :: "accept_stores \<Rightarrow> int \<Rightarrow> accept_set" where
  "build_accept_set st now =
     \<lparr> as_phase = phase_of_file (bs_phase_file st),
       as_issued_tokens = read_issued_tokens (bs_registry st),
       as_hub_credential_token = bs_hub_token st,
       as_is_mint_endpoint = (\<lambda>m path. m = ''POST'' \<and> path = MINT_ENDPOINT_PATH),
       as_validate_nonce = (\<lambda>nonce. validate_enrollment_nonce nonce now (bs_nonce_file st)),
       as_validate_bound_nonce = (\<lambda>nonce target key.
         validate_bound_enrollment_nonce nonce \<lparr> nb_target = target, nb_identity_key = key \<rparr> now
           (bs_nonce_file st)),
       as_self_machine_id = bs_self st \<rparr>"

section \<open>The server's boundary\<close>

definition PUBLIC_UI_PATHS :: "string list" where
  "PUBLIC_UI_PATHS =
     [''/site.webmanifest'', ''/web-app-manifest-192x192.png'', ''/web-app-manifest-512x512.png'',
      ''/amicode/widget-frame'']"

definition PUBLIC_UI_PREFIX :: string where
  "PUBLIC_UI_PREFIX = ''/assets/''"

definition is_public_ui_path :: "string \<Rightarrow> string \<Rightarrow> bool" where
  "is_public_ui_path m path \<longleftrightarrow>
     m = ''GET'' \<and> (path \<in> set PUBLIC_UI_PATHS \<or> starts_with path PUBLIC_UI_PREFIX)"

text \<open>One request: its method and path, the query carriers of a credential and of a nonce, the
  authorization header (empty when absent) and the two bootstrap headers, as sent.\<close>

record boundary_request =
  br_method :: string
  br_path :: string
  br_auth_token :: "string option"
  br_authorization :: string
  br_nonce_header :: "string option"
  br_identity_header :: "string option"
  br_enrollment_nonce :: "string option"

record boundary_server =
  sv_password :: "string option"
  sv_engine_password :: "string option"
  sv_open :: bool
  sv_decode :: "string \<Rightarrow> string"

definition BASIC_PREFIX :: string where
  "BASIC_PREFIX = ''Basic ''"

definition request_credential :: "boundary_server \<Rightarrow> boundary_request \<Rightarrow> string option" where
  "request_credential sv req =
     (case br_auth_token req of
        Some token \<Rightarrow> if br_method req \<noteq> ''GET'' then None else Some (sv_decode sv token)
      | None \<Rightarrow>
          if \<not> starts_with (br_authorization req) BASIC_PREFIX then None
          else Some (sv_decode sv (js_trim (drop 6 (br_authorization req)))))"

definition opencode_secret :: "string \<Rightarrow> string" where
  "opencode_secret secret = ''opencode:'' @ secret"

definition matches_constant_time :: "string \<Rightarrow> string option list \<Rightarrow> bool" where
  "matches_constant_time given secrets =
     foldl (\<lambda>ok secret. case secret of
              None \<Rightarrow> ok
            | Some s \<Rightarrow> if given = opencode_secret s then True else ok) False secrets"

text \<open>\<open>headerValue\<close>: trimmed, absent when empty.\<close>

definition boundary_header :: "string option \<Rightarrow> string option" where
  "boundary_header h =
     (case h of None \<Rightarrow> None | Some v \<Rightarrow> if js_trim v = [] then None else Some (js_trim v))"

definition bound_nonce_presented :: "accept_set \<Rightarrow> boundary_request \<Rightarrow> bool" where
  "bound_nonce_presented acc req \<longleftrightarrow>
     (case (as_self_machine_id acc, boundary_header (br_nonce_header req),
            boundary_header (br_identity_header req)) of
        (Some target, Some nonce, Some key) \<Rightarrow> as_validate_bound_nonce acc nonce target key
      | _ \<Rightarrow> False)"

definition plain_nonce_presented :: "accept_set \<Rightarrow> boundary_request \<Rightarrow> bool" where
  "plain_nonce_presented acc req \<longleftrightarrow>
     (case br_enrollment_nonce req of None \<Rightarrow> False | Some nonce \<Rightarrow> as_validate_nonce acc nonce)"

definition given_matches :: "string option \<Rightarrow> string option list \<Rightarrow> bool" where
  "given_matches given secrets \<longleftrightarrow>
     (case given of None \<Rightarrow> False | Some g \<Rightarrow> matches_constant_time g secrets)"

definition accept_set_authorized :: "boundary_server \<Rightarrow> accept_set \<Rightarrow> boundary_request \<Rightarrow> bool" where
  "accept_set_authorized sv acc req =
     (let given = request_credential sv req
      in if given_matches given [sv_password sv, sv_engine_password sv] then True
         else if given_matches given (map Some (as_issued_tokens acc)) then True
         else if as_is_mint_endpoint acc (br_method req) (br_path req) \<and> bound_nonce_presented acc req
         then True
         else if as_is_mint_endpoint acc (br_method req) (br_path req) \<and> plain_nonce_presented acc req
         then True
         else if as_phase acc = Additive
         then given_matches given [as_hub_credential_token acc] \<or> sv_open sv
         else False)"

definition boundary_authorized ::
  "boundary_server \<Rightarrow> accept_set option \<Rightarrow> boundary_request \<Rightarrow> bool" where
  "boundary_authorized sv acc req =
     (if is_public_ui_path (br_method req) (br_path req) then True
      else (case acc of
              Some a \<Rightarrow> accept_set_authorized sv a req
            | None \<Rightarrow>
                if sv_open sv then True
                else given_matches (request_credential sv req) [sv_password sv, sv_engine_password sv]))"

section \<open>The outcome of a hop to a peer\<close>

datatype peer_hop_outcome = Hop_authorized | Hop_revoked | Hop_unreachable

definition classify_peer_outcome :: "int option \<Rightarrow> bool \<Rightarrow> peer_hop_outcome" where
  "classify_peer_outcome status transport_error =
     (if transport_error then Hop_unreachable
      else (case status of
              None \<Rightarrow> Hop_revoked
            | Some s \<Rightarrow> if s = 401 \<or> s = 403 then Hop_revoked
                        else if s \<ge> 200 \<and> s < 300 then Hop_authorized
                        else Hop_revoked))"

section \<open>The roster and the serving peers\<close>

datatype roster_health = Health_reachable | Health_degraded | Health_down
datatype identity_state = Identity_verified | Alias_conflict | Key_changed | Stale_alias

record roster_row =
  rr_machine_id :: string
  rr_name :: string
  rr_server_mode :: string
  rr_capabilities :: "string list"
  rr_ssh_alias :: string
  rr_transport :: string
  rr_last_report :: string
  rr_health :: roster_health
  rr_device_type :: "string option"
  rr_peer_origin :: "string option"
  rr_identity_key :: "string option"
  rr_identity_state :: "identity_state option"

record placement_descriptor =
  pd_machine_id :: string
  pd_serving :: bool
  pd_reachable :: bool
  pd_ssh_alias :: string
  pd_transport :: string

definition placement_descriptor_of :: "roster_row \<Rightarrow> placement_descriptor" where
  "placement_descriptor_of row =
     \<lparr> pd_machine_id = rr_machine_id row,
       pd_serving = ''serving'' \<in> set (rr_capabilities row),
       pd_reachable = rr_health row = Health_reachable,
       pd_ssh_alias = rr_ssh_alias row,
       pd_transport = rr_transport row \<rparr>"

definition identity_blocked :: "roster_row \<Rightarrow> bool" where
  "identity_blocked row \<longleftrightarrow>
     rr_identity_state row = Some Alias_conflict \<or> rr_identity_state row = Some Key_changed"

fun serving_reachable_peers :: "roster_row list \<Rightarrow> string list" where
  "serving_reachable_peers [] = []"
| "serving_reachable_peers (row # rows) =
     (let d = placement_descriptor_of row
      in if \<not> pd_serving d \<or> \<not> pd_reachable d then serving_reachable_peers rows
         else if identity_blocked row then serving_reachable_peers rows
         else js_trim (pd_machine_id d) # serving_reachable_peers rows)"

fun serving_but_blocked_peers :: "roster_row list \<Rightarrow> string option \<Rightarrow> string list" where
  "serving_but_blocked_peers [] self = []"
| "serving_but_blocked_peers (row # rows) self =
     (let d = placement_descriptor_of row; m = js_trim (pd_machine_id d)
      in if \<not> pd_serving d \<or> \<not> pd_reachable d then serving_but_blocked_peers rows self
         else if \<not> identity_blocked row then serving_but_blocked_peers rows self
         else if m = [] \<or> self = Some m then serving_but_blocked_peers rows self
         else m # serving_but_blocked_peers rows self)"

section \<open>The readiness gate\<close>

datatype readiness_blocker =
    Unresolvable_machine_id
  | Missing_issued_token string
  | Missing_peer_token string

fun blocks_machine :: "string \<Rightarrow> readiness_blocker \<Rightarrow> bool" where
  "blocks_machine m Unresolvable_machine_id \<longleftrightarrow> False"
| "blocks_machine m (Missing_issued_token p) \<longleftrightarrow> p = m"
| "blocks_machine m (Missing_peer_token p) \<longleftrightarrow> p = m"

text \<open>One turn of the loop over the serving peers, on the blockers and the resolved machines.\<close>

definition readiness_step ::
  "keyed_file \<Rightarrow> keyed_file \<Rightarrow> string option \<Rightarrow> readiness_blocker list \<times> string list \<Rightarrow> string
     \<Rightarrow> readiness_blocker list \<times> string list" where
  "readiness_step reg peers self acc m =
     (let (blockers, resolved) = acc
      in if m = [] then (blockers @ [Unresolvable_machine_id], resolved)
         else if self = Some m then (blockers, resolved)
         else
           let b1 = (if \<not> has_issued_token m reg then blockers @ [Missing_issued_token m] else blockers);
               b2 = (if \<not> has_peer_token m peers then b1 @ [Missing_peer_token m] else b1)
           in (b2, if \<not> list_ex (blocks_machine m) b2 then resolved @ [m] else resolved))"

definition evaluate_readiness ::
  "roster_row list \<Rightarrow> keyed_file \<Rightarrow> keyed_file \<Rightarrow> string option
     \<Rightarrow> readiness_blocker list + string list" where
  "evaluate_readiness rows reg peers self =
     (let (blockers, resolved) =
            foldl (readiness_step reg peers self) ([], []) (serving_reachable_peers rows)
      in if blockers \<noteq> [] then Inl blockers else Inr resolved)"

section \<open>The fleet peer provider\<close>

record peer_provider =
  pv_local_machine_id :: string
  pv_rows :: "roster_row list"
  pv_peer_store :: keyed_file

definition get_serving_peers :: "peer_provider \<Rightarrow> string list" where
  "get_serving_peers pv =
     filter (\<lambda>m. m \<noteq> [] \<and> m \<noteq> pv_local_machine_id pv) (serving_reachable_peers (pv_rows pv))"

definition get_blocked_peers :: "peer_provider \<Rightarrow> string list" where
  "get_blocked_peers pv = serving_but_blocked_peers (pv_rows pv) (Some (pv_local_machine_id pv))"

definition provider_read_token :: "peer_provider \<Rightarrow> string \<Rightarrow> peer_token_read_reason + peer_token" where
  "provider_read_token pv m = read_peer_token m (pv_peer_store pv)"

definition provider_roster_lookup :: "peer_provider \<Rightarrow> string \<Rightarrow> (string \<times> string option) option" where
  "provider_roster_lookup pv m =
     map_option (\<lambda>row. (rr_name row, rr_device_type row))
       (find (\<lambda>row. rr_machine_id row = m) (pv_rows pv))"

fun transport_of_read :: "peer_token_read_reason + peer_token \<Rightarrow> peer_transport" where
  "transport_of_read (Inr c) = \<lparr> peer_url = Some (pt_base_url c), peer_token = Some (pt_token c) \<rparr>"
| "transport_of_read (Inl r) = \<lparr> peer_url = None, peer_token = None \<rparr>"

definition fleet_peer_transports :: "peer_provider \<Rightarrow> peer_transport obj" where
  "fleet_peer_transports pv =
     foldl (\<lambda>out m. obj_set out m (transport_of_read (provider_read_token pv m))) []
       (get_serving_peers pv)"

section \<open>Rehydration after a reboot\<close>

datatype recovery_state =
    Recovery_active
  | Recovery_reconciling
  | Recovery_transport_failed
  | Recovery_identity_changed
  | Recovery_revoked
  | Recovery_suspended

record rehydrated_peer =
  rp_peer_id :: string
  rp_state :: recovery_state
  rp_scope :: grant_scope
  rp_generation :: int
  rp_observe_restored :: bool
  rp_control_suspended :: bool

definition recovered_as ::
  "lifecycle_grant \<Rightarrow> recovery_state \<Rightarrow> bool \<Rightarrow> bool \<Rightarrow> rehydrated_peer" where
  "recovered_as g st observe control_suspended =
     \<lparr> rp_peer_id = requester_machine_id g, rp_state = st, rp_scope = lg_scope g,
       rp_generation = generation g, rp_observe_restored = observe,
       rp_control_suspended = control_suspended \<rparr>"

definition rehydrate_grant :: "peer_provider \<Rightarrow> lifecycle_grant \<Rightarrow> rehydrated_peer" where
  "rehydrate_grant pv g =
     (let p = requester_machine_id g
      in if lg_state g = Grant_revoked \<or> lg_state g = Revocation_pending
         then recovered_as g Recovery_revoked False True
         else if p \<in> set (get_blocked_peers pv) then recovered_as g Recovery_identity_changed False True
         else if p \<notin> set (get_serving_peers pv)
         then recovered_as g Recovery_reconciling False (lg_scope g = Control)
         else if isl (provider_read_token pv p)
         then recovered_as g Recovery_transport_failed False (lg_scope g = Control)
         else if lg_scope g = Control then recovered_as g Recovery_suspended True True
         else recovered_as g Recovery_active True False)"

definition rehydrate_peer_relationships :: "keyed_file \<Rightarrow> peer_provider \<Rightarrow> rehydrated_peer list" where
  "rehydrate_peer_relationships gf pv = map (rehydrate_grant pv) (read_all_lifecycle_grants gf)"

definition generation_fence_allows :: "string \<Rightarrow> int \<Rightarrow> keyed_file \<Rightarrow> bool" where
  "generation_fence_allows peer gen gf =
     (case read_lifecycle_grant peer gf of
        None \<Rightarrow> True
      | Some g \<Rightarrow> if lg_state g = Grant_revoked \<or> lg_state g = Revocation_pending then False
                  else generation g = gen)"

end
