(* ===== verification/Trust_Properties.thy ===== *)
theory Trust_Properties
  imports Access_Boundary
begin

text \<open>
  What the trust stores and the boundary guarantee: a nonce is redeemed once (the locale
  \<open>one_shot\<close>, interpreted on the two kinds of nonce and on the two mint endpoints), a revoked
  machine stays out, a failed bootstrap leaves nothing behind, and a closed boundary admits its
  members only.
\<close>

section \<open>Credentials that are redeemed once\<close>

text \<open>Redemptions interleaved with other operations; the answers of the redemptions in order.\<close>

fun redeem_run ::
  "('q \<Rightarrow> 's \<Rightarrow> bool \<times> 's) \<Rightarrow> ('o \<Rightarrow> 's \<Rightarrow> 's) \<Rightarrow> ('q + 'o) list \<Rightarrow> 's \<Rightarrow> ('q \<times> bool) list" where
  "redeem_run redeem other [] s = []"
| "redeem_run redeem other (Inl q # es) s =
     (q, fst (redeem q s)) # redeem_run redeem other es (snd (redeem q s))"
| "redeem_run redeem other (Inr x # es) s = redeem_run redeem other es (other x s)"

locale one_shot =
  fixes redeem :: "'q \<Rightarrow> 's \<Rightarrow> bool \<times> 's"
    and other :: "'o \<Rightarrow> 's \<Rightarrow> 's"
    and credential :: "'q \<Rightarrow> string"
    and issues :: "'o \<Rightarrow> string \<Rightarrow> bool"
    and spent :: "string \<Rightarrow> 's \<Rightarrow> bool"
  assumes redeem_spends: "fst (redeem q s) \<Longrightarrow> spent (credential q) (snd (redeem q s))"
    and spent_refused: "spent (credential q) s \<Longrightarrow> \<not> fst (redeem q s)"
    and redeem_keeps: "spent n s \<Longrightarrow> spent n (snd (redeem q s))"
    and other_keeps: "spent n s \<Longrightarrow> \<not> issues x n \<Longrightarrow> spent n (other x s)"
begin

lemma none_after_spent:
  assumes "spent n s" and "\<And>x. Inr x \<in> set es \<Longrightarrow> \<not> issues x n"
    and "(q, True) \<in> set (redeem_run redeem other es s)"
  shows "credential q \<noteq> n"
  using assms
proof (induction es arbitrary: s)
  case (Cons e es)
  show ?case
  proof (cases e)
    case (Inl q')
    have later: "spent n (snd (redeem q' s))" using Cons.prems(1) by (rule redeem_keeps)
    from Cons.prems(3) consider "q = q'" "fst (redeem q s)"
      | "(q, True) \<in> set (redeem_run redeem other es (snd (redeem q' s)))"
      by (auto simp: Inl)
    then show ?thesis
    proof cases
      case 1
      with spent_refused Cons.prems(1) show ?thesis by blast
    next
      case 2
      with Cons.IH [OF later] Cons.prems(2) show ?thesis by simp
    qed
  next
    case (Inr x)
    have "spent n (other x s)" using Cons.prems(1,2) by (intro other_keeps) (auto simp: Inr)
    from Cons.IH [OF this] Cons.prems(2,3) show ?thesis by (simp add: Inr)
  qed
qed simp

lemma at_most_one:
  assumes "\<And>x. Inr x \<in> set es \<Longrightarrow> \<not> issues x n"
  shows "length (filter (\<lambda>(q, ok). ok \<and> credential q = n) (redeem_run redeem other es s)) \<le> 1"
  using assms
proof (induction es arbitrary: s)
  case (Cons e es)
  show ?case
  proof (cases e)
    case (Inl q)
    show ?thesis
    proof (cases "fst (redeem q s) \<and> credential q = n")
      case True
      then have "spent n (snd (redeem q s))" using redeem_spends by blast
      then have no: "(q', True) \<in> set (redeem_run redeem other es (snd (redeem q s))) \<Longrightarrow>
          credential q' \<noteq> n" for q'
        by (rule none_after_spent) (use Cons.prems in auto)
      then have "filter (\<lambda>(q, ok). ok \<and> credential q = n)
          (redeem_run redeem other es (snd (redeem q s))) = []"
        by (auto simp: filter_empty_conv dest!: no)
      then show ?thesis by (simp add: Inl)
    next
      case False
      then show ?thesis using Cons by (auto simp: Inl)
    qed
  next
    case (Inr x)
    then show ?thesis using Cons by simp
  qed
qed simp

end

section \<open>Nonces\<close>

lemma nonce_collections [simp]:
  "NONCES \<noteq> store_version_key" "BOUND_NONCES \<noteq> store_version_key" "NONCES \<noteq> BOUND_NONCES"
  "BOUND_NONCES \<noteq> NONCES"
  by (simp_all add: NONCES_def BOUND_NONCES_def store_version_key_def)

lemma read_write_nonce [simp]:
  "read_nonce n (write_nonce n' t u f) =
     (if n = n' then Some \<lparr> expires_at = t, nonce_used = u \<rparr> else read_nonce n f)"
  "read_nonce n (write_bound_nonce n' t u b f) = read_nonce n f"
  "read_bound_nonce n (write_nonce n' t u f) = read_bound_nonce n f"
  by (simp_all add: read_nonce_def read_bound_nonce_def write_nonce_def write_bound_nonce_def
      file_store.entry_upsert flag_field_def)

lemma read_write_bound_nonce [simp]:
  "read_bound_nonce n (write_bound_nonce n' t u b f) =
     (if n = n'
      then (if nb_target b = [] \<or> nb_identity_key b = [] then None
            else Some \<lparr> expires_at = t, nonce_used = u, bn_binding = b \<rparr>)
      else read_bound_nonce n f)"
  by (simp add: read_bound_nonce_def write_bound_nonce_def file_store.entry_upsert flag_field_def
      str_field_def)

lemma read_bound_nonce_binding:
  "read_bound_nonce n f = Some rec \<Longrightarrow> nb_target (bn_binding rec) \<noteq> [] \<and> nb_identity_key (bn_binding rec) \<noteq> []"
  unfolding read_bound_nonce_def
  by (cases "keyed_entry f BOUND_NONCES n" rule: parse_bound_nonce.cases)
    (auto split: option.splits json.splits if_splits)

definition nonce_spent :: "string \<Rightarrow> keyed_file \<Rightarrow> bool" where
  "nonce_spent n f \<longleftrightarrow> (case read_nonce n f of None \<Rightarrow> False | Some rec \<Rightarrow> nonce_used rec)"

definition bound_nonce_spent :: "string \<Rightarrow> keyed_file \<Rightarrow> bool" where
  "bound_nonce_spent n f \<longleftrightarrow> (case read_bound_nonce n f of None \<Rightarrow> False | Some rec \<Rightarrow> nonce_used rec)"

text \<open>Minting of either kind of nonce.\<close>

datatype nonce_mint =
    Mint_nonce string int "int option"
  | Mint_bound_nonce nonce_binding string int "int option"

fun apply_nonce_mint :: "nonce_mint \<Rightarrow> keyed_file \<Rightarrow> keyed_file" where
  "apply_nonce_mint (Mint_nonce n now ttl) f = mint_enrollment_nonce n now ttl f"
| "apply_nonce_mint (Mint_bound_nonce b n now ttl) f = mint_bound_enrollment_nonce b n now ttl f"

fun minted_nonce :: "nonce_mint \<Rightarrow> string" where
  "minted_nonce (Mint_nonce n now ttl) = n"
| "minted_nonce (Mint_bound_nonce b n now ttl) = n"

lemma consume_spends:
  "fst (consume_enrollment_nonce n now f) \<Longrightarrow> nonce_spent n (snd (consume_enrollment_nonce n now f))"
  "fst (consume_bound_enrollment_nonce n b now f) \<Longrightarrow>
     bound_nonce_spent n (snd (consume_bound_enrollment_nonce n b now f))"
  by (auto simp: consume_enrollment_nonce_def consume_bound_enrollment_nonce_def nonce_spent_def
      bound_nonce_spent_def split: option.splits if_splits dest: read_bound_nonce_binding)

lemma spent_not_consumed:
  "nonce_spent n f \<Longrightarrow> consume_enrollment_nonce n now f = (False, f)"
  "bound_nonce_spent n f \<Longrightarrow> consume_bound_enrollment_nonce n b now f = (False, f)"
  by (auto simp: consume_enrollment_nonce_def validate_enrollment_nonce_def nonce_spent_def
      consume_bound_enrollment_nonce_def bound_nonce_spent_def split: option.splits)

lemma consume_keeps_spent:
  "nonce_spent m f \<Longrightarrow> nonce_spent m (snd (consume_enrollment_nonce n now f))"
  "bound_nonce_spent m f \<Longrightarrow> bound_nonce_spent m (snd (consume_bound_enrollment_nonce n b now f))"
  "nonce_spent m f \<Longrightarrow> nonce_spent m (snd (consume_bound_enrollment_nonce n b now f))"
  "bound_nonce_spent m f \<Longrightarrow> bound_nonce_spent m (snd (consume_enrollment_nonce n now f))"
  by (auto simp: consume_enrollment_nonce_def consume_bound_enrollment_nonce_def nonce_spent_def
      bound_nonce_spent_def split: option.splits dest: read_bound_nonce_binding)

lemma mint_keeps_spent:
  "nonce_spent m f \<Longrightarrow> minted_nonce x \<noteq> m \<Longrightarrow> nonce_spent m (apply_nonce_mint x f)"
  "bound_nonce_spent m f \<Longrightarrow> minted_nonce x \<noteq> m \<Longrightarrow> bound_nonce_spent m (apply_nonce_mint x f)"
  by (cases x; simp add: mint_enrollment_nonce_def mint_bound_enrollment_nonce_def nonce_spent_def
      bound_nonce_spent_def)+

interpretation plain_nonces: one_shot
  "\<lambda>q. consume_enrollment_nonce (fst q) (snd q)" apply_nonce_mint fst "\<lambda>x n. minted_nonce x = n" nonce_spent
  by unfold_locales (simp_all add: consume_spends spent_not_consumed consume_keeps_spent mint_keeps_spent)

interpretation bound_nonces: one_shot
  "\<lambda>q. consume_bound_enrollment_nonce (fst q) (fst (snd q)) (snd (snd q))" apply_nonce_mint fst
  "\<lambda>x n. minted_nonce x = n" bound_nonce_spent
  by unfold_locales (simp_all add: consume_spends spent_not_consumed consume_keeps_spent mint_keeps_spent)

section \<open>The issued registry\<close>

lemma registry_collections [simp]:
  "ISSUED \<noteq> store_version_key" "REVOKED \<noteq> store_version_key" "ISSUED \<noteq> REVOKED" "REVOKED \<noteq> ISSUED"
  by (simp_all add: ISSUED_def REVOKED_def store_version_key_def)

lemma barred_after [simp]:
  "is_mint_barred p (snd (mint_peer_token m token scp now f)) = is_mint_barred p f"
  "is_mint_barred p (revoke_peer_token m now f) = (p = m \<or> is_mint_barred p f)"
  "is_mint_barred p (delete_issued_token m f) = is_mint_barred p f"
  by (simp_all add: is_mint_barred_def mint_peer_token_def revoke_peer_token_def delete_issued_token_def
      file_store.entry_upsert file_store.entry_delete)

lemma is_mint_barred_None [simp]: "\<not> is_mint_barred m None"
  by (simp add: is_mint_barred_def read_keyed_collection_def read_doc_def collection_of_def)

lemma mint_result: "fst (mint_peer_token m token scp now f) = (if is_mint_barred m f then None else Some token)"
  by (simp add: mint_peer_token_def)

lemma issued_after [simp]:
  "issued_token_for p (snd (mint_peer_token m token scp now f)) =
     (if p = m \<and> \<not> is_mint_barred m f then (if token = [] then None else Some token)
      else issued_token_for p f)"
  "issued_token_for p (revoke_peer_token m now f) = (if p = m then None else issued_token_for p f)"
  "issued_token_for p (delete_issued_token m f) = (if p = m then None else issued_token_for p f)"
  by (auto simp: issued_token_for_def mint_peer_token_def revoke_peer_token_def delete_issued_token_def
      file_store.entry_upsert file_store.entry_delete opt_str_field_def str_field_def)

definition registry_ok :: "keyed_file \<Rightarrow> bool" where
  "registry_ok f \<longleftrightarrow> obj_wf (read_keyed_collection f ISSUED)"

lemma collection_after_upsert:
  "coll \<noteq> store_version_key \<Longrightarrow> coll' \<noteq> store_version_key \<Longrightarrow>
   read_keyed_collection (upsert_keyed_entry coll i v version f) coll' =
     (if coll' = coll then obj_set (read_keyed_collection f coll) i v else read_keyed_collection f coll')"
  by (simp add: upsert_keyed_entry_def read_keyed_collection_def Let_def)

lemma collection_after_delete:
  "coll \<noteq> store_version_key \<Longrightarrow> coll' \<noteq> store_version_key \<Longrightarrow>
   read_keyed_collection (delete_keyed_entry coll i version f) coll' =
     (if coll' = coll \<and> obj_has (read_keyed_collection f coll) i
      then obj_del (read_keyed_collection f coll) i else read_keyed_collection f coll')"
  by (simp add: delete_keyed_entry_def read_keyed_collection_def Let_def)

lemma registry_ok_after [simp, intro]:
  "registry_ok f \<Longrightarrow> registry_ok (snd (mint_peer_token m token scp now f))"
  "registry_ok f \<Longrightarrow> registry_ok (revoke_peer_token m now f)"
  "registry_ok f \<Longrightarrow> registry_ok (delete_issued_token m f)"
  by (auto simp: registry_ok_def mint_peer_token_def revoke_peer_token_def delete_issued_token_def
      collection_after_upsert collection_after_delete)

lemma registry_ok_None [simp]: "registry_ok None"
  by (simp add: registry_ok_def read_keyed_collection_def read_doc_def collection_of_def)

lemma issued_tokens_iff:
  assumes "registry_ok f"
  shows "t \<in> set (read_issued_tokens f) \<longleftrightarrow> (\<exists>m. issued_token_for m f = Some t)"
proof -
  let ?c = "read_keyed_collection f ISSUED"
  have wf: "distinct (map fst ?c)" using assms by (simp add: registry_ok_def obj_wf_def)
  have split: "entry_token e = Some t \<longleftrightarrow> (\<exists>v. e = Some v \<and> entry_token (Some v) = Some t)" for e
    by (cases e) auto
  have "t \<in> set (read_issued_tokens f) \<longleftrightarrow> (\<exists>m v. (m, v) \<in> set ?c \<and> entry_token (Some v) = Some t)"
    by (simp add: read_issued_tokens_def set_map_filter Bex_def del: entry_token.simps)
  also have "\<dots> \<longleftrightarrow> (\<exists>m v. map_of ?c m = Some v \<and> entry_token (Some v) = Some t)"
    using wf by (simp del: entry_token.simps)
  also have "\<dots> \<longleftrightarrow> (\<exists>m. issued_token_for m f = Some t)"
    unfolding issued_token_for_def by (simp only: split [of "map_of ?c _"])
  finally show ?thesis .
qed

text \<open>Everything that writes the registry.\<close>

datatype registry_op =
    Registry_mint string string "string option" string
  | Registry_revoke string string
  | Registry_delete string

fun apply_registry_op :: "registry_op \<Rightarrow> keyed_file \<Rightarrow> keyed_file" where
  "apply_registry_op (Registry_mint m token scp now) f = snd (mint_peer_token m token scp now f)"
| "apply_registry_op (Registry_revoke m now) f = revoke_peer_token m now f"
| "apply_registry_op (Registry_delete m) f = delete_issued_token m f"

definition run_registry :: "registry_op list \<Rightarrow> keyed_file \<Rightarrow> keyed_file" where
  "run_registry ops f = foldl (\<lambda>f op. apply_registry_op op f) f ops"

lemma run_registry_simps [simp]:
  "run_registry [] f = f"
  "run_registry (op # ops) f = run_registry ops (apply_registry_op op f)"
  by (simp_all add: run_registry_def)

fun minted_token :: "registry_op \<Rightarrow> string option" where
  "minted_token (Registry_mint m token scp now) = Some token"
| "minted_token _ = None"

lemma run_registry_ok: "registry_ok f \<Longrightarrow> registry_ok (run_registry ops f)"
proof (induction ops arbitrary: f)
  case (Cons op ops)
  then show ?case by (cases op) auto
qed simp

lemma barred_forever:
  "is_mint_barred m f \<Longrightarrow> issued_token_for m f = None \<Longrightarrow>
   is_mint_barred m (run_registry ops f) \<and> issued_token_for m (run_registry ops f) = None"
proof (induction ops arbitrary: f)
  case (Cons op ops)
  have "is_mint_barred m (apply_registry_op op f)" "issued_token_for m (apply_registry_op op f) = None"
    by (cases op; use Cons.prems in auto)+
  from Cons.IH [OF this] show ?case by simp
qed simp

lemma fresh_token_stays_out:
  "(\<And>p. issued_token_for p f \<noteq> Some t) \<Longrightarrow> (\<And>op. op \<in> set ops \<Longrightarrow> minted_token op \<noteq> Some t) \<Longrightarrow>
   issued_token_for p (run_registry ops f) \<noteq> Some t"
proof (induction ops arbitrary: f)
  case (Cons op ops)
  have "minted_token op \<noteq> Some t" using Cons.prems(2) by simp
  then have "issued_token_for p (apply_registry_op op f) \<noteq> Some t" for p
    using Cons.prems(1) by (cases op) auto
  from Cons.IH [OF this] Cons.prems(2) show ?case by simp
qed simp

section \<open>The boundary\<close>

lemma matches_constant_time_iff:
  "matches_constant_time given secrets \<longleftrightarrow> (\<exists>s. Some s \<in> set secrets \<and> given = opencode_secret s)"
proof -
  have "foldl (\<lambda>ok secret. case secret of None \<Rightarrow> ok
            | Some s \<Rightarrow> if given = opencode_secret s then True else ok) b secrets
      \<longleftrightarrow> b \<or> (\<exists>s. Some s \<in> set secrets \<and> given = opencode_secret s)" for b
    by (induction secrets arbitrary: b) (auto split: option.splits)
  then show ?thesis by (simp add: matches_constant_time_def)
qed

lemma opencode_secret_inject [simp]: "opencode_secret s = opencode_secret t \<longleftrightarrow> s = t"
  by (simp add: opencode_secret_def)

lemma given_matches_iff:
  "given_matches given secrets \<longleftrightarrow> (\<exists>s. Some s \<in> set secrets \<and> given = Some (opencode_secret s))"
  by (auto simp: given_matches_def matches_constant_time_iff split: option.splits)

text \<open>A redeemable nonce is presented to the mint endpoint.\<close>

definition nonce_admits :: "accept_stores \<Rightarrow> int \<Rightarrow> boundary_request \<Rightarrow> bool" where
  "nonce_admits st now req \<longleftrightarrow>
     br_method req = ''POST'' \<and> br_path req = MINT_ENDPOINT_PATH \<and>
     (bound_nonce_presented (build_accept_set st now) req
      \<or> plain_nonce_presented (build_accept_set st now) req)"

definition presents :: "boundary_server \<Rightarrow> boundary_request \<Rightarrow> string \<Rightarrow> bool" where
  "presents sv req secret \<longleftrightarrow> request_credential sv req = Some (opencode_secret secret)"

lemma boundary_iff:
  assumes "registry_ok (bs_registry st)"
  shows "boundary_authorized sv (Some (build_accept_set st now)) req \<longleftrightarrow>
     is_public_ui_path (br_method req) (br_path req)
   \<or> (\<exists>s. presents sv req s \<and> (sv_password sv = Some s \<or> sv_engine_password sv = Some s
        \<or> (\<exists>m. issued_token_for m (bs_registry st) = Some s)))
   \<or> nonce_admits st now req
   \<or> phase_of_file (bs_phase_file st) = Additive \<and>
       ((\<exists>s. presents sv req s \<and> bs_hub_token st = Some s) \<or> sv_open sv)"
proof -
  have local: "given_matches (request_credential sv req) [sv_password sv, sv_engine_password sv] \<longleftrightarrow>
      (\<exists>s. presents sv req s \<and> (sv_password sv = Some s \<or> sv_engine_password sv = Some s))"
    by (auto simp: given_matches_iff presents_def)
  have issued: "given_matches (request_credential sv req) (map Some (read_issued_tokens (bs_registry st))) \<longleftrightarrow>
      (\<exists>s. presents sv req s \<and> (\<exists>m. issued_token_for m (bs_registry st) = Some s))"
    using issued_tokens_iff [OF assms] by (auto simp: given_matches_iff presents_def)
  have hub: "given_matches (request_credential sv req) [bs_hub_token st] \<longleftrightarrow>
      (\<exists>s. presents sv req s \<and> bs_hub_token st = Some s)"
    by (auto simp: given_matches_iff presents_def)
  have sel: "as_issued_tokens (build_accept_set st now) = read_issued_tokens (bs_registry st)"
    "as_is_mint_endpoint (build_accept_set st now) m path \<longleftrightarrow> m = ''POST'' \<and> path = MINT_ENDPOINT_PATH"
    "as_phase (build_accept_set st now) = phase_of_file (bs_phase_file st)"
    "as_hub_credential_token (build_accept_set st now) = bs_hub_token st" for m path
    by (simp_all add: build_accept_set_def)
  show ?thesis
    by (auto simp: boundary_authorized_def accept_set_authorized_def Let_def local issued hub sel
        nonce_admits_def)
qed

section \<open>The mint endpoints redeem once\<close>

record mint_request =
  mq_machine :: "string option"
  mq_nonce :: "string option"
  mq_identity :: "string option"
  mq_scope :: "string option"
  mq_now :: int
  mq_token :: string
  mq_issued :: string

fun token_handed_out :: "mint_response \<Rightarrow> bool" where
  "token_handed_out (Mint_created m t) \<longleftrightarrow> True"
| "token_handed_out _ \<longleftrightarrow> False"

text \<open>A request to the bound endpoint of a machine, and one to the plain endpoint: whether a token
  was handed out, and the nonce store and registry.\<close>

definition bound_mint ::
  "string option \<Rightarrow> mint_request \<Rightarrow> keyed_file \<times> keyed_file \<Rightarrow> bool \<times> keyed_file \<times> keyed_file" where
  "bound_mint self q s =
     (let (r, s') = bound_peer_token_mint_handler (mq_machine q) self (mq_nonce q) (mq_identity q)
                      (mq_scope q) (mq_now q) (mq_token q) (mq_issued q) (fst s) (snd s)
      in (token_handed_out r, s'))"

definition plain_mint ::
  "mint_request \<Rightarrow> keyed_file \<times> keyed_file \<Rightarrow> bool \<times> keyed_file \<times> keyed_file" where
  "plain_mint q s =
     (let (r, s') = peer_token_mint_handler (mq_machine q) (mq_nonce q) (mq_scope q) (mq_now q)
                      (mq_token q) (mq_issued q) (fst s) (snd s)
      in (token_handed_out r, s'))"

text \<open>What else happens to the two stores: nonces are minted, the other endpoint is called, the
  registry is written.\<close>

datatype trust_op =
    Trust_nonce nonce_mint
  | Trust_plain_mint mint_request
  | Trust_bound_mint "string option" mint_request
  | Trust_registry registry_op

fun apply_trust_op :: "trust_op \<Rightarrow> keyed_file \<times> keyed_file \<Rightarrow> keyed_file \<times> keyed_file" where
  "apply_trust_op (Trust_nonce x) s = (apply_nonce_mint x (fst s), snd s)"
| "apply_trust_op (Trust_plain_mint q) s = snd (plain_mint q s)"
| "apply_trust_op (Trust_bound_mint self q) s = snd (bound_mint self q s)"
| "apply_trust_op (Trust_registry x) s = (fst s, apply_registry_op x (snd s))"

fun trust_op_mints :: "trust_op \<Rightarrow> string \<Rightarrow> bool" where
  "trust_op_mints (Trust_nonce x) n \<longleftrightarrow> minted_nonce x = n"
| "trust_op_mints _ n \<longleftrightarrow> False"

abbreviation presented_binding :: "string option \<Rightarrow> mint_request \<Rightarrow> nonce_binding" where
  "presented_binding self q \<equiv>
     \<lparr> nb_target = trimmed_or_empty self, nb_identity_key = trimmed_or_empty (mq_identity q) \<rparr>"

lemma bound_mint_nonces:
  "fst (snd (bound_mint self q s)) = fst s
   \<or> fst (snd (bound_mint self q s)) =
        snd (consume_bound_enrollment_nonce (trimmed_or_empty (mq_nonce q)) (presented_binding self q)
          (mq_now q) (fst s))"
  by (auto simp: bound_mint_def bound_peer_token_mint_handler_def Let_def split: prod.splits)

lemma bound_mint_success:
  "fst (bound_mint self q s) \<Longrightarrow>
     fst (consume_bound_enrollment_nonce (trimmed_or_empty (mq_nonce q)) (presented_binding self q)
       (mq_now q) (fst s))
     \<and> fst (snd (bound_mint self q s)) =
        snd (consume_bound_enrollment_nonce (trimmed_or_empty (mq_nonce q)) (presented_binding self q)
          (mq_now q) (fst s))"
  by (auto simp: bound_mint_def bound_peer_token_mint_handler_def Let_def split: prod.splits if_splits)

lemma plain_mint_nonces:
  "fst (snd (plain_mint q s)) = fst s
   \<or> fst (snd (plain_mint q s)) = snd (consume_enrollment_nonce (or_else (mq_nonce q) []) (mq_now q) (fst s))"
  by (auto simp: plain_mint_def peer_token_mint_handler_def Let_def split: prod.splits)

lemma plain_mint_success:
  "fst (plain_mint q s) \<Longrightarrow>
     fst (consume_enrollment_nonce (or_else (mq_nonce q) []) (mq_now q) (fst s))
     \<and> fst (snd (plain_mint q s)) = snd (consume_enrollment_nonce (or_else (mq_nonce q) []) (mq_now q) (fst s))"
  by (auto simp: plain_mint_def peer_token_mint_handler_def Let_def split: prod.splits if_splits)

lemma mints_keep_spent:
  "bound_nonce_spent n (fst s) \<Longrightarrow> bound_nonce_spent n (fst (snd (bound_mint self q s)))"
  "bound_nonce_spent n (fst s) \<Longrightarrow> bound_nonce_spent n (fst (snd (plain_mint q s)))"
  "nonce_spent n (fst s) \<Longrightarrow> nonce_spent n (fst (snd (bound_mint self q s)))"
  "nonce_spent n (fst s) \<Longrightarrow> nonce_spent n (fst (snd (plain_mint q s)))"
  using bound_mint_nonces [of self q s] plain_mint_nonces [of q s] by (auto simp: consume_keeps_spent)

lemma trust_op_keeps_spent:
  "bound_nonce_spent n (fst s) \<Longrightarrow> \<not> trust_op_mints x n \<Longrightarrow> bound_nonce_spent n (fst (apply_trust_op x s))"
  "nonce_spent n (fst s) \<Longrightarrow> \<not> trust_op_mints x n \<Longrightarrow> nonce_spent n (fst (apply_trust_op x s))"
  by (cases x; simp add: mints_keep_spent mint_keeps_spent)+

interpretation bound_endpoint: one_shot "bound_mint self" apply_trust_op
  "\<lambda>q. trimmed_or_empty (mq_nonce q)" trust_op_mints "\<lambda>n s. bound_nonce_spent n (fst s)" for self
proof unfold_locales
  fix q :: mint_request and s :: "keyed_file \<times> keyed_file" assume "fst (bound_mint self q s)"
  then show "bound_nonce_spent (trimmed_or_empty (mq_nonce q)) (fst (snd (bound_mint self q s)))"
    using bound_mint_success [of self q s] consume_spends(2) by auto
next
  fix q :: mint_request and s :: "keyed_file \<times> keyed_file" assume "bound_nonce_spent (trimmed_or_empty (mq_nonce q)) (fst s)"
  then show "\<not> fst (bound_mint self q s)"
    using bound_mint_success [of self q s] by (auto simp: spent_not_consumed)
qed (simp_all add: mints_keep_spent trust_op_keeps_spent)

interpretation plain_endpoint: one_shot plain_mint apply_trust_op
  "\<lambda>q. or_else (mq_nonce q) []" trust_op_mints "\<lambda>n s. nonce_spent n (fst s)"
proof unfold_locales
  fix q :: mint_request and s :: "keyed_file \<times> keyed_file" assume "fst (plain_mint q s)"
  then show "nonce_spent (or_else (mq_nonce q) []) (fst (snd (plain_mint q s)))"
    using plain_mint_success [of q s] consume_spends(1) by auto
next
  fix q :: mint_request and s :: "keyed_file \<times> keyed_file" assume "nonce_spent (or_else (mq_nonce q) []) (fst s)"
  then show "\<not> fst (plain_mint q s)"
    using plain_mint_success [of q s] by (auto simp: spent_not_consumed)
qed (simp_all add: mints_keep_spent trust_op_keeps_spent)

section \<open>Properties\<close>

text \<open>A bootstrap nonce hands out at most one token: over any run of requests to the bound mint
  endpoint, between which nonces are minted, the plain endpoint is called and the registry is
  written, at most one request with a given nonce is answered with a token, provided the nonce is
  not minted again; the same holds for the plain endpoint.\<close>

theorem one_token_per_nonce:
  assumes "\<And>x. Inr x \<in> set es \<Longrightarrow> \<not> trust_op_mints x n" and "\<And>x. Inr x \<in> set fs \<Longrightarrow> \<not> trust_op_mints x n"
  shows "length (filter (\<lambda>(q, ok). ok \<and> trimmed_or_empty (mq_nonce q) = n)
        (redeem_run (bound_mint self) apply_trust_op es s)) \<le> 1
    \<and> length (filter (\<lambda>(q, ok). ok \<and> or_else (mq_nonce q) [] = n)
        (redeem_run plain_mint apply_trust_op fs s)) \<le> 1"
  using bound_endpoint.at_most_one [OF assms(1)] plain_endpoint.at_most_one [OF assms(2)] by blast

definition demo_mint_request :: "string \<Rightarrow> mint_request" where
  "demo_mint_request token =
     \<lparr> mq_machine = Some ''laptop'', mq_nonce = Some ''n1'', mq_identity = Some ''k-laptop'',
       mq_scope = None, mq_now = 10, mq_token = token, mq_issued = ''t'' \<rparr>"

definition demo_nonce_store :: keyed_file where
  "demo_nonce_store = mint_bound_enrollment_nonce
     \<lparr> nb_target = ''rig'', nb_identity_key = ''k-laptop'' \<rparr> ''n1'' 0 None None"

lemma demo_trim: "js_trim ''laptop'' = ''laptop''" "js_trim ''n1'' = ''n1''" "js_trim ''k-laptop'' = ''k-laptop''"
  "js_trim ''rig'' = ''rig''"
  by (simp_all add: js_trim_def js_space_def)

theorem one_token_per_nonce_witness:
  "map snd (redeem_run (bound_mint (Some ''rig'')) apply_trust_op
     [Inl (demo_mint_request ''t1''), Inl (demo_mint_request ''t2'')] (demo_nonce_store, None)) = [True, False]"
proof -
  have first: "fst (bound_mint (Some ''rig'') (demo_mint_request ''t1'') (demo_nonce_store, None))"
    by (simp add: bound_mint_def bound_peer_token_mint_handler_def demo_mint_request_def Let_def
        trimmed_or_empty_def demo_trim consume_bound_enrollment_nonce_def demo_nonce_store_def
        mint_bound_enrollment_nonce_def ENROLLMENT_NONCE_DEFAULT_TTL_MS_def finish_mint_def
        mint_peer_token_def is_mint_barred_def read_keyed_collection_def read_doc_def collection_of_def)
  have "trimmed_or_empty (mq_nonce (demo_mint_request t)) = ''n1''" for t
    by (simp add: demo_mint_request_def trimmed_or_empty_def demo_trim)
  with first one_token_per_nonce [of "[Inl (demo_mint_request ''t1''), Inl (demo_mint_request ''t2'')]" "''n1''"
      "[]" "Some ''rig''" "(demo_nonce_store, None)"]
  show ?thesis by (auto split: if_splits)
qed

text \<open>The nonce binds the target and the identity, not the machine named in the request: a nonce
  issued for one identity replaces the token of any other machine that is not barred.\<close>

theorem bound_nonce_mints_for_any_machine:
  "fst (bound_peer_token_mint_handler (Some ''bench'') (Some ''rig'') (Some ''n1'') (Some ''k-laptop'') None
     10 ''t2'' ''t'' demo_nonce_store (snd (mint_peer_token ''bench'' ''t1'' None ''t'' None)))
   = Mint_created ''bench'' ''t2''"
  by (simp add: bound_peer_token_mint_handler_def Let_def trimmed_or_empty_def js_trim_def js_space_def
      consume_bound_enrollment_nonce_def demo_nonce_store_def mint_bound_enrollment_nonce_def
      ENROLLMENT_NONCE_DEFAULT_TTL_MS_def finish_mint_def case_prod_beta mint_result
      split: option.split)

text \<open>C22: A revoked machine stays out: it is barred for good, whatever the registry does afterwards
  mints nothing for it, and it has no issued token again. A request that presents the token it
  had, which no other machine holds and no later mint repeats, is refused by a closed boundary,
  unless the token is one of this machine's own secrets, the path is public, or a redeemable
  nonce comes with it.\<close>

theorem revoked_machine_stays_out:
  assumes "registry_ok reg" and "\<And>p. p \<noteq> m \<Longrightarrow> issued_token_for p reg \<noteq> Some t"
    and "\<And>op. op \<in> set ops \<Longrightarrow> minted_token op \<noteq> Some t"
    and "bs_registry st = run_registry ops (revoke_peer_token m now reg)"
    and "phase_of_file (bs_phase_file st) = Closed"
    and "presents sv req t" and "sv_password sv \<noteq> Some t" and "sv_engine_password sv \<noteq> Some t"
    and "\<not> is_public_ui_path (br_method req) (br_path req)" and "\<not> nonce_admits st at req"
  shows "is_mint_barred m (bs_registry st) \<and> issued_token_for m (bs_registry st) = None
    \<and> fst (mint_peer_token m t' scp now' (bs_registry st)) = None
    \<and> \<not> boundary_authorized sv (Some (build_accept_set st at)) req"
proof -
  let ?r = "revoke_peer_token m now reg"
  have bar: "is_mint_barred m (bs_registry st) \<and> issued_token_for m (bs_registry st) = None"
    unfolding assms(4) by (rule barred_forever) simp_all
  have "issued_token_for p ?r \<noteq> Some t" for p using assms(2) by simp
  then have out: "issued_token_for p (bs_registry st) \<noteq> Some t" for p
    unfolding assms(4) using assms(3) by (rule fresh_token_stays_out)
  have "registry_ok (bs_registry st)" unfolding assms(4) using assms(1) by (intro run_registry_ok) auto
  note iff = boundary_iff [OF this, of sv at req]
  have unique: "presents sv req s \<Longrightarrow> s = t" for s using assms(6) by (simp add: presents_def)
  have "\<not> boundary_authorized sv (Some (build_accept_set st at)) req"
    unfolding iff using out unique assms(5,7-10) by (metis accept_set_phase.distinct(1))
  with bar show ?thesis by (simp add: mint_result)
qed

definition demo_server :: boundary_server where
  "demo_server = \<lparr> sv_password = Some ''local'', sv_engine_password = None, sv_open = True, sv_decode = (\<lambda>s. s) \<rparr>"

definition demo_call :: boundary_request where
  "demo_call = \<lparr> br_method = ''GET'', br_path = ''/session'', br_auth_token = Some ''opencode:t1'',
     br_authorization = [], br_nonce_header = None, br_identity_header = None, br_enrollment_nonce = None \<rparr>"

definition demo_registry :: keyed_file where
  "demo_registry = snd (mint_peer_token ''laptop'' ''t1'' None ''t'' None)"

definition demo_stores :: "keyed_file \<Rightarrow> accept_stores" where
  "demo_stores reg = \<lparr> bs_registry = reg, bs_phase_file = close_accept_set None, bs_nonce_file = None,
     bs_hub_token = None, bs_self = Some ''rig'' \<rparr>"

lemma issued_token_for_None [simp]: "issued_token_for m None = None"
  by (simp add: issued_token_for_def read_keyed_collection_def read_doc_def collection_of_def)

lemma demo_registry_facts:
  "registry_ok demo_registry" "issued_token_for p demo_registry = (if p = ''laptop'' then Some ''t1'' else None)"
  by (simp_all add: demo_registry_def)

lemma demo_boundary_facts:
  "phase_of_file (bs_phase_file (demo_stores reg)) = Closed" "presents demo_server demo_call ''t1''"
  "\<not> is_public_ui_path (br_method demo_call) (br_path demo_call)" "\<not> nonce_admits st now demo_call"
  "bs_registry (demo_stores reg) = reg" "sv_password demo_server = Some ''local''"
  "sv_engine_password demo_server = None"
  by (simp_all add: demo_stores_def close_accept_set_def phase_of_file_def presents_def
      demo_server_def demo_call_def request_credential_def opencode_secret_def is_public_ui_path_def
      PUBLIC_UI_PATHS_def PUBLIC_UI_PREFIX_def nonce_admits_def)

theorem revoked_machine_stays_out_witness:
  "\<not> boundary_authorized demo_server
     (Some (build_accept_set (demo_stores (revoke_peer_token ''laptop'' ''t'' demo_registry)) 0)) demo_call"
  using revoked_machine_stays_out [where reg = demo_registry and m = "''laptop''" and t = "''t1''" and ops = "[]"
      and st = "demo_stores (revoke_peer_token ''laptop'' ''t'' demo_registry)" and now = "''t''"
      and sv = demo_server and req = demo_call and at = 0]
  by (simp add: demo_boundary_facts demo_registry_facts)

text \<open>C23: A closed boundary admits members only: apart from the public paths it lets a request
  through exactly when it presents this machine's own secret or a token issued and not revoked,
  or brings a redeemable nonce to the mint endpoint. Reopening adds exactly the hub credential
  and, where the server runs open, everyone.\<close>

theorem closed_boundary_admits_members_only:
  assumes "registry_ok (bs_registry st)" and "\<not> is_public_ui_path (br_method req) (br_path req)"
  shows "(boundary_authorized sv (Some (build_accept_set (st\<lparr>bs_phase_file := close_accept_set pf\<rparr>) now)) req
      \<longleftrightarrow> (\<exists>s. presents sv req s \<and> (sv_password sv = Some s \<or> sv_engine_password sv = Some s
            \<or> (\<exists>m. issued_token_for m (bs_registry st) = Some s)))
          \<or> nonce_admits st now req)
    \<and> (boundary_authorized sv (Some (build_accept_set (st\<lparr>bs_phase_file := rollback_accept_set pf\<rparr>) now)) req
      \<longleftrightarrow> boundary_authorized sv (Some (build_accept_set (st\<lparr>bs_phase_file := close_accept_set pf\<rparr>) now)) req
          \<or> (\<exists>s. presents sv req s \<and> bs_hub_token st = Some s) \<or> sv_open sv)"
proof -
  have n: "nonce_admits (st\<lparr>bs_phase_file := f\<rparr>) now req = nonce_admits st now req" for f
    by (simp add: nonce_admits_def bound_nonce_presented_def plain_nonce_presented_def build_accept_set_def
        split: option.split)
  have ph: "phase_of_file (close_accept_set pf) = Closed" "phase_of_file (rollback_accept_set pf) = Additive"
    by (simp_all add: phase_of_file_def close_accept_set_def rollback_accept_set_def)
  show ?thesis using assms by (simp add: boundary_iff n ph)
qed

theorem closed_boundary_admits_members_only_witness:
  "boundary_authorized demo_server (Some (build_accept_set (demo_stores demo_registry) 0)) demo_call"
  using closed_boundary_admits_members_only [of "demo_stores demo_registry" demo_call demo_server None 0]
    demo_boundary_facts demo_registry_facts
  by (auto simp: demo_stores_def)

section \<open>The readiness gate\<close>

text \<open>What blocks one serving machine, as the gate lists it.\<close>

definition blockers_of :: "keyed_file \<Rightarrow> keyed_file \<Rightarrow> string option \<Rightarrow> string \<Rightarrow> readiness_blocker list" where
  "blockers_of reg peers self m =
     (if m = [] then [Unresolvable_machine_id]
      else if self = Some m then []
      else (if has_issued_token m reg then [] else [Missing_issued_token m])
           @ (if has_peer_token m peers then [] else [Missing_peer_token m]))"

text \<open>An earlier turn for the same machine has left the same blockers.\<close>

definition blockers_settled ::
  "keyed_file \<Rightarrow> keyed_file \<Rightarrow> string option \<Rightarrow> readiness_blocker list \<Rightarrow> bool" where
  "blockers_settled reg peers self bs \<longleftrightarrow>
     (\<forall>m. list_ex (blocks_machine m) bs \<longrightarrow> self \<noteq> Some m \<longrightarrow> blockers_of reg peers self m \<noteq> [])"

lemma blocks_machine_iff: "blocks_machine m b \<longleftrightarrow> b = Missing_issued_token m \<or> b = Missing_peer_token m"
  by (cases b) auto

lemma readiness_fold:
  "blockers_settled reg peers self bs \<Longrightarrow>
   foldl (readiness_step reg peers self) (bs, rs) ms =
     (bs @ concat (map (blockers_of reg peers self) ms),
      rs @ filter (\<lambda>m. self \<noteq> Some m \<and> blockers_of reg peers self m = []) ms)"
proof (induction ms arbitrary: bs rs)
  case (Cons m ms)
  let ?b = "blockers_of reg peers self m"
  have step: "readiness_step reg peers self (bs, rs) m =
      (bs @ ?b, if self \<noteq> Some m \<and> ?b = [] then rs @ [m] else rs)"
  proof -
    have settled: "blockers_of reg peers self m \<noteq> []" if "b \<in> set bs" "blocks_machine m b" "self \<noteq> Some m" for b
      using Cons.prems that by (auto simp: blockers_settled_def list_ex_iff)
    show ?thesis
    proof (cases "m = [] \<or> self = Some m")
      case True
      then show ?thesis by (auto simp: readiness_step_def blockers_of_def Let_def)
    next
      case False
      then show ?thesis using settled
        by (auto simp: readiness_step_def blockers_of_def Let_def list_ex_iff)
    qed
  qed
  have "blockers_settled reg peers self (bs @ ?b)"
    using Cons.prems
    by (auto simp: blockers_settled_def blockers_of_def list_ex_iff blocks_machine_iff split: if_splits)
  from Cons.IH [OF this] show ?case by (simp add: step)
qed simp

lemma readiness_eq:
  "evaluate_readiness rows reg peers self =
     (let bs = concat (map (blockers_of reg peers self) (serving_reachable_peers rows))
      in if bs \<noteq> [] then Inl bs
         else Inr (filter (\<lambda>m. self \<noteq> Some m) (serving_reachable_peers rows)))"
proof -
  have "blockers_settled reg peers self []" by (simp add: blockers_settled_def)
  from readiness_fold [OF this, of "[]" "serving_reachable_peers rows"] show ?thesis
    by (auto simp: evaluate_readiness_def Let_def intro!: filter_cong)
qed

text \<open>The gate permits closing exactly when every serving and reachable machine without an
  identity conflict, other than this one, can be named and holds an issued token here while its
  own token is held here; it then lists those machines in roster order. Once it does, closing
  locks none of them out: each has a token with which a closed boundary admits any request.\<close>

theorem ready_to_close_locks_no_peer_out:
  assumes "registry_ok reg"
  shows "((\<exists>resolved. evaluate_readiness rows reg peers self = Inr resolved) \<longleftrightarrow>
      (\<forall>m \<in> set (serving_reachable_peers rows). m \<noteq> [] \<and>
         (self = Some m \<or> has_issued_token m reg \<and> has_peer_token m peers)))
    \<and> (\<forall>resolved. evaluate_readiness rows reg peers self = Inr resolved \<longrightarrow>
        resolved = filter (\<lambda>m. self \<noteq> Some m) (serving_reachable_peers rows) \<and>
        (\<forall>m \<in> set resolved. \<exists>t. issued_token_for m reg = Some t \<and>
          (\<forall>sv req now st. presents sv req t \<longrightarrow> bs_registry st = reg \<longrightarrow>
             boundary_authorized sv (Some (build_accept_set (st\<lparr>bs_phase_file := close_accept_set pf\<rparr>) now)) req)))"
proof -
  have none: "concat (map (blockers_of reg peers self) (serving_reachable_peers rows)) = [] \<longleftrightarrow>
      (\<forall>m \<in> set (serving_reachable_peers rows). m \<noteq> [] \<and>
         (self = Some m \<or> has_issued_token m reg \<and> has_peer_token m peers))"
  proof -
    have "blockers_of reg peers self m = [] \<longleftrightarrow>
        m \<noteq> [] \<and> (self = Some m \<or> has_issued_token m reg \<and> has_peer_token m peers)" for m
      by (simp add: blockers_of_def)
    then show ?thesis by simp
  qed
  have admitted: "boundary_authorized sv (Some (build_accept_set (st\<lparr>bs_phase_file := close_accept_set pf\<rparr>) now)) req"
    if "presents sv req t" "bs_registry st = reg" "issued_token_for m reg = Some t" for sv req st t m now
    using that assms by (auto simp: boundary_iff)
  have eval: "evaluate_readiness rows reg peers self =
      (if \<forall>m \<in> set (serving_reachable_peers rows). m \<noteq> [] \<and>
           (self = Some m \<or> has_issued_token m reg \<and> has_peer_token m peers)
       then Inr (filter (\<lambda>m. self \<noteq> Some m) (serving_reachable_peers rows))
       else Inl (concat (map (blockers_of reg peers self) (serving_reachable_peers rows))))"
    unfolding readiness_eq Let_def none [symmetric] by simp
  show ?thesis
    unfolding eval using admitted by (force simp: has_issued_token_def split: if_splits)
qed

theorem ready_to_close_locks_no_peer_out_witness:
  "evaluate_readiness [] demo_registry None None = Inr []"
  using ready_to_close_locks_no_peer_out [OF demo_registry_facts(1), of "[]" None None] by auto

end
