(* ===== verification/Peer_Recovery.thy ===== *)
theory Peer_Recovery
  imports Trust_Properties Grant_Lifecycle
begin

text \<open>
  What the reciprocal bootstrap and the rehydration after a reboot guarantee: a bootstrap that fails
  leaves no half of it behind, a reboot restores the observation of a peer only where its grant,
  identity and transport are all in place and never restores control, and the generation fence
  rejects whatever belongs to a generation that ended.
\<close>

section \<open>The reciprocal bootstrap\<close>

lemma peers_collection_ok [simp]: "PEERS_COLLECTION \<noteq> store_version_key"
  by (simp add: PEERS_COLLECTION_def store_version_key_def)

lemma read_peer_token_after [simp]:
  "read_peer_token p (write_peer_token m v f) =
     (if p = m
      then (if js_trim (pt_base_url v) = [] \<or> js_trim (pt_token v) = [] then Inl Token_incomplete
            else Inr \<lparr> pt_base_url = js_trim (js_trim (pt_base_url v)), pt_token = js_trim (js_trim (pt_token v)) \<rparr>)
      else read_peer_token p f)"
  "read_peer_token p (clear_peer_token m f) = (if p = m then Inl Token_absent else read_peer_token p f)"
  by (auto simp: read_peer_token_def write_peer_token_def clear_peer_token_def
      file_store.entry_upsert file_store.entry_delete str_field_def Let_def)

text \<open>A way of persisting the reciprocal half that leaves the other machines' entries alone.\<close>

definition keeps_other_peers :: "persist_grant \<Rightarrow> bool" where
  "keeps_other_peers persist \<longleftrightarrow>
     (\<forall>g f p. p \<noteq> rg_requester_machine_id g \<longrightarrow>
        read_peer_token p (snd (persist g f)) = read_peer_token p f)"

lemma persist_by_write_keeps [simp]: "keeps_other_peers persist_by_write"
  by (simp add: keeps_other_peers_def persist_by_write_def)

text \<open>The reciprocal bootstrap is all or nothing: it succeeds exactly when the requester is not
  barred and its half is persisted, and then both halves stand; barred, nothing changes; when
  persisting throws, the issued half is taken back, the local half is cleared unless clearing
  throws too, and the requester is not barred for it. No other machine is touched.\<close>

theorem reciprocal_bootstrap_is_atomic:
  assumes "keeps_other_peers persist" and "token \<noteq> []"
    and "issue_reciprocal_observe_grant g persist clear_throws token now reg peers = (r, reg', peers')"
  defines "m \<equiv> rg_requester_machine_id g"
  shows "(r = Inl Mint_barred \<longleftrightarrow> is_mint_barred m reg)
    \<and> (r = Inl Mint_barred \<longrightarrow> reg' = reg \<and> peers' = peers)
    \<and> (r = Inl Persist_failed \<longleftrightarrow> \<not> is_mint_barred m reg \<and> fst (persist g peers))
    \<and> (r = Inl Persist_failed \<longrightarrow> issued_token_for m reg' = None
        \<and> (\<not> clear_throws \<longrightarrow> read_peer_token m peers' = Inl Token_absent))
    \<and> (\<forall>t. r = Inr t \<longrightarrow> t = token \<and> issued_token_for m reg' = Some token
        \<and> peers' = snd (persist g peers))
    \<and> (\<forall>p. is_mint_barred p reg' = is_mint_barred p reg)
    \<and> (\<forall>p. p \<noteq> m \<longrightarrow> issued_token_for p reg' = issued_token_for p reg
        \<and> read_peer_token p peers' = read_peer_token p peers)"
proof (cases "is_mint_barred m reg")
  case True
  with assms(3) show ?thesis
    by (auto simp: issue_reciprocal_observe_grant_def mint_peer_token_def m_def)
next
  case False
  obtain threw peers1 where p: "persist g peers = (threw, peers1)" by (cases "persist g peers")
  have others: "q \<noteq> m \<Longrightarrow> read_peer_token q peers1 = read_peer_token q peers" for q
    using assms(1) p by (auto simp: keeps_other_peers_def m_def dest!: spec [of _ g] spec [of _ peers])
  obtain reg1 where mint: "mint_peer_token m token (Some ''observe'') now reg = (Some token, reg1)"
    using False by (simp add: mint_peer_token_def)
  have reg1: "reg1 = snd (mint_peer_token m token (Some ''observe'') now reg)" by (simp add: mint)
  have after: "is_mint_barred q reg1 = is_mint_barred q reg"
    "issued_token_for q reg1 = (if q = m then Some token else issued_token_for q reg)" for q
    using False assms(2) by (simp_all add: reg1)
  show ?thesis
  proof (cases threw)
    case True
    with assms(3) have "r = Inl Persist_failed" "reg' = delete_issued_token m reg1"
      "peers' = (if clear_throws then peers1 else clear_peer_token m peers1)"
      by (auto simp: issue_reciprocal_observe_grant_def mint [unfolded m_def] p m_def)
    then show ?thesis using False True others by (auto simp: p after)
  next
    case False
    with assms(3) have "r = Inr token" "reg' = reg1" "peers' = peers1"
      by (auto simp: issue_reciprocal_observe_grant_def mint [unfolded m_def] p m_def)
    then show ?thesis using False \<open>\<not> is_mint_barred m reg\<close> others by (auto simp: p after)
  qed
qed

definition demo_reciprocal :: reciprocal_grant where
  "demo_reciprocal = \<lparr> rg_requester_machine_id = ''laptop'', rg_peer_base_url = ''http://laptop'',
     rg_reciprocal_token = ''r1'' \<rparr>"

theorem reciprocal_bootstrap_is_atomic_witness:
  "\<exists>r reg' peers'. issue_reciprocal_observe_grant demo_reciprocal persist_by_write False ''t1'' ''now'' None None
     = (r, reg', peers') \<and> r \<noteq> Inl Mint_barred \<and> r \<noteq> Inl Persist_failed
     \<and> issued_token_for ''rig'' reg' = None"
proof -
  obtain r reg' peers' where run: "issue_reciprocal_observe_grant demo_reciprocal persist_by_write False
      ''t1'' ''now'' None None = (r, reg', peers')" by (rule prod_cases3)
  have t: "''t1'' \<noteq> []" and m: "rg_requester_machine_id demo_reciprocal = ''laptop''"
    by (simp_all add: demo_reciprocal_def)
  show ?thesis
    using reciprocal_bootstrap_is_atomic [OF persist_by_write_keeps t run]
    by (simp add: run m persist_by_write_def)
qed

text \<open>Taking the issued half back does not restore what stood before: a machine that held a token
  loses it when a second bootstrap for it fails.\<close>

theorem failed_bootstrap_drops_the_held_token:
  "issued_token_for ''laptop'' demo_registry = Some ''t1''
   \<and> issued_token_for ''laptop'' (fst (snd (issue_reciprocal_observe_grant demo_reciprocal
        (\<lambda>g f. (True, f)) False ''t2'' ''now'' demo_registry None))) = None"
proof -
  have "\<not> is_mint_barred ''laptop'' demo_registry" by (simp add: demo_registry_def)
  then show ?thesis
    by (simp add: demo_registry_facts issue_reciprocal_observe_grant_def demo_reciprocal_def mint_peer_token_def)
qed

section \<open>Rehydration\<close>

text \<open>What must hold for a grant to bring observation back.\<close>

definition relationship_proved :: "peer_provider \<Rightarrow> lifecycle_grant \<Rightarrow> bool" where
  "relationship_proved pv g \<longleftrightarrow>
     lg_state g = Grant_active \<and> requester_machine_id g \<notin> set (get_blocked_peers pv)
     \<and> requester_machine_id g \<in> set (get_serving_peers pv)
     \<and> \<not> isl (provider_read_token pv (requester_machine_id g))"

lemma rehydrate_grant_simps:
  "rp_peer_id (rehydrate_grant pv g) = requester_machine_id g"
  "rp_scope (rehydrate_grant pv g) = lg_scope g"
  "rp_generation (rehydrate_grant pv g) = generation g"
  by (simp_all add: rehydrate_grant_def recovered_as_def Let_def)

lemma rehydrate_grant_restores:
  "rp_observe_restored (rehydrate_grant pv g) \<longleftrightarrow> relationship_proved pv g"
  "rp_state (rehydrate_grant pv g) = Recovery_active \<longleftrightarrow> relationship_proved pv g \<and> lg_scope g \<noteq> Control"
  "lg_scope g = Control \<Longrightarrow> rp_control_suspended (rehydrate_grant pv g)"
  by (cases "lg_state g"; simp add: rehydrate_grant_def recovered_as_def Let_def relationship_proved_def)+

text \<open>A reboot restores exactly what is proved: every stored grant is recovered once, in its
  scope and generation; observing is restored exactly when the grant is active, the peer's
  identity is not in conflict, it serves and its token is held; a relationship is active only if
  it is restored and is not one of control; control is suspended whatever else holds. Operations
  of a restored relationship pass the fence in the recovered generation and no other.\<close>

theorem rehydration_restores_what_is_proved:
  assumes "store_ok gf"
  shows "r \<in> set (rehydrate_peer_relationships gf pv) \<longleftrightarrow>
      (\<exists>g. read_lifecycle_grant (rp_peer_id r) gf = Some g \<and> r = rehydrate_grant pv g
        \<and> (rp_observe_restored r \<longleftrightarrow> relationship_proved pv g)
        \<and> (rp_state r = Recovery_active \<longleftrightarrow> rp_observe_restored r \<and> rp_scope r \<noteq> Control)
        \<and> (rp_scope r = Control \<longrightarrow> rp_control_suspended r)
        \<and> (rp_observe_restored r \<longrightarrow>
            (\<forall>n. generation_fence_allows (rp_peer_id r) n gf \<longleftrightarrow> n = rp_generation r)))"
    (is "_ \<longleftrightarrow> (\<exists>g. ?recovered g)")
proof
  assume "r \<in> set (rehydrate_peer_relationships gf pv)"
  then obtain g where g: "g \<in> set (read_all_lifecycle_grants gf)" "r = rehydrate_grant pv g"
    by (auto simp: rehydrate_peer_relationships_def)
  from g(1) have "read_lifecycle_grant (requester_machine_id g) gf = Some g" by (simp add: read_all_iff assms)
  with g(2) have "?recovered g"
    by (auto simp: rehydrate_grant_simps rehydrate_grant_restores generation_fence_allows_def
        relationship_proved_def)
  then show "\<exists>g. ?recovered g" ..
next
  assume "\<exists>g. ?recovered g"
  then obtain g where g: "read_lifecycle_grant (rp_peer_id r) gf = Some g" "r = rehydrate_grant pv g" by blast
  from g(1) have "requester_machine_id g = rp_peer_id r" by (rule read_lifecycle_grant_SomeD)
  with g(1) have "g \<in> set (read_all_lifecycle_grants gf)" by (simp add: read_all_iff assms)
  with g(2) show "r \<in> set (rehydrate_peer_relationships gf pv)"
    by (simp add: rehydrate_peer_relationships_def)
qed

definition demo_provider :: peer_provider where
  "demo_provider =
     \<lparr> pv_local_machine_id = ''rig'',
       pv_rows = [\<lparr> rr_machine_id = ''laptop'', rr_name = ''Laptop'', rr_server_mode = ''local'',
         rr_capabilities = [''serving''], rr_ssh_alias = ''laptop'', rr_transport = ''ssh'',
         rr_last_report = ''t'', rr_health = Health_reachable, rr_device_type = None,
         rr_peer_origin = None, rr_identity_key = None, rr_identity_state = None \<rparr>],
       pv_peer_store = write_peer_token ''laptop''
         \<lparr> pt_base_url = ''http://laptop'', pt_token = ''r1'' \<rparr> None \<rparr>"

lemma demo_provider_proves: "relationship_proved demo_provider demo_grant_held"
  by (simp add: relationship_proved_def demo_grant_held_def issued_grant_def demo_provider_def
      get_blocked_peers_def get_serving_peers_def placement_descriptor_of_def identity_blocked_def
      provider_read_token_def demo_trim js_trim_def js_space_def)

theorem rehydration_restores_what_is_proved_witness:
  "\<exists>r \<in> set (rehydrate_peer_relationships (write_grant ''laptop'' demo_grant_held None) demo_provider).
     rp_observe_restored r \<and> rp_control_suspended r \<and> rp_state r \<noteq> Recovery_active"
proof
  let ?r = "rehydrate_grant demo_provider demo_grant_held"
  let ?gf = "write_grant ''laptop'' demo_grant_held None"
  have "demo_grant_held \<in> set (read_all_lifecycle_grants ?gf)"
  proof -
    have "requester_machine_id demo_grant_held = ''laptop''"
      by (simp add: demo_grant_held_def issued_grant_def)
    then show ?thesis by (simp add: read_all_iff demo_held)
  qed
  then show r: "?r \<in> set (rehydrate_peer_relationships ?gf demo_provider)"
    by (simp add: rehydrate_peer_relationships_def)
  have "rp_observe_restored ?r" "rp_scope ?r = Control"
    by (simp_all add: rehydrate_grant_restores demo_provider_proves rehydrate_grant_simps)
      (simp add: demo_grant_held_def issued_grant_def)
  with r show "rp_observe_restored ?r \<and> rp_control_suspended ?r \<and> rp_state ?r \<noteq> Recovery_active"
    by (subst (asm) rehydration_restores_what_is_proved) auto
qed

text \<open>This machine is never among its own serving peers, so the control grant it holds over another
  machine, which is stored under its own id, is recovered as reconciling and never as suspended.\<close>

theorem own_control_grant_never_resumes:
  assumes "requester_machine_id g = pv_local_machine_id pv"
  shows "\<not> rp_observe_restored (rehydrate_grant pv g) \<and> rp_state (rehydrate_grant pv g) \<noteq> Recovery_suspended"
proof -
  have "requester_machine_id g \<notin> set (get_serving_peers pv)" using assms by (simp add: get_serving_peers_def)
  then show ?thesis by (simp add: rehydrate_grant_def recovered_as_def Let_def)
qed

theorem own_control_grant_never_resumes_witness:
  "rp_state (rehydrate_grant (demo_provider\<lparr>pv_local_machine_id := ''laptop''\<rparr>) demo_grant_held)
     \<noteq> Recovery_suspended"
  using own_control_grant_never_resumes [of demo_grant_held "demo_provider\<lparr>pv_local_machine_id := ''laptop''\<rparr>"]
  by (simp add: demo_grant_held_def issued_grant_def)

section \<open>The generation fence\<close>

text \<open>The generation is over: a later one runs, or its revocation is complete.\<close>

definition generation_over :: "string \<Rightarrow> int \<Rightarrow> keyed_file \<Rightarrow> bool" where
  "generation_over p n f \<longleftrightarrow>
     (\<exists>g. read_lifecycle_grant p f = Some g \<and>
        (n < generation g \<or> n = generation g \<and> lg_state g = Grant_revoked))"

lemma generation_over_step:
  assumes "op_complete op" and "generation_over p n f"
  shows "generation_over p n (snd (apply_grant_op op f))"
proof -
  from assms(2) obtain g where g: "read_lifecycle_grant p f = Some g"
    "n < generation g \<or> n = generation g \<and> lg_state g = Grant_revoked"
    by (auto simp: generation_over_def)
  show ?thesis
  proof (cases "p = op_peer op")
    case False
    with g show ?thesis by (auto simp: generation_over_def other_peers_kept)
  next
    case True
    have "readable_grant g" using g(1) by (rule read_lifecycle_grant_SomeD)
    with assms(1) True g show ?thesis
      by (cases op; cases "lg_state g")
        (auto simp: generation_over_def grant_operation_defs Let_def read_write_grant readable_grant_def)
  qed
qed

lemma generation_over_run:
  "(\<And>op. op \<in> set ops \<Longrightarrow> op_complete op) \<Longrightarrow> generation_over p n f \<Longrightarrow>
   generation_over p n (run_grant_ops ops f)"
  by (induction ops arbitrary: f) (auto intro: generation_over_step)

lemma generation_over_fenced: "generation_over p n f \<Longrightarrow> \<not> generation_fence_allows p n f"
  by (auto simp: generation_over_def generation_fence_allows_def)

text \<open>The fence never lets a stale operation pass: when the revocation of a peer's grant is
  acknowledged, no operation stamped with that generation or an earlier one passes the fence then
  or after any further operations on the store, re-admissions included.\<close>

theorem fence_rejects_the_past:
  assumes "read_lifecycle_grant p f = Some g" and "fst (apply_grant_op (Grant_acknowledge p) f)"
    and "\<And>op. op \<in> set ops \<Longrightarrow> op_complete op" and "n \<le> generation g"
  shows "\<not> generation_fence_allows p n (run_grant_ops (Grant_acknowledge p # ops) f)"
proof -
  have "readable_grant g" using assms(1) by (rule read_lifecycle_grant_SomeD)
  with assms(1,2,4) have "generation_over p n (snd (apply_grant_op (Grant_acknowledge p) f))"
    by (auto simp: generation_over_def acknowledge_revocation_def Let_def read_write_grant split: if_splits)
  from generation_over_fenced [OF generation_over_run [OF assms(3) this]] show ?thesis by simp
qed

definition demo_leaving :: lifecycle_grant where
  "demo_leaving = demo_grant_held\<lparr>lg_state := Revocation_pending\<rparr>"

theorem fence_rejects_the_past_witness:
  "\<not> generation_fence_allows ''laptop'' 1 (run_grant_ops [Grant_acknowledge ''laptop'', demo_readmit]
     (write_grant ''laptop'' demo_leaving None))"
proof -
  have held: "read_lifecycle_grant ''laptop'' (write_grant ''laptop'' demo_leaving None) = Some demo_leaving"
    by (simp add: read_write_grant demo_leaving_def demo_grant_held_def issued_grant_def readable_grant_def)
  have ack: "fst (apply_grant_op (Grant_acknowledge ''laptop'') (write_grant ''laptop'' demo_leaving None))"
    by (simp add: acknowledge_revocation_def held Let_def) (simp add: demo_leaving_def)
  show ?thesis
    by (rule fence_rejects_the_past [OF held ack])
      (auto simp: demo_readmit_def demo_leaving_def demo_grant_held_def issued_grant_def)
qed

end
