(* ===== verification/Peer_Transport.thy ===== *)
theory Peer_Transport
  imports Fleet_Prelude
begin

text \<open>
  The managed transports to the peers of the fleet
  (\<open>packages/extension/src/amicode_service/peer_transport_supervisor.ts\<close>): the allocation of a
  loopback port, the identity check of an endpoint, the retry backoff, and the supervisor with one
  entry per identity. \<open>connect\<close> and \<open>disconnect\<close> are cut where they wait; a call that waits is in
  \<open>sup_calls\<close> and resumes with what it waited for, in any order. What the transport factory, the
  identity probe and the stops give is the outcome of an event; the free-port probe is an argument
  of it. An entry carries a reference, for a call that holds on to it while it waits. A call
  resolves with the state it records.
\<close>

section \<open>Ports\<close>

definition DEFAULT_LOCAL_PORT_BASE :: int where
  "DEFAULT_LOCAL_PORT_BASE = 43200"

definition DEFAULT_LOCAL_PORT_RANGE :: int where
  "DEFAULT_LOCAL_PORT_RANGE = 512"

definition DEFAULT_PEER_REMOTE_PORT :: int where
  "DEFAULT_PEER_REMOTE_PORT = 43117"

function port_scan :: "(int \<Rightarrow> bool) \<Rightarrow> int \<Rightarrow> int \<Rightarrow> int option" where
  "port_scan available p limit =
     (if p < limit then (if available p then Some p else port_scan available (p + 1) limit) else None)"
  by pat_completeness auto

termination
  by (relation "measure (\<lambda>(_, p, limit). nat (limit - p))") auto

declare port_scan.simps [simp del]

definition allocate_loopback_port :: "int \<Rightarrow> int option \<Rightarrow> (int \<Rightarrow> bool) \<Rightarrow> int option" where
  "allocate_loopback_port base width available =
     port_scan available base (base + or_else width DEFAULT_LOCAL_PORT_RANGE)"

section \<open>Identity and backoff\<close>

datatype identity_check = Identity_ok | Identity_mismatched | Identity_unverified

definition verify_endpoint_identity :: "string \<Rightarrow> string option \<Rightarrow> identity_check" where
  "verify_endpoint_identity expected observed =
     (let e = js_trim expected; obs = js_trim (or_else observed [])
      in if e = [] \<or> obs = [] then Identity_unverified
         else if e = obs then Identity_ok else Identity_mismatched)"

fun identity_reason :: "identity_check \<Rightarrow> string" where
  "identity_reason Identity_ok = []"
| "identity_reason Identity_mismatched = ''identity-mismatch''"
| "identity_reason Identity_unverified = ''identity-unverified''"

definition reconnect_backoff_ms :: "int \<Rightarrow> int option \<Rightarrow> int option \<Rightarrow> int" where
  "reconnect_backoff_ms attempt base_ms cap_ms =
     (let base = or_else base_ms 500; cap = or_else cap_ms 30000
      in if attempt < 1 then base else min cap (base * 2 ^ nat (attempt - 1)))"

section \<open>The state of a transport\<close>

record peer_identity =
  identity_key :: string
  pi_machine_id :: string
  pi_ssh_alias :: string
  pi_transport :: string

datatype transport_status = Idle | Connecting | Healthy | Reconnecting | Suspended | Failed

record transport_state =
  ts_identity_key :: string
  ts_machine_id :: string
  ts_ssh_alias :: string
  ts_status :: transport_status
  local_port :: "int option"
  local_url :: "string option"
  verified_endpoint :: "string option"
  credential_forwarding_allowed :: bool
  attempts :: int
  next_retry_ms :: "int option"
  ts_last_error :: "string option"

record transport_handle =
  th_id :: nat
  th_local_url :: string

record peer_entry =
  pe_ref :: nat
  pe_state :: transport_state
  pe_handle :: "transport_handle option"

section \<open>The supervisor\<close>

record supervisor_config =
  sc_forwards :: bool
  sc_base :: int
  sc_range :: int
  sc_reserved :: "int list"
  sc_max_attempts :: int

record supervisor_opts =
  so_forwards :: bool
  so_remote_port :: "int option"
  so_local_port_base :: "int option"
  so_local_port_range :: "int option"
  so_reserved_ports :: "int list option"
  so_max_reconnect_attempts :: "int option"

definition make_supervisor_config :: "supervisor_opts \<Rightarrow> supervisor_config" where
  "make_supervisor_config opts =
     \<lparr> sc_forwards = so_forwards opts,
       sc_base = or_else (so_local_port_base opts) DEFAULT_LOCAL_PORT_BASE,
       sc_range = or_else (so_local_port_range opts) DEFAULT_LOCAL_PORT_RANGE,
       sc_reserved = or_else (so_reserved_ports opts)
         [or_else (so_remote_port opts) DEFAULT_PEER_REMOTE_PORT],
       sc_max_attempts = or_else (so_max_reconnect_attempts opts) 5 \<rparr>"

text \<open>Calls that wait: for the stop of a previous handle (with the entry that held it), for the
  factory, for the identity probe, for the stop of an untrusted endpoint, and a disconnect for the
  stop of its handle.\<close>

datatype pending_call =
    Stopping_previous peer_identity nat
  | Awaiting_factory peer_identity transport_state
  | Awaiting_probe peer_identity transport_state transport_handle
  | Stopping_untrusted peer_identity transport_state transport_handle identity_check
  | Disconnecting string

text \<open>The entries in insertion order; the stops that were asked for and the credentials forwarded,
  in order.\<close>

record sup_state =
  sup_entries :: "(string \<times> peer_entry) list"
  sup_next_ref :: nat
  sup_calls :: "pending_call list"
  sup_stops :: "transport_handle list"
  sup_forwarded :: "(peer_identity \<times> transport_handle) list"

definition sup_init :: sup_state where
  "sup_init = \<lparr> sup_entries = [], sup_next_ref = 0, sup_calls = [], sup_stops = [], sup_forwarded = [] \<rparr>"

definition list_transports :: "sup_state \<Rightarrow> transport_state list" where
  "list_transports s = map (\<lambda>(k, e). pe_state e) (sup_entries s)"

definition get_transport :: "sup_state \<Rightarrow> string \<Rightarrow> transport_state option" where
  "get_transport s k = map_option pe_state (obj_get (sup_entries s) k)"

definition can_forward_credential :: "sup_state \<Rightarrow> string \<Rightarrow> bool" where
  "can_forward_credential s k \<longleftrightarrow>
     (case obj_get (sup_entries s) k of
        None \<Rightarrow> False
      | Some e \<Rightarrow> credential_forwarding_allowed (pe_state e))"

text \<open>\<open>entries.set\<close> with a new entry, one more waiting call, one more stop.\<close>

definition put_entry ::
  "string \<Rightarrow> transport_state \<Rightarrow> transport_handle option \<Rightarrow> sup_state \<Rightarrow> sup_state" where
  "put_entry k st h s =
     s\<lparr>sup_entries := obj_set (sup_entries s) k \<lparr> pe_ref = sup_next_ref s, pe_state = st, pe_handle = h \<rparr>,
       sup_next_ref := Suc (sup_next_ref s)\<rparr>"

definition add_call :: "pending_call \<Rightarrow> sup_state \<Rightarrow> sup_state" where
  "add_call c s = s\<lparr>sup_calls := sup_calls s @ [c]\<rparr>"

definition ask_stop :: "transport_handle \<Rightarrow> sup_state \<Rightarrow> sup_state" where
  "ask_stop h s = s\<lparr>sup_stops := sup_stops s @ [h]\<rparr>"

section \<open>connect\<close>

definition base_state :: "peer_identity \<Rightarrow> transport_state" where
  "base_state peer =
     \<lparr> ts_identity_key = identity_key peer, ts_machine_id = pi_machine_id peer,
       ts_ssh_alias = pi_ssh_alias peer, ts_status = Connecting, local_port = None, local_url = None,
       verified_endpoint = None, credential_forwarding_allowed = False, attempts = 0,
       next_retry_ms = None, ts_last_error = None \<rparr>"

definition handed_out :: "string \<Rightarrow> sup_state \<Rightarrow> int list" where
  "handed_out k s =
     List.map_filter (\<lambda>(k', e). if k' \<noteq> k then local_port (pe_state e) else None) (sup_entries s)"

definition port_available ::
  "supervisor_config \<Rightarrow> (int \<Rightarrow> bool) \<Rightarrow> string \<Rightarrow> sup_state \<Rightarrow> int \<Rightarrow> bool" where
  "port_available cfg free k s p \<longleftrightarrow>
     p \<notin> set (sc_reserved cfg) \<and> p \<notin> set (handed_out k s) \<and> free p"

text \<open>From the allocation to the call of the factory.\<close>

definition connect_register ::
  "supervisor_config \<Rightarrow> (int \<Rightarrow> bool) \<Rightarrow> peer_identity \<Rightarrow> sup_state \<Rightarrow> sup_state" where
  "connect_register cfg free peer s =
     (let k = identity_key peer; base = base_state peer
      in case allocate_loopback_port (sc_base cfg) (Some (sc_range cfg)) (port_available cfg free k s) of
           None \<Rightarrow>
             put_entry k (base\<lparr>ts_status := Failed, ts_last_error := Some ''local-port-exhausted''\<rparr>) None s
         | Some p \<Rightarrow>
             let base = base\<lparr>local_port := Some p\<rparr>
             in add_call (Awaiting_factory peer base) (put_entry k base None s))"

definition connect_start ::
  "supervisor_config \<Rightarrow> (int \<Rightarrow> bool) \<Rightarrow> peer_identity \<Rightarrow> sup_state \<Rightarrow> sup_state" where
  "connect_start cfg free peer s =
     (case obj_get (sup_entries s) (identity_key peer) of
        Some prev \<Rightarrow>
          (case pe_handle prev of
             Some h \<Rightarrow> add_call (Stopping_previous peer (pe_ref prev)) (ask_stop h s)
           | None \<Rightarrow> connect_register cfg free peer s)
      | None \<Rightarrow> connect_register cfg free peer s)"

text \<open>\<open>prev.handle = undefined\<close>.\<close>

definition clear_handle :: "nat \<Rightarrow> sup_state \<Rightarrow> sup_state" where
  "clear_handle r s =
     s\<lparr>sup_entries := map (\<lambda>(k, e). (k, if pe_ref e = r then e\<lparr>pe_handle := None\<rparr> else e)) (sup_entries s)\<rparr>"

definition connect_failed :: "peer_identity \<Rightarrow> transport_state \<Rightarrow> string \<Rightarrow> sup_state \<Rightarrow> sup_state" where
  "connect_failed peer base msg s =
     put_entry (identity_key peer)
       (base\<lparr>ts_status := Reconnecting, attempts := 1, next_retry_ms := Some (reconnect_backoff_ms 1 None None),
             ts_last_error := Some msg\<rparr>) None s"

definition connect_probed ::
  "supervisor_config \<Rightarrow> peer_identity \<Rightarrow> transport_state \<Rightarrow> transport_handle \<Rightarrow> string option
     \<Rightarrow> sup_state \<Rightarrow> sup_state" where
  "connect_probed cfg peer base h observed s =
     (case verify_endpoint_identity (identity_key peer) observed of
        Identity_ok \<Rightarrow>
          let s' = put_entry (identity_key peer)
                (base\<lparr>local_url := Some (th_local_url h), ts_status := Healthy,
                      verified_endpoint := Some (th_local_url h), credential_forwarding_allowed := True,
                      attempts := 0\<rparr>) (Some h) s
          in if sc_forwards cfg then s'\<lparr>sup_forwarded := sup_forwarded s' @ [(peer, h)]\<rparr> else s'
      | c \<Rightarrow> add_call (Stopping_untrusted peer base h c) (ask_stop h s))"

definition connect_suspended ::
  "peer_identity \<Rightarrow> transport_state \<Rightarrow> transport_handle \<Rightarrow> identity_check \<Rightarrow> sup_state \<Rightarrow> sup_state" where
  "connect_suspended peer base h c s =
     put_entry (identity_key peer)
       (base\<lparr>local_url := Some (th_local_url h), ts_status := Suspended,
             credential_forwarding_allowed := False, ts_last_error := Some (identity_reason c)\<rparr>) None s"

section \<open>disconnect, child exits and rotations\<close>

definition disconnect_start :: "string \<Rightarrow> sup_state \<Rightarrow> sup_state" where
  "disconnect_start k s =
     (case obj_get (sup_entries s) k of
        None \<Rightarrow> s
      | Some e \<Rightarrow>
          (case pe_handle e of
             Some h \<Rightarrow> add_call (Disconnecting k) (ask_stop h s)
           | None \<Rightarrow> s\<lparr>sup_entries := obj_del (sup_entries s) k\<rparr>))"

text \<open>The state of an entry after the exit of its child, and after an endpoint was observed for it.\<close>

definition child_exit_state :: "int \<Rightarrow> string option \<Rightarrow> transport_state \<Rightarrow> transport_state" where
  "child_exit_state max_attempts reason st =
     (let n = attempts st + 1;
          nx = st\<lparr>attempts := n, credential_forwarding_allowed := False,
                  ts_last_error := (case reason of None \<Rightarrow> ts_last_error st | Some r \<Rightarrow> Some r)\<rparr>
      in if n > max_attempts then nx\<lparr>ts_status := Failed, next_retry_ms := None\<rparr>
         else nx\<lparr>ts_status := Reconnecting, next_retry_ms := Some (reconnect_backoff_ms n None None)\<rparr>)"

text \<open>\<open>e.state = \<dots>; e.handle = undefined\<close>: the entry stays the same object.\<close>

definition update_entry :: "string \<Rightarrow> peer_entry \<Rightarrow> transport_state \<Rightarrow> sup_state \<Rightarrow> sup_state" where
  "update_entry k e st s =
     s\<lparr>sup_entries := obj_set (sup_entries s) k (e\<lparr>pe_state := st, pe_handle := None\<rparr>)\<rparr>"

definition note_child_exit ::
  "supervisor_config \<Rightarrow> string \<Rightarrow> string option \<Rightarrow> sup_state \<Rightarrow> transport_state option \<times> sup_state" where
  "note_child_exit cfg k reason s =
     (case obj_get (sup_entries s) k of
        None \<Rightarrow> (None, s)
      | Some e \<Rightarrow>
          if ts_status (pe_state e) = Failed then (Some (pe_state e), s)
          else let nx = child_exit_state (sc_max_attempts cfg) reason (pe_state e)
               in (Some nx, update_entry k e nx s))"

definition rotated_state :: "string option \<Rightarrow> transport_state \<Rightarrow> transport_state" where
  "rotated_state resolved st =
     st\<lparr>ts_status := Reconnecting, credential_forwarding_allowed := False,
        ts_last_error := Some (if resolved = None then ''endpoint-absent'' else ''endpoint-rotated''),
        local_url := resolved, verified_endpoint := None\<rparr>"

definition observe_endpoint ::
  "string \<Rightarrow> string option \<Rightarrow> sup_state \<Rightarrow> transport_state option \<times> sup_state" where
  "observe_endpoint k resolved s =
     (case obj_get (sup_entries s) k of
        None \<Rightarrow> (None, s)
      | Some e \<Rightarrow>
          if resolved \<noteq> None \<and> resolved = verified_endpoint (pe_state e) then (Some (pe_state e), s)
          else let nx = rotated_state resolved (pe_state e)
               in (Some nx, update_entry k e nx s))"

section \<open>Steps\<close>

text \<open>What a waiting call resumes with.\<close>

datatype call_outcome =
    Stop_done
  | Came_up transport_handle
  | Observed "string option"
  | Rejected string

datatype sup_event =
    Ev_connect peer_identity "int \<Rightarrow> bool"
  | Ev_disconnect string
  | Ev_child_exit string "string option"
  | Ev_observe string "string option"
  | Ev_resume nat call_outcome "int \<Rightarrow> bool"

text \<open>\<open>None\<close> for an outcome the call does not wait for. A rejection outside the factory rejects the
  call, which leaves everything as it is.\<close>

fun resume_call ::
  "supervisor_config \<Rightarrow> (int \<Rightarrow> bool) \<Rightarrow> pending_call \<Rightarrow> call_outcome \<Rightarrow> sup_state \<Rightarrow> sup_state option" where
  "resume_call cfg free (Stopping_previous peer r) Stop_done s =
     Some (connect_register cfg free peer (clear_handle r s))"
| "resume_call cfg free (Awaiting_factory peer base) (Came_up h) s = Some (add_call (Awaiting_probe peer base h) s)"
| "resume_call cfg free (Awaiting_factory peer base) (Rejected msg) s = Some (connect_failed peer base msg s)"
| "resume_call cfg free (Awaiting_probe peer base h) (Observed obs) s = Some (connect_probed cfg peer base h obs s)"
| "resume_call cfg free (Stopping_untrusted peer base h c) Stop_done s = Some (connect_suspended peer base h c s)"
| "resume_call cfg free (Disconnecting k) Stop_done s = Some (s\<lparr>sup_entries := obj_del (sup_entries s) k\<rparr>)"
| "resume_call cfg free c (Rejected msg) s = Some s"
| "resume_call cfg free c out s = None"

definition drop_call :: "nat \<Rightarrow> sup_state \<Rightarrow> sup_state" where
  "drop_call n s = s\<lparr>sup_calls := take n (sup_calls s) @ drop (Suc n) (sup_calls s)\<rparr>"

fun sup_apply :: "supervisor_config \<Rightarrow> sup_event \<Rightarrow> sup_state \<Rightarrow> sup_state option" where
  "sup_apply cfg (Ev_connect peer free) s = Some (connect_start cfg free peer s)"
| "sup_apply cfg (Ev_disconnect k) s = Some (disconnect_start k s)"
| "sup_apply cfg (Ev_child_exit k reason) s = Some (snd (note_child_exit cfg k reason s))"
| "sup_apply cfg (Ev_observe k resolved) s = Some (snd (observe_endpoint k resolved s))"
| "sup_apply cfg (Ev_resume n out free) s =
     (if n < length (sup_calls s)
      then resume_call cfg free (sup_calls s ! n) out (drop_call n s) else None)"

fun sup_run :: "supervisor_config \<Rightarrow> sup_event list \<Rightarrow> sup_state \<Rightarrow> sup_state option" where
  "sup_run cfg [] s = Some s"
| "sup_run cfg (ev # evs) s = Option.bind (sup_apply cfg ev s) (sup_run cfg evs)"

end
