(* ===== verification/Peer_Transport_Properties.thy ===== *)
theory Peer_Transport_Properties
  imports Peer_Transport
begin

text \<open>
  What the transport supervisor guarantees over every interleaving of its calls: the allocation finds
  the first free port of its band, a credential is forwarded to a verified endpoint only, one
  peer's transport does not touch another's, the local ports are distinct as long as no call of an
  identity is overtaken by another of the same identity, and child exits end in failure.
\<close>

section \<open>Allocation\<close>

lemma port_scan_step:
  "port_scan available p limit =
     (if p < limit then if available p then Some p else port_scan available (p + 1) limit else None)"
  by (rule port_scan.simps)

lemma port_scan_None: "port_scan available p limit = None \<longleftrightarrow> (\<forall>q. p \<le> q \<and> q < limit \<longrightarrow> \<not> available q)"
proof (induction available p limit rule: port_scan.induct)
  case (1 available p limit)
  have cut: "(\<forall>q. p \<le> q \<and> q < limit \<longrightarrow> \<not> available q) \<longleftrightarrow>
      (p < limit \<longrightarrow> \<not> available p) \<and> (\<forall>q. p + 1 \<le> q \<and> q < limit \<longrightarrow> \<not> available q)"
    by (metis zle_add1_eq_le add1_zle_eq order_le_less)
  show ?case
    unfolding cut using 1 by (cases "p < limit \<and> \<not> available p") (auto simp: port_scan_step [of available p])
qed

lemma port_scan_SomeD:
  "port_scan available p limit = Some q \<Longrightarrow>
     p \<le> q \<and> q < limit \<and> available q \<and> (\<forall>r. p \<le> r \<and> r < q \<longrightarrow> \<not> available r)"
proof (induction available p limit rule: port_scan.induct)
  case (1 available p limit)
  show ?case
  proof (cases "p < limit \<and> \<not> available p")
    case True
    with 1 have "p + 1 \<le> q \<and> q < limit \<and> available q \<and> (\<forall>r. p + 1 \<le> r \<and> r < q \<longrightarrow> \<not> available r)"
      by (simp add: port_scan_step [of available p])
    moreover have "\<not> available r" if "p \<le> r" "r < p + 1" for r
    proof -
      from that have "r = p" by simp
      with True show ?thesis by simp
    qed
    ultimately show ?thesis by (metis add1_zle_eq not_le order_less_imp_le)
  next
    case False
    with 1(2) show ?thesis by (auto simp: port_scan_step [of available p] split: if_splits)
  qed
qed

section \<open>Entries, calls and ports\<close>

definition port_of :: "sup_state \<Rightarrow> string \<Rightarrow> int option" where
  "port_of s k = Option.bind (obj_get (sup_entries s) k) (\<lambda>e. local_port (pe_state e))"

fun call_key :: "pending_call \<Rightarrow> string" where
  "call_key (Stopping_previous peer r) = identity_key peer"
| "call_key (Awaiting_factory peer base) = identity_key peer"
| "call_key (Awaiting_probe peer base h) = identity_key peer"
| "call_key (Stopping_untrusted peer base h c) = identity_key peer"
| "call_key (Disconnecting k) = k"

text \<open>The state a call will record, before it is completed.\<close>

fun call_base :: "pending_call \<Rightarrow> (peer_identity \<times> transport_state) option" where
  "call_base (Awaiting_factory peer base) = Some (peer, base)"
| "call_base (Awaiting_probe peer base h) = Some (peer, base)"
| "call_base (Stopping_untrusted peer base h c) = Some (peer, base)"
| "call_base _ = None"

text \<open>The runs of the supervisor whose events satisfy a guard.\<close>

inductive sup_reach :: "supervisor_config \<Rightarrow> (sup_event \<Rightarrow> sup_state \<Rightarrow> bool) \<Rightarrow> sup_state \<Rightarrow> bool"
  for cfg :: supervisor_config and guard :: "sup_event \<Rightarrow> sup_state \<Rightarrow> bool" where
  reach_init: "sup_reach cfg guard sup_init"
| reach_step: "sup_reach cfg guard s \<Longrightarrow> guard ev s \<Longrightarrow> sup_apply cfg ev s = Some s' \<Longrightarrow> sup_reach cfg guard s'"

abbreviation any_event :: "sup_event \<Rightarrow> sup_state \<Rightarrow> bool" where
  "any_event \<equiv> \<lambda>ev s. True"

text \<open>No call for an identity starts while another one for it waits.\<close>

fun calm :: "sup_event \<Rightarrow> sup_state \<Rightarrow> bool" where
  "calm (Ev_connect peer free) s \<longleftrightarrow> identity_key peer \<notin> call_key ` set (sup_calls s)"
| "calm (Ev_disconnect k) s \<longleftrightarrow> k \<notin> call_key ` set (sup_calls s)"
| "calm _ s \<longleftrightarrow> True"

lemma reach_any: "sup_reach cfg guard s \<Longrightarrow> sup_reach cfg any_event s"
  by (induction rule: sup_reach.induct) (auto intro: sup_reach.intros)

lemma reach_run: "sup_reach cfg any_event s \<Longrightarrow> sup_run cfg evs s = Some s' \<Longrightarrow> sup_reach cfg any_event s'"
  by (induction evs arbitrary: s) (auto intro: reach_step split: bind_splits)

lemma entries_after [simp]:
  "obj_get (sup_entries (put_entry k st h s)) j =
     (if j = k then Some \<lparr> pe_ref = sup_next_ref s, pe_state = st, pe_handle = h \<rparr>
      else obj_get (sup_entries s) j)"
  "obj_get (sup_entries (update_entry k e st s)) j =
     (if j = k then Some (e\<lparr>pe_state := st, pe_handle := None\<rparr>) else obj_get (sup_entries s) j)"
  "sup_entries (add_call c s) = sup_entries s"
  "sup_entries (ask_stop hn s) = sup_entries s"
  "sup_entries (drop_call n s) = sup_entries s"
  "obj_get (sup_entries (clear_handle r s)) j =
     map_option (\<lambda>e. if pe_ref e = r then e\<lparr>pe_handle := None\<rparr> else e) (obj_get (sup_entries s) j)"
  by (simp_all add: put_entry_def update_entry_def add_call_def ask_stop_def drop_call_def clear_handle_def
      map_of_map)

lemma calls_after [simp]:
  "sup_calls (put_entry k st h s) = sup_calls s"
  "sup_calls (update_entry k e st s) = sup_calls s"
  "sup_calls (add_call c s) = sup_calls s @ [c]"
  "sup_calls (ask_stop hn s) = sup_calls s"
  "sup_calls (clear_handle r s) = sup_calls s"
  "sup_calls (drop_call n s) = take n (sup_calls s) @ drop (Suc n) (sup_calls s)"
  by (simp_all add: put_entry_def update_entry_def add_call_def ask_stop_def drop_call_def clear_handle_def)

lemma refs_after [simp]:
  "sup_next_ref (put_entry k st h s) = Suc (sup_next_ref s)"
  "sup_next_ref (update_entry k e st s) = sup_next_ref s"
  "sup_next_ref (add_call c s) = sup_next_ref s"
  "sup_next_ref (ask_stop hn s) = sup_next_ref s"
  "sup_next_ref (clear_handle r s) = sup_next_ref s"
  "sup_next_ref (drop_call n s) = sup_next_ref s"
  by (simp_all add: put_entry_def update_entry_def add_call_def ask_stop_def drop_call_def clear_handle_def)

lemma forwarded_after [simp]:
  "sup_forwarded (put_entry k st h s) = sup_forwarded s"
  "sup_forwarded (update_entry k e st s) = sup_forwarded s"
  "sup_forwarded (add_call c s) = sup_forwarded s"
  "sup_forwarded (ask_stop hn s) = sup_forwarded s"
  "sup_forwarded (clear_handle r s) = sup_forwarded s"
  "sup_forwarded (drop_call n s) = sup_forwarded s"
  by (simp_all add: put_entry_def update_entry_def add_call_def ask_stop_def drop_call_def clear_handle_def)

lemma port_of_after [simp]:
  "port_of (put_entry k st h s) j = (if j = k then local_port st else port_of s j)"
  "port_of (add_call c s) j = port_of s j"
  "port_of (ask_stop hn s) j = port_of s j"
  "port_of (drop_call n s) j = port_of s j"
  "port_of (clear_handle r s) j = port_of s j"
  "port_of (s\<lparr>sup_entries := obj_del (sup_entries s) k\<rparr>) j = (if j = k then None else port_of s j)"
  "port_of (s\<lparr>sup_forwarded := l\<rparr>) j = port_of s j"
  by (auto simp: port_of_def split: bind_splits)

lemma port_of_update:
  "obj_get (sup_entries s) k = Some e \<Longrightarrow> local_port st = local_port (pe_state e) \<Longrightarrow>
   port_of (update_entry k e st s) j = port_of s j"
  by (simp add: port_of_def)

lemma dropped_in: "c \<in> set (take n cs @ drop (Suc n) cs) \<Longrightarrow> c \<in> set cs"
  by (auto dest: in_set_takeD in_set_dropD)

section \<open>The invariant of the entries\<close>

definition entry_ok :: "string \<Rightarrow> transport_state \<Rightarrow> transport_handle option \<Rightarrow> bool" where
  "entry_ok k st h \<longleftrightarrow>
     ts_identity_key st = k \<and> (credential_forwarding_allowed st \<longleftrightarrow> ts_status st = Healthy)
     \<and> (ts_status st = Healthy \<longleftrightarrow> h \<noteq> None) \<and> 0 \<le> attempts st
     \<and> (\<forall>hd. h = Some hd \<longrightarrow>
          local_url st = Some (th_local_url hd) \<and> verified_endpoint st = Some (th_local_url hd))"

definition base_ok :: "pending_call \<Rightarrow> bool" where
  "base_ok c \<longleftrightarrow>
     (\<forall>peer base. call_base c = Some (peer, base) \<longrightarrow>
        ts_identity_key base = identity_key peer \<and> attempts base = 0 \<and> \<not> credential_forwarding_allowed base)"

text \<open>A reference belongs to one identity, that of the call that holds it.\<close>

definition ref_of :: "sup_state \<Rightarrow> string \<Rightarrow> nat option" where
  "ref_of s k = map_option pe_ref (obj_get (sup_entries s) k)"

definition refs_ok :: "sup_state \<Rightarrow> bool" where
  "refs_ok s \<longleftrightarrow>
     (\<forall>k r. ref_of s k = Some r \<longrightarrow> r < sup_next_ref s)
     \<and> (\<forall>k k' r. ref_of s k = Some r \<longrightarrow> ref_of s k' = Some r \<longrightarrow> k = k')
     \<and> (\<forall>peer r. Stopping_previous peer r \<in> set (sup_calls s) \<longrightarrow> r < sup_next_ref s \<and>
          (\<forall>k. ref_of s k = Some r \<longrightarrow> k = identity_key peer))"

lemma ref_of_after [simp]:
  "ref_of (put_entry k st h s) j = (if j = k then Some (sup_next_ref s) else ref_of s j)"
  "ref_of (add_call c s) j = ref_of s j"
  "ref_of (ask_stop hn s) j = ref_of s j"
  "ref_of (drop_call n s) j = ref_of s j"
  "ref_of (clear_handle r s) j = ref_of s j"
  "ref_of (s\<lparr>sup_entries := obj_del (sup_entries s) k\<rparr>) j = (if j = k then None else ref_of s j)"
  "ref_of (s\<lparr>sup_forwarded := l\<rparr>) j = ref_of s j"
  by (simp_all add: ref_of_def) (cases "obj_get (sup_entries s) j"; simp)+

lemma ref_of_update: "obj_get (sup_entries s) k = Some e \<Longrightarrow> ref_of (update_entry k e st s) j = ref_of s j"
  by (simp add: ref_of_def)

definition entries_ok :: "sup_state \<Rightarrow> bool" where
  "entries_ok s \<longleftrightarrow>
     (\<forall>k e. obj_get (sup_entries s) k = Some e \<longrightarrow> entry_ok k (pe_state e) (pe_handle e))"

definition sup_ok :: "sup_state \<Rightarrow> bool" where
  "sup_ok s \<longleftrightarrow> entries_ok s \<and> refs_ok s \<and> (\<forall>c \<in> set (sup_calls s). base_ok c)"

lemma sup_okD:
  "sup_ok s \<Longrightarrow> obj_get (sup_entries s) k = Some e \<Longrightarrow> entry_ok k (pe_state e) (pe_handle e)"
  "sup_ok s \<Longrightarrow> c \<in> set (sup_calls s) \<Longrightarrow> base_ok c"
  by (auto simp: sup_ok_def entries_ok_def)

lemma refs_okD:
  assumes "refs_ok s"
  shows "ref_of s k = Some r \<Longrightarrow> r < sup_next_ref s"
    and "ref_of s k = Some r \<Longrightarrow> ref_of s k' = Some r \<Longrightarrow> k = k'"
    and "Stopping_previous peer r \<in> set (sup_calls s) \<Longrightarrow> r < sup_next_ref s"
    and "Stopping_previous peer r \<in> set (sup_calls s) \<Longrightarrow> ref_of s k = Some r \<Longrightarrow> k = identity_key peer"
  using assms unfolding refs_ok_def by blast+

lemma refs_ok_put: "refs_ok s \<Longrightarrow> refs_ok (put_entry k st h s)"
  unfolding refs_ok_def ref_of_after calls_after refs_after
  by (intro conjI allI impI) (auto split: if_splits simp: less_Suc_eq dest: refs_okD)

lemma refs_ok_after:
  "refs_ok (clear_handle r s) = refs_ok s"
  "refs_ok (ask_stop hn s) = refs_ok s"
  "refs_ok (s\<lparr>sup_forwarded := l\<rparr>) = refs_ok s"
  by (simp_all add: refs_ok_def)

lemma refs_ok_update:
  "refs_ok s \<Longrightarrow> obj_get (sup_entries s) k = Some e \<Longrightarrow> refs_ok (update_entry k e st s)"
  by (simp add: refs_ok_def ref_of_update)

lemma refs_ok_fewer:
  assumes "refs_ok s" and "set (sup_calls s') \<subseteq> set (sup_calls s)" and "sup_next_ref s' = sup_next_ref s"
    and "\<And>k r. ref_of s' k = Some r \<Longrightarrow> ref_of s k = Some r"
  shows "refs_ok s'"
  unfolding refs_ok_def using assms by (metis refs_okD subsetD)

lemma refs_ok_drop: "refs_ok s \<Longrightarrow> refs_ok (drop_call n s)"
  by (erule refs_ok_fewer) (auto dest: in_set_takeD in_set_dropD)

lemma refs_ok_delete: "refs_ok s \<Longrightarrow> refs_ok (s\<lparr>sup_entries := obj_del (sup_entries s) k\<rparr>)"
  by (erule refs_ok_fewer) (auto split: if_splits)

lemma refs_ok_call:
  "refs_ok s \<Longrightarrow> (\<And>peer r. c = Stopping_previous peer r \<Longrightarrow> ref_of s (identity_key peer) = Some r) \<Longrightarrow>
   refs_ok (add_call c s)"
  unfolding refs_ok_def ref_of_after calls_after refs_after
  by (intro conjI allI impI) (auto dest: refs_okD)

lemma sup_ok_put:
  "sup_ok s \<Longrightarrow> entry_ok k st h \<Longrightarrow> sup_ok (put_entry k st h s)"
  by (simp add: sup_ok_def refs_ok_put) (simp add: entries_ok_def)

lemma sup_ok_put_cleared:
  assumes "sup_ok s" and "\<And>j. ref_of s j = Some r \<Longrightarrow> j = k" and "entry_ok k st h"
  shows "sup_ok (put_entry k st h (clear_handle r s))"
proof -
  have "pe_ref e \<noteq> r" if "obj_get (sup_entries s) j = Some e" "j \<noteq> k" for j e
    using assms(2) [of j] that by (auto simp: ref_of_def)
  with assms(1,3) show ?thesis by (simp add: sup_ok_def refs_ok_after refs_ok_put) (auto simp: entries_ok_def)
qed

lemma sup_ok_update:
  "sup_ok s \<Longrightarrow> obj_get (sup_entries s) k = Some e \<Longrightarrow> entry_ok k st None \<Longrightarrow> sup_ok (update_entry k e st s)"
  by (simp add: sup_ok_def refs_ok_update) (simp add: entries_ok_def)

lemma sup_ok_call:
  assumes "sup_ok s" and "base_ok c"
    and "\<And>peer r. c = Stopping_previous peer r \<Longrightarrow> ref_of s (identity_key peer) = Some r"
  shows "sup_ok (add_call c s)"
proof -
  have "refs_ok (add_call c s)" using assms(1,3) by (intro refs_ok_call) (simp_all add: sup_ok_def)
  with assms(1,2) show ?thesis by (auto simp: sup_ok_def entries_ok_def)
qed

lemma sup_ok_stopping:
  "sup_ok s \<Longrightarrow> obj_get (sup_entries s) (identity_key peer) = Some e \<Longrightarrow>
   sup_ok (add_call (Stopping_previous peer (pe_ref e)) s)"
  by (rule sup_ok_call) (auto simp: base_ok_def ref_of_def)

lemma sup_ok_ask_stop [simp]: "sup_ok (ask_stop hn s) = sup_ok s"
  by (simp add: sup_ok_def refs_ok_after) (simp add: entries_ok_def)

lemma sup_ok_drop: "sup_ok s \<Longrightarrow> sup_ok (drop_call n s)"
  by (auto simp: sup_ok_def refs_ok_drop entries_ok_def dest: in_set_takeD in_set_dropD)

lemma sup_ok_delete: "sup_ok s \<Longrightarrow> sup_ok (s\<lparr>sup_entries := obj_del (sup_entries s) k\<rparr>)"
  by (simp add: sup_ok_def refs_ok_delete) (simp add: entries_ok_def)

lemma sup_ok_forwarded [simp]: "sup_ok (s\<lparr>sup_forwarded := l\<rparr>) = sup_ok s"
  by (simp add: sup_ok_def refs_ok_after) (simp add: entries_ok_def)

lemma base_ok_simps [simp]:
  "base_ok (Stopping_previous peer r)" "base_ok (Disconnecting k)"
  "call_base c = Some (peer, base) \<Longrightarrow> base_ok c \<longleftrightarrow>
     ts_identity_key base = identity_key peer \<and> attempts base = 0 \<and> \<not> credential_forwarding_allowed base"
  by (auto simp: base_ok_def)

lemma base_state_simps [simp]:
  "ts_identity_key (base_state peer) = identity_key peer" "attempts (base_state peer) = 0"
  "credential_forwarding_allowed (base_state peer) = False" "ts_status (base_state peer) = Connecting"
  "local_port (base_state peer) = None"
  by (simp_all add: base_state_def)

text \<open>Registering is putting an entry, with a call to the factory when a port was found.\<close>

lemma connect_register_cases:
  obtains "connect_register cfg free peer s = put_entry (identity_key peer)
      ((base_state peer)\<lparr>ts_status := Failed, ts_last_error := Some ''local-port-exhausted''\<rparr>) None s"
  | p where "allocate_loopback_port (sc_base cfg) (Some (sc_range cfg))
        (port_available cfg free (identity_key peer) s) = Some p"
    "connect_register cfg free peer s =
      add_call (Awaiting_factory peer ((base_state peer)\<lparr>local_port := Some p\<rparr>))
        (put_entry (identity_key peer) ((base_state peer)\<lparr>local_port := Some p\<rparr>) None s)"
  by (cases "allocate_loopback_port (sc_base cfg) (Some (sc_range cfg))
        (port_available cfg free (identity_key peer) s)")
    (auto simp: connect_register_def Let_def)

lemma base_state_entry_ok [simp]:
  "entry_ok k ((base_state peer)\<lparr>local_port := p\<rparr>) None = (k = identity_key peer)"
  "entry_ok k ((base_state peer)\<lparr>ts_status := Failed, ts_last_error := m\<rparr>) None = (k = identity_key peer)"
  by (auto simp: entry_ok_def)

lemma sup_ok_register: "sup_ok s \<Longrightarrow> sup_ok (connect_register cfg free peer s)"
  by (rule connect_register_cases [of cfg free peer s]) (auto intro!: sup_ok_put sup_ok_call)

lemma sup_ok_register_cleared:
  assumes "sup_ok s" and "\<And>j. ref_of s j = Some r \<Longrightarrow> j = identity_key peer"
  shows "sup_ok (connect_register cfg free peer (clear_handle r s))"
  by (rule connect_register_cases [of cfg free peer "clear_handle r s"])
    (auto intro!: sup_ok_put_cleared assms sup_ok_call)

lemma sup_ok_resume:
  assumes ok: "sup_ok s" and c: "base_ok c"
    and r: "\<And>peer r j. c = Stopping_previous peer r \<Longrightarrow> ref_of s j = Some r \<Longrightarrow> j = identity_key peer"
    and step: "resume_call cfg free c out s = Some s'"
  shows "sup_ok s'"
proof (cases c)
  case (Stopping_previous peer r')
  with step ok r show ?thesis by (cases out) (auto intro!: sup_ok_register_cleared)
next
  case (Awaiting_factory peer base)
  with step ok c show ?thesis
    by (cases out) (auto simp: connect_failed_def entry_ok_def intro!: sup_ok_put sup_ok_call)
next
  case (Awaiting_probe peer base h)
  with step ok c show ?thesis
    by (cases out) (auto simp: connect_probed_def Let_def entry_ok_def intro!: sup_ok_put sup_ok_call
        split: identity_check.splits)
next
  case (Stopping_untrusted peer base h v)
  with step ok c show ?thesis
    by (cases out) (auto simp: connect_suspended_def entry_ok_def intro!: sup_ok_put)
next
  case (Disconnecting k)
  with step ok show ?thesis by (cases out) (auto intro!: sup_ok_delete)
qed

lemma child_exit_entry_ok: "entry_ok k st h \<Longrightarrow> entry_ok k (child_exit_state m reason st) None"
  by (auto simp: entry_ok_def child_exit_state_def Let_def)

lemma rotated_entry_ok: "entry_ok k st h \<Longrightarrow> entry_ok k (rotated_state u st) None"
  by (auto simp: entry_ok_def rotated_state_def)

lemma sup_ok_apply:
  assumes ok: "sup_ok s" and step: "sup_apply cfg ev s = Some s'"
  shows "sup_ok s'"
proof (cases ev)
  case (Ev_connect peer free)
  with step ok show ?thesis
    by (auto simp: connect_start_def sup_ok_register sup_ok_stopping split: option.splits)
next
  case (Ev_disconnect k)
  with step ok show ?thesis
    by (auto simp: disconnect_start_def split: option.splits intro!: sup_ok_call sup_ok_delete)
next
  case (Ev_child_exit k reason)
  with step ok show ?thesis
    by (auto simp: note_child_exit_def Let_def split: option.splits if_splits
        intro!: sup_ok_update child_exit_entry_ok dest: sup_okD)
next
  case (Ev_observe k u)
  with step ok show ?thesis
    by (auto simp: observe_endpoint_def Let_def split: option.splits if_splits
        intro!: sup_ok_update rotated_entry_ok dest: sup_okD)
next
  case (Ev_resume n out free)
  with step have n: "n < length (sup_calls s)"
    and res: "resume_call cfg free (sup_calls s ! n) out (drop_call n s) = Some s'"
    by (auto split: if_splits)
  have mem: "sup_calls s ! n \<in> set (sup_calls s)" using n by simp
  show ?thesis
  proof (rule sup_ok_resume [OF sup_ok_drop [OF ok] _ _ res])
    show "base_ok (sup_calls s ! n)" using ok mem by (rule sup_okD)
    show "j = identity_key peer"
      if "sup_calls s ! n = Stopping_previous peer r" "ref_of (drop_call n s) j = Some r" for peer r j
      using ok mem that by (auto simp: sup_ok_def refs_ok_def)
  qed
qed

lemma sup_reach_ok: "sup_reach cfg guard s \<Longrightarrow> sup_ok s"
proof (induction rule: sup_reach.induct)
  case reach_init
  show ?case by (simp add: sup_ok_def entries_ok_def refs_ok_def ref_of_def sup_init_def)
qed (auto intro: sup_ok_apply)

section \<open>The invariant of the ports\<close>

definition in_band :: "supervisor_config \<Rightarrow> int \<Rightarrow> bool" where
  "in_band cfg p \<longleftrightarrow> sc_base cfg \<le> p \<and> p < sc_base cfg + sc_range cfg \<and> p \<notin> set (sc_reserved cfg)"

definition ports_ok :: "supervisor_config \<Rightarrow> sup_state \<Rightarrow> bool" where
  "ports_ok cfg s \<longleftrightarrow>
     distinct (map call_key (sup_calls s))
     \<and> (\<forall>k p. port_of s k = Some p \<longrightarrow> in_band cfg p)
     \<and> (\<forall>k k' p. port_of s k = Some p \<longrightarrow> port_of s k' = Some p \<longrightarrow> k = k')
     \<and> (\<forall>c \<in> set (sup_calls s). \<forall>peer base. call_base c = Some (peer, base) \<longrightarrow>
          port_of s (identity_key peer) = local_port base)"

text \<open>No call for the identity waits.\<close>

abbreviation no_call :: "sup_state \<Rightarrow> string \<Rightarrow> bool" where
  "no_call s k \<equiv> k \<notin> call_key ` set (sup_calls s)"

lemma call_base_key: "call_base c = Some (peer, base) \<Longrightarrow> identity_key peer = call_key c"
  by (cases c) auto

lemma allocated:
  assumes "allocate_loopback_port (sc_base cfg) (Some (sc_range cfg)) (port_available cfg free k s) = Some p"
  shows "in_band cfg p" and "k' \<noteq> k \<Longrightarrow> port_of s k' \<noteq> Some p"
proof -
  from assms have p: "sc_base cfg \<le> p \<and> p < sc_base cfg + sc_range cfg" "port_available cfg free k s p"
    by (auto simp: allocate_loopback_port_def dest: port_scan_SomeD)
  then show "in_band cfg p" by (simp add: in_band_def port_available_def)
  show "port_of s k' \<noteq> Some p" if "k' \<noteq> k"
  proof
    assume "port_of s k' = Some p"
    then obtain e where e: "obj_get (sup_entries s) k' = Some e" "local_port (pe_state e) = Some p"
      by (auto simp: port_of_def split: bind_splits)
    from map_of_SomeD [OF e(1)] e(2) that have "p \<in> set (handed_out k s)"
      unfolding handed_out_def set_map_filter by force
    with p(2) show False by (simp add: port_available_def)
  qed
qed

lemma ports_ok_same:
  "port_of s' = port_of s \<Longrightarrow> sup_calls s' = sup_calls s \<Longrightarrow> ports_ok cfg s' = ports_ok cfg s"
  by (simp add: ports_ok_def)

lemma ports_ok_put:
  assumes "ports_ok cfg s" and "no_call s k"
    and "\<And>p. local_port st = Some p \<Longrightarrow> in_band cfg p \<and> (\<forall>k'. k' \<noteq> k \<longrightarrow> port_of s k' \<noteq> Some p)"
  shows "ports_ok cfg (put_entry k st h s)"
proof -
  have base: "identity_key peer \<noteq> k" if "c \<in> set (sup_calls s)" "call_base c = Some (peer, base)" for c peer base
    using assms(2) that call_base_key [OF that(2)] by auto
  show ?thesis
    unfolding ports_ok_def calls_after port_of_after
  proof (intro conjI allI impI ballI)
    show "distinct (map call_key (sup_calls s))" using assms(1) by (simp add: ports_ok_def)
  next
    fix k' p assume "(if k' = k then local_port st else port_of s k') = Some p"
    then show "in_band cfg p" using assms(1,3) by (auto simp: ports_ok_def split: if_splits)
  next
    fix k1 k2 p assume "(if k1 = k then local_port st else port_of s k1) = Some p"
      "(if k2 = k then local_port st else port_of s k2) = Some p"
    then show "k1 = k2" using assms(1,3) by (auto simp: ports_ok_def split: if_splits)
  next
    fix c peer base assume "c \<in> set (sup_calls s)" "call_base c = Some (peer, base)"
    then show "(if identity_key peer = k then local_port st else port_of s (identity_key peer)) = local_port base"
      using base assms(1) by (auto simp: ports_ok_def)
  qed
qed

lemma ports_ok_put_same:
  assumes "ports_ok cfg s" and "no_call s k" and "local_port st = port_of s k"
  shows "ports_ok cfg (put_entry k st h s)"
  by (rule ports_ok_put [OF assms(1,2)]) (use assms(1,3) in \<open>auto simp: ports_ok_def\<close>)

lemma ports_ok_call:
  assumes "ports_ok cfg s" and "no_call s (call_key c)"
    and "\<And>peer base. call_base c = Some (peer, base) \<Longrightarrow> port_of s (identity_key peer) = local_port base"
  shows "ports_ok cfg (add_call c s)"
  using assms by (auto simp: ports_ok_def)

lemma ports_ok_delete:
  assumes "ports_ok cfg s" and "no_call s k"
  shows "ports_ok cfg (s\<lparr>sup_entries := obj_del (sup_entries s) k\<rparr>)"
proof -
  have base: "identity_key peer \<noteq> k" if "c \<in> set (sup_calls s)" "call_base c = Some (peer, base)" for c peer base
    using assms(2) that call_base_key [OF that(2)] by auto
  show ?thesis
    unfolding ports_ok_def port_of_after using assms(1) base by (auto simp: ports_ok_def)
qed

lemma ports_ok_drop:
  assumes "ports_ok cfg s" and "n < length (sup_calls s)"
  shows "ports_ok cfg (drop_call n s)" and "no_call (drop_call n s) (call_key (sup_calls s ! n))"
proof -
  let ?c = "sup_calls s"
  have split: "?c = take n ?c @ ?c ! n # drop (Suc n) ?c" using assms(2) by (rule id_take_nth_drop)
  have "distinct (map call_key (take n ?c @ ?c ! n # drop (Suc n) ?c))"
    using assms(1) by (simp add: ports_ok_def flip: split)
  then have d: "distinct (map call_key (take n ?c @ drop (Suc n) ?c))"
    "call_key (?c ! n) \<notin> call_key ` set (take n ?c @ drop (Suc n) ?c)"
    by auto
  show "no_call (drop_call n s) (call_key (sup_calls s ! n))" using d(2) by simp
  have sub: "c \<in> set ?c" if "c \<in> set (take n ?c @ drop (Suc n) ?c)" for c
    using that by (auto dest: in_set_takeD in_set_dropD)
  show "ports_ok cfg (drop_call n s)"
    unfolding ports_ok_def calls_after port_of_after
    using assms(1) d(1) sub by (simp only: ports_ok_def) blast
qed

lemma ports_ok_register:
  assumes "ports_ok cfg s" and "no_call s (identity_key peer)"
  shows "ports_ok cfg (connect_register cfg free peer s)"
proof (rule connect_register_cases [of cfg free peer s])
  fix p assume "allocate_loopback_port (sc_base cfg) (Some (sc_range cfg))
      (port_available cfg free (identity_key peer) s) = Some p"
    and eq: "connect_register cfg free peer s =
      add_call (Awaiting_factory peer ((base_state peer)\<lparr>local_port := Some p\<rparr>))
        (put_entry (identity_key peer) ((base_state peer)\<lparr>local_port := Some p\<rparr>) None s)"
  from allocated [OF this(1)] show ?thesis
    unfolding eq using assms by (intro ports_ok_call ports_ok_put) auto
qed (use assms in \<open>auto intro!: ports_ok_put\<close>)

lemma ports_ok_clear [simp]: "ports_ok cfg (clear_handle r s) = ports_ok cfg s"
  and ports_ok_stop [simp]: "ports_ok cfg (ask_stop hn s) = ports_ok cfg s"
  and ports_ok_forwarded [simp]: "ports_ok cfg (s\<lparr>sup_forwarded := l\<rparr>) = ports_ok cfg s"
  by (rule ports_ok_same; auto)+

lemma ports_ok_resume:
  assumes ok: "ports_ok cfg s" and n: "no_call s (call_key c)"
    and base: "\<And>peer base. call_base c = Some (peer, base) \<Longrightarrow> port_of s (identity_key peer) = local_port base"
    and step: "resume_call cfg free c out s = Some s'"
  shows "ports_ok cfg s'"
proof (cases c)
  case (Stopping_previous peer r')
  with step ok n show ?thesis by (cases out) (auto intro!: ports_ok_register)
next
  case (Awaiting_factory peer base)
  with step ok n base show ?thesis
    by (cases out) (auto simp: connect_failed_def intro!: ports_ok_put_same ports_ok_call)
next
  case (Awaiting_probe peer base h)
  with step ok n base show ?thesis
    by (cases out) (auto simp: connect_probed_def Let_def intro!: ports_ok_put_same ports_ok_call
        split: identity_check.splits)
next
  case (Stopping_untrusted peer base h v)
  with step ok n base show ?thesis
    by (cases out) (auto simp: connect_suspended_def intro!: ports_ok_put_same)
next
  case (Disconnecting k)
  with step ok n show ?thesis by (cases out) (auto intro!: ports_ok_delete)
qed

lemma ports_ok_update:
  "obj_get (sup_entries s) k = Some e \<Longrightarrow> local_port st = local_port (pe_state e) \<Longrightarrow>
   ports_ok cfg (update_entry k e st s) = ports_ok cfg s"
  by (rule ports_ok_same) (auto simp: port_of_update)

lemma kept_port [simp]:
  "local_port (child_exit_state m reason st) = local_port st"
  "local_port (rotated_state u st) = local_port st"
  by (simp_all add: child_exit_state_def rotated_state_def Let_def)

lemma ports_ok_apply:
  assumes ok: "ports_ok cfg s" and calm: "calm ev s" and step: "sup_apply cfg ev s = Some s'"
  shows "ports_ok cfg s'"
proof (cases ev)
  case (Ev_connect peer free)
  with step ok calm show ?thesis
    by (auto simp: connect_start_def split: option.splits intro!: ports_ok_register ports_ok_call)
next
  case (Ev_disconnect k)
  with step ok calm show ?thesis
    by (auto simp: disconnect_start_def split: option.splits intro!: ports_ok_call ports_ok_delete)
next
  case (Ev_child_exit k reason)
  with step ok show ?thesis
    by (auto simp: note_child_exit_def Let_def ports_ok_update split: option.splits if_splits)
next
  case (Ev_observe k u)
  with step ok show ?thesis
    by (auto simp: observe_endpoint_def Let_def ports_ok_update split: option.splits if_splits)
next
  case (Ev_resume n out free)
  with step have n: "n < length (sup_calls s)"
    and res: "resume_call cfg free (sup_calls s ! n) out (drop_call n s) = Some s'"
    by (auto split: if_splits)
  show ?thesis
  proof (rule ports_ok_resume [OF ports_ok_drop [OF ok n] _ res])
    fix peer base assume "call_base (sup_calls s ! n) = Some (peer, base)"
    moreover have "sup_calls s ! n \<in> set (sup_calls s)" using n by simp
    ultimately show "port_of (drop_call n s) (identity_key peer) = local_port base"
      using ok by (simp add: ports_ok_def)
  qed
qed

lemma calm_reach_ports: "sup_reach cfg calm s \<Longrightarrow> ports_ok cfg s"
proof (induction rule: sup_reach.induct)
  case reach_init
  show ?case by (simp add: ports_ok_def port_of_def sup_init_def)
qed (auto intro: ports_ok_apply)

section \<open>Steps of one identity\<close>

text \<open>The identity an event is about.\<close>

fun event_key :: "sup_event \<Rightarrow> sup_state \<Rightarrow> string" where
  "event_key (Ev_connect peer free) s = identity_key peer"
| "event_key (Ev_disconnect k) s = k"
| "event_key (Ev_child_exit k reason) s = k"
| "event_key (Ev_observe k u) s = k"
| "event_key (Ev_resume n out free) s = call_key (sup_calls s ! n)"

lemma register_others: "j \<noteq> identity_key peer \<Longrightarrow>
  obj_get (sup_entries (connect_register cfg free peer s)) j = obj_get (sup_entries s) j"
  by (rule connect_register_cases [of cfg free peer s]) auto

lemma clear_others:
  assumes "sup_ok s" and "Stopping_previous peer r \<in> set (sup_calls s)" and "j \<noteq> identity_key peer"
  shows "obj_get (sup_entries (clear_handle r s)) j = obj_get (sup_entries s) j"
proof (cases "obj_get (sup_entries s) j")
  case (Some e)
  have "ref_of s j \<noteq> Some r" using assms by (auto simp: sup_ok_def refs_ok_def)
  with Some show ?thesis by (auto simp: ref_of_def)
qed simp

lemma entries_drop_clear: "sup_entries (clear_handle r (drop_call n s)) = sup_entries (clear_handle r s)"
  by (simp add: clear_handle_def drop_call_def)

lemma step_others:
  assumes ok: "sup_ok s" and step: "sup_apply cfg ev s = Some s'" and j: "j \<noteq> event_key ev s"
  shows "obj_get (sup_entries s') j = obj_get (sup_entries s) j"
proof (cases ev)
  case (Ev_connect peer free)
  with step j show ?thesis
    by (auto simp: connect_start_def register_others split: option.splits)
next
  case (Ev_disconnect k)
  with step j show ?thesis by (auto simp: disconnect_start_def split: option.splits)
next
  case (Ev_child_exit k reason)
  with step j show ?thesis by (auto simp: note_child_exit_def Let_def split: option.splits if_splits)
next
  case (Ev_observe k u)
  with step j show ?thesis by (auto simp: observe_endpoint_def Let_def split: option.splits if_splits)
next
  case (Ev_resume n out free)
  with step have n: "n < length (sup_calls s)"
    and res: "resume_call cfg free (sup_calls s ! n) out (drop_call n s) = Some s'"
    by (auto split: if_splits)
  show ?thesis
  proof (cases "sup_calls s ! n")
    case (Stopping_previous peer r)
    with n have "Stopping_previous peer r \<in> set (sup_calls s)" by (metis nth_mem)
    from clear_others [OF ok this, of j] Stopping_previous res j Ev_resume show ?thesis
      by (cases out) (auto simp: register_others entries_drop_clear simp del: entries_after(6))
  next
    case (Awaiting_factory peer base)
    with res j Ev_resume show ?thesis by (cases out) (auto simp: connect_failed_def)
  next
    case (Awaiting_probe peer base h)
    with res j Ev_resume show ?thesis
      by (cases out) (auto simp: connect_probed_def Let_def split: identity_check.splits)
  next
    case (Stopping_untrusted peer base h v)
    with res j Ev_resume show ?thesis by (cases out) (auto simp: connect_suspended_def)
  next
    case (Disconnecting k)
    with res j Ev_resume show ?thesis by (cases out) auto
  qed
qed

text \<open>The event is the verification of an identity's endpoint.\<close>

definition verifies :: "sup_event \<Rightarrow> sup_state \<Rightarrow> peer_identity \<Rightarrow> transport_handle \<Rightarrow> bool" where
  "verifies ev s peer h \<longleftrightarrow>
     (\<exists>n obs free base. ev = Ev_resume n (Observed (Some obs)) free \<and> n < length (sup_calls s)
        \<and> sup_calls s ! n = Awaiting_probe peer base h
        \<and> js_trim obs = js_trim (identity_key peer) \<and> js_trim obs \<noteq> [])"

lemma verified_iff:
  "verify_endpoint_identity e observed = Identity_ok \<longleftrightarrow>
     (\<exists>obs. observed = Some obs \<and> js_trim obs = js_trim e \<and> js_trim obs \<noteq> [])"
  by (cases observed) (auto simp: verify_endpoint_identity_def Let_def)

lemma register_gate: "can_forward_credential (connect_register cfg free peer s) k \<Longrightarrow>
  k \<noteq> identity_key peer \<and> can_forward_credential s k"
  by (rule connect_register_cases [of cfg free peer s])
    (auto simp: can_forward_credential_def split: if_splits)

lemma register_forwarded [simp]: "sup_forwarded (connect_register cfg free peer s) = sup_forwarded s"
  by (rule connect_register_cases [of cfg free peer s]) auto

lemma gate_after [simp]:
  "can_forward_credential (add_call c s) k = can_forward_credential s k"
  "can_forward_credential (ask_stop hn s) k = can_forward_credential s k"
  "can_forward_credential (drop_call n s) k = can_forward_credential s k"
  "can_forward_credential (clear_handle r s) k = can_forward_credential s k"
  "can_forward_credential (s\<lparr>sup_forwarded := l\<rparr>) k = can_forward_credential s k"
  "can_forward_credential (put_entry j st h s) k =
     (if k = j then credential_forwarding_allowed st else can_forward_credential s k)"
  "can_forward_credential (update_entry j e st s) k =
     (if k = j then credential_forwarding_allowed st else can_forward_credential s k)"
  "can_forward_credential (t\<lparr>sup_entries := obj_del (sup_entries s) j\<rparr>) k =
     (k \<noteq> j \<and> can_forward_credential s k)"
  by (simp_all add: can_forward_credential_def split: option.split)

lemma gate_step:
  assumes ok: "sup_ok s" and step: "sup_apply cfg ev s = Some s'"
  shows "(can_forward_credential s' k \<longrightarrow> can_forward_credential s k \<or>
      (\<exists>peer h. verifies ev s peer h \<and> identity_key peer = k))
    \<and> (sup_forwarded s' = sup_forwarded s \<or>
      (\<exists>peer h. verifies ev s peer h \<and> sc_forwards cfg \<and> sup_forwarded s' = sup_forwarded s @ [(peer, h)]))"
proof (cases ev)
  case (Ev_connect peer free)
  with step show ?thesis
    by (auto simp: connect_start_def split: option.splits dest: register_gate)
next
  case (Ev_disconnect j)
  with step show ?thesis by (auto simp: disconnect_start_def split: option.splits)
next
  case (Ev_child_exit j reason)
  with step show ?thesis
    by (auto simp: note_child_exit_def child_exit_state_def Let_def split: option.splits if_splits)
next
  case (Ev_observe j u)
  with step show ?thesis
    by (auto simp: observe_endpoint_def rotated_state_def Let_def split: option.splits if_splits)
next
  case (Ev_resume n out free)
  with step have n: "n < length (sup_calls s)"
    and res: "resume_call cfg free (sup_calls s ! n) out (drop_call n s) = Some s'"
    by (auto split: if_splits)
  have mem: "sup_calls s ! n \<in> set (sup_calls s)" using n by simp
  have base: "\<not> credential_forwarding_allowed base" if "call_base (sup_calls s ! n) = Some (peer, base)" for peer base
    using sup_okD(2) [OF ok mem] that by (auto simp: base_ok_def)
  show ?thesis
  proof (cases "sup_calls s ! n")
    case (Stopping_previous peer r)
    with res show ?thesis by (cases out) (auto dest: register_gate)
  next
    case (Awaiting_factory peer b)
    with res base show ?thesis by (cases out) (auto simp: connect_failed_def split: if_splits)
  next
    case (Awaiting_probe peer b h)
    have v: "verifies ev s peer h" if "out = Observed obs" "verify_endpoint_identity (identity_key peer) obs = Identity_ok" for obs
      using that n Ev_resume Awaiting_probe by (auto simp: verifies_def verified_iff)
    show ?thesis
    proof (cases out)
      case (Observed obs)
      show ?thesis
      proof (cases "verify_endpoint_identity (identity_key peer) obs")
        case Identity_ok
        with res Awaiting_probe Observed have "s' = (let s' = put_entry (identity_key peer)
            (b\<lparr>local_url := Some (th_local_url h), ts_status := Healthy,
               verified_endpoint := Some (th_local_url h), credential_forwarding_allowed := True,
               attempts := 0\<rparr>) (Some h) (drop_call n s)
            in if sc_forwards cfg then s'\<lparr>sup_forwarded := sup_forwarded s' @ [(peer, h)]\<rparr> else s')"
          by (simp add: connect_probed_def)
        with v [OF Observed Identity_ok] show ?thesis by (auto simp: Let_def)
      qed (use res Awaiting_probe Observed in \<open>auto simp: connect_probed_def\<close>)
    qed (use res Awaiting_probe in auto)
  next
    case (Stopping_untrusted peer b h v)
    with res base show ?thesis by (cases out) (auto simp: connect_suspended_def split: if_splits)
  next
    case (Disconnecting j)
    with res show ?thesis by (cases out) auto
  qed
qed

section \<open>Properties\<close>

text \<open>The allocation always answers: it gives the first available port of the band from the base,
  and reports exhaustion exactly when no port of the band is available.\<close>

theorem allocation_finds_the_first_port:
  "(allocate_loopback_port base width available = Some p \<longleftrightarrow>
      p \<in> {base..<base + or_else width 512} \<and> available p \<and> (\<forall>q \<in> {base..<p}. \<not> available q))
   \<and> (allocate_loopback_port base width available = None \<longleftrightarrow>
      (\<forall>q \<in> {base..<base + or_else width 512}. \<not> available q))"
proof -
  let ?limit = "base + or_else width DEFAULT_LOCAL_PORT_RANGE"
  have none: "port_scan available base ?limit = None \<longleftrightarrow> (\<forall>q \<in> {base..<?limit}. \<not> available q)"
    by (auto simp: port_scan_None)
  have "port_scan available base ?limit = Some p \<longleftrightarrow>
      p \<in> {base..<?limit} \<and> available p \<and> (\<forall>q \<in> {base..<p}. \<not> available q)"
  proof
    assume p: "p \<in> {base..<?limit} \<and> available p \<and> (\<forall>q \<in> {base..<p}. \<not> available q)"
    then obtain q where q: "port_scan available base ?limit = Some q" using none by fastforce
    from port_scan_SomeD [OF q] p have "q = p" by (metis atLeastLessThan_iff linorder_neqE)
    with q show "port_scan available base ?limit = Some p" by simp
  qed (auto dest: port_scan_SomeD)
  with none show ?thesis by (simp add: allocate_loopback_port_def DEFAULT_LOCAL_PORT_RANGE_def)
qed

theorem allocation_finds_the_first_port_witness:
  "allocate_loopback_port 43200 (Some 3) (\<lambda>p. p = 43201) = Some 43201
   \<and> allocate_loopback_port 43200 (Some 3) (\<lambda>p. False) = None"
  using allocation_finds_the_first_port [of 43200 "Some 3" "\<lambda>p. p = 43201" 43201]
    allocation_finds_the_first_port [of 43200 "Some 3" "\<lambda>p. False" 0]
  by simp

text \<open>C24: A credential goes to a verified endpoint only, whatever the order of events: the gate of an
  identity is open exactly while its transport is healthy, which then runs over the handle whose
  endpoint was verified; it opens, and a credential is forwarded, only in the step in which the
  probe of that identity's handle reports the fingerprint it is keyed by. A child exit closes the
  gate, as does the observation of any other endpoint.\<close>

theorem credentials_go_to_verified_endpoints:
  assumes "sup_reach cfg any_event s"
  shows "(can_forward_credential s k \<longleftrightarrow>
      (\<exists>st. get_transport s k = Some st \<and> ts_identity_key st = k \<and> ts_status st = Healthy))
    \<and> (can_forward_credential s k \<longrightarrow>
      (\<exists>e h. obj_get (sup_entries s) k = Some e \<and> pe_handle e = Some h \<and>
        local_url (pe_state e) = Some (th_local_url h) \<and> verified_endpoint (pe_state e) = Some (th_local_url h)))
    \<and> (\<forall>ev s'. sup_apply cfg ev s = Some s' \<longrightarrow>
        (can_forward_credential s' k \<longrightarrow> can_forward_credential s k \<or>
          (\<exists>peer h. verifies ev s peer h \<and> identity_key peer = k))
      \<and> (sup_forwarded s' = sup_forwarded s \<or>
          (\<exists>peer h. verifies ev s peer h \<and> sup_forwarded s' = sup_forwarded s @ [(peer, h)])))
    \<and> \<not> can_forward_credential (snd (note_child_exit cfg k reason s)) k
    \<and> (\<forall>u. (\<forall>st. get_transport s k = Some st \<longrightarrow> u = None \<or> u \<noteq> verified_endpoint st) \<longrightarrow>
        \<not> can_forward_credential (snd (observe_endpoint k u s)) k)"
proof -
  have ok: "sup_ok s" using assms by (rule sup_reach_ok)
  have entry: "entry_ok k (pe_state e) (pe_handle e)" if "obj_get (sup_entries s) k = Some e" for e
    using ok that by (rule sup_okD)
  have gate: "can_forward_credential s k \<longleftrightarrow>
      (\<exists>st. get_transport s k = Some st \<and> ts_identity_key st = k \<and> ts_status st = Healthy)"
    using entry by (auto simp: can_forward_credential_def get_transport_def entry_ok_def split: option.splits)
  have held: "\<exists>e h. obj_get (sup_entries s) k = Some e \<and> pe_handle e = Some h \<and>
        local_url (pe_state e) = Some (th_local_url h) \<and> verified_endpoint (pe_state e) = Some (th_local_url h)"
    if "can_forward_credential s k"
    using that entry by (auto simp: can_forward_credential_def entry_ok_def split: option.splits)
  have exit: "\<not> can_forward_credential (snd (note_child_exit cfg k reason s)) k"
    using entry by (auto simp: note_child_exit_def child_exit_state_def Let_def can_forward_credential_def
        entry_ok_def split: option.split)
  have observe: "\<not> can_forward_credential (snd (observe_endpoint k u s)) k"
    if "\<forall>st. get_transport s k = Some st \<longrightarrow> u = None \<or> u \<noteq> verified_endpoint st" for u
    using that by (auto simp: observe_endpoint_def rotated_state_def Let_def can_forward_credential_def
        get_transport_def split: option.split)
  show ?thesis
  proof (intro conjI allI impI)
    fix ev s' assume step: "sup_apply cfg ev s = Some s'"
    show "sup_forwarded s' = sup_forwarded s \<or>
        (\<exists>peer h. verifies ev s peer h \<and> sup_forwarded s' = sup_forwarded s @ [(peer, h)])"
      using gate_step [OF ok step] by blast
    show "can_forward_credential s k \<or> (\<exists>peer h. verifies ev s peer h \<and> identity_key peer = k)"
      if "can_forward_credential s' k"
      using gate_step [OF ok step] that by blast
  qed (use gate held exit observe in blast)+
qed

definition demo_supervisor :: supervisor_config where
  "demo_supervisor = make_supervisor_config
     \<lparr> so_forwards = True, so_remote_port = None, so_local_port_base = None, so_local_port_range = None,
       so_reserved_ports = None, so_max_reconnect_attempts = None \<rparr>"

definition demo_identity :: "string \<Rightarrow> peer_identity" where
  "demo_identity k = \<lparr> identity_key = k, pi_machine_id = k, pi_ssh_alias = k, pi_transport = ''ssh'' \<rparr>"

definition demo_handle :: "nat \<Rightarrow> transport_handle" where
  "demo_handle n = \<lparr> th_id = n, th_local_url = ''http://127.0.0.1'' \<rparr>"

abbreviation all_free :: "int \<Rightarrow> bool" where
  "all_free \<equiv> \<lambda>p. True"

abbreviation came_up :: "nat \<Rightarrow> nat \<Rightarrow> sup_event" where
  "came_up i n \<equiv> Ev_resume i (Came_up (demo_handle n)) all_free"

abbreviation probed :: "nat \<Rightarrow> string \<Rightarrow> sup_event" where
  "probed i k \<equiv> Ev_resume i (Observed (Some k)) all_free"

abbreviation connecting :: "string \<Rightarrow> sup_event" where
  "connecting k \<equiv> Ev_connect (demo_identity k) all_free"

definition demo_up :: "sup_event list" where
  "demo_up = [connecting ''k1'', came_up 0 1, probed 0 ''k1'']"

lemmas supervisor_defs =
  demo_supervisor_def make_supervisor_config_def demo_identity_def demo_handle_def demo_up_def sup_init_def
  connect_start_def connect_register_def allocate_loopback_port_def port_scan_step port_available_def
  handed_out_def map_filter_simps base_state_def put_entry_def add_call_def ask_stop_def drop_call_def
  clear_handle_def connect_failed_def connect_probed_def connect_suspended_def disconnect_start_def
  verify_endpoint_identity_def js_trim_def js_space_def DEFAULT_LOCAL_PORT_BASE_def
  DEFAULT_LOCAL_PORT_RANGE_def DEFAULT_PEER_REMOTE_PORT_def Let_def can_forward_credential_def
  port_of_def get_transport_def note_child_exit_def child_exit_state_def observe_endpoint_def
  rotated_state_def update_entry_def obj_del_def

theorem credentials_go_to_verified_endpoints_witness:
  "\<exists>s. sup_run demo_supervisor demo_up sup_init = Some s \<and>
     (\<exists>st. get_transport s ''k1'' = Some st \<and> ts_status st = Healthy)"
proof -
  obtain s where s: "sup_run demo_supervisor demo_up sup_init = Some s" and gate: "can_forward_credential s ''k1''"
    by (simp add: supervisor_defs)
  have "sup_reach demo_supervisor any_event s" by (rule reach_run [OF reach_init s])
  from credentials_go_to_verified_endpoints [OF this, of "''k1''" None] s gate show ?thesis by blast
qed

text \<open>One peer's transport never touches another's: a step about one identity leaves the entry of
  every other identity as it is, in any interleaving.\<close>

theorem peers_are_isolated:
  assumes "sup_reach cfg any_event s" and "sup_apply cfg ev s = Some s'" and "j \<noteq> event_key ev s"
  shows "get_transport s' j = get_transport s j
    \<and> can_forward_credential s' j = can_forward_credential s j
    \<and> obj_get (sup_entries s') j = obj_get (sup_entries s) j"
  using step_others [OF sup_reach_ok [OF assms(1)] assms(2,3)]
  by (simp add: get_transport_def can_forward_credential_def)

theorem peers_are_isolated_witness:
  "\<exists>s s'. sup_run demo_supervisor demo_up sup_init = Some s
     \<and> sup_apply demo_supervisor (Ev_disconnect ''k2'') s = Some s' \<and> can_forward_credential s' ''k1''"
proof -
  obtain s where s: "sup_run demo_supervisor demo_up sup_init = Some s" and gate: "can_forward_credential s ''k1''"
    by (simp add: supervisor_defs)
  have "sup_reach demo_supervisor any_event s" by (rule reach_run [OF reach_init s])
  from peers_are_isolated [OF this, of "Ev_disconnect ''k2''" _ "''k1''"] s gate show ?thesis by auto
qed

text \<open>C25: Distinct peers have distinct local ports, inside the band and off the reserved ports, as
  long as no connect or disconnect of an identity starts while another call for it waits; connects
  of different identities may interleave freely.\<close>

theorem local_ports_are_distinct:
  assumes "sup_reach cfg calm s"
    and "get_transport s k = Some st" and "local_port st = Some p"
  shows "sc_base cfg \<le> p \<and> p < sc_base cfg + sc_range cfg \<and> p \<notin> set (sc_reserved cfg)
    \<and> (\<forall>k' st'. k' \<noteq> k \<longrightarrow> get_transport s k' = Some st' \<longrightarrow> local_port st' \<noteq> Some p)"
proof -
  have ok: "ports_ok cfg s" using assms(1) by (rule calm_reach_ports)
  have port: "port_of s j = Some q" if "get_transport s j = Some t" "local_port t = Some q" for j t q
    using that by (auto simp: port_of_def get_transport_def)
  from ok port [OF assms(2,3)] have "in_band cfg p" by (simp add: ports_ok_def)
  moreover have "k' = k" if "get_transport s k' = Some st'" "local_port st' = Some p" for k' st'
    using ok port [OF assms(2,3)] port [OF that] by (auto simp: ports_ok_def)
  ultimately show ?thesis by (auto simp: in_band_def)
qed

theorem local_ports_are_distinct_witness:
  "\<exists>s st. sup_run demo_supervisor [connecting ''k1'', connecting ''k2''] sup_init = Some s
     \<and> get_transport s ''k1'' = Some st
     \<and> (\<forall>st'. get_transport s ''k2'' = Some st' \<longrightarrow> local_port st' \<noteq> local_port st)"
proof -
  let ?s1 = "connect_start demo_supervisor all_free (demo_identity ''k1'') sup_init"
  let ?s2 = "connect_start demo_supervisor all_free (demo_identity ''k2'') ?s1"
  have "sup_reach demo_supervisor calm ?s1"
    by (rule reach_step [OF reach_init, where ev = "connecting ''k1''"]) (simp_all add: sup_init_def)
  then have r: "sup_reach demo_supervisor calm ?s2"
    by (rule reach_step [where ev = "connecting ''k2''"]) (simp_all add: supervisor_defs)
  obtain st where st: "get_transport ?s2 ''k1'' = Some st" "local_port st = Some 43200"
    by (simp add: supervisor_defs)
  have "\<forall>k' st'. k' \<noteq> ''k1'' \<longrightarrow> get_transport ?s2 k' = Some st' \<longrightarrow> local_port st' \<noteq> Some 43200"
    using local_ports_are_distinct [OF r st] by blast
  from this [rule_format, of "''k2''"]
  have "get_transport ?s2 ''k2'' = Some st' \<Longrightarrow> local_port st' \<noteq> Some 43200" for st' by simp
  with st show ?thesis by auto
qed

lemma backoff_mono:
  assumes "1 \<le> i" and "i \<le> j"
  shows "reconnect_backoff_ms i None None \<le> reconnect_backoff_ms j None None"
proof -
  have eq: "reconnect_backoff_ms n None None = min 30000 (500 * 2 ^ nat (n - 1))" if "1 \<le> n" for n
    using that by (simp add: reconnect_backoff_ms_def Let_def)
  have "(2::int) ^ nat (i - 1) \<le> 2 ^ nat (j - 1)" using assms by (intro power_increasing) auto
  then have "min 30000 (500 * (2::int) ^ nat (i - 1)) \<le> min 30000 (500 * 2 ^ nat (j - 1))"
    by (intro min.mono mult_left_mono) auto
  with assms show ?thesis by (simp only: eq order_trans [OF assms])
qed

definition exits :: "supervisor_config \<Rightarrow> nat \<Rightarrow> string \<Rightarrow> sup_state \<Rightarrow> sup_state" where
  "exits cfg n k s = ((\<lambda>s. snd (note_child_exit cfg k None s)) ^^ n) s"

lemma exits_Suc: "exits cfg (Suc n) k s = snd (note_child_exit cfg k None (exits cfg n k s))"
  by (simp add: exits_def)

lemma transport_after_exit:
  "get_transport s k = Some st \<Longrightarrow> get_transport (snd (note_child_exit cfg k reason s)) k =
     Some (if ts_status st = Failed then st else child_exit_state (sc_max_attempts cfg) reason st)"
  by (auto simp: note_child_exit_def get_transport_def Let_def)

lemma after_exits:
  assumes "get_transport s k = Some st" and "ts_status st \<noteq> Failed"
  shows "\<exists>st'. get_transport (exits cfg (Suc n) k s) k = Some st' \<and> \<not> credential_forwarding_allowed st'
    \<and> (if attempts st + int (Suc n) \<le> sc_max_attempts cfg
       then ts_status st' = Reconnecting \<and> attempts st' = attempts st + int (Suc n)
         \<and> next_retry_ms st' = Some (reconnect_backoff_ms (attempts st + int (Suc n)) None None)
       else ts_status st' = Failed \<and> next_retry_ms st' = None)"
proof (induction n)
  case 0
  show ?case using assms
    by (simp add: exits_def transport_after_exit) (simp add: child_exit_state_def Let_def)
next
  case (Suc n)
  then obtain st' where st': "get_transport (exits cfg (Suc n) k s) k = Some st'"
    "\<not> credential_forwarding_allowed st'"
    "if attempts st + int (Suc n) \<le> sc_max_attempts cfg
       then ts_status st' = Reconnecting \<and> attempts st' = attempts st + int (Suc n)
         \<and> next_retry_ms st' = Some (reconnect_backoff_ms (attempts st + int (Suc n)) None None)
       else ts_status st' = Failed \<and> next_retry_ms st' = None" by blast
  show ?case
    unfolding exits_Suc [of cfg "Suc n"] transport_after_exit [OF st'(1)] using st'(2,3)
    by (auto simp: child_exit_state_def Let_def algebra_simps split: if_splits)
qed



section \<open>What the interleavings allow\<close>

text \<open>A disconnect is undone by a connect that was waiting: the peer is healthy again afterwards, on a
  local port that was handed to another peer meanwhile.\<close>

theorem disconnect_is_undone_by_a_pending_connect:
  "\<exists>s. sup_run demo_supervisor
       [connecting ''k1'', Ev_disconnect ''k1'', connecting ''k2'', came_up 0 1, probed 1 ''k1''] sup_init = Some s
     \<and> can_forward_credential s ''k1'' \<and> port_of s ''k1'' = Some 43200 \<and> port_of s ''k2'' = Some 43200"
  by (simp add: supervisor_defs)

text \<open>Two connects of one identity at once leave a forward that nothing holds: the first handle is
  overwritten, and a disconnect stops the second only.\<close>

theorem concurrent_connects_leave_a_forward:
  "\<exists>s. sup_run demo_supervisor
       [connecting ''k1'', connecting ''k1'', came_up 0 1, came_up 0 2, probed 0 ''k1'', probed 0 ''k1'',
        Ev_disconnect ''k1'', Ev_resume 0 Stop_done all_free] sup_init = Some s
     \<and> sup_entries s = [] \<and> sup_calls s = [] \<and> sup_stops s = [demo_handle 2]"
  by (simp add: supervisor_defs)

text \<open>A connect that fails starts the count again, so retrying by connecting never exhausts it.\<close>

theorem failing_connects_never_exhaust:
  "\<exists>s st. sup_run demo_supervisor
       (concat (replicate 7 [connecting ''k1'', Ev_resume 0 (Rejected ''refused'') all_free])) sup_init = Some s
     \<and> get_transport s ''k1'' = Some st \<and> ts_status st = Reconnecting \<and> attempts st = 1"
  by (simp add: supervisor_defs numeral_eq_Suc)

text \<open>Observing an endpoint revives a transport that had failed.\<close>

theorem observing_revives_a_failed_transport:
  "\<exists>s st. sup_run demo_supervisor
       (demo_up @ replicate 6 (Ev_child_exit ''k1'' None) @ [Ev_observe ''k1'' (Some ''http://new'')]) sup_init = Some s
     \<and> get_transport s ''k1'' = Some st \<and> ts_status st = Reconnecting \<and> attempts st = 6"
  by (simp add: supervisor_defs numeral_eq_Suc)

text \<open>A rotation forgets its handle without stopping it.\<close>

theorem rotation_leaves_the_forward_running:
  "\<exists>s. sup_run demo_supervisor
       (demo_up @ [Ev_observe ''k1'' (Some ''http://new''), Ev_disconnect ''k1'']) sup_init = Some s
     \<and> sup_entries s = [] \<and> sup_calls s = [] \<and> sup_stops s = []"
  by (simp add: supervisor_defs)

text \<open>While a connected transport is being taken down its gate stays open.\<close>

theorem gate_stays_open_while_stopping:
  "\<exists>s. sup_run demo_supervisor (demo_up @ [Ev_disconnect ''k1'']) sup_init = Some s
     \<and> can_forward_credential s ''k1'' \<and> sup_stops s = [demo_handle 1]"
  by (simp add: supervisor_defs)

end
