(* ===== verification/Fleet_Projection.thy ===== *)
theory Fleet_Projection
  imports Access_Boundary
begin

text \<open>
  The projections of the sessions of several machines
  (\<open>packages/extension/src/amicode_service/merged_projection.ts\<close>): fetching a source, the merge of
  hub and local, the fleet-wide fan-out with its owner tags, and the union that feeds the owner
  map; and the retention of what a lost source last showed (\<open>trusted_observe_projection.ts\<close>).
  What a request meets is an argument (\<open>http_outcome\<close>), as are the clock readings around it, the
  authorization header of a secret, the hash and the order of \<open>localeCompare\<close>; the requests that
  are made are returned in order. JSON numbers are integers.
\<close>

section \<open>Session entries\<close>

definition num_of :: "keyed_doc \<Rightarrow> string \<Rightarrow> int option" where
  "num_of e k = (case map_of e k of Some (JNum n) \<Rightarrow> Some n | _ \<Rightarrow> None)"

definition text_of :: "keyed_doc \<Rightarrow> string \<Rightarrow> string option" where
  "text_of e k = (case map_of e k of Some (JStr s) \<Rightarrow> Some s | _ \<Rightarrow> None)"

definition first_num :: "keyed_doc \<Rightarrow> string list \<Rightarrow> int option" where
  "first_num e ks = (case List.map_filter (num_of e) ks of [] \<Rightarrow> None | n # ns \<Rightarrow> Some n)"

definition session_updated_at :: "keyed_doc \<Rightarrow> int option" where
  "session_updated_at e =
     (let other = first_num e [''updatedAt'', ''updated_at'', ''time_updated'']
      in case map_of e ''time'' of
           Some (JObj t) \<Rightarrow> (case num_of t ''updated'' of Some n \<Rightarrow> Some n | None \<Rightarrow> other)
         | _ \<Rightarrow> other)"

definition session_id_of :: "keyed_doc \<Rightarrow> string option" where
  "session_id_of e = truthy (text_of e ''id'')"

section \<open>Fetching one source\<close>

text \<open>What a request meets: it throws, with its message and whether the guard timed it out, or it is
  answered with a status and a body, reading which may throw in the same way.\<close>

datatype http_body = Body json | Body_failed string bool
datatype http_outcome = Http_failed string bool | Http_answer int http_body

record source_stamp =
  st_count :: nat
  st_max :: "int option"
  st_sum :: int
  st_version :: "string option"

text \<open>\<open>count\<close>, \<open>max\<close>, \<open>sum\<close> and \<open>version\<close> are set together, when the source was fetched.\<close>

record source_record =
  sr_source :: string
  sr_present :: bool
  sr_reason :: "absence_reason option"
  sr_detail :: "string option"
  sr_stamp :: "source_stamp option"

record source_fetch =
  sf_record :: source_record
  sf_entries :: "keyed_doc list"
  sf_duration :: int
  sf_timed_out :: bool

record upstream =
  up_url :: "string option"
  up_auth :: "string option"

record fetch_run =
  fr_list :: http_outcome
  fr_health :: http_outcome
  fr_started :: int
  fr_ended :: int

type_synonym http_request = "string \<times> string option"

definition strip_slashes :: "string \<Rightarrow> string" where
  "strip_slashes s = rev (dropWhile (\<lambda>c. c = slash) (rev s))"

definition http_ok :: "int \<Rightarrow> bool" where
  "http_ok status \<longleftrightarrow> 200 \<le> status \<and> status < 300"

fun object_of :: "json \<Rightarrow> keyed_doc option" where
  "object_of (JObj d) = Some d"
| "object_of _ = None"

fun listed_entries :: "http_outcome \<Rightarrow> (absence_reason \<times> string option \<times> bool) + keyed_doc list" where
  "listed_entries (Http_failed msg t) = Inl (Fetch_failed, Some msg, t)"
| "listed_entries (Http_answer status body) =
     (if status = 401 then Inl (Source_unauthorized, None, False)
      else if \<not> http_ok status then Inl (Fetch_failed, Some (''HTTP '' @ string_of_int status), False)
      else (case body of
              Body_failed msg t \<Rightarrow> Inl (Fetch_failed, Some msg, t)
            | Body (JArr vs) \<Rightarrow> Inr (List.map_filter object_of vs)
            | Body _ \<Rightarrow> Inl (Fetch_failed, Some ''session list is not an array'', False)))"

fun health_version :: "http_outcome \<Rightarrow> string option" where
  "health_version (Http_answer status (Body (JObj d))) = (if http_ok status then text_of d ''version'' else None)"
| "health_version _ = None"

fun add_update :: "int option \<times> int \<Rightarrow> int option \<Rightarrow> int option \<times> int" where
  "add_update (mx, s) None = (mx, s)"
| "add_update (mx, s) (Some n) = (Some (case mx of None \<Rightarrow> n | Some m \<Rightarrow> max m n), s + n)"

definition stamp_of :: "keyed_doc list \<Rightarrow> string option \<Rightarrow> source_stamp" where
  "stamp_of entries version =
     (let (mx, s) = foldl (\<lambda>acc e. add_update acc (session_updated_at e)) (None, 0) entries
      in \<lparr> st_count = length entries, st_max = mx, st_sum = s, st_version = version \<rparr>)"

definition absent_record :: "string \<Rightarrow> absence_reason \<Rightarrow> string option \<Rightarrow> source_record" where
  "absent_record tag reason detail =
     \<lparr> sr_source = tag, sr_present = False, sr_reason = Some reason, sr_detail = detail, sr_stamp = None \<rparr>"

definition fetched :: "source_record \<Rightarrow> keyed_doc list \<Rightarrow> fetch_run \<Rightarrow> bool \<Rightarrow> source_fetch" where
  "fetched rec entries run timed_out =
     \<lparr> sf_record = rec, sf_entries = entries, sf_duration = max 0 (fr_ended run - fr_started run),
       sf_timed_out = timed_out \<rparr>"

definition fetch_sessions ::
  "string \<Rightarrow> upstream \<Rightarrow> string \<Rightarrow> bool \<Rightarrow> fetch_run \<Rightarrow> source_fetch \<times> http_request list" where
  "fetch_sessions tag up endpoint allow_unauthenticated run =
     (case truthy (up_url up) of
        None \<Rightarrow> (fetched (absent_record tag No_upstream None) [] run False, [])
      | Some origin \<Rightarrow>
          if truthy (up_auth up) = None \<and> \<not> allow_unauthenticated
          then (fetched (absent_record tag Credential_missing
                  (Some (if tag = ''hub'' then ''hub credential absent/malformed/incomplete''
                         else ''engine mint not armed''))) [] run False, [])
          else
            let auth = truthy (up_auth up);
                list_request = (strip_slashes origin @ endpoint, auth);
                health_request = (strip_slashes origin @ ''/global/health'', auth)
            in case listed_entries (fr_list run) of
                 Inl (reason, detail, timed_out) \<Rightarrow>
                   (fetched (absent_record tag reason detail) [] run timed_out, [list_request])
               | Inr entries \<Rightarrow>
                   (fetched \<lparr> sr_source = tag, sr_present = True, sr_reason = None, sr_detail = None,
                              sr_stamp = Some (stamp_of entries (health_version (fr_health run))) \<rparr>
                      entries run False, [list_request, health_request]))"

section \<open>Hub and local\<close>

definition with_provenance :: "string \<Rightarrow> keyed_doc \<Rightarrow> keyed_doc" where
  "with_provenance tag e = obj_set e ''amicode_provenance'' (JStr tag)"

text \<open>The local turn of the loop, on the list and the ids seen.\<close>

definition merge_local :: "keyed_doc list \<times> string list \<Rightarrow> keyed_doc \<Rightarrow> keyed_doc list \<times> string list" where
  "merge_local acc e =
     (let (out, seen) = acc
      in case session_id_of e of
           Some sid \<Rightarrow> if sid \<in> set seen then (out, seen)
                       else (out @ [with_provenance ''local'' e], seen @ [sid])
         | None \<Rightarrow> (out @ [with_provenance ''local'' e], seen))"

definition merge_sessions :: "keyed_doc list \<Rightarrow> keyed_doc list \<Rightarrow> keyed_doc list" where
  "merge_sessions local_entries hub_entries =
     fst (foldl merge_local
       (map (with_provenance ''hub'') hub_entries, List.map_filter session_id_of hub_entries) local_entries)"

section \<open>Currency\<close>

fun insert_by :: "('a \<Rightarrow> 'a \<Rightarrow> bool) \<Rightarrow> 'a \<Rightarrow> 'a list \<Rightarrow> 'a list" where
  "insert_by le x [] = [x]"
| "insert_by le x (y # ys) = (if le x y then x # y # ys else y # insert_by le x ys)"

definition sort_by :: "('a \<Rightarrow> 'a \<Rightarrow> bool) \<Rightarrow> 'a list \<Rightarrow> 'a list" where
  "sort_by le xs = foldr (insert_by le) xs []"

definition opt_json :: "('a \<Rightarrow> json) \<Rightarrow> 'a option \<Rightarrow> json" where
  "opt_json f x = (case x of None \<Rightarrow> JNull | Some v \<Rightarrow> f v)"

fun stamp_json :: "source_stamp option \<Rightarrow> json" where
  "stamp_json None = JObj []"
| "stamp_json (Some s) = JObj [(''count'', JNum (int (st_count s))), (''max'', opt_json JNum (st_max s)),
     (''sum'', JNum (st_sum s)), (''version'', opt_json JStr (st_version s))]"

definition derive_currency ::
  "(json \<Rightarrow> string) \<Rightarrow> (string \<Rightarrow> string \<Rightarrow> bool) \<Rightarrow> source_record list \<Rightarrow> string \<times> string list" where
  "derive_currency hash before records =
     (let contributing = sort_by (\<lambda>a b. before (sr_source a) (sr_source b)) (filter sr_present records);
          sources = map sr_source contributing;
          by_source = foldl (\<lambda>o' r. obj_set o' (sr_source r) (stamp_json (sr_stamp r))) [] contributing
      in (''cur-'' @ hash (JObj [(''sources'', JArr (map JStr sources)), (''bySource'', JObj by_source)]),
          sources))"

section \<open>The two-source projection\<close>

record merged_projection =
  mp_sessions :: "keyed_doc list"
  mp_sources :: "(string \<times> source_record) list"
  mp_currency :: "string \<times> string list"

definition build_merged_projection ::
  "(json \<Rightarrow> string) \<Rightarrow> (string \<Rightarrow> string \<Rightarrow> bool) \<Rightarrow> (string \<Rightarrow> string) \<Rightarrow> string option \<Rightarrow> string option
     \<Rightarrow> string option \<Rightarrow> ('r + string) option \<Rightarrow> fetch_run \<Rightarrow> fetch_run
     \<Rightarrow> merged_projection \<times> http_request list" where
  "build_merged_projection hash before auth_header local_url password hub_url credential local_run hub_run =
     (let hub_auth = (case credential of Some (Inr token) \<Rightarrow> Some (auth_header token) | _ \<Rightarrow> None);
          local_auth = map_option auth_header password;
          (l, lq) = fetch_sessions ''local'' \<lparr> up_url = local_url, up_auth = local_auth \<rparr> ''/session'' False local_run;
          (h, hq) = fetch_sessions ''hub'' \<lparr> up_url = hub_url, up_auth = hub_auth \<rparr> ''/session'' False hub_run
      in (\<lparr> mp_sessions = merge_sessions (sf_entries l) (sf_entries h),
            mp_sources = [(''local'', sf_record l), (''hub'', sf_record h)],
            mp_currency = derive_currency hash before [sf_record l, sf_record h] \<rparr>, lq @ hq))"

section \<open>The fleet-wide projection\<close>

record controlled_by =
  cb_machine_id :: string
  cb_machine_name :: string

record peer_source =
  ps_machine :: string
  ps_url :: "string option"
  ps_token :: "string option"
  ps_trusted :: "bool option"

record blocked_peer =
  bl_machine :: string
  bl_reason :: "absence_reason option"
  bl_detail :: "string option"

record fleet_options =
  fo_local_machine :: string
  fo_local_url :: "string option"
  fo_password :: "string option"
  fo_peers :: "peer_source list"
  fo_blocked :: "blocked_peer list"
  fo_roster :: "string \<Rightarrow> (string \<times> string option) option"
  fo_control :: "(string \<Rightarrow> bool \<Rightarrow> json) option"
  fo_controlled_by :: "controlled_by option"
  fo_archived :: bool

text \<open>A row: the entry as it was fetched, and the overlays spread over it.\<close>

record projected_session =
  row_fields :: keyed_doc
  row_provenance :: string
  row_owner :: session_owner_tag
  row_control :: "json option"
  row_controlled_by :: "controlled_by option"

definition owner_json :: "session_owner_tag \<Rightarrow> json" where
  "owner_json t = JObj
     ([(''owner_machine_id'', JStr (owner_machine_id t)), (''owner_name'', JStr (owner_name t))]
      @ (case device_type t of None \<Rightarrow> [] | Some d \<Rightarrow> [(''device_type'', JStr d)])
      @ (case tag_directory t of None \<Rightarrow> [] | Some d \<Rightarrow> [(''directory'', JStr d)])
      @ [(''is_local'', JBool (tag_is_local t))])"

definition controlled_by_json :: "controlled_by \<Rightarrow> json" where
  "controlled_by_json c =
     JObj [(''machine_id'', JStr (cb_machine_id c)), (''machine_name'', JStr (cb_machine_name c))]"

definition set_opt :: "keyed_doc \<Rightarrow> string \<Rightarrow> json option \<Rightarrow> keyed_doc" where
  "set_opt d k v = (case v of None \<Rightarrow> d | Some j \<Rightarrow> obj_set d k j)"

text \<open>The JSON object of a row.\<close>

definition row_doc :: "projected_session \<Rightarrow> keyed_doc" where
  "row_doc r =
     set_opt (set_opt (obj_set (with_provenance (row_provenance r) (row_fields r))
         ''amicode_owner'' (owner_json (row_owner r)))
       ''amicode_control'' (row_control r))
       ''amicode_controlled_by'' (map_option controlled_by_json (row_controlled_by r))"

definition tag_session ::
  "string \<Rightarrow> bool \<Rightarrow> (string \<times> string option) option \<Rightarrow> json option \<Rightarrow> controlled_by option \<Rightarrow> keyed_doc
     \<Rightarrow> projected_session" where
  "tag_session machine is_local entry control controlled e =
     \<lparr> row_fields = e, row_provenance = machine,
       row_owner = \<lparr> owner_machine_id = machine,
                     owner_name = (case entry of None \<Rightarrow> machine | Some x \<Rightarrow> fst x),
                     device_type = Option.bind entry snd, tag_directory = text_of e ''directory'',
                     tag_is_local = is_local \<rparr>,
       row_control = control, row_controlled_by = (if is_local then controlled else None) \<rparr>"

definition tag_sessions_with_owner ::
  "fleet_options \<Rightarrow> string \<Rightarrow> bool \<Rightarrow> controlled_by option \<Rightarrow> keyed_doc list \<Rightarrow> projected_session list" where
  "tag_sessions_with_owner opts machine is_local controlled entries =
     map (tag_session machine is_local (fo_roster opts machine)
            (map_option (\<lambda>f. f machine is_local) (fo_control opts)) controlled) entries"

text \<open>One turn of the merge: the rows, and the index of each id seen.\<close>

definition merge_row ::
  "projected_session list \<times> (string \<times> nat) list \<Rightarrow> projected_session
     \<Rightarrow> projected_session list \<times> (string \<times> nat) list" where
  "merge_row acc r =
     (let (out, seen) = acc
      in case session_id_of (row_fields r) of
           None \<Rightarrow> (out @ [r], seen)
         | Some sid \<Rightarrow>
             (case obj_get seen sid of
                Some i \<Rightarrow> (out[i := r], seen)
              | None \<Rightarrow> (out @ [r], obj_set seen sid (length out))))"

definition merge_n_sources :: "projected_session list list \<Rightarrow> projected_session list" where
  "merge_n_sources tagged = fst (foldl merge_row ([], []) (concat tagged))"

definition fetch_peer ::
  "(string \<Rightarrow> string) \<Rightarrow> string \<Rightarrow> peer_source \<Rightarrow> fetch_run \<Rightarrow> source_fetch \<times> http_request list" where
  "fetch_peer auth_header endpoint p run =
     (if ps_trusted p = Some False
      then (\<lparr> sf_record = absent_record (ps_machine p) Untrusted None, sf_entries = [], sf_duration = 0,
              sf_timed_out = False \<rparr>, [])
      else fetch_sessions (ps_machine p)
             \<lparr> up_url = ps_url p, up_auth = map_option auth_header (ps_token p) \<rparr> endpoint False run)"

definition fleet_endpoint :: "bool \<Rightarrow> string" where
  "fleet_endpoint archived =
     (if archived then ''/experimental/session?archived=true&limit=10000''
      else ''/experimental/session?limit=10000'')"

record fleet_projection =
  fp_sessions :: "projected_session list"
  fp_sources :: "(string \<times> source_record) list"
  fp_currency :: "string \<times> string list"

definition blocked_record :: "blocked_peer \<Rightarrow> source_record" where
  "blocked_record b = absent_record (bl_machine b) (or_else (bl_reason b) Identity_conflict) (bl_detail b)"

text \<open>What fetching from this machine meets, and from the peer of each index.\<close>

record fan_out_runs =
  run_local :: fetch_run
  run_peer :: "nat \<Rightarrow> fetch_run"

definition peer_fetches ::
  "(string \<Rightarrow> string) \<Rightarrow> fleet_options \<Rightarrow> fan_out_runs \<Rightarrow> (source_fetch \<times> http_request list) list" where
  "peer_fetches auth_header opts runs =
     map (\<lambda>(i, p). fetch_peer auth_header (fleet_endpoint (fo_archived opts)) p (run_peer runs i))
       (enumerate 0 (fo_peers opts))"

definition fleet_fan_out ::
  "(json \<Rightarrow> string) \<Rightarrow> (string \<Rightarrow> string \<Rightarrow> bool) \<Rightarrow> (string \<Rightarrow> string) \<Rightarrow> fleet_options \<Rightarrow> fan_out_runs
     \<Rightarrow> fleet_projection \<times> source_fetch list \<times> http_request list" where
  "fleet_fan_out hash before auth_header opts runs =
     (let me = fo_local_machine opts;
          (l, lq) = fetch_sessions me
            \<lparr> up_url = fo_local_url opts, up_auth = map_option auth_header (fo_password opts) \<rparr>
            (fleet_endpoint (fo_archived opts)) True (run_local runs);
          results = peer_fetches auth_header opts runs;
          fetches = map fst results;
          named = foldl (\<lambda>s (p, f). obj_set s (ps_machine p) (sf_record f)) [(me, sf_record l)]
                    (zip (fo_peers opts) fetches);
          sources = foldl (\<lambda>s b. obj_set s (bl_machine b) (blocked_record b)) named (fo_blocked opts);
          tagged = tag_sessions_with_owner opts me True (fo_controlled_by opts) (sf_entries l)
            # map (\<lambda>(p, f). tag_sessions_with_owner opts (ps_machine p) False None (sf_entries f))
                (zip (fo_peers opts) fetches)
      in (\<lparr> fp_sessions = merge_n_sources tagged, fp_sources = sources,
            fp_currency = derive_currency hash before (sf_record l # map sf_record fetches) \<rparr>,
          fetches, lq @ concat (map snd results)))"

definition build_fleet_projection ::
  "(json \<Rightarrow> string) \<Rightarrow> (string \<Rightarrow> string \<Rightarrow> bool) \<Rightarrow> (string \<Rightarrow> string) \<Rightarrow> fleet_options \<Rightarrow> fan_out_runs
     \<Rightarrow> fleet_projection" where
  "build_fleet_projection hash before auth_header opts runs =
     fst (fleet_fan_out hash before auth_header opts runs)"

section \<open>The union that feeds the owner map\<close>

definition outcome_of_fetch :: "source_fetch \<Rightarrow> refresh_outcome" where
  "outcome_of_fetch f =
     (if sr_present (sf_record f) then Refresh_ok
      else if sf_timed_out f then Refresh_timeout
      else if sr_reason (sf_record f) = Some Source_unauthorized then Refresh_unauthorized
      else Refresh_error)"

record refresh_report = refresh_peer +
  report_duration :: int
  report_entries :: nat
  report_detail :: "string option"

definition union_rows :: "projected_session list \<Rightarrow> (string \<times> projected_session) list" where
  "union_rows rows =
     foldl (\<lambda>m r. case truthy (text_of (row_fields r) ''id'') of
                    Some sid \<Rightarrow> if obj_has m sid then m else obj_set m sid r
                  | None \<Rightarrow> m) [] rows"

definition refresh_report_of ::
  "projected_session list \<Rightarrow> peer_source \<Rightarrow> source_fetch \<Rightarrow> source_fetch \<Rightarrow> refresh_report" where
  "refresh_report_of sessions p a b =
     (let worst = (if outcome_of_fetch a \<noteq> Refresh_ok then a else b);
          outcome = outcome_of_fetch worst
      in \<lparr> refreshed_peer = ps_machine p, refresh_outcome_of = outcome,
           refresh_reason = (if outcome \<noteq> Refresh_ok then sr_reason (sf_record worst) else None),
           report_duration = max (sf_duration a) (sf_duration b),
           report_entries = length (filter (\<lambda>r. owner_machine_id (row_owner r) = ps_machine p) sessions),
           report_detail = (if outcome \<noteq> Refresh_ok then sr_detail (sf_record worst) else None) \<rparr>)"

definition build_owner_routing_projection ::
  "(json \<Rightarrow> string) \<Rightarrow> (string \<Rightarrow> string \<Rightarrow> bool) \<Rightarrow> (string \<Rightarrow> string) \<Rightarrow> fleet_options \<Rightarrow> fan_out_runs
     \<Rightarrow> fan_out_runs \<Rightarrow> projected_session list \<times> refresh_report list" where
  "build_owner_routing_projection hash before auth_header opts active archived =
     (let (pa, fa, qa) = fleet_fan_out hash before auth_header (opts\<lparr>fo_archived := False\<rparr>) active;
          (pb, fb, qb) = fleet_fan_out hash before auth_header (opts\<lparr>fo_archived := True\<rparr>) archived;
          sessions = map snd (union_rows (fp_sessions pa @ fp_sessions pb))
      in (sessions, map (\<lambda>(p, a, b). refresh_report_of sessions p a b) (zip (fo_peers opts) (zip fa fb))))"

text \<open>A row as the owner map reads it.\<close>

definition session_entry_of :: "projected_session \<Rightarrow> session_entry" where
  "session_entry_of r =
     \<lparr> entry_id = text_of (row_fields r) ''id'', amicode_owner = Some (row_owner r),
       entry_directory = text_of (row_fields r) ''directory'' \<rparr>"

definition refresh_owner_map ::
  "projected_session list \<times> refresh_report list \<Rightarrow> int \<Rightarrow> int \<Rightarrow> owner_map \<Rightarrow> owner_map" where
  "refresh_owner_map projection now now' m =
     owner_map_refresh
       (Some (map session_entry_of (fst projection), Some (map refresh_peer.truncate (snd projection))))
       False now now' m"

text \<open>The peers of the projection, from the provider: holding a token for a peer is trusting it.\<close>

definition projection_peers :: "peer_provider \<Rightarrow> peer_source list" where
  "projection_peers pv =
     map (\<lambda>m. case provider_read_token pv m of
            Inr c \<Rightarrow> \<lparr> ps_machine = m, ps_url = Some (pt_base_url c), ps_token = Some (pt_token c), ps_trusted = Some True \<rparr>
          | Inl r \<Rightarrow> \<lparr> ps_machine = m, ps_url = None, ps_token = None, ps_trusted = Some False \<rparr>)
       (get_serving_peers pv)"

section \<open>Retention of what a lost source last showed\<close>

datatype observe_availability = Row_present | Row_unavailable | Row_revoked

text \<open>A row of the retained list; \<open>ob_fields\<close> are its other fields.\<close>

record observe_row =
  ob_id :: string
  ob_fields :: keyed_doc
  ob_owner :: session_owner_tag
  ob_availability :: observe_availability

text \<open>\<open>String(v)\<close>.\<close>

fun js_string :: "json \<Rightarrow> string" where
  "js_string JUndefined = ''undefined''"
| "js_string JNull = ''null''"
| "js_string (JBool b) = (if b then ''true'' else ''false'')"
| "js_string (JNum n) = string_of_int n"
| "js_string (JStr s) = s"
| "js_string (JArr vs) = join_with '','' (map (\<lambda>v. if v = JNull \<or> v = JUndefined then [] else js_string v) vs)"
| "js_string (JObj d) = ''[object Object]''"

definition observe_id :: "keyed_doc \<Rightarrow> string" where
  "observe_id e = (case map_of e ''id'' of None \<Rightarrow> [] | Some JNull \<Rightarrow> [] | Some JUndefined \<Rightarrow> [] | Some v \<Rightarrow> js_string v)"

definition observe_row_of :: "projected_session \<Rightarrow> observe_row" where
  "observe_row_of r =
     \<lparr> ob_id = observe_id (row_fields r), ob_fields = row_doc r, ob_owner = row_owner r,
       ob_availability = Row_present \<rparr>"

definition trust_breaking :: "absence_reason option \<Rightarrow> bool" where
  "trust_breaking reason \<longleftrightarrow> reason \<in> {Some Untrusted, Some Source_unauthorized, Some Identity_conflict}"

definition tombstone :: "observe_row \<Rightarrow> observe_row" where
  "tombstone r =
     \<lparr> ob_id = ob_id r, ob_fields = [(''amicode_provenance'', JStr (owner_machine_id (ob_owner r)))],
       ob_owner = (ob_owner r)\<lparr>tag_directory := None\<rparr>, ob_availability = Row_revoked \<rparr>"

definition sessions_by_source :: "projected_session list \<Rightarrow> (string \<times> observe_row list) list" where
  "sessions_by_source rows =
     foldl (\<lambda>m r. let k = owner_machine_id (row_owner r)
                  in obj_set m k (or_else (obj_get m k) [] @ [observe_row_of r])) [] rows"

text \<open>One source of the projection: the rows so far and what is retained.\<close>

definition reconcile_source ::
  "(string \<times> observe_row list) list \<Rightarrow> observe_row list \<times> (string \<times> observe_row list) list
     \<Rightarrow> string \<times> source_record \<Rightarrow> observe_row list \<times> (string \<times> observe_row list) list" where
  "reconcile_source by_source acc src =
     (let (rows, retained) = acc; (k, rec) = src
      in if sr_present rec then
           let sessions = or_else (obj_get by_source k) []
           in (rows @ sessions,
               case sessions of
                 [] \<Rightarrow> retained
               | s # _ \<Rightarrow> if \<not> tag_is_local (ob_owner s) then obj_set retained k sessions else retained)
         else
           (case obj_get retained k of
              None \<Rightarrow> (rows, retained)
            | Some known \<Rightarrow>
                if known = [] then (rows, retained)
                else if trust_breaking (sr_reason rec)
                then (rows @ map tombstone known, obj_set retained k (map tombstone known))
                else (rows @ map (\<lambda>r. r\<lparr>ob_availability := Row_unavailable\<rparr>) known, retained)))"

definition reconcile ::
  "fleet_projection \<Rightarrow> (string \<times> observe_row list) list \<Rightarrow> observe_row list \<times> (string \<times> observe_row list) list" where
  "reconcile p retained =
     foldl (reconcile_source (sessions_by_source (fp_sessions p))) ([], retained) (fp_sources p)"

section \<open>Reading a transcript\<close>

datatype transcript_failure = Transport_error | Transcript_unauthorized | Transcript_not_found | Transcript_unknown

definition transcript_message :: "json \<Rightarrow> keyed_doc option" where
  "transcript_message v =
     Option.bind (object_of v) (\<lambda>d. if text_of d ''role'' \<noteq> None then Some d else None)"

fun transcript_of :: "http_outcome \<Rightarrow> transcript_failure + keyed_doc list" where
  "transcript_of (Http_failed msg t) = Inl Transport_error"
| "transcript_of (Http_answer status body) =
     (if status = 401 \<or> status = 403 then Inl Transcript_unauthorized
      else if status = 404 then Inl Transcript_not_found
      else if \<not> http_ok status then Inl Transcript_unknown
      else (case body of
              Body (JObj d) \<Rightarrow>
                Inr (case map_of d ''messages'' of
                       Some (JArr vs) \<Rightarrow> List.map_filter transcript_message vs
                     | _ \<Rightarrow> [])
            | Body JNull \<Rightarrow> Inl Transport_error
            | Body JUndefined \<Rightarrow> Inl Transport_error
            | Body _ \<Rightarrow> Inr []
            | Body_failed msg t \<Rightarrow> Inl Transport_error))"

definition fetch_remote_transcript ::
  "(string \<Rightarrow> string) \<Rightarrow> (string \<Rightarrow> string) \<Rightarrow> string \<Rightarrow> string \<Rightarrow> string \<Rightarrow> http_outcome
     \<Rightarrow> (transcript_failure + keyed_doc list) \<times> http_request" where
  "fetch_remote_transcript encode auth_header base_url sid token outcome =
     (transcript_of outcome, (strip_slashes base_url @ ''/session/'' @ encode sid, Some (auth_header token)))"

end
