(* ===== verification/Projection_Properties.thy ===== *)
theory Projection_Properties
  imports Fleet_Projection Owner_Retention
begin

text \<open>
  The properties of the projections: the merge against a specification on the concatenated rows,
  the fan-out's requests, source names and rows, the routing of every row the owner map is fed,
  and what the retention shows of a source that is away.
\<close>

section \<open>The merge\<close>

definition row_id :: "projected_session \<Rightarrow> string option" where
  "row_id r = session_id_of (row_fields r)"

definition row_with :: "string \<Rightarrow> projected_session list \<Rightarrow> projected_session option" where
  "row_with sid rows = find (\<lambda>r. row_id r = Some sid) rows"

text \<open>The index map of the loop is the position of each id.\<close>

definition indexed :: "projected_session list \<times> (string \<times> nat) list \<Rightarrow> bool" where
  "indexed acc \<longleftrightarrow>
     (\<forall>sid i. obj_get (snd acc) sid = Some i \<longleftrightarrow> i < length (fst acc) \<and> row_id (fst acc ! i) = Some sid)"

lemma merge_row_cases:
  "merge_row (out, seen) r =
     (case row_id r of
        None \<Rightarrow> (out @ [r], seen)
      | Some sid \<Rightarrow>
          (case obj_get seen sid of
             Some i \<Rightarrow> (out[i := r], seen)
           | None \<Rightarrow> (out @ [r], obj_set seen sid (length out))))"
  by (simp add: merge_row_def row_id_def)

lemma merge_row_indexed:
  assumes "indexed acc"
  shows "indexed (merge_row acc r)"
proof -
  obtain out seen where acc: "acc = (out, seen)" by force
  from assms have inv: "obj_get seen sid = Some i \<longleftrightarrow> i < length out \<and> row_id (out ! i) = Some sid" for sid i
    by (simp add: indexed_def acc)
  show ?thesis
  proof (cases "row_id r")
    case None
    then show ?thesis
      by (auto simp: acc merge_row_cases indexed_def inv nth_append less_Suc_eq)
  next
    case (Some sid)
    show ?thesis
    proof (cases "obj_get seen sid")
      case None
      then have "\<not> (i < length out \<and> row_id (out ! i) = Some sid)" for i
        using inv [of sid i] by simp
      with Some None show ?thesis
        by (auto simp: acc merge_row_cases indexed_def inv nth_append less_Suc_eq)
    next
      case k: (Some k)
      with inv [of sid k] have at: "k < length out" "row_id (out ! k) = Some sid" by simp_all
      have step: "merge_row acc r = (out[k := r], seen)" by (simp add: acc merge_row_cases Some k)
      show ?thesis
        unfolding step using at Some by (auto simp: indexed_def inv nth_list_update)
    qed
  qed
qed

lemma indexed_absent:
  assumes "indexed (out, seen)"
  shows "obj_get seen k = None \<longleftrightarrow> k \<notin> set (List.map_filter row_id out)"
proof -
  have "obj_get seen k = None \<longleftrightarrow> (\<forall>i. obj_get seen k \<noteq> Some i)" by auto
  also have "\<dots> \<longleftrightarrow> (\<forall>i < length out. row_id (out ! i) \<noteq> Some k)"
    using assms by (auto simp: indexed_def)
  also have "\<dots> \<longleftrightarrow> (\<forall>r \<in> set out. row_id r \<noteq> Some k)" by (simp add: all_set_conv_all_nth)
  also have "\<dots> \<longleftrightarrow> k \<notin> set (List.map_filter row_id out)" by (auto simp: set_map_filter)
  finally show ?thesis .
qed

lemma row_with_append: "row_with sid (xs @ [r]) =
    (case row_with sid xs of Some x \<Rightarrow> Some x | None \<Rightarrow> if row_id r = Some sid then Some r else None)"
  by (induction xs) (auto simp: row_with_def)

lemma row_with_update:
  assumes "i < length xs" and "row_id (xs ! i) = Some k" and "row_id r = Some k"
    and "\<And>j. j < length xs \<Longrightarrow> row_id (xs ! j) = Some k \<Longrightarrow> j = i"
  shows "row_with sid (xs[i := r]) = (if sid = k then Some r else row_with sid xs)"
  using assms
proof (induction xs arbitrary: i)
  case (Cons x xs)
  show ?case
  proof (cases i)
    case 0
    with Cons.prems show ?thesis by (auto simp: row_with_def)
  next
    case (Suc j)
    have other: "row_id x \<noteq> Some k" using Cons.prems(4) [of 0] Suc by auto
    have "row_with sid (xs[j := r]) = (if sid = k then Some r else row_with sid xs)"
      using Cons.prems Suc by (intro Cons.IH) (auto dest: Cons.prems(4) [of "Suc _", simplified])
    with other Suc show ?thesis by (auto simp: row_with_def)
  qed
qed simp

lemma merge_row_with:
  assumes "indexed acc"
  shows "row_with sid (fst (merge_row acc r)) =
    (if row_id r = Some sid then Some r else row_with sid (fst acc))"
proof -
  obtain out seen where acc: "acc = (out, seen)" by force
  from assms have inv: "obj_get seen sid = Some i \<longleftrightarrow> i < length out \<and> row_id (out ! i) = Some sid" for sid i
    by (simp add: indexed_def acc)
  have absent: "row_with k out = None" if "obj_get seen k = None" for k
    using that assms by (simp add: acc indexed_absent row_with_def find_None_iff set_map_filter)
  show ?thesis
  proof (cases "row_id r")
    case None
    then show ?thesis by (auto simp: acc merge_row_cases row_with_append split: option.splits)
  next
    case (Some k)
    show ?thesis
    proof (cases "obj_get seen k")
      case None
      with Some absent [of k] show ?thesis
        by (auto simp: acc merge_row_cases row_with_append split: option.splits)
    next
      case i: (Some i)
      have at: "i < length out" "row_id (out ! i) = Some k" using inv [of k i] i by blast+
      have only: "j = i" if "j < length out" "row_id (out ! j) = Some k" for j
        using inv [of k j] i that by simp
      have step: "merge_row acc r = (out[i := r], seen)" by (simp add: acc merge_row_cases Some i)
      have "row_with sid (out[i := r]) = (if sid = k then Some r else row_with sid out)"
        using at Some only by (rule row_with_update)
      with Some show ?thesis unfolding step by (auto simp: acc)
    qed
  qed
qed

lemma map_filter_ids: "List.map_filter f xs = List.map_filter id (map f xs)"
  by (induction xs) (auto simp: map_filter_simps split: option.splits)

lemma merge_row_ids:
  assumes "indexed acc"
  shows "List.map_filter row_id (fst (merge_row acc r)) =
    (case row_id r of None \<Rightarrow> List.map_filter row_id (fst acc)
     | Some sid \<Rightarrow> set_add sid (List.map_filter row_id (fst acc)))"
proof -
  obtain out seen where acc: "acc = (out, seen)" by force
  from assms have inv: "obj_get seen sid = Some i \<longleftrightarrow> i < length out \<and> row_id (out ! i) = Some sid" for sid i
    by (simp add: indexed_def acc)
  have split: "List.map_filter row_id (xs @ ys) = List.map_filter row_id xs @ List.map_filter row_id ys" for xs ys
    by (simp add: List.map_filter_def)
  have seen: "sid \<in> set (List.map_filter row_id out) \<longleftrightarrow> obj_get seen sid \<noteq> None" for sid
    using indexed_absent [of out seen sid] assms by (simp add: acc)
  have update: "List.map_filter row_id (out[i := r]) = List.map_filter row_id out"
    if "i < length out" "row_id (out ! i) = row_id r" for i
  proof -
    have "map row_id (out[i := r]) = map row_id out"
      using that by (simp add: map_update list_update_same_conv)
    then show ?thesis by (metis map_filter_ids)
  qed
  show ?thesis
  proof (cases "row_id r")
    case None
    then show ?thesis by (simp add: acc merge_row_cases split map_filter_simps)
  next
    case (Some k)
    show ?thesis
    proof (cases "obj_get seen k")
      case None
      with Some seen [of k] show ?thesis
        by (simp add: acc merge_row_cases split map_filter_simps set_add_def)
    next
      case i: (Some i)
      with Some seen [of k] inv [of k i] update [of i] show ?thesis
        by (simp add: acc merge_row_cases set_add_def)
    qed
  qed
qed

text \<open>The ids in the order of their first row, and the rows without one.\<close>

definition first_ids :: "projected_session list \<Rightarrow> string list" where
  "first_ids rows = foldl (\<lambda>s x. set_add x s) [] (List.map_filter row_id rows)"

lemma merged_rows_indexed: "indexed (foldl merge_row ([], []) rows)"
proof (induction rows rule: rev_induct)
  case Nil
  show ?case by (simp add: indexed_def)
next
  case (snoc r rows)
  then show ?case by (simp add: merge_row_indexed)
qed

lemma merged_row_with:
  "row_with sid (fst (foldl merge_row ([], []) rows)) = row_with sid (rev rows)"
proof (induction rows rule: rev_induct)
  case (snoc r rows)
  then show ?case by (simp add: merge_row_with [OF merged_rows_indexed]) (simp add: row_with_def)
qed simp

lemma map_filter_append: "List.map_filter f (xs @ ys) = List.map_filter f xs @ List.map_filter f ys"
  by (simp add: List.map_filter_def)

lemma first_ids_snoc: "first_ids (rows @ [r]) =
    (case row_id r of None \<Rightarrow> first_ids rows | Some sid \<Rightarrow> set_add sid (first_ids rows))"
  by (auto simp: first_ids_def map_filter_append map_filter_simps split: option.splits)

lemma merged_row_ids:
  "List.map_filter row_id (fst (foldl merge_row ([], []) rows)) = first_ids rows"
proof (induction rows rule: rev_induct)
  case Nil
  show ?case by (simp add: first_ids_def map_filter_simps)
next
  case (snoc r rows)
  then show ?case by (simp add: merge_row_ids [OF merged_rows_indexed] first_ids_snoc split: option.split)
qed

lemma distinct_first_ids [simp]: "distinct (first_ids rows)"
proof (induction rows rule: rev_induct)
  case (snoc r rows)
  then show ?case by (auto simp: first_ids_snoc split: option.splits)
qed (simp add: first_ids_def map_filter_simps)

lemma set_first_ids: "set (first_ids rows) = set (List.map_filter row_id rows)"
proof (induction rows rule: rev_induct)
  case (snoc r rows)
  then show ?case by (auto simp: first_ids_snoc map_filter_append map_filter_simps split: option.splits)
qed (simp add: first_ids_def map_filter_simps)

lemma filter_update_other:
  "\<not> P (xs ! i) \<Longrightarrow> \<not> P r \<Longrightarrow> i < length xs \<Longrightarrow> filter P (xs[i := r]) = filter P xs"
  by (induction xs arbitrary: i) (auto split: nat.splits)

lemma merged_nameless:
  "filter (\<lambda>r. row_id r = None) (fst (foldl merge_row ([], []) rows)) = filter (\<lambda>r. row_id r = None) rows"
proof (induction rows rule: rev_induct)
  case (snoc r rows)
  obtain out seen where acc: "foldl merge_row ([], []) rows = (out, seen)" by force
  have inv: "indexed (out, seen)" using merged_rows_indexed [of rows] by (simp add: acc)
  have kept: "filter (\<lambda>r. row_id r = None) (out[i := r]) = filter (\<lambda>r. row_id r = None) out"
    if "row_id r = Some sid" "obj_get seen sid = Some i" for sid i
    using inv that by (intro filter_update_other) (auto simp: indexed_def)
  from snoc show ?case
    by (auto simp: acc merge_row_cases kept split: option.splits)
qed simp

lemma merged_row_set: "set (fst (foldl merge_row ([], []) rows)) \<subseteq> set rows"
proof (induction rows rule: rev_induct)
  case (snoc r rows)
  obtain out seen where acc: "foldl merge_row ([], []) rows = (out, seen)" by force
  from snoc show ?case
    by (auto simp: acc merge_row_cases dest!: set_update_subset_insert [THEN subsetD] split: option.splits)
qed simp

text \<open>The merge of any number of sources keeps exactly one row per session id. The row of an id
  is the one of the last source (and within it the last entry) that reports it; the ids stand in
  the order in which they were first reported, whatever replaced their rows later; and rows
  without an id are all kept, in order.\<close>

theorem merge_keeps_one_row_per_session:
  "distinct (List.map_filter row_id (merge_n_sources tagged))
   \<and> List.map_filter row_id (merge_n_sources tagged) = first_ids (concat tagged)
   \<and> row_with sid (merge_n_sources tagged) = row_with sid (rev (concat tagged))
   \<and> filter (\<lambda>r. row_id r = None) (merge_n_sources tagged)
       = filter (\<lambda>r. row_id r = None) (concat tagged)"
  by (simp add: merge_n_sources_def merged_row_ids merged_row_with merged_nameless)

section \<open>The fan-out\<close>

lemma fetch_sessions_source [simp]:
  "sr_source (sf_record (fst (fetch_sessions tag up endpoint allow run))) = tag"
  by (simp add: fetch_sessions_def fetched_def absent_record_def Let_def split: option.splits sum.splits)

lemma fetch_sessions_entries:
  "e \<in> set (sf_entries (fst (fetch_sessions tag up endpoint allow run))) \<Longrightarrow>
   sr_present (sf_record (fst (fetch_sessions tag up endpoint allow run)))"
  by (auto simp: fetch_sessions_def fetched_def Let_def split: option.splits sum.splits if_splits)

lemma starts_with_prefix [simp]: "starts_with (p @ s) p"
  by (simp add: starts_with_iff)

definition asks :: "string option \<Rightarrow> string option \<Rightarrow> http_request \<Rightarrow> bool" where
  "asks url auth q \<longleftrightarrow> (\<exists>u. truthy url = Some u \<and> starts_with (fst q) (strip_slashes u)) \<and> snd q = truthy auth"

lemma fetch_sessions_requests:
  "q \<in> set (snd (fetch_sessions tag up endpoint allow run)) \<Longrightarrow>
   asks (up_url up) (up_auth up) q \<and> (allow \<or> snd q \<noteq> None)"
  by (auto simp: fetch_sessions_def asks_def Let_def split: option.splits sum.splits if_splits)

lemma fetch_peer_source [simp]: "sr_source (sf_record (fst (fetch_peer auth_header endpoint p run))) = ps_machine p"
  by (simp add: fetch_peer_def absent_record_def)

lemma fetch_peer_entries:
  "e \<in> set (sf_entries (fst (fetch_peer auth_header endpoint p run))) \<Longrightarrow>
   ps_trusted p \<noteq> Some False \<and> sr_present (sf_record (fst (fetch_peer auth_header endpoint p run)))"
  by (auto simp: fetch_peer_def dest: fetch_sessions_entries split: if_splits)

definition asks_peer :: "(string \<Rightarrow> string) \<Rightarrow> peer_source \<Rightarrow> http_request \<Rightarrow> bool" where
  "asks_peer auth_header p q \<longleftrightarrow>
     ps_trusted p \<noteq> Some False \<and>
     (\<exists>token. ps_token p = Some token \<and> snd q = Some (auth_header token)) \<and>
     asks (ps_url p) (map_option auth_header (ps_token p)) q"

lemma truthy_Some_eq: "Some t = truthy s \<longleftrightarrow> s = Some t \<and> t \<noteq> []"
  using truthy_Some [of s t] by (auto simp del: truthy_Some)

lemma fetch_peer_requests:
  "q \<in> set (snd (fetch_peer auth_header endpoint p run)) \<Longrightarrow> asks_peer auth_header p q"
  by (auto simp: fetch_peer_def asks_peer_def asks_def truthy_Some_eq dest!: fetch_sessions_requests split: if_splits)

lemma peer_fetches_nth:
  "length (peer_fetches auth_header opts runs) = length (fo_peers opts)"
  "i < length (fo_peers opts) \<Longrightarrow> peer_fetches auth_header opts runs ! i =
     fetch_peer auth_header (fleet_endpoint (fo_archived opts)) (fo_peers opts ! i) (run_peer runs i)"
  by (simp_all add: peer_fetches_def nth_enumerate_eq)

text \<open>A source's name, and the fetch that a peer of the options got.\<close>

definition local_fetch :: "(string \<Rightarrow> string) \<Rightarrow> fleet_options \<Rightarrow> fan_out_runs \<Rightarrow> source_fetch \<times> http_request list" where
  "local_fetch auth_header opts runs =
     fetch_sessions (fo_local_machine opts)
       \<lparr> up_url = fo_local_url opts, up_auth = map_option auth_header (fo_password opts) \<rparr>
       (fleet_endpoint (fo_archived opts)) True (run_local runs)"

definition fan_out_rows :: "(string \<Rightarrow> string) \<Rightarrow> fleet_options \<Rightarrow> fan_out_runs \<Rightarrow> projected_session list list" where
  "fan_out_rows auth_header opts runs =
     tag_sessions_with_owner opts (fo_local_machine opts) True (fo_controlled_by opts)
       (sf_entries (fst (local_fetch auth_header opts runs)))
     # map (\<lambda>(p, f). tag_sessions_with_owner opts (ps_machine p) False None (sf_entries f))
         (zip (fo_peers opts) (map fst (peer_fetches auth_header opts runs)))"

lemma fan_out_projection:
  "fp_sessions (build_fleet_projection hash before auth_header opts runs) =
     merge_n_sources (fan_out_rows auth_header opts runs)"
  "fp_sources (build_fleet_projection hash before auth_header opts runs) =
     foldl (\<lambda>s b. obj_set s (bl_machine b) (blocked_record b))
       (foldl (\<lambda>s (p, f). obj_set s (ps_machine p) (sf_record f))
          [(fo_local_machine opts, sf_record (fst (local_fetch auth_header opts runs)))]
          (zip (fo_peers opts) (map fst (peer_fetches auth_header opts runs))))
       (fo_blocked opts)"
  "fst (snd (fleet_fan_out hash before auth_header opts runs)) = map fst (peer_fetches auth_header opts runs)"
  "snd (snd (fleet_fan_out hash before auth_header opts runs)) =
     snd (local_fetch auth_header opts runs) @ concat (map snd (peer_fetches auth_header opts runs))"
  by (simp_all add: build_fleet_projection_def fleet_fan_out_def fan_out_rows_def local_fetch_def
      Let_def case_prod_beta)

lemma foldl_obj_set:
  fixes key :: "'a \<Rightarrow> string"
  shows "fst ` set (foldl (\<lambda>s x. obj_set s (key x) (val x)) m xs) = fst ` set m \<union> key ` set xs"
    and "obj_wf m \<Longrightarrow> obj_wf (foldl (\<lambda>s x. obj_set s (key x) (val x)) m xs)"
    and "list_all (\<lambda>(k, v). P k v) m \<Longrightarrow> (\<And>x. x \<in> set xs \<Longrightarrow> P (key x) (val x)) \<Longrightarrow>
      list_all (\<lambda>(k, v). P k v) (foldl (\<lambda>s x. obj_set s (key x) (val x)) m xs)"
proof (induction xs arbitrary: m)
  case (Cons x xs)
  { case 1 show ?case using Cons.IH(1) [of "obj_set m (key x) (val x)"] by (auto simp: obj_keys_set) }
  { case 2 then show ?case using Cons.IH(2) [of "obj_set m (key x) (val x)"] by simp }
  { case 3
    have "list_all (\<lambda>(k, v). P k v) (obj_set m (key x) (val x))"
      using 3 by (induction m "key x" "val x" rule: obj_set.induct) auto
    with 3 show ?case using Cons.IH(3) [of "obj_set m (key x) (val x)"] by simp }
qed simp_all

lemma foldl_obj_set_get:
  fixes key :: "'a \<Rightarrow> string"
  shows "obj_get (foldl (\<lambda>s x. obj_set s (key x) (val x)) m xs) k =
    (case find (\<lambda>x. key x = k) (rev xs) of Some x \<Rightarrow> Some (val x) | None \<Rightarrow> obj_get m k)"
  by (induction xs rule: rev_induct) (auto split: option.splits)

text \<open>No source is silently dropped. The sources of a fleet projection are exactly this machine,
  the peers it was asked to fan out to and the peers blocked by their identity, each once, under
  the record of its own outcome; and a blocked peer is never recorded as present, even where the
  same machine was also listed and answered.\<close>

theorem projection_names_every_source:
  "fst ` set (fp_sources (build_fleet_projection hash before auth_header opts runs)) =
     insert (fo_local_machine opts) (ps_machine ` set (fo_peers opts) \<union> bl_machine ` set (fo_blocked opts))
   \<and> obj_wf (fp_sources (build_fleet_projection hash before auth_header opts runs))
   \<and> list_all (\<lambda>(k, rec). sr_source rec = k) (fp_sources (build_fleet_projection hash before auth_header opts runs))
   \<and> list_all (\<lambda>b. map_option sr_present
        (obj_get (fp_sources (build_fleet_projection hash before auth_header opts runs)) (bl_machine b)) = Some False)
       (fo_blocked opts)"
proof -
  let ?base = "[(fo_local_machine opts, sf_record (fst (local_fetch auth_header opts runs)))]"
  let ?zip = "zip (fo_peers opts) (map fst (peer_fetches auth_header opts runs))"
  let ?named = "foldl (\<lambda>s x. obj_set s (ps_machine (fst x)) (sf_record (snd x))) ?base ?zip"
  let ?all = "foldl (\<lambda>s b. obj_set s (bl_machine b) (blocked_record b)) ?named (fo_blocked opts)"
  have all: "fp_sources (build_fleet_projection hash before auth_header opts runs) = ?all"
    by (simp add: fan_out_projection case_prod_unfold)
  have keys: "(\<lambda>x. ps_machine (fst x)) ` set ?zip = ps_machine ` set (fo_peers opts)"
  proof -
    have "map fst ?zip = fo_peers opts" by (simp add: peer_fetches_nth(1))
    then have "set (fo_peers opts) = fst ` set ?zip" by (metis list.set_map)
    then show ?thesis by (simp add: image_image)
  qed
  have own: "sr_source (sf_record (snd x)) = ps_machine (fst x)" if "x \<in> set ?zip" for x
    using that by (auto simp: in_set_zip peer_fetches_nth dest!: sym [of "fst (fetch_peer _ _ _ _)"])
  have "fst ` set ?all = insert (fo_local_machine opts) (ps_machine ` set (fo_peers opts) \<union> bl_machine ` set (fo_blocked opts))"
    by (simp add: foldl_obj_set(1) keys)
  moreover have "obj_wf ?all" by (intro foldl_obj_set(2)) (simp add: obj_wf_def)
  moreover have "list_all (\<lambda>(k, rec). sr_source rec = k) ?all"
    by (intro foldl_obj_set(3)) (auto simp: own local_fetch_def blocked_record_def absent_record_def)
  moreover have "map_option sr_present (obj_get ?all (bl_machine b)) = Some False" if "b \<in> set (fo_blocked opts)" for b
  proof -
    from that obtain b' where "find (\<lambda>x. bl_machine x = bl_machine b) (rev (fo_blocked opts)) = Some b'"
      using find_exists [of b "rev (fo_blocked opts)" "\<lambda>x. bl_machine x = bl_machine b"] by auto
    then show ?thesis by (simp add: foldl_obj_set_get blocked_record_def absent_record_def)
  qed
  ultimately show ?thesis by (simp add: all list_all_iff)
qed

definition row_from :: "string \<Rightarrow> bool \<Rightarrow> source_fetch \<Rightarrow> projected_session \<Rightarrow> bool" where
  "row_from machine is_local f r \<longleftrightarrow>
     owner_machine_id (row_owner r) = machine \<and> tag_is_local (row_owner r) = is_local \<and>
     row_provenance r = machine \<and> sr_present (sf_record f) \<and> row_fields r \<in> set (sf_entries f)"

lemma tagged_row_from:
  assumes "r \<in> set (tag_sessions_with_owner opts machine is_local controlled (sf_entries f))"
    and "\<And>e. e \<in> set (sf_entries f) \<Longrightarrow> sr_present (sf_record f)"
  shows "row_from machine is_local f r"
  using assms by (auto simp: tag_sessions_with_owner_def tag_session_def row_from_def)

lemma fan_out_row_from:
  assumes "r \<in> set (concat (fan_out_rows auth_header opts runs))"
  shows "row_from (fo_local_machine opts) True (fst (local_fetch auth_header opts runs)) r
    \<or> list_ex (\<lambda>(p, f). ps_trusted p \<noteq> Some False \<and> row_from (ps_machine p) False f r)
        (zip (fo_peers opts) (map fst (peer_fetches auth_header opts runs)))"
proof -
  have fetched: "e \<in> set (sf_entries f) \<Longrightarrow> ps_trusted p \<noteq> Some False \<and> sr_present (sf_record f)"
    if "(p, f) \<in> set (zip (fo_peers opts) (map fst (peer_fetches auth_header opts runs)))" for p f e
    using that by (auto simp: in_set_zip peer_fetches_nth dest: fetch_peer_entries)
  from assms consider
      "r \<in> set (tag_sessions_with_owner opts (fo_local_machine opts) True (fo_controlled_by opts)
        (sf_entries (fst (local_fetch auth_header opts runs))))"
    | p f where "(p, f) \<in> set (zip (fo_peers opts) (map fst (peer_fetches auth_header opts runs)))"
        and "r \<in> set (tag_sessions_with_owner opts (ps_machine p) False None (sf_entries f))"
    by (auto simp: fan_out_rows_def)
  then show ?thesis
  proof cases
    case 1
    then show ?thesis by (auto simp: local_fetch_def intro: tagged_row_from fetch_sessions_entries)
  next
    case 2
    then have "row_from (ps_machine p) False f r" using fetched by (auto intro: tagged_row_from)
    moreover from 2 obtain e where "e \<in> set (sf_entries f)" by (auto simp: tag_sessions_with_owner_def)
    ultimately show ?thesis using 2 fetched [of p f] by (auto simp: list_ex_iff)
  qed
qed

lemma fan_out_requests:
  assumes "q \<in> set (snd (snd (fleet_fan_out hash before auth_header opts runs)))"
  shows "asks (fo_local_url opts) (map_option auth_header (fo_password opts)) q
    \<or> (\<exists>p \<in> set (fo_peers opts). asks_peer auth_header p q)"
proof (cases "q \<in> set (snd (local_fetch auth_header opts runs))")
  case True
  then show ?thesis by (auto simp: local_fetch_def dest!: fetch_sessions_requests)
next
  case False
  with assms obtain x where "x \<in> set (peer_fetches auth_header opts runs)" "q \<in> set (snd x)"
    by (auto simp: fan_out_projection)
  then obtain i where "i < length (fo_peers opts)" "q \<in> set (snd (peer_fetches auth_header opts runs ! i))"
    by (auto simp: in_set_conv_nth peer_fetches_nth(1))
  then have "asks_peer auth_header (fo_peers opts ! i) q" "fo_peers opts ! i \<in> set (fo_peers opts)"
    by (auto simp: peer_fetches_nth intro: fetch_peer_requests)
  then show ?thesis by blast
qed

lemma fan_out_projected_row:
  assumes "r \<in> set (fp_sessions (build_fleet_projection hash before auth_header opts runs))"
  shows "r \<in> set (concat (fan_out_rows auth_header opts runs))"
  using assms merged_row_set [of "concat (fan_out_rows auth_header opts runs)"]
  unfolding fan_out_projection merge_n_sources_def by blast

text \<open>A machine without trust sees nothing and is shown nothing. Every request of a fan-out goes
  to this machine's own engine with its own credential, or to a peer that is trusted, at its URL
  and with the token held for that very peer - never a cross-machine request without a credential;
  and every row of the projection was fetched from a source that answered, carries that source as
  its owner and provenance, and is local exactly when it came from this machine's engine.\<close>

theorem fan_out_contacts_trusted_peers_only:
  "list_all (\<lambda>q. asks (fo_local_url opts) (map_option auth_header (fo_password opts)) q
       \<or> list_ex (\<lambda>p. asks_peer auth_header p q) (fo_peers opts))
     (snd (snd (fleet_fan_out hash before auth_header opts runs)))
   \<and> list_all (\<lambda>r. row_from (fo_local_machine opts) True (fst (local_fetch auth_header opts runs)) r
       \<or> list_ex (\<lambda>(p, f). ps_trusted p \<noteq> Some False \<and> row_from (ps_machine p) False f r)
           (zip (fo_peers opts) (fst (snd (fleet_fan_out hash before auth_header opts runs)))))
     (fp_sessions (build_fleet_projection hash before auth_header opts runs))"
  unfolding list_all_iff fan_out_projection(3)
  using fan_out_requests fan_out_projected_row fan_out_row_from by (fastforce simp: list_ex_iff)

definition token_held :: "peer_provider \<Rightarrow> string \<Rightarrow> peer_token option" where
  "token_held pv m = (case provider_read_token pv m of Inr c \<Rightarrow> Some c | Inl r \<Rightarrow> None)"

lemma projection_peer_trusted:
  assumes "p \<in> set (projection_peers pv)" and "ps_trusted p \<noteq> Some False"
  shows "\<exists>c. token_held pv (ps_machine p) = Some c \<and> ps_machine p \<in> set (get_serving_peers pv)
    \<and> ps_url p = Some (pt_base_url c) \<and> ps_token p = Some (pt_token c)"
  using assms by (auto simp: projection_peers_def token_held_def split: sum.splits)

text \<open>Trust, not reachability, gates observation. When the peers of the fan-out are the provider's,
  every request leaves either for this machine's own engine or for a serving peer whose token is
  held in the store at that moment, at the base URL recorded with that token and under its
  authorization header; and every row that is not local belongs to such a peer.\<close>

theorem observing_needs_a_held_token:
  "list_all (\<lambda>q. asks (fo_local_url opts) (map_option auth_header (fo_password opts)) q
       \<or> list_ex (\<lambda>m. \<exists>c. token_held pv m = Some c
             \<and> asks (Some (pt_base_url c)) (Some (auth_header (pt_token c))) q) (get_serving_peers pv))
     (snd (snd (fleet_fan_out hash before auth_header (opts\<lparr>fo_peers := projection_peers pv\<rparr>) runs)))
   \<and> list_all (\<lambda>r. tag_is_local (row_owner r)
       \<or> list_ex (\<lambda>m. owner_machine_id (row_owner r) = m \<and> token_held pv m \<noteq> None) (get_serving_peers pv))
     (fp_sessions (build_fleet_projection hash before auth_header (opts\<lparr>fo_peers := projection_peers pv\<rparr>) runs))"
proof (intro conjI)
  show "list_all (\<lambda>q. asks (fo_local_url opts) (map_option auth_header (fo_password opts)) q
       \<or> list_ex (\<lambda>m. \<exists>c. token_held pv m = Some c
             \<and> asks (Some (pt_base_url c)) (Some (auth_header (pt_token c))) q) (get_serving_peers pv))
     (snd (snd (fleet_fan_out hash before auth_header (opts\<lparr>fo_peers := projection_peers pv\<rparr>) runs)))"
    unfolding list_all_iff
  proof
    fix q assume "q \<in> set (snd (snd (fleet_fan_out hash before auth_header (opts\<lparr>fo_peers := projection_peers pv\<rparr>) runs)))"
    from fan_out_requests [OF this]
    consider "asks (fo_local_url opts) (map_option auth_header (fo_password opts)) q"
      | p where "p \<in> set (projection_peers pv)" "asks_peer auth_header p q"
      by auto
    then show "asks (fo_local_url opts) (map_option auth_header (fo_password opts)) q
       \<or> list_ex (\<lambda>m. \<exists>c. token_held pv m = Some c
             \<and> asks (Some (pt_base_url c)) (Some (auth_header (pt_token c))) q) (get_serving_peers pv)"
    proof cases
      case 2
      then show ?thesis
        using projection_peer_trusted [of p pv] by (auto simp: asks_peer_def list_ex_iff)
    qed simp
  qed
  show "list_all (\<lambda>r. tag_is_local (row_owner r)
       \<or> list_ex (\<lambda>m. owner_machine_id (row_owner r) = m \<and> token_held pv m \<noteq> None) (get_serving_peers pv))
     (fp_sessions (build_fleet_projection hash before auth_header (opts\<lparr>fo_peers := projection_peers pv\<rparr>) runs))"
    unfolding list_all_iff
  proof
    fix r assume "r \<in> set (fp_sessions (build_fleet_projection hash before auth_header (opts\<lparr>fo_peers := projection_peers pv\<rparr>) runs))"
    from fan_out_row_from [OF fan_out_projected_row [OF this]]
    consider "tag_is_local (row_owner r)"
      | p where "p \<in> set (projection_peers pv)" "ps_trusted p \<noteq> Some False" "owner_machine_id (row_owner r) = ps_machine p"
      by (auto simp: row_from_def list_ex_iff dest!: set_zip_leftD)
    then show "tag_is_local (row_owner r)
       \<or> list_ex (\<lambda>m. owner_machine_id (row_owner r) = m \<and> token_held pv m \<noteq> None) (get_serving_peers pv)"
    proof cases
      case 2
      then show ?thesis
        using projection_peer_trusted [of p pv] by (auto simp: list_ex_iff)
    qed simp
  qed
qed

section \<open>The rows the owner map is fed\<close>

lemma row_id_alt: "row_id r = truthy (text_of (row_fields r) ''id'')"
  by (simp add: row_id_def session_id_of_def)

lemma union_rows_keys:
  "obj_wf (union_rows rows) \<and> (\<forall>(k, r) \<in> set (union_rows rows). row_id r = Some k)
   \<and> (\<forall>sid. obj_get (union_rows rows) sid = row_with sid rows)"
proof (induction rows rule: rev_induct)
  case Nil
  show ?case by (simp add: union_rows_def row_with_def)
next
  case (snoc r rows)
  have step: "union_rows (rows @ [r]) =
    (case row_id r of None \<Rightarrow> union_rows rows
     | Some sid \<Rightarrow> if obj_has (union_rows rows) sid then union_rows rows else obj_set (union_rows rows) sid r)"
    by (simp add: union_rows_def row_id_alt option.case_distrib split: option.split)
  show ?case
  proof (cases "row_id r")
    case None
    with snoc show ?thesis by (auto simp: step row_with_append split: option.splits)
  next
    case (Some k)
    show ?thesis
    proof (cases "obj_has (union_rows rows) k")
      case True
      then have "obj_get (union_rows rows) k \<noteq> None" by (simp add: obj_get_None_iff)
      with snoc Some True show ?thesis by (auto simp: step row_with_append split: option.splits)
    next
      case False
      then have "obj_get (union_rows rows) k = None" by (simp add: obj_get_None_iff)
      with snoc Some False show ?thesis
        by (auto simp: step row_with_append obj_set_fresh obj_wf_def map_add_def split: option.splits)
    qed
  qed
qed

lemmas union_rows_facts =
  union_rows_keys [THEN conjunct1]
  union_rows_keys [THEN conjunct2, THEN conjunct1, rule_format]
  union_rows_keys [THEN conjunct2, THEN conjunct2, rule_format]

text \<open>With one row per id, the entry that decides the owner of an id is its row.\<close>

lemma union_claimant:
  assumes "row_with sid rows = Some r" and "owner_machine_id (row_owner r) \<noteq> []"
  shows "claimant (map session_entry_of (map snd (union_rows rows))) sid = Some (owner_machine_id (row_owner r))"
proof -
  let ?u = "union_rows rows"
  let ?cs = "claims (map session_entry_of (map snd ?u))"
  have claim: "owner_of_entry (session_entry_of x) = Some (p, e) \<Longrightarrow>
      p = owner_machine_id (row_owner x) \<and> text_of (row_fields x) ''id'' = Some (held_id e)" for x p e
    by (auto simp: owner_of_entry_def session_entry_of_def Let_def split: option.splits if_splits)
  have in_u: "(sid, r) \<in> set ?u"
    using assms(1) union_rows_facts(3) [of rows sid] by (auto dest: map_of_SomeD)
  have r: "text_of (row_fields r) ''id'' = Some sid"
    using union_rows_facts(2) [OF in_u] by (simp add: row_id_alt)
  then obtain e where e: "owner_of_entry (session_entry_of r) = Some (owner_machine_id (row_owner r), e)" "held_id e = sid"
    using assms(2) by (auto simp: owner_of_entry_def session_entry_of_def)
  have only: "p = owner_machine_id (row_owner r)" if c: "(p, e') \<in> set ?cs" "held_id e' = sid" for p e'
  proof -
    from c obtain k x where x: "(k, x) \<in> set ?u" "owner_of_entry (session_entry_of x) = Some (p, e')"
      by (auto simp: claims_def set_map_filter)
    from claim [OF x(2)] c have "p = owner_machine_id (row_owner x)" "text_of (row_fields x) ''id'' = Some sid" by auto
    moreover from this union_rows_facts(2) [OF x(1)] have "k = sid" by (simp add: row_id_alt)
    ultimately show ?thesis
      using x(1) in_u union_rows_facts(1) [of rows]
      by (auto simp: obj_wf_def dest: eq_key_imp_eq_value)
  qed
  from e in_u have "(owner_machine_id (row_owner r), e) \<in> set (rev ?cs)"
    by (force simp: claims_def set_map_filter)
  with e obtain c where "find (\<lambda>c. held_id (snd c) = sid) (rev ?cs) = Some c"
    using find_exists [of "(owner_machine_id (row_owner r), e)" "rev ?cs" "\<lambda>c. held_id (snd c) = sid"] by auto
  then show ?thesis
    using only [of "fst c" "snd c"] by (auto simp: claimant_def dest!: find_SomeD)
qed

lemma owner_routing_projection_sessions:
  "fst (build_owner_routing_projection hash before auth_header opts active archived) =
     map snd (union_rows
       (fp_sessions (build_fleet_projection hash before auth_header (opts\<lparr>fo_archived := False\<rparr>) active) @
        fp_sessions (build_fleet_projection hash before auth_header (opts\<lparr>fo_archived := True\<rparr>) archived)))"
  "map refreshed_peer (map refresh_peer.truncate
     (snd (build_owner_routing_projection hash before auth_header opts active archived))) = map ps_machine (fo_peers opts)"
proof -
  show "fst (build_owner_routing_projection hash before auth_header opts active archived) =
     map snd (union_rows
       (fp_sessions (build_fleet_projection hash before auth_header (opts\<lparr>fo_archived := False\<rparr>) active) @
        fp_sessions (build_fleet_projection hash before auth_header (opts\<lparr>fo_archived := True\<rparr>) archived)))"
    by (simp add: build_owner_routing_projection_def build_fleet_projection_def case_prod_beta Let_def)
  have len: "length (fst (snd (fleet_fan_out hash before auth_header (opts\<lparr>fo_archived := b\<rparr>) runs))) =
      length (fo_peers opts)" for b runs
    by (simp add: fan_out_projection(3) peer_fetches_nth(1))
  show "map refreshed_peer (map refresh_peer.truncate
     (snd (build_owner_routing_projection hash before auth_header opts active archived))) = map ps_machine (fo_peers opts)"
    by (rule nth_equalityI)
      (simp_all add: build_owner_routing_projection_def case_prod_beta Let_def len refresh_report_of_def
        refresh_peer.truncate_def)
qed

lemma refresh_owner_map_owners:
  assumes "distinct (map refreshed_peer (map refresh_peer.truncate (snd p)))"
  shows "obj_get (owners (refresh_owner_map p now now' m)) sid =
    owner_after (map session_entry_of (fst p)) (map refresh_peer.truncate (snd p)) now m sid"
  by (simp only: refresh_owner_map_def owner_map_refresh_def option.case prod.case if_False
      update_owners [OF assms])

text \<open>Every session that a fleet fan-out lists, active or archived, is routed to the machine whose
  row lists it, from the refresh that the fan-out feeds: the union keeps the active row before the
  archived one, and whatever the map held before, and whenever it is asked, it answers the owner
  on that row. A write to an archived session of a peer does not fall to this machine's engine.\<close>

theorem listed_sessions_route_to_their_owner:
  assumes "distinct (map ps_machine (fo_peers opts))"
    and "row_with sid (fp_sessions (build_fleet_projection hash before auth_header (opts\<lparr>fo_archived := False\<rparr>) active) @
           fp_sessions (build_fleet_projection hash before auth_header (opts\<lparr>fo_archived := True\<rparr>) archived)) = Some r"
    and "owner_machine_id (row_owner r) \<noteq> []"
  shows "fst (resolve_owner sid t (refresh_owner_map
      (build_owner_routing_projection hash before auth_header opts active archived) now now' m)) =
    Some (owner_machine_id (row_owner r))"
proof -
  let ?p = "build_owner_routing_projection hash before auth_header opts active archived"
  have "claimant (map session_entry_of (fst ?p)) sid = Some (owner_machine_id (row_owner r))"
    unfolding owner_routing_projection_sessions by (rule union_claimant [OF assms(2,3)])
  then have "obj_get (owners (refresh_owner_map ?p now now' m)) sid = Some (owner_machine_id (row_owner r))"
    using assms(1) by (subst refresh_owner_map_owners) (simp_all only: owner_routing_projection_sessions owner_after_def option.case)
  with assms(3) show ?thesis by (simp add: resolve_owner_def)
qed

section \<open>The retention, per source\<close>

text \<open>What one source shows, and what is kept of it, from its record and its rows alone.\<close>

definition rows_of :: "fleet_projection \<Rightarrow> string \<Rightarrow> observe_row list" where
  "rows_of p k = map observe_row_of (filter (\<lambda>r. owner_machine_id (row_owner r) = k) (fp_sessions p))"

definition shown :: "observe_row list \<Rightarrow> source_record \<Rightarrow> observe_row list option \<Rightarrow> observe_row list" where
  "shown sessions rec kept =
     (if sr_present rec then sessions
      else map (if trust_breaking (sr_reason rec) then tombstone
                else (\<lambda>r. r\<lparr>ob_availability := Row_unavailable\<rparr>)) (or_else kept []))"

definition kept_after :: "observe_row list \<Rightarrow> source_record \<Rightarrow> observe_row list option \<Rightarrow> observe_row list option" where
  "kept_after sessions rec kept =
     (if sr_present rec
      then (if sessions \<noteq> [] \<and> \<not> tag_is_local (ob_owner (hd sessions)) then Some sessions else kept)
      else if trust_breaking (sr_reason rec) then map_option (map tombstone) kept else kept)"

lemma sessions_by_source_get:
  "or_else (obj_get (sessions_by_source rows) k) [] =
     map observe_row_of (filter (\<lambda>r. owner_machine_id (row_owner r) = k) rows)"
  by (induction rows rule: rev_induct) (auto simp: sessions_by_source_def Let_def)

lemma reconcile_source_shown:
  assumes "or_else (obj_get by_source k) [] = sessions"
  shows "fst (reconcile_source by_source (rows, retained) (k, rec)) = rows @ shown sessions rec (obj_get retained k)"
    and "obj_get (snd (reconcile_source by_source (rows, retained) (k, rec))) k' =
      (if k' = k then kept_after sessions rec (obj_get retained k) else obj_get retained k')"
  using assms
  by (auto simp: reconcile_source_def shown_def kept_after_def Let_def split: option.splits list.splits)

lemma reconcile_sources_shown:
  assumes "\<And>k. or_else (obj_get by_source k) [] = sessions k" and "distinct (map fst srcs)"
  shows "fst (foldl (reconcile_source by_source) (rows, retained) srcs) =
      rows @ concat (map (\<lambda>(k, rec). shown (sessions k) rec (obj_get retained k)) srcs)
    \<and> obj_get (snd (foldl (reconcile_source by_source) (rows, retained) srcs)) k =
      (case obj_get srcs k of None \<Rightarrow> obj_get retained k
       | Some rec \<Rightarrow> kept_after (sessions k) rec (obj_get retained k))"
  using assms(2)
proof (induction srcs arbitrary: rows retained)
  case (Cons s srcs)
  obtain k' rec where s: "s = (k', rec)" by force
  obtain rows' retained' where step: "reconcile_source by_source (rows, retained) (k', rec) = (rows', retained')"
    by force
  note facts = reconcile_source_shown [OF assms(1), of rows retained k' rec, unfolded step fst_conv snd_conv]
  have other: "map (\<lambda>(k, rec). shown (sessions k) rec (obj_get retained' k)) srcs =
      map (\<lambda>(k, rec). shown (sessions k) rec (obj_get retained k)) srcs"
    using Cons.prems by (force simp: s facts)
  have unfold: "foldl (reconcile_source by_source) (rows, retained) (s # srcs) =
      foldl (reconcile_source by_source) (rows', retained') srcs"
    by (simp only: foldl.simps s step)
  have fresh: "obj_get srcs k' = None" "distinct (map fst srcs)"
    using Cons.prems by (simp_all add: s obj_get_None_iff)
  show ?case
    unfolding unfold Cons.IH [OF fresh(2), of rows' retained', THEN conjunct1]
      Cons.IH [OF fresh(2), of rows' retained', THEN conjunct2] other
    using fresh(1) facts by (simp add: s split: option.split)
qed simp

lemma reconcile_shown:
  assumes "obj_wf (fp_sources p)"
  shows "fst (reconcile p retained) =
      concat (map (\<lambda>(k, rec). shown (rows_of p k) rec (obj_get retained k)) (fp_sources p))"
    and "obj_get (snd (reconcile p retained)) k =
      (case obj_get (fp_sources p) k of None \<Rightarrow> obj_get retained k
       | Some rec \<Rightarrow> kept_after (rows_of p k) rec (obj_get retained k))"
  using reconcile_sources_shown [where by_source = "sessions_by_source (fp_sessions p)" and sessions = "rows_of p"
      and srcs = "fp_sources p" and rows = "[]" and retained = retained] assms
  by (simp_all add: sessions_by_source_get rows_of_def reconcile_def obj_wf_def)

section \<open>What the retention shows\<close>

text \<open>A snapshot: a fleet projection of machine \<open>me\<close>, which is not among its own peers.\<close>

definition snapshot ::
  "(json \<Rightarrow> string) \<Rightarrow> (string \<Rightarrow> string \<Rightarrow> bool) \<Rightarrow> (string \<Rightarrow> string) \<Rightarrow> fleet_options \<times> fan_out_runs \<Rightarrow> fleet_projection"
where
  "snapshot hash before auth_header q = build_fleet_projection hash before auth_header (fst q) (snd q)"

definition snapshot_of :: "string \<Rightarrow> fleet_options \<times> fan_out_runs \<Rightarrow> bool" where
  "snapshot_of me q \<longleftrightarrow> fo_local_machine (fst q) = me \<and> me \<notin> ps_machine ` set (fo_peers (fst q))"

definition owned_rows :: "string \<Rightarrow> fleet_projection \<Rightarrow> bool" where
  "owned_rows me p \<longleftrightarrow> list_all (\<lambda>r. tag_is_local (row_owner r) \<longleftrightarrow> owner_machine_id (row_owner r) = me) (fp_sessions p)"

lemma snapshot_wf [simp]: "obj_wf (fp_sources (snapshot hash before auth_header q))"
  unfolding snapshot_def fan_out_projection case_prod_unfold
  by (intro foldl_obj_set(2)) (simp add: obj_wf_def)

lemma snapshot_owned:
  assumes "snapshot_of me q"
  shows "owned_rows me (snapshot hash before auth_header q)"
  unfolding owned_rows_def list_all_iff snapshot_def
proof
  fix r assume "r \<in> set (fp_sessions (build_fleet_projection hash before auth_header (fst q) (snd q)))"
  from fan_out_row_from [OF fan_out_projected_row [OF this]] assms
  show "tag_is_local (row_owner r) \<longleftrightarrow> owner_machine_id (row_owner r) = me"
    by (auto simp: row_from_def list_ex_iff snapshot_of_def dest!: set_zip_leftD)
qed

definition observe_run :: "fleet_projection list \<Rightarrow> (string \<times> observe_row list) list \<Rightarrow> (string \<times> observe_row list) list" where
  "observe_run ps retained = foldl (\<lambda>ret p. snd (reconcile p ret)) retained ps"

lemma observe_run_append: "observe_run (ps @ qs) retained = observe_run qs (observe_run ps retained)"
  by (simp add: observe_run_def)

text \<open>What is kept under a source: rows of that source, none of them local.\<close>

definition kept_wf :: "string \<Rightarrow> string \<Rightarrow> observe_row list option \<Rightarrow> bool" where
  "kept_wf me k kept \<longleftrightarrow>
     list_all (\<lambda>r. owner_machine_id (ob_owner r) = k \<and> \<not> tag_is_local (ob_owner r) \<and> k \<noteq> me) (or_else kept [])"

lemma tombstone_owner [simp]:
  "owner_machine_id (ob_owner (tombstone r)) = owner_machine_id (ob_owner r)"
  "tag_is_local (ob_owner (tombstone r)) = tag_is_local (ob_owner r)"
  by (simp_all add: tombstone_def)

lemma rows_of_owner:
  assumes "r \<in> set (rows_of p k)"
  shows "owner_machine_id (ob_owner r) = k \<and> ob_availability r = Row_present"
    and "owned_rows me p \<Longrightarrow> tag_is_local (ob_owner r) \<longleftrightarrow> k = me"
proof -
  from assms obtain x where x: "x \<in> set (fp_sessions p)" "owner_machine_id (row_owner x) = k" "r = observe_row_of x"
    by (auto simp: rows_of_def)
  then show "owner_machine_id (ob_owner r) = k \<and> ob_availability r = Row_present"
    by (simp add: observe_row_of_def)
  assume "owned_rows me p"
  with x(1) have "tag_is_local (row_owner x) \<longleftrightarrow> owner_machine_id (row_owner x) = me"
    unfolding owned_rows_def list_all_iff by blast
  with x(2,3) show "tag_is_local (ob_owner r) \<longleftrightarrow> k = me" by (simp add: observe_row_of_def)
qed

lemma kept_after_wf:
  assumes "kept_wf me k kept" and "owned_rows me p"
  shows "kept_wf me k (kept_after (rows_of p k) rec kept)"
proof (cases "sr_present rec \<and> rows_of p k \<noteq> [] \<and> \<not> tag_is_local (ob_owner (hd (rows_of p k)))")
  case True
  then have "k \<noteq> me" using rows_of_owner(2) [OF _ assms(2), of "hd (rows_of p k)" k] by simp
  then have "owner_machine_id (ob_owner r) = k \<and> \<not> tag_is_local (ob_owner r) \<and> k \<noteq> me"
    if "r \<in> set (rows_of p k)" for r
    using rows_of_owner(1) [OF that] rows_of_owner(2) [OF that assms(2)] by simp
  then have "kept_wf me k (Some (rows_of p k))" by (simp add: kept_wf_def list_all_iff)
  with True show ?thesis by (simp add: kept_after_def)
next
  case False
  with assms(1) show ?thesis
    by (cases kept) (auto simp: kept_after_def kept_wf_def list_all_iff)
qed

lemma observe_run_wf:
  assumes "\<And>k. kept_wf me k (obj_get retained k)"
    and "\<And>p. p \<in> set ps \<Longrightarrow> obj_wf (fp_sources p) \<and> owned_rows me p"
  shows "kept_wf me k (obj_get (observe_run ps retained) k)"
  using assms(2)
proof (induction ps arbitrary: k rule: rev_induct)
  case Nil
  show ?case using assms(1) by (simp add: observe_run_def)
next
  case (snoc p ps)
  have "kept_wf me k' (obj_get (observe_run ps retained) k')" for k'
    by (rule snoc.IH) (use snoc.prems in auto)
  moreover have p: "obj_wf (fp_sources p)" "owned_rows me p" using snoc.prems by auto
  ultimately show ?case
    by (auto simp: observe_run_append reconcile_shown(2) observe_run_def kept_after_wf split: option.splits)
qed

lemma shown_away:
  assumes "kept_wf me k kept" and "\<not> sr_present rec" and "o' \<in> set (shown sessions rec kept)"
  shows "owner_machine_id (ob_owner o') = k \<and> \<not> tag_is_local (ob_owner o') \<and> k \<noteq> me
    \<and> ob_availability o' \<noteq> Row_present"
  using assms by (auto simp: shown_def kept_wf_def list_all_iff tombstone_def split: if_splits)

text \<open>C26: Missing data never renders a session as local. Over any run of fleet projections of a
  machine, every row the retention shows belongs to a source named in the current projection. It is
  local only when this machine's own source is present, and then it is one of that source's rows;
  a row shown as unavailable or revoked belongs to another machine, one the current projection
  records as absent, and no row of an absent source is shown as present.\<close>

theorem missing_data_is_never_local:
  assumes "list_all (snapshot_of me) (qs @ [q])"
    and "o' \<in> set (fst (reconcile (snapshot hash before auth_header q)
           (observe_run (map (snapshot hash before auth_header) qs) [])))"
  shows "\<exists>rec. obj_get (fp_sources (snapshot hash before auth_header q)) (owner_machine_id (ob_owner o')) = Some rec
      \<and> (ob_availability o' = Row_present \<longleftrightarrow> sr_present rec)
      \<and> (tag_is_local (ob_owner o') \<longleftrightarrow> owner_machine_id (ob_owner o') = me)
      \<and> (tag_is_local (ob_owner o') \<longrightarrow> sr_present rec)
      \<and> (sr_present rec \<longrightarrow> o' \<in> set (rows_of (snapshot hash before auth_header q) (owner_machine_id (ob_owner o'))))"
proof -
  let ?p = "snapshot hash before auth_header q"
  let ?ret = "observe_run (map (snapshot hash before auth_header) qs) []"
  have owned: "owned_rows me (snapshot hash before auth_header x)" if "x \<in> set (qs @ [q])" for x
    using assms(1) that by (intro snapshot_owned) (auto simp: list_all_iff)
  have wf: "kept_wf me k (obj_get ?ret k)" for k
    using owned by (intro observe_run_wf) (auto simp: kept_wf_def)
  from assms(2) obtain k rec where src: "(k, rec) \<in> set (fp_sources ?p)"
      and o': "o' \<in> set (shown (rows_of ?p k) rec (obj_get ?ret k))"
    by (auto simp: reconcile_shown(1))
  have get: "obj_get (fp_sources ?p) k = Some rec"
    using src snapshot_wf [of hash before auth_header q] by (simp add: obj_wf_def)
  show ?thesis
  proof (cases "sr_present rec")
    case True
    with o' have r: "o' \<in> set (rows_of ?p k)" by (simp add: shown_def)
    with rows_of_owner(1) [OF r] rows_of_owner(2) [OF r owned [of q]] True get show ?thesis by simp
  next
    case False
    with shown_away [OF wf False o'] get show ?thesis by auto
  qed
qed

lemma shown_owner:
  assumes "kept_wf me k kept" and "o' \<in> set (shown (rows_of p k) rec kept)"
  shows "owner_machine_id (ob_owner o') = k"
  using assms shown_away [OF assms(1) _ assms(2)] rows_of_owner(1) [of o' p k]
  by (cases "sr_present rec") (simp_all add: shown_def)

abbreviation owner_is :: "string \<Rightarrow> observe_row \<Rightarrow> bool" where
  "owner_is k r \<equiv> owner_machine_id (ob_owner r) = k"

lemma filter_one_source:
  assumes "distinct (map fst srcs)" and "\<And>k rec r. (k, rec) \<in> set srcs \<Longrightarrow> r \<in> set (f k rec) \<Longrightarrow> owner_is k r"
  shows "filter (owner_is k) (concat (map (\<lambda>(k, rec). f k rec) srcs)) =
    (case obj_get srcs k of None \<Rightarrow> [] | Some rec \<Rightarrow> f k rec)"
  using assms
proof (induction srcs)
  case (Cons s srcs)
  obtain k' rec where s: "s = (k', rec)" by force
  have IH: "filter (owner_is k) (concat (map (\<lambda>(k, rec). f k rec) srcs)) =
      (case obj_get srcs k of None \<Rightarrow> [] | Some rec \<Rightarrow> f k rec)"
    using Cons.prems by (intro Cons.IH) auto
  have own: "owner_is k' r" if "r \<in> set (f k' rec)" for r
    using Cons.prems(2) [of k' rec r] that s by simp
  show ?case
  proof (cases "k = k'")
    case True
    then have "obj_get srcs k = None" using Cons.prems(1) by (simp add: s obj_get_None_iff)
    with IH True have "filter (owner_is k') (concat (map (\<lambda>(k, rec). f k rec) srcs)) = []" by simp
    then show ?thesis using own True by (simp add: s filter_True)
  next
    case False
    then have "filter (owner_is k) (f k' rec) = []" using own by (auto simp: filter_empty_conv)
    with False show ?thesis by (simp add: s IH)
  qed
qed simp

lemma shown_under_source:
  assumes "obj_wf (fp_sources p)" and "\<And>k. kept_wf me k (obj_get retained k)"
  shows "filter (owner_is k) (fst (reconcile p retained)) =
    (case obj_get (fp_sources p) k of None \<Rightarrow> [] | Some rec \<Rightarrow> shown (rows_of p k) rec (obj_get retained k))"
  unfolding reconcile_shown(1) [OF assms(1)]
  using assms(1) shown_owner [OF assms(2)]
  by (intro filter_one_source [where f = "\<lambda>k rec. shown (rows_of p k) rec (obj_get retained k)"])
    (auto simp: obj_wf_def)

text \<open>What a projection is to one source, for as long as it shows no rows of it.\<close>

definition shows_no_rows :: "string \<Rightarrow> fleet_projection \<Rightarrow> bool" where
  "shows_no_rows k p \<longleftrightarrow>
     (case obj_get (fp_sources p) k of None \<Rightarrow> True | Some rec \<Rightarrow> sr_present rec \<longrightarrow> rows_of p k = [])"

definition breaks_trust :: "string \<Rightarrow> fleet_projection \<Rightarrow> bool" where
  "breaks_trust k p \<longleftrightarrow>
     (case obj_get (fp_sources p) k of None \<Rightarrow> False | Some rec \<Rightarrow> \<not> sr_present rec \<and> trust_breaking (sr_reason rec))"

definition sealed :: "observe_row \<Rightarrow> bool" where
  "sealed r \<longleftrightarrow> ob_fields r = [(''amicode_provenance'', JStr (owner_machine_id (ob_owner r)))]
     \<and> tag_directory (ob_owner r) = None \<and> ob_availability r \<noteq> Row_present"

lemma sealed_rows [simp]: "sealed (tombstone r)" "sealed r \<Longrightarrow> sealed (r\<lparr>ob_availability := Row_unavailable\<rparr>)"
  by (simp_all add: sealed_def tombstone_def)

lemma sealed_kept:
  assumes "obj_wf (fp_sources p)" and "shows_no_rows k p" and "list_all sealed (or_else (obj_get retained k) [])"
  shows "list_all sealed (or_else (obj_get (snd (reconcile p retained)) k) [])"
  using assms(2,3)
  by (cases "obj_get retained k")
    (auto simp: reconcile_shown(2) [OF assms(1)] shows_no_rows_def kept_after_def list_all_iff split: option.splits)

lemma sealed_run:
  assumes "\<And>p. p \<in> set ps \<Longrightarrow> obj_wf (fp_sources p) \<and> shows_no_rows k p"
    and "list_all sealed (or_else (obj_get retained k) [])"
  shows "list_all sealed (or_else (obj_get (observe_run ps retained) k) [])"
  using assms
proof (induction ps rule: rev_induct)
  case (snoc p ps)
  then show ?case using sealed_kept [of p k "observe_run ps retained"] by (simp add: observe_run_append) (simp add: observe_run_def)
qed (simp add: observe_run_def)

lemma sealed_shown:
  assumes "shows_no_rows k p" and "obj_get (fp_sources p) k = Some rec" and "list_all sealed (or_else kept [])"
  shows "list_all sealed (shown (rows_of p k) rec kept)"
  using assms by (auto simp: shown_def shows_no_rows_def list_all_iff)

lemma breaking_kept:
  assumes "obj_wf (fp_sources p)" and "breaks_trust k p"
  shows "list_all sealed (or_else (obj_get (snd (reconcile p retained)) k) [])"
  using assms(2) by (cases "obj_get retained k")
    (auto simp: reconcile_shown(2) [OF assms(1)] breaks_trust_def kept_after_def list_all_iff split: option.splits)

lemma snapshot_run_wf:
  assumes "list_all (snapshot_of me) qs"
  shows "kept_wf me k (obj_get (observe_run (map (snapshot hash before auth_header) qs) []) k)"
proof (rule observe_run_wf)
  fix p assume "p \<in> set (map (snapshot hash before auth_header) qs)"
  with assms show "obj_wf (fp_sources p) \<and> owned_rows me p" by (auto simp: list_all_iff intro: snapshot_owned)
qed (simp add: kept_wf_def)

text \<open>C27: Once trust in a source is broken - no grant, a rejected credential, an identity conflict - no
  row of it shows anything but its id and owner, in that projection and in every later one until
  the source is present again with rows of its own: a later outage, a projection that does not name
  the source at all or one in which it answers with no sessions brings nothing back, whatever was
  retained before.\<close>

theorem revoked_metadata_stays_sealed:
  assumes "list_all (snapshot_of me) (qs @ [q] @ later @ [q'])"
    and "breaks_trust k (snapshot hash before auth_header q)"
    and "list_all (\<lambda>x. shows_no_rows k (snapshot hash before auth_header x)) (later @ [q'])"
  shows "list_all (\<lambda>r. owner_is k r \<longrightarrow> sealed r)
      (fst (reconcile (snapshot hash before auth_header q)
        (observe_run (map (snapshot hash before auth_header) qs) []))
       @ fst (reconcile (snapshot hash before auth_header q')
        (observe_run (map (snapshot hash before auth_header) (qs @ [q] @ later)) [])))"
proof -
  let ?snap = "snapshot hash before auth_header"
  let ?ret = "\<lambda>xs. observe_run (map ?snap xs) []"
  have wf: "kept_wf me k' (obj_get (?ret xs) k')" if "set xs \<subseteq> set (qs @ [q] @ later @ [q'])" for xs k'
    using assms(1) that by (intro snapshot_run_wf) (auto simp: list_all_iff)
  have one: "list_all (\<lambda>r. owner_is k r \<longrightarrow> sealed r) rows" if "list_all sealed (filter (owner_is k) rows)" for rows
    using that by (auto simp: list_all_iff)
  obtain rec where rec: "obj_get (fp_sources (?snap q)) k = Some rec" "\<not> sr_present rec" "trust_breaking (sr_reason rec)"
    using assms(2) by (auto simp: breaks_trust_def split: option.splits)
  have now: "list_all (\<lambda>r. owner_is k r \<longrightarrow> sealed r) (fst (reconcile (?snap q) (?ret qs)))"
    by (intro one, subst shown_under_source [where me = me])
      (auto simp: rec shown_def list_all_iff intro: wf)
  have "list_all sealed (or_else (obj_get (?ret (qs @ [q])) k) [])"
    using breaking_kept [OF snapshot_wf assms(2)] by (simp add: observe_run_append) (simp add: observe_run_def)
  then have kept: "list_all sealed (or_else (obj_get (?ret (qs @ [q] @ later)) k) [])"
  proof -
    have "list_all sealed (or_else (obj_get (observe_run (map ?snap later) (?ret (qs @ [q]))) k) [])"
      by (rule sealed_run [OF _ \<open>list_all sealed _\<close>]) (use assms(3) in \<open>auto simp: list_all_iff\<close>)
    moreover have "?ret (qs @ [q] @ later) = observe_run (map ?snap later) (?ret (qs @ [q]))"
      by (simp only: map_append observe_run_append)
    ultimately show ?thesis by simp
  qed
  have none: "shows_no_rows k (?snap q')" using assms(3) by simp
  have wf': "kept_wf me k' (obj_get (?ret (qs @ [q] @ later)) k')" for k' by (rule wf) auto
  have "list_all (\<lambda>r. owner_is k r \<longrightarrow> sealed r) (fst (reconcile (?snap q') (?ret (qs @ [q] @ later))))"
    using sealed_shown [OF none _ kept]
    by (intro one) (subst shown_under_source [OF snapshot_wf wf'], simp only: option.split list.pred_inject, blast)
  with now show ?thesis by (simp only: list_all_append)
qed

lemma quiet_kept:
  assumes "obj_wf (fp_sources p)" and "shows_no_rows k p" and "\<not> breaks_trust k p"
  shows "obj_get (snd (reconcile p retained)) k = obj_get retained k"
  using assms(2,3)
  by (auto simp: reconcile_shown(2) [OF assms(1)] shows_no_rows_def breaks_trust_def kept_after_def
      split: option.splits)

lemma quiet_run:
  assumes "\<And>p. p \<in> set ps \<Longrightarrow> obj_wf (fp_sources p) \<and> shows_no_rows k p \<and> \<not> breaks_trust k p"
  shows "obj_get (observe_run ps retained) k = obj_get retained k"
  using assms
proof (induction ps rule: rev_induct)
  case (snoc p ps)
  then show ?case
    using quiet_kept [of p k "observe_run ps retained"] by (simp add: observe_run_append) (simp add: observe_run_def)
qed (simp add: observe_run_def)

text \<open>Losing a source loses nothing and invents nothing. When a peer that last showed some sessions
  is away without its trust being broken - its transport down, no upstream, no credential - the
  retention shows exactly those sessions, in their order and with the fields they had, marked
  unavailable. The projections in between may have failed too, may not have named the peer, or may
  have found it present with an empty list: that last answer does not clear what is retained, so
  sessions the peer has since deleted come back with its next outage.\<close>

theorem lost_source_keeps_its_last_rows:
  assumes "list_all (snapshot_of me) (qs @ [q] @ quiet @ [q'])" and "k \<noteq> me"
    and "map_option sr_present (obj_get (fp_sources (snapshot hash before auth_header q)) k) = Some True"
    and "rows_of (snapshot hash before auth_header q) k \<noteq> []"
    and "list_all (\<lambda>x. shows_no_rows k (snapshot hash before auth_header x)
           \<and> \<not> breaks_trust k (snapshot hash before auth_header x)) quiet"
    and "map_option sr_present (obj_get (fp_sources (snapshot hash before auth_header q')) k) = Some False"
    and "\<not> breaks_trust k (snapshot hash before auth_header q')"
  shows "filter (owner_is k) (fst (reconcile (snapshot hash before auth_header q')
        (observe_run (map (snapshot hash before auth_header) (qs @ [q] @ quiet)) [])))
    = map (\<lambda>r. r\<lparr>ob_availability := Row_unavailable\<rparr>) (rows_of (snapshot hash before auth_header q) k)"
proof -
  let ?snap = "snapshot hash before auth_header"
  let ?ret = "\<lambda>xs. observe_run (map ?snap xs) []"
  have wf: "kept_wf me k' (obj_get (?ret (qs @ [q] @ quiet)) k')" for k'
    using assms(1) by (intro snapshot_run_wf) (auto simp: list_all_iff)
  have own: "owned_rows me (?snap q)" using assms(1) by (intro snapshot_owned) simp
  have remote: "\<not> tag_is_local (ob_owner (hd (rows_of (?snap q) k)))"
    using rows_of_owner(2) [OF hd_in_set [OF assms(4)] own] assms(2) by simp
  have "?ret (qs @ [q]) = snd (reconcile (?snap q) (?ret qs))"
    by (simp add: observe_run_append) (simp add: observe_run_def)
  then have first: "obj_get (?ret (qs @ [q])) k = Some (rows_of (?snap q) k)"
    using assms(3,4) remote
    by (auto simp: reconcile_shown(2) [OF snapshot_wf] kept_after_def split: option.splits)
  have "obj_get (?ret (qs @ [q] @ quiet)) k = obj_get (?ret (qs @ [q])) k"
  proof -
    have "obj_get (observe_run (map ?snap quiet) (?ret (qs @ [q]))) k = obj_get (?ret (qs @ [q])) k"
      by (rule quiet_run) (use assms(5) in \<open>auto simp: list_all_iff\<close>)
    then show ?thesis by (simp only: map_append observe_run_append)
  qed
  then have kept: "obj_get (?ret (qs @ [q] @ quiet)) k = Some (rows_of (?snap q) k)" using first by simp
  obtain rec where "obj_get (fp_sources (?snap q')) k = Some rec" "\<not> sr_present rec" "\<not> trust_breaking (sr_reason rec)"
    using assms(6,7) by (auto simp: breaks_trust_def split: option.splits)
  then show ?thesis
    unfolding shown_under_source [OF snapshot_wf wf] kept by (simp add: shown_def)
qed

text \<open>The retention never mixes sources: what it shows is, source by source in the projection's
  order, what a function of that source's own record, rows and last kept rows shows, and what it
  keeps under a source depends on nothing else.\<close>

theorem retention_refines_the_sources:
  "fst (reconcile (build_fleet_projection hash before auth_header opts runs) retained) =
     concat (map (\<lambda>(k, rec). shown (rows_of (build_fleet_projection hash before auth_header opts runs) k) rec
       (obj_get retained k)) (fp_sources (build_fleet_projection hash before auth_header opts runs)))
   \<and> obj_get (snd (reconcile (build_fleet_projection hash before auth_header opts runs) retained)) k =
     (case obj_get (fp_sources (build_fleet_projection hash before auth_header opts runs)) k of
        None \<Rightarrow> obj_get retained k
      | Some rec \<Rightarrow> kept_after (rows_of (build_fleet_projection hash before auth_header opts runs) k) rec
          (obj_get retained k))"
  using reconcile_shown [OF snapshot_wf [of hash before auth_header "(opts, runs)"], unfolded snapshot_def fst_conv snd_conv]
  by (intro conjI)

section \<open>Concrete inputs\<close>

definition demo_fetch :: "http_outcome \<Rightarrow> fetch_run" where
  "demo_fetch outcome = \<lparr> fr_list = outcome, fr_health = Http_failed [] False, fr_started = 0, fr_ended = 1 \<rparr>"

definition demo_snapshot :: "http_outcome \<Rightarrow> fleet_options \<times> fan_out_runs" where
  "demo_snapshot outcome =
     (\<lparr> fo_local_machine = ''a'', fo_local_url = Some ''l'', fo_password = None,
        fo_peers = [\<lparr> ps_machine = ''b'', ps_url = Some ''u'', ps_token = Some ''t'', ps_trusted = Some True \<rparr>],
        fo_blocked = [], fo_roster = Map.empty, fo_control = None, fo_controlled_by = None, fo_archived = False \<rparr>,
      \<lparr> run_local = demo_fetch (Http_answer 200 (Body (JArr []))), run_peer = (\<lambda>i. demo_fetch outcome) \<rparr>)"

definition demo_listed :: http_outcome where
  "demo_listed = Http_answer 200 (Body (JArr [JObj [(''id'', JStr ''s''), (''directory'', JStr ''d'')]]))"

abbreviation demo_view :: "http_outcome \<Rightarrow> fleet_projection" where
  "demo_view outcome \<equiv> snapshot (\<lambda>j. []) (\<lambda>a b. True) (\<lambda>s. s) (demo_snapshot outcome)"

lemma demo_snapshot_of [simp]: "snapshot_of ''a'' (demo_snapshot outcome)"
  by (simp add: snapshot_of_def demo_snapshot_def)

lemma demo_rows:
  "map ob_id (rows_of (demo_view demo_listed) ''b'') = [''s'']"
  "map_option sr_present (obj_get (fp_sources (demo_view demo_listed)) ''b'') = Some True"
  by code_simp+

definition demo_emptied :: http_outcome where
  "demo_emptied = Http_answer 200 (Body (JArr []))"

definition demo_down :: http_outcome where
  "demo_down = Http_failed [] False"

definition demo_refused :: http_outcome where
  "demo_refused = Http_answer 401 (Body JNull)"

lemma demo_quiet:
  "rows_of (demo_view demo_listed) ''b'' \<noteq> []"
  "shows_no_rows ''b'' (demo_view demo_emptied)" "\<not> breaks_trust ''b'' (demo_view demo_emptied)"
  "shows_no_rows ''b'' (demo_view demo_down)" "\<not> breaks_trust ''b'' (demo_view demo_down)"
  "map_option sr_present (obj_get (fp_sources (demo_view demo_down)) ''b'') = Some False"
  "breaks_trust ''b'' (demo_view demo_refused)"
  by code_simp+

theorem lost_source_keeps_its_last_rows_witness:
  "filter (owner_is ''b'') (fst (reconcile (demo_view demo_down)
      (observe_run (map (snapshot (\<lambda>j. []) (\<lambda>a b. True) (\<lambda>s. s))
         ([] @ [demo_snapshot demo_listed] @ [demo_snapshot demo_emptied])) [])))
    = map (\<lambda>r. r\<lparr>ob_availability := Row_unavailable\<rparr>) (rows_of (demo_view demo_listed) ''b'')
   \<and> rows_of (demo_view demo_listed) ''b'' \<noteq> []"
proof
  show "filter (owner_is ''b'') (fst (reconcile (demo_view demo_down)
      (observe_run (map (snapshot (\<lambda>j. []) (\<lambda>a b. True) (\<lambda>s. s))
         ([] @ [demo_snapshot demo_listed] @ [demo_snapshot demo_emptied])) [])))
    = map (\<lambda>r. r\<lparr>ob_availability := Row_unavailable\<rparr>) (rows_of (demo_view demo_listed) ''b'')"
    by (rule lost_source_keeps_its_last_rows [where me = "''a''"]) (simp_all add: demo_rows demo_quiet)
qed (rule demo_quiet)

theorem revoked_metadata_stays_sealed_witness:
  "list_all (\<lambda>r. owner_is ''b'' r \<longrightarrow> sealed r)
      (fst (reconcile (demo_view demo_refused)
        (observe_run (map (snapshot (\<lambda>j. []) (\<lambda>a b. True) (\<lambda>s. s)) [demo_snapshot demo_listed]) []))
       @ fst (reconcile (demo_view demo_down)
        (observe_run (map (snapshot (\<lambda>j. []) (\<lambda>a b. True) (\<lambda>s. s))
          ([demo_snapshot demo_listed] @ [demo_snapshot demo_refused] @ [demo_snapshot demo_emptied])) [])))
   \<and> map ob_availability (fst (reconcile (demo_view demo_refused)
        (observe_run (map (snapshot (\<lambda>j. []) (\<lambda>a b. True) (\<lambda>s. s)) [demo_snapshot demo_listed]) []))) = [Row_revoked]"
proof
  show "list_all (\<lambda>r. owner_is ''b'' r \<longrightarrow> sealed r)
      (fst (reconcile (demo_view demo_refused)
        (observe_run (map (snapshot (\<lambda>j. []) (\<lambda>a b. True) (\<lambda>s. s)) [demo_snapshot demo_listed]) []))
       @ fst (reconcile (demo_view demo_down)
        (observe_run (map (snapshot (\<lambda>j. []) (\<lambda>a b. True) (\<lambda>s. s))
          ([demo_snapshot demo_listed] @ [demo_snapshot demo_refused] @ [demo_snapshot demo_emptied])) [])))"
    by (rule revoked_metadata_stays_sealed [where me = "''a''"]) (simp_all add: demo_quiet)
  show "map ob_availability (fst (reconcile (demo_view demo_refused)
        (observe_run (map (snapshot (\<lambda>j. []) (\<lambda>a b. True) (\<lambda>s. s)) [demo_snapshot demo_listed]) []))) = [Row_revoked]"
    by code_simp
qed

lemma demo_away:
  "hd (fst (reconcile (demo_view demo_down)
      (observe_run (map (snapshot (\<lambda>j. []) (\<lambda>a b. True) (\<lambda>s. s)) [demo_snapshot demo_listed]) [])))
   \<in> set (fst (reconcile (demo_view demo_down)
      (observe_run (map (snapshot (\<lambda>j. []) (\<lambda>a b. True) (\<lambda>s. s)) [demo_snapshot demo_listed]) [])))"
  "owner_is ''b'' (hd (fst (reconcile (demo_view demo_down)
      (observe_run (map (snapshot (\<lambda>j. []) (\<lambda>a b. True) (\<lambda>s. s)) [demo_snapshot demo_listed]) []))))"
  by code_simp+

theorem missing_data_is_never_local_witness:
  "\<not> tag_is_local (ob_owner (hd (fst (reconcile (demo_view demo_down)
      (observe_run (map (snapshot (\<lambda>j. []) (\<lambda>a b. True) (\<lambda>s. s)) [demo_snapshot demo_listed]) [])))))"
  using missing_data_is_never_local [of "''a''" "[demo_snapshot demo_listed]" "demo_snapshot demo_down", OF _ demo_away(1)]
    demo_away(2) by (auto simp: demo_snapshot_of)

abbreviation demo_opts :: fleet_options where
  "demo_opts \<equiv> fst (demo_snapshot demo_listed)"

abbreviation demo_runs :: fan_out_runs where
  "demo_runs \<equiv> snd (demo_snapshot demo_listed)"

lemma demo_union:
  "distinct (map ps_machine (fo_peers demo_opts))"
  "map_option (\<lambda>r. owner_machine_id (row_owner r)) (row_with ''s''
     (fp_sessions (build_fleet_projection (\<lambda>j. []) (\<lambda>a b. True) (\<lambda>s. s) (demo_opts\<lparr>fo_archived := False\<rparr>) demo_runs) @
      fp_sessions (build_fleet_projection (\<lambda>j. []) (\<lambda>a b. True) (\<lambda>s. s) (demo_opts\<lparr>fo_archived := True\<rparr>) demo_runs)))
   = Some ''b''"
  by code_simp+

theorem listed_sessions_route_to_their_owner_witness:
  "fst (resolve_owner ''s'' 0 (refresh_owner_map
      (build_owner_routing_projection (\<lambda>j. []) (\<lambda>a b. True) (\<lambda>s. s) demo_opts demo_runs demo_runs) 0 0
      (new_owner_map None))) = Some ''b''"
proof -
  obtain r where r: "row_with ''s''
     (fp_sessions (build_fleet_projection (\<lambda>j. []) (\<lambda>a b. True) (\<lambda>s. s) (demo_opts\<lparr>fo_archived := False\<rparr>) demo_runs) @
      fp_sessions (build_fleet_projection (\<lambda>j. []) (\<lambda>a b. True) (\<lambda>s. s) (demo_opts\<lparr>fo_archived := True\<rparr>) demo_runs)) = Some r"
    "owner_machine_id (row_owner r) = ''b''"
    using demo_union(2) by (auto simp only: map_option_eq_Some)
  then show ?thesis
    using listed_sessions_route_to_their_owner [OF demo_union(1) r(1), of 0 0 0 "new_owner_map None"] by simp
qed

text \<open>The stamp of the controlling machine is set on local rows only, but a field of that name in an
  entry a peer sends is spread into the row like any other.\<close>

theorem peer_supplied_stamp_rides_through:
  "obj_get (row_doc (tag_session machine False entry None controlled e)) ''amicode_controlled_by'' =
     obj_get e ''amicode_controlled_by''
   \<and> obj_get (row_doc (tag_session machine False entry None controlled e)) ''amicode_control'' =
     obj_get e ''amicode_control''"
  by (simp add: row_doc_def tag_session_def set_opt_def with_provenance_def)

text \<open>A tombstone is not final: the next transport failure shows the revoked row as unavailable.\<close>

theorem revoked_row_turns_unavailable:
  "map ob_availability (fst (reconcile (demo_view demo_down)
      (observe_run (map (snapshot (\<lambda>j. []) (\<lambda>a b. True) (\<lambda>s. s))
        [demo_snapshot demo_listed, demo_snapshot demo_refused]) []))) = [Row_unavailable]"
  by code_simp

end
