(* ===== verification/Session_Status.thy ===== *)
theory Session_Status
  imports Fleet_Projection
begin

text \<open>
  The fleet-wide session status (\<open>packages/extension/src/amicode_service/fleet_session_status.ts\<close>):
  the ids of a request resolved to one query per owner and directory under two caps, the source
  each owner is reached at, the validation of an answer, the concurrent fan-out under a deadline,
  and the route that reads it (\<open>index.ts\<close>). The owner map is a pair of lookups; what each query
  meets, the order in which the queries settle and \<open>encodeURIComponent\<close> are arguments; the
  requests made are returned in order.
\<close>

section \<open>Resolution\<close>

definition FLEET_STATUS_MAX_IDS :: nat where "FLEET_STATUS_MAX_IDS = 64"
definition FLEET_STATUS_MAX_QUERIES :: nat where "FLEET_STATUS_MAX_QUERIES = 16"

datatype fleet_session_status =
    Status_idle
  | Status_busy
  | Status_retry int string int "keyed_doc option"

datatype unresolved_reason = Id_unknown | No_directory | Over_cap

definition take_segment :: "string list \<Rightarrow> string \<Rightarrow> string list" where
  "take_segment out segment =
     (let sid = js_trim segment in if sid = [] \<or> sid \<in> set out then out else out @ [sid])"

definition parse_status_ids :: "string option \<Rightarrow> string list" where
  "parse_status_ids raw = (case raw of None \<Rightarrow> [] | Some s \<Rightarrow> foldl take_segment [] (split_on (CHR '','') s))"

record status_owner_lookup =
  lookup_owner :: "string \<Rightarrow> string option"
  lookup_directory :: "string \<Rightarrow> string option"

record status_query =
  sq_owner :: string
  sq_directory :: string
  sq_sessions :: "string list"

record status_plan =
  pl_queries :: "status_query list"
  pl_unresolved :: "(string \<times> unresolved_reason) list"

definition refuse :: "status_plan \<Rightarrow> string \<Rightarrow> unresolved_reason \<Rightarrow> status_plan" where
  "refuse plan sid reason = plan\<lparr>pl_unresolved := pl_unresolved plan @ [(sid, reason)]\<rparr>"

definition query_key :: "status_query \<Rightarrow> string \<times> string" where
  "query_key q = (sq_owner q, sq_directory q)"

text \<open>A session rides the query of its owner and directory (\<open>byKey\<close> holds exactly the queries).\<close>

definition ride :: "string \<times> string \<Rightarrow> string \<Rightarrow> status_query list \<Rightarrow> status_query list" where
  "ride k sid queries =
     map (\<lambda>q. if query_key q = k then q\<lparr>sq_sessions := sq_sessions q @ [sid]\<rparr> else q) queries"

definition plan_step ::
  "status_owner_lookup \<Rightarrow> nat \<Rightarrow> nat \<Rightarrow> status_plan \<Rightarrow> nat \<times> string \<Rightarrow> status_plan" where
  "plan_step owner_map max_ids max_queries plan entry =
     (let (index, sid) = entry
      in if max_ids \<le> index then refuse plan sid Over_cap
         else (case truthy (lookup_owner owner_map sid) of
                 None \<Rightarrow> refuse plan sid Id_unknown
               | Some p \<Rightarrow>
                   (case truthy (lookup_directory owner_map sid) of
                      None \<Rightarrow> refuse plan sid No_directory
                    | Some d \<Rightarrow>
                        if (p, d) \<in> query_key ` set (pl_queries plan)
                        then plan\<lparr>pl_queries := ride (p, d) sid (pl_queries plan)\<rparr>
                        else if max_queries \<le> length (pl_queries plan) then refuse plan sid Over_cap
                        else plan\<lparr>pl_queries := pl_queries plan @
                               [\<lparr> sq_owner = p, sq_directory = d, sq_sessions = [sid] \<rparr>]\<rparr>)))"

definition plan_fleet_session_status ::
  "string list \<Rightarrow> status_owner_lookup \<Rightarrow> nat option \<Rightarrow> nat option \<Rightarrow> status_plan" where
  "plan_fleet_session_status ids owner_map max_ids max_queries =
     foldl (plan_step owner_map (or_else max_ids FLEET_STATUS_MAX_IDS)
              (or_else max_queries FLEET_STATUS_MAX_QUERIES))
       \<lparr> pl_queries = [], pl_unresolved = [] \<rparr> (enumerate 0 ids)"

section \<open>Source reach\<close>

record status_sources =
  so_local_machine :: string
  so_local_url :: "string option"
  so_password :: "string option"
  so_peers :: "peer_source list"
  so_blocked :: "blocked_peer list"

record reached_source =
  rs_origin :: string
  rs_auth :: "string option"

type_synonym source_failure = "absence_reason \<times> string option"

definition resolve_status_source ::
  "(string \<Rightarrow> string) \<Rightarrow> string \<Rightarrow> status_sources \<Rightarrow> source_failure + reached_source" where
  "resolve_status_source auth_header machine opts =
     (if machine = so_local_machine opts then
        (case truthy (so_local_url opts) of
           None \<Rightarrow> Inl (No_upstream, None)
         | Some origin \<Rightarrow> Inr \<lparr> rs_origin = origin, rs_auth = map_option auth_header (so_password opts) \<rparr>)
      else
        (case find (\<lambda>b. bl_machine b = machine) (so_blocked opts) of
           Some b \<Rightarrow> Inl (or_else (bl_reason b) Identity_conflict, bl_detail b)
         | None \<Rightarrow>
             (case find (\<lambda>p. ps_machine p = machine) (so_peers opts) of
                None \<Rightarrow> Inl (No_upstream, None)
              | Some p \<Rightarrow>
                  if ps_trusted p = Some False then Inl (Untrusted, None)
                  else
                    (case truthy (ps_url p) of
                       None \<Rightarrow> Inl (No_upstream, None)
                     | Some origin \<Rightarrow>
                         (case truthy (ps_token p) of
                            None \<Rightarrow> Inl (Credential_missing, None)
                          | Some token \<Rightarrow>
                              Inr \<lparr> rs_origin = origin, rs_auth = Some (auth_header token) \<rparr>)))))"

text \<open>A getter that throws, with its message, is no upstream.\<close>

definition safe_resolve_source ::
  "(string \<Rightarrow> string option) \<Rightarrow> (string \<Rightarrow> string) \<Rightarrow> string \<Rightarrow> status_sources
     \<Rightarrow> source_failure + reached_source" where
  "safe_resolve_source thrown auth_header machine opts =
     (case thrown machine of
        Some msg \<Rightarrow> Inl (No_upstream, Some msg)
      | None \<Rightarrow> resolve_status_source auth_header machine opts)"

section \<open>Reading an answer\<close>

definition non_negative_int :: "json option \<Rightarrow> int option" where
  "non_negative_int v = (case v of Some (JNum n) \<Rightarrow> if 0 \<le> n then Some n else None | _ \<Rightarrow> None)"

definition retry_status :: "keyed_doc \<Rightarrow> fleet_session_status option" where
  "retry_status e =
     (case (non_negative_int (map_of e ''attempt''), text_of e ''message'', non_negative_int (map_of e ''next'')) of
        (Some attempt, Some message, Some later) \<Rightarrow>
          (case map_of e ''action'' of
             None \<Rightarrow> Some (Status_retry attempt message later None)
           | Some (JObj a) \<Rightarrow> Some (Status_retry attempt message later (Some a))
           | Some _ \<Rightarrow> None)
      | _ \<Rightarrow> None)"

fun validate_session_status :: "json \<Rightarrow> fleet_session_status option" where
  "validate_session_status (JObj e) =
     (let kind = map_of e ''type''
      in if kind = Some (JStr ''idle'') then Some Status_idle
         else if kind = Some (JStr ''busy'') then Some Status_busy
         else if kind = Some (JStr ''retry'') then retry_status e
         else None)"
| "validate_session_status _ = None"

datatype query_failure = Status_unauthorized | Status_fetch_failed | Status_timeout | Status_malformed

type_synonym status_answer = "(query_failure \<times> string option) + (string \<times> fleet_session_status) list"

fun status_entries :: "(string \<times> fleet_session_status) list \<Rightarrow> keyed_doc \<Rightarrow> status_answer" where
  "status_entries acc [] = Inr acc"
| "status_entries acc ((sid, e) # d) =
     (case validate_session_status e of
        None \<Rightarrow> Inl (Status_malformed, Some (''unrecognized status entry for '' @ sid))
      | Some s \<Rightarrow> status_entries (obj_set acc sid s) d)"

text \<open>What one query meets; the flag of a failure says that its signal had aborted it.\<close>

fun read_status_answer :: "http_outcome \<Rightarrow> status_answer" where
  "read_status_answer (Http_failed msg aborted) =
     (if aborted then Inl (Status_timeout, Some ''query timeout'') else Inl (Status_fetch_failed, Some msg))"
| "read_status_answer (Http_answer status body) =
     (if status = 401 \<or> status = 403
      then Inl (Status_unauthorized, Some (''HTTP '' @ string_of_int status))
      else if status \<noteq> 200 then Inl (Status_fetch_failed, Some (''HTTP '' @ string_of_int status))
      else (case body of
              Body_failed msg aborted \<Rightarrow>
                if aborted then Inl (Status_timeout, Some ''query timeout'')
                else Inl (Status_fetch_failed, Some (''HTTP 200 with a non-JSON body ('' @ msg @ '')''))
            | Body (JObj d) \<Rightarrow> status_entries [] d
            | Body _ \<Rightarrow> Inl (Status_malformed, Some ''status answer is not an object'')))"

section \<open>The fan-out\<close>

datatype status_reason = Owner_reason absence_reason | Query_reason query_failure

record directory_record =
  dr_ok :: bool
  dr_reason :: "status_reason option"
  dr_detail :: "string option"
  dr_sessions :: nat

record status_source_record =
  ss_present :: bool
  ss_reason :: "absence_reason option"
  ss_detail :: "string option"
  ss_directories :: "(string \<times> directory_record) list"

record status_response =
  rp_statuses :: "(string \<times> fleet_session_status) list"
  rp_sources :: "(string \<times> status_source_record) list"
  rp_unresolved :: "(string \<times> unresolved_reason) list"

fun source_entry :: "source_failure + reached_source \<Rightarrow> status_source_record" where
  "source_entry (Inr s) = \<lparr> ss_present = True, ss_reason = None, ss_detail = None, ss_directories = [] \<rparr>"
| "source_entry (Inl (reason, detail)) =
     \<lparr> ss_present = False, ss_reason = Some reason, ss_detail = detail, ss_directories = [] \<rparr>"

definition resolve_owners ::
  "(string \<Rightarrow> source_failure + reached_source) \<Rightarrow> status_query list \<Rightarrow> (string \<times> status_source_record) list" where
  "resolve_owners reach queries =
     foldl (\<lambda>s q. if obj_has s (sq_owner q) then s else obj_set s (sq_owner q) (source_entry (reach (sq_owner q))))
       [] queries"

definition record_directory :: "status_query \<Rightarrow> directory_record \<Rightarrow> status_response \<Rightarrow> status_response" where
  "record_directory q d r =
     (case obj_get (rp_sources r) (sq_owner q) of
        None \<Rightarrow> r
      | Some s \<Rightarrow> r\<lparr>rp_sources := obj_set (rp_sources r) (sq_owner q)
                     (s\<lparr>ss_directories := obj_set (ss_directories s) (sq_directory q) d\<rparr>)\<rparr>)"

text \<open>A query that is not attempted carries the owner's own reason.\<close>

definition not_attempted :: "absence_reason \<Rightarrow> status_query \<Rightarrow> status_response \<Rightarrow> status_response" where
  "not_attempted reason q r =
     record_directory q \<lparr> dr_ok = False, dr_reason = Some (Owner_reason reason), dr_detail = None,
                          dr_sessions = length (sq_sessions q) \<rparr> r"

definition record_answer :: "status_query \<Rightarrow> status_answer \<Rightarrow> status_response \<Rightarrow> status_response" where
  "record_answer q answer r =
     (case answer of
        Inl (reason, detail) \<Rightarrow>
          record_directory q \<lparr> dr_ok = False, dr_reason = Some (Query_reason reason), dr_detail = detail,
                               dr_sessions = length (sq_sessions q) \<rparr> r
      | Inr entries \<Rightarrow>
          (let r' = record_directory q \<lparr> dr_ok = True, dr_reason = None, dr_detail = None,
                                         dr_sessions = length (sq_sessions q) \<rparr> r
           in r'\<lparr>rp_statuses :=
                foldl (\<lambda>m sid. obj_set m sid (or_else (obj_get entries sid) Status_idle))
                  (rp_statuses r') (sq_sessions q)\<rparr>))"

text \<open>A query settles with its answer, or the overall deadline comes first.\<close>

datatype query_run = Query_settled http_outcome | Deadline_first

fun answer_of_run :: "query_run \<Rightarrow> status_answer" where
  "answer_of_run (Query_settled outcome) = read_status_answer outcome"
| "answer_of_run Deadline_first = Inl (Status_timeout, Some ''overall deadline'')"

definition reachable :: "(string \<Rightarrow> source_failure + reached_source) \<Rightarrow> status_query \<Rightarrow> bool" where
  "reachable reach q \<longleftrightarrow> (case reach (sq_owner q) of Inl f \<Rightarrow> False | Inr s \<Rightarrow> True)"

definition settle_unreachable ::
  "(string \<Rightarrow> source_failure + reached_source) \<Rightarrow> status_response \<Rightarrow> status_query \<Rightarrow> status_response" where
  "settle_unreachable reach r q =
     (case reach (sq_owner q) of Inl (reason, detail) \<Rightarrow> not_attempted reason q r | Inr s \<Rightarrow> r)"

definition status_request ::
  "(string \<Rightarrow> string) \<Rightarrow> (string \<Rightarrow> source_failure + reached_source) \<Rightarrow> status_query \<Rightarrow> http_request option" where
  "status_request encode reach q =
     (case reach (sq_owner q) of
        Inl f \<Rightarrow> None
      | Inr s \<Rightarrow> Some (strip_slashes (rs_origin s) @ ''/session/status?directory='' @ encode (sq_directory q),
                       truthy (rs_auth s)))"

text \<open>The queries of unreachable owners are recorded as the loop meets them, before any answer; the
  others in the order \<open>settled\<close> in which they settle.\<close>

definition fan_out_fleet_session_status ::
  "(string \<Rightarrow> string) \<Rightarrow> (string \<Rightarrow> source_failure + reached_source) \<Rightarrow> (status_query \<Rightarrow> query_run)
     \<Rightarrow> status_query list \<Rightarrow> status_plan \<Rightarrow> status_response \<times> http_request list" where
  "fan_out_fleet_session_status encode reach runs settled plan =
     (let start = \<lparr> rp_statuses = [], rp_sources = resolve_owners reach (pl_queries plan),
                    rp_unresolved = pl_unresolved plan \<rparr>;
          refused = foldl (settle_unreachable reach) start (pl_queries plan)
      in (foldl (\<lambda>r q. record_answer q (answer_of_run (runs q)) r) refused settled,
          List.map_filter (status_request encode reach) (pl_queries plan)))"

definition empty_status_response :: status_response where
  "empty_status_response = \<lparr> rp_statuses = [], rp_sources = [], rp_unresolved = [] \<rparr>"

definition read_fleet_session_status ::
  "(string \<Rightarrow> string) \<Rightarrow> (string \<Rightarrow> source_failure + reached_source) \<Rightarrow> (status_query \<Rightarrow> query_run)
     \<Rightarrow> status_query list \<Rightarrow> string option \<Rightarrow> status_owner_lookup \<Rightarrow> status_response \<times> http_request list" where
  "read_fleet_session_status encode reach runs settled raw owner_map =
     (let ids = parse_status_ids raw
      in if ids = [] then (empty_status_response, [])
         else fan_out_fleet_session_status encode reach runs settled
                (plan_fleet_session_status ids owner_map None None))"

section \<open>The route\<close>

text \<open>The live owner map as the lookups: a lookup that prunes an expired binding of one session
  changes no other lookup. The clock is read once.\<close>

definition owner_map_lookup :: "int \<Rightarrow> owner_map \<Rightarrow> status_owner_lookup" where
  "owner_map_lookup now m =
     \<lparr> lookup_owner = (\<lambda>sid. fst (resolve_owner sid now m)), lookup_directory = (\<lambda>sid. resolve_directory sid m) \<rparr>"

definition route_sources :: "peer_provider \<Rightarrow> string option \<Rightarrow> string option \<Rightarrow> status_sources" where
  "route_sources pv engine_url password =
     \<lparr> so_local_machine = pv_local_machine_id pv, so_local_url = engine_url, so_password = password,
       so_peers = projection_peers pv,
       so_blocked = map (\<lambda>m. \<lparr> bl_machine = m, bl_reason = Some Identity_conflict, bl_detail = None \<rparr>)
                      (get_blocked_peers pv) \<rparr>"

text \<open>\<open>None\<close> is the 404 of a machine without a peer provider or owner map.\<close>

definition fleet_session_status_route ::
  "(string \<Rightarrow> string) \<Rightarrow> (string \<Rightarrow> string) \<Rightarrow> (peer_provider \<times> owner_map) option \<Rightarrow> string option
     \<Rightarrow> string option \<Rightarrow> (status_query \<Rightarrow> query_run) \<Rightarrow> status_query list \<Rightarrow> int \<Rightarrow> string option
     \<Rightarrow> (status_response \<times> http_request list) option" where
  "fleet_session_status_route encode auth_header deps engine_url password runs settled now raw =
     map_option (\<lambda>(pv, m).
       read_fleet_session_status encode
         (\<lambda>machine. safe_resolve_source Map.empty auth_header machine (route_sources pv engine_url password))
         runs settled raw (owner_map_lookup now m)) deps"

end
