(* ===== verification/Status_Properties.thy ===== *)
theory Status_Properties
  imports Session_Status Projection_Properties "HOL-Library.Multiset"
begin

text \<open>
  The properties of the session status: the plan accounts for every requested id under its caps,
  a status is told only by the session's own directory, whatever the order of the answers, every
  query is reported, and every request is made to a source that is reached with its own
  credential.
\<close>

section \<open>The plan\<close>

text \<open>Where the owner map sends a session.\<close>

definition status_target :: "status_owner_lookup \<Rightarrow> string \<Rightarrow> unresolved_reason + string \<times> string" where
  "status_target owner_map sid =
     (case truthy (lookup_owner owner_map sid) of
        None \<Rightarrow> Inl Id_unknown
      | Some p \<Rightarrow> (case truthy (lookup_directory owner_map sid) of None \<Rightarrow> Inl No_directory | Some d \<Rightarrow> Inr (p, d)))"

lemma plan_step_cases:
  "plan_step owner_map mi mq plan (i, sid) =
     (if mi \<le> i then refuse plan sid Over_cap
      else (case status_target owner_map sid of
              Inl reason \<Rightarrow> refuse plan sid reason
            | Inr k \<Rightarrow>
                if k \<in> query_key ` set (pl_queries plan) then plan\<lparr>pl_queries := ride k sid (pl_queries plan)\<rparr>
                else if mq \<le> length (pl_queries plan) then refuse plan sid Over_cap
                else plan\<lparr>pl_queries := pl_queries plan @
                       [\<lparr> sq_owner = fst k, sq_directory = snd k, sq_sessions = [sid] \<rparr>]\<rparr>))"
  by (auto simp: plan_step_def status_target_def Let_def split: option.splits)

definition riders :: "status_plan \<Rightarrow> string list" where
  "riders plan = concat (map sq_sessions (pl_queries plan))"

definition query_fits :: "status_owner_lookup \<Rightarrow> status_query \<Rightarrow> bool" where
  "query_fits owner_map q \<longleftrightarrow> sq_sessions q \<noteq> [] \<and>
     list_all (\<lambda>sid. status_target owner_map sid = Inr (query_key q)) (sq_sessions q)"

definition plan_ok :: "status_owner_lookup \<Rightarrow> nat \<Rightarrow> nat \<Rightarrow> string list \<Rightarrow> status_plan \<Rightarrow> bool" where
  "plan_ok owner_map mi mq ids plan \<longleftrightarrow>
     mset (map fst (pl_unresolved plan)) + mset (riders plan) = mset ids
     \<and> distinct (map query_key (pl_queries plan)) \<and> length (pl_queries plan) \<le> mq
     \<and> length (riders plan) \<le> mi
     \<and> list_all (query_fits owner_map) (pl_queries plan)
     \<and> list_all (\<lambda>(sid, reason). reason = Over_cap \<or> status_target owner_map sid = Inl reason) (pl_unresolved plan)
     \<and> (Over_cap \<notin> snd ` set (pl_unresolved plan) \<or> mi < length ids \<or> length (pl_queries plan) = mq)"

lemma ride_facts [simp]:
  "map query_key (ride k sid qs) = map query_key qs" "length (ride k sid qs) = length qs"
  by (simp_all add: ride_def query_key_def)

lemma ride_absent: "k \<notin> query_key ` set qs \<Longrightarrow> ride k sid qs = qs"
  unfolding ride_def by (rule map_idI) auto

lemma ride_riders:
  assumes "distinct (map query_key qs)" and "k \<in> query_key ` set qs"
  shows "mset (concat (map sq_sessions (ride k sid qs))) = add_mset sid (mset (concat (map sq_sessions qs)))"
  using assms
proof (induction qs)
  case (Cons q qs)
  show ?case
  proof (cases "query_key q = k")
    case True
    with Cons.prems have "ride k sid qs = qs" by (intro ride_absent) auto
    with True show ?thesis by (simp add: ride_def)
  next
    case False
    with Cons show ?thesis by (simp add: ride_def)
  qed
qed simp

lemma ride_fits:
  assumes "list_all (query_fits owner_map) qs" and "status_target owner_map sid = Inr k"
  shows "list_all (query_fits owner_map) (ride k sid qs)"
  using assms by (auto simp: ride_def query_fits_def list_all_iff query_key_def)

lemma refuse_ok:
  assumes "plan_ok owner_map mi mq ids plan"
    and "reason = Over_cap \<and> (mi \<le> length ids \<or> length (pl_queries plan) = mq) \<or>
      reason \<noteq> Over_cap \<and> status_target owner_map sid = Inl reason"
  shows "plan_ok owner_map mi mq (ids @ [sid]) (refuse plan sid reason)"
  using assms by (auto simp: plan_ok_def refuse_def riders_def)

lemma plan_step_ok:
  assumes ok: "plan_ok owner_map mi mq ids plan"
  shows "plan_ok owner_map mi mq (ids @ [sid]) (plan_step owner_map mi mq plan (length ids, sid))"
proof (cases "mi \<le> length ids")
  case True
  with refuse_ok [OF ok] show ?thesis by (simp add: plan_step_cases)
next
  case cap: False
  have size: "length (riders plan) \<le> length ids"
  proof -
    have "mset (map fst (pl_unresolved plan)) + mset (riders plan) = mset ids" using ok by (simp add: plan_ok_def)
    then have "size (mset (map fst (pl_unresolved plan)) + mset (riders plan)) = size (mset ids)" by (rule arg_cong)
    then show ?thesis by simp
  qed
  show ?thesis
  proof (cases "status_target owner_map sid")
    case (Inl reason)
    then have "reason \<noteq> Over_cap" by (auto simp: status_target_def split: option.splits)
    with Inl cap refuse_ok [OF ok] show ?thesis by (simp add: plan_step_cases)
  next
    case (Inr k)
    show ?thesis
    proof (cases "k \<in> query_key ` set (pl_queries plan)")
      case True
      have d: "distinct (map query_key (pl_queries plan))" using ok by (simp add: plan_ok_def)
      have m: "mset (concat (map sq_sessions (ride k sid (pl_queries plan)))) =
          add_mset sid (mset (concat (map sq_sessions (pl_queries plan))))"
        by (rule ride_riders [OF d True])
      have l: "length (concat (map sq_sessions (ride k sid (pl_queries plan)))) \<le> mi"
        using arg_cong [OF m, of size] size cap by (simp add: riders_def)
      have f: "list_all (query_fits owner_map) (ride k sid (pl_queries plan))"
        using ok Inr by (intro ride_fits) (simp_all add: plan_ok_def)
      have step: "plan_step owner_map mi mq plan (length ids, sid) =
          plan\<lparr>pl_queries := ride k sid (pl_queries plan)\<rparr>"
        using True Inr cap by (simp add: plan_step_cases)
      show ?thesis
        unfolding step plan_ok_def riders_def
        using ok m l f by (auto simp: plan_ok_def riders_def)
    next
      case fresh: False
      show ?thesis
      proof (cases "mq \<le> length (pl_queries plan)")
        case True
        with ok have "length (pl_queries plan) = mq" by (simp add: plan_ok_def)
        with True fresh Inr cap refuse_ok [OF ok] show ?thesis by (simp add: plan_step_cases)
      next
        case False
        with fresh Inr cap size ok show ?thesis
          by (auto simp: plan_step_cases plan_ok_def riders_def query_fits_def query_key_def)
      qed
    qed
  qed
qed

lemma plan_is_ok:
  "plan_ok owner_map (or_else mi FLEET_STATUS_MAX_IDS) (or_else mq FLEET_STATUS_MAX_QUERIES) ids
     (plan_fleet_session_status ids owner_map mi mq)"
proof (induction ids rule: rev_induct)
  case Nil
  show ?case by (simp add: plan_fleet_session_status_def plan_ok_def riders_def)
next
  case (snoc sid ids)
  then show ?case
    using plan_step_ok [OF snoc, of sid]
    by (simp add: plan_fleet_session_status_def enumerate_append_eq)
qed


lemma plan_queries:
  assumes "q \<in> set (pl_queries (plan_fleet_session_status ids owner_map mi mq))"
  shows "query_fits owner_map q"
  using plan_is_ok [of owner_map mi mq ids] assms by (simp add: plan_ok_def list_all_iff)

lemma plan_one_query:
  assumes "q \<in> set (pl_queries (plan_fleet_session_status ids owner_map mi mq))"
    and "q' \<in> set (pl_queries (plan_fleet_session_status ids owner_map mi mq))"
    and "query_key q = query_key q'"
  shows "q = q'"
proof -
  have "distinct (map query_key (pl_queries (plan_fleet_session_status ids owner_map mi mq)))"
    using plan_is_ok [of owner_map mi mq ids] by (simp add: plan_ok_def)
  with assms show ?thesis by (auto simp: distinct_map dest: inj_onD)
qed

lemma plan_one_rider:
  assumes "q \<in> set (pl_queries (plan_fleet_session_status ids owner_map mi mq))" and "sid \<in> set (sq_sessions q)"
    and "q' \<in> set (pl_queries (plan_fleet_session_status ids owner_map mi mq))" and "sid \<in> set (sq_sessions q')"
  shows "q = q'"
  using plan_queries [OF assms(1)] plan_queries [OF assms(3)] assms(2,4)
  by (intro plan_one_query [OF assms(1,3)]) (auto simp: query_fits_def list_all_iff)

section \<open>The statuses\<close>

lemma record_directory_frame [simp]:
  "rp_statuses (record_directory q d r) = rp_statuses r"
  "rp_unresolved (record_directory q d r) = rp_unresolved r"
  by (simp_all add: record_directory_def split: option.splits)

lemma settle_unreachable_frame [simp]:
  "rp_statuses (settle_unreachable reach r q) = rp_statuses r"
  by (simp add: settle_unreachable_def not_attempted_def split: sum.splits prod.splits)

lemma settle_all_frame [simp]: "rp_statuses (foldl (settle_unreachable reach) r qs) = rp_statuses r"
  by (induction qs arbitrary: r) simp_all

lemma set_statuses:
  "obj_get (foldl (\<lambda>m sid. obj_set m sid (f sid)) m sids) sid =
     (if sid \<in> set sids then Some (f sid) else obj_get m sid)"
  by (induction sids arbitrary: m) auto

lemma record_answer_status:
  "obj_get (rp_statuses (record_answer q a r)) sid =
     (case a of
        Inl f \<Rightarrow> obj_get (rp_statuses r) sid
      | Inr entries \<Rightarrow> if sid \<in> set (sq_sessions q) then Some (or_else (obj_get entries sid) Status_idle)
                       else obj_get (rp_statuses r) sid)"
  by (auto simp: record_answer_def set_statuses Let_def split: sum.splits)

lemma settled_status:
  assumes "\<And>q q'. q \<in> set settled \<Longrightarrow> q' \<in> set settled \<Longrightarrow>
      sid \<in> set (sq_sessions q) \<Longrightarrow> sid \<in> set (sq_sessions q') \<Longrightarrow> q = q'"
    and "obj_get (rp_statuses r) sid = None"
  shows "obj_get (rp_statuses (foldl (\<lambda>r q. record_answer q (a q) r) r settled)) sid = Some s \<longleftrightarrow>
    (\<exists>q \<in> set settled. sid \<in> set (sq_sessions q) \<and>
       (\<exists>entries. a q = Inr entries \<and> s = or_else (obj_get entries sid) Status_idle))"
  using assms(1)
proof (induction settled rule: rev_induct)
  case Nil
  show ?case using assms(2) by simp
next
  case (snoc q settled)
  have IH: "obj_get (rp_statuses (foldl (\<lambda>r q. record_answer q (a q) r) r settled)) sid = Some s \<longleftrightarrow>
    (\<exists>q \<in> set settled. sid \<in> set (sq_sessions q) \<and>
       (\<exists>entries. a q = Inr entries \<and> s = or_else (obj_get entries sid) Status_idle))"
    by (rule snoc.IH) (use snoc.prems in auto)
  show ?case
  proof (cases "sid \<in> set (sq_sessions q)")
    case False
    with IH show ?thesis by (auto simp: record_answer_status split: sum.splits)
  next
    case True
    then have same: "q' = q" if "q' \<in> set settled" "sid \<in> set (sq_sessions q')" for q'
      using snoc.prems [of q' q] that by simp
    show ?thesis
    proof (cases "a q")
      case (Inl f)
      with IH same show ?thesis by (auto simp: record_answer_status)
    next
      case (Inr entries)
      with True same show ?thesis by (auto simp: record_answer_status)
    qed
  qed
qed

text \<open>An order in which the queries that were sent can settle.\<close>

definition settles :: "(string \<Rightarrow> source_failure + reached_source) \<Rightarrow> status_query list \<Rightarrow> status_plan \<Rightarrow> bool" where
  "settles reach settled plan \<longleftrightarrow> mset settled = mset (filter (reachable reach) (pl_queries plan))"

lemma settles_set:
  "settles reach settled plan \<Longrightarrow> q \<in> set settled \<longleftrightarrow> q \<in> set (pl_queries plan) \<and> reachable reach q"
  unfolding settles_def by (drule mset_eq_setD) simp

abbreviation status_read_plan :: "string option \<Rightarrow> status_owner_lookup \<Rightarrow> status_plan" where
  "status_read_plan raw owner_map \<equiv> plan_fleet_session_status (parse_status_ids raw) owner_map None None"

lemma read_is_fan_out:
  "fst (read_fleet_session_status encode reach runs settled raw owner_map) =
     (if parse_status_ids raw = [] then empty_status_response
      else fst (fan_out_fleet_session_status encode reach runs settled (status_read_plan raw owner_map)))"
  by (simp add: read_fleet_session_status_def Let_def)

lemma empty_plan: "ids = [] \<Longrightarrow> plan_fleet_session_status ids owner_map mi mq = \<lparr> pl_queries = [], pl_unresolved = [] \<rparr>"
  by (simp add: plan_fleet_session_status_def)


section \<open>Answers\<close>

lemma status_entries_valid:
  "status_entries acc d = Inr entries \<longleftrightarrow>
     list_all (\<lambda>e. validate_session_status (snd e) \<noteq> None) d \<and>
     entries = foldl (\<lambda>m e. obj_set m (fst e) (the (validate_session_status (snd e)))) acc d"
  by (induction acc d rule: status_entries.induct) (auto split: option.splits)

lemma collected_entries:
  "obj_get (foldl (\<lambda>m e. obj_set m (fst e) (f (snd e))) m d) sid =
     (case map_of (rev d) sid of Some v \<Rightarrow> Some (f v) | None \<Rightarrow> obj_get m sid)"
  by (induction d rule: rev_induct) auto

text \<open>Nothing short of a complete answer covers a directory: an answer counts exactly when it came
  with status 200 and a JSON object every entry of which is one of the recognised statuses, so one
  unrecognised entry, another status code, a body that is not an object or cannot be read, and an
  abort each make every session of the directory keep its value; and what a complete answer says of
  a session is what validating its entry gives.\<close>

theorem only_a_complete_answer_covers:
  "((\<exists>entries. read_status_answer outcome = Inr entries) \<longleftrightarrow>
     (\<exists>d. outcome = Http_answer 200 (Body (JObj d)) \<and>
        list_all (\<lambda>e. validate_session_status (snd e) \<noteq> None) d))
   \<and> (read_status_answer (Http_answer 200 (Body (JObj d))) = Inr entries \<longrightarrow>
     obj_get entries sid = Option.bind (map_of (rev d) sid) validate_session_status)"
proof (intro conjI)
  show "(\<exists>entries. read_status_answer outcome = Inr entries) \<longleftrightarrow>
     (\<exists>d. outcome = Http_answer 200 (Body (JObj d)) \<and>
        list_all (\<lambda>e. validate_session_status (snd e) \<noteq> None) d)"
    by (cases outcome rule: read_status_answer.cases)
      (auto simp: status_entries_valid split: http_body.splits json.splits)
  show "read_status_answer (Http_answer 200 (Body (JObj d))) = Inr entries \<longrightarrow>
     obj_get entries sid = Option.bind (map_of (rev d) sid) validate_session_status"
  proof
    assume "read_status_answer (Http_answer 200 (Body (JObj d))) = Inr entries"
    then have valid: "list_all (\<lambda>e. validate_session_status (snd e) \<noteq> None) d"
      and entries: "entries = foldl (\<lambda>m e. obj_set m (fst e) (the (validate_session_status (snd e)))) [] d"
      by (simp_all add: status_entries_valid)
    have "validate_session_status v \<noteq> None" if "map_of (rev d) sid = Some v" for v
      using valid map_of_SomeD [OF that] by (force simp: list_all_iff)
    then show "obj_get entries sid = Option.bind (map_of (rev d) sid) validate_session_status"
      unfolding entries collected_entries [where f = "\<lambda>v. the (validate_session_status v)"]
      by (auto split: option.splits)
  qed
qed

section \<open>Reports and requests\<close>

text \<open>The record of a query in the response.\<close>

definition reported :: "status_response \<Rightarrow> string \<times> string \<Rightarrow> directory_record option" where
  "reported r k = Option.bind (obj_get (rp_sources r) (fst k)) (\<lambda>s. obj_get (ss_directories s) (snd k))"

lemma has_get: "obj_has m k \<longleftrightarrow> obj_get m k \<noteq> None"
  by (simp add: obj_get_None_iff)

lemma sources_get:
  "obj_get (resolve_owners reach qs) k =
     (if k \<in> sq_owner ` set qs then Some (source_entry (reach k)) else None)"
proof (induction qs arbitrary: k rule: rev_induct)
  case Nil
  show ?case by (simp add: resolve_owners_def)
next
  case (snoc q qs)
  have step: "resolve_owners reach (qs @ [q]) =
     (if obj_has (resolve_owners reach qs) (sq_owner q) then resolve_owners reach qs
      else obj_set (resolve_owners reach qs) (sq_owner q) (source_entry (reach (sq_owner q))))"
    by (simp add: resolve_owners_def)
  show ?case by (auto simp: step has_get snoc)
qed

lemma record_directory_reported:
  "reported (record_directory q d r) k =
     (if k = query_key q \<and> obj_get (rp_sources r) (sq_owner q) \<noteq> None then Some d else reported r k)"
  by (cases k) (auto simp: record_directory_def reported_def query_key_def split: option.splits)

lemma record_directory_known:
  "obj_get (rp_sources (record_directory q d r)) p = None \<longleftrightarrow> obj_get (rp_sources r) p = None"
  by (auto simp: record_directory_def split: option.splits)

definition unreached :: "absence_reason \<Rightarrow> status_query \<Rightarrow> directory_record" where
  "unreached reason q = \<lparr> dr_ok = False, dr_reason = Some (Owner_reason reason), dr_detail = None,
     dr_sessions = length (sq_sessions q) \<rparr>"

definition answered_record :: "status_answer \<Rightarrow> status_query \<Rightarrow> directory_record" where
  "answered_record answer q =
     (case answer of
        Inl (reason, detail) \<Rightarrow> \<lparr> dr_ok = False, dr_reason = Some (Query_reason reason), dr_detail = detail,
                                 dr_sessions = length (sq_sessions q) \<rparr>
      | Inr entries \<Rightarrow> \<lparr> dr_ok = True, dr_reason = None, dr_detail = None, dr_sessions = length (sq_sessions q) \<rparr>)"

definition query_record ::
  "(string \<Rightarrow> source_failure + reached_source) \<Rightarrow> (status_query \<Rightarrow> query_run) \<Rightarrow> status_query \<Rightarrow> directory_record" where
  "query_record reach runs q =
     (case reach (sq_owner q) of
        Inl (reason, detail) \<Rightarrow> unreached reason q
      | Inr s \<Rightarrow> answered_record (answer_of_run (runs q)) q)"

lemma record_answer_sources:
  "rp_sources (record_answer q a r) = rp_sources (record_directory q (answered_record a q) r)"
  by (auto simp: record_answer_def answered_record_def Let_def split: sum.splits)

lemma record_answer_reported:
  "reported (record_answer q a r) k =
     (if k = query_key q \<and> obj_get (rp_sources r) (sq_owner q) \<noteq> None then Some (answered_record a q) else reported r k)"
  "obj_get (rp_sources (record_answer q a r)) p = None \<longleftrightarrow> obj_get (rp_sources r) p = None"
  using record_directory_reported [of q "answered_record a q" r k] record_directory_known [of q "answered_record a q" r p]
  by (simp_all add: reported_def record_answer_sources)

lemma settle_unreachable_reported:
  "reported (settle_unreachable reach r q) k =
     (case reach (sq_owner q) of
        Inl (reason, detail) \<Rightarrow>
          if k = query_key q \<and> obj_get (rp_sources r) (sq_owner q) \<noteq> None then Some (unreached reason q) else reported r k
      | Inr s \<Rightarrow> reported r k)"
  "obj_get (rp_sources (settle_unreachable reach r q)) p = None \<longleftrightarrow> obj_get (rp_sources r) p = None"
  by (auto simp: settle_unreachable_def not_attempted_def unreached_def record_directory_reported record_directory_known
      split: sum.splits prod.splits)

text \<open>A fold of records leaves, under each key, the record of the query that bears it.\<close>

lemma fold_reported:
  assumes step: "\<And>r q k. reported (f r q) k =
      (if P q \<and> k = query_key q \<and> obj_get (rp_sources r) (sq_owner q) \<noteq> None then Some (d q) else reported r k)"
    and known: "\<And>r q p. obj_get (rp_sources (f r q)) p = None \<longleftrightarrow> obj_get (rp_sources r) p = None"
    and sources: "\<And>q. q \<in> set qs \<Longrightarrow> obj_get (rp_sources r) (sq_owner q) \<noteq> None"
    and one: "\<And>q'. q' \<in> set qs \<Longrightarrow> query_key q' = query_key q \<Longrightarrow> q' = q"
  shows "reported (foldl f r qs) (query_key q) = (if q \<in> set qs \<and> P q then Some (d q) else reported r (query_key q))
    \<and> (\<forall>p. obj_get (rp_sources (foldl f r qs)) p = None \<longleftrightarrow> obj_get (rp_sources r) p = None)"
  using sources one
proof (induction qs rule: rev_induct)
  case (snoc q' qs)
  have IH: "reported (foldl f r qs) (query_key q) = (if q \<in> set qs \<and> P q then Some (d q) else reported r (query_key q))"
    "\<And>p. obj_get (rp_sources (foldl f r qs)) p = None \<longleftrightarrow> obj_get (rp_sources r) p = None"
    using snoc by auto
  have "query_key q = query_key q' \<longleftrightarrow> q' = q" using snoc.prems(2) [of q'] by auto
  with IH snoc.prems(1) [of q'] show ?case by (auto simp: step known)
qed simp

text \<open>Every planned query is reported, under its owner and directory, whatever the order of the
  answers: with the owner's own reason where the owner was not reached, with the named failure of
  the query where it failed or the deadline came first, and as covered exactly where its answer
  was complete, with the number of sessions it stood for. The owners named are those of the plan.\<close>

theorem every_query_is_reported:
  assumes "settles reach settled plan" and "q \<in> set (pl_queries plan)" and "distinct (map query_key (pl_queries plan))"
  shows "reported (fst (fan_out_fleet_session_status encode reach runs settled plan)) (query_key q) =
      Some (query_record reach runs q)
    \<and> (obj_has (rp_sources (fst (fan_out_fleet_session_status encode reach runs settled plan))) p \<longleftrightarrow>
        p \<in> sq_owner ` set (pl_queries plan))"
proof -
  let ?start = "\<lparr> rp_statuses = [], rp_sources = resolve_owners reach (pl_queries plan),
                 rp_unresolved = pl_unresolved plan \<rparr>"
  let ?refused = "foldl (settle_unreachable reach) ?start (pl_queries plan)"
  let ?final = "foldl (\<lambda>r q. record_answer q (answer_of_run (runs q)) r) ?refused settled"
  have one: "q' = q''" if "q' \<in> set (pl_queries plan)" "q'' \<in> set (pl_queries plan)" "query_key q' = query_key q''" for q' q''
    using assms(3) that by (auto simp: distinct_map dest: inj_onD)
  have in_plan: "q' \<in> set settled \<longleftrightarrow> q' \<in> set (pl_queries plan) \<and> reachable reach q'" for q'
    by (rule settles_set [OF assms(1)])
  let ?down = "\<lambda>q'. case reach (sq_owner q') of Inl (reason, detail) \<Rightarrow> unreached reason q' | Inr s \<Rightarrow> undefined"
  have refused: "reported ?refused (query_key q) =
      (if q \<in> set (pl_queries plan) \<and> \<not> reachable reach q then Some (?down q) else reported ?start (query_key q))
    \<and> (\<forall>p. obj_get (rp_sources ?refused) p = None \<longleftrightarrow> obj_get (rp_sources ?start) p = None)"
    by (rule fold_reported)
      (auto simp: settle_unreachable_reported reachable_def sources_get assms(2) intro: one split: sum.splits)
  have final: "reported ?final (query_key q) =
      (if q \<in> set settled \<and> True then Some (answered_record (answer_of_run (runs q)) q) else reported ?refused (query_key q))
    \<and> (\<forall>p. obj_get (rp_sources ?final) p = None \<longleftrightarrow> obj_get (rp_sources ?refused) p = None)"
    by (rule fold_reported)
      (auto simp: record_answer_reported refused sources_get in_plan assms(2) intro: one)
  have "fst (fan_out_fleet_session_status encode reach runs settled plan) = ?final"
    by (simp add: fan_out_fleet_session_status_def Let_def)
  with final refused assms(2) in_plan [of q] show ?thesis
    by (auto simp: has_get sources_get query_record_def reachable_def split: sum.splits)
qed

lemma reached_peer:
  assumes "resolve_status_source auth_header machine (route_sources pv engine_url password) = Inr s"
    and "machine \<noteq> pv_local_machine_id pv"
  shows "machine \<in> set (get_serving_peers pv) \<and> machine \<notin> set (get_blocked_peers pv)
    \<and> (\<exists>c. token_held pv machine = Some c \<and> pt_base_url c \<noteq> [] \<and> rs_origin s = pt_base_url c
        \<and> rs_auth s = Some (auth_header (pt_token c)))"
proof -
  from assms obtain p where p: "find (\<lambda>p. ps_machine p = machine) (projection_peers pv) = Some p"
    and trusted: "ps_trusted p \<noteq> Some False"
    and s: "truthy (ps_url p) = Some (rs_origin s)" "\<exists>t. truthy (ps_token p) = Some t \<and> rs_auth s = Some (auth_header t)"
    and free: "find (\<lambda>b. bl_machine b = machine) (so_blocked (route_sources pv engine_url password)) = None"
    by (auto simp: resolve_status_source_def route_sources_def split: option.splits if_splits)
  from find_SomeD [OF p] projection_peer_trusted [OF _ trusted, of pv] s free show ?thesis
    by (auto simp: route_sources_def find_None_iff)
qed

lemma length_map_filter: "length (List.map_filter f xs) \<le> length xs"
  by (induction xs) (auto simp: map_filter_simps split: option.splits)

text \<open>A status read asks at most sixteen questions, and only where it may: each goes to this
  machine's own engine, bare or with the engine's password, or to a serving peer that is not
  blocked and whose token is held, at its base URL and under that token; an owner that is
  untrusted, blocked or no peer at all is never contacted.\<close>

theorem status_requests_need_a_held_token:
  "list_all (\<lambda>q. asks engine_url (map_option auth_header password) q
       \<or> list_ex (\<lambda>p. p \<notin> set (get_blocked_peers pv) \<and> (\<exists>c. token_held pv p = Some c
             \<and> asks (Some (pt_base_url c)) (Some (auth_header (pt_token c))) q)) (get_serving_peers pv))
     (snd (the (fleet_session_status_route encode auth_header (Some (pv, m)) engine_url password runs settled now raw)))
   \<and> length (snd (the (fleet_session_status_route encode auth_header (Some (pv, m)) engine_url password runs settled now raw)))
       \<le> FLEET_STATUS_MAX_QUERIES"
proof -
  let ?reach = "\<lambda>machine. safe_resolve_source Map.empty auth_header machine (route_sources pv engine_url password)"
  let ?plan = "status_read_plan raw (owner_map_lookup now m)"
  let ?reqs = "List.map_filter (status_request encode ?reach) (pl_queries ?plan)"
  have reqs: "snd (the (fleet_session_status_route encode auth_header (Some (pv, m)) engine_url password runs settled now raw)) = ?reqs"
    by (simp add: fleet_session_status_route_def read_fleet_session_status_def fan_out_fleet_session_status_def
        empty_plan map_filter_simps Let_def)
  have "length (pl_queries ?plan) \<le> FLEET_STATUS_MAX_QUERIES"
    using plan_is_ok [of "owner_map_lookup now m" None None "parse_status_ids raw"] by (simp add: plan_ok_def)
  then have len: "length ?reqs \<le> FLEET_STATUS_MAX_QUERIES"
    using length_map_filter le_trans by blast
  have "asks engine_url (map_option auth_header password) r
       \<or> list_ex (\<lambda>p. p \<notin> set (get_blocked_peers pv) \<and> (\<exists>c. token_held pv p = Some c
             \<and> asks (Some (pt_base_url c)) (Some (auth_header (pt_token c))) r)) (get_serving_peers pv)"
    if "r \<in> set ?reqs" for r
  proof -
    from that obtain q where "status_request encode ?reach q = Some r" by (auto simp: set_map_filter)
    then obtain s where s: "resolve_status_source auth_header (sq_owner q) (route_sources pv engine_url password) = Inr s"
      and r: "r = (strip_slashes (rs_origin s) @ ''/session/status?directory='' @ encode (sq_directory q), truthy (rs_auth s))"
      by (auto simp: status_request_def safe_resolve_source_def split: sum.splits)
    show ?thesis
    proof (cases "sq_owner q = pv_local_machine_id pv")
      case True
      with s r show ?thesis
        by (auto simp: resolve_status_source_def route_sources_def asks_def split: option.splits)
    next
      case False
      from reached_peer [OF s False] r show ?thesis by (auto simp: asks_def list_ex_iff)
    qed
  qed
  with len show ?thesis unfolding reqs list_all_iff by blast
qed

section \<open>Concrete inputs\<close>

definition demo_lookup :: status_owner_lookup where
  "demo_lookup = \<lparr> lookup_owner = (\<lambda>sid. Some ''b''), lookup_directory = (\<lambda>sid. if sid = ''z'' then None else Some ''d'') \<rparr>"

definition demo_reach :: "string \<Rightarrow> source_failure + reached_source" where
  "demo_reach p = Inr \<lparr> rs_origin = ''u'', rs_auth = Some ''t'' \<rparr>"

definition demo_query :: status_query where
  "demo_query = \<lparr> sq_owner = ''b'', sq_directory = ''d'', sq_sessions = [''x'', ''y''] \<rparr>"

definition demo_entries :: keyed_doc where
  "demo_entries = [(''x'', JObj [(''type'', JStr ''busy'')])]"

definition demo_run :: query_run where
  "demo_run = Query_settled (Http_answer 200 (Body (JObj demo_entries)))"

lemma demo_status_plan:
  "status_read_plan (Some ''x, y,z,x'') demo_lookup = \<lparr> pl_queries = [demo_query], pl_unresolved = [(''z'', No_directory)] \<rparr>"
  "reachable demo_reach demo_query"
  "status_entries [] demo_entries = Inr [(''x'', Status_busy)]"
  "read_status_answer (Http_answer 200 (Body (JObj demo_entries))) = Inr [(''x'', Status_busy)]"
  "status_target demo_lookup ''y'' = Inr (query_key demo_query)"
  by code_simp+

lemma demo_settles: "settles demo_reach [demo_query] (status_read_plan (Some ''x, y,z,x'') demo_lookup)"
  by (simp add: settles_def demo_status_plan)

lemma demo_capped_plan:
  "plan_fleet_session_status [''x'', ''y'', ''w'', ''z''] demo_lookup (Some 2) None =
     \<lparr> pl_queries = [\<lparr> sq_owner = ''b'', sq_directory = ''d'', sq_sessions = [''x'', ''y''] \<rparr>],
       pl_unresolved = [(''w'', Over_cap), (''z'', Over_cap)] \<rparr>"
  by code_simp



theorem only_a_complete_answer_covers_witness:
  "obj_get [(''x'', Status_busy)] ''x'' = Option.bind (map_of (rev demo_entries) ''x'') validate_session_status"
  using only_a_complete_answer_covers [THEN conjunct2, of demo_entries "[(''x'', Status_busy)]" "''x''"] demo_status_plan(4)
  by blast

theorem every_query_is_reported_witness:
  "reported (fst (fan_out_fleet_session_status (\<lambda>s. s) demo_reach (\<lambda>q. demo_run) [demo_query]
     (status_read_plan (Some ''x, y,z,x'') demo_lookup))) (query_key demo_query)
   = Some (query_record demo_reach (\<lambda>q. demo_run) demo_query)"
  using every_query_is_reported [OF demo_settles, of demo_query] by (simp add: demo_status_plan)

end
