(* ===== verification/Hub_Writes.thy ===== *)
theory Hub_Writes
  imports Fleet_Projection Fleet_Posture Attach_State
begin

text \<open>
  Writes of a fleet session to the hub (\<open>packages/extension/src/amicode_service/fleet_writes.ts\<close>)
  and the credential they carry (\<open>hub_credential.ts\<close>): the store entry and its reading, the bounded
  retry of a write under one request identity, the three outcomes, the refetch that resolves an
  ambiguous one, and the HTTP face. What each attempt meets, URL parsing, the authorization
  header of a token, the fresh request id and the clock are arguments. Lengths count bytes: for
  ASCII text they are the code's.
\<close>

section \<open>The hub credential\<close>

datatype hub_read_reason = Hub_absent | Hub_malformed | Hub_incomplete

record hub_credential =
  hc_base_url :: string
  hc_token :: string

text \<open>The file: absent, not JSON (with the parser's message), or a JSON value.\<close>

datatype hub_file = No_hub_file | Unreadable_hub_file string | Hub_file json

definition fleet_hub_file :: "string option \<Rightarrow> string \<Rightarrow> string" where
  "fleet_hub_file env home =
     (case env of
        Some v \<Rightarrow> if js_trim v \<noteq> [] then v else home @ ''/.amico/fleet-hub.json''
      | None \<Rightarrow> home @ ''/.amico/fleet-hub.json'')"

definition HUB_STORE_VERSION :: int where "HUB_STORE_VERSION = 1"

type_synonym hub_read = "(hub_read_reason \<times> string option) + (int option \<times> hub_credential)"

fun read_hub_raw :: "hub_file \<Rightarrow> (hub_read_reason \<times> string option) + keyed_doc" where
  "read_hub_raw No_hub_file = Inl (Hub_absent, None)"
| "read_hub_raw (Unreadable_hub_file msg) = Inl (Hub_malformed, Some msg)"
| "read_hub_raw (Hub_file (JObj d)) = Inr d"
| "read_hub_raw (Hub_file _) = Inl (Hub_malformed, Some ''credential file is not a JSON object'')"

definition read_hub_credential :: "hub_file \<Rightarrow> hub_read" where
  "read_hub_credential file =
     (case read_hub_raw file of
        Inl (reason, detail) \<Rightarrow> Inl (reason, truthy detail)
      | Inr d \<Rightarrow>
          (let base_url = js_trim (or_else (text_of d ''base_url'') []);
               token = js_trim (or_else (text_of d ''token'') [])
           in if base_url = [] \<or> token = []
              then Inl (Hub_incomplete, Some ''store entry lacks base_url/token'')
              else Inr (num_of d ''store_version'', \<lparr> hc_base_url = base_url, hc_token = token \<rparr>)))"

definition owned_hub_keys :: "string list" where
  "owned_hub_keys = [''store_version'', ''mint'', ''base_url'', ''token'']"

definition preserved_keys :: "hub_file \<Rightarrow> keyed_doc" where
  "preserved_keys file =
     (case read_hub_raw file of Inl failure \<Rightarrow> [] | Inr d \<Rightarrow> filter (\<lambda>e. fst e \<notin> set owned_hub_keys) d)"

definition write_hub_credential :: "hub_credential \<Rightarrow> hub_file \<Rightarrow> hub_file" where
  "write_hub_credential v file =
     Hub_file (JObj (preserved_keys file @
       [(''store_version'', JNum HUB_STORE_VERSION), (''mint'', JStr ''hub''),
        (''base_url'', JStr (js_trim (hc_base_url v))), (''token'', JStr (js_trim (hc_token v)))]))"

definition clear_hub_credential :: "hub_file \<Rightarrow> hub_file" where
  "clear_hub_credential file = No_hub_file"

text \<open>The three mints, as \<open>/amicode/fleet/status\<close> lists them.\<close>

record mint_record =
  mi_mint :: string
  mi_scope :: string
  mi_fleet_only :: bool
  mi_present :: bool
  mi_stamped :: string

definition mint_registry :: "bool \<Rightarrow> hub_read \<Rightarrow> mint_record list" where
  "mint_registry engine_armed hub =
     (let per_boot = ''per-boot mint '' @ em_dash @ '' in-memory only, never persisted''
      in [\<lparr> mi_mint = ''service'', mi_scope = ''the service's own routes (per-boot Basic + ?auth_token= carrier)'',
            mi_fleet_only = False, mi_present = True, mi_stamped = per_boot \<rparr>,
          \<lparr> mi_mint = ''engine'', mi_scope = ''the framed bootstrap + proxied local-engine calls'',
            mi_fleet_only = False, mi_present = engine_armed, mi_stamped = per_boot \<rparr>,
          \<lparr> mi_mint = ''hub'',
            mi_scope = ''the hub's API over the fleet tunnel '' @ em_dash
              @ '' upstream hop only, never accepted client-side'',
            mi_fleet_only = True,
            mi_present = (case hub of Inl f \<Rightarrow> False | Inr h \<Rightarrow> True),
            mi_stamped = ''credential-store entry: store_version='' @
              string_of_int (case hub of Inr (Some v, c) \<Rightarrow> v | _ \<Rightarrow> HUB_STORE_VERSION) \<rparr>])"

section \<open>The write and its outcomes\<close>

definition MAX_BODY_BYTES :: nat where "MAX_BODY_BYTES = 1048576"
definition MAX_REFETCH_BODY :: nat where "MAX_REFETCH_BODY = 65536"

definition local_store_role :: string where
  "local_store_role = ''unwritten '' @ em_dash @ '' fleet sessions are never shadowed into the local store; ''
     @ ''the hub is the store of record (D3)''"

text \<open>What every outcome but a delivery echoes.\<close>

record write_echo =
  we_payload :: string
  we_truncated :: bool
  we_request_id :: string
  we_attempts :: nat
  we_role :: string

record write_failure = write_echo +
  wf_http_status :: int
  wf_error :: string
  wf_hub_status :: "int option"
  wf_detail :: "string option"
  wf_revocation :: bool

record refetch_evidence =
  rf_path :: string
  rf_ok :: bool
  rf_http_status :: "int option"
  rf_body :: "string option"

record write_ambiguity = write_echo +
  wa_detail :: "string option"
  wa_refetch :: refetch_evidence

datatype fleet_write_result =
    Write_delivered int string "string option" string nat
  | Write_failed write_failure
  | Write_ambiguous write_ambiguity

record fleet_write_request =
  fw_method :: string
  fw_url :: string
  fw_headers :: "(string \<times> header_value) list"
  fw_body :: string

definition dropped_headers :: "string list" where
  "dropped_headers = [''host'', ''connection'', ''authorization'', ''x-amicode-request-id'', ''content-length'']"

fun header_text :: "header_value \<Rightarrow> string" where
  "header_text (Header s) = s"
| "header_text (Header_list vs) = join_with '', '' vs"

definition write_header_value :: "(string \<times> header_value) list \<Rightarrow> string \<Rightarrow> string option" where
  "write_header_value headers name =
     map_option (\<lambda>e. header_text (snd e)) (find (\<lambda>e. to_lower (fst e) = name) headers)"

definition path_segments :: "string \<Rightarrow> string list" where
  "path_segments path = filter (\<lambda>s. s \<noteq> []) (split_on slash (hd (split_on (CHR ''?'') path)))"

definition derive_amicode_refetch_path :: "string \<Rightarrow> string" where
  "derive_amicode_refetch_path wpath =
     (case path_segments wpath of a # family # rest \<Rightarrow> ''/amicode/'' @ family | _ \<Rightarrow> ''/amicode'')"

definition derive_refetch_path :: "string \<Rightarrow> string" where
  "derive_refetch_path wpath =
     (case path_segments wpath of
        [] \<Rightarrow> ''/session''
      | s # rest \<Rightarrow>
          if s = ''session'' then (case rest of sid # segs \<Rightarrow> ''/session/'' @ sid | [] \<Rightarrow> ''/session'')
          else if s = ''amicode'' then derive_amicode_refetch_path wpath
          else ''/'' @ s)"

definition truncate_body :: "string \<Rightarrow> string \<times> bool" where
  "truncate_body body =
     (if length body \<le> MAX_REFETCH_BODY then (body, False) else (take MAX_REFETCH_BODY body, True))"

definition forwarded_headers :: "(string \<times> header_value) list \<Rightarrow> string \<Rightarrow> string \<Rightarrow> (string \<times> string) list" where
  "forwarded_headers headers auth request_id =
     (let kept = foldl (\<lambda>h e. if to_lower (fst e) \<in> set dropped_headers then h
                              else obj_set h (to_lower (fst e)) (header_text (snd e))) [] headers
      in obj_set (obj_set kept ''authorization'' auth) ''x-amicode-request-id'' request_id)"

section \<open>Executing a write\<close>

text \<open>One attempt: the fetch throws, or an answer is seen; a body that cannot be read is empty.\<close>

record write_answer =
  an_status :: int
  an_text :: "string option"
  an_content_type :: "string option"
  an_latency :: int

datatype write_attempt = No_answer string | Answer_seen write_answer

record write_deps =
  wd_url :: "string option"
  wd_credential :: hub_read
  wd_max_retries :: "nat option"

text \<open>\<open>new URL(url, base)\<close> without its \<open>auth_token\<close> - the message of what it throws, or the target
  and its path name - and \<open>new URL(path, base)\<close> for the refetch.\<close>

record url_library =
  parse_target :: "string \<Rightarrow> string \<Rightarrow> string + (string \<times> string)"
  parse_refetch :: "string \<Rightarrow> string \<Rightarrow> string option"

record write_call =
  wc_target :: string
  wc_method :: string
  wc_headers :: "(string \<times> string) list"
  wc_body :: "string option"

record write_effects =
  fx_calls :: "write_call list"
  fx_refetches :: "(string \<times> string) list"
  fx_outcomes :: "outcome list"
  fx_signals :: "structural_signal list"

definition no_effects :: write_effects where
  "no_effects = \<lparr> fx_calls = [], fx_refetches = [], fx_outcomes = [], fx_signals = [] \<rparr>"

text \<open>The loop, on the attempts made, the last detail and the outcomes reported; it ends with the first
  answer seen or with the budget.\<close>

fun attempt_loop ::
  "(nat \<Rightarrow> write_attempt) \<Rightarrow> nat \<Rightarrow> nat \<times> string option \<times> outcome list
     \<Rightarrow> (nat \<times> string option \<times> outcome list) \<times> write_answer option" where
  "attempt_loop run 0 st = (st, None)"
| "attempt_loop run (Suc budget) (attempts, detail, outs) =
     (case run attempts of
        No_answer msg \<Rightarrow> attempt_loop run budget (Suc attempts, Some msg, outs @ [NoResponse (Some msg)])
      | Answer_seen a \<Rightarrow> ((Suc attempts, detail, outs @ [Responded (an_latency a)]), Some a))"

definition echo_of :: "string \<Rightarrow> string \<Rightarrow> nat \<Rightarrow> write_echo" where
  "echo_of body request_id attempts =
     \<lparr> we_payload = fst (truncate_body body), we_truncated = snd (truncate_body body),
       we_request_id = request_id, we_attempts = attempts, we_role = local_store_role \<rparr>"

definition failure ::
  "write_echo \<Rightarrow> int \<Rightarrow> string \<Rightarrow> int option \<Rightarrow> string option \<Rightarrow> bool \<Rightarrow> fleet_write_result" where
  "failure echo http_status err hub_status detail revoked =
     Write_failed (write_echo.extend echo
       \<lparr> wf_http_status = http_status, wf_error = err, wf_hub_status = hub_status, wf_detail = detail,
         wf_revocation = revoked \<rparr>)"

fun hub_reason_name :: "hub_read_reason \<Rightarrow> string" where
  "hub_reason_name Hub_absent = ''absent''"
| "hub_reason_name Hub_malformed = ''malformed''"
| "hub_reason_name Hub_incomplete = ''incomplete''"

definition revoked_signal :: "string \<Rightarrow> structural_signal" where
  "revoked_signal now =
     \<lparr> sig_class = AuthRevoked,
       sig_detail = Some (''fleet write answered HTTP 401 '' @ em_dash
         @ '' entitlement revoked mid-flight (D5 read-only-with-pointer)''),
       sig_at = now \<rparr>"

definition answered_result ::
  "string \<Rightarrow> string \<Rightarrow> string \<Rightarrow> nat \<Rightarrow> write_answer \<Rightarrow> fleet_write_result \<times> structural_signal list" where
  "answered_result now body request_id attempts a =
     (let echo = echo_of body request_id attempts
      in if http_ok (an_status a)
         then (Write_delivered (an_status a) (or_else (an_text a) []) (an_content_type a) request_id attempts, [])
         else if an_status a = 401
         then (failure echo 401 ''fleet-write-failed'' (Some 401) None True, [revoked_signal now])
         else (failure echo (an_status a) ''fleet-write-failed'' (Some (an_status a))
                 (Some (''hub answered HTTP '' @ string_of_int (an_status a))) False, []))"

definition refetch_result :: "string \<Rightarrow> string option \<Rightarrow> write_attempt \<Rightarrow> refetch_evidence" where
  "refetch_result path target run =
     (case (target, run) of
        (Some t, Answer_seen a) \<Rightarrow>
          \<lparr> rf_path = path, rf_ok = http_ok (an_status a), rf_http_status = Some (an_status a),
            rf_body = Some (take MAX_REFETCH_BODY (or_else (an_text a) [])) \<rparr>
      | _ \<Rightarrow> \<lparr> rf_path = path, rf_ok = False, rf_http_status = None, rf_body = None \<rparr>)"

text \<open>\<open>Inl\<close> is the message of what it throws. \<open>refetch\<close> is what the refetch meets.\<close>

definition execute_fleet_write ::
  "url_library \<Rightarrow> (string \<Rightarrow> string) \<Rightarrow> string \<Rightarrow> string \<Rightarrow> (nat \<Rightarrow> write_attempt) \<Rightarrow> write_attempt
     \<Rightarrow> write_deps \<Rightarrow> fleet_write_request \<Rightarrow> string + (fleet_write_result \<times> write_effects)" where
  "execute_fleet_write urls auth_header fresh_id now run refetch deps w =
     (let request_id = or_else (write_header_value (fw_headers w) ''x-amicode-request-id'') fresh_id
      in case truthy (wd_url deps) of
           None \<Rightarrow> Inr (failure (echo_of (fw_body w) request_id 0) 503 ''hub upstream not available'' None None False,
                        no_effects)
         | Some base \<Rightarrow>
             (case wd_credential deps of
                Inl (reason, d) \<Rightarrow>
                  Inr (failure (echo_of (fw_body w) request_id 0) 503 ''hub-credential-missing'' None
                         (Some (hub_reason_name reason)) False, no_effects)
              | Inr (version, credential) \<Rightarrow>
                  (case parse_target urls (fw_url w) base of
                     Inl msg \<Rightarrow> Inl msg
                   | Inr (target, path) \<Rightarrow>
                       let auth = auth_header (hc_token credential);
                           call = \<lparr> wc_target = target, wc_method = fw_method w,
                                    wc_headers = forwarded_headers (fw_headers w) auth request_id,
                                    wc_body = (if fw_body w = [] then None else Some (fw_body w)) \<rparr>;
                           ((attempts, detail, outs), seen) =
                             attempt_loop run (Suc (or_else (wd_max_retries deps) 2)) (0, None, []);
                           effects = no_effects\<lparr> fx_calls := replicate attempts call, fx_outcomes := outs \<rparr>
                       in case seen of
                            Some a \<Rightarrow>
                              (let (result, signals) = answered_result now (fw_body w) request_id attempts a
                               in Inr (result, effects\<lparr>fx_signals := signals\<rparr>))
                          | None \<Rightarrow>
                              (let refetch_path = derive_refetch_path path;
                                   refetch_target = parse_refetch urls refetch_path base
                               in Inr (Write_ambiguous (write_echo.extend (echo_of (fw_body w) request_id attempts)
                                         \<lparr> wa_detail = detail,
                                           wa_refetch = refetch_result refetch_path refetch_target refetch \<rparr>),
                                       effects\<lparr>fx_refetches := (case refetch_target of None \<Rightarrow> []
                                                                | Some t \<Rightarrow> [(t, auth)])\<rparr>)))))"

section \<open>The HTTP face\<close>

text \<open>The body is read in chunks; the read fails as soon as the cap is passed.\<close>

fun read_chunks :: "nat \<Rightarrow> string \<Rightarrow> string list \<Rightarrow> string + string" where
  "read_chunks got acc [] = Inr acc"
| "read_chunks got acc (chunk # chunks) =
     (if MAX_BODY_BYTES < got + length chunk then Inl ''Error: body too large''
      else read_chunks (got + length chunk) (acc @ chunk) chunks)"

definition read_request_body :: "string list \<Rightarrow> string + string" where
  "read_request_body chunks = read_chunks 0 [] chunks"

datatype reply_body = Reply_text string | Reply_json json

record write_reply =
  wr_status :: int
  wr_content_type :: string
  wr_stamp :: "(string \<times> string) list"
  wr_body :: reply_body

definition revocation_notice :: string where
  "revocation_notice = ''entitlement revoked mid-flight '' @ em_dash @ '' this session is now read-only with a pointer; ''
     @ ''content already hub-resident is re-accessible on re-entitlement; ''
     @ ''use Go-Standalone to continue locally''"

definition revocation_json :: json where
  "revocation_json = JObj [(''handoff'', JStr ''read-only-with-pointer''), (''notice'', JStr revocation_notice),
     (''go_standalone'', JBool True)]"

definition echo_fields :: "'a write_echo_scheme \<Rightarrow> keyed_doc" where
  "echo_fields e =
     [(''payload'', JStr (we_payload e))]
     @ (if we_truncated e then [(''payload_truncated'', JBool True)] else [])
     @ [(''request_id'', JStr (we_request_id e)), (''attempts'', JNum (int (we_attempts e))),
        (''local_store_role'', JStr (we_role e))]"

definition optional_field :: "string \<Rightarrow> string option \<Rightarrow> keyed_doc" where
  "optional_field k v = (case v of None \<Rightarrow> [] | Some s \<Rightarrow> [(k, JStr s)])"

fun write_reply_of :: "(string \<times> string) list \<Rightarrow> fleet_write_result \<Rightarrow> write_reply" where
  "write_reply_of stamp (Write_delivered status body content_type request_id attempts) =
     \<lparr> wr_status = status, wr_content_type = or_else content_type ''application/json'', wr_stamp = stamp,
       wr_body = Reply_text body \<rparr>"
| "write_reply_of stamp (Write_failed f) =
     \<lparr> wr_status = wf_http_status f, wr_content_type = ''application/json'', wr_stamp = stamp,
       wr_body = Reply_json (JObj
         ([(''ok'', JBool False), (''error'', JStr (wf_error f)), (''hub_status'', opt_json JNum (wf_hub_status f))]
          @ optional_field ''detail'' (wf_detail f) @ echo_fields f
          @ (if wf_revocation f then [(''revocation'', revocation_json)] else []))) \<rparr>"
| "write_reply_of stamp (Write_ambiguous a) =
     \<lparr> wr_status = 504, wr_content_type = ''application/json'', wr_stamp = stamp,
       wr_body = Reply_json (JObj
         ([(''ok'', JBool False), (''error'', JStr ''fleet-write-ambiguous'')]
          @ optional_field ''detail'' (wa_detail a) @ echo_fields a
          @ [(''refetch'', JObj [(''path'', JStr (rf_path (wa_refetch a))), (''ok'', JBool (rf_ok (wa_refetch a))),
               (''http_status'', opt_json JNum (rf_http_status (wa_refetch a))),
               (''body'', opt_json JStr (rf_body (wa_refetch a)))])])) \<rparr>"

definition pipeline_failed :: "string \<Rightarrow> write_reply" where
  "pipeline_failed msg =
     \<lparr> wr_status = 502, wr_content_type = ''application/json'', wr_stamp = [],
       wr_body = Reply_json (JObj [(''ok'', JBool False), (''error'', JStr (''fleet write pipeline failed: '' @ msg))]) \<rparr>"

definition handle_fleet_write ::
  "url_library \<Rightarrow> (string \<Rightarrow> string) \<Rightarrow> string \<Rightarrow> string \<Rightarrow> (nat \<Rightarrow> write_attempt) \<Rightarrow> write_attempt
     \<Rightarrow> (string \<times> string) list option \<Rightarrow> write_deps \<Rightarrow> string option \<Rightarrow> string option
     \<Rightarrow> (string \<times> header_value) list \<Rightarrow> string list \<Rightarrow> write_reply \<times> write_effects" where
  "handle_fleet_write urls auth_header fresh_id now run refetch stamp deps req_method url headers chunks =
     (case read_request_body chunks of
        Inl msg \<Rightarrow> (pipeline_failed msg, no_effects)
      | Inr body \<Rightarrow>
          (case execute_fleet_write urls auth_header fresh_id now run refetch deps
                  \<lparr> fw_method = or_else req_method ''POST'', fw_url = or_else url ''/'', fw_headers = headers,
                    fw_body = body \<rparr> of
             Inl msg \<Rightarrow> (pipeline_failed msg, no_effects)
           | Inr (result, effects) \<Rightarrow> (write_reply_of (or_else stamp []) result, effects)))"

end
