(* ===== verification/Write_Properties.thy ===== *)
theory Write_Properties
  imports Hub_Writes
begin

text \<open>
  The properties of the hub writes: a write resolves to what was seen of it within its budget, all
  its attempts are one request under one identity and the hub's own credential, nothing of the
  input is eaten, a revocation is signalled once, and the outcomes drive the posture detector; and
  the store entry of the hub credential survives a rewrite.
\<close>

section \<open>The loop\<close>

fun first_seen :: "(nat \<Rightarrow> write_attempt) \<Rightarrow> nat \<Rightarrow> nat \<Rightarrow> (nat \<times> write_answer) option" where
  "first_seen run k 0 = None"
| "first_seen run k (Suc n) =
     (case run k of Answer_seen a \<Rightarrow> Some (k, a) | No_answer msg \<Rightarrow> first_seen run (Suc k) n)"

fun unanswered :: "write_attempt \<Rightarrow> bool" where
  "unanswered (No_answer msg) \<longleftrightarrow> True"
| "unanswered (Answer_seen a) \<longleftrightarrow> False"

fun attempt_outcome :: "write_attempt \<Rightarrow> outcome" where
  "attempt_outcome (No_answer msg) = NoResponse (Some msg)"
| "attempt_outcome (Answer_seen a) = Responded (an_latency a)"

lemma first_seen_Some:
  "first_seen run k n = Some (i, a) \<longleftrightarrow>
     k \<le> i \<and> i < k + n \<and> run i = Answer_seen a \<and> (\<forall>j. k \<le> j \<and> j < i \<longrightarrow> unanswered (run j))"
proof (induction n arbitrary: k)
  case (Suc n)
  show ?case
  proof (cases "run k")
    case (No_answer msg)
    then have "(\<forall>j. k \<le> j \<and> j < i \<longrightarrow> unanswered (run j)) \<longleftrightarrow> (\<forall>j. Suc k \<le> j \<and> j < i \<longrightarrow> unanswered (run j))"
      by (metis Suc_leI le_neq_implies_less less_imp_le unanswered.simps(1) Suc_le_lessD)
    moreover have "run i = Answer_seen a \<Longrightarrow> i \<noteq> k" using No_answer by auto
    ultimately show ?thesis using No_answer Suc by auto
  next
    case (Answer_seen b)
    then have "k \<le> i \<Longrightarrow> \<forall>j. k \<le> j \<and> j < i \<longrightarrow> unanswered (run j) \<Longrightarrow> i = k"
      by (metis le_refl nat_less_le unanswered.simps(2))
    with Answer_seen show ?thesis by auto
  qed
qed auto

lemma first_seen_None: "first_seen run k n = None \<longleftrightarrow> (\<forall>j. k \<le> j \<and> j < k + n \<longrightarrow> unanswered (run j))"
proof (induction n arbitrary: k)
  case (Suc n)
  show ?case
  proof (cases "run k")
    case (No_answer msg)
    with Suc show ?thesis
      by simp (metis Suc_leI le_neq_implies_less less_imp_le unanswered.simps(1) Suc_le_lessD)
  next
    case (Answer_seen b)
    then show ?thesis by (auto intro!: exI [of _ k])
  qed
qed auto

text \<open>How many attempts have been made when the loop ends.\<close>

definition tries :: "(nat \<Rightarrow> write_attempt) \<Rightarrow> nat \<Rightarrow> nat \<Rightarrow> nat" where
  "tries run k n = (case first_seen run k n of Some (i, a) \<Rightarrow> Suc i | None \<Rightarrow> k + n)"

lemma tries_simps [simp]:
  "tries run k 0 = k"
  "run k = No_answer msg \<Longrightarrow> tries run k (Suc n) = tries run (Suc k) n"
  "run k = Answer_seen a \<Longrightarrow> tries run k (Suc n) = Suc k"
  by (simp_all add: tries_def split: option.split)

lemma tries_ge: "k \<le> tries run k n"
  by (auto simp: tries_def first_seen_Some split: option.split)

lemma tries_le: "tries run k n \<le> k + n"
  by (auto simp: tries_def first_seen_Some split: option.split)

lemma attempt_loop_seen:
  "snd (attempt_loop run n (k, detail, outs)) = map_option snd (first_seen run k n)
   \<and> fst (fst (attempt_loop run n (k, detail, outs))) = tries run k n
   \<and> snd (snd (fst (attempt_loop run n (k, detail, outs)))) =
       outs @ map (\<lambda>i. attempt_outcome (run i)) [k ..< tries run k n]"
proof (induction n arbitrary: k detail outs)
  case (Suc n)
  show ?case
  proof (cases "run k")
    case (No_answer msg)
    have "k < tries run (Suc k) n" using tries_ge [of "Suc k" run n] by simp
    then have "[k ..< tries run (Suc k) n] = k # [Suc k ..< tries run (Suc k) n]" by (rule upt_conv_Cons)
    with No_answer Suc [of "Suc k" "Some msg" "outs @ [NoResponse (Some msg)]"] show ?thesis by simp
  qed simp
qed simp

section \<open>A write that is sent\<close>

text \<open>The write has an upstream, a credential and a target.\<close>

definition sendable :: "url_library \<Rightarrow> write_deps \<Rightarrow> fleet_write_request \<Rightarrow> bool" where
  "sendable urls deps w \<longleftrightarrow>
     (\<exists>base c t. truthy (wd_url deps) = Some base \<and> wd_credential deps = Inr c \<and> parse_target urls (fw_url w) base = Inr t)"

definition write_budget :: "write_deps \<Rightarrow> nat" where
  "write_budget deps = Suc (or_else (wd_max_retries deps) 2)"

definition request_identity :: "string \<Rightarrow> fleet_write_request \<Rightarrow> string" where
  "request_identity fresh_id w = or_else (write_header_value (fw_headers w) ''x-amicode-request-id'') fresh_id"

definition hub_auth :: "(string \<Rightarrow> string) \<Rightarrow> write_deps \<Rightarrow> string" where
  "hub_auth auth_header deps = (case wd_credential deps of Inr (v, c) \<Rightarrow> auth_header (hc_token c) | Inl f \<Rightarrow> [])"

datatype write_kind = Delivered | Failed_write | Ambiguous

fun kind_of_write :: "fleet_write_result \<Rightarrow> write_kind" where
  "kind_of_write (Write_delivered status body ct rid n) = Delivered"
| "kind_of_write (Write_failed f) = Failed_write"
| "kind_of_write (Write_ambiguous a) = Ambiguous"

fun attempts_of :: "fleet_write_result \<Rightarrow> nat" where
  "attempts_of (Write_delivered status body ct rid n) = n"
| "attempts_of (Write_failed f) = we_attempts f"
| "attempts_of (Write_ambiguous a) = we_attempts a"

fun identity_of :: "fleet_write_result \<Rightarrow> string" where
  "identity_of (Write_delivered status body ct rid n) = rid"
| "identity_of (Write_failed f) = we_request_id f"
| "identity_of (Write_ambiguous a) = we_request_id a"

lemma extend_echo [simp]:
  "we_payload (write_echo.extend e m) = we_payload e" "we_truncated (write_echo.extend e m) = we_truncated e"
  "we_request_id (write_echo.extend e m) = we_request_id e" "we_attempts (write_echo.extend e m) = we_attempts e"
  "we_role (write_echo.extend e m) = we_role e"
  by (simp_all add: write_echo.extend_def)

lemma answered_kind:
  "kind_of_write (fst (answered_result now body rid n a)) = (if http_ok (an_status a) then Delivered else Failed_write)"
  "attempts_of (fst (answered_result now body rid n a)) = n"
  "identity_of (fst (answered_result now body rid n a)) = rid"
  by (simp_all add: answered_result_def failure_def echo_of_def Let_def)

lemma sent_write:
  assumes "sendable urls deps w"
  shows "\<exists>result fx target. execute_fleet_write urls auth_header fresh_id now run refetch deps w = Inr (result, fx)
    \<and> attempts_of result = tries run 0 (write_budget deps)
    \<and> identity_of result = request_identity fresh_id w
    \<and> fx_outcomes fx = map (\<lambda>i. attempt_outcome (run i)) [0 ..< tries run 0 (write_budget deps)]
    \<and> fx_calls fx = replicate (tries run 0 (write_budget deps))
        \<lparr> wc_target = target, wc_method = fw_method w,
          wc_headers = forwarded_headers (fw_headers w) (hub_auth auth_header deps) (request_identity fresh_id w),
          wc_body = (if fw_body w = [] then None else Some (fw_body w)) \<rparr>
    \<and> (case first_seen run 0 (write_budget deps) of
         Some (i, a) \<Rightarrow> (result, fx_signals fx) = answered_result now (fw_body w) (request_identity fresh_id w) (Suc i) a
           \<and> fx_refetches fx = []
       | None \<Rightarrow> kind_of_write result = Ambiguous \<and> fx_signals fx = [] \<and> length (fx_refetches fx) \<le> 1
           \<and> list_all (\<lambda>r. snd r = hub_auth auth_header deps) (fx_refetches fx)
           \<and> (\<exists>a. result = Write_ambiguous a \<and> write_echo.truncate a = echo_of (fw_body w) (request_identity fresh_id w)
                (write_budget deps)))"
proof -
  obtain base v c target path where u: "truthy (wd_url deps) = Some base" "wd_credential deps = Inr (v, c)"
      "parse_target urls (fw_url w) base = Inr (target, path)"
    using assms by (auto simp: sendable_def)
  obtain attempts detail outs seen where loop:
    "attempt_loop run (write_budget deps) (0, None, []) = ((attempts, detail, outs), seen)"
    by (metis prod.exhaust)
  have facts: "seen = map_option snd (first_seen run 0 (write_budget deps))"
      "attempts = tries run 0 (write_budget deps)"
      "outs = map (\<lambda>i. attempt_outcome (run i)) [0 ..< tries run 0 (write_budget deps)]"
    using attempt_loop_seen [of run "write_budget deps" 0 None "[]"] by (simp_all add: loop)
  show ?thesis
  proof (cases "first_seen run 0 (write_budget deps)")
    case None
    then have n: "attempts = write_budget deps" by (simp add: facts tries_def)
    show ?thesis
      using u loop facts None n
      by (auto simp: execute_fleet_write_def write_budget_def [symmetric] request_identity_def hub_auth_def
          no_effects_def echo_of_def write_echo.defs Let_def split: option.split)
  next
    case (Some x)
    then obtain i a where x: "first_seen run 0 (write_budget deps) = Some (i, a)" by force
    then have n: "attempts = Suc i" by (simp add: facts tries_def)
    obtain result signals where r: "answered_result now (fw_body w) (request_identity fresh_id w) (Suc i) a = (result, signals)"
      by force
    have r': "attempts_of result = Suc i" "identity_of result = request_identity fresh_id w"
      using answered_kind [of now "fw_body w" "request_identity fresh_id w" "Suc i" a] by (simp_all add: r)
    show ?thesis
      using u loop facts x n r r'
      by (auto simp: execute_fleet_write_def write_budget_def [symmetric] request_identity_def hub_auth_def
          no_effects_def Let_def)
  qed
qed

section \<open>Properties\<close>

text \<open>C28: A write of a fleet session resolves to what was seen of it. It is delivered exactly when the
  first attempt that was answered, within one try and the retry budget, was answered with a 2xx
  status; it has failed exactly when that answer was another status; it is ambiguous exactly when
  no attempt in the whole budget was answered. An answer is never retried, a silent attempt always
  is while the budget lasts, and the attempts counted are the attempts made.\<close>

theorem write_resolves_to_what_was_seen:
  assumes "sendable urls deps w"
    and "execute_fleet_write urls auth_header fresh_id now run refetch deps w = Inr (result, fx)"
  shows "(kind_of_write result = Delivered \<longleftrightarrow>
      (\<exists>i a. i < write_budget deps \<and> run i = Answer_seen a \<and> http_ok (an_status a) \<and> (\<forall>j < i. unanswered (run j))))
    \<and> (kind_of_write result = Failed_write \<longleftrightarrow>
      (\<exists>i a. i < write_budget deps \<and> run i = Answer_seen a \<and> \<not> http_ok (an_status a) \<and> (\<forall>j < i. unanswered (run j))))
    \<and> (kind_of_write result = Ambiguous \<longleftrightarrow> (\<forall>j < write_budget deps. unanswered (run j)))
    \<and> attempts_of result = length (fx_calls fx) \<and> attempts_of result \<le> write_budget deps
    \<and> (\<forall>i < attempts_of result - 1. unanswered (run i))"
proof -
  note sent = sent_write [OF assms(1), of auth_header fresh_id now run refetch, unfolded assms(2)]
  show ?thesis
  proof (cases "first_seen run 0 (write_budget deps)")
    case None
    then have silent: "\<forall>j < write_budget deps. unanswered (run j)" by (simp add: first_seen_None)
    then have "\<not> (i < write_budget deps \<and> run i = Answer_seen a)" for i a by auto
    with None silent sent tries_le [of run 0 "write_budget deps"] show ?thesis by (auto simp: tries_def)
  next
    case (Some x)
    then obtain i a where x: "first_seen run 0 (write_budget deps) = Some (i, a)" by force
    then have i: "i < write_budget deps" "run i = Answer_seen a" "\<forall>j < i. unanswered (run j)"
      by (simp_all add: first_seen_Some)
    have n: "tries run 0 (write_budget deps) = Suc i" by (simp add: tries_def x)
    have only: "i' = i \<and> a' = a" if "run i' = Answer_seen a'" "\<forall>j < i'. unanswered (run j)" for i' a'
      using that i by (cases i' i rule: linorder_cases) auto
    have kind: "kind_of_write result = (if http_ok (an_status a) then Delivered else Failed_write)"
      using sent x answered_kind(1) [of now "fw_body w" "request_identity fresh_id w" "Suc i" a]
      by (auto simp: prod_eq_iff)
    have some: "\<not> (\<forall>j < write_budget deps. unanswered (run j))" using i by auto
    have count: "attempts_of result = Suc i \<and> length (fx_calls fx) = Suc i" using sent by (auto simp: n)
    have first: "(\<exists>i' a'. i' < write_budget deps \<and> run i' = Answer_seen a' \<and> P a' \<and> (\<forall>j < i'. unanswered (run j))) \<longleftrightarrow> P a" for P
      using i only by blast
    show ?thesis
      unfolding first [of "\<lambda>a. http_ok (an_status a)"] first [of "\<lambda>a. \<not> http_ok (an_status a)"]
      using kind some count i by auto
  qed
qed

lemma forwarded_kept:
  assumes "k \<in> set dropped_headers"
  shows "obj_get (foldl (\<lambda>h e. if to_lower (fst e) \<in> set dropped_headers then h
            else obj_set h (to_lower (fst e)) (header_text (snd e))) [] headers) k = None"
  using assms by (induction headers rule: rev_induct) auto

lemma forwarded_header_facts:
  "obj_get (forwarded_headers headers auth rid) ''x-amicode-request-id'' = Some rid"
  "obj_get (forwarded_headers headers auth rid) ''authorization'' = Some auth"
  "k \<in> {''host'', ''connection'', ''content-length''} \<Longrightarrow> obj_get (forwarded_headers headers auth rid) k = None"
  by (auto simp: forwarded_headers_def Let_def dropped_headers_def forwarded_kept [unfolded dropped_headers_def, simplified])

text \<open>All attempts of a write are one request: the same target, method, body and headers, under the
  one request identity the client gave or the write drew, which the outcome names as well; the
  authorization they carry is the hub's credential, and neither the client's own nor a hop-by-hop
  header gets through. There are never more than the budget, at most one refetch follows, with the
  same credential, and only where the write is ambiguous.\<close>

theorem attempts_are_one_request:
  assumes "sendable urls deps w"
    and "execute_fleet_write urls auth_header fresh_id now run refetch deps w = Inr (result, fx)"
  shows "(\<exists>call. fx_calls fx = replicate (attempts_of result) call)
    \<and> attempts_of result \<le> write_budget deps
    \<and> list_all (\<lambda>c. obj_get (wc_headers c) ''x-amicode-request-id'' = Some (identity_of result)
          \<and> obj_get (wc_headers c) ''authorization'' = Some (hub_auth auth_header deps)
          \<and> list_all (\<lambda>k. obj_get (wc_headers c) k = None) [''host'', ''connection'', ''content-length'']) (fx_calls fx)
    \<and> identity_of result = request_identity fresh_id w
    \<and> length (fx_refetches fx) \<le> (if kind_of_write result = Ambiguous then 1 else 0)
    \<and> list_all (\<lambda>r. snd r = hub_auth auth_header deps) (fx_refetches fx)"
proof -
  note sent = sent_write [OF assms(1), of auth_header fresh_id now run refetch, unfolded assms(2)]
  have refetch: "length (fx_refetches fx) \<le> (if kind_of_write result = Ambiguous then 1 else 0)
      \<and> list_all (\<lambda>r. snd r = hub_auth auth_header deps) (fx_refetches fx)"
    using sent by (cases "first_seen run 0 (write_budget deps)") auto
  obtain target where calls: "fx_calls fx = replicate (tries run 0 (write_budget deps))
        \<lparr> wc_target = target, wc_method = fw_method w,
          wc_headers = forwarded_headers (fw_headers w) (hub_auth auth_header deps) (request_identity fresh_id w),
          wc_body = (if fw_body w = [] then None else Some (fw_body w)) \<rparr>"
    and n: "attempts_of result = tries run 0 (write_budget deps)" "identity_of result = request_identity fresh_id w"
    using sent by auto
  have "list_all (\<lambda>c. obj_get (wc_headers c) ''x-amicode-request-id'' = Some (identity_of result)
          \<and> obj_get (wc_headers c) ''authorization'' = Some (hub_auth auth_header deps)
          \<and> list_all (\<lambda>k. obj_get (wc_headers c) k = None) [''host'', ''connection'', ''content-length'']) (fx_calls fx)"
    by (auto simp: calls n list_all_iff forwarded_header_facts)
  moreover have "attempts_of result \<le> write_budget deps"
    using tries_le [of run 0 "write_budget deps"] by (simp add: n)
  ultimately show ?thesis using refetch calls n by auto
qed

fun echo_of_result :: "fleet_write_result \<Rightarrow> write_echo option" where
  "echo_of_result (Write_delivered status body ct rid n) = None"
| "echo_of_result (Write_failed f) = Some (write_echo.truncate f)"
| "echo_of_result (Write_ambiguous a) = Some (write_echo.truncate a)"

lemma truncate_extend [simp]: "write_echo.truncate (write_echo.extend e m) = e"
  by (simp add: write_echo.defs)

text \<open>What was composed is never eaten. Every outcome that is not a delivery - a failure before
  anything was sent, an error answer, an ambiguous write - hands the input back, whole up to the
  cap and flagged where it was cut, and says that nothing was written to the local store. Its
  revocation notice, and the one structural signal that goes with it, are there exactly when the
  hub answered 401.\<close>

theorem undelivered_input_is_handed_back:
  assumes "execute_fleet_write urls auth_header fresh_id now run refetch deps w = Inr (result, fx)"
  shows "(kind_of_write result = Delivered \<longleftrightarrow> echo_of_result result = None)
    \<and> (case echo_of_result result of
         None \<Rightarrow> True
       | Some e \<Rightarrow> we_payload e = take MAX_REFETCH_BODY (fw_body w)
           \<and> (we_truncated e \<longleftrightarrow> MAX_REFETCH_BODY < length (fw_body w)) \<and> we_role e = local_store_role)
    \<and> (fx_signals fx = [revoked_signal now] \<longleftrightarrow>
        (\<exists>f. result = Write_failed f \<and> wf_revocation f \<and> wf_hub_status f = Some 401))
    \<and> length (fx_signals fx) \<le> 1"
proof -
  have payload: "fst (truncate_body b) = take MAX_REFETCH_BODY b \<and> (snd (truncate_body b) \<longleftrightarrow> MAX_REFETCH_BODY < length b)" for b
    by (auto simp: truncate_body_def)
  show ?thesis
  proof (cases "sendable urls deps w")
    case False
    have "(\<exists>e s err d. result = failure (echo_of (fw_body w) (request_identity fresh_id w) 0) s err None d False) \<and> fx = no_effects"
      using assms False
      by (auto simp: execute_fleet_write_def sendable_def request_identity_def Let_def split: option.splits sum.splits)
    then show ?thesis
      by (auto simp: failure_def echo_of_def no_effects_def payload write_echo.defs)
  next
    case True
    note sent = sent_write [OF True, of auth_header fresh_id now run refetch, unfolded assms]
    show ?thesis
    proof (cases "first_seen run 0 (write_budget deps)")
      case None
      with sent obtain a where a: "result = Write_ambiguous a" "fx_signals fx = []"
          "write_echo.truncate a = echo_of (fw_body w) (request_identity fresh_id w) (write_budget deps)"
        by auto
      then show ?thesis by (simp add: echo_of_def payload)
    next
      case (Some x)
      then obtain i a where "(result, fx_signals fx) = answered_result now (fw_body w) (request_identity fresh_id w) (Suc i) a"
        using sent by (cases x) auto
      then show ?thesis
        by (auto simp: answered_result_def failure_def echo_of_def payload write_echo.defs Let_def split: if_splits)
    qed
  qed
qed

section \<open>The posture detector\<close>

lemma silent_step:
  "no_response_streak (record_outcome tu (NoResponse detail) now d) = Suc (no_response_streak d)"
  "d_state (record_outcome tu (NoResponse detail) now d) = PStandalone \<or>
     no_response_streak (record_outcome tu (NoResponse detail) now d) < hub_down_consecutive_no_responses tu"
  by (auto simp: record_outcome.simps Let_def move_to_def)

lemma silent_run:
  assumes "list_all (\<lambda>out. \<exists>detail. fst out = NoResponse detail) outs" and "outs \<noteq> []"
  shows "no_response_streak (detector_run tu outs d) = no_response_streak d + length outs
    \<and> (d_state (detector_run tu outs d) = PStandalone \<or>
       no_response_streak (detector_run tu outs d) < hub_down_consecutive_no_responses tu)"
  using assms
proof (induction outs rule: rev_induct)
  case (snoc out outs)
  obtain detail t where out: "out = (NoResponse detail, t)" using snoc.prems(1) by (cases out) auto
  let ?d = "detector_run tu outs d"
  have "no_response_streak ?d = no_response_streak d + length outs"
    using snoc by (cases "outs = []") simp_all
  then show ?case
    using silent_step [of tu detail t ?d] by (simp add: detector_run_append out)
qed simp

lemma answered_step: "no_response_streak (record_outcome tu (Responded latency) now d) = 0"
  by (simp add: record_outcome.simps Let_def move_to_def)

text \<open>C29: The outcomes a write reports drive the posture. When a write is ambiguous and its budget
  reaches the detector's threshold - as it does with the defaults of both - the detector is in
  standalone after it, wherever it was before; after a write that was answered, whatever the
  answer said, no silent request counts against the hub any more.\<close>

theorem ambiguous_write_takes_the_posture_down:
  assumes "sendable urls deps w"
    and "execute_fleet_write urls auth_header fresh_id now run refetch deps w = Inr (result, fx)"
  shows "(kind_of_write result = Ambiguous \<and> hub_down_consecutive_no_responses tu \<le> write_budget deps \<longrightarrow>
        d_state (detector_run tu (map (\<lambda>out. (out, t)) (fx_outcomes fx)) d) = PStandalone)
    \<and> (kind_of_write result \<noteq> Ambiguous \<longrightarrow>
        no_response_streak (detector_run tu (map (\<lambda>out. (out, t)) (fx_outcomes fx)) d) = 0)"
proof -
  note sent = sent_write [OF assms(1), of auth_header fresh_id now run refetch, unfolded assms(2)]
  show ?thesis
  proof (cases "first_seen run 0 (write_budget deps)")
    case None
    then have silent: "unanswered (run i)" if "i < write_budget deps" for i
      using that by (simp add: first_seen_None)
    have outs: "fx_outcomes fx = map (\<lambda>i. attempt_outcome (run i)) [0 ..< write_budget deps]"
      using sent None by (simp add: tries_def)
    have "\<exists>detail. attempt_outcome (run i) = NoResponse detail" if "i < write_budget deps" for i
      using silent [OF that] by (cases "run i") auto
    then have all: "list_all (\<lambda>out. \<exists>detail. fst out = NoResponse detail) (map (\<lambda>out. (out, t)) (fx_outcomes fx))"
      by (simp add: outs list_all_iff)
    have len: "length (map (\<lambda>out. (out, t)) (fx_outcomes fx)) = write_budget deps" by (simp add: outs)
    then have "map (\<lambda>out. (out, t)) (fx_outcomes fx) \<noteq> []" by (auto simp: write_budget_def)
    from silent_run [OF all this, of tu d] len show ?thesis using sent None by auto
  next
    case (Some x)
    then obtain i a where x: "first_seen run 0 (write_budget deps) = Some (i, a)" by force
    then have ans: "run i = Answer_seen a" by (simp add: first_seen_Some)
    have outs: "fx_outcomes fx = map (\<lambda>i. attempt_outcome (run i)) [0 ..< i] @ [Responded (an_latency a)]"
      using sent by (auto simp: tries_def x ans)
    have "kind_of_write result \<noteq> Ambiguous"
      using sent x answered_kind(1) [of now "fw_body w" "request_identity fresh_id w" "Suc i" a]
      by (auto simp: prod_eq_iff split: if_splits)
    moreover have "no_response_streak (detector_run tu (map (\<lambda>out. (out, t)) (fx_outcomes fx)) d) = 0"
      using answered_step by (simp add: outs detector_run_append)
    ultimately show ?thesis by simp
  qed
qed

section \<open>The body and the refetch\<close>

lemma read_chunks_spec:
  assumes "got \<le> MAX_BODY_BYTES"
  shows "read_chunks got acc chunks =
    (if got + length (concat chunks) \<le> MAX_BODY_BYTES then Inr (acc @ concat chunks) else Inl ''Error: body too large'')"
  using assms by (induction got acc chunks rule: read_chunks.induct) auto

lemma read_request_body_spec:
  "read_request_body chunks =
    (if length (concat chunks) \<le> MAX_BODY_BYTES then Inr (concat chunks) else Inl ''Error: body too large'')"
  using read_chunks_spec [of 0 "[]" chunks] by (simp add: read_request_body_def)

text \<open>A body over the cap is refused before anything is sent: the reply is a named 502 with no
  call, no posture outcome and no signal. A body within the cap reaches the write whole, however
  it was cut into chunks.\<close>

theorem oversized_body_is_never_sent:
  "handle_fleet_write urls auth_header fresh_id now run refetch stamp deps req_method url headers chunks =
     (if length (concat chunks) \<le> MAX_BODY_BYTES
      then handle_fleet_write urls auth_header fresh_id now run refetch stamp deps req_method url headers [concat chunks]
      else (pipeline_failed ''Error: body too large'', no_effects))"
  by (simp add: handle_fleet_write_def read_request_body_spec)

text \<open>The refetch of a write to a thread is that thread, but only under the \<open>/session\<close> prefix: under
  \<open>/api/session\<close> the derived path is no thread at all.\<close>

lemma refetch_of_a_thread:
  assumes "sid \<noteq> []" and "slash \<notin> set sid" and "CHR ''?'' \<notin> set sid"
  shows "derive_refetch_path (''/session/'' @ sid) = ''/session/'' @ sid"
proof -
  have "split_on (CHR ''?'') (''/session/'' @ sid) = [''/session/'' @ sid]"
    using assms(3) by (intro split_on_plain) auto
  moreover have "split_on slash (''/session/'' @ sid) = [[], ''session'', sid]"
    using assms(2) split_on_append [of slash "''session''" sid] by (simp add: slash_def split_on_plain)
  ultimately show ?thesis using assms(1) by (simp add: derive_refetch_path_def path_segments_def)
qed

theorem api_write_refetches_no_thread:
  "derive_refetch_path ''/api/session/s/prompt'' = ''/api''"
  by code_simp

section \<open>The store entry of the credential\<close>

lemma map_of_preserved:
  "map_of (filter (\<lambda>e. fst e \<notin> set ks) d) k = (if k \<in> set ks then None else map_of d k)"
  by (induction d) auto

text \<open>The hub's store entry reads back as it was written: with its version stamp and its trimmed
  address and token, or as incomplete where one of them is blank. A rewrite keeps every key it
  does not own, from any readable file, and clearing makes the entry absent.\<close>

theorem hub_entry_round_trips:
  "read_hub_credential (write_hub_credential v file) =
     (if js_trim (hc_base_url v) = [] \<or> js_trim (hc_token v) = []
      then Inl (Hub_incomplete, Some ''store entry lacks base_url/token'')
      else Inr (Some HUB_STORE_VERSION, \<lparr> hc_base_url = js_trim (hc_base_url v), hc_token = js_trim (hc_token v) \<rparr>))
   \<and> read_hub_raw (write_hub_credential v (Hub_file (JObj d))) = Inr (preserved_keys (Hub_file (JObj d)) @
       [(''store_version'', JNum HUB_STORE_VERSION), (''mint'', JStr ''hub''),
        (''base_url'', JStr (js_trim (hc_base_url v))), (''token'', JStr (js_trim (hc_token v)))])
   \<and> obj_get (preserved_keys (Hub_file (JObj d))) k = (if k \<in> set owned_hub_keys then None else obj_get d k)
   \<and> read_hub_credential (clear_hub_credential file) = Inl (Hub_absent, None)"
proof -
  have other: "obj_get (preserved_keys file) k = None" if "k \<in> set owned_hub_keys" for k
    using that by (auto simp: preserved_keys_def map_of_preserved split: sum.splits)
  have get: "obj_get (preserved_keys file @ xs) k = obj_get xs k" if "k \<in> set owned_hub_keys" for k and xs :: keyed_doc
    using other [OF that] by (simp add: map_add_def split: option.splits)
  have keys: "''base_url'' \<in> set owned_hub_keys" "''token'' \<in> set owned_hub_keys" "''store_version'' \<in> set owned_hub_keys"
    by (simp_all add: owned_hub_keys_def)
  show ?thesis
    by (simp add: read_hub_credential_def write_hub_credential_def clear_hub_credential_def text_of_def num_of_def
        get keys Let_def del: map_of_append)
      (simp add: preserved_keys_def map_of_preserved)
qed

section \<open>Concrete inputs\<close>

definition demo_urls :: url_library where
  "demo_urls = \<lparr> parse_target = (\<lambda>url base. Inr (base @ url, url)), parse_refetch = (\<lambda>path base. Some (base @ path)) \<rparr>"

definition demo_deps :: write_deps where
  "demo_deps = \<lparr> wd_url = Some ''u'', wd_credential = Inr (None, \<lparr> hc_base_url = ''u'', hc_token = ''t'' \<rparr>),
     wd_max_retries = None \<rparr>"

definition demo_write :: fleet_write_request where
  "demo_write = \<lparr> fw_method = ''POST'', fw_url = ''/session/s'', fw_headers = [(''Authorization'', Header ''x'')], fw_body = ''b'' \<rparr>"

definition demo_silence :: "nat \<Rightarrow> write_attempt" where
  "demo_silence i = No_answer ''timeout''"

definition demo_ambiguous :: "fleet_write_result \<times> write_effects" where
  "demo_ambiguous =
     projr (execute_fleet_write demo_urls (\<lambda>s. s) ''id'' ''now'' demo_silence (No_answer []) demo_deps demo_write)"

lemma demo_sendable: "sendable demo_urls demo_deps demo_write"
  by (simp add: sendable_def demo_urls_def demo_deps_def)

lemma demo_budget: "write_budget demo_deps = 3" "first_seen demo_silence 0 3 = None"
    "request_identity ''id'' demo_write = ''id''"
    "hub_down_consecutive_no_responses default_tuning \<le> write_budget demo_deps"
  by code_simp+

lemma demo_ambiguous_facts:
  "execute_fleet_write demo_urls (\<lambda>s. s) ''id'' ''now'' demo_silence (No_answer []) demo_deps demo_write
     = Inr (fst demo_ambiguous, snd demo_ambiguous)"
  "kind_of_write (fst demo_ambiguous) = Ambiguous" "identity_of (fst demo_ambiguous) = ''id''"
  "echo_of_result (fst demo_ambiguous) \<noteq> None"
  using sent_write [OF demo_sendable, of "\<lambda>s. s" "''id''" "''now''" demo_silence "No_answer []"]
  by (auto simp: demo_ambiguous_def demo_budget)

theorem write_resolves_to_what_was_seen_witness:
  "kind_of_write (fst demo_ambiguous) = Ambiguous
   \<and> list_all (\<lambda>j. unanswered (demo_silence j)) [0..<write_budget demo_deps]"
  using write_resolves_to_what_was_seen [OF demo_sendable demo_ambiguous_facts(1)] demo_ambiguous_facts(2)
  by (simp add: list_all_iff)

theorem attempts_are_one_request_witness:
  "list_all (\<lambda>c. obj_get (wc_headers c) ''x-amicode-request-id'' = Some ''id''
     \<and> obj_get (wc_headers c) ''authorization'' = Some (hub_auth (\<lambda>s. s) demo_deps)) (fx_calls (snd demo_ambiguous))"
  using attempts_are_one_request [OF demo_sendable demo_ambiguous_facts(1)] demo_ambiguous_facts(3)
  by (auto simp: list_all_iff)

theorem undelivered_input_is_handed_back_witness:
  "\<exists>e. echo_of_result (fst demo_ambiguous) = Some e \<and> we_payload e = take MAX_REFETCH_BODY (fw_body demo_write)"
  using undelivered_input_is_handed_back [OF demo_ambiguous_facts(1)] demo_ambiguous_facts(4)
  by (auto split: option.splits)

theorem ambiguous_write_takes_the_posture_down_witness:
  "d_state (detector_run default_tuning (map (\<lambda>out. (out, ''t'')) (fx_outcomes (snd demo_ambiguous))) (new_detector ''t0''))
     = PStandalone"
  using ambiguous_write_takes_the_posture_down [OF demo_sendable demo_ambiguous_facts(1)] demo_ambiguous_facts(2) demo_budget(4)
  by blast

end
