(* ===== verification/Version_Skew.thy ===== *)
theory Version_Skew
  imports Fleet_Projection
begin

text \<open>
  The version parity of client and host: the verdict
  (\<open>packages/schema/src/fleet_version_skew.ts\<close>) and the gate that starts the relay with the probe of
  the host (\<open>packages/extension/src/amicode_service/fleet_version_skew.ts\<close>). Numbers are exact; the
  code's are as long as they stay below \<open>2 ^ 53\<close>. What the probe's request meets is an argument.
\<close>

section \<open>The verdict\<close>

datatype skew_tolerance = Exact_version | Minor_version | Major_version

record semver =
  sv_major :: nat
  sv_minor :: nat
  sv_patch :: nat

text \<open>The digit a character is in a base up to sixteen, or the base where it is none.\<close>

definition digit_in :: "nat \<Rightarrow> char \<Rightarrow> nat" where
  "digit_in base c =
     (let n = of_char c :: nat
      in if 48 \<le> n \<and> n \<le> 57 then n - 48
         else if 97 \<le> n \<and> n \<le> 102 then n - 87
         else if 65 \<le> n \<and> n \<le> 70 then n - 55
         else base)"

definition digits_in :: "nat \<Rightarrow> string \<Rightarrow> nat option" where
  "digits_in base s =
     (if s = [] \<or> list_ex (\<lambda>c. base \<le> digit_in base c) s then None
      else Some (foldl (\<lambda>acc c. base * acc + digit_in base c) 0 s))"

text \<open>\<open>Number(p)\<close> where it is an integer that is not negative, for a text without sign and point: blank
  text is zero, and the prefixes and the exponent of JavaScript's number syntax count.\<close>

definition js_natural :: "string \<Rightarrow> nat option" where
  "js_natural p =
     (let s = js_trim p
      in if s = [] then Some 0
         else if starts_with s ''0x'' \<or> starts_with s ''0X'' then digits_in 16 (drop 2 s)
         else if starts_with s ''0o'' \<or> starts_with s ''0O'' then digits_in 8 (drop 2 s)
         else if starts_with s ''0b'' \<or> starts_with s ''0B'' then digits_in 2 (drop 2 s)
         else
           (let mantissa = takeWhile (\<lambda>c. c \<noteq> CHR ''e'' \<and> c \<noteq> CHR ''E'') s
            in if mantissa = s then digits_in 10 s
               else (case (digits_in 10 mantissa, digits_in 10 (drop (Suc (length mantissa)) s)) of
                       (Some m, Some e) \<Rightarrow> Some (m * 10 ^ e)
                     | _ \<Rightarrow> None)))"

definition strip_v :: "string \<Rightarrow> string" where
  "strip_v s = (case s of c # cs \<Rightarrow> if c = CHR ''v'' \<or> c = CHR ''V'' then cs else s | [] \<Rightarrow> [])"

definition version_core :: "string \<Rightarrow> string" where
  "version_core raw = takeWhile (\<lambda>c. c \<noteq> CHR ''-'' \<and> c \<noteq> CHR ''+'') (strip_v (js_trim raw))"

definition parse_semver :: "string \<Rightarrow> semver option" where
  "parse_semver raw =
     (let parts = split_on (CHR ''.'') (version_core raw)
      in if length parts < 2 then None
         else (case map js_natural (take 3 parts) of
                 [Some a, Some b] \<Rightarrow> Some \<lparr> sv_major = a, sv_minor = b, sv_patch = 0 \<rparr>
               | [Some a, Some b, Some c] \<Rightarrow> Some \<lparr> sv_major = a, sv_minor = b, sv_patch = c \<rparr>
               | _ \<Rightarrow> None))"

record version_skew_verdict =
  vs_agree :: bool
  vs_client_pin :: string
  vs_host_version :: string
  vs_tolerance :: skew_tolerance
  vs_reason :: string

fun tolerance_name :: "skew_tolerance \<Rightarrow> string" where
  "tolerance_name Exact_version = ''exact''"
| "tolerance_name Minor_version = ''minor''"
| "tolerance_name Major_version = ''major''"

fun tolerance_parts :: "skew_tolerance \<Rightarrow> string" where
  "tolerance_parts Exact_version = ''full''"
| "tolerance_parts Minor_version = ''major.minor''"
| "tolerance_parts Major_version = ''major''"

fun versions_agree :: "skew_tolerance \<Rightarrow> semver \<Rightarrow> semver \<Rightarrow> bool" where
  "versions_agree Exact_version c h \<longleftrightarrow>
     sv_major c = sv_major h \<and> sv_minor c = sv_minor h \<and> sv_patch c = sv_patch h"
| "versions_agree Minor_version c h \<longleftrightarrow> sv_major c = sv_major h \<and> sv_minor c = sv_minor h"
| "versions_agree Major_version c h \<longleftrightarrow> sv_major c = sv_major h"

definition skew_level :: "semver \<Rightarrow> semver \<Rightarrow> string" where
  "skew_level c h =
     (if sv_major c \<noteq> sv_major h then ''major'' else if sv_minor c \<noteq> sv_minor h then ''minor'' else ''patch'')"

definition version_skew_verdict_of :: "string \<Rightarrow> string \<Rightarrow> skew_tolerance option \<Rightarrow> version_skew_verdict" where
  "version_skew_verdict_of pin host chosen =
     (let tolerance = or_else chosen Minor_version;
          verdict = (\<lambda>agree reason. \<lparr> vs_agree = agree, vs_client_pin = pin, vs_host_version = host,
                                       vs_tolerance = tolerance, vs_reason = reason \<rparr>)
      in case (parse_semver pin, parse_semver host) of
           (Some c, Some h) \<Rightarrow>
             if versions_agree tolerance c h
             then verdict True (''versions agree within the '' @ tolerance_name tolerance @ '' tolerance (client ''
                    @ pin @ '', host '' @ host @ '')'')
             else verdict False (''client pinned '' @ pin @ '' but the host is '' @ host @ '' '' @ em_dash
                    @ '' they disagree at the '' @ skew_level c h @ '' version (tolerance: ''
                    @ tolerance_name tolerance @ ''); upgrade the client or the host so their ''
                    @ tolerance_parts tolerance @ '' versions match'')
         | _ \<Rightarrow>
             if js_trim pin = js_trim host then verdict True (''versions match exactly ('' @ pin @ '')'')
             else verdict False (''client pinned '' @ pin @ '' but the host reports '' @ host
                    @ '', and neither is parseable semver '' @ em_dash
                    @ '' align the two exactly (upgrade the client or the host) so the relay can trust the host API shape''))"

section \<open>The gate\<close>

record relay_gate_result =
  rg_start :: bool
  rg_reason :: string
  rg_host_version :: "string option"
  rg_verdict :: "version_skew_verdict option"

definition relay_version_gate :: "string \<Rightarrow> string option \<Rightarrow> skew_tolerance option \<Rightarrow> relay_gate_result" where
  "relay_version_gate pin host tolerance =
     (case host of
        None \<Rightarrow>
          \<lparr> rg_start = True,
            rg_reason = ''host version unverified '' @ em_dash
              @ '' the host reported none (unreachable / no version field); ''
              @ ''the relay starts and the hub-down posture handles an unreachable host honestly'',
            rg_host_version = None, rg_verdict = None \<rparr>
      | Some v \<Rightarrow>
          (let verdict = version_skew_verdict_of pin v tolerance
           in \<lparr> rg_start = vs_agree verdict, rg_reason = vs_reason verdict, rg_host_version = Some v,
                rg_verdict = Some verdict \<rparr>))"

fun probed_version :: "http_outcome \<Rightarrow> string option" where
  "probed_version (Http_answer status (Body (JObj d))) =
     (if http_ok status
      then (case text_of d ''version'' of Some v \<Rightarrow> if js_trim v \<noteq> [] then Some v else None | None \<Rightarrow> None)
      else None)"
| "probed_version _ = None"

definition host_version_probe ::
  "string option \<Rightarrow> string option \<Rightarrow> http_outcome \<Rightarrow> string option \<times> http_request list" where
  "host_version_probe url auth outcome =
     (case truthy url of
        None \<Rightarrow> (None, [])
      | Some origin \<Rightarrow> (probed_version outcome, [(strip_slashes origin @ ''/global/health'', truthy auth)]))"

section \<open>Reading what is rendered\<close>

definition render_semver :: "semver \<Rightarrow> string" where
  "render_semver v =
     join_with ''.'' [string_of_nat (sv_major v), string_of_nat (sv_minor v), string_of_nat (sv_patch v)]"

lemma digit_ascii: "is_digit c \<Longrightarrow> 48 \<le> (of_char c :: nat) \<and> (of_char c :: nat) \<le> 57"
  by (auto simp: digit_value_def Let_def split: if_splits)

lemma digit_not [simp]:
  "is_digit c \<Longrightarrow> c \<noteq> CHR ''-''" "is_digit c \<Longrightarrow> c \<noteq> CHR ''+''" "is_digit c \<Longrightarrow> c \<noteq> CHR ''.''"
  "is_digit c \<Longrightarrow> c \<noteq> CHR ''v''" "is_digit c \<Longrightarrow> c \<noteq> CHR ''V''"
  "is_digit c \<Longrightarrow> c \<noteq> CHR ''e''" "is_digit c \<Longrightarrow> c \<noteq> CHR ''E''"
  "is_digit c \<Longrightarrow> \<not> js_space c"
  by (auto simp: digit_value_def js_space_def Let_def)

lemma digit_in_digit:
  assumes "is_digit c"
  shows "digit_in 10 c = (case digit_value c of None \<Rightarrow> 0 | Some d \<Rightarrow> d)" "digit_in 10 c < 10"
  using assms by (auto simp: digit_in_def digit_value_def Let_def split: if_splits)

lemma digits_in_digits:
  assumes "s \<noteq> []" and "\<And>c. c \<in> set s \<Longrightarrow> is_digit c"
  shows "digits_in 10 s = Some (nat_of_digits 0 s)"
proof -
  have "foldl (\<lambda>acc c. 10 * acc + digit_in 10 c) n t = nat_of_digits n t" if "\<And>c. c \<in> set t \<Longrightarrow> is_digit c" for n t
    using that by (induction t arbitrary: n) (simp_all add: digit_in_digit)
  moreover have "\<not> list_ex (\<lambda>c. 10 \<le> digit_in 10 c) s"
    using assms(2) digit_in_digit(2) by (fastforce simp: list_ex_iff)
  ultimately show ?thesis using assms by (simp add: digits_in_def)
qed

lemma js_natural_string_of_nat [simp]: "js_natural (string_of_nat n) = Some n"
proof -
  let ?s = "string_of_nat n"
  have d: "is_digit c" if "c \<in> set ?s" for c using string_of_nat_digits that by blast
  have trim: "js_trim ?s = ?s" by (rule js_trim_id) (use d in auto)
  have no_prefix: "\<not> starts_with ?s [c, x]" if "digit_value x = None" for c x
  proof
    assume "starts_with ?s [c, x]"
    then have "x \<in> set ?s" by (auto simp: starts_with_iff)
    with d [OF this] that show False by simp
  qed
  have plain: "\<not> starts_with ?s ''0x''" "\<not> starts_with ?s ''0X''" "\<not> starts_with ?s ''0o''"
    "\<not> starts_with ?s ''0O''" "\<not> starts_with ?s ''0b''" "\<not> starts_with ?s ''0B''"
    by (rule no_prefix, simp add: digit_value_def)+
  have all: "takeWhile (\<lambda>c. c \<noteq> CHR ''e'' \<and> c \<noteq> CHR ''E'') ?s = ?s"
    using d by (auto simp: takeWhile_eq_all_conv)
  show ?thesis
    using digits_in_digits [of ?s] d by (simp add: js_natural_def trim plain all Let_def)
qed

text \<open>A version as it is written in the wild: with or without a \<open>v\<close>, and with a suffix that opens with
  \<open>-\<close> or \<open>+\<close> and holds no white space.\<close>

definition written_version :: "string \<Rightarrow> semver \<Rightarrow> bool" where
  "written_version s v \<longleftrightarrow>
     (\<exists>pre suf. s = pre @ render_semver v @ suf \<and> pre \<in> {[], ''v'', ''V''} \<and> (\<forall>c \<in> set suf. \<not> js_space c) \<and>
        (suf = [] \<or> hd suf = CHR ''-'' \<or> hd suf = CHR ''+''))"

lemma render_chars: "c \<in> set (render_semver v) \<Longrightarrow> is_digit c \<or> c = CHR ''.''"
  using string_of_nat_digits by (auto simp: render_semver_def)

lemma render_head: "\<exists>c cs. render_semver v = c # cs \<and> is_digit c"
proof -
  obtain c cs where s: "string_of_nat (sv_major v) = c # cs" by (cases "string_of_nat (sv_major v)") auto
  then have "is_digit c" using string_of_nat_digits [of "sv_major v"] by simp
  with s show ?thesis by (simp add: render_semver_def)
qed

lemma core_of_written:
  assumes "written_version s v"
  shows "version_core s = render_semver v"
proof -
  obtain pre suf where s: "s = pre @ render_semver v @ suf" and pre: "pre \<in> {[], ''v'', ''V''}"
    and suf: "\<forall>c \<in> set suf. \<not> js_space c" "suf = [] \<or> hd suf = CHR ''-'' \<or> hd suf = CHR ''+''"
    using assms unfolding written_version_def by blast
  have plain: "\<not> js_space c" if "c \<in> set s" for c
  proof -
    from that consider "c \<in> set pre" | "c \<in> set (render_semver v)" | "c \<in> set suf" by (auto simp: s)
    then show ?thesis
    proof cases
      case 1
      with pre show ?thesis by (auto simp: js_space_def)
    next
      case 2
      from render_chars [OF this] show ?thesis
      proof
        assume "c = CHR ''.''"
        then show ?thesis by (simp add: js_space_def)
      qed (rule digit_not(8))
    next
      case 3
      with suf(1) show ?thesis by blast
    qed
  qed
  have trim: "js_trim s = s" by (rule js_trim_id) (rule plain)
  obtain c cs where r: "render_semver v = c # cs" "is_digit c" using render_head by blast
  have strip: "strip_v s = render_semver v @ suf" using pre r by (auto simp: s strip_v_def)
  have keep: "\<forall>c \<in> set (render_semver v). c \<noteq> CHR ''-'' \<and> c \<noteq> CHR ''+''"
  proof
    fix x assume "x \<in> set (render_semver v)"
    from render_chars [OF this] show "x \<noteq> CHR ''-'' \<and> x \<noteq> CHR ''+''"
      by (auto simp: digit_value_def)
  qed
  have "takeWhile (\<lambda>c. c \<noteq> CHR ''-'' \<and> c \<noteq> CHR ''+'') suf = []" using suf(2) by (cases suf) auto
  with keep show ?thesis by (simp add: version_core_def trim strip takeWhile_append2)
qed

lemma split_render: "split_on (CHR ''.'') (render_semver v) =
    [string_of_nat (sv_major v), string_of_nat (sv_minor v), string_of_nat (sv_patch v)]"
proof -
  have "CHR ''.'' \<notin> set (string_of_nat n)" for n
    using string_of_nat_digits [of n] digit_not(3) by blast
  then show ?thesis unfolding render_semver_def by (intro split_join) auto
qed

lemma parse_written:
  assumes "written_version s v"
  shows "parse_semver s = Some v"
  by (simp add: parse_semver_def core_of_written [OF assms] split_render numeral_3_eq_3 Let_def)

lemma verdict_agrees:
  "vs_agree (version_skew_verdict_of pin host tol) \<longleftrightarrow>
     (case (parse_semver pin, parse_semver host) of
        (Some c, Some h) \<Rightarrow> versions_agree (or_else tol Minor_version) c h
      | _ \<Rightarrow> js_trim pin = js_trim host)"
  by (auto simp: version_skew_verdict_of_def Let_def split: option.splits)

section \<open>Properties\<close>

text \<open>The verdict compares the numbers that are written, whatever prefix, suffix and spelling surround
  them: two written versions agree exactly when their components do at the chosen tolerance,
  \<open>minor\<close> where none is chosen. It does not depend on which side is the client, and a version
  always agrees with itself, also where it cannot be parsed.\<close>

theorem verdict_compares_the_numbers:
  assumes "written_version pin c" and "written_version host h"
  shows "(vs_agree (version_skew_verdict_of pin host tol) \<longleftrightarrow> versions_agree (or_else tol Minor_version) c h)
    \<and> (\<forall>a b. vs_agree (version_skew_verdict_of a b tol) \<longleftrightarrow> vs_agree (version_skew_verdict_of b a tol))
    \<and> (\<forall>a. vs_agree (version_skew_verdict_of a a tol))"
proof -
  have sym: "versions_agree t x y \<longleftrightarrow> versions_agree t y x" for t x y by (cases t) auto
  have refl: "versions_agree t x x" for t x by (cases t) auto
  show ?thesis
    using sym refl by (auto simp: verdict_agrees parse_written [OF assms(1)] parse_written [OF assms(2)] split: option.splits)
qed

text \<open>The relay is refused only for a definite skew. From a written client version the gate refuses
  exactly when the host was reached and answered, with success, an object whose version is a text
  that is not blank and disagrees: in its numbers where it can be parsed, and literally where it
  cannot. A host that is down, that answers something else or no version never stops the relay.\<close>

theorem relay_is_refused_only_for_a_skew:
  assumes "written_version pin c"
  shows "\<not> rg_start (relay_version_gate pin (fst (host_version_probe url auth outcome)) tol) \<longleftrightarrow>
    (\<exists>status d v. truthy url \<noteq> None \<and> outcome = Http_answer status (Body (JObj d)) \<and> http_ok status
       \<and> text_of d ''version'' = Some v \<and> js_trim v \<noteq> []
       \<and> (case parse_semver v of
            Some h \<Rightarrow> \<not> versions_agree (or_else tol Minor_version) c h
          | None \<Rightarrow> js_trim pin \<noteq> js_trim v))"
proof (cases "truthy url")
  case None
  then show ?thesis by (simp add: host_version_probe_def relay_version_gate_def)
next
  case (Some origin)
  then show ?thesis
    by (cases outcome rule: probed_version.cases)
      (auto simp: host_version_probe_def relay_version_gate_def verdict_agrees parse_written [OF assms] Let_def
        split: option.splits)
qed

text \<open>A blank component counts as zero, so a version that is no triple of integers can agree.\<close>

theorem blank_component_counts_as_zero:
  "parse_semver ''1.'' = Some \<lparr> sv_major = 1, sv_minor = 0, sv_patch = 0 \<rparr>
   \<and> vs_agree (version_skew_verdict_of ''1.'' ''1.0.7'' None)"
  by code_simp

definition demo_version :: semver where
  "demo_version = \<lparr> sv_major = 1, sv_minor = 18, sv_patch = 29 \<rparr>"

lemma demo_written: "written_version ''v1.18.29-rc'' demo_version" "written_version ''1.18.29'' demo_version"
proof -
  have r: "render_semver demo_version = ''1.18.29''" by code_simp
  have "''v1.18.29-rc'' = ''v'' @ render_semver demo_version @ ''-rc''" by (simp add: r)
  then show "written_version ''v1.18.29-rc'' demo_version"
    unfolding written_version_def by (intro exI [of _ "''v''"] exI [of _ "''-rc''"]) (simp add: js_space_def)
  have "''1.18.29'' = [] @ render_semver demo_version @ []" by (simp add: r)
  then show "written_version ''1.18.29'' demo_version"
    unfolding written_version_def by (intro exI [of _ "[]"]) simp
qed

theorem verdict_compares_the_numbers_witness:
  "vs_agree (version_skew_verdict_of ''v1.18.29-rc'' ''1.18.29'' (Some Exact_version))"
  using verdict_compares_the_numbers [OF demo_written, of "Some Exact_version", THEN conjunct1] by simp

theorem relay_is_refused_only_for_a_skew_witness:
  "\<not> rg_start (relay_version_gate ''v1.18.29-rc'' (fst (host_version_probe (Some ''u'') None
      (Http_answer 200 (Body (JObj [(''version'', JStr ''2.0.0'')]))))) None)"
proof -
  have "parse_semver ''2.0.0'' = Some \<lparr> sv_major = 2, sv_minor = 0, sv_patch = 0 \<rparr>" "js_trim ''2.0.0'' \<noteq> []"
      "text_of [(''version'', JStr ''2.0.0'')] ''version'' = Some ''2.0.0''"
    by code_simp+
  then show ?thesis
    unfolding relay_is_refused_only_for_a_skew [OF demo_written(1)]
    by (intro exI [of _ 200] exI [of _ "[(''version'', JStr ''2.0.0'')]"] exI [of _ "''2.0.0''"])
      (simp add: http_ok_def demo_version_def)
qed

end
