(* ===== verification/Fleet_Roster.thy ===== *)
theory Fleet_Roster
  imports Fleet_Projection
begin

text \<open>
  The fleet roster (\<open>packages/schema/src/fleet_roster.ts\<close>): device classification, the row parser,
  the document and its single-writer upsert, and the detection of identity conflicts; its routes
  (\<open>packages/extension/src/amicode_service/roster.ts\<close>) and the loopback guard they share with the
  other mutations (\<open>bind_host.ts\<close>). The row itself and its placement descriptor are in
  \<open>Access_Boundary\<close>. A file is what parsing it gives, \<open>None\<close> when absent or unparsable; that a
  write succeeds is an argument. Regular expressions and letter case are those of ASCII text.
\<close>

section \<open>Device identity\<close>

definition ROSTER_SCHEMA_VERSION :: int where "ROSTER_SCHEMA_VERSION = 1"

definition KNOWN_CAPABILITY_TAGS :: "string list" where
  "KNOWN_CAPABILITY_TAGS = [''compute'', ''roaming'', ''serving'']"

definition is_known_capability :: "string \<Rightarrow> bool" where
  "is_known_capability tag \<longleftrightarrow> tag \<in> set KNOWN_CAPABILITY_TAGS"

datatype device_type = Device_server | Device_desktop | Device_laptop

text \<open>A literal found anywhere in a text.\<close>

fun has_text :: "string \<Rightarrow> string \<Rightarrow> bool" where
  "has_text pat [] \<longleftrightarrow> pat = []"
| "has_text pat (c # cs) \<longleftrightarrow> starts_with (c # cs) pat \<or> has_text pat cs"

definition classify_mac_model :: "string \<Rightarrow> device_type option" where
  "classify_mac_model model_name =
     (let model = to_lower (js_trim model_name)
      in if model = [] then None
         else if has_text ''macbook'' model then Some Device_laptop
         else if list_ex (\<lambda>p. has_text p model) [''mac studio'', ''imac'', ''mac mini'', ''mac pro'']
              then Some Device_desktop
         else None)"

definition classify_linux_chassis :: "string \<Rightarrow> device_type option" where
  "classify_linux_chassis chassis =
     (let c = to_lower (js_trim chassis)
      in if c \<in> set [''laptop'', ''notebook'', ''portable''] then Some Device_laptop
         else if c \<in> set [''desktop'', ''tower''] then Some Device_desktop
         else if c \<in> set [''server'', ''rack''] then Some Device_server
         else None)"

definition label_char :: "char \<Rightarrow> bool" where
  "label_char c \<longleftrightarrow>
     (let n = of_char c :: nat
      in 65 \<le> n \<and> n \<le> 90 \<or> 97 \<le> n \<and> n \<le> 122 \<or> 48 \<le> n \<and> n \<le> 57 \<or> c = CHR ''-'')"

text \<open>\<open>^[A-Za-z0-9-]+(\.[A-Za-z0-9-]+)*$\<close>\<close>

definition dns_suffix :: "string \<Rightarrow> bool" where
  "dns_suffix s \<longleftrightarrow> list_all (\<lambda>l. l \<noteq> [] \<and> list_all label_char l) (split_on (CHR ''.'') s)"

definition normalize_device_name :: "string \<Rightarrow> string" where
  "normalize_device_name s =
     (if list_ex js_space s then s
      else let head = takeWhile (\<lambda>c. c \<noteq> CHR ''.'') s
           in if head = s then s
              else if head \<noteq> [] \<and> dns_suffix (drop (Suc (length head)) s) then head
              else s)"

definition is_wsl_kernel :: "string \<Rightarrow> bool" where
  "is_wsl_kernel proc_version \<longleftrightarrow>
     has_text ''microsoft'' (to_lower proc_version) \<or> has_text ''wsl2'' (to_lower proc_version)"

section \<open>Parsing a row\<close>

fun health_name :: "roster_health \<Rightarrow> string" where
  "health_name Health_reachable = ''reachable''"
| "health_name Health_degraded = ''degraded''"
| "health_name Health_down = ''down''"

definition HEALTH_VOCABULARY :: "roster_health list" where
  "HEALTH_VOCABULARY = [Health_reachable, Health_degraded, Health_down]"

fun identity_state_name :: "identity_state \<Rightarrow> string" where
  "identity_state_name Identity_verified = ''verified''"
| "identity_state_name Alias_conflict = ''alias-conflict''"
| "identity_state_name Key_changed = ''key-changed''"
| "identity_state_name Stale_alias = ''stale-alias''"

definition IDENTITY_STATE_VOCABULARY :: "identity_state list" where
  "IDENTITY_STATE_VOCABULARY = [Identity_verified, Alias_conflict, Key_changed, Stale_alias]"

text \<open>A name of a closed vocabulary, and nothing else.\<close>

definition of_vocabulary :: "('a \<Rightarrow> string) \<Rightarrow> 'a list \<Rightarrow> json \<Rightarrow> 'a option" where
  "of_vocabulary name vocabulary v =
     (case v of JStr s \<Rightarrow> find (\<lambda>x. name x = s) vocabulary | _ \<Rightarrow> None)"

definition json_field :: "keyed_doc \<Rightarrow> string \<Rightarrow> json" where
  "json_field d k = or_else (map_of d k) JUndefined"

definition describe :: "json \<Rightarrow> string" where
  "describe v = (case v of JArr vs \<Rightarrow> ''array'' | JUndefined \<Rightarrow> ''undefined'' | _ \<Rightarrow> render v)"

definition quoted_key :: "string \<Rightarrow> string" where
  "quoted_key k = ''roster row: '' @ [CHR 0x22] @ k @ [CHR 0x22]"

fun text_list :: "json \<Rightarrow> string list option" where
  "text_list (JArr vs) =
     (if list_all (\<lambda>v. case v of JStr s \<Rightarrow> True | _ \<Rightarrow> False) vs
      then Some (map (\<lambda>v. case v of JStr s \<Rightarrow> s | _ \<Rightarrow> []) vs) else None)"
| "text_list _ = None"

definition required_texts :: "string list" where
  "required_texts = [''machine_id'', ''name'', ''server_mode'', ''sshAlias'', ''transport'', ''last_report'']"

text \<open>An optional text: absent, or a text.\<close>

definition optional_text_ok :: "keyed_doc \<Rightarrow> string \<Rightarrow> bool" where
  "optional_text_ok d k \<longleftrightarrow> json_field d k = JUndefined \<or> text_of d k \<noteq> None"

text \<open>The checks in the code's order; the first that fails names the error.\<close>

definition row_error :: "keyed_doc \<Rightarrow> string option" where
  "row_error d =
     (case find (\<lambda>k. text_of d k = None) required_texts of
        Some k \<Rightarrow> Some (quoted_key k @ '' must be a string'')
      | None \<Rightarrow>
          if js_trim (or_else (text_of d ''machine_id'') []) = []
          then Some (quoted_key ''machine_id'' @ '' must be a non-empty string (the single-writer key)'')
          else if text_list (json_field d ''capabilities'') = None
          then Some (quoted_key ''capabilities'' @ '' must be an array of strings'')
          else if of_vocabulary health_name HEALTH_VOCABULARY (json_field d ''health'') = None
          then Some (quoted_key ''health'' @ '' must be one of ''
                 @ join_with '', '' (map health_name HEALTH_VOCABULARY)
                 @ '' (got '' @ describe (json_field d ''health'') @ '')'')
          else if \<not> optional_text_ok d ''device_type''
          then Some (quoted_key ''device_type'' @ '' must be a string when present (got ''
                 @ describe (json_field d ''device_type'') @ '')'')
          else if \<not> optional_text_ok d ''peer_origin''
          then Some (quoted_key ''peer_origin'' @ '' must be a string when present (got ''
                 @ describe (json_field d ''peer_origin'') @ '')'')
          else if \<not> optional_text_ok d ''identity_key''
          then Some (quoted_key ''identity_key'' @ '' must be a string when present (got ''
                 @ describe (json_field d ''identity_key'') @ '')'')
          else if text_of d ''identity_key'' \<noteq> None \<and> js_trim (the (text_of d ''identity_key'')) = []
          then Some (quoted_key ''identity_key'' @ '' must be a non-empty string when present'')
          else if json_field d ''identity_state'' \<noteq> JUndefined
               \<and> of_vocabulary identity_state_name IDENTITY_STATE_VOCABULARY (json_field d ''identity_state'') = None
          then Some (quoted_key ''identity_state'' @ '' must be one of ''
                 @ join_with '', '' (map identity_state_name IDENTITY_STATE_VOCABULARY)
                 @ '' when present (got '' @ describe (json_field d ''identity_state'') @ '')'')
          else None)"

definition row_of_fields :: "keyed_doc \<Rightarrow> roster_row" where
  "row_of_fields d =
     \<lparr> rr_machine_id = or_else (text_of d ''machine_id'') [],
       rr_name = or_else (text_of d ''name'') [],
       rr_server_mode = or_else (text_of d ''server_mode'') [],
       rr_capabilities = or_else (text_list (json_field d ''capabilities'')) [],
       rr_ssh_alias = or_else (text_of d ''sshAlias'') [],
       rr_transport = or_else (text_of d ''transport'') [],
       rr_last_report = or_else (text_of d ''last_report'') [],
       rr_health = or_else (of_vocabulary health_name HEALTH_VOCABULARY (json_field d ''health'')) Health_down,
       rr_device_type = text_of d ''device_type'',
       rr_peer_origin = text_of d ''peer_origin'',
       rr_identity_key = text_of d ''identity_key'',
       rr_identity_state =
         of_vocabulary identity_state_name IDENTITY_STATE_VOCABULARY (json_field d ''identity_state'') \<rparr>"

fun parse_roster_row :: "json \<Rightarrow> string + roster_row" where
  "parse_roster_row (JObj d) =
     (case row_error d of Some e \<Rightarrow> Inl e | None \<Rightarrow> Inr (row_of_fields d))"
| "parse_roster_row v = Inl (''roster row is not a JSON object: '' @ describe v)"

section \<open>The document\<close>

record roster_document =
  rd_schema_version :: int
  rd_rows :: "roster_row list"

definition empty_roster :: roster_document where
  "empty_roster = \<lparr> rd_schema_version = ROSTER_SCHEMA_VERSION, rd_rows = [] \<rparr>"

text \<open>The rows in order; the first bad one, with its index, rejects the document.\<close>

fun parse_rows :: "nat \<Rightarrow> json list \<Rightarrow> string + roster_row list" where
  "parse_rows i [] = Inr []"
| "parse_rows i (v # vs) =
     (case parse_roster_row v of
        Inl e \<Rightarrow> Inl (''roster document: rows['' @ string_of_nat i @ ''] '' @ em_dash @ '' '' @ e)
      | Inr r \<Rightarrow> (case parse_rows (Suc i) vs of Inl e \<Rightarrow> Inl e | Inr rs \<Rightarrow> Inr (r # rs)))"

fun parse_roster_document :: "json \<Rightarrow> string + roster_document" where
  "parse_roster_document (JObj d) =
     (case num_of d ''schema_version'' of
        None \<Rightarrow> Inl (''roster document: '' @ [CHR 0x22] @ ''schema_version'' @ [CHR 0x22] @ '' must be a number'')
      | Some version \<Rightarrow>
          (case json_field d ''rows'' of
             JArr vs \<Rightarrow>
               (case parse_rows 0 vs of
                  Inl e \<Rightarrow> Inl e
                | Inr rows \<Rightarrow> Inr \<lparr> rd_schema_version = version, rd_rows = rows \<rparr>)
           | _ \<Rightarrow> Inl (''roster document: '' @ [CHR 0x22] @ ''rows'' @ [CHR 0x22] @ '' must be an array'')))"
| "parse_roster_document v = Inl (''roster document is not a JSON object: '' @ describe v)"

definition upsert_roster_row :: "roster_document \<Rightarrow> roster_row \<Rightarrow> roster_document" where
  "upsert_roster_row doc row =
     (let replaced = list_ex (\<lambda>r. rr_machine_id r = rr_machine_id row) (rd_rows doc);
          rows = map (\<lambda>r. if rr_machine_id r = rr_machine_id row then row else r) (rd_rows doc)
      in doc\<lparr>rd_rows := if replaced then rows else rows @ [row]\<rparr>)"

definition roster_file_path :: "string option \<Rightarrow> string option \<Rightarrow> string \<Rightarrow> string" where
  "roster_file_path injected env home =
     (case truthy injected of
        Some p \<Rightarrow> p
      | None \<Rightarrow>
          (case env of
             Some v \<Rightarrow> if js_trim v \<noteq> [] then v else home @ ''/.amico/ops/fleet/roster.json''
           | None \<Rightarrow> home @ ''/.amico/ops/fleet/roster.json''))"

section \<open>Identity conflicts\<close>

datatype conflict_kind = Kind_alias_conflict | Kind_key_changed

record identity_conflict =
  ic_kind :: conflict_kind
  ic_machine_id :: string
  ic_detail :: string

definition row_key :: "roster_row \<Rightarrow> string option" where
  "row_key r = truthy (rr_identity_key r)"

definition claim_alias ::
  "(string \<times> string list \<times> string list) list \<Rightarrow> roster_row \<Rightarrow> (string \<times> string list \<times> string list) list" where
  "claim_alias held r =
     (case row_key r of
        None \<Rightarrow> held
      | Some k \<Rightarrow>
          (let (keys, machines) = or_else (obj_get held (rr_ssh_alias r)) ([], [])
           in obj_set held (rr_ssh_alias r) (set_add k keys, machines @ [rr_machine_id r])))"

definition alias_conflicts :: "roster_row list \<Rightarrow> identity_conflict list" where
  "alias_conflicts rows =
     concat (map (\<lambda>(al, keys, machines).
         if 1 < length keys
         then map (\<lambda>m. \<lparr> ic_kind = Kind_alias_conflict, ic_machine_id = m,
                ic_detail = ''sshAlias '' @ [CHR 0x22] @ al @ [CHR 0x22] @ '' is claimed by ''
                  @ string_of_nat (length keys) @ '' different identities'' \<rparr>) machines
         else [])
       (foldl claim_alias [] rows))"

definition previous_keys :: "roster_row list \<Rightarrow> (string \<times> string) list" where
  "previous_keys rows =
     foldl (\<lambda>m r. case row_key r of None \<Rightarrow> m | Some k \<Rightarrow> obj_set m (rr_machine_id r) k) [] rows"

definition key_changes :: "roster_row list \<Rightarrow> roster_row list \<Rightarrow> identity_conflict list" where
  "key_changes previous rows =
     List.map_filter (\<lambda>r. case (row_key r, truthy (obj_get (previous_keys previous) (rr_machine_id r))) of
         (Some k, Some k0) \<Rightarrow>
           if k0 \<noteq> k
           then Some \<lparr> ic_kind = Kind_key_changed, ic_machine_id = rr_machine_id r,
                   ic_detail = ''machine '' @ [CHR 0x22] @ rr_machine_id r @ [CHR 0x22]
                     @ '' changed identity_key'' \<rparr>
           else None
       | _ \<Rightarrow> None) rows"

definition detect_identity_conflicts :: "roster_document \<Rightarrow> roster_document option \<Rightarrow> identity_conflict list" where
  "detect_identity_conflicts current previous =
     alias_conflicts (rd_rows current) @
     (case previous of None \<Rightarrow> [] | Some p \<Rightarrow> key_changes (rd_rows p) (rd_rows current))"

section \<open>The loopback guard\<close>

definition loopback_octet :: "string \<Rightarrow> bool" where
  "loopback_octet s \<longleftrightarrow> 1 \<le> length s \<and> length s \<le> 3 \<and> list_all is_digit s"

definition is_loopback_hostname :: "string option \<Rightarrow> bool" where
  "is_loopback_hostname hostname =
     (case hostname of
        None \<Rightarrow> True
      | Some h \<Rightarrow>
          (let host = to_lower h
           in if host = ''localhost'' \<or> host = ''::1'' then True
              else if (case split_on (CHR ''.'') host of
                         [a, b, c, d] \<Rightarrow> a = ''127'' \<and> loopback_octet b \<and> loopback_octet c \<and> loopback_octet d
                       | _ \<Rightarrow> False) then True
              else starts_with host ''::ffff:127.''))"

section \<open>The routes\<close>

definition MAX_ROSTER_BODY :: int where "MAX_ROSTER_BODY = 65536"

definition load_roster :: "keyed_file \<Rightarrow> roster_document" where
  "load_roster f =
     (case f of
        None \<Rightarrow> empty_roster
      | Some v \<Rightarrow> (case parse_roster_document v of Inl e \<Rightarrow> empty_roster | Inr doc \<Rightarrow> doc))"

definition read_roster_rows :: "keyed_file \<Rightarrow> roster_row list" where
  "read_roster_rows f = rd_rows (load_roster f)"

text \<open>What \<open>JSON.stringify\<close> writes of a row, read back.\<close>

definition optional_text_field :: "string \<Rightarrow> string option \<Rightarrow> keyed_doc" where
  "optional_text_field k v = (case v of None \<Rightarrow> [] | Some s \<Rightarrow> [(k, JStr s)])"

definition roster_fields :: "roster_row \<Rightarrow> keyed_doc" where
  "roster_fields r =
     [(''machine_id'', JStr (rr_machine_id r)), (''name'', JStr (rr_name r)),
       (''server_mode'', JStr (rr_server_mode r)), (''capabilities'', JArr (map JStr (rr_capabilities r))),
       (''sshAlias'', JStr (rr_ssh_alias r)), (''transport'', JStr (rr_transport r)),
       (''last_report'', JStr (rr_last_report r)), (''health'', JStr (health_name (rr_health r)))]
      @ optional_text_field ''device_type'' (rr_device_type r)
      @ optional_text_field ''peer_origin'' (rr_peer_origin r)
      @ optional_text_field ''identity_key'' (rr_identity_key r)
      @ optional_text_field ''identity_state'' (map_option identity_state_name (rr_identity_state r))"

definition row_json :: "roster_row \<Rightarrow> json" where
  "row_json r = JObj (roster_fields r)"

definition roster_json :: "roster_document \<Rightarrow> json" where
  "roster_json doc = JObj
     [(''schema_version'', JNum (rd_schema_version doc)), (''rows'', JArr (map row_json (rd_rows doc)))]"

definition roster_read_response :: "keyed_file \<Rightarrow> json" where
  "roster_read_response f =
     (let doc = load_roster f
      in JObj [(''ok'', JBool True), (''schema_version'', JNum (rd_schema_version doc)),
               (''rows'', JArr (map row_json (rd_rows doc))), (''error'', JNull)])"

datatype roster_reply =
    Report_refused string string
  | Report_stored string

fun conflict_state :: "conflict_kind \<Rightarrow> identity_state" where
  "conflict_state Kind_alias_conflict = Alias_conflict"
| "conflict_state Kind_key_changed = Key_changed"

definition stamp_conflicts :: "identity_conflict list \<Rightarrow> roster_document \<Rightarrow> roster_document" where
  "stamp_conflicts conflicts doc =
     (let states = foldl (\<lambda>m c. obj_set m (ic_machine_id c) (conflict_state (ic_kind c))) [] conflicts
      in doc\<lparr>rd_rows := map (\<lambda>r. case obj_get states (rr_machine_id r) of
             Some s \<Rightarrow> r\<lparr>rr_identity_state := Some s\<rparr> | None \<Rightarrow> r) (rd_rows doc)\<rparr>)"

text \<open>A posted body, with its length: \<open>None\<close> where it is not JSON.\<close>

definition roster_report_response ::
  "string option \<Rightarrow> bool \<Rightarrow> nat \<times> json option \<Rightarrow> keyed_file \<Rightarrow> roster_reply \<times> keyed_file" where
  "roster_report_response bind_host write_ok body f =
     (if \<not> is_loopback_hostname bind_host
      then (Report_refused ''non_loopback'' ''roster self-report serves loopback binds only'', f)
      else if MAX_ROSTER_BODY < int (fst body) then (Report_refused ''bad_request'' ''body too large'', f)
      else (case snd body of
              None \<Rightarrow> (Report_refused ''bad_request'' ''body must be a JSON roster row'', f)
            | Some v \<Rightarrow>
                (case parse_roster_row v of
                   Inl e \<Rightarrow> (Report_refused ''bad_request'' ''body is not a well-formed roster row'', f)
                 | Inr row \<Rightarrow>
                     (let existing = load_roster f;
                          registered = Option.bind
                            (find (\<lambda>r. rr_machine_id r = rr_machine_id row) (rd_rows existing)) row_key
                      in if registered \<noteq> None \<and> row_key row \<noteq> None \<and> registered \<noteq> row_key row
                         then (Report_refused ''key_changed''
                                 (''identity_key changed for an already-registered machine_id ''
                                  @ em_dash @ '' explicit re-admit required''), f)
                         else
                           (let next = upsert_roster_row existing row;
                                stamped = stamp_conflicts (detect_identity_conflicts next (Some existing)) next
                            in if write_ok
                               then (Report_stored (rr_machine_id row),
                                     Some (roster_json (stamped\<lparr>rd_schema_version := ROSTER_SCHEMA_VERSION\<rparr>)))
                               else (Report_refused ''write_failed''
                                       ''the roster self-report could not be persisted'', f))))))"

record boot_report_input =
  bi_machine_id :: string
  bi_name :: string
  bi_server_mode :: string
  bi_ssh_alias :: string
  bi_transport :: string
  bi_engine_armed :: bool
  bi_device_type :: "string option"

definition build_boot_self_report_row :: "string \<Rightarrow> boot_report_input \<Rightarrow> roster_row" where
  "build_boot_self_report_row now input =
     \<lparr> rr_machine_id = bi_machine_id input, rr_name = bi_name input,
       rr_server_mode = bi_server_mode input,
       rr_capabilities = (if bi_engine_armed input then [''serving''] else []),
       rr_ssh_alias = bi_ssh_alias input, rr_transport = bi_transport input, rr_last_report = now,
       rr_health = Health_reachable, rr_device_type = bi_device_type input, rr_peer_origin = None,
       rr_identity_key = None, rr_identity_state = None \<rparr>"

end
