(* ===== verification/Roster_Properties.thy ===== *)
theory Roster_Properties
  imports Fleet_Roster
begin

text \<open>
  Properties of the fleet roster: a stored document reads back as written, a self-report touches
  the rows it may touch, a key that is registered is not replaced by another, and an alias claimed
  under two keys serves nobody.
\<close>

section \<open>Reading a stored row\<close>

definition lawful_row :: "roster_row \<Rightarrow> bool" where
  "lawful_row r \<longleftrightarrow> js_trim (rr_machine_id r) \<noteq> [] \<and>
     (case rr_identity_key r of None \<Rightarrow> True | Some k \<Rightarrow> js_trim k \<noteq> [])"

lemma of_vocabulary_health [simp]: "of_vocabulary health_name HEALTH_VOCABULARY (JStr (health_name h)) = Some h"
  by (cases h) (simp_all add: of_vocabulary_def HEALTH_VOCABULARY_def)

lemma of_vocabulary_state [simp]:
  "of_vocabulary identity_state_name IDENTITY_STATE_VOCABULARY (JStr (identity_state_name s)) = Some s"
  by (cases s) (simp_all add: of_vocabulary_def IDENTITY_STATE_VOCABULARY_def)

lemma of_vocabulary_undefined [simp]: "of_vocabulary nm vs JUndefined = None"
  by (simp add: of_vocabulary_def)

lemma text_list_map [simp]: "text_list (JArr (map JStr xs)) = Some xs"
  by (simp add: list_all_iff comp_def)

declare text_list.simps [simp del]

lemma text_of_roster_fields [simp]:
  "text_of (roster_fields r) ''machine_id'' = Some (rr_machine_id r)"
  "text_of (roster_fields r) ''name'' = Some (rr_name r)"
  "text_of (roster_fields r) ''server_mode'' = Some (rr_server_mode r)"
  "text_of (roster_fields r) ''sshAlias'' = Some (rr_ssh_alias r)"
  "text_of (roster_fields r) ''transport'' = Some (rr_transport r)"
  "text_of (roster_fields r) ''last_report'' = Some (rr_last_report r)"
  by (simp_all add: text_of_def roster_fields_def)

lemma text_of_optional_fields [simp]:
  "text_of (roster_fields r) ''device_type'' = rr_device_type r"
  "text_of (roster_fields r) ''peer_origin'' = rr_peer_origin r"
  "text_of (roster_fields r) ''identity_key'' = rr_identity_key r"
  by (cases "rr_device_type r"; cases "rr_peer_origin r"; cases "rr_identity_key r";
      cases "rr_identity_state r"; simp add: text_of_def roster_fields_def optional_text_field_def)+

lemma json_field_roster_fields [simp]:
  "json_field (roster_fields r) ''capabilities'' = JArr (map JStr (rr_capabilities r))"
  "json_field (roster_fields r) ''health'' = JStr (health_name (rr_health r))"
  by (simp_all add: json_field_def roster_fields_def)

lemma json_field_optional_fields [simp]:
  "json_field (roster_fields r) ''device_type'' = (case rr_device_type r of None \<Rightarrow> JUndefined | Some s \<Rightarrow> JStr s)"
  "json_field (roster_fields r) ''peer_origin'' = (case rr_peer_origin r of None \<Rightarrow> JUndefined | Some s \<Rightarrow> JStr s)"
  "json_field (roster_fields r) ''identity_key'' = (case rr_identity_key r of None \<Rightarrow> JUndefined | Some s \<Rightarrow> JStr s)"
  "json_field (roster_fields r) ''identity_state'' =
     (case rr_identity_state r of None \<Rightarrow> JUndefined | Some s \<Rightarrow> JStr (identity_state_name s))"
  by (cases "rr_device_type r"; cases "rr_peer_origin r"; cases "rr_identity_key r";
      cases "rr_identity_state r"; simp add: json_field_def roster_fields_def optional_text_field_def)+

lemma row_of_roster_fields: "row_of_fields (roster_fields r) = r"
  by (cases "rr_identity_state r") (simp_all add: row_of_fields_def)

lemma optional_text_ok_fields [simp]:
  "optional_text_ok (roster_fields r) ''device_type''"
  "optional_text_ok (roster_fields r) ''peer_origin''"
  "optional_text_ok (roster_fields r) ''identity_key''"
  by (simp_all add: optional_text_ok_def split: option.split)

lemma row_error_roster_fields: "row_error (roster_fields r) = None \<longleftrightarrow> lawful_row r"
  by (cases "rr_identity_state r")
    (auto simp: row_error_def lawful_row_def required_texts_def split: option.split)

lemma parse_row_json: "lawful_row r \<Longrightarrow> parse_roster_row (row_json r) = Inr r"
  by (simp add: row_json_def row_error_roster_fields [THEN iffD2] row_of_roster_fields)

lemma parsed_row_lawful:
  assumes "parse_roster_row v = Inr r"
  shows "lawful_row r"
proof -
  from assms obtain d where d: "row_error d = None" "r = row_of_fields d"
    by (cases v) (auto split: option.splits)
  then have "js_trim (or_else (text_of d ''machine_id'') []) \<noteq> []"
      "\<not> (text_of d ''identity_key'' \<noteq> None \<and> js_trim (the (text_of d ''identity_key'')) = [])"
    unfolding row_error_def by (auto split: option.splits if_splits)
  with d(2) show ?thesis by (auto simp: lawful_row_def row_of_fields_def split: option.split)
qed

section \<open>Reading a stored document\<close>

lemma parse_rows_json: "list_all lawful_row rows \<Longrightarrow> parse_rows i (map row_json rows) = Inr rows"
  by (induction rows arbitrary: i) (simp_all add: parse_row_json)

lemma parse_rows_lawful: "parse_rows i vs = Inr rows \<Longrightarrow> list_all lawful_row rows"
  by (induction vs arbitrary: i rows) (auto simp: parsed_row_lawful split: sum.splits)

lemma parse_roster_json: "list_all lawful_row (rd_rows doc) \<Longrightarrow> parse_roster_document (roster_json doc) = Inr doc"
  by (simp add: roster_json_def num_of_def json_field_def parse_rows_json)

lemma parsed_document_lawful: "parse_roster_document v = Inr doc \<Longrightarrow> list_all lawful_row (rd_rows doc)"
  by (cases v) (auto dest: parse_rows_lawful split: option.splits json.splits sum.splits)

lemma load_roster_lawful: "list_all lawful_row (rd_rows (load_roster f))"
  by (auto simp: load_roster_def empty_roster_def dest: parsed_document_lawful split: option.split sum.split)

lemma load_stored_roster:
  "list_all lawful_row (rd_rows doc) \<Longrightarrow> load_roster (Some (roster_json doc)) = doc"
  by (simp add: load_roster_def parse_roster_json)

text \<open>C33: The roster reads back as it was written. A row parses from its stored form exactly when its
  machine id, and its identity key where it has one, are not blank, and is then the row itself;
  whatever is in the file, the rows loaded from it are such rows, and storing what was loaded and
  loading it again gives the same document.\<close>

theorem roster_reads_back:
  "(parse_roster_row (row_json r) = Inr r \<longleftrightarrow> lawful_row r)
   \<and> ((\<exists>r'. parse_roster_row (row_json r) = Inr r') \<longleftrightarrow> lawful_row r)
   \<and> list_all lawful_row (read_roster_rows f)
   \<and> load_roster (Some (roster_json (load_roster f))) = load_roster f"
proof (intro conjI)
  show "parse_roster_row (row_json r) = Inr r \<longleftrightarrow> lawful_row r"
    using parse_row_json parsed_row_lawful by blast
  show "(\<exists>r'. parse_roster_row (row_json r) = Inr r') \<longleftrightarrow> lawful_row r"
  proof
    assume "\<exists>r'. parse_roster_row (row_json r) = Inr r'"
    then have "row_error (roster_fields r) = None" by (auto simp: row_json_def split: option.splits)
    then show "lawful_row r" by (simp add: row_error_roster_fields)
  qed (auto dest: parse_row_json)
  show "list_all lawful_row (read_roster_rows f)" by (simp add: read_roster_rows_def load_roster_lawful)
  show "load_roster (Some (roster_json (load_roster f))) = load_roster f"
    by (intro load_stored_roster load_roster_lawful)
qed

section \<open>Conflicts\<close>

text \<open>Another row with a key claims the alias under another key.\<close>

definition contested :: "roster_row list \<Rightarrow> roster_row \<Rightarrow> bool" where
  "contested rows r \<longleftrightarrow> row_key r \<noteq> None \<and>
     list_ex (\<lambda>r'. rr_ssh_alias r' = rr_ssh_alias r \<and> row_key r' \<noteq> None \<and> row_key r' \<noteq> row_key r) rows"

definition alias_rows :: "roster_row list \<Rightarrow> string \<Rightarrow> roster_row list" where
  "alias_rows rows al = filter (\<lambda>r. rr_ssh_alias r = al \<and> row_key r \<noteq> None) rows"

text \<open>What the pass over the rows has collected: under every alias its keys, without repetition, and
  its machines.\<close>

fun gathered :: "roster_row list \<Rightarrow> (string list \<times> string list) option \<Rightarrow> bool" where
  "gathered rs None \<longleftrightarrow> rs = []"
| "gathered rs (Some (keys, machines)) \<longleftrightarrow> rs \<noteq> [] \<and> distinct keys
     \<and> set keys = {k. \<exists>r \<in> set rs. row_key r = Some k} \<and> machines = map rr_machine_id rs"

definition collected :: "roster_row list \<Rightarrow> (string \<times> string list \<times> string list) list \<Rightarrow> bool" where
  "collected rows held \<longleftrightarrow> obj_wf held \<and> (\<forall>al. gathered (alias_rows rows al) (obj_get held al))"

lemma distinct_set_add_iff [simp]: "distinct (set_add x xs) \<longleftrightarrow> distinct xs"
  by (simp add: set_add_def)

lemma gathered_claim:
  assumes "gathered rs opt" and "row_key r = Some k" and "or_else opt ([], []) = (keys, machines)"
  shows "gathered (rs @ [r]) (Some (set_add k keys, machines @ [rr_machine_id r]))"
  using assms by (cases "(rs, opt)" rule: gathered.cases) auto

lemma collected_step:
  assumes "collected rows held"
  shows "collected (rows @ [r]) (claim_alias held r)"
proof (cases "row_key r")
  case None
  then have "alias_rows (rows @ [r]) al = alias_rows rows al" for al by (simp add: alias_rows_def)
  with assms None show ?thesis by (simp add: collected_def claim_alias_def)
next
  case (Some k)
  obtain keys machines where km: "or_else (obj_get held (rr_ssh_alias r)) ([], []) = (keys, machines)"
    by (cases "or_else (obj_get held (rr_ssh_alias r)) ([], [])")
  have same: "alias_rows (rows @ [r]) (rr_ssh_alias r) = alias_rows rows (rr_ssh_alias r) @ [r]"
    and other: "al \<noteq> rr_ssh_alias r \<Longrightarrow> alias_rows (rows @ [r]) al = alias_rows rows al" for al
    using Some by (auto simp: alias_rows_def)
  have claimed: "claim_alias held r = obj_set held (rr_ssh_alias r) (set_add k keys, machines @ [rr_machine_id r])"
    by (simp add: claim_alias_def Some km)
  have "gathered (alias_rows (rows @ [r]) al) (obj_get (claim_alias held r) al)" for al
  proof (cases "al = rr_ssh_alias r")
    case True
    have "gathered (alias_rows rows (rr_ssh_alias r)) (obj_get held (rr_ssh_alias r))"
      using assms by (simp add: collected_def)
    from gathered_claim [OF this Some km] show ?thesis by (simp add: True claimed same)
  next
    case False
    with assms show ?thesis unfolding collected_def claimed other [OF False] by (simp add: False)
  qed
  moreover have "obj_wf (claim_alias held r)" using assms by (auto simp: claimed collected_def)
  ultimately show ?thesis by (simp add: collected_def)
qed

lemma collected_all: "collected rows (foldl claim_alias [] rows)"
proof (induction rows rule: rev_induct)
  case Nil
  then show ?case by (simp add: collected_def alias_rows_def)
next
  case (snoc r rows)
  then show ?case by (simp add: collected_step)
qed

lemma two_keys: "distinct keys \<Longrightarrow> k \<in> set keys \<Longrightarrow> 1 < length keys \<longleftrightarrow> (\<exists>k' \<in> set keys. k' \<noteq> k)"
  by (cases keys; cases "tl keys") auto

lemma in_alias_rows: "r \<in> set (alias_rows rows al) \<longleftrightarrow> r \<in> set rows \<and> rr_ssh_alias r = al \<and> row_key r \<noteq> None"
  by (auto simp: alias_rows_def)

lemma obj_get_mem: "obj_wf m \<Longrightarrow> (k, v) \<in> set m \<longleftrightarrow> obj_get m k = Some v"
  by (simp add: obj_wf_def)

lemma conflict_of_claims:
  "list_ex P (concat (map (\<lambda>(al, keys, machines). if 1 < length keys then map (f al keys) machines else []) held))
     \<longleftrightarrow> list_ex (\<lambda>(al, keys, machines). 1 < length keys \<and> list_ex (\<lambda>m. P (f al keys m)) machines) held"
proof (induction held)
  case (Cons h held)
  obtain al keys machines where "h = (al, keys, machines)" by (cases h)
  with Cons show ?case by (simp add: list_ex_iff bex_Un)
qed simp

lemma alias_conflicts_iff:
  "(\<exists>c \<in> set (alias_conflicts rows). ic_machine_id c = m) \<longleftrightarrow>
     (\<exists>r \<in> set rows. rr_machine_id r = m \<and> contested rows r)"
proof -
  define held where "held = foldl claim_alias [] rows"
  have wf: "obj_wf held" and gat: "\<And>al. gathered (alias_rows rows al) (obj_get held al)"
    using collected_all [of rows] by (simp_all add: collected_def held_def)
  have some: "distinct keys \<and> set keys = {k. \<exists>r \<in> set (alias_rows rows al). row_key r = Some k}
      \<and> machines = map rr_machine_id (alias_rows rows al)"
    if "obj_get held al = Some (keys, machines)" for al keys machines
    using gat [of al] that by simp
  have none: "alias_rows rows al = []" if "obj_get held al = None" for al
    using gat [of al] that by simp
  have "(\<exists>c \<in> set (alias_conflicts rows). ic_machine_id c = m) \<longleftrightarrow>
      list_ex (\<lambda>c. ic_machine_id c = m) (alias_conflicts rows)"
    by (simp only: list_ex_iff)
  also have "\<dots> \<longleftrightarrow> (\<exists>(al, keys, machines) \<in> set held. 1 < length keys \<and> m \<in> set machines)"
    unfolding alias_conflicts_def held_def [symmetric] conflict_of_claims by (simp add: list_ex_iff split_beta)
  also have "\<dots> \<longleftrightarrow> (\<exists>al keys machines. obj_get held al = Some (keys, machines) \<and> 1 < length keys \<and> m \<in> set machines)"
    by (simp only: Bex_def split_paired_Ex case_prod_conv obj_get_mem [OF wf])
  also have "\<dots> \<longleftrightarrow> (\<exists>r \<in> set rows. rr_machine_id r = m \<and> contested rows r)"
  proof
    assume "\<exists>al keys machines. obj_get held al = Some (keys, machines) \<and> 1 < length keys \<and> m \<in> set machines"
    then obtain al keys machines where h: "obj_get held al = Some (keys, machines)" "1 < length keys" "m \<in> set machines"
      by blast
    with some [OF h(1)] obtain r where r: "r \<in> set (alias_rows rows al)" "rr_machine_id r = m" by auto
    then obtain k where k: "row_key r = Some k" by (auto simp: in_alias_rows)
    with r some [OF h(1)] have "k \<in> set keys" by auto
    moreover have "distinct keys" using some [OF h(1)] by simp
    ultimately obtain k' where "k' \<in> set keys" "k' \<noteq> k" using two_keys [of keys k] h(2) by auto
    from this(1) obtain r' where "r' \<in> set (alias_rows rows al)" "row_key r' = Some k'"
      using some [OF h(1)] by auto
    then have r': "r' \<in> set rows" "rr_ssh_alias r' = rr_ssh_alias r" "row_key r' = Some k'"
      using r by (simp_all add: in_alias_rows)
    have "r \<in> set rows" using r by (simp add: in_alias_rows)
    moreover have "contested rows r"
      unfolding contested_def list_ex_iff using r' k \<open>k' \<noteq> k\<close> by (intro conjI bexI [of _ r']) simp_all
    ultimately show "\<exists>r \<in> set rows. rr_machine_id r = m \<and> contested rows r" using r(2) by blast
  next
    assume "\<exists>r \<in> set rows. rr_machine_id r = m \<and> contested rows r"
    then obtain r r' k k' where r: "r \<in> set rows" "rr_machine_id r = m" "row_key r = Some k"
        "r' \<in> set rows" "rr_ssh_alias r' = rr_ssh_alias r" "row_key r' = Some k'" "k' \<noteq> k"
      by (auto simp: contested_def list_ex_iff)
    then have in_al: "r \<in> set (alias_rows rows (rr_ssh_alias r))" "r' \<in> set (alias_rows rows (rr_ssh_alias r))"
      by (auto simp: in_alias_rows)
    then obtain keys machines where h: "obj_get held (rr_ssh_alias r) = Some (keys, machines)"
      using none [of "rr_ssh_alias r"] by (cases "obj_get held (rr_ssh_alias r)") auto
    have "k \<in> set keys" using some [OF h] in_al(1) r(3) by blast
    have "k' \<in> set keys" using some [OF h] in_al(2) r(6) by blast
    have "m \<in> set machines" using some [OF h] in_al(1) r(2) by (simp add: rev_image_eqI)
    have "1 < length keys"
      using some [OF h] two_keys [of keys k] \<open>k \<in> set keys\<close> \<open>k' \<in> set keys\<close> r(7) by blast
    with h \<open>m \<in> set machines\<close>
    show "\<exists>al keys machines. obj_get held al = Some (keys, machines) \<and> 1 < length keys \<and> m \<in> set machines"
      by blast
  qed
  finally show ?thesis .
qed

section \<open>A self-report\<close>

definition conflict_stamp :: "identity_conflict list \<Rightarrow> roster_row \<Rightarrow> roster_row" where
  "conflict_stamp cs r =
     (case find (\<lambda>c. ic_machine_id c = rr_machine_id r) (rev cs) of
        None \<Rightarrow> r | Some c \<Rightarrow> r\<lparr>rr_identity_state := Some (conflict_state (ic_kind c))\<rparr>)"

lemma obj_get_foldl_set:
  "obj_get (foldl (\<lambda>m c. obj_set m (f c) (g c)) acc cs) k =
     (case find (\<lambda>c. f c = k) (rev cs) of None \<Rightarrow> obj_get acc k | Some c \<Rightarrow> Some (g c))"
  by (induction cs rule: rev_induct) auto

lemma stamp_conflicts_rows: "stamp_conflicts cs doc = doc\<lparr>rd_rows := map (conflict_stamp cs) (rd_rows doc)\<rparr>"
proof -
  have "(case obj_get (foldl (\<lambda>m c. obj_set m (ic_machine_id c) (conflict_state (ic_kind c))) [] cs) (rr_machine_id r) of
      Some s \<Rightarrow> r\<lparr>rr_identity_state := Some s\<rparr> | None \<Rightarrow> r) = conflict_stamp cs r" for r
    by (simp add: obj_get_foldl_set conflict_stamp_def split: option.split)
  then show ?thesis by (simp add: stamp_conflicts_def Let_def)
qed

lemma conflict_stamp_fields [simp]:
  "rr_machine_id (conflict_stamp cs r) = rr_machine_id r"
  "rr_ssh_alias (conflict_stamp cs r) = rr_ssh_alias r"
  "rr_identity_key (conflict_stamp cs r) = rr_identity_key r"
  "row_key (conflict_stamp cs r) = row_key r"
  "lawful_row (conflict_stamp cs r) = lawful_row r"
  "(conflict_stamp cs r)\<lparr>rr_identity_state := s\<rparr> = r\<lparr>rr_identity_state := s\<rparr>"
  by (simp_all add: conflict_stamp_def row_key_def lawful_row_def split: option.split)

lemma conflict_state_blocks: "conflict_state k = Alias_conflict \<or> conflict_state k = Key_changed"
  by (cases k) simp_all

lemma conflict_stamp_cases: "conflict_stamp cs r = r \<or> identity_blocked (conflict_stamp cs r)"
  using conflict_state_blocks by (auto simp: conflict_stamp_def identity_blocked_def split: option.split)

lemma conflict_stamp_blocks:
  assumes "c \<in> set cs" and "ic_machine_id c = rr_machine_id r"
  shows "identity_blocked (conflict_stamp cs r)"
proof -
  from assms obtain c' where "find (\<lambda>c. ic_machine_id c = rr_machine_id r) (rev cs) = Some c'"
    by (cases "find (\<lambda>c. ic_machine_id c = rr_machine_id r) (rev cs)") (auto simp: find_None_iff)
  then show ?thesis using conflict_state_blocks [of "ic_kind c'"]
    by (auto simp: conflict_stamp_def identity_blocked_def)
qed

lemma contested_stamped: "contested (map (conflict_stamp cs) rows) (conflict_stamp cs r) \<longleftrightarrow> contested rows r"
  by (simp add: contested_def list_ex_iff)

lemma find_map_stamp:
  "find (\<lambda>r. rr_machine_id r = m) (map (conflict_stamp cs) rows) =
     map_option (conflict_stamp cs) (find (\<lambda>r. rr_machine_id r = m) rows)"
  by (induction rows) simp_all

definition registered_key :: "roster_row list \<Rightarrow> string \<Rightarrow> string option" where
  "registered_key rows m = Option.bind (find (\<lambda>r. rr_machine_id r = m) rows) row_key"

lemma registered_key_stamped [simp]: "registered_key (map (conflict_stamp cs) rows) m = registered_key rows m"
  by (simp add: registered_key_def find_map_stamp bind_map_option comp_def)

lemma upsert_rows:
  "rd_rows (upsert_roster_row doc row) =
     (if list_ex (\<lambda>r. rr_machine_id r = rr_machine_id row) (rd_rows doc)
      then map (\<lambda>r. if rr_machine_id r = rr_machine_id row then row else r) (rd_rows doc)
      else rd_rows doc @ [row])"
proof -
  have "\<not> list_ex (\<lambda>r. rr_machine_id r = rr_machine_id row) rows \<Longrightarrow>
      map (\<lambda>r. if rr_machine_id r = rr_machine_id row then row else r) rows = rows" for rows
    by (rule map_idI) (auto simp: list_ex_iff)
  then show ?thesis by (simp add: upsert_roster_row_def Let_def)
qed

lemma upsert_lawful:
  "lawful_row row \<Longrightarrow> list_all lawful_row (rd_rows doc) \<Longrightarrow> list_all lawful_row (rd_rows (upsert_roster_row doc row))"
  by (auto simp: upsert_rows list_all_iff)

lemma registered_key_upsert:
  "registered_key (rd_rows (upsert_roster_row doc row)) m =
     (if m = rr_machine_id row then row_key row else registered_key (rd_rows doc) m)"
proof -
  have found: "find (\<lambda>r. rr_machine_id r = m) (map (\<lambda>r. if rr_machine_id r = rr_machine_id row then row else r) rows) =
      (if m = rr_machine_id row \<and> list_ex (\<lambda>r. rr_machine_id r = m) rows then Some row
       else find (\<lambda>r. rr_machine_id r = m) rows)" for rows
    by (induction rows) auto
  have none: "\<not> list_ex (\<lambda>r. rr_machine_id r = m) rows \<Longrightarrow> find (\<lambda>r. rr_machine_id r = m) rows = None" for rows
    by (auto simp: find_None_iff list_ex_iff)
  have app: "find P (xs @ [x]) = (case find P xs of None \<Rightarrow> if P x then Some x else None | Some y \<Rightarrow> Some y)"
    for P :: "roster_row \<Rightarrow> bool" and xs x
    by (induction xs) auto
  show ?thesis
  proof (cases "m = rr_machine_id row")
    case True
    with found [of "rd_rows doc"] none [of "rd_rows doc"] show ?thesis
      by (auto simp: registered_key_def upsert_rows app)
  next
    case False
    with found [of "rd_rows doc"] show ?thesis
      by (auto simp: registered_key_def upsert_rows app split: option.split)
  qed
qed

lemma report_stored:
  assumes "roster_report_response bind_host write_ok body f = (Report_stored m, f')"
  obtains v row cs where "snd body = Some v" and "parse_roster_row v = Inr row" and "rr_machine_id row = m"
    and "cs = detect_identity_conflicts (upsert_roster_row (load_roster f) row) (Some (load_roster f))"
    and "read_roster_rows f' = map (conflict_stamp cs) (rd_rows (upsert_roster_row (load_roster f) row))"
    and "registered_key (read_roster_rows f) m = None \<or> row_key row = None
         \<or> registered_key (read_roster_rows f) m = row_key row"
proof -
  from assms obtain v row where v: "snd body = Some v" "parse_roster_row v = Inr row"
    unfolding roster_report_response_def by (auto split: if_splits option.splits sum.splits)
  define cs where "cs = detect_identity_conflicts (upsert_roster_row (load_roster f) row) (Some (load_roster f))"
  define next_doc where "next_doc = (upsert_roster_row (load_roster f) row)
      \<lparr>rd_rows := map (conflict_stamp cs) (rd_rows (upsert_roster_row (load_roster f) row)),
       rd_schema_version := ROSTER_SCHEMA_VERSION\<rparr>"
  have reg: "\<not> (registered_key (read_roster_rows f) (rr_machine_id row) \<noteq> None \<and> row_key row \<noteq> None
      \<and> registered_key (read_roster_rows f) (rr_machine_id row) \<noteq> row_key row)"
    and out: "m = rr_machine_id row" "f' = Some (roster_json next_doc)"
    using assms v unfolding roster_report_response_def next_doc_def cs_def registered_key_def read_roster_rows_def
    by (auto simp: Let_def stamp_conflicts_rows split: if_splits)
  have "list_all lawful_row (rd_rows next_doc)"
    using upsert_lawful [OF parsed_row_lawful [OF v(2)] load_roster_lawful [of f]]
    by (simp add: next_doc_def list_all_iff)
  then have "read_roster_rows f' = map (conflict_stamp cs) (rd_rows (upsert_roster_row (load_roster f) row))"
    by (simp add: out read_roster_rows_def load_stored_roster) (simp add: next_doc_def)
  with that [OF v out(1) [symmetric] cs_def] reg out(1) show ?thesis by blast
qed

lemma report_refused:
  assumes "fst (roster_report_response bind_host write_ok body f) = Report_refused code detail"
  shows "snd (roster_report_response bind_host write_ok body f) = f"
  using assms unfolding roster_report_response_def by (auto simp: Let_def split: if_splits option.splits sum.splits)

lemma contested_blocked:
  assumes "read_roster_rows f' = map (conflict_stamp cs) rows"
    and "cs = detect_identity_conflicts doc previous" and "rows = rd_rows doc"
    and "r \<in> set (read_roster_rows f')" and "contested (read_roster_rows f') r"
  shows "identity_blocked r"
proof -
  from assms(1,4) obtain r0 where r0: "r0 \<in> set rows" "r = conflict_stamp cs r0" by auto
  with assms(1,5) have "contested rows r0" by (simp add: contested_stamped)
  with r0(1) obtain c where "c \<in> set (alias_conflicts rows)" "ic_machine_id c = rr_machine_id r0"
    using alias_conflicts_iff [of rows "rr_machine_id r0"] by blast
  then show ?thesis
    unfolding r0(2) by (intro conflict_stamp_blocks [of c]) (simp_all add: assms(2,3) detect_identity_conflicts_def)
qed

lemma stamped_without_state:
  "map (rr_identity_state_update (\<lambda>s. None)) (map (conflict_stamp cs) rows) = map (rr_identity_state_update (\<lambda>s. None)) rows"
  by simp

text \<open>A self-report writes its own row. When it is stored, the reporter's rows are what was posted
  and the rows of all other machines are what they were, in their order and up to the identity
  state; the reporter is appended exactly when it was not listed. The state of a row changes to a
  conflict only, and every row whose alias another row claims under another key is blocked. A
  refused report leaves the file alone.\<close>

theorem self_report_writes_its_own_row:
  assumes "roster_report_response bind_host write_ok body f = (reply, f')"
  shows "(case reply of
       Report_refused code detail \<Rightarrow> f' = f
     | Report_stored m \<Rightarrow>
         (\<exists>v row. snd body = Some v \<and> parse_roster_row v = Inr row \<and> rr_machine_id row = m
            \<and> list_all (\<lambda>r. rr_machine_id r \<noteq> m \<or> r\<lparr>rr_identity_state := None\<rparr> = row\<lparr>rr_identity_state := None\<rparr>)
                (read_roster_rows f')
            \<and> list_all (\<lambda>r. r \<in> set (row # read_roster_rows f) \<or> identity_blocked r) (read_roster_rows f'))
         \<and> map (rr_identity_state_update (\<lambda>s. None)) (filter (\<lambda>r. rr_machine_id r \<noteq> m) (read_roster_rows f'))
             = map (rr_identity_state_update (\<lambda>s. None)) (filter (\<lambda>r. rr_machine_id r \<noteq> m) (read_roster_rows f))
         \<and> map rr_machine_id (read_roster_rows f') =
             (if list_ex (\<lambda>r. rr_machine_id r = m) (read_roster_rows f) then map rr_machine_id (read_roster_rows f)
              else map rr_machine_id (read_roster_rows f) @ [m])
         \<and> list_all (\<lambda>r. \<not> contested (read_roster_rows f') r \<or> identity_blocked r) (read_roster_rows f'))"
proof (cases reply)
  case (Report_refused code detail)
  with report_refused [of bind_host write_ok body f code detail] assms show ?thesis by simp
next
  case (Report_stored m)
  with assms obtain v row cs where row: "snd body = Some v" "parse_roster_row v = Inr row" "rr_machine_id row = m"
    and cs: "cs = detect_identity_conflicts (upsert_roster_row (load_roster f) row) (Some (load_roster f))"
    and stored: "read_roster_rows f' = map (conflict_stamp cs) (rd_rows (upsert_roster_row (load_roster f) row))"
    by (auto elim: report_stored)
  let ?new = "rd_rows (upsert_roster_row (load_roster f) row)"
  have members: "r \<in> set (row # read_roster_rows f)" if "r \<in> set ?new" for r
    using that by (auto simp: upsert_rows read_roster_rows_def split: if_splits)
  have own: "r = row" if "r \<in> set ?new" "rr_machine_id r = m" for r
    using that row(3) by (auto simp: upsert_rows list_ex_iff split: if_splits)
  have others: "filter (\<lambda>r. rr_machine_id r \<noteq> m) ?new = filter (\<lambda>r. rr_machine_id r \<noteq> m) (read_roster_rows f)"
  proof -
    have "filter (\<lambda>r. rr_machine_id r \<noteq> m) (map (\<lambda>r. if rr_machine_id r = rr_machine_id row then row else r) rows) =
        filter (\<lambda>r. rr_machine_id r \<noteq> m) rows" for rows
      using row(3) by (induction rows) auto
    then show ?thesis by (simp add: upsert_rows read_roster_rows_def row(3))
  qed
  have ids: "map rr_machine_id ?new = (if list_ex (\<lambda>r. rr_machine_id r = m) (read_roster_rows f)
      then map rr_machine_id (read_roster_rows f) else map rr_machine_id (read_roster_rows f) @ [m])"
    using row(3) by (simp add: upsert_rows read_roster_rows_def comp_def if_distrib cong: if_cong)
  have "list_all (\<lambda>r. rr_machine_id r \<noteq> m \<or> r\<lparr>rr_identity_state := None\<rparr> = row\<lparr>rr_identity_state := None\<rparr>)
      (read_roster_rows f')"
    unfolding stored using own by (auto simp: list_all_iff)
  moreover have "list_all (\<lambda>r. r \<in> set (row # read_roster_rows f) \<or> identity_blocked r) (read_roster_rows f')"
    unfolding stored list_all_iff using members conflict_stamp_cases [of cs] by (auto simp del: conflict_stamp_fields) metis
  moreover have "map (rr_identity_state_update (\<lambda>s. None)) (filter (\<lambda>r. rr_machine_id r \<noteq> m) (read_roster_rows f'))
      = map (rr_identity_state_update (\<lambda>s. None)) (filter (\<lambda>r. rr_machine_id r \<noteq> m) (read_roster_rows f))"
    unfolding stored filter_map others [symmetric] by (simp add: comp_def)
  moreover have "map rr_machine_id (read_roster_rows f') =
      (if list_ex (\<lambda>r. rr_machine_id r = m) (read_roster_rows f) then map rr_machine_id (read_roster_rows f)
       else map rr_machine_id (read_roster_rows f) @ [m])"
    unfolding stored ids [symmetric] by simp
  moreover have "list_all (\<lambda>r. \<not> contested (read_roster_rows f') r \<or> identity_blocked r) (read_roster_rows f')"
    unfolding list_all_iff using contested_blocked [OF stored cs refl] by blast
  ultimately show ?thesis using row by (simp add: Report_stored)
qed

section \<open>Runs of reports\<close>

type_synonym roster_post = "string option \<times> bool \<times> nat \<times> json option"

definition report_run :: "roster_post list \<Rightarrow> keyed_file \<Rightarrow> keyed_file" where
  "report_run posts f = foldl (\<lambda>f (h, w, body). snd (roster_report_response h w body f)) f posts"

text \<open>A report of the machine that names its key; every other post qualifies.\<close>

definition carries_key :: "string \<Rightarrow> roster_post \<Rightarrow> bool" where
  "carries_key m post =
     (case snd (snd (snd post)) of
        None \<Rightarrow> True
      | Some v \<Rightarrow> (case parse_roster_row v of Inl e \<Rightarrow> True
                   | Inr row \<Rightarrow> rr_machine_id row \<noteq> m \<or> row_key row \<noteq> None))"

definition conflicts_blocked :: "roster_row list \<Rightarrow> bool" where
  "conflicts_blocked rows \<longleftrightarrow> list_all (\<lambda>r. \<not> contested rows r \<or> identity_blocked r) rows"

lemma report_run_snoc [simp]:
  "report_run (posts @ [(h, w, body)]) f = snd (roster_report_response h w body (report_run posts f))"
  by (simp add: report_run_def)

lemma report_keeps_key:
  assumes "registered_key (read_roster_rows f) m = Some k" and "carries_key m (h, w, body)"
  shows "registered_key (read_roster_rows (snd (roster_report_response h w body f))) m = Some k"
proof (cases "roster_report_response h w body f")
  case (Pair reply f')
  show ?thesis
  proof (cases reply)
    case (Report_refused code detail)
    with Pair report_refused [of h w body f code detail] assms show ?thesis by simp
  next
    case (Report_stored m')
    with Pair have "roster_report_response h w body f = (Report_stored m', f')" by simp
    then obtain v row cs where row: "snd body = Some v" "parse_roster_row v = Inr row" "rr_machine_id row = m'"
      and "cs = detect_identity_conflicts (upsert_roster_row (load_roster f) row) (Some (load_roster f))"
      and stored: "read_roster_rows f' = map (conflict_stamp cs) (rd_rows (upsert_roster_row (load_roster f) row))"
      and key: "registered_key (read_roster_rows f) m' = None \<or> row_key row = None
         \<or> registered_key (read_roster_rows f) m' = row_key row"
      by (rule report_stored)
    have "m' = m \<Longrightarrow> row_key row = Some k" using key assms row by (auto simp: carries_key_def)
    then show ?thesis unfolding Pair snd_conv stored
      using assms(1) row(3) by (auto simp: registered_key_upsert read_roster_rows_def)
  qed
qed

lemma report_blocks_conflicts:
  assumes "conflicts_blocked (read_roster_rows f)"
  shows "conflicts_blocked (read_roster_rows (snd (roster_report_response h w body f)))"
proof (cases "roster_report_response h w body f")
  case (Pair reply f')
  show ?thesis
  proof (cases reply)
    case (Report_refused code detail)
    with Pair report_refused [of h w body f code detail] assms show ?thesis by simp
  next
    case (Report_stored m)
    with Pair obtain row cs where
        cs: "cs = detect_identity_conflicts (upsert_roster_row (load_roster f) row) (Some (load_roster f))"
      and stored: "read_roster_rows f' = map (conflict_stamp cs) (rd_rows (upsert_roster_row (load_roster f) row))"
      by (auto elim: report_stored)
    show ?thesis
      unfolding Pair snd_conv conflicts_blocked_def list_all_iff using contested_blocked [OF stored cs refl] by blast
  qed
qed

lemma serving_row:
  "p \<in> set (serving_reachable_peers rows) \<Longrightarrow>
     \<exists>r \<in> set rows. js_trim (rr_machine_id r) = p \<and> \<not> identity_blocked r"
  by (induction rows rule: serving_reachable_peers.induct)
    (auto simp: Let_def placement_descriptor_of_def split: if_splits)

text \<open>C32: Over any run of reports - accepted, refused or failing - a registered identity key stays the
  key of its machine as long as the machine's reports name a key; and once conflicts are blocked,
  as in a file that is absent, they stay blocked: no machine is listed as serving and reachable on
  the strength of a row whose alias another row claims under another key.\<close>

theorem registered_identity_is_kept:
  assumes "registered_key (read_roster_rows f) m = Some k" and "list_all (carries_key m) posts"
    and "conflicts_blocked (read_roster_rows f)"
  shows "registered_key (read_roster_rows (report_run posts f)) m = Some k
    \<and> conflicts_blocked (read_roster_rows (report_run posts f))
    \<and> list_all (\<lambda>p. list_ex (\<lambda>r. js_trim (rr_machine_id r) = p
            \<and> \<not> contested (read_roster_rows (report_run posts f)) r) (read_roster_rows (report_run posts f)))
        (serving_reachable_peers (read_roster_rows (report_run posts f)))"
proof -
  have run: "registered_key (read_roster_rows (report_run posts f)) m = Some k
      \<and> conflicts_blocked (read_roster_rows (report_run posts f))"
    using assms(2)
  proof (induction posts rule: rev_induct)
    case Nil
    with assms show ?case by (simp add: report_run_def)
  next
    case (snoc post posts)
    obtain h w body where post: "post = (h, w, body)" by (cases post)
    with snoc show ?case by (simp add: report_keeps_key report_blocks_conflicts)
  qed
  have "list_ex (\<lambda>r. js_trim (rr_machine_id r) = p \<and> \<not> contested (read_roster_rows (report_run posts f)) r)
      (read_roster_rows (report_run posts f))"
    if "p \<in> set (serving_reachable_peers (read_roster_rows (report_run posts f)))" for p
    using serving_row [OF that] run unfolding conflicts_blocked_def list_all_iff list_ex_iff by blast
  with run show ?thesis by (simp add: list_all_iff)
qed

section \<open>What a machine reports at boot\<close>

text \<open>A boot report is a well-formed row exactly when its machine id is not blank.\<close>

theorem boot_report_is_lawful:
  "parse_roster_row (row_json (build_boot_self_report_row now input)) = Inr (build_boot_self_report_row now input)
     \<longleftrightarrow> js_trim (bi_machine_id input) \<noteq> []"
proof -
  have "lawful_row (build_boot_self_report_row now input) \<longleftrightarrow> js_trim (bi_machine_id input) \<noteq> []"
    by (simp add: lawful_row_def build_boot_self_report_row_def)
  then show ?thesis using parse_row_json parsed_row_lawful by blast
qed

text \<open>A display name is normalized once and for all.\<close>

lemma normalize_device_name_idem: "normalize_device_name (normalize_device_name s) = normalize_device_name s"
proof (cases "normalize_device_name s = s")
  case False
  then have "normalize_device_name s = takeWhile (\<lambda>c. c \<noteq> CHR ''.'') s"
    by (auto simp: normalize_device_name_def Let_def split: if_splits)
  then show ?thesis by (simp add: normalize_device_name_def Let_def takeWhile_idem)
qed simp

section \<open>Where the code departs from its comments\<close>

definition demo_row :: "string \<Rightarrow> string \<Rightarrow> string option \<Rightarrow> roster_row" where
  "demo_row m al key =
     \<lparr> rr_machine_id = m, rr_name = m, rr_server_mode = ''server'', rr_capabilities = [''serving''],
       rr_ssh_alias = al, rr_transport = ''ssh'', rr_last_report = ''t'', rr_health = Health_reachable,
       rr_device_type = None, rr_peer_origin = None, rr_identity_key = key, rr_identity_state = None \<rparr>"

definition demo_post :: "roster_row \<Rightarrow> roster_post" where
  "demo_post r = (None, True, 9, Some (row_json r))"

text \<open>The key of a machine may only change by an explicit re-admission; but a report without a key
  takes the registered one away, and the next report sets another.\<close>

theorem report_without_key_unpins_it:
  "let f1 = report_run [demo_post (demo_row ''a'' ''al'' (Some ''k1''))] None;
       f3 = report_run [demo_post (demo_row ''a'' ''al'' None), demo_post (demo_row ''a'' ''al'' (Some ''k2''))] f1
   in registered_key (read_roster_rows f1) ''a'' = Some ''k1'' \<and> registered_key (read_roster_rows f3) ''a'' = Some ''k2''
      \<and> fst (roster_report_response None True (9, Some (row_json (demo_row ''a'' ''al'' (Some ''k2'')))) f1)
          = Report_refused ''key_changed''
              (''identity_key changed for an already-registered machine_id '' @ em_dash @ '' explicit re-admit required'')"
  by code_simp

text \<open>A report can never mutate a peer's row, the comments say; but claiming a peer's alias under another
  key marks the peer's row as conflicting, which takes it out of the serving peers.\<close>

theorem report_blocks_a_peer:
  "let f1 = report_run [demo_post (demo_row ''a'' ''al'' (Some ''k1''))] None;
       f2 = report_run [demo_post (demo_row ''b'' ''al'' (Some ''k2''))] f1
   in serving_reachable_peers (read_roster_rows f1) = [''a''] \<and> serving_reachable_peers (read_roster_rows f2) = []
      \<and> map rr_identity_state (read_roster_rows f2) = [Some Alias_conflict, Some Alias_conflict]"
  by code_simp

section \<open>Instances\<close>

theorem self_report_writes_its_own_row_witness:
  "fst (roster_report_response (Some ''10.0.0.1'') True (9, Some (row_json (demo_row ''a'' ''al'' None))) None)
     = Report_refused ''non_loopback'' ''roster self-report serves loopback binds only''
   \<and> snd (roster_report_response (Some ''10.0.0.1'') True (9, Some (row_json (demo_row ''a'' ''al'' None))) None) = None"
proof -
  have refused: "fst (roster_report_response (Some ''10.0.0.1'') True (9, Some (row_json (demo_row ''a'' ''al'' None))) None)
     = Report_refused ''non_loopback'' ''roster self-report serves loopback binds only''"
    by code_simp
  then show ?thesis
    using self_report_writes_its_own_row [OF surjective_pairing, of "Some ''10.0.0.1''" True
        "(9, Some (row_json (demo_row ''a'' ''al'' None)))" None] by simp
qed

lemma demo_registered:
  "registered_key (read_roster_rows (report_run [demo_post (demo_row ''a'' ''al'' (Some ''k1''))] None)) ''a'' = Some ''k1''"
  "conflicts_blocked (read_roster_rows (report_run [demo_post (demo_row ''a'' ''al'' (Some ''k1''))] None))"
  "list_all (carries_key ''a'') [demo_post (demo_row ''b'' ''al'' None), demo_post (demo_row ''a'' ''al'' (Some ''k2''))]"
  by code_simp+

theorem registered_identity_is_kept_witness:
  "registered_key (read_roster_rows (report_run
       [demo_post (demo_row ''b'' ''al'' None), demo_post (demo_row ''a'' ''al'' (Some ''k2''))]
       (report_run [demo_post (demo_row ''a'' ''al'' (Some ''k1''))] None))) ''a'' = Some ''k1''"
  using registered_identity_is_kept [OF demo_registered(1) demo_registered(3) demo_registered(2)] by blast

end
