(* ===== verification/Fleet_Topology.thy ===== *)
theory Fleet_Topology
  imports Fleet_Roster Version_Skew Proposal_Queue
begin

text \<open>
  How a machine learns its place in the fleet: the reader, the freshness comparison, the rendering
  and the base-tier producer of the projection (\<open>packages/schema/src/fleet_projection.ts\<close>), the
  membership file and its writer (\<open>fleet_config.ts\<close>, \<open>packages/extension/src/fleet_fallback.ts\<close>), the
  production of the base tier by the command line (\<open>packages/amico-run/src/fleet_projection_verb.ts\<close>),
  and the extension's topology read with its refresh (\<open>packages/extension/src/fleet_topology.ts\<close>).
  What a file holds and what the refresh verb answers are arguments. A parsed document holds no
  \<open>undefined\<close>; a number text with a point counts as not a number.
\<close>

section \<open>The contract\<close>

text \<open>Property access: on \<open>null\<close> and \<open>undefined\<close> the optional chain gives \<open>undefined\<close>.\<close>

fun json_get :: "json \<Rightarrow> string \<Rightarrow> json" where
  "json_get (JObj d) k = json_field d k"
| "json_get v k = JUndefined"

fun json_object :: "json \<Rightarrow> keyed_doc option" where
  "json_object (JObj d) = Some d"
| "json_object v = None"

text \<open>\<open>===\<close> on the values of two documents: two objects are never the same.\<close>

fun strict_equal :: "json \<Rightarrow> json \<Rightarrow> bool" where
  "strict_equal (JArr a) v \<longleftrightarrow> False"
| "strict_equal (JObj a) v \<longleftrightarrow> False"
| "strict_equal u v \<longleftrightarrow> u = v"

definition SUPPORTED_PROJECTION_SCHEMA_VERSIONS :: "int list" where
  "SUPPORTED_PROJECTION_SCHEMA_VERSIONS = [1]"

definition MODE_VOCABULARY :: "string list" where "MODE_VOCABULARY = [''standalone'', ''fleet'']"
definition POSTURE_VOCABULARY :: "string list" where "POSTURE_VOCABULARY = [''ok'', ''degraded'', ''hub-down'']"

datatype fleet_freshness = Fresh | Stale | Unknown_freshness

text \<open>How reading a document fails: the file, the shape, the contract version or the schema version.\<close>

datatype projection_error =
    Projection_absent
  | Projection_unreadable string
  | Not_an_object string
  | Contract_version_error json
  | Schema_version_error json

definition type_name :: "json \<Rightarrow> string" where
  "type_name v = (case v of
     JArr vs \<Rightarrow> ''array'' | JNull \<Rightarrow> ''null'' | JUndefined \<Rightarrow> ''undefined'' | JBool b \<Rightarrow> ''boolean''
   | JNum n \<Rightarrow> ''number'' | JStr s \<Rightarrow> ''string'' | JObj d \<Rightarrow> ''object'')"

definition describe_value :: "json \<Rightarrow> string" where
  "describe_value v = (if v = JUndefined then ''undefined'' else render v)"

definition compact_json :: "json \<Rightarrow> string" where
  "compact_json v = (if v = JUndefined then ''absent'' else render v)"

definition projection_version_message :: "json \<Rightarrow> string" where
  "projection_version_message seen =
     ''projection carries contract ''
     @ (if seen = JUndefined then ''absent (no contract_version field)'' else ''v'' @ js_string seen)
     @ ''; this consumer speaks v'' @ string_of_int fleet_contract_version @ '' '' @ em_dash
     @ '' refusing loudly (never silently coerced)''"

definition schema_version_message :: "json \<Rightarrow> string" where
  "schema_version_message schema =
     ''projection carries unsupported schema_version '' @ describe_value schema
     @ ''; this contract speaks '' @ join_with '', '' (map string_of_int SUPPORTED_PROJECTION_SCHEMA_VERSIONS)"

fun projection_message :: "projection_error \<Rightarrow> string" where
  "projection_message Projection_absent = ''ENOENT''"
| "projection_message (Projection_unreadable msg) = msg"
| "projection_message (Not_an_object t) = ''projection document is not a JSON object: '' @ t"
| "projection_message (Contract_version_error seen) = projection_version_message seen"
| "projection_message (Schema_version_error schema) = schema_version_message schema"

definition read_projection_doc :: "json \<Rightarrow> projection_error + keyed_doc" where
  "read_projection_doc v =
     (case json_object v of
        None \<Rightarrow> Inl (Not_an_object (type_name v))
      | Some d \<Rightarrow>
          if json_field d ''contract_version'' \<noteq> JNum fleet_contract_version
          then Inl (Contract_version_error (json_field d ''contract_version''))
          else if json_field d ''schema_version'' \<notin> JNum ` set SUPPORTED_PROJECTION_SCHEMA_VERSIONS
          then Inl (Schema_version_error (json_field d ''schema_version''))
          else Inr d)"

text \<open>A cache file: absent, unreadable with its message, or the value it parses to.\<close>

datatype cache_file = Cache_absent | Cache_unreadable string | Cache json

fun read_projection_file :: "cache_file \<Rightarrow> projection_error + keyed_doc" where
  "read_projection_file Cache_absent = Inl Projection_absent"
| "read_projection_file (Cache_unreadable msg) = Inl (Projection_unreadable msg)"
| "read_projection_file (Cache v) = read_projection_doc v"

fun counter_of :: "json \<Rightarrow> int option" where
  "counter_of (JNum n) = Some n"
| "counter_of v = None"

definition freshness_between :: "keyed_doc option \<Rightarrow> keyed_doc \<Rightarrow> fleet_freshness" where
  "freshness_between previous current =
     (case previous of
        None \<Rightarrow> Fresh
      | Some p \<Rightarrow>
          (let new_stamp = json_field current ''freshness''; old_stamp = json_field p ''freshness''
           in if \<not> strict_equal (json_get new_stamp ''hub_epoch'') (json_get old_stamp ''hub_epoch'')
              then Unknown_freshness
              else (case (counter_of (json_get new_stamp ''counter''), counter_of (json_get old_stamp ''counter'')) of
                      (Some n, Some m) \<Rightarrow> if m < n then Fresh else if n = m then Stale else Unknown_freshness
                    | _ \<Rightarrow> Unknown_freshness)))"

fun freshness_advisory :: "fleet_freshness \<Rightarrow> string" where
  "freshness_advisory Unknown_freshness =
     ''unknown freshness (cross-epoch or rewind) '' @ em_dash
     @ '' force refetch and surface; never a false-fresh badge (spec '' @ [CHR 0xC2, CHR 0xA7] @ ''3 D1)''"
| "freshness_advisory Stale =
     ''stale '' @ em_dash @ '' same counter as the previous fetch; nothing new was published''"
| "freshness_advisory Fresh = []"

fun freshness_name :: "fleet_freshness \<Rightarrow> string" where
  "freshness_name Fresh = ''fresh''"
| "freshness_name Stale = ''stale''"
| "freshness_name Unknown_freshness = ''unknown''"

section \<open>Rendering\<close>

definition text_or_unknown :: "json \<Rightarrow> string" where
  "text_or_unknown v = (if v = JUndefined \<or> v = JNull then ''unknown'' else js_string v)"

definition provenance_lines :: "json \<Rightarrow> string list" where
  "provenance_lines section_value =
     (let p = json_get section_value ''provenance''
      in [''  provenance '' @ em_dash @ '' source: '' @ text_or_unknown (json_get p ''source'')
            @ ''; parsed from: '' @ text_or_unknown (json_get p ''parsed_from'')])"

definition rows_count :: "json \<Rightarrow> nat" where
  "rows_count v = (case json_get v ''rows'' of JArr vs \<Rightarrow> length vs | _ \<Rightarrow> 0)"

text \<open>Reading \<open>value\<close> of a section that is \<open>null\<close> throws.\<close>

definition render_scalar_section ::
  "string \<Rightarrow> json \<Rightarrow> string list \<Rightarrow> string \<Rightarrow> string \<Rightarrow> string list option" where
  "render_scalar_section section_name sec vocabulary base_default base_note =
     (if sec = JNull then None
      else if sec = JUndefined
      then Some [section_name @ '': '' @ base_default,
                 ''  provenance '' @ em_dash @ '' source: unknown; parsed from: base default ('' @ base_note @ '')'']
      else
        (let v = json_get sec ''value'';
             shown = (if v = JUndefined then base_default else js_string v)
         in Some ([section_name @ '': '' @ shown]
               @ (if v \<notin> JStr ` set vocabulary
                  then [''  warning: value '' @ describe_value v @ '' is outside the '' @ section_name
                          @ '' vocabulary '' @ join_with '', '' vocabulary @ '' '' @ em_dash
                          @ '' surfaced, never silently remapped'']
                  else [])
               @ provenance_lines sec)))"

definition render_section :: "json \<Rightarrow> string list \<Rightarrow> string list option" where
  "render_section sec shown =
     (if sec = JUndefined then Some [] else if sec = JNull then None
      else Some (shown @ provenance_lines sec))"

text \<open>The rendered lines; \<open>None\<close> where the code throws.\<close>

definition render_fleet_status :: "keyed_doc \<Rightarrow> keyed_doc option \<Rightarrow> string list option" where
  "render_fleet_status proj previous =
     (let sections = json_field proj ''sections'';
          publisher = json_field proj ''publisher'';
          ident = json_get publisher ''identity'';
          stamp = json_get publisher ''published_at'';
          topology = json_get sections ''topology'';
          health = json_get sections ''health'';
          locks = json_get sections ''locks'';
          fresh = json_field proj ''freshness'';
          counter = json_get fresh ''counter'';
          epoch = json_get fresh ''hub_epoch'';
          header = ''fleet status '' @ em_dash @ '' contract v'' @ js_string (json_field proj ''contract_version'')
            @ '', schema v'' @ js_string (json_field proj ''schema_version'') @ '', publisher: ''
            @ (if ident = JUndefined then ''unknown'' else js_string ident) @ '' (''
            @ (if stamp = JUndefined then ''unstamped'' else js_string stamp) @ '')'';
          freshness_lines =
            [if counter = JUndefined \<or> epoch = JUndefined
             then ''freshness: absent (no carried freshness fields to render '' @ em_dash @ '' refusing to guess)''
             else ''freshness: counter '' @ js_string counter @ '' @ epoch '' @ js_string epoch];
          verdict_lines =
            (case previous of
               None \<Rightarrow> []
             | Some p \<Rightarrow>
                 (let verdict = freshness_between (Some p) proj
                  in [''freshness verdict: '' @ freshness_name verdict]
                     @ (if freshness_advisory verdict = [] then [] else [''  '' @ freshness_advisory verdict])))
      in case (render_scalar_section ''mode'' (json_get sections ''mode'') MODE_VOCABULARY
                 ''standalone'' ''mode absent = standalone'',
               render_scalar_section ''posture'' (json_get sections ''posture'') POSTURE_VOCABULARY
                 ''ok'' ''posture absent = ok'',
               render_section topology [''topology: '' @ compact_json (json_get topology ''value'')],
               render_section health [''health: '' @ compact_json (json_get health ''value'')],
               render_section locks [''locks: '' @ string_of_nat (rows_count (json_get locks ''value''))
                 @ '' row(s) '' @ em_dash @ '' a rendering, never the enforcement'']) of
           (Some a, Some b, Some c, Some d, Some e) \<Rightarrow>
             Some ([header] @ a @ b @ c @ d @ e @ freshness_lines @ verdict_lines)
         | _ \<Rightarrow> None)"

section \<open>The membership file and the base tier\<close>

record fleet_canonical =
  fc_host :: "string option"
  fc_port :: "int option"
  fc_ssh_alias :: "string option"

datatype fleet_role = Role_standalone | Role_server | Role_client

fun fleet_role_name :: "fleet_role \<Rightarrow> string" where
  "fleet_role_name Role_standalone = ''standalone''"
| "fleet_role_name Role_server = ''server''"
| "fleet_role_name Role_client = ''client''"

record fleet_config =
  cf_role :: fleet_role
  cf_canonical :: "fleet_canonical option"
  cf_previous_binary :: "string option"
  cf_previous_port :: "int option"

definition optional_num :: "string \<Rightarrow> int option \<Rightarrow> keyed_doc" where
  "optional_num k v = (case v of None \<Rightarrow> [] | Some n \<Rightarrow> [(k, JNum n)])"

definition canonical_json :: "fleet_canonical \<Rightarrow> json" where
  "canonical_json c = JObj (optional_text_field ''host'' (fc_host c) @ optional_num ''port'' (fc_port c)
     @ optional_text_field ''sshAlias'' (fc_ssh_alias c))"

text \<open>What the writer stores, read back; the file is the value it parses to.\<close>

definition write_fleet_config :: "fleet_config \<Rightarrow> json option" where
  "write_fleet_config c = Some (JObj
     ([(''role'', JStr (fleet_role_name (cf_role c)))]
      @ (case cf_canonical c of None \<Rightarrow> [] | Some can \<Rightarrow> [(''canonical'', canonical_json can)])
      @ optional_text_field ''previousBinary'' (cf_previous_binary c)
      @ optional_num ''previousPort'' (cf_previous_port c)))"

text \<open>The state of the two files: the membership record and the legacy marker.\<close>

definition go_standalone ::
  "string option \<Rightarrow> int option \<Rightarrow> json option \<times> bool \<Rightarrow> json option \<times> bool" where
  "go_standalone previous_binary previous_port files =
     (write_fleet_config \<lparr> cf_role = Role_standalone, cf_canonical = None,
        cf_previous_binary = previous_binary, cf_previous_port = previous_port \<rparr>, False)"

definition remove_fleet_config :: "json option \<times> bool \<Rightarrow> json option \<times> bool" where
  "remove_fleet_config files = (None, False)"

definition migrate_legacy_fallback :: "json option \<times> bool \<Rightarrow> json option \<times> bool" where
  "migrate_legacy_fallback files =
     (if snd files \<and> fst files = None then go_standalone None None files else files)"

record base_topology =
  bt_role :: string
  bt_canonical :: "fleet_canonical option"

definition parse_fleet_topology :: "json option \<Rightarrow> base_topology option" where
  "parse_fleet_topology raw =
     (case Option.bind raw json_object of
        None \<Rightarrow> None
      | Some d \<Rightarrow>
          (case truthy (text_of d ''role'') of
             None \<Rightarrow> None
           | Some role \<Rightarrow>
               Some \<lparr> bt_role = role,
                 bt_canonical = map_option (\<lambda>c. \<lparr> fc_host = text_of c ''host'', fc_port = num_of c ''port'',
                     fc_ssh_alias = text_of c ''sshAlias'' \<rparr>) (json_object (json_field d ''canonical'')) \<rparr>))"

definition BASE_TIER_PUBLISHER_IDENTITY :: string where
  "BASE_TIER_PUBLISHER_IDENTITY = ''amicode-base-tier''"

definition base_provenance :: json where
  "base_provenance = JObj
     [(''source'', JStr ''fleet.json''),
      (''parsed_from'', JStr (''amicode base-tier producer (ADR 0023 '' @ em_dash
         @ '' no amicissimo authority present)''))]"

definition base_section :: "json \<Rightarrow> json" where
  "base_section v = JObj [(''value'', v), (''provenance'', base_provenance)]"

definition build_base_projection :: "base_topology \<Rightarrow> string \<Rightarrow> int \<Rightarrow> string \<Rightarrow> keyed_doc" where
  "build_base_projection topo epoch counter published_at =
     [(''contract_version'', JNum fleet_contract_version),
      (''schema_version'', JNum (hd SUPPORTED_PROJECTION_SCHEMA_VERSIONS)),
      (''publisher'', JObj [(''identity'', JStr BASE_TIER_PUBLISHER_IDENTITY), (''published_at'', JStr published_at)]),
      (''freshness'', JObj [(''counter'', JNum counter), (''hub_epoch'', JStr epoch)]),
      (''sections'', JObj
         [(''mode'', base_section (JStr (if bt_role topo = ''standalone'' then ''standalone'' else ''fleet''))),
          (''posture'', base_section (JStr ''ok'')),
          (''topology'', base_section (JObj ((''role'', JStr (bt_role topo))
             # (case bt_canonical topo of None \<Rightarrow> [] | Some c \<Rightarrow> [(''canonical'', canonical_json c)]))))])]"

text \<open>The command line's base tier: the document it writes to the cache, if any.\<close>

definition try_base_tier_projection :: "json option \<Rightarrow> string \<Rightarrow> int \<Rightarrow> string \<Rightarrow> keyed_doc option" where
  "try_base_tier_projection raw epoch counter published_at =
     (case parse_fleet_topology raw of
        None \<Rightarrow> None
      | Some topo \<Rightarrow>
          if bt_role topo \<noteq> ''client'' \<and> bt_role topo \<noteq> ''server'' then None
          else Some (build_base_projection topo epoch counter published_at))"

section \<open>The topology read\<close>

text \<open>\<open>Number(v)\<close>, \<open>None\<close> for not a number.\<close>

definition text_number :: "string \<Rightarrow> int option" where
  "text_number s =
     (case js_trim s of
        c # cs \<Rightarrow>
          if c = CHR ''-'' \<or> c = CHR ''+''
          then map_option (\<lambda>n. if c = CHR ''-'' then - int n else int n)
                 (if list_all is_digit cs then digits_in 10 cs else None)
          else map_option int (js_natural s)
      | [] \<Rightarrow> Some 0)"

fun js_number :: "json \<Rightarrow> int option" where
  "js_number (JNum n) = Some n"
| "js_number JNull = Some 0"
| "js_number JUndefined = None"
| "js_number (JBool b) = Some (if b then 1 else 0)"
| "js_number v = text_number (js_string v)"

record fleet_topology_ok =
  to_role :: string
  to_canonical :: "fleet_canonical option"
  to_previous_binary :: "string option"
  to_previous_port :: "int option option"
  to_mode :: string
  to_posture :: string
  to_verdict :: "fleet_freshness option"
  to_advisory :: "string option"
  to_counter :: json
  to_hub_epoch :: json
  to_provenance_source :: string
  to_projection :: keyed_doc

datatype fleet_topology_state =
    Topology_ok fleet_topology_ok
  | Topology_absent string
  | Topology_broken string

definition FLEET_TOPOLOGY_REFRESH_COMMAND :: string where
  "FLEET_TOPOLOGY_REFRESH_COMMAND = ''amico fleet status --projection''"

definition FLEET_TOPOLOGY_CACHE_DEFAULT_HINT :: string where
  "FLEET_TOPOLOGY_CACHE_DEFAULT_HINT = ''.amico/ops/fleet/projection.json''"

definition FLEET_GUARD_BINARY_SUFFIX :: string where
  "FLEET_GUARD_BINARY_SUFFIX = ''amico-opencode-fleet-guard''"

definition ends_with :: "string \<Rightarrow> string \<Rightarrow> bool" where
  "ends_with s suffix \<longleftrightarrow> starts_with (rev s) (rev suffix)"

definition backtick :: "string \<Rightarrow> string" where
  "backtick s = [CHR 0x60] @ s @ [CHR 0x60]"

definition section_object :: "keyed_doc \<Rightarrow> string \<Rightarrow> keyed_doc option" where
  "section_object proj sec = json_object (json_get (json_get (json_field proj ''sections'') sec) ''value'')"

definition canonical_of :: "keyed_doc option \<Rightarrow> fleet_canonical option" where
  "canonical_of topology =
     (case Option.bind topology (\<lambda>t. json_object (json_field t ''canonical'')) of
        None \<Rightarrow> None
      | Some rec \<Rightarrow>
          (let c = \<lparr> fc_host = text_of rec ''host'', fc_port = num_of rec ''port'',
                     fc_ssh_alias = text_of rec ''sshAlias'' \<rparr>
           in if fc_host c = None \<and> fc_port c = None \<and> fc_ssh_alias c = None then None else Some c))"

definition canonical_machine_id :: "fleet_canonical option \<Rightarrow> string option" where
  "canonical_machine_id c =
     (case c of
        None \<Rightarrow> None
      | Some can \<Rightarrow>
          (case (case fc_host can of Some h \<Rightarrow> Some h | None \<Rightarrow> fc_ssh_alias can) of
             None \<Rightarrow> None
           | Some i \<Rightarrow> if js_trim i \<noteq> [] then Some (js_trim i) else None))"

definition defined_value :: "json \<Rightarrow> string \<Rightarrow> string" where
  "defined_value v d = (if v = JUndefined then d else js_string v)"

definition nullish_value :: "json \<Rightarrow> string \<Rightarrow> string" where
  "nullish_value v d = (if v = JUndefined \<or> v = JNull then d else js_string v)"

definition topology_of_projection :: "keyed_doc option \<Rightarrow> keyed_doc \<Rightarrow> fleet_topology_ok" where
  "topology_of_projection previous proj =
     (let sections = json_field proj ''sections'';
          topology = section_object proj ''topology'';
          field = (\<lambda>k. case topology of None \<Rightarrow> JUndefined | Some t \<Rightarrow> json_field t k);
          verdict = (case previous of None \<Rightarrow> None | Some p \<Rightarrow> Some (freshness_between (Some p) proj));
          fresh = json_field proj ''freshness''
      in \<lparr> to_role = (if topology = None then ''standalone'' else nullish_value (field ''role'') ''standalone''),
           to_canonical = canonical_of topology,
           to_previous_binary =
             (if field ''previousBinary'' = JUndefined then None else Some (js_string (field ''previousBinary''))),
           to_previous_port =
             (if field ''previousPort'' = JUndefined then None else Some (js_number (field ''previousPort''))),
           to_mode = defined_value (json_get (json_get sections ''mode'') ''value'') ''standalone'',
           to_posture = defined_value (json_get (json_get sections ''posture'') ''value'') ''ok'',
           to_verdict = verdict,
           to_advisory = (case verdict of None \<Rightarrow> None | Some v \<Rightarrow> truthy (Some (freshness_advisory v))),
           to_counter = json_get fresh ''counter'',
           to_hub_epoch = json_get fresh ''hub_epoch'',
           to_provenance_source =
             nullish_value (json_get (json_get (json_get sections (if topology = None then ''mode'' else ''topology''))
               ''provenance'') ''source'') ''unknown'',
           to_projection = proj \<rparr>)"

definition read_fleet_topology :: "string \<Rightarrow> keyed_doc option \<Rightarrow> cache_file \<Rightarrow> fleet_topology_state" where
  "read_fleet_topology cache_path previous file =
     (case read_projection_file file of
        Inr proj \<Rightarrow> Topology_ok (topology_of_projection previous proj)
      | Inl Projection_absent \<Rightarrow>
          Topology_absent (''fleet projection absent at '' @ cache_path @ '' '' @ em_dash @ '' refresh it with ''
            @ backtick FLEET_TOPOLOGY_REFRESH_COMMAND
            @ '' (the CLI is the only door; the cache convention is <home>/'' @ FLEET_TOPOLOGY_CACHE_DEFAULT_HINT
            @ ''; the base default is standalone, stated here '' @ em_dash @ '' never a silent raw-file read)'')
      | Inl (Contract_version_error seen) \<Rightarrow>
          Topology_broken (projection_version_message seen @ '' (the cached projection at '' @ cache_path
            @ '' speaks a contract this extension does not '' @ em_dash @ '' refresh via ''
            @ backtick FLEET_TOPOLOGY_REFRESH_COMMAND @ '' or re-clone)'')
      | Inl e \<Rightarrow>
          Topology_broken (''fleet projection at '' @ cache_path @ '' failed the contract read: ''
            @ projection_message e @ '' '' @ em_dash @ '' refresh via '' @ backtick FLEET_TOPOLOGY_REFRESH_COMMAND))"

definition divert_to_fleet_relay :: "string option \<Rightarrow> fleet_topology_state \<Rightarrow> bool" where
  "divert_to_fleet_relay binary topo_state \<longleftrightarrow>
     (case truthy binary of
        None \<Rightarrow> False
      | Some b \<Rightarrow>
          ends_with b FLEET_GUARD_BINARY_SUFFIX \<and>
          (case topo_state of Topology_ok t \<Rightarrow> to_role t = ''client'' | _ \<Rightarrow> False))"

definition fleet_config_of :: "fleet_topology_state \<Rightarrow> (string \<times> fleet_canonical option \<times> string option \<times> int option option) option" where
  "fleet_config_of topo_state =
     (case topo_state of
        Topology_ok t \<Rightarrow>
          if to_role t \<notin> set [''standalone'', ''server'', ''client''] then None
          else Some (to_role t, to_canonical t, to_previous_binary t, to_previous_port t)
      | _ \<Rightarrow> None)"

section \<open>The read with its refresh\<close>

text \<open>What spawning the verb meets: an error with its code and message, or an exit.\<close>

datatype spawn_result =
    Spawn_error "string option" string "string option" "string option"
  | Spawn_exit "int option" string string

record verb_run_result =
  vr_code :: "int option"
  vr_stdout :: string
  vr_stderr :: string

fun default_run_verb :: "spawn_result \<Rightarrow> verb_run_result" where
  "default_run_verb (Spawn_error code msg out err) =
     (if code = Some ''ENOENT'' then \<lparr> vr_code = None, vr_stdout = [], vr_stderr = ''ENOENT'' \<rparr>
      else \<lparr> vr_code = Some (- 1), vr_stdout = or_else out [],
             vr_stderr = or_else code ''error'' @ '': '' @ msg \<rparr>)"
| "default_run_verb (Spawn_exit status out err) =
     \<lparr> vr_code = Some (or_else status (- 1)), vr_stdout = out, vr_stderr = err \<rparr>"

datatype bootstrap_reason = Verb_75 | Cli_absent

record fleet_topology_decision =
  td_state :: fleet_topology_state
  td_refreshed :: bool
  td_bootstrap :: "(bootstrap_reason \<times> string) option"

definition verb_output :: "verb_run_result \<Rightarrow> string" where
  "verb_output r =
     (if js_trim (vr_stderr r) \<noteq> [] then js_trim (vr_stderr r)
      else if js_trim (vr_stdout r) \<noteq> [] then js_trim (vr_stdout r) else ''(no output)'')"

text \<open>The cache before and after the verb ran.\<close>

definition read_fleet_topology_with_refresh ::
  "string \<Rightarrow> keyed_doc option \<Rightarrow> cache_file \<Rightarrow> verb_run_result \<Rightarrow> cache_file
     \<Rightarrow> fleet_topology_decision \<times> bool" where
  "read_fleet_topology_with_refresh cache_path previous file run file_after =
     (let first_read = read_fleet_topology cache_path previous file;
          settled = (case first_read of Topology_ok t \<Rightarrow> to_verdict t \<noteq> Some Unknown_freshness | _ \<Rightarrow> False)
      in if settled then (\<lparr> td_state = first_read, td_refreshed = False, td_bootstrap = None \<rparr>, False)
         else if vr_code run = Some 75
         then (\<lparr> td_state = first_read, td_refreshed = False,
                 td_bootstrap = Some (Verb_75,
                   ''base-standalone (bootstrap exception '' @ em_dash
                   @ '' the verb exited 75): this install does not hold the fleet-authority ''
                   @ ''grant, so no projection can be published. The mode field is untouched (spec invariant 7). ''
                   @ ''Base-standalone stated with the pointer: see the verb's rendered output for the grant path.''
                   @ [CHR 0x0A] @ js_trim (vr_stdout run)) \<rparr>, True)
         else (case vr_code run of
            None \<Rightarrow>
              (\<lparr> td_state = first_read, td_refreshed = False,
                 td_bootstrap = Some (Cli_absent,
                   ''base-standalone (bootstrap exception '' @ em_dash @ '' the '' @ backtick ''amico''
                   @ '' CLI is absent, so '' @ backtick FLEET_TOPOLOGY_REFRESH_COMMAND
                   @ '' cannot run): identical to the exit-75 branch. The mode field is untouched (spec invariant 7).'') \<rparr>, True)
          | Some code \<Rightarrow>
              if code \<noteq> 0
              then (let failed = '' exited '' @ string_of_int code @ ''): '' @ verb_output run;
                        detail = (case first_read of
                            Topology_broken d \<Rightarrow>
                              d @ [CHR 0x0A] @ ''  and the refresh failed too ('' @ backtick FLEET_TOPOLOGY_REFRESH_COMMAND @ failed
                          | _ \<Rightarrow>
                              ''fleet topology unavailable: the cache is ''
                              @ (case first_read of Topology_absent d \<Rightarrow> ''absent'' | _ \<Rightarrow> ''unreadable'')
                              @ '' and the refresh ('' @ backtick FLEET_TOPOLOGY_REFRESH_COMMAND @ '') exited ''
                              @ string_of_int code @ '': '' @ verb_output run)
                    in (\<lparr> td_state = Topology_broken detail, td_refreshed = False, td_bootstrap = None \<rparr>, True))
              else
                (let second_read = read_fleet_topology cache_path previous file_after
                 in (\<lparr> td_state = second_read,
                       td_refreshed = (case second_read of Topology_ok t \<Rightarrow> True | _ \<Rightarrow> False),
                       td_bootstrap = None \<rparr>, True))))"

end
