(* ===== verification/Topology_Properties.thy ===== *)
theory Topology_Properties
  imports Fleet_Topology
begin

text \<open>
  Properties of the topology read: what the membership file says reaches the guard that keeps a
  client from starting an engine of its own, through parser, base-tier producer and reader; and
  what the read with its refresh may answer.
\<close>

section \<open>From the membership file to the reading\<close>

lemma json_get_base_section [simp]:
  "json_get (base_section v) ''value'' = v"
  "json_get (base_section v) ''provenance'' = base_provenance"
  by (simp_all add: base_section_def json_field_def)

lemma json_object_iff: "json_object v = Some d \<longleftrightarrow> v = JObj d"
  by (cases v) auto

lemma canonical_fields [simp]:
  "text_of (optional_text_field ''host'' h @ optional_num ''port'' p @ optional_text_field ''sshAlias'' a) ''host'' = h"
  "num_of (optional_text_field ''host'' h @ optional_num ''port'' p @ optional_text_field ''sshAlias'' a) ''port'' = p"
  "text_of (optional_text_field ''host'' h @ optional_num ''port'' p @ optional_text_field ''sshAlias'' a) ''sshAlias'' = a"
  by (cases h; cases p; cases a; simp add: text_of_def num_of_def optional_text_field_def optional_num_def)+

lemma canonical_read_back:
  "json_object (canonical_json c) = Some d \<Longrightarrow>
     \<lparr> fc_host = text_of d ''host'', fc_port = num_of d ''port'', fc_ssh_alias = text_of d ''sshAlias'' \<rparr> = c"
  by (auto simp: canonical_json_def)

lemma membership_role: "text_of (the (json_object (the (write_fleet_config c)))) ''role'' = Some (fleet_role_name (cf_role c))"
  by (simp add: write_fleet_config_def text_of_def)

lemma membership_canonical:
  "json_field (the (json_object (the (write_fleet_config c)))) ''canonical'' =
     (case cf_canonical c of None \<Rightarrow> JUndefined | Some can \<Rightarrow> canonical_json can)"
  by (cases "cf_canonical c"; cases "cf_previous_binary c"; cases "cf_previous_port c")
    (simp_all add: write_fleet_config_def json_field_def optional_text_field_def optional_num_def)

lemma membership_parses:
  "parse_fleet_topology (write_fleet_config c) =
     Some \<lparr> bt_role = fleet_role_name (cf_role c), bt_canonical = cf_canonical c \<rparr>"
proof -
  obtain d where d: "write_fleet_config c = Some (JObj d)" by (simp add: write_fleet_config_def)
  have role: "text_of d ''role'' = Some (fleet_role_name (cf_role c))" using membership_role [of c] by (simp add: d)
  have can: "json_field d ''canonical'' = (case cf_canonical c of None \<Rightarrow> JUndefined | Some can \<Rightarrow> canonical_json can)"
    using membership_canonical [of c] by (simp add: d)
  have nonempty: "fleet_role_name (cf_role c) \<noteq> []" by (cases "cf_role c") simp_all
  show ?thesis
    by (cases "cf_canonical c") (simp_all add: parse_fleet_topology_def d role can nonempty canonical_json_def)
qed

definition says_something :: "fleet_canonical \<Rightarrow> bool" where
  "says_something c \<longleftrightarrow> fc_host c \<noteq> None \<or> fc_port c \<noteq> None \<or> fc_ssh_alias c \<noteq> None"

lemma base_projection_lawful:
  "read_projection_doc (JObj (build_base_projection topo epoch counter stamp)) =
     Inr (build_base_projection topo epoch counter stamp)"
  by (simp add: read_projection_doc_def build_base_projection_def json_field_def
      SUPPORTED_PROJECTION_SCHEMA_VERSIONS_def)

lemma base_sections [simp]:
  "json_get (json_field (build_base_projection topo epoch counter stamp) ''sections'') ''mode'' =
     base_section (JStr (if bt_role topo = ''standalone'' then ''standalone'' else ''fleet''))"
  "json_get (json_field (build_base_projection topo epoch counter stamp) ''sections'') ''posture'' = base_section (JStr ''ok'')"
  "json_get (json_field (build_base_projection topo epoch counter stamp) ''sections'') ''topology'' =
     base_section (JObj ((''role'', JStr (bt_role topo))
       # (case bt_canonical topo of None \<Rightarrow> [] | Some c \<Rightarrow> [(''canonical'', canonical_json c)])))"
  by (simp_all add: build_base_projection_def json_field_def)

lemma base_freshness [simp]:
  "json_get (json_field (build_base_projection topo epoch counter stamp) ''freshness'') ''counter'' = JNum counter"
  "json_get (json_field (build_base_projection topo epoch counter stamp) ''freshness'') ''hub_epoch'' = JStr epoch"
  by (simp_all add: build_base_projection_def json_field_def)

lemma base_topology_object:
  "section_object (build_base_projection topo epoch counter stamp) ''topology'' =
     Some ((''role'', JStr (bt_role topo))
       # (case bt_canonical topo of None \<Rightarrow> [] | Some c \<Rightarrow> [(''canonical'', canonical_json c)]))"
  by (simp add: section_object_def)

lemma canonical_of_base:
  "canonical_of (section_object (build_base_projection topo epoch counter stamp) ''topology'') =
     Option.bind (bt_canonical topo) (\<lambda>c. if says_something c then Some c else None)"
proof (cases "bt_canonical topo")
  case None
  then show ?thesis by (simp add: base_topology_object canonical_of_def json_field_def)
next
  case (Some c)
  then show ?thesis
    by (auto simp: base_topology_object canonical_of_def json_field_def canonical_json_def says_something_def Let_def)
qed

text \<open>What a base projection reads as.\<close>

lemma base_projection_reads:
  "topology_of_projection previous (build_base_projection topo epoch counter stamp) =
     \<lparr> to_role = bt_role topo,
       to_canonical = Option.bind (bt_canonical topo) (\<lambda>c. if says_something c then Some c else None),
       to_previous_binary = None, to_previous_port = None,
       to_mode = (if bt_role topo = ''standalone'' then ''standalone'' else ''fleet''), to_posture = ''ok'',
       to_verdict = map_option (\<lambda>p. freshness_between (Some p) (build_base_projection topo epoch counter stamp)) previous,
       to_advisory = Option.bind previous (\<lambda>p. truthy (Some (freshness_advisory
         (freshness_between (Some p) (build_base_projection topo epoch counter stamp))))),
       to_counter = JNum counter, to_hub_epoch = JStr epoch, to_provenance_source = ''fleet.json'',
       to_projection = build_base_projection topo epoch counter stamp \<rparr>"
proof -
  have source: "json_get base_provenance ''source'' = JStr ''fleet.json''"
    by (simp add: base_provenance_def json_field_def)
  show ?thesis
    by (cases "bt_canonical topo"; cases previous)
      (simp_all add: topology_of_projection_def Let_def canonical_of_base,
       simp_all add: base_topology_object json_field_def nullish_value_def defined_value_def source)
qed


section \<open>Freshness\<close>

text \<open>Within one epoch the verdict orders the counters; no two different epochs are ever compared.\<close>

lemma base_freshness_between:
  "freshness_between (Some (build_base_projection topo epoch counter stamp))
       (build_base_projection topo' epoch' counter' stamp') =
     (if epoch' \<noteq> epoch then Unknown_freshness
      else if counter < counter' then Fresh else if counter' = counter then Stale else Unknown_freshness)"
  by (simp add: freshness_between_def)

text \<open>A fetched document reads as fresh against an earlier one only if its counter is higher.\<close>

lemma fresh_needs_a_higher_counter:
  "freshness_between (Some p) current = Fresh \<Longrightarrow>
     \<exists>m n. json_get (json_field p ''freshness'') ''counter'' = JNum m
       \<and> json_get (json_field current ''freshness'') ''counter'' = JNum n \<and> m < n"
  by (auto simp: freshness_between_def Let_def elim!: counter_of.elims split: if_splits option.splits)

section \<open>The read with its refresh\<close>

text \<open>The refresh decision is honest. The verb runs exactly when the cache did not settle the
  question, that is unless it was read and not of unknown freshness; the answer then rests on the
  cache alone. A refresh is claimed exactly when the verb succeeded and the cache it left is
  lawful; the bootstrap is stated exactly when the verb is absent or exits 75, and leaves what was
  read in place; every other exit is reported as broken, and a topology that is answered was read
  from one of the two caches.\<close>

theorem refresh_is_honest:
  assumes "read_fleet_topology_with_refresh path previous file run after = (dec, verb_ran)"
  shows "(verb_ran \<longleftrightarrow> \<not> (\<exists>t. read_fleet_topology path previous file = Topology_ok t \<and> to_verdict t \<noteq> Some Unknown_freshness))
    \<and> (td_refreshed dec \<longleftrightarrow> verb_ran \<and> vr_code run = Some 0 \<and> (\<exists>t. read_fleet_topology path previous after = Topology_ok t))
    \<and> ((td_bootstrap dec \<noteq> None) \<longleftrightarrow> verb_ran \<and> (vr_code run = None \<or> vr_code run = Some 75))
    \<and> (td_state dec = read_fleet_topology path previous file
        \<or> verb_ran \<and> vr_code run = Some 0 \<and> td_state dec = read_fleet_topology path previous after
        \<or> verb_ran \<and> td_bootstrap dec = None \<and> vr_code run \<noteq> Some 0 \<and> (\<exists>d. td_state dec = Topology_broken d))
    \<and> (verb_ran \<and> td_bootstrap dec = None \<and> vr_code run \<noteq> Some 0 \<longrightarrow> (\<exists>d. td_state dec = Topology_broken d))"
proof (cases "\<exists>t. read_fleet_topology path previous file = Topology_ok t \<and> to_verdict t \<noteq> Some Unknown_freshness")
  case True
  with assms show ?thesis by (auto simp: read_fleet_topology_with_refresh_def Let_def)
next
  case False
  then have unsettled: "\<not> (case read_fleet_topology path previous file of
      Topology_ok t \<Rightarrow> to_verdict t \<noteq> Some Unknown_freshness | _ \<Rightarrow> False)"
    by (auto split: fleet_topology_state.splits)
  show ?thesis
  proof (cases "vr_code run")
    case None
    with assms unsettled False show ?thesis by (auto simp: read_fleet_topology_with_refresh_def Let_def)
  next
    case (Some code)
    consider "code = 75" | "code = 0" | "code \<noteq> 75" "code \<noteq> 0" by blast
    then show ?thesis
    proof cases
      case 1
      with assms unsettled False Some show ?thesis by (auto simp: read_fleet_topology_with_refresh_def Let_def)
    next
      case 2
      with assms unsettled False Some show ?thesis
        by (cases "read_fleet_topology path previous after") (auto simp: read_fleet_topology_with_refresh_def Let_def)
    next
      case 3
      with assms unsettled False Some show ?thesis by (auto simp: read_fleet_topology_with_refresh_def Let_def)
    qed
  qed
qed

section \<open>Where the code departs from its comments\<close>

definition demo_membership :: fleet_config where
  "demo_membership = \<lparr> cf_role = Role_client,
     cf_canonical = Some \<lparr> fc_host = Some ''hub'', fc_port = Some 4096, fc_ssh_alias = None \<rparr>,
     cf_previous_binary = None, cf_previous_port = None \<rparr>"

definition demo_projection :: "string \<Rightarrow> int \<Rightarrow> keyed_doc" where
  "demo_projection epoch counter =
     build_base_projection (the (parse_fleet_topology (write_fleet_config demo_membership))) epoch counter ''t''"

text \<open>Absent freshness fields are said to compare unknown; two documents without an epoch compare by
  their counters.\<close>

theorem absent_epoch_reads_fresh:
  "freshness_between (Some [(''freshness'', JObj [(''counter'', JNum 1)])]) [(''freshness'', JObj [(''counter'', JNum 2)])]
     = Fresh"
  by code_simp

text \<open>A failed refresh after an epoch change reports a readable cache as unreadable: the machine the
  cache calls a client is not diverted any more.\<close>

theorem failed_refresh_discards_a_readable_cache:
  "let failed = \<lparr> vr_code = Some 1, vr_stdout = [], vr_stderr = ''down'' \<rparr>;
       guard = Some FLEET_GUARD_BINARY_SUFFIX;
       cache = Cache (JObj (demo_projection ''e2'' 1));
       dec = fst (read_fleet_topology_with_refresh ''c'' (Some (demo_projection ''e1'' 7)) cache failed cache)
   in divert_to_fleet_relay guard (read_fleet_topology ''c'' None cache)
      \<and> \<not> divert_to_fleet_relay guard (td_state dec)
      \<and> td_state dec = Topology_broken (''fleet topology unavailable: the cache is unreadable and the refresh (''
            @ backtick FLEET_TOPOLOGY_REFRESH_COMMAND @ '') exited 1: down'')"
  by code_simp

section \<open>Instances\<close>

theorem refresh_is_honest_witness:
  "td_refreshed (fst (read_fleet_topology_with_refresh ''c'' None Cache_absent
     \<lparr> vr_code = Some 0, vr_stdout = [], vr_stderr = [] \<rparr> (Cache (JObj (demo_projection ''e'' 1)))))"
proof -
  have "snd (read_fleet_topology_with_refresh ''c'' None Cache_absent
      \<lparr> vr_code = Some 0, vr_stdout = [], vr_stderr = [] \<rparr> (Cache (JObj (demo_projection ''e'' 1))))"
    by code_simp
  moreover have "\<exists>t. read_fleet_topology ''c'' None (Cache (JObj (demo_projection ''e'' 1))) = Topology_ok t"
    by (simp add: read_fleet_topology_def demo_projection_def base_projection_lawful)
  ultimately show ?thesis
    using refresh_is_honest [OF surjective_pairing, of "''c''" None Cache_absent
        "\<lparr> vr_code = Some 0, vr_stdout = [], vr_stderr = [] \<rparr>" "Cache (JObj (demo_projection ''e'' 1))"]
    by simp
qed

end
