(* ===== verification/Attachment.thy ===== *)
theory Attachment
  imports Fleet_Topology
begin

text \<open>
  Attaching to another machine (\<open>packages/extension/src/amicode_service/\<close>): the keeper's bootstrap
  pointer (\<open>keeper_pointer.ts\<close>), the attachment pointer with its status, the effective-stream
  signal and the three-way resolver (\<open>attachment_pointer.ts\<close>), the credentials by machine
  (\<open>attachment_credential.ts\<close>) and the attach and detach actions (\<open>attach_action.ts\<close>). A pointer file
  is absent, unreadable or the value it parses to; an action returns the stores it leaves and
  whether it reset the stream cursors.
\<close>

section \<open>Pointer files\<close>

definition override_path :: "string option \<Rightarrow> string option \<Rightarrow> string \<Rightarrow> string" where
  "override_path injected env default_path =
     (case truthy injected of
        Some p \<Rightarrow> p
      | None \<Rightarrow> (case env of Some v \<Rightarrow> if js_trim v \<noteq> [] then v else default_path | None \<Rightarrow> default_path))"

text \<open>A field that must be a text that is not blank.\<close>

definition filled :: "keyed_doc \<Rightarrow> string \<Rightarrow> string option" where
  "filled d k = (case text_of d k of Some s \<Rightarrow> if js_trim s = [] then None else Some s | None \<Rightarrow> None)"

definition must_be_filled :: "string \<Rightarrow> string \<Rightarrow> string" where
  "must_be_filled kind k =
     kind @ ''_malformed: '' @ [CHR 0x22] @ k @ [CHR 0x22] @ '' must be a non-empty string''"

record keeper_pointer =
  kp_ssh_alias :: string
  kp_transport :: string
  kp_identity_key :: "string option"

definition keeper_pointer_path :: "string \<Rightarrow> string" where
  "keeper_pointer_path home = home @ ''/.amico/ops/fleet/keeper.json''"

definition keeper_pointer_file_path :: "string option \<Rightarrow> string option \<Rightarrow> string \<Rightarrow> string" where
  "keeper_pointer_file_path injected env home = override_path injected env (keeper_pointer_path home)"

definition resolve_keeper_pointer :: "string \<Rightarrow> cache_file \<Rightarrow> string + keeper_pointer" where
  "resolve_keeper_pointer path file =
     (case file of
        Cache_absent \<Rightarrow> Inl (''keeper_pointer_absent: no bootstrap pointer at '' @ path)
      | Cache_unreadable msg \<Rightarrow> Inl ''keeper_pointer_malformed: not valid JSON''
      | Cache v \<Rightarrow>
          (case json_object v of
             None \<Rightarrow> Inl ''keeper_pointer_malformed: not a JSON object''
           | Some d \<Rightarrow>
               (case (filled d ''sshAlias'', filled d ''transport'') of
                  (None, _) \<Rightarrow> Inl (must_be_filled ''keeper_pointer'' ''sshAlias'')
                | (_, None) \<Rightarrow> Inl (must_be_filled ''keeper_pointer'' ''transport'')
                | (Some al, Some t) \<Rightarrow>
                    Inr \<lparr> kp_ssh_alias = al, kp_transport = t, kp_identity_key = filled d ''identity_key'' \<rparr>)))"

definition write_keeper_pointer_file :: "keeper_pointer \<Rightarrow> cache_file" where
  "write_keeper_pointer_file p = Cache (JObj
     ([(''sshAlias'', JStr (kp_ssh_alias p)), (''transport'', JStr (kp_transport p))]
      @ optional_text_field ''identity_key'' (truthy (kp_identity_key p))))"

datatype keeper_identity_state = Keeper_verified | Keeper_mismatch | Keeper_absent

definition validate_keeper_identity :: "keeper_pointer \<Rightarrow> roster_row option \<Rightarrow> keeper_identity_state" where
  "validate_keeper_identity p row =
     (case truthy (kp_identity_key p) of
        None \<Rightarrow> Keeper_verified
      | Some k \<Rightarrow>
          (case row of
             None \<Rightarrow> Keeper_absent
           | Some r \<Rightarrow>
               (case row_key r of
                  None \<Rightarrow> Keeper_verified
                | Some k' \<Rightarrow> if k = k' then Keeper_verified else Keeper_mismatch)))"

section \<open>The attachment pointer\<close>

record attachment_pointer =
  ap_ssh_alias :: string
  ap_transport :: string
  ap_machine_id :: string

datatype pointer_read = Pointer_malformed string | Not_attached | Attached attachment_pointer

definition attachment_pointer_path :: "string \<Rightarrow> string" where
  "attachment_pointer_path home = home @ ''/.amico/ops/fleet/attachment.json''"

definition attachment_pointer_file_path :: "string option \<Rightarrow> string option \<Rightarrow> string \<Rightarrow> string" where
  "attachment_pointer_file_path injected env home = override_path injected env (attachment_pointer_path home)"

definition resolve_attachment_pointer :: "cache_file \<Rightarrow> pointer_read" where
  "resolve_attachment_pointer file =
     (case file of
        Cache_absent \<Rightarrow> Not_attached
      | Cache_unreadable msg \<Rightarrow> Pointer_malformed ''attachment_pointer_malformed: not valid JSON''
      | Cache v \<Rightarrow>
          (case json_object v of
             None \<Rightarrow> Pointer_malformed ''attachment_pointer_malformed: not a JSON object''
           | Some d \<Rightarrow>
               (case (filled d ''sshAlias'', filled d ''transport'', filled d ''machine_id'') of
                  (None, _, _) \<Rightarrow> Pointer_malformed (must_be_filled ''attachment_pointer'' ''sshAlias'')
                | (_, None, _) \<Rightarrow> Pointer_malformed (must_be_filled ''attachment_pointer'' ''transport'')
                | (_, _, None) \<Rightarrow> Pointer_malformed (must_be_filled ''attachment_pointer'' ''machine_id'')
                | (Some al, Some t, Some m) \<Rightarrow>
                    Attached \<lparr> ap_ssh_alias = al, ap_transport = t, ap_machine_id = m \<rparr>)))"

definition pointer_json :: "attachment_pointer \<Rightarrow> json" where
  "pointer_json p = JObj
     [(''sshAlias'', JStr (ap_ssh_alias p)), (''transport'', JStr (ap_transport p)),
      (''machine_id'', JStr (ap_machine_id p))]"

definition write_attachment_pointer_file :: "attachment_pointer \<Rightarrow> cache_file" where
  "write_attachment_pointer_file p = Cache (pointer_json p)"

definition clear_attachment_pointer_file :: "cache_file \<Rightarrow> cache_file" where
  "clear_attachment_pointer_file file = Cache_absent"

definition attachment_status_response :: "cache_file \<Rightarrow> json" where
  "attachment_status_response file =
     (case resolve_attachment_pointer file of
        Pointer_malformed e \<Rightarrow>
          JObj [(''ok'', JBool True), (''attached'', JBool False), (''pointer'', JNull), (''error'', JStr e)]
      | Not_attached \<Rightarrow> JObj [(''ok'', JBool True), (''attached'', JBool False), (''pointer'', JNull)]
      | Attached p \<Rightarrow> JObj [(''ok'', JBool True), (''attached'', JBool True), (''pointer'', pointer_json p)])"

section \<open>The effective stream\<close>

record stream_identity =
  si_machine_id :: string
  si_ssh_alias :: string
  si_transport :: string

datatype stream_signal =
    Stream_local
  | Stream_legacy stream_identity
  | Stream_multiplexed
  | Stream_error string

definition trimmed_field :: "keyed_doc \<Rightarrow> string \<Rightarrow> string" where
  "trimmed_field d k = js_trim (or_else (text_of d k) [])"

definition complete_effective_stream_identity :: "json \<Rightarrow> stream_identity option" where
  "complete_effective_stream_identity v =
     (case json_object v of
        None \<Rightarrow> None
      | Some d \<Rightarrow>
          (let i = \<lparr> si_machine_id = trimmed_field d ''machine_id'', si_ssh_alias = trimmed_field d ''sshAlias'',
                     si_transport = trimmed_field d ''transport'' \<rparr>
           in if si_machine_id i = [] \<or> si_ssh_alias i = [] \<or> si_transport i = [] then None else Some i))"

definition effective_stream_signal :: "bool \<Rightarrow> json \<Rightarrow> cache_file \<Rightarrow> stream_signal" where
  "effective_stream_signal multiplexed live file =
     (if multiplexed then Stream_multiplexed
      else (case resolve_attachment_pointer file of
              Pointer_malformed e \<Rightarrow> Stream_error e
            | Not_attached \<Rightarrow> Stream_local
            | Attached p \<Rightarrow>
                (case (complete_effective_stream_identity (pointer_json p), complete_effective_stream_identity live) of
                   (Some i, Some j) \<Rightarrow> if i = j then Stream_legacy i else Stream_error ''attachment_transport_unbound''
                 | _ \<Rightarrow> Stream_error ''attachment_transport_unbound'')))"

section \<open>The three-way resolver\<close>

datatype amicode_target = To_local | To_keeper "keeper_pointer option" | To_attached attachment_pointer

definition under_path :: "string \<Rightarrow> string \<Rightarrow> bool" where
  "under_path base pathname \<longleftrightarrow> pathname = base \<or> starts_with pathname (base @ ''/'')"

definition resolve_amicode_target :: "string \<Rightarrow> pointer_read \<Rightarrow> string + keeper_pointer \<Rightarrow> amicode_target" where
  "resolve_amicode_target pathname pointer keeper =
     (if under_path ''/amicode/fleet'' pathname then To_local
      else if under_path ''/amicode/roster'' pathname
      then To_keeper (case keeper of Inr k \<Rightarrow> Some k | Inl e \<Rightarrow> None)
      else (case pointer of Attached p \<Rightarrow> To_attached p | _ \<Rightarrow> To_local))"

section \<open>Credentials by machine\<close>

definition ATTACHMENT_CREDENTIAL_STORE_VERSION :: int where "ATTACHMENT_CREDENTIAL_STORE_VERSION = 1"

definition ATTACHMENT_COLLECTION :: string where "ATTACHMENT_COLLECTION = ''peers''"

record attachment_credential =
  ac_base_url :: string
  ac_token :: string

datatype attachment_credential_reason = Credential_absent | Credential_malformed | Credential_incomplete

definition attachment_credential_file_path :: "string option \<Rightarrow> string option \<Rightarrow> string \<Rightarrow> string" where
  "attachment_credential_file_path injected env home =
     override_path injected env (home @ ''/.amico/fleet-attachment-credentials.json'')"

definition read_attachment_credential ::
  "string \<Rightarrow> keyed_file \<Rightarrow> attachment_credential_reason + attachment_credential" where
  "read_attachment_credential m f =
     (case keyed_entry f ATTACHMENT_COLLECTION m of
        None \<Rightarrow> Inl Credential_absent
      | Some v \<Rightarrow>
          (case json_object v of
             None \<Rightarrow> Inl Credential_malformed
           | Some e \<Rightarrow>
               (let c = \<lparr> ac_base_url = trimmed_field e ''base_url'', ac_token = trimmed_field e ''token'' \<rparr>
                in if ac_base_url c = [] \<or> ac_token c = [] then Inl Credential_incomplete else Inr c)))"

definition write_attachment_credential :: "string \<Rightarrow> attachment_credential \<Rightarrow> keyed_file \<Rightarrow> keyed_file" where
  "write_attachment_credential m c f =
     upsert_keyed_entry ATTACHMENT_COLLECTION m
       (JObj [(''base_url'', JStr (js_trim (ac_base_url c))), (''token'', JStr (js_trim (ac_token c)))])
       ATTACHMENT_CREDENTIAL_STORE_VERSION f"

definition clear_attachment_credential :: "string \<Rightarrow> keyed_file \<Rightarrow> keyed_file" where
  "clear_attachment_credential m f =
     delete_keyed_entry ATTACHMENT_COLLECTION m ATTACHMENT_CREDENTIAL_STORE_VERSION f"

definition clear_all_attachment_credentials :: "keyed_file \<Rightarrow> keyed_file" where
  "clear_all_attachment_credentials f = clear_keyed_store_file f"

section \<open>The actions\<close>

record attach_stores =
  as_pointer :: cache_file
  as_credentials :: keyed_file

record attach_body =
  ab_machine_id :: string
  ab_base_url :: "string option"
  ab_token :: "string option"

text \<open>A posted body is \<open>None\<close> where it is not JSON.\<close>

definition parse_attach_body :: "json option \<Rightarrow> attach_body option" where
  "parse_attach_body raw =
     (case Option.bind raw json_object of
        None \<Rightarrow> None
      | Some d \<Rightarrow>
          (case filled d ''machine_id'' of
             None \<Rightarrow> None
           | Some m \<Rightarrow> Some \<lparr> ab_machine_id = m, ab_base_url = filled d ''base_url'', ab_token = filled d ''token'' \<rparr>))"

definition current_machine_id :: "attach_stores \<Rightarrow> string option" where
  "current_machine_id s =
     (case resolve_attachment_pointer (as_pointer s) of Attached p \<Rightarrow> Some (ap_machine_id p) | _ \<Rightarrow> None)"

text \<open>The topology reader: none injected, one that throws, or one that answers.\<close>

datatype topology_reader = No_reader | Reader_throws | Reader fleet_topology_state

definition resolve_canonical_fallback ::
  "string \<Rightarrow> topology_reader \<Rightarrow> (string \<times> string) + attachment_pointer" where
  "resolve_canonical_fallback m reader =
     (let unknown = Inl (''unknown_machine'', ''the requested machine_id is not in the fleet roster'')
      in case reader of
           Reader (Topology_ok t) \<Rightarrow>
             (case to_canonical t of
                None \<Rightarrow> unknown
              | Some c \<Rightarrow>
                  if canonical_machine_id (Some c) \<noteq> Some m then unknown
                  else
                    (let al = js_trim (or_else (fc_ssh_alias c) [])
                     in if al = [] then Inl (''canonical_no_ssh'', ''the canonical server has no sshAlias configured'')
                        else Inr \<lparr> ap_ssh_alias = al, ap_transport = ''ssh'', ap_machine_id = m \<rparr>))
         | _ \<Rightarrow> unknown)"

definition attach_target :: "topology_reader \<Rightarrow> keyed_file \<Rightarrow> string \<Rightarrow> (string \<times> string) + attachment_pointer" where
  "attach_target reader roster m =
     (case find (\<lambda>r. rr_machine_id r = m) (read_roster_rows roster) of
        Some r \<Rightarrow> Inr \<lparr> ap_ssh_alias = rr_ssh_alias r, ap_transport = rr_transport r, ap_machine_id = rr_machine_id r \<rparr>
      | None \<Rightarrow> resolve_canonical_fallback m reader)"

datatype attach_reply =
    Attach_refused string string
  | Attach_done attachment_pointer bool

text \<open>The reply, the stores, and whether the cursors were reset; \<open>hook\<close> says that the reset is wired.\<close>

definition attach_action ::
  "bool \<Rightarrow> topology_reader \<Rightarrow> keyed_file \<Rightarrow> json option \<Rightarrow> attach_stores
     \<Rightarrow> attach_reply \<times> attach_stores \<times> bool" where
  "attach_action hook reader roster raw s =
     (case parse_attach_body raw of
        None \<Rightarrow> (Attach_refused ''bad_request'' ''body must be a JSON object with a non-empty machine_id'', s, False)
      | Some body \<Rightarrow>
          (case attach_target reader roster (ab_machine_id body) of
             Inl (code, detail) \<Rightarrow> (Attach_refused code detail, s, False)
           | Inr p \<Rightarrow>
               (let prior = current_machine_id s;
                    credentials = (case (ab_base_url body, ab_token body) of
                        (Some u, Some t) \<Rightarrow>
                          write_attachment_credential (ap_machine_id p) \<lparr> ac_base_url = u, ac_token = t \<rparr> (as_credentials s)
                      | _ \<Rightarrow> as_credentials s);
                    switched = prior \<noteq> Some (ap_machine_id p)
                in (Attach_done p switched,
                    s\<lparr>as_pointer := write_attachment_pointer_file p, as_credentials := credentials\<rparr>,
                    switched \<and> hook))))"

definition detach_action ::
  "bool \<Rightarrow> json option \<Rightarrow> attach_stores \<Rightarrow> bool \<times> attach_stores \<times> bool" where
  "detach_action hook raw s =
     (let prior = current_machine_id s;
          named = Option.bind (Option.bind raw json_object) (\<lambda>d. filled d ''machine_id'');
          credential_machine = (case named of Some m \<Rightarrow> Some m | None \<Rightarrow> prior);
          credentials = (case truthy credential_machine of
              Some m \<Rightarrow> clear_attachment_credential m (as_credentials s) | None \<Rightarrow> as_credentials s);
          switched = prior \<noteq> None
      in (switched,
          s\<lparr>as_pointer := clear_attachment_pointer_file (as_pointer s), as_credentials := credentials\<rparr>,
          switched \<and> hook))"

end
