(* ===== verification/Attach_Lifecycle.thy ===== *)
theory Attach_Lifecycle
  imports Attachment
begin

text \<open>
  The live side of an attachment (\<open>packages/extension/src/amicode_service/attach_lifecycle.ts\<close>), the
  routes that drive actions and lifecycle (\<open>registerAttachmentRoutes\<close> in \<open>index.ts\<close>) and the recovery
  at boot (\<open>packages/extension/src/boot_attachment_recovery.ts\<close>). An asynchronous call is cut at its
  awaits: \<open>stop\<close> of a handle and the transport factory settle in events of their own, in any
  order. Transports are numbered as they come up; the world remembers which were asked to stop.
\<close>

section \<open>The lifecycle\<close>

text \<open>The proxy on the plane: where it dials and whose credential it reads.\<close>

record attached_proxy =
  px_url :: string
  px_machine :: string

record lifecycle =
  lc_handle :: "nat option"
  lc_machine :: "string option"
  lc_target :: "attachment_pointer option"
  lc_plane :: "attached_proxy option"
  lc_opened :: nat
  lc_asked :: "nat list"
  lc_resets :: nat

definition new_lifecycle :: lifecycle where
  "new_lifecycle = \<lparr> lc_handle = None, lc_machine = None, lc_target = None, lc_plane = None,
     lc_opened = 0, lc_asked = [], lc_resets = 0 \<rparr>"

definition effective_identity :: "lifecycle \<Rightarrow> json" where
  "effective_identity lc = (case lc_target lc of None \<Rightarrow> JUndefined | Some t \<Rightarrow> pointer_json t)"

definition credential_for_attachment ::
  "lifecycle \<Rightarrow> keyed_file \<Rightarrow> (attachment_credential_reason + attachment_credential) option" where
  "credential_for_attachment lc f = map_option (\<lambda>p. read_attachment_credential (px_machine p) f) (lc_plane lc)"

text \<open>Where a call stands at its await.\<close>

datatype attach_wait =
    Stopping_for_attach attachment_pointer
  | Opening attachment_pointer
  | Stopping_for_detach

definition ask_to_stop :: "lifecycle \<Rightarrow> lifecycle" where
  "ask_to_stop lc = (case lc_handle lc of None \<Rightarrow> lc | Some h \<Rightarrow> lc\<lparr>lc_asked := set_add h (lc_asked lc)\<rparr>)"

text \<open>The rest of the teardown, once the stop has settled.\<close>

definition torn_down :: "lifecycle \<Rightarrow> lifecycle" where
  "torn_down lc = lc\<lparr>lc_handle := None, lc_plane := None, lc_machine := None, lc_target := None\<rparr>"

definition attach_begin :: "attachment_pointer \<Rightarrow> lifecycle \<Rightarrow> lifecycle \<times> attach_wait" where
  "attach_begin tgt lc =
     (if lc_handle lc \<noteq> None then (ask_to_stop lc, Stopping_for_attach tgt) else (lc, Opening tgt))"

text \<open>The stop settles: the attach goes on to the factory, or is rejected where it failed.\<close>

definition attach_stopped :: "attachment_pointer \<Rightarrow> bool \<Rightarrow> lifecycle \<Rightarrow> lifecycle \<times> attach_wait option" where
  "attach_stopped tgt ok lc = (if ok then (torn_down lc, Some (Opening tgt)) else (lc, None))"

text \<open>The factory settles, with the local URL of the transport or with a failure.\<close>

definition attach_opened :: "attachment_pointer \<Rightarrow> string option \<Rightarrow> lifecycle \<Rightarrow> lifecycle" where
  "attach_opened tgt opened lc =
     (case opened of
        None \<Rightarrow> lc
      | Some url \<Rightarrow>
          lc\<lparr>lc_handle := Some (lc_opened lc), lc_opened := Suc (lc_opened lc),
             lc_plane := Some \<lparr> px_url = url, px_machine = ap_machine_id tgt \<rparr>,
             lc_machine := Some (ap_machine_id tgt), lc_target := Some tgt\<rparr>)"

definition detach_begin :: "lifecycle \<Rightarrow> lifecycle \<times> attach_wait option" where
  "detach_begin lc = (if lc_handle lc = None then (lc, None) else (ask_to_stop lc, Some Stopping_for_detach))"

text \<open>\<open>hook\<close> says that the lifecycle was given the cursor reset.\<close>

definition detach_stopped :: "bool \<Rightarrow> bool \<Rightarrow> lifecycle \<Rightarrow> lifecycle" where
  "detach_stopped hook ok lc =
     (if ok then (torn_down lc)\<lparr>lc_resets := (if hook then Suc (lc_resets lc) else lc_resets lc)\<rparr> else lc)"

section \<open>A call on its own\<close>

text \<open>A whole call, when no other call runs meanwhile: what its awaits meet, and whether it
  resolved.\<close>

definition lifecycle_attach :: "attachment_pointer \<Rightarrow> bool \<Rightarrow> string option \<Rightarrow> lifecycle \<Rightarrow> lifecycle \<times> bool" where
  "lifecycle_attach tgt stop_ok opened lc =
     (case attach_begin tgt lc of
        (lc1, Stopping_for_attach t) \<Rightarrow>
          (case attach_stopped t stop_ok lc1 of
             (lc2, None) \<Rightarrow> (lc2, False)
           | (lc2, Some w) \<Rightarrow> (attach_opened t opened lc2, opened \<noteq> None))
      | (lc1, w) \<Rightarrow> (attach_opened tgt opened lc1, opened \<noteq> None))"

definition lifecycle_detach :: "bool \<Rightarrow> bool \<Rightarrow> lifecycle \<Rightarrow> lifecycle \<times> bool" where
  "lifecycle_detach hook stop_ok lc =
     (case detach_begin lc of
        (lc1, None) \<Rightarrow> (lc1, True)
      | (lc1, Some w) \<Rightarrow> (detach_stopped hook stop_ok lc1, stop_ok))"

section \<open>Calls that overlap\<close>

record attach_system =
  sy_lifecycle :: lifecycle
  sy_calls :: "(nat \<times> attach_wait) list"
  sy_next :: nat

datatype attach_event =
    Begin_attach attachment_pointer
  | Begin_detach
  | Stop_settles nat bool
  | Factory_settles nat "string option"

definition wait_for :: "nat \<Rightarrow> attach_wait option \<Rightarrow> (nat \<times> attach_wait) list \<Rightarrow> (nat \<times> attach_wait) list" where
  "wait_for call w calls = (case w of None \<Rightarrow> obj_del calls call | Some w' \<Rightarrow> obj_set calls call w')"

fun attach_event_step :: "bool \<Rightarrow> attach_event \<Rightarrow> attach_system \<Rightarrow> attach_system" where
  "attach_event_step hook (Begin_attach tgt) s =
     (let (lc, w) = attach_begin tgt (sy_lifecycle s)
      in s\<lparr>sy_lifecycle := lc, sy_calls := wait_for (sy_next s) (Some w) (sy_calls s), sy_next := Suc (sy_next s)\<rparr>)"
| "attach_event_step hook Begin_detach s =
     (let (lc, w) = detach_begin (sy_lifecycle s)
      in s\<lparr>sy_lifecycle := lc, sy_calls := wait_for (sy_next s) w (sy_calls s), sy_next := Suc (sy_next s)\<rparr>)"
| "attach_event_step hook (Stop_settles call ok) s =
     (case obj_get (sy_calls s) call of
        Some (Stopping_for_attach tgt) \<Rightarrow>
          (let (lc, w) = attach_stopped tgt ok (sy_lifecycle s)
           in s\<lparr>sy_lifecycle := lc, sy_calls := wait_for call w (sy_calls s)\<rparr>)
      | Some Stopping_for_detach \<Rightarrow>
          s\<lparr>sy_lifecycle := detach_stopped hook ok (sy_lifecycle s), sy_calls := wait_for call None (sy_calls s)\<rparr>
      | _ \<Rightarrow> s)"
| "attach_event_step hook (Factory_settles call opened) s =
     (case obj_get (sy_calls s) call of
        Some (Opening tgt) \<Rightarrow>
          s\<lparr>sy_lifecycle := attach_opened tgt opened (sy_lifecycle s), sy_calls := wait_for call None (sy_calls s)\<rparr>
      | _ \<Rightarrow> s)"

definition attach_events :: "bool \<Rightarrow> attach_event list \<Rightarrow> attach_system \<Rightarrow> attach_system" where
  "attach_events hook es s = foldl (\<lambda>s e. attach_event_step hook e s) s es"

definition new_attach_system :: attach_system where
  "new_attach_system = \<lparr> sy_lifecycle = new_lifecycle, sy_calls = [], sy_next = 0 \<rparr>"

section \<open>The routes\<close>

text \<open>The service behind the routes; the lifecycle is there only where the fleet plane staged with a
  transport factory. The route resets the cursors itself, the lifecycle has no reset of its own.\<close>

record attach_service =
  at_stores :: attach_stores
  at_lifecycle :: "lifecycle option"
  at_resets :: nat

datatype attach_route_reply =
    Route_attach attach_reply
  | Transport_failed
  | Route_detach bool

definition attach_route ::
  "keyed_file \<Rightarrow> json option \<Rightarrow> bool \<Rightarrow> string option \<Rightarrow> attach_service \<Rightarrow> attach_route_reply \<times> attach_service" where
  "attach_route roster raw stop_ok opened sv =
     (let (reply, stores, reset) = attach_action False No_reader roster raw (at_stores sv);
          sv1 = sv\<lparr>at_stores := stores\<rparr>
      in case (at_lifecycle sv, reply) of
           (Some lc, Attach_done p switched) \<Rightarrow>
             (let (lc', ok) = lifecycle_attach p stop_ok opened lc;
                  sv2 = sv1\<lparr>at_lifecycle := Some lc'\<rparr>
              in if ok then (Route_attach reply, sv2\<lparr>at_resets := at_resets sv + (if switched then 1 else 0)\<rparr>)
                 else (Transport_failed, sv2))
         | _ \<Rightarrow> (Route_attach reply, sv1))"

definition detach_route :: "json option \<Rightarrow> bool \<Rightarrow> attach_service \<Rightarrow> attach_route_reply \<times> attach_service" where
  "detach_route raw stop_ok sv =
     (let live = map_option (\<lambda>lc. fst (lifecycle_detach False stop_ok lc)) (at_lifecycle sv);
          (switched, stores, reset) = detach_action True raw (at_stores sv)
      in (Route_detach switched,
          sv\<lparr>at_stores := stores, at_lifecycle := live, at_resets := at_resets sv + (if reset then 1 else 0)\<rparr>))"

definition effective_stream_route :: "bool \<Rightarrow> attach_service \<Rightarrow> stream_signal" where
  "effective_stream_route multiplexed sv =
     effective_stream_signal multiplexed
       (case at_lifecycle sv of None \<Rightarrow> JUndefined | Some lc \<Rightarrow> effective_identity lc) (as_pointer (at_stores sv))"

section \<open>Recovery at boot\<close>

text \<open>What bringing the transport up meets: no factory, a failure, or the local URL.\<close>

datatype bring_up = No_factory | Bring_up_failed string | Brought_up string

record boot_attachment =
  bo_url :: string
  bo_pointer :: attachment_pointer

definition recover_boot_attachment :: "cache_file \<Rightarrow> bring_up \<Rightarrow> boot_attachment option \<times> string list" where
  "recover_boot_attachment file outcome =
     (case resolve_attachment_pointer file of
        Pointer_malformed e \<Rightarrow>
          (None, [''[boot-attachment] pointer malformed '' @ em_dash @ '' '' @ e @ ''; using local sessions''])
      | Not_attached \<Rightarrow> (None, [])
      | Attached p \<Rightarrow>
          (let found = ''[boot-attachment] found pointer '' @ right_arrow @ '' '' @ ap_machine_id p
                 @ '' ('' @ ap_ssh_alias p @ '')''
           in case outcome of
                No_factory \<Rightarrow>
                  (None, [found, ''[boot-attachment] no transport factory available '' @ em_dash
                     @ '' using local sessions''])
              | Bring_up_failed msg \<Rightarrow>
                  (None, [found, ''[boot-attachment] transport failed for '' @ ap_machine_id p @ '' '' @ em_dash
                     @ '' '' @ msg @ ''; using local sessions''])
              | Brought_up url \<Rightarrow>
                  (Some \<lparr> bo_url = url, bo_pointer = p \<rparr>,
                   [found, ''[boot-attachment] transport ready '' @ right_arrow @ '' '' @ url])))"

definition boot_credential :: "boot_attachment \<Rightarrow> keyed_file \<Rightarrow> attachment_credential option" where
  "boot_credential b f =
     (case read_attachment_credential (ap_machine_id (bo_pointer b)) f of Inl e \<Rightarrow> None | Inr c \<Rightarrow> Some c)"

end
