(* ===== verification/Attach_Properties.thy ===== *)
theory Attach_Properties
  imports Attach_Lifecycle Roster_Properties
begin

text \<open>
  Properties of attaching: pointers and credentials read back as written, an attach takes its
  coordinates from the roster alone, the routes keep at most one live transport and announce a
  stream only over it; and where the code departs from its comments.
\<close>

section \<open>Pointers\<close>

lemma filled_iff: "filled d k = Some s \<longleftrightarrow> text_of d k = Some s \<and> js_trim s \<noteq> []"
  by (auto simp: filled_def split: option.splits if_splits)

lemma filled_None: "filled d k = None \<longleftrightarrow> (case text_of d k of None \<Rightarrow> True | Some s \<Rightarrow> js_trim s = [])"
  by (auto simp: filled_def split: option.splits if_splits)

lemma pointer_fields [simp]:
  "text_of [(''sshAlias'', JStr a), (''transport'', JStr t), (''machine_id'', JStr m)] ''sshAlias'' = Some a"
  "text_of [(''sshAlias'', JStr a), (''transport'', JStr t), (''machine_id'', JStr m)] ''transport'' = Some t"
  "text_of [(''sshAlias'', JStr a), (''transport'', JStr t), (''machine_id'', JStr m)] ''machine_id'' = Some m"
  by (simp_all add: text_of_def)

definition full_pointer :: "attachment_pointer \<Rightarrow> bool" where
  "full_pointer p \<longleftrightarrow> js_trim (ap_ssh_alias p) \<noteq> [] \<and> js_trim (ap_transport p) \<noteq> [] \<and> js_trim (ap_machine_id p) \<noteq> []"

lemma pointer_reads_back: "full_pointer p \<Longrightarrow> resolve_attachment_pointer (write_attachment_pointer_file p) = Attached p"
  by (simp add: full_pointer_def resolve_attachment_pointer_def write_attachment_pointer_file_def pointer_json_def filled_def)

lemma resolved_pointer_full: "resolve_attachment_pointer file = Attached p \<Longrightarrow> full_pointer p"
  by (auto simp: resolve_attachment_pointer_def full_pointer_def filled_iff
      split: cache_file.splits option.splits)

lemma written_pointer_iff:
  "resolve_attachment_pointer (write_attachment_pointer_file p) = Attached p \<longleftrightarrow> full_pointer p"
  using pointer_reads_back resolved_pointer_full by blast

lemma cleared_pointer [simp]: "resolve_attachment_pointer (clear_attachment_pointer_file file) = Not_attached"
  by (simp add: clear_attachment_pointer_file_def resolve_attachment_pointer_def)

lemma keeper_fields [simp]:
  "text_of ([(''sshAlias'', JStr a), (''transport'', JStr t)] @ optional_text_field ''identity_key'' k) ''sshAlias'' = Some a"
  "text_of ([(''sshAlias'', JStr a), (''transport'', JStr t)] @ optional_text_field ''identity_key'' k) ''transport'' = Some t"
  "text_of ([(''sshAlias'', JStr a), (''transport'', JStr t)] @ optional_text_field ''identity_key'' k) ''identity_key'' = k"
  by (cases k; simp add: text_of_def optional_text_field_def)+

lemma keeper_reads_back:
  "resolve_keeper_pointer path (write_keeper_pointer_file p) = Inr p \<longleftrightarrow>
     js_trim (kp_ssh_alias p) \<noteq> [] \<and> js_trim (kp_transport p) \<noteq> []
     \<and> (case kp_identity_key p of None \<Rightarrow> True | Some k \<Rightarrow> js_trim k \<noteq> [])"
proof (cases p)
  case (fields al t k)
  then show ?thesis
    by (cases k rule: truthy.cases)
      (auto simp: resolve_keeper_pointer_def write_keeper_pointer_file_def filled_def simp del: append.simps
        split: option.splits)
qed

section \<open>Credentials\<close>

lemma collection_ok [simp]: "ATTACHMENT_COLLECTION \<noteq> store_version_key"
  by (simp add: ATTACHMENT_COLLECTION_def store_version_key_def)

lemma trimmed_credential [simp]:
  "trimmed_field [(''base_url'', JStr u), (''token'', JStr t)] ''base_url'' = js_trim u"
  "trimmed_field [(''base_url'', JStr u), (''token'', JStr t)] ''token'' = js_trim t"
  by (simp_all add: trimmed_field_def text_of_def)

lemma credential_written:
  "read_attachment_credential m' (write_attachment_credential m c f) =
     (if m' = m
      then if js_trim (ac_base_url c) = [] \<or> js_trim (ac_token c) = [] then Inl Credential_incomplete
           else Inr \<lparr> ac_base_url = js_trim (ac_base_url c), ac_token = js_trim (ac_token c) \<rparr>
      else read_attachment_credential m' f)"
  unfolding read_attachment_credential_def write_attachment_credential_def
  by (subst file_store.entry_upsert) (simp_all add: Let_def)

lemma credential_cleared:
  "read_attachment_credential m' (clear_attachment_credential m f) =
     (if m' = m then Inl Credential_absent else read_attachment_credential m' f)"
  unfolding read_attachment_credential_def clear_attachment_credential_def
  by (subst file_store.entry_delete) simp_all

section \<open>The actions\<close>

lemma parsed_body:
  "parse_attach_body raw = Some body \<Longrightarrow> js_trim (ab_machine_id body) \<noteq> []
     \<and> (case ab_base_url body of None \<Rightarrow> True | Some u \<Rightarrow> js_trim u \<noteq> [])
     \<and> (case ab_token body of None \<Rightarrow> True | Some t \<Rightarrow> js_trim t \<noteq> [])"
  by (auto simp: parse_attach_body_def filled_iff split: option.splits)

text \<open>Where the coordinates of a machine may come from.\<close>

definition known_coordinates :: "topology_reader \<Rightarrow> keyed_file \<Rightarrow> attachment_pointer \<Rightarrow> bool" where
  "known_coordinates reader roster p \<longleftrightarrow>
     list_ex (\<lambda>r. rr_machine_id r = ap_machine_id p \<and> rr_ssh_alias r = ap_ssh_alias p \<and> rr_transport r = ap_transport p)
       (read_roster_rows roster)
     \<or> (case reader of
          Reader (Topology_ok t) \<Rightarrow>
            canonical_machine_id (to_canonical t) = Some (ap_machine_id p) \<and> ap_transport p = ''ssh''
            \<and> ap_ssh_alias p = js_trim (or_else (Option.bind (to_canonical t) fc_ssh_alias) [])
        | _ \<Rightarrow> False)"

lemma attach_target_known:
  assumes "attach_target reader roster m = Inr p"
  shows "ap_machine_id p = m \<and> known_coordinates reader roster p"
proof (cases "find (\<lambda>r. rr_machine_id r = m) (read_roster_rows roster)")
  case (Some r)
  with assms find_SomeD [OF Some] show ?thesis
    by (auto simp: attach_target_def known_coordinates_def list_ex_iff)
next
  case None
  with assms have "resolve_canonical_fallback m reader = Inr p" by (simp add: attach_target_def)
  then show ?thesis
    by (auto simp: resolve_canonical_fallback_def Let_def known_coordinates_def
        split: topology_reader.splits fleet_topology_state.splits option.splits if_splits)
qed

lemma attach_refused_keeps:
  "attach_action hook reader roster raw s = (Attach_refused code detail, s', reset) \<Longrightarrow> s' = s"
  by (auto simp: attach_action_def Let_def split: option.splits sum.splits)

text \<open>An attach goes where the roster says. A refused one leaves pointer and credentials alone. One
  that is done points at the machine that was asked for, at coordinates of a roster row of that
  machine or of the canonical server, whatever else the body holds; the pointer reads back exactly
  when those coordinates are not blank; the machine's credential is the one that was given, trimmed,
  where both halves were, and is otherwise what it was, as is every other machine's; and the
  switch, with the reset of the cursors where it is wired, is reported exactly when another machine
  or none was attached before.\<close>

theorem attach_goes_where_the_roster_says:
  "case attach_action hook reader roster raw s of (reply, s', reset) \<Rightarrow>
     (case reply of
        Attach_refused code detail \<Rightarrow> s' = s \<and> \<not> reset
      | Attach_done p switched \<Rightarrow>
          (case parse_attach_body raw of
             None \<Rightarrow> False
           | Some body \<Rightarrow>
               ap_machine_id p = ab_machine_id body \<and> known_coordinates reader roster p
               \<and> (resolve_attachment_pointer (as_pointer s') = Attached p \<longleftrightarrow>
                    js_trim (ap_ssh_alias p) \<noteq> [] \<and> js_trim (ap_transport p) \<noteq> [])
               \<and> read_attachment_credential m (as_credentials s') =
                   (if m = ap_machine_id p \<and> ab_base_url body \<noteq> None \<and> ab_token body \<noteq> None
                    then Inr \<lparr> ac_base_url = js_trim (the (ab_base_url body)), ac_token = js_trim (the (ab_token body)) \<rparr>
                    else read_attachment_credential m (as_credentials s))
               \<and> (switched \<longleftrightarrow> current_machine_id s \<noteq> Some (ap_machine_id p)) \<and> reset = (switched \<and> hook)))"
proof (cases "parse_attach_body raw")
  case None
  then show ?thesis by (simp add: attach_action_def)
next
  case (Some body)
  note body = parsed_body [OF Some]
  show ?thesis
  proof (cases "attach_target reader roster (ab_machine_id body)")
    case (Inl e)
    with Some show ?thesis by (cases e) (simp add: attach_action_def)
  next
    case (Inr p)
    note known = attach_target_known [OF Inr]
    have full: "full_pointer p \<longleftrightarrow> js_trim (ap_ssh_alias p) \<noteq> [] \<and> js_trim (ap_transport p) \<noteq> []"
      using known body by (simp add: full_pointer_def)
    show ?thesis
      using known body
      by (cases "ab_base_url body"; cases "ab_token body")
        (auto simp: attach_action_def Some Inr Let_def written_pointer_iff full credential_written)
  qed
qed

text \<open>A detach leaves nothing attached. The pointer is empty, the credential of the machine that was
  named, or else of the one that was attached, is gone and every other machine's is what it was; a
  switch is reported exactly when a machine was attached, and a second detach changes nothing.\<close>

theorem detach_leaves_nothing_attached:
  "case detach_action hook raw s of (switched, s', reset) \<Rightarrow>
     resolve_attachment_pointer (as_pointer s') = Not_attached \<and> current_machine_id s' = None
     \<and> (switched \<longleftrightarrow> current_machine_id s \<noteq> None) \<and> reset = (switched \<and> hook)
     \<and> read_attachment_credential m (as_credentials s') =
         (if Some m = (case Option.bind (Option.bind raw json_object) (\<lambda>d. filled d ''machine_id'') of
                         Some n \<Rightarrow> Some n | None \<Rightarrow> current_machine_id s)
          then Inl Credential_absent else read_attachment_credential m (as_credentials s))
     \<and> detach_action hook None s' = (False, s', False)"
proof -
  let ?named = "Option.bind (Option.bind raw json_object) (\<lambda>d. filled d ''machine_id'')"
  have named: "?named = Some n \<Longrightarrow> n \<noteq> []" for n by (auto simp: bind_eq_Some_conv filled_iff)
  have prior: "current_machine_id s = Some n \<Longrightarrow> n \<noteq> []" for n
    by (auto simp: current_machine_id_def full_pointer_def dest!: resolved_pointer_full split: pointer_read.splits)
  have gone: "as_pointer s1 = Cache_absent \<Longrightarrow> current_machine_id s1 = None" for s1
    by (simp add: current_machine_id_def resolve_attachment_pointer_def)
  have empty: "resolve_attachment_pointer Cache_absent = Not_attached" by (simp add: resolve_attachment_pointer_def)
  show ?thesis
  proof (cases ?named)
    case None
    then show ?thesis
    proof (cases "current_machine_id s")
      case None
      with \<open>?named = None\<close> show ?thesis
        by (simp add: detach_action_def Let_def gone empty clear_attachment_pointer_file_def)
    next
      case (Some n)
      with \<open>?named = None\<close> prior [OF Some] show ?thesis
        by (simp add: detach_action_def Let_def gone empty credential_cleared clear_attachment_pointer_file_def)
    qed
  next
    case (Some n)
    with named [OF Some] show ?thesis
      by (simp add: detach_action_def Let_def gone empty credential_cleared clear_attachment_pointer_file_def)
  qed
qed

section \<open>The lifecycle\<close>

text \<open>Handle, machine, target and the proxy on the plane agree, and every transport that came up is the
  handle or was asked to stop.\<close>

definition lifecycle_agrees :: "lifecycle \<Rightarrow> bool" where
  "lifecycle_agrees lc \<longleftrightarrow>
     lc_machine lc = map_option ap_machine_id (lc_target lc)
     \<and> map_option px_machine (lc_plane lc) = lc_machine lc
     \<and> (lc_handle lc = None \<longleftrightarrow> lc_target lc = None)
     \<and> (case lc_handle lc of None \<Rightarrow> True | Some h \<Rightarrow> h < lc_opened lc)
     \<and> list_all (\<lambda>n. Some n = lc_handle lc \<or> n \<in> set (lc_asked lc)) [0..<lc_opened lc]"

lemma new_lifecycle_agrees: "lifecycle_agrees new_lifecycle"
  by (simp add: lifecycle_agrees_def new_lifecycle_def)

lemma ask_to_stop_agrees:
  "lifecycle_agrees lc \<Longrightarrow> lifecycle_agrees (ask_to_stop lc)"
  by (cases "lc_handle lc") (auto simp: lifecycle_agrees_def ask_to_stop_def list_all_iff)

lemma torn_down_agrees:
  "lifecycle_agrees lc \<Longrightarrow> lifecycle_agrees (torn_down (ask_to_stop lc))"
  by (cases "lc_handle lc") (auto simp: lifecycle_agrees_def ask_to_stop_def torn_down_def list_all_iff)

lemma opened_agrees:
  "lifecycle_agrees lc \<Longrightarrow> lc_handle lc = None \<Longrightarrow> lifecycle_agrees (attach_opened tgt opened lc)"
  by (cases opened) (auto simp: lifecycle_agrees_def attach_opened_def list_all_iff)

lemma resets_agrees [simp]: "lifecycle_agrees (lc\<lparr>lc_resets := n\<rparr>) \<longleftrightarrow> lifecycle_agrees lc"
  by (simp add: lifecycle_agrees_def split: option.split)

lemma torn_down_resets [simp]: "(torn_down lc)\<lparr>lc_resets := lc_resets lc\<rparr> = torn_down lc"
  by (cases lc) (simp add: torn_down_def)

lemma lifecycle_attach_spec:
  "lifecycle_attach tgt stop_ok opened lc =
     (if lc_handle lc = None then (attach_opened tgt opened lc, opened \<noteq> None)
      else if stop_ok then (attach_opened tgt opened (torn_down (ask_to_stop lc)), opened \<noteq> None)
      else (ask_to_stop lc, False))"
  by (simp add: lifecycle_attach_def attach_begin_def attach_stopped_def)

lemma lifecycle_detach_spec:
  "lifecycle_detach False stop_ok lc =
     (if lc_handle lc = None then (lc, True)
      else if stop_ok then (torn_down (ask_to_stop lc), True)
      else (ask_to_stop lc, False))"
  by (simp add: lifecycle_detach_def detach_begin_def detach_stopped_def)

lemma torn_down_handle [simp]: "lc_handle (torn_down lc) = None"
  by (simp add: torn_down_def)

lemma attach_agrees:
  "lifecycle_agrees lc \<Longrightarrow> lifecycle_agrees (fst (lifecycle_attach tgt stop_ok opened lc))"
  by (auto simp: lifecycle_attach_spec intro: opened_agrees torn_down_agrees ask_to_stop_agrees)

lemma detach_agrees:
  "lifecycle_agrees lc \<Longrightarrow> lifecycle_agrees (fst (lifecycle_detach False stop_ok lc))"
  by (auto simp: lifecycle_detach_spec intro: torn_down_agrees ask_to_stop_agrees)

section \<open>Runs of the routes\<close>

text \<open>The requests one after the other, each with the roster of its time and what its awaits meet.\<close>

datatype attach_request =
    Post_attach keyed_file "json option" bool "string option"
  | Post_detach "json option" bool

fun attach_request_step :: "attach_request \<Rightarrow> attach_service \<Rightarrow> attach_service" where
  "attach_request_step (Post_attach roster raw stop_ok opened) sv = snd (attach_route roster raw stop_ok opened sv)"
| "attach_request_step (Post_detach raw stop_ok) sv = snd (detach_route raw stop_ok sv)"

definition attach_requests :: "attach_request list \<Rightarrow> attach_service \<Rightarrow> attach_service" where
  "attach_requests rs sv = foldl (\<lambda>sv r. attach_request_step r sv) sv rs"

definition service_agrees :: "attach_service \<Rightarrow> bool" where
  "service_agrees sv \<longleftrightarrow> (case at_lifecycle sv of None \<Rightarrow> True | Some lc \<Rightarrow> lifecycle_agrees lc)"

lemma attach_route_live:
  "map_option (\<lambda>lc. True) (at_lifecycle (snd (attach_route roster raw stop_ok opened sv))) =
     map_option (\<lambda>lc. True) (at_lifecycle sv)"
  "service_agrees sv \<Longrightarrow> service_agrees (snd (attach_route roster raw stop_ok opened sv))"
  by (auto simp: attach_route_def service_agrees_def Let_def split: prod.splits option.splits attach_reply.splits)
    (metis attach_agrees fst_conv)+

lemma request_agrees: "service_agrees sv \<Longrightarrow> service_agrees (attach_request_step r sv)"
proof (cases r)
  case (Post_attach roster raw stop_ok opened)
  assume "service_agrees sv"
  with Post_attach show ?thesis by (simp add: attach_route_live)
next
  case (Post_detach raw stop_ok)
  assume "service_agrees sv"
  with Post_detach show ?thesis
    by (auto simp: detach_route_def service_agrees_def Let_def detach_agrees split: prod.splits option.splits)
qed

lemma requests_agree: "service_agrees sv \<Longrightarrow> service_agrees (attach_requests rs sv)"
  by (induction rs rule: rev_induct) (simp_all add: attach_requests_def request_agrees)

lemma pointer_identity:
  "complete_effective_stream_identity (pointer_json p) =
     (if full_pointer p
      then Some \<lparr> si_machine_id = js_trim (ap_machine_id p), si_ssh_alias = js_trim (ap_ssh_alias p),
                  si_transport = js_trim (ap_transport p) \<rparr>
      else None)"
  by (simp add: complete_effective_stream_identity_def pointer_json_def trimmed_field_def full_pointer_def Let_def)

lemma undefined_identity [simp]: "complete_effective_stream_identity JUndefined = None"
  by (simp add: complete_effective_stream_identity_def)


text \<open>An attach that the route reports as done is live. With a lifecycle, the pointer's machine is
  then on the plane at the URL the factory gave, the stream is announced as its own where the
  pointer reads back, and the cursors were reset exactly when the machine changed; a machine the
  roster does not list is refused, with nothing changed, also when it is the canonical server.\<close>

theorem reported_attach_is_live:
  assumes "attach_route roster raw stop_ok opened sv = (reply, sv')" and "at_lifecycle sv = Some lc"
  shows "(case reply of
        Route_attach (Attach_done p switched) \<Rightarrow>
          (case opened of
             None \<Rightarrow> False
           | Some url \<Rightarrow>
               Option.bind (at_lifecycle sv') lc_plane = Some \<lparr> px_url = url, px_machine = ap_machine_id p \<rparr>
               \<and> at_resets sv' = at_resets sv + (if switched then 1 else 0)
               \<and> effective_stream_route False sv' =
                   (case complete_effective_stream_identity (pointer_json p) of
                      Some i \<Rightarrow> Stream_legacy i
                    | None \<Rightarrow> effective_stream_signal False JUndefined (write_attachment_pointer_file p)))
      | Route_attach (Attach_refused code detail) \<Rightarrow> sv' = sv
      | _ \<Rightarrow> reply = Transport_failed \<and> at_resets sv' = at_resets sv)
    \<and> (case parse_attach_body raw of
         Some body \<Rightarrow> list_ex (\<lambda>r. rr_machine_id r = ab_machine_id body) (read_roster_rows roster)
           \<or> (\<exists>code detail. reply = Route_attach (Attach_refused code detail))
       | None \<Rightarrow> True)"
proof -
  obtain areply stores reset where act: "attach_action False No_reader roster raw (at_stores sv) = (areply, stores, reset)"
    by (cases "attach_action False No_reader roster raw (at_stores sv)")
  show ?thesis
  proof (cases areply)
    case (Attach_refused code detail)
    with act have "stores = at_stores sv" by (auto dest: attach_refused_keeps)
    with assms act Attach_refused show ?thesis by (auto simp: attach_route_def split: option.split)
  next
    case (Attach_done p switched)
    from act Attach_done obtain body where body: "parse_attach_body raw = Some body"
        "attach_target No_reader roster (ab_machine_id body) = Inr p" "as_pointer stores = write_attachment_pointer_file p"
      by (auto simp: attach_action_def Let_def split: option.splits sum.splits)
    have row: "list_ex (\<lambda>r. rr_machine_id r = ab_machine_id body) (read_roster_rows roster)"
      using body(2) find_SomeD [of "\<lambda>r. rr_machine_id r = ab_machine_id body" "read_roster_rows roster"]
      by (auto simp: attach_target_def resolve_canonical_fallback_def Let_def list_ex_iff split: option.splits)
    obtain lc' ok where att: "lifecycle_attach p stop_ok opened lc = (lc', ok)"
      by (cases "lifecycle_attach p stop_ok opened lc")
    show ?thesis
    proof (cases ok)
      case True
      with att obtain url where url: "opened = Some url"
        by (cases opened) (auto simp: lifecycle_attach_spec split: if_splits)
      with att True have live: "lc_plane lc' = Some \<lparr> px_url = url, px_machine = ap_machine_id p \<rparr>" "lc_target lc' = Some p"
        by (auto simp: lifecycle_attach_spec attach_opened_def split: if_splits)
      have out: "reply = Route_attach (Attach_done p switched)" "at_lifecycle sv' = Some lc'" "at_stores sv' = stores"
          "at_resets sv' = at_resets sv + (if switched then 1 else 0)"
        using assms act Attach_done att True by (auto simp: attach_route_def)
      have "effective_stream_route False sv' =
          (case complete_effective_stream_identity (pointer_json p) of
             Some i \<Rightarrow> Stream_legacy i
           | None \<Rightarrow> effective_stream_signal False JUndefined (write_attachment_pointer_file p))"
      proof (cases "full_pointer p")
        case True
        then show ?thesis
          by (simp add: effective_stream_route_def effective_stream_signal_def out body(3) pointer_reads_back
              effective_identity_def live pointer_identity)
      next
        case False
        then have "resolve_attachment_pointer (write_attachment_pointer_file p) \<noteq> Attached p'" for p'
          by (auto simp: full_pointer_def resolve_attachment_pointer_def write_attachment_pointer_file_def
              pointer_json_def filled_def split: option.splits if_splits)
        with False show ?thesis
          by (auto simp: effective_stream_route_def effective_stream_signal_def out body(3) pointer_identity
              split: pointer_read.split)
      qed
      with out url live row body(1) show ?thesis by simp
    next
      case False
      with assms act Attach_done att row body(1) show ?thesis by (auto simp: attach_route_def)
    qed
  qed
qed

section \<open>After a detach\<close>

lemma detached_is_local:
  "detach_action hook raw s = (switched, s', reset) \<Longrightarrow> \<not> under_path ''/amicode/roster'' pathname \<Longrightarrow>
     resolve_amicode_target pathname (resolve_attachment_pointer (as_pointer s')) keeper = To_local
     \<and> recover_boot_attachment (as_pointer s') outcome = (None, [])"
  by (auto simp: detach_action_def Let_def resolve_amicode_target_def recover_boot_attachment_def)

section \<open>Where the code departs from its comments\<close>

definition demo_roster :: keyed_file where
  "demo_roster = Some (roster_json \<lparr> rd_schema_version = 1,
     rd_rows = [demo_row ''a'' ''al-a'' None, demo_row ''b'' ''al-b'' None, demo_row ''c'' [] None] \<rparr>)"

definition ask_for :: "string \<Rightarrow> json option" where
  "ask_for m = Some (JObj [(''machine_id'', JStr m)])"

definition demo_service :: attach_service where
  "demo_service = \<lparr> at_stores = \<lparr> as_pointer = Cache_absent, as_credentials = None \<rparr>,
     at_lifecycle = Some new_lifecycle, at_resets = 0 \<rparr>"

text \<open>A failed bind must not leave the stream on the old cursors, the comments say; but the failed
  attach has moved the pointer already, so the retry that succeeds sees no switch and never resets
  them.\<close>

theorem retry_after_a_failed_bind_skips_the_reset:
  "let a = attach_requests [Post_attach demo_roster (ask_for ''a'') True (Some ''ua'')] demo_service;
       b = attach_requests [Post_attach demo_roster (ask_for ''b'') True None,
                            Post_attach demo_roster (ask_for ''b'') True (Some ''ub'')] a
   in map_option px_machine (Option.bind (at_lifecycle a) lc_plane) = Some ''a'' \<and> at_resets a = 1
      \<and> map_option px_machine (Option.bind (at_lifecycle b) lc_plane) = Some ''b'' \<and> at_resets b = 1"
  by code_simp

text \<open>The actions never leave a half-write, the comments say; an attach whose transport fails is
  answered as not attached, with the pointer on the new machine, where the next boot picks it up.\<close>

theorem failed_attach_moves_the_pointer:
  "let (reply, sv) = attach_route demo_roster (ask_for ''b'') True None demo_service
   in reply = Transport_failed \<and> current_machine_id (at_stores sv) = Some ''b''
      \<and> map_option bo_pointer (fst (recover_boot_attachment (as_pointer (at_stores sv)) (Brought_up ''u'')))
          = Some \<lparr> ap_ssh_alias = ''al-b'', ap_transport = ''ssh'', ap_machine_id = ''b'' \<rparr>"
  by code_simp

text \<open>A roster row may have an empty alias; attaching to it succeeds and writes a pointer that does not
  read back.\<close>

theorem attach_without_alias_reads_malformed:
  "let (reply, s, reset) = attach_action True No_reader demo_roster (ask_for ''c'') (at_stores demo_service)
   in reply = Attach_done \<lparr> ap_ssh_alias = [], ap_transport = ''ssh'', ap_machine_id = ''c'' \<rparr> True
      \<and> resolve_attachment_pointer (as_pointer s) = Pointer_malformed (must_be_filled ''attachment_pointer'' ''sshAlias'')"
  by code_simp

definition demo_pointer :: "string \<Rightarrow> attachment_pointer" where
  "demo_pointer m = \<lparr> ap_ssh_alias = m, ap_transport = ''ssh'', ap_machine_id = m \<rparr>"

text \<open>One attachment at a time, no stacking, the comments say; two attaches that overlap bring two
  transports up and the first is never stopped.\<close>

theorem overlapping_attaches_leave_a_transport:
  "let lc = sy_lifecycle (attach_events False
        [Begin_attach (demo_pointer ''a''), Begin_attach (demo_pointer ''b''),
         Factory_settles 0 (Some ''ua''), Factory_settles 1 (Some ''ub'')] new_attach_system)
   in lc_opened lc = 2 \<and> lc_handle lc = Some 1 \<and> lc_asked lc = []"
  by code_simp

text \<open>A detach while the transport still comes up finds nothing to tear down; the machine is attached
  afterwards.\<close>

theorem detach_during_an_attach_is_lost:
  "let s = attach_events False [Begin_attach (demo_pointer ''a''), Begin_detach, Factory_settles 0 (Some ''ua'')]
        new_attach_system
   in sy_calls s = [] \<and> lc_machine (sy_lifecycle s) = Some ''a''"
  by code_simp

section \<open>Instances\<close>


lemma demo_attached:
  "fst (attach_route demo_roster (ask_for ''a'') True (Some ''ua'') demo_service) =
     Route_attach (Attach_done \<lparr> ap_ssh_alias = ''al-a'', ap_transport = ''ssh'', ap_machine_id = ''a'' \<rparr> True)"
  by code_simp

theorem reported_attach_is_live_witness:
  "Option.bind (at_lifecycle (snd (attach_route demo_roster (ask_for ''a'') True (Some ''ua'') demo_service))) lc_plane
     = Some \<lparr> px_url = ''ua'', px_machine = ''a'' \<rparr>"
proof -
  have "at_lifecycle demo_service = Some new_lifecycle" by (simp add: demo_service_def)
  from reported_attach_is_live [OF surjective_pairing this, of demo_roster "ask_for ''a''" True "Some ''ua''"]
  show ?thesis by (simp add: demo_attached)
qed

end
