(* ===== verification/Hub_Relay.thy ===== *)
theory Hub_Relay
  imports Hub_Writes Session_Resume
begin

text \<open>
  The hop of one request to another origin, under \<open>packages/extension/src/amicode_service/\<close>: the hub
  proxy with its credential translation (\<open>hub_proxy.ts\<close>: \<open>handle\<close>, \<open>handleUpgrade\<close>), the engine proxy
  (\<open>engine_proxy.ts\<close>) and the probe of the local engine (\<open>local_session_probe.ts\<close>). A hop is planned
  from what its getters answer at that moment; what then happens on the wire is a sequence of
  events, one step each. The URL library and the authorization header of a token are arguments.
\<close>

section \<open>What the proxies are given\<close>

text \<open>An incoming URL read against an origin, its \<open>auth_token\<close> removed: its text, its path, its
  \<open>after\<close> parameter and its text once \<open>after\<close> is set.\<close>

record incoming_url =
  iu_href :: string
  iu_path :: string
  iu_after :: "string option"
  iu_with_after :: "string \<Rightarrow> string"

record relay_library =
  parse_incoming :: "string \<Rightarrow> string \<Rightarrow> incoming_url option"
  auth_header_of :: "string \<Rightarrow> string"

record hop_source =
  ho_method :: string
  ho_url :: string
  ho_headers :: "header_value obj"

record hub_proxy =
  hp_url :: "string option"
  hp_credential :: hub_read
  hp_resume :: "delivered option"

text \<open>The request that leaves, or why none does: no upstream is bound (the caller answers), the
  credential is missing, the URL cannot be read.\<close>

record hop_request =
  hr_target :: string
  hr_method :: string
  hr_headers :: "header_value obj"
  hr_filter :: "(string \<times> stream_filter) option"

datatype hop_plan = Hop_unbound | Hop_refused hub_read_reason | Hop_unreadable | Hop_sent hop_request

section \<open>Planning a hop to the hub\<close>

definition DROPPED_HEADERS :: "string list" where
  "DROPPED_HEADERS = [''host'', ''connection'', ''authorization'']"

definition UPGRADE_DROPPED_HEADERS :: "string list" where
  "UPGRADE_DROPPED_HEADERS = [''host'', ''authorization'']"

definition hop_headers :: "string list \<Rightarrow> header_value obj \<Rightarrow> string \<Rightarrow> header_value obj" where
  "hop_headers dropped headers auth =
     obj_set (foldl obj_del headers dropped) ''authorization'' (Header auth)"

text \<open>The header the hop carries: the one given for this request, or else the hub credential's.\<close>

definition hop_auth :: "relay_library \<Rightarrow> hub_read \<Rightarrow> string option \<Rightarrow> hub_read_reason + string" where
  "hop_auth lib credential auth_override =
     (case auth_override of
        Some auth \<Rightarrow> Inr auth
      | None \<Rightarrow>
          (case credential of
             Inl (reason, detail) \<Rightarrow> Inl reason
           | Inr (version, c) \<Rightarrow> Inr (auth_header_of lib (hc_token c))))"

definition upstream_base :: "hub_proxy \<Rightarrow> string option \<Rightarrow> string option" where
  "upstream_base px url_override =
     truthy (case url_override of Some u \<Rightarrow> Some u | None \<Rightarrow> hp_url px)"

definition resume_target :: "incoming_url \<Rightarrow> resume_plan option \<Rightarrow> string" where
  "resume_target u plan =
     (case plan of
        None \<Rightarrow> iu_href u
      | Some p \<Rightarrow> (case after_to_inject p of None \<Rightarrow> iu_href u | Some a \<Rightarrow> iu_with_after u a))"

definition hub_handle ::
  "relay_library \<Rightarrow> hub_proxy \<Rightarrow> hop_source \<Rightarrow> string option \<Rightarrow> string option \<Rightarrow> hop_plan" where
  "hub_handle lib px req url_override auth_override =
     (case upstream_base px url_override of
        None \<Rightarrow> Hop_unbound
      | Some base \<Rightarrow>
          (case hop_auth lib (hp_credential px) auth_override of
             Inl reason \<Rightarrow> Hop_refused reason
           | Inr auth \<Rightarrow>
               (case parse_incoming lib (ho_url req) base of
                  None \<Rightarrow> Hop_unreadable
                | Some u \<Rightarrow>
                    (let plan = (case hp_resume px of None \<Rightarrow> None
                                 | Some d \<Rightarrow> plan_resume d (iu_path u) (iu_after u))
                     in Hop_sent
                          \<lparr> hr_target = resume_target u plan, hr_method = ho_method req,
                            hr_headers = hop_headers DROPPED_HEADERS (ho_headers req) auth,
                            hr_filter = map_option (\<lambda>p. (plan_session p, plan_filter p)) plan \<rparr>))))"

text \<open>Whether the hop owns the response: \<open>false\<close> leaves it to the caller.\<close>

definition hop_handled :: "hop_plan \<Rightarrow> bool" where
  "hop_handled plan \<longleftrightarrow> plan \<noteq> Hop_unbound"

text \<open>What the proxy answers by itself. Once headers are out it can only close with an error.\<close>

record service_reply =
  sr_status :: int
  sr_content_type :: string
  sr_headers :: "(string \<times> string) list"
  sr_body :: reply_body

definition json_reply :: "int \<Rightarrow> keyed_doc \<Rightarrow> service_reply" where
  "json_reply status d =
     \<lparr> sr_status = status, sr_content_type = ''application/json'', sr_headers = [],
       sr_body = Reply_json (JObj d) \<rparr>"

definition credential_missing :: "hub_read_reason \<Rightarrow> service_reply" where
  "credential_missing reason =
     json_reply 503 [(''ok'', JBool False), (''error'', JStr ''hub-credential-missing''),
       (''reason'', JStr (hub_reason_name reason))]"

definition hub_unavailable :: service_reply where
  "hub_unavailable = json_reply 502 [(''ok'', JBool False), (''error'', JStr ''hub upstream unavailable'')]"

datatype hop_answer = Answer_reply service_reply | Answer_error_close

fun hub_answers :: "bool \<Rightarrow> hop_plan \<Rightarrow> hop_answer option" where
  "hub_answers headers_sent (Hop_refused reason) =
     Some (if headers_sent then Answer_error_close else Answer_reply (credential_missing reason))"
| "hub_answers headers_sent Hop_unreadable =
     Some (if headers_sent then Answer_error_close else Answer_reply hub_unavailable)"
| "hub_answers headers_sent _ = None"

section \<open>One hop on the wire\<close>

datatype hop_event =
    Hub_headers int int bool
  | Hub_data string
  | Hub_end
  | Hub_body_error
  | Headers_timeout int
  | Client_close bool
  | Upstream_error string

datatype hop_close = Closed_clean | Closed_error | Closed_502 string

text \<open>\<open>hs_status\<close> is what went out with the headers; \<open>hs_filtered\<close> holds while an event stream runs
  through the filter of its resume plan.\<close>

record hop_state =
  hs_filter :: "(string \<times> stream_filter) option"
  hs_store :: delivered
  hs_counted :: bool
  hs_aborted :: bool
  hs_outcomes :: "outcome list"
  hs_status :: "int option"
  hs_filtered :: bool
  hs_written :: string
  hs_close :: "hop_close option"
  hs_destroyed :: bool

definition start_hop :: "(string \<times> stream_filter) option \<Rightarrow> delivered \<Rightarrow> hop_state" where
  "start_hop fl d =
     \<lparr> hs_filter = fl, hs_store = d, hs_counted = False, hs_aborted = False, hs_outcomes = [],
       hs_status = None, hs_filtered = False, hs_written = [], hs_close = None, hs_destroyed = False \<rparr>"

definition count_outcome :: "outcome \<Rightarrow> hop_state \<Rightarrow> hop_state" where
  "count_outcome o1 s =
     (if hs_counted s then s else s\<lparr>hs_counted := True, hs_outcomes := hs_outcomes s @ [o1]\<rparr>)"

text \<open>The response is closed once; what comes later finds it gone.\<close>

definition close_hop :: "hop_close \<Rightarrow> hop_state \<Rightarrow> hop_state" where
  "close_hop c s = (case hs_close s of None \<Rightarrow> s\<lparr>hs_close := Some c\<rparr> | Some c' \<Rightarrow> s)"

definition write_hop :: "string \<Rightarrow> hop_state \<Rightarrow> hop_state" where
  "write_hop bytes s = (case hs_close s of None \<Rightarrow> s\<lparr>hs_written := hs_written s @ bytes\<rparr> | Some c \<Rightarrow> s)"

definition timeout_detail :: "int \<Rightarrow> string" where
  "timeout_detail ms = ''client-enforced timeout ('' @ string_of_int ms @ ''ms)''"

fun hop_step :: "hop_event \<Rightarrow> hop_state \<Rightarrow> hop_state" where
  "hop_step (Hub_headers status latency is_sse) s =
     (count_outcome (Responded latency) s)
       \<lparr> hs_status := Some status, hs_filtered := hs_filter s \<noteq> None \<and> is_sse \<rparr>"
| "hop_step (Hub_data chunk) s =
     (case (hs_filtered s, hs_filter s) of
        (True, Some (session, fl)) \<Rightarrow>
          (let (fl', d', bytes) = filter_push session fl (hs_store s) chunk
           in write_hop bytes (s\<lparr>hs_filter := Some (session, fl'), hs_store := d'\<rparr>))
      | _ \<Rightarrow> write_hop chunk s)"
| "hop_step Hub_end s =
     (case (hs_filtered s, hs_filter s) of
        (True, Some (session, fl)) \<Rightarrow>
          (let (fl', tail) = filter_flush fl
           in close_hop Closed_clean (write_hop tail (s\<lparr>hs_filter := Some (session, fl')\<rparr>)))
      | _ \<Rightarrow> close_hop Closed_clean s)"
| "hop_step Hub_body_error s = close_hop Closed_error s"
| "hop_step (Headers_timeout ms) s =
     (if hs_counted s \<or> hs_aborted s then s
      else (count_outcome (NoResponse (Some (timeout_detail ms))) s)\<lparr>hs_destroyed := True\<rparr>)"
| "hop_step (Client_close finished) s =
     (if finished then s else s\<lparr>hs_aborted := True, hs_destroyed := True\<rparr>)"
| "hop_step (Upstream_error detail) s =
     (let s' = (if hs_aborted s then s else count_outcome (NoResponse (Some detail)) s)
      in close_hop (if hs_status s \<noteq> None then Closed_error
                    else Closed_502 (''hub upstream failed: '' @ detail)) s')"

definition hop_run :: "hop_event list \<Rightarrow> hop_state \<Rightarrow> hop_state" where
  "hop_run evs s = foldl (\<lambda>s e. hop_step e s) s evs"

section \<open>An upgrade to the hub\<close>

datatype upgrade_plan = Upgrade_failed int string | Upgrade_sent hop_request

definition hub_handle_upgrade ::
  "relay_library \<Rightarrow> hub_proxy \<Rightarrow> hop_source \<Rightarrow> string option \<Rightarrow> upgrade_plan" where
  "hub_handle_upgrade lib px req url_override =
     (case upstream_base px url_override of
        None \<Rightarrow> Upgrade_failed 502 ''Bad Gateway''
      | Some base \<Rightarrow>
          (case hp_credential px of
             Inl f \<Rightarrow> Upgrade_failed 503 ''Service Unavailable''
           | Inr (version, c) \<Rightarrow>
               (case parse_incoming lib (ho_url req) base of
                  None \<Rightarrow> Upgrade_failed 502 ''Bad Gateway''
                | Some u \<Rightarrow>
                    Upgrade_sent
                      \<lparr> hr_target = iu_href u, hr_method = ho_method req,
                        hr_headers = hop_headers UPGRADE_DROPPED_HEADERS (ho_headers req)
                          (auth_header_of lib (hc_token c)),
                        hr_filter = None \<rparr>)))"

text \<open>The two sockets of a tunnel. A half of it ends when an end, a close or an error is seen there. The
  request to the hub stays open until it is upgraded, answered or destroyed; only an open one can
  still be upgraded, and a response has data only once it has arrived.\<close>

datatype tunnel_event =
    Tunnel_upgraded string string string
  | Tunnel_response string
  | Tunnel_response_data string
  | Tunnel_response_end
  | Tunnel_response_error
  | Tunnel_request_error
  | Tunnel_client_gone
  | Tunnel_upstream_gone

record tunnel_state =
  tn_upgraded :: bool
  tn_torn :: bool
  tn_client_open :: bool
  tn_upstream_open :: bool
  tn_request_open :: bool
  tn_to_client :: string
  tn_to_upstream :: string

definition start_tunnel :: tunnel_state where
  "start_tunnel =
     \<lparr> tn_upgraded = False, tn_torn = False, tn_client_open = True, tn_upstream_open = False,
       tn_request_open = True, tn_to_client = [], tn_to_upstream = [] \<rparr>"

definition tell_client :: "string \<Rightarrow> tunnel_state \<Rightarrow> tunnel_state" where
  "tell_client bytes t = (if tn_client_open t then t\<lparr>tn_to_client := tn_to_client t @ bytes\<rparr> else t)"

definition teardown_tunnel :: "tunnel_state \<Rightarrow> tunnel_state" where
  "teardown_tunnel t =
     (if tn_torn t then t
      else t\<lparr>tn_torn := True, tn_upstream_open := False, tn_client_open := False\<rparr>)"

definition crlf :: string where "crlf = [CHR 0x0D, CHR 0x0A]"

definition fail_upgrade :: "int \<Rightarrow> string \<Rightarrow> tunnel_state \<Rightarrow> tunnel_state" where
  "fail_upgrade code reason t =
     (tell_client (''HTTP/1.1 '' @ string_of_int code @ '' '' @ reason @ crlf
        @ ''Connection: close'' @ crlf @ crlf) t)\<lparr>tn_client_open := False\<rparr>"

fun tunnel_step :: "tunnel_event \<Rightarrow> tunnel_state \<Rightarrow> tunnel_state" where
  "tunnel_step (Tunnel_upgraded status_head upstream_head head) t =
     (if \<not> tn_request_open t then t
      else let t' = tell_client upstream_head (tell_client status_head
                     (t\<lparr>tn_upgraded := True, tn_upstream_open := True, tn_request_open := False\<rparr>))
           in t'\<lparr>tn_to_upstream := tn_to_upstream t' @ head\<rparr>)"
| "tunnel_step (Tunnel_response status_head) t =
     (if tn_upgraded t \<or> \<not> tn_request_open t then t
      else tell_client status_head (t\<lparr>tn_request_open := False\<rparr>))"
| "tunnel_step (Tunnel_response_data chunk) t =
     (if tn_upgraded t \<or> tn_request_open t then t else tell_client chunk t)"
| "tunnel_step Tunnel_response_end t =
     (if tn_upgraded t \<or> tn_request_open t then t else t\<lparr>tn_client_open := False\<rparr>)"
| "tunnel_step Tunnel_response_error t =
     (if tn_upgraded t \<or> tn_request_open t then t else t\<lparr>tn_client_open := False\<rparr>)"
| "tunnel_step Tunnel_request_error t =
     (if tn_upgraded t then t else fail_upgrade 502 ''Bad Gateway'' (t\<lparr>tn_request_open := False\<rparr>))"
| "tunnel_step Tunnel_client_gone t =
     (if tn_upgraded t then teardown_tunnel t else t\<lparr>tn_client_open := False, tn_request_open := False\<rparr>)"
| "tunnel_step Tunnel_upstream_gone t = (if tn_upgraded t then teardown_tunnel t else t)"

definition tunnel_run :: "tunnel_event list \<Rightarrow> tunnel_state" where
  "tunnel_run evs = foldl (\<lambda>t e. tunnel_step e t) start_tunnel evs"

text \<open>\<open>serializeStatusHead\<close>: the status line and the raw headers as sent.\<close>

definition serialize_status_head :: "int \<Rightarrow> string \<Rightarrow> (string \<times> string) list \<Rightarrow> string" where
  "serialize_status_head status message raw =
     ''HTTP/1.1 '' @ string_of_int status @ '' '' @ message @ crlf
     @ concat (map (\<lambda>(k, w). k @ '': '' @ w @ crlf) raw) @ crlf"

section \<open>The engine proxy\<close>

definition HOP_BY_HOP :: "string list" where
  "HOP_BY_HOP = [''host'', ''connection'']"

datatype engine_plan = Engine_unbound | Engine_unreadable | Engine_sent hop_request

text \<open>\<open>read_url\<close> is \<open>new URL(url, base)\<close> as text.\<close>

definition engine_handle ::
  "(string \<Rightarrow> string \<Rightarrow> string option) \<Rightarrow> string option \<Rightarrow> hop_source \<Rightarrow> engine_plan" where
  "engine_handle read_url url req =
     (case truthy url of
        None \<Rightarrow> Engine_unbound
      | Some base \<Rightarrow>
          (case read_url (ho_url req) base of
             None \<Rightarrow> Engine_unreadable
           | Some target \<Rightarrow>
               Engine_sent \<lparr> hr_target = target, hr_method = ho_method req,
                 hr_headers = foldl obj_del (ho_headers req) HOP_BY_HOP, hr_filter = None \<rparr>))"

definition engine_handled :: "engine_plan \<Rightarrow> bool" where
  "engine_handled plan \<longleftrightarrow> plan \<noteq> Engine_unbound"

text \<open>What it answers when the engine is lost: an error close after the headers, else a 502.\<close>

definition engine_lost :: "bool \<Rightarrow> string \<Rightarrow> hop_close" where
  "engine_lost headers_sent detail =
     (if headers_sent then Closed_error else Closed_502 (''engine upstream failed: '' @ detail))"

section \<open>The probe of the local engine\<close>

datatype local_presence = Session_present | Session_absent | Presence_unknown

definition SCOPE_HEADERS :: "string list" where
  "SCOPE_HEADERS = [''x-opencode-directory'', ''x-opencode-workspace'']"

definition SCOPE_PARAMS :: "string list" where
  "SCOPE_PARAMS = [''directory'', ''workspace'', ''auth_token'']"

text \<open>\<open>answer\<close> is what the fetch meets: an HTTP status, or nothing when it throws or when the URL
  cannot be built.\<close>

definition probe_local_session :: "string option \<Rightarrow> int option \<Rightarrow> local_presence" where
  "probe_local_session local_url answer =
     (case truthy local_url of
        None \<Rightarrow> Presence_unknown
      | Some u \<Rightarrow>
          (case answer of
             None \<Rightarrow> Presence_unknown
           | Some status \<Rightarrow>
               if status = 404 then Session_absent
               else if http_ok status then Session_present else Presence_unknown))"

definition probe_params :: "(string \<Rightarrow> string option) \<Rightarrow> (string \<times> string) list" where
  "probe_params param =
     concat (map (\<lambda>p. case param p of None \<Rightarrow> [] | Some w \<Rightarrow> [(p, w)]) SCOPE_PARAMS)"

definition probe_headers :: "header_value obj \<Rightarrow> (string \<times> string) list" where
  "probe_headers headers =
     concat (map (\<lambda>h. case obj_get headers h of Some (Header w) \<Rightarrow> [(h, w)] | _ \<Rightarrow> [])
       (''authorization'' # SCOPE_HEADERS))"

end
