(* ===== verification/App_Shelf.thy ===== *)
theory App_Shelf
  imports Hub_Relay
begin

text \<open>
  The static shelf of the built app (\<open>packages/extension/src/amicode_service/app_shelf.ts\<close>): the
  root of the build, the content types, the refusal of traversal and the order in which a request
  is answered. The file system is a map from absolute paths to what is there; paths are POSIX
  paths, symbolic links are not followed by it.
\<close>

section \<open>Paths\<close>

text \<open>\<open>path.resolve\<close>: empty and \<open>.\<close> segments go, \<open>..\<close> removes the segment before it.\<close>

fun walk_segments :: "string list \<Rightarrow> string list \<Rightarrow> string list" where
  "walk_segments acc [] = acc"
| "walk_segments acc (s # ss) =
     (if s = [] \<or> s = ''.'' then walk_segments acc ss
      else if s = ''..'' then walk_segments (butlast acc) ss
      else walk_segments (acc @ [s]) ss)"

definition absolute_path :: "string list \<Rightarrow> string" where
  "absolute_path segs = slash # join_with [slash] segs"

definition resolve_from :: "string list \<Rightarrow> string \<Rightarrow> string list" where
  "resolve_from base path =
     walk_segments (if starts_with path [slash] then [] else base) (split_on slash path)"

section \<open>Percent decoding\<close>

fun hex_digit_value :: "char \<Rightarrow> nat option" where
  "hex_digit_value c =
     (let n = of_char c :: nat
      in if 48 \<le> n \<and> n \<le> 57 then Some (n - 48)
         else if 65 \<le> n \<and> n \<le> 70 then Some (n - 55)
         else if 97 \<le> n \<and> n \<le> 102 then Some (n - 87)
         else None)"

text \<open>The bytes a percent-encoded text stands for; \<open>None\<close> when an escape is cut short or not hexadecimal.
  The flag tells an escaped byte from a literal one.\<close>

fun percent_bytes :: "string \<Rightarrow> (bool \<times> char) list option" where
  "percent_bytes [] = Some []"
| "percent_bytes (c # cs) =
     (if c \<noteq> CHR ''%'' then map_option ((#) (False, c)) (percent_bytes cs)
      else (case cs of
              h # l # rest \<Rightarrow>
                (case (hex_digit_value h, hex_digit_value l) of
                   (Some a, Some b) \<Rightarrow> map_option ((#) (True, char_of (16 * a + b))) (percent_bytes rest)
                 | _ \<Rightarrow> None)
            | _ \<Rightarrow> None))"

text \<open>How many continuation bytes follow an escaped lead byte, and the range of the first of them: the
  well-formed sequences of UTF-8.\<close>

definition utf8_lead :: "nat \<Rightarrow> (nat \<times> nat \<times> nat) option" where
  "utf8_lead n =
     (if n < 128 then Some (0, 0, 0)
      else if n < 194 then None
      else if n < 224 then Some (1, 128, 191)
      else if n = 224 then Some (2, 160, 191)
      else if n = 237 then Some (2, 128, 159)
      else if n < 240 then Some (2, 128, 191)
      else if n = 240 then Some (3, 144, 191)
      else if n < 244 then Some (3, 128, 191)
      else if n = 244 then Some (3, 128, 143)
      else None)"

fun utf8_escapes_ok :: "nat \<Rightarrow> nat \<Rightarrow> nat \<Rightarrow> (bool \<times> char) list \<Rightarrow> bool" where
  "utf8_escapes_ok need lo hi [] \<longleftrightarrow> need = 0"
| "utf8_escapes_ok need lo hi ((escaped, c) # bs) \<longleftrightarrow>
     (let n = of_char c :: nat
      in if need > 0
         then escaped \<and> lo \<le> n \<and> n \<le> hi \<and> utf8_escapes_ok (need - 1) 128 191 bs
         else if \<not> escaped then utf8_escapes_ok 0 0 0 bs
         else (case utf8_lead n of
                 None \<Rightarrow> False
               | Some (k, lo', hi') \<Rightarrow> utf8_escapes_ok k lo' hi' bs))"

definition decode_uri_component :: "string \<Rightarrow> string option" where
  "decode_uri_component s =
     (case percent_bytes s of
        None \<Rightarrow> None
      | Some bs \<Rightarrow> if utf8_escapes_ok 0 0 0 bs then Some (map snd bs) else None)"

section \<open>The shelf\<close>

definition resolve_app_dist_root :: "string \<Rightarrow> string \<Rightarrow> string" where
  "resolve_app_dist_root override extension_root =
     (if js_trim override \<noteq> [] then js_trim override else extension_root @ ''/dist/app'')"

definition CONTENT_TYPES :: "(string \<times> string) list" where
  "CONTENT_TYPES =
     [(''.html'', ''text/html; charset=utf-8''), (''.htm'', ''text/html; charset=utf-8''),
      (''.js'', ''text/javascript; charset=utf-8''), (''.mjs'', ''text/javascript; charset=utf-8''),
      (''.css'', ''text/css; charset=utf-8''), (''.json'', ''application/json; charset=utf-8''),
      (''.map'', ''application/json; charset=utf-8''), (''.svg'', ''image/svg+xml''),
      (''.png'', ''image/png''), (''.jpg'', ''image/jpeg''), (''.jpeg'', ''image/jpeg''),
      (''.gif'', ''image/gif''), (''.webp'', ''image/webp''), (''.avif'', ''image/avif''),
      (''.ico'', ''image/x-icon''), (''.wasm'', ''application/wasm''),
      (''.txt'', ''text/plain; charset=utf-8''), (''.xml'', ''application/xml''),
      (''.woff'', ''font/woff''), (''.woff2'', ''font/woff2''), (''.ttf'', ''font/ttf''),
      (''.otf'', ''font/otf''), (''.webm'', ''video/webm''), (''.mp4'', ''video/mp4'')]"

definition content_type_for :: "string \<Rightarrow> string" where
  "content_type_for path =
     (let ext = (if CHR ''.'' \<in> set path
                 then to_lower (CHR ''.'' # rev (takeWhile (\<lambda>c. c \<noteq> CHR ''.'') (rev path))) else [])
      in or_else (map_of CONTENT_TYPES ext) ''application/octet-stream'')"

datatype disk_entry = Disk_nothing | Disk_directory | Disk_unreadable string | Disk_file string

type_synonym disk = "string \<Rightarrow> disk_entry"

record app_shelf =
  dist_root :: "string option"
  shelf_cwd :: "string list"

definition read_disk :: "disk \<Rightarrow> string \<Rightarrow> string + string" where
  "read_disk fs path =
     (case fs path of
        Disk_file contents \<Rightarrow> Inr contents
      | Disk_unreadable msg \<Rightarrow> Inl msg
      | Disk_directory \<Rightarrow> Inl ''Error: EISDIR: illegal operation on a directory, read''
      | Disk_nothing \<Rightarrow> Inl (''Error: ENOENT: no such file or directory, open '' @ [CHR 0x27] @ path @ [CHR 0x27]))"

definition root_segments :: "app_shelf \<Rightarrow> string \<Rightarrow> string list" where
  "root_segments sh root = resolve_from (shelf_cwd sh) root"

definition index_segments :: "app_shelf \<Rightarrow> string \<Rightarrow> string list" where
  "index_segments sh root = walk_segments (root_segments sh root) [''index.html'']"

text \<open>The root, when it holds an \<open>index.html\<close>.\<close>

definition dist_present :: "disk \<Rightarrow> app_shelf \<Rightarrow> string option" where
  "dist_present fs sh =
     (case truthy (dist_root sh) of
        None \<Rightarrow> None
      | Some root \<Rightarrow>
          if fs (absolute_path (index_segments sh root)) \<noteq> Disk_nothing then Some root else None)"

text \<open>The segments under the root a request names; \<open>None\<close> is a traversal.\<close>

definition resolve_under_root :: "app_shelf \<Rightarrow> string \<Rightarrow> string \<Rightarrow> string list option" where
  "resolve_under_root sh root pathname =
     (case decode_uri_component pathname of
        None \<Rightarrow> None
      | Some decoded \<Rightarrow>
          if CHR 0x00 \<in> set decoded then None
          else
            (let base = root_segments sh root;
                 dotted = CHR ''.'' # map (\<lambda>c. if c = CHR 0x5C then slash else c) decoded;
                 target = walk_segments base (split_on slash dotted)
             in if absolute_path target \<noteq> absolute_path base
                   \<and> \<not> starts_with (absolute_path target) (absolute_path base @ [slash])
                then None else Some target))"

fun has_infix :: "string \<Rightarrow> string \<Rightarrow> bool" where
  "has_infix p [] \<longleftrightarrow> p = []"
| "has_infix p (c # cs) \<longleftrightarrow> starts_with (c # cs) p \<or> has_infix p cs"

definition accepts_html :: "string \<Rightarrow> bool" where
  "accepts_html accept \<longleftrightarrow> has_infix ''text/html'' accept"

definition html_reply :: "string \<Rightarrow> service_reply" where
  "html_reply text =
     \<lparr> sr_status = 200, sr_content_type = ''text/html; charset=utf-8'', sr_headers = [], sr_body = Reply_text text \<rparr>"

definition forbidden_reply :: service_reply where
  "forbidden_reply = json_reply 403 [(''ok'', JBool False), (''error'', JStr ''forbidden'')]"

text \<open>\<open>Inl\<close> is the message of what reading a file throws, \<open>Inr None\<close> is not the shelf's business.
  \<open>page\<close> is the placeholder of a missing build.\<close>

definition shelf_handle ::
  "disk \<Rightarrow> string \<Rightarrow> app_shelf \<Rightarrow> string \<Rightarrow> string \<Rightarrow> string \<Rightarrow> string + service_reply option" where
  "shelf_handle fs page sh req_method pathname accept =
     (if req_method \<noteq> ''GET'' then Inr None
      else (case dist_present fs sh of
              Some root \<Rightarrow>
                (case resolve_under_root sh root pathname of
                   None \<Rightarrow> Inr (Some forbidden_reply)
                 | Some segs \<Rightarrow>
                     (let index = absolute_path (index_segments sh root); path = absolute_path segs
                      in if path = index
                            \<or> (case fs path of Disk_file c \<Rightarrow> False | Disk_unreadable msg \<Rightarrow> False | _ \<Rightarrow> True)
                         then (if accepts_html accept \<or> pathname = [slash]
                               then map_sum (\<lambda>msg. msg) (\<lambda>t. Some (html_reply t)) (read_disk fs index)
                               else Inr None)
                         else map_sum (\<lambda>msg. msg)
                                (\<lambda>t. Some \<lparr> sr_status = 200, sr_content_type = content_type_for path,
                                            sr_headers = [], sr_body = Reply_text t \<rparr>)
                                (read_disk fs path)))
            | None \<Rightarrow>
                if pathname = [slash] \<or> accepts_html accept then Inr (Some (html_reply page))
                else Inr None))"

section \<open>What the shelf reads\<close>

text \<open>The segments of a normalised path.\<close>

definition clean_segment :: "string \<Rightarrow> bool" where
  "clean_segment s \<longleftrightarrow> s \<noteq> [] \<and> s \<noteq> ''.'' \<and> s \<noteq> ''..'' \<and> slash \<notin> set s"

definition clean_path :: "string list \<Rightarrow> bool" where
  "clean_path segs \<longleftrightarrow> list_all clean_segment segs"

definition under_root :: "app_shelf \<Rightarrow> string \<Rightarrow> string \<Rightarrow> bool" where
  "under_root sh root path \<longleftrightarrow>
     (\<exists>segs. clean_path segs \<and> path = absolute_path (root_segments sh root @ segs))"

lemma split_segment: "s \<in> set (split_on c p) \<Longrightarrow> c \<notin> set s"
  by (induction p arbitrary: s) (auto split: if_splits list.splits)

lemma clean_butlast: "clean_path acc \<Longrightarrow> clean_path (butlast acc)"
  by (auto simp: clean_path_def list_all_iff dest: in_set_butlastD)

lemma walk_clean:
  "clean_path acc \<Longrightarrow> (\<And>s. s \<in> set ss \<Longrightarrow> slash \<notin> set s) \<Longrightarrow> clean_path (walk_segments acc ss)"
  by (induction acc ss rule: walk_segments.induct)
    (auto simp: clean_butlast, auto simp: clean_path_def clean_segment_def)

lemma resolve_clean: "clean_path base \<Longrightarrow> clean_path (resolve_from base p)"
  unfolding resolve_from_def
  by (rule walk_clean) (auto simp: clean_path_def dest: split_segment)

lemma absolute_path_inj:
  assumes "clean_path a" and "clean_path b" and "absolute_path a = absolute_path b"
  shows "a = b"
proof -
  have j: "join_with [slash] a = join_with [slash] b" using assms(3) by (simp add: absolute_path_def)
  have s: "split_on slash (join_with [slash] x) = x" if "clean_path x" "x \<noteq> []" for x
    using that by (intro split_join) (auto simp: clean_path_def clean_segment_def list_all_iff)
  have e: "join_with [slash] x = [] \<longleftrightarrow> x = []" if "clean_path x" for x
    using that by (cases x; cases "tl x") (auto simp: clean_path_def clean_segment_def)
  show ?thesis using j s [OF assms(1)] s [OF assms(2)] e [OF assms(1)] e [OF assms(2)] by metis
qed

lemma join_prefix:
  assumes "clean_path a" and "clean_path b" and "a \<noteq> []"
    and "starts_with (join_with [slash] b) (join_with [slash] a @ [slash])"
  shows "\<exists>c. b = a @ c"
proof -
  obtain t where t: "join_with [slash] b = (join_with [slash] a @ [slash]) @ t"
    using assms(4) by (auto simp: starts_with_iff)
  have split: "split_on slash (join_with [slash] x @ slash # t) = x @ split_on slash t"
    if "clean_path x" "x \<noteq> []" for x
    using that
    proof (induction x)
    case (Cons s ss)
    then show ?case
      by (cases "ss = []") (auto simp: clean_path_def clean_segment_def split_on_append join_with_Cons)
  qed simp
  have "b \<noteq> []" using t by auto
  then have "b = split_on slash (join_with [slash] b)"
    using assms(2) by (intro split_join [symmetric]) (auto simp: clean_path_def clean_segment_def list_all_iff)
  also have "\<dots> = a @ split_on slash t" using split [OF assms(1,3)] t by simp
  finally show ?thesis by blast
qed

lemma resolve_under_root_spec:
  assumes "clean_path (shelf_cwd sh)" and "resolve_under_root sh root pathname = Some target"
  shows "\<exists>segs. clean_path segs \<and> target = root_segments sh root @ segs"
proof -
  let ?base = "root_segments sh root"
  obtain decoded where d: "decode_uri_component pathname = Some decoded"
    using assms(2) by (auto simp: resolve_under_root_def split: option.splits)
  let ?dotted = "CHR ''.'' # map (\<lambda>c. if c = CHR 0x5C then slash else c) decoded"
  have t: "target = walk_segments ?base (split_on slash ?dotted)"
    and u: "absolute_path target = absolute_path ?base
      \<or> starts_with (absolute_path target) (absolute_path ?base @ [slash])"
    using assms(2) d by (auto simp: resolve_under_root_def Let_def split: if_splits)
  have b: "clean_path ?base" unfolding root_segments_def by (rule resolve_clean [OF assms(1)])
  have c: "clean_path target" unfolding t by (rule walk_clean [OF b]) (erule split_segment)
  have "\<exists>segs. target = ?base @ segs"
    using u
  proof
    assume "absolute_path target = absolute_path ?base"
    then have "target = ?base" by (rule absolute_path_inj [OF c b])
    then show ?thesis by simp
  next
    assume p: "starts_with (absolute_path target) (absolute_path ?base @ [slash])"
    show ?thesis
    proof (cases "?base = []")
      case False
      then show ?thesis using join_prefix [OF b c] p by (simp add: absolute_path_def)
    qed simp
  qed
  then show ?thesis using c by (auto simp: clean_path_def)
qed

lemma index_under_root: "under_root sh root (absolute_path (index_segments sh root))"
  unfolding under_root_def index_segments_def
  by (rule exI [of _ "[''index.html'']"]) (simp add: clean_path_def clean_segment_def slash_def)

lemma resolved_under_root:
  "clean_path (shelf_cwd sh) \<Longrightarrow> resolve_under_root sh root pathname = Some target \<Longrightarrow>
   under_root sh root (absolute_path target)"
  using resolve_under_root_spec unfolding under_root_def by blast

lemma read_disk_file: "read_disk fs path = Inr t \<longleftrightarrow> fs path = Disk_file t"
  by (auto simp: read_disk_def split: disk_entry.splits)

lemma read_disk_cong: "fs path = fs' path \<Longrightarrow> read_disk fs path = read_disk fs' path"
  by (simp add: read_disk_def)

end
