(* ===== verification/Service_Dispatch.thy ===== *)
theory Service_Dispatch
  imports App_Shelf Access_Boundary Attachment
begin

text \<open>
  The service's front door (\<open>server.ts\<close> under \<open>packages/extension/src/amicode_service/\<close>): the dispatch
  of one request from the authorization check down to the engine, in the code's order, the same for
  an upgrade, and the start and stop of the server; with the two planes of an observation-only
  machine (\<open>observation_read_plane.ts\<close>, \<open>observation_write_plane.ts\<close>). The planes, the route
  table and the shelf are what is attached; their answers at the time of the request are arguments.
  The body cap is the write pipeline's, of the same value.
\<close>

section \<open>The request and what is attached\<close>

record service_request = boundary_request +
  sq_url :: string
  sq_headers :: "header_value obj"
  sq_accept :: string
  sq_chunks :: "string list"

definition hop_of :: "'a service_request_scheme \<Rightarrow> hop_source" where
  "hop_of req = \<lparr> ho_method = br_method req, ho_url = sq_url req, ho_headers = sq_headers req \<rparr>"

datatype upstream_mode = Mode_engine | Mode_fleet

type_synonym route_handler = "service_request \<Rightarrow> string \<Rightarrow> string + service_reply"

text \<open>The fleet plane. \<open>fp_mode\<close> and the pointers are what its getters answer.\<close>

record fleet_plane =
  fp_mode :: upstream_mode
  fp_hub :: hub_proxy
  fp_writes :: "(service_request \<Rightarrow> bool) option"
  fp_client :: bool
  fp_hub_down_pointer :: "string option"
  fp_attached :: "hub_proxy option"
  fp_keeper :: "hub_proxy option"
  fp_peer_pointer :: "string option"
  fp_multiplex :: "(string \<Rightarrow> string \<Rightarrow> header_value obj \<Rightarrow> resolved_target option) option"
  fp_fan_in :: "(service_request \<Rightarrow> bool) option"

text \<open>The observation planes. A presence probe that is not armed gives no verdict.\<close>

record observation_read_plane =
  or_resolve :: "string \<Rightarrow> string \<Rightarrow> observation_resolution option"
  or_probe :: "(string \<Rightarrow> local_presence) option"

record observation_write_plane =
  ow_resolve :: "string \<Rightarrow> string \<Rightarrow> observation_resolution option"
  ow_resolve_create :: "string \<Rightarrow> string \<Rightarrow> header_value obj \<Rightarrow> observation_resolution option"
  ow_probe :: "(string \<Rightarrow> local_presence) option"
  ow_create :: "string \<Rightarrow> string \<Rightarrow> string \<Rightarrow> bool"

record service =
  am_boundary :: boundary_server
  am_accept :: "accept_set option"
  am_routes :: "route_handler obj"
  am_shelf :: "(string \<Rightarrow> string \<Rightarrow> string \<Rightarrow> string + service_reply option) option"
  am_engine :: "string option option"
  am_plane :: "fleet_plane option"
  am_observe_read :: "observation_read_plane option"
  am_observe_write :: "observation_write_plane option"
  am_observe_events :: "(service_request \<Rightarrow> bool) option"

text \<open>What a dispatch reads from the machine: the flag, the two pointer files and the libraries.\<close>

record dispatch_world =
  dw_flag :: "string option"
  dw_attachment :: cache_file
  dw_keeper_path :: string
  dw_keeper :: cache_file
  dw_lib :: relay_library
  dw_read_url :: "string \<Rightarrow> string \<Rightarrow> string option"

definition add_route :: "string \<Rightarrow> string \<Rightarrow> route_handler \<Rightarrow> service \<Rightarrow> service" where
  "add_route req_method path h svc = svc\<lparr>am_routes := obj_set (am_routes svc) (req_method @ '' '' @ path) h\<rparr>"

definition route_count :: "service \<Rightarrow> nat" where
  "route_count svc = length (am_routes svc)"

definition fleet_multiplex_enabled :: "string option \<Rightarrow> bool" where
  "fleet_multiplex_enabled raw =
     (case raw of
        None \<Rightarrow> True
      | Some v \<Rightarrow>
          (let w = to_lower (js_trim v)
           in w \<noteq> ''0'' \<and> w \<noteq> ''false'' \<and> w \<noteq> ''off'' \<and> w \<noteq> ''no''))"

definition routing_mode :: "service \<Rightarrow> upstream_mode" where
  "routing_mode svc = (case am_plane svc of None \<Rightarrow> Mode_engine | Some fp \<Rightarrow> fp_mode fp)"

section \<open>The replies of the server itself\<close>

definition FLEET_HUB_DOWN_ERROR :: string where "FLEET_HUB_DOWN_ERROR = ''fleet-hub-down''"
definition FLEET_HUB_DOWN_POINTER :: string where
  "FLEET_HUB_DOWN_POINTER = ''the fleet host is unreachable '' @ em_dash
     @ '' a client holds no local engine (never-fork); ''
     @ ''check the tunnel / host service, or Go Standalone to work locally''"

definition FLEET_PEER_UNREACHABLE_ERROR :: string where
  "FLEET_PEER_UNREACHABLE_ERROR = ''attached server unreachable''"

definition FLEET_PEER_UNREACHABLE_POINTER :: string where
  "FLEET_PEER_UNREACHABLE_POINTER = ''the attached server is unreachable '' @ em_dash
     @ '' check the peer's tunnel / service, '' @ ''or detach to work locally''"

definition OWNER_UNKNOWN_ERROR :: string where "OWNER_UNKNOWN_ERROR = ''session owner unknown''"
definition OWNER_UNKNOWN_RETRY_AFTER_S :: int where "OWNER_UNKNOWN_RETRY_AFTER_S = 5"

definition owner_unknown :: "string \<Rightarrow> service_reply" where
  "owner_unknown sid =
     (json_reply 503 [(''ok'', JBool False), (''error'', JStr OWNER_UNKNOWN_ERROR),
        (''reason'', JStr ''owner-unknown''), (''session_id'', JStr sid),
        (''retry_after_s'', JNum OWNER_UNKNOWN_RETRY_AFTER_S)])
     \<lparr> sr_headers := [(''Retry-After'', string_of_int OWNER_UNKNOWN_RETRY_AFTER_S)] \<rparr>"

definition unauthorized_reply :: service_reply where
  "unauthorized_reply =
     (json_reply 401 [(''ok'', JBool False), (''error'', JStr ''unauthorized'')])
     \<lparr> sr_headers := [(''WWW-Authenticate'',
          ''Basic realm='' @ [CHR 0x22] @ ''amicode-service'' @ [CHR 0x22])] \<rparr>"

definition error_reply :: "int \<Rightarrow> string \<Rightarrow> service_reply" where
  "error_reply status msg = json_reply status [(''ok'', JBool False), (''error'', JStr msg)]"

definition no_route :: "string \<Rightarrow> string \<Rightarrow> service_reply" where
  "no_route req_method path = error_reply 404 (''no route: '' @ req_method @ '' '' @ path)"

definition peer_unreachable :: "fleet_plane \<Rightarrow> service_reply" where
  "peer_unreachable fp =
     json_reply 503 [(''ok'', JBool False), (''error'', JStr FLEET_PEER_UNREACHABLE_ERROR),
       (''reason'', JStr ''peer-unreachable''),
       (''pointer'', JStr (or_else (fp_peer_pointer fp) FLEET_PEER_UNREACHABLE_POINTER))]"

definition observed_unreachable :: "string \<Rightarrow> string \<Rightarrow> service_reply" where
  "observed_unreachable reason machine =
     json_reply 503 [(''ok'', JBool False), (''error'', JStr FLEET_PEER_UNREACHABLE_ERROR),
       (''reason'', JStr reason), (''machine_id'', JStr machine)]"

definition write_denied_reply :: "string \<Rightarrow> string \<Rightarrow> service_reply" where
  "write_denied_reply reason machine =
     json_reply 403 [(''ok'', JBool False), (''error'', JStr ''remote-write-denied''),
       (''reason'', JStr reason), (''machine_id'', JStr machine)]"

definition hub_down :: "fleet_plane \<Rightarrow> service_reply" where
  "hub_down fp =
     (if fp_client fp
      then json_reply 503 [(''ok'', JBool False), (''error'', JStr FLEET_HUB_DOWN_ERROR),
             (''reason'', JStr ''hub-unreachable''),
             (''pointer'', JStr (or_else (fp_hub_down_pointer fp) FLEET_HUB_DOWN_POINTER))]
      else error_reply 503 ''hub upstream not available'')"

section \<open>Who answers\<close>

text \<open>Each constructor names the party that owns the response; \<open>Relayed_observed\<close> and \<open>Created_at\<close> carry
  the machine.\<close>

datatype served =
    Replied service_reply
  | Streamed_fan_in
  | Streamed_observed_fan_in
  | Relayed_keeper hop_plan
  | Relayed_pointer hop_plan
  | Relayed_peer string hop_plan
  | Relayed_write
  | Relayed_hub hop_plan
  | Relayed_observed string hop_plan
  | Created_at string
  | Relayed_engine engine_plan

section \<open>The stages\<close>

definition event_path :: "string \<Rightarrow> bool" where
  "event_path path \<longleftrightarrow> path = ''/event'' \<or> path = ''/global/event''"

definition should_proxy_amicode_to_host :: "service \<Rightarrow> string \<Rightarrow> bool" where
  "should_proxy_amicode_to_host svc p \<longleftrightarrow>
     (case am_plane svc of
        None \<Rightarrow> False
      | Some fp \<Rightarrow>
          fp_client fp \<and> routing_mode svc = Mode_fleet
          \<and> (p = ''/amicode'' \<or> starts_with p ''/amicode/'')
          \<and> \<not> (p = ''/amicode/fleet'' \<or> starts_with p ''/amicode/fleet/''))"

text \<open>The routing decision of an attached machine. \<open>Route_multiplex_local\<close>: the multiplexer named no
  machine, and the request is this machine's own.\<close>

datatype peer_route =
    Route_none
  | Route_multiplex_local
  | Route_keeper
  | Route_pointer
  | Route_resolved resolved_target

definition attached_target :: "dispatch_world \<Rightarrow> string \<Rightarrow> amicode_target" where
  "attached_target w path =
     resolve_amicode_target path (resolve_attachment_pointer (dw_attachment w))
       (resolve_keeper_pointer (dw_keeper_path w) (dw_keeper w))"

definition route_peer :: "dispatch_world \<Rightarrow> service \<Rightarrow> 'a service_request_scheme \<Rightarrow> peer_route" where
  "route_peer w svc req =
     (case am_plane svc of
        None \<Rightarrow> Route_none
      | Some fp \<Rightarrow>
          if should_proxy_amicode_to_host svc (br_path req) \<or> routing_mode svc \<noteq> Mode_fleet
             \<or> fp_client fp \<or> fp_attached fp = None
          then Route_none
          else (case (attached_target w (br_path req), fleet_multiplex_enabled (dw_flag w), fp_multiplex fp) of
                  (To_attached p, True, Some resolver) \<Rightarrow>
                    (case resolver (br_method req) (br_path req) (sq_headers req) of
                       Some r \<Rightarrow> Route_resolved r
                     | None \<Rightarrow> Route_multiplex_local)
                | (To_attached p, _, _) \<Rightarrow> Route_pointer
                | (To_keeper k, _, _) \<Rightarrow> Route_keeper
                | (To_local, _, _) \<Rightarrow> Route_none))"

text \<open>The route table, the service's own namespace and the shelf.\<close>

definition call_route :: "route_handler \<Rightarrow> service_request \<Rightarrow> service_reply" where
  "call_route h req =
     (case read_request_body (sq_chunks req) of
        Inl msg \<Rightarrow> error_reply 500 msg
      | Inr body \<Rightarrow> (case h req body of Inl msg \<Rightarrow> error_reply 500 msg | Inr r \<Rightarrow> r))"

definition engine_hop :: "dispatch_world \<Rightarrow> service \<Rightarrow> 'a service_request_scheme \<Rightarrow> engine_plan option" where
  "engine_hop w svc req =
     (case am_engine svc of
        None \<Rightarrow> None
      | Some url \<Rightarrow>
          (let plan = engine_handle (dw_read_url w) url (hop_of req)
           in if engine_handled plan then Some plan else None))"

definition serve_locally :: "dispatch_world \<Rightarrow> service \<Rightarrow> service_request \<Rightarrow> served option" where
  "serve_locally w svc req =
     (let m = br_method req; p = br_path req
      in case obj_get (am_routes svc) (m @ '' '' @ p) of
           Some h \<Rightarrow> Some (Replied (call_route h req))
         | None \<Rightarrow>
             if p = ''/amicode'' \<or> starts_with p ''/amicode/''
             then (if p = ''/amicode/harness'' \<and> (m = ''GET'' \<or> m = ''POST'')
                   then (case engine_hop w svc req of
                           Some plan \<Rightarrow> Some (Relayed_engine plan)
                         | None \<Rightarrow> Some (Replied (no_route m p)))
                   else Some (Replied (no_route m p)))
             else (case am_shelf svc of
                     None \<Rightarrow> None
                   | Some handle \<Rightarrow>
                       (case handle m p (sq_accept req) of
                          Inl msg \<Rightarrow> Some (Replied (error_reply 500 msg))
                        | Inr hit \<Rightarrow> map_option Replied hit)))"

text \<open>The hub, the keeper or a peer. The flag is whether the posture detector was told of a missing
  upstream.\<close>

definition serve_route ::
  "dispatch_world \<Rightarrow> fleet_plane \<Rightarrow> service_request \<Rightarrow> hub_proxy option \<Rightarrow> string option \<Rightarrow> string option
     \<Rightarrow> (hop_plan \<Rightarrow> served) \<Rightarrow> served" where
  "serve_route w fp req proxy url_override auth_override relayed =
     (case proxy of
        None \<Rightarrow> Replied (peer_unreachable fp)
      | Some px \<Rightarrow>
          (let plan = hub_handle (dw_lib w) px (hop_of req) url_override auth_override
           in if hop_handled plan then relayed plan else Replied (peer_unreachable fp)))"

fun serve_peer :: "dispatch_world \<Rightarrow> fleet_plane \<Rightarrow> service_request \<Rightarrow> peer_route \<Rightarrow> served option" where
  "serve_peer w fp req Route_keeper =
     Some (serve_route w fp req (fp_keeper fp) None None Relayed_keeper)"
| "serve_peer w fp req Route_pointer =
     Some (serve_route w fp req (fp_attached fp) None None Relayed_pointer)"
| "serve_peer w fp req (Route_resolved (Reachable p url token)) =
     Some (serve_route w fp req (fp_attached fp) (Some url) (map_option (auth_header_of (dw_lib w)) token)
             (Relayed_peer p))"
| "serve_peer w fp req (Route_resolved (Unreachable p)) = Some (Replied (peer_unreachable fp))"
| "serve_peer w fp req _ = None"

definition serve_hub :: "dispatch_world \<Rightarrow> fleet_plane \<Rightarrow> service_request \<Rightarrow> served \<times> bool" where
  "serve_hub w fp req =
     (let plan = hub_handle (dw_lib w) (fp_hub fp) (hop_of req) None None;
          streamed = (if hop_handled plan then (Relayed_hub plan, False) else (Replied (hub_down fp), True))
      in case fp_writes fp of
           None \<Rightarrow> streamed
         | Some write \<Rightarrow>
             if br_method req \<noteq> ''GET'' \<and> br_method req \<noteq> ''HEAD''
             then (if write req then Relayed_write else Replied (hub_down fp), False)
             else streamed)"

definition serve_fleet ::
  "dispatch_world \<Rightarrow> service \<Rightarrow> service_request \<Rightarrow> peer_route \<Rightarrow> (served \<times> bool) option" where
  "serve_fleet w svc req route =
     (case am_plane svc of
        None \<Rightarrow> None
      | Some fp \<Rightarrow>
          if routing_mode svc \<noteq> Mode_fleet \<or> route = Route_multiplex_local then None
          else (case serve_peer w fp req route of
                  Some s \<Rightarrow> Some (s, False)
                | None \<Rightarrow> Some (serve_hub w fp req)))"

text \<open>The observation planes. A peer is dialled with its own token: the plane's proxy is given a
  credential made of it.\<close>

definition observed_hop ::
  "dispatch_world \<Rightarrow> service_request \<Rightarrow> string \<Rightarrow> string \<Rightarrow> hop_plan" where
  "observed_hop w req url token =
     hub_handle (dw_lib w)
       \<lparr> hp_url = Some url, hp_credential = Inr (None, \<lparr> hc_base_url = url, hc_token = token \<rparr>), hp_resume = None \<rparr>
       (hop_of req) None None"

definition probe_says_absent :: "(string \<Rightarrow> local_presence) option \<Rightarrow> string \<Rightarrow> bool" where
  "probe_says_absent probe sid =
     (case probe of None \<Rightarrow> False | Some ask \<Rightarrow> ask sid = Session_absent)"

definition relay_observed :: "dispatch_world \<Rightarrow> service_request \<Rightarrow> string \<Rightarrow> string \<Rightarrow> string \<Rightarrow> served" where
  "relay_observed w req p url token =
     (let plan = observed_hop w req url token
      in if hop_handled plan then Relayed_observed p plan
         else Replied (observed_unreachable ''peer-unreachable'' p))"

definition consult_read ::
  "dispatch_world \<Rightarrow> observation_read_plane \<Rightarrow> service_request \<Rightarrow> served option" where
  "consult_read w plane req =
     (case or_resolve plane (br_method req) (br_path req) of
        None \<Rightarrow> None
      | Some (Observe_unknown_owner sid) \<Rightarrow>
          if probe_says_absent (or_probe plane) sid then Some (Replied (owner_unknown sid)) else None
      | Some (Observe_peer p url token) \<Rightarrow> Some (relay_observed w req p url token)
      | Some (Observe_degraded p) \<Rightarrow> Some (Replied (observed_unreachable ''peer-unreachable'' p))
      | Some (Observe_denied p reason) \<Rightarrow> Some (Replied (observed_unreachable ''peer-unreachable'' p)))"

definition consult_write ::
  "dispatch_world \<Rightarrow> observation_write_plane \<Rightarrow> service_request \<Rightarrow> served option" where
  "consult_write w plane req =
     (let created = ow_resolve_create plane (br_method req) (br_path req) (sq_headers req);
          decision = (case created of Some d \<Rightarrow> Some d | None \<Rightarrow> ow_resolve plane (br_method req) (br_path req))
      in case decision of
           None \<Rightarrow> None
         | Some (Observe_unknown_owner sid) \<Rightarrow>
             if probe_says_absent (ow_probe plane) sid then Some (Replied (owner_unknown sid)) else None
         | Some (Observe_peer p url token) \<Rightarrow>
             Some (if created \<noteq> None
                   then (if ow_create plane p url token then Created_at p
                         else Replied (observed_unreachable ''peer-unreachable'' p))
                   else relay_observed w req p url token)
         | Some (Observe_denied p reason) \<Rightarrow>
             Some (Replied (if reason = transport_down then observed_unreachable ''transport-down'' p
                            else write_denied_reply reason p))
         | Some (Observe_degraded p) \<Rightarrow> Some (Replied (write_denied_reply [] p)))"

definition serve_engine :: "dispatch_world \<Rightarrow> service \<Rightarrow> service_request \<Rightarrow> served" where
  "serve_engine w svc req =
     (if am_engine svc = None then Replied (error_reply 503 ''engine upstream not available'')
      else (case Option.bind (am_observe_read svc) (\<lambda>plane. consult_read w plane req) of
              Some s \<Rightarrow> s
            | None \<Rightarrow>
                (case Option.bind (am_observe_write svc) (\<lambda>plane. consult_write w plane req) of
                   Some s \<Rightarrow> s
                 | None \<Rightarrow>
                     (case engine_hop w svc req of
                        Some plan \<Rightarrow> Relayed_engine plan
                      | None \<Rightarrow> Replied (error_reply 503 ''engine upstream not available'')))))"

section \<open>The dispatch\<close>

definition accepts_request :: "(service_request \<Rightarrow> bool) option \<Rightarrow> service_request \<Rightarrow> bool" where
  "accepts_request handle req = (case handle of None \<Rightarrow> False | Some h \<Rightarrow> h req)"

definition service_authorized :: "service \<Rightarrow> service_request \<Rightarrow> bool" where
  "service_authorized svc req =
     boundary_authorized (am_boundary svc) (am_accept svc) (boundary_request.truncate req)"

definition dispatch_authorized :: "dispatch_world \<Rightarrow> service \<Rightarrow> service_request \<Rightarrow> served \<times> bool" where
  "dispatch_authorized w svc req =
     (if event_path (br_path req) \<and> fleet_multiplex_enabled (dw_flag w)
         \<and> accepts_request (Option.bind (am_plane svc) fp_fan_in) req
      then (Streamed_fan_in, False)
      else if event_path (br_path req) \<and> accepts_request (am_observe_events svc) req
      then (Streamed_observed_fan_in, False)
      else
        (let route = route_peer w svc req;
             here = (if should_proxy_amicode_to_host svc (br_path req)
                        \<or> route \<notin> {Route_none, Route_multiplex_local}
                     then None else serve_locally w svc req)
         in case here of
              Some s \<Rightarrow> (s, False)
            | None \<Rightarrow>
                (case serve_fleet w svc req route of
                   Some answered_by \<Rightarrow> answered_by
                 | None \<Rightarrow> (serve_engine w svc req, False))))"

text \<open>A URL that cannot be read is an exception before the check: \<open>Inl\<close> is its message.\<close>

definition dispatch :: "dispatch_world \<Rightarrow> service \<Rightarrow> string + service_request \<Rightarrow> served \<times> bool" where
  "dispatch w svc incoming =
     (case incoming of
        Inl msg \<Rightarrow> (Replied (error_reply 500 msg), False)
      | Inr req \<Rightarrow>
          if \<not> service_authorized svc req then (Replied unauthorized_reply, False)
          else dispatch_authorized w svc req)"

section \<open>The upgrade\<close>

datatype upgrade_served =
    Upgrade_unauthorized
  | Upgrade_destroyed
  | Upgrade_hub upgrade_plan
  | Upgrade_keeper upgrade_plan
  | Upgrade_pointer upgrade_plan
  | Upgrade_peer string upgrade_plan

definition upgrade_authorized :: "dispatch_world \<Rightarrow> service \<Rightarrow> service_request \<Rightarrow> upgrade_served" where
  "upgrade_authorized w svc req =
     (case am_plane svc of
        None \<Rightarrow> Upgrade_destroyed
      | Some fp \<Rightarrow>
          if routing_mode svc \<noteq> Mode_fleet then Upgrade_destroyed
          else if fp_client fp then Upgrade_hub (hub_handle_upgrade (dw_lib w) (fp_hub fp) (hop_of req) None)
          else (case fp_attached fp of
                  None \<Rightarrow> Upgrade_destroyed
                | Some px \<Rightarrow>
                    (case attached_target w (br_path req) of
                       To_attached p \<Rightarrow>
                         (case (fleet_multiplex_enabled (dw_flag w), fp_multiplex fp) of
                            (True, Some resolver) \<Rightarrow>
                              (case resolver (br_method req) (br_path req) (sq_headers req) of
                                 Some (Reachable p url token) \<Rightarrow>
                                   Upgrade_peer p (hub_handle_upgrade (dw_lib w) px (hop_of req) (Some url))
                               | _ \<Rightarrow> Upgrade_destroyed)
                          | _ \<Rightarrow> Upgrade_pointer (hub_handle_upgrade (dw_lib w) px (hop_of req) None))
                     | To_keeper k \<Rightarrow>
                         (case fp_keeper fp of
                            None \<Rightarrow> Upgrade_destroyed
                          | Some kx \<Rightarrow> Upgrade_keeper (hub_handle_upgrade (dw_lib w) kx (hop_of req) None))
                     | To_local \<Rightarrow> Upgrade_destroyed)))"

definition dispatch_upgrade :: "dispatch_world \<Rightarrow> service \<Rightarrow> string + service_request \<Rightarrow> upgrade_served" where
  "dispatch_upgrade w svc incoming =
     (case incoming of
        Inl msg \<Rightarrow> Upgrade_destroyed
      | Inr req \<Rightarrow> if \<not> service_authorized svc req then Upgrade_unauthorized else upgrade_authorized w svc req)"

section \<open>Creating a session on a peer\<close>

text \<open>\<open>answer\<close> is what listing the peer's projects meets: a status and the JSON of the body, if it is any.\<close>

definition peer_has_project_worktree :: "(int \<times> json option) option \<Rightarrow> string \<Rightarrow> bool" where
  "peer_has_project_worktree answer dir =
     (case answer of
        Some (status, Some (JArr projects)) \<Rightarrow>
          http_ok status
          \<and> list_ex (\<lambda>p. case p of JObj d \<Rightarrow> map_of d ''worktree'' = Some (JStr dir) | _ \<Rightarrow> False) projects
      | _ \<Rightarrow> False)"

text \<open>The create's URL at the peer, its \<open>auth_token\<close> removed: as is, its \<open>directory\<close>, and without it.\<close>

record create_url =
  cu_href :: string
  cu_directory :: "string option"
  cu_without_directory :: string

record create_answer =
  ca_status :: int
  ca_text :: string
  ca_content_type :: "string option"

record create_call =
  cc_target :: string
  cc_method :: string
  cc_headers :: "(string \<times> string) list"
  cc_body :: "string option"

definition create_call_of ::
  "(string \<Rightarrow> string) \<Rightarrow> create_url \<Rightarrow> (int \<times> json option) option \<Rightarrow> string \<Rightarrow> 'a service_request_scheme \<Rightarrow> create_call" where
  "create_call_of auth_header u projects token req =
     (let body = concat (sq_chunks req);
          keep = (case truthy (cu_directory u) of None \<Rightarrow> True | Some dir \<Rightarrow> peer_has_project_worktree projects dir)
      in \<lparr> cc_target = (if keep then cu_href u else cu_without_directory u),
           cc_method = br_method req,
           cc_headers =
             [(''authorization'', auth_header token),
              (''content-type'', case obj_get (sq_headers req) ''content-type'' of
                                  Some (Header t) \<Rightarrow> t | _ \<Rightarrow> ''application/json'')],
           cc_body = (if body \<noteq> [] then Some body else None) \<rparr>)"

text \<open>The id a JSON answer gives, if it is a non-empty string.\<close>

definition created_id :: "json option \<Rightarrow> string option" where
  "created_id parsed =
     (case parsed of
        Some (JObj d) \<Rightarrow> (case map_of d ''id'' of Some (JStr sid) \<Rightarrow> truthy (Some sid) | _ \<Rightarrow> None)
      | _ \<Rightarrow> None)"

text \<open>\<open>None\<close>: the caller answers. \<open>answer\<close> is what the create meets, \<open>None\<close> when it throws.\<close>

definition proxy_create_to_peer ::
  "(string \<Rightarrow> json option) \<Rightarrow> int \<Rightarrow> create_url option \<Rightarrow> create_answer option \<Rightarrow> string \<Rightarrow> owner_map
     \<Rightarrow> service_reply option \<times> owner_map" where
  "proxy_create_to_peer parse_json now u answer machine_id m =
     (case (u, answer) of
        (Some url, Some a) \<Rightarrow>
          (Some \<lparr> sr_status = ca_status a, sr_content_type = or_else (ca_content_type a) ''application/json'',
                  sr_headers = [], sr_body = Reply_text (ca_text a) \<rparr>,
           case created_id (parse_json (ca_text a)) of
             None \<Rightarrow> m | Some sid \<Rightarrow> record_pending_owner sid machine_id now m)
      | _ \<Rightarrow> (None, m))"

section \<open>The wiring of the fleet plane\<close>

text \<open>The peers of the multiplexer, read once when the plane is built.\<close>

definition build_multiplex_peers :: "peer_provider option \<Rightarrow> peer_transport obj" where
  "build_multiplex_peers provider =
     (case provider of
        None \<Rightarrow> []
      | Some pv \<Rightarrow>
          foldl (\<lambda>out p. obj_set out p (transport_of_read (provider_read_token pv p))) [] (get_serving_peers pv))"

text \<open>\<open>getMode\<close>: a hub that is down turns the fleet mode into the engine mode, but not on a client.\<close>

definition effective_mode :: "upstream_mode \<Rightarrow> bool \<Rightarrow> bool \<Rightarrow> upstream_mode" where
  "effective_mode raw client hub_standalone =
     (if raw \<noteq> Mode_fleet then raw
      else if client then Mode_fleet
      else if hub_standalone then Mode_engine else Mode_fleet)"

section \<open>Start and stop\<close>

text \<open>The listening side of the server; \<open>lc_ran\<close> lists the teardowns that have run.\<close>

record lifecycle_server =
  lc_running :: bool
  lc_port :: "int option"
  lc_cleanups :: "string list"
  lc_ran :: "string list"

definition register_cleanup :: "string \<Rightarrow> lifecycle_server \<Rightarrow> lifecycle_server" where
  "register_cleanup f s = s\<lparr>lc_cleanups := lc_cleanups s @ [f]\<rparr>"

text \<open>\<open>listen\<close> is what listening meets: an error, or the port bound.\<close>

definition start_service :: "string + int \<Rightarrow> lifecycle_server \<Rightarrow> (string + int) \<times> lifecycle_server" where
  "start_service listen s =
     (if lc_running s then (Inl ''amicode service already running'', s)
      else (case listen of
              Inl err \<Rightarrow> (Inl err, s\<lparr>lc_running := False\<rparr>)
            | Inr port \<Rightarrow> (Inr port, s\<lparr>lc_running := True, lc_port := Some port\<rparr>)))"

definition stop_service :: "lifecycle_server \<Rightarrow> lifecycle_server" where
  "stop_service s =
     (let s' = s\<lparr>lc_cleanups := [], lc_ran := lc_ran s @ lc_cleanups s\<rparr>
      in if lc_running s' then s'\<lparr>lc_running := False, lc_port := None\<rparr> else s')"

end
