(* ===== verification/Dispatch_Properties.thy ===== *)
theory Dispatch_Properties
  imports Service_Dispatch
begin

text \<open>
  What the front door guarantees: nothing is served before the boundary's check, at either door; the
  service's own fleet surface is answered here in every posture; a client never runs anything in a
  local engine; on an attached machine the session's owner decides where a request goes; on an
  observation-only machine a peer's session is never served here.
\<close>

section \<open>The party that owns a response\<close>

datatype party = This_service | Local_engine | The_hub | The_keeper | Attached_server | Machine string

fun party_of :: "served \<Rightarrow> party" where
  "party_of (Replied r) = This_service"
| "party_of Streamed_fan_in = This_service"
| "party_of Streamed_observed_fan_in = This_service"
| "party_of (Relayed_keeper plan) = The_keeper"
| "party_of (Relayed_pointer plan) = Attached_server"
| "party_of (Relayed_peer p plan) = Machine p"
| "party_of Relayed_write = The_hub"
| "party_of (Relayed_hub plan) = The_hub"
| "party_of (Relayed_observed p plan) = Machine p"
| "party_of (Created_at p) = Machine p"
| "party_of (Relayed_engine plan) = Local_engine"

definition harness_path :: "string \<Rightarrow> bool" where
  "harness_path path \<longleftrightarrow> path = ''/amicode/harness''"

lemma event_path_apart: "event_path path \<Longrightarrow> \<not> own_surface path \<and> \<not> honesty_path path"
  by (auto simp: event_path_def own_surface_def honesty_path_def)

lemma honesty_own_surface: "honesty_path path \<Longrightarrow> own_surface path"
  by (auto simp: honesty_path_def own_surface_def starts_with_iff)

lemma should_proxy_iff:
  "should_proxy_amicode_to_host svc path \<longleftrightarrow>
     (\<exists>fp. am_plane svc = Some fp \<and> fp_client fp \<and> fp_mode fp = Mode_fleet)
     \<and> own_surface path \<and> \<not> honesty_path path"
  by (auto simp: should_proxy_amicode_to_host_def routing_mode_def own_surface_def honesty_path_def
      split: option.splits)

lemma honesty_harness: "honesty_path path \<Longrightarrow> path \<noteq> ''/amicode/harness''"
  by (auto simp: honesty_path_def)

lemma serve_locally_party:
  "serve_locally w svc req = Some s \<Longrightarrow> party_of s = Local_engine \<Longrightarrow> br_path req = ''/amicode/harness''"
  by (auto simp: serve_locally_def Let_def split: option.splits if_splits sum.splits)

lemma serve_locally_stays:
  "serve_locally w svc req = Some s \<Longrightarrow> party_of s = This_service \<or> party_of s = Local_engine"
  by (auto simp: serve_locally_def Let_def split: option.splits if_splits sum.splits)

lemma serve_locally_own:
  assumes "own_surface (br_path req)" and "br_path req \<noteq> ''/amicode/harness''"
  shows "\<exists>r. serve_locally w svc req = Some (Replied r)
    \<and> (case obj_get (am_routes svc) (br_method req @ '' '' @ br_path req) of
         Some h \<Rightarrow> r = call_route h req
       | None \<Rightarrow> r = no_route (br_method req) (br_path req))"
  using assms by (auto simp: serve_locally_def Let_def own_surface_def split: option.splits)

lemma route_peer_honesty: "honesty_path (br_path req) \<Longrightarrow> route_peer w svc req = Route_none"
  by (auto simp: route_peer_def attached_target_def resolve_amicode_target_def honesty_path_def under_path_def
      split: option.splits)

lemma route_peer_client: "am_plane svc = Some fp \<Longrightarrow> fp_client fp \<Longrightarrow> route_peer w svc req = Route_none"
  by (simp add: route_peer_def)

lemma dispatch_refused:
  "\<not> service_authorized svc req \<Longrightarrow> dispatch w svc (Inr req) = (Replied unauthorized_reply, False)"
  by (simp add: dispatch_def)

lemma dispatch_plain:
  assumes "service_authorized svc req" and "\<not> event_path (br_path req)"
  shows "dispatch w svc (Inr req) =
    (case if should_proxy_amicode_to_host svc (br_path req)
             \<or> route_peer w svc req \<notin> {Route_none, Route_multiplex_local}
          then None else serve_locally w svc req of
       Some s \<Rightarrow> (s, False)
     | None \<Rightarrow> (case serve_fleet w svc req (route_peer w svc req) of
                  Some answered_by \<Rightarrow> answered_by
                | None \<Rightarrow> (serve_engine w svc req, False)))"
  using assms by (simp add: dispatch_def dispatch_authorized_def Let_def)

section \<open>The hub\<close>

lemma serve_hub_party:
  "party_of (fst (serve_hub w fp req)) = The_hub \<or> fst (serve_hub w fp req) = Replied (hub_down fp)"
  by (auto simp: serve_hub_def Let_def split: option.splits)

lemma serve_hub_tells:
  "snd (serve_hub w fp req) \<longleftrightarrow>
     (fp_writes fp = None \<or> br_method req = ''GET'' \<or> br_method req = ''HEAD'')
     \<and> hub_handle (dw_lib w) (fp_hub fp) (hop_of req) None None = Hop_unbound"
  by (auto simp: serve_hub_def hop_handled_def Let_def split: option.splits)

lemma serve_fleet_none:
  "am_plane svc = Some fp \<Longrightarrow> fp_mode fp = Mode_fleet \<Longrightarrow>
   serve_fleet w svc req Route_none = Some (serve_hub w fp req)"
  by (simp add: serve_fleet_def routing_mode_def)

section \<open>The multiplexer\<close>

text \<open>The other machine a request names, among the peers the multiplexer knows.\<close>

definition named_peer ::
  "string \<Rightarrow> header_value obj \<Rightarrow> int \<Rightarrow> owner_map \<Rightarrow> string \<Rightarrow> peer_transport obj
     \<Rightarrow> (string \<times> peer_transport) option" where
  "named_peer path headers now m local_id peers =
     (case fst (request_owner path headers now m) of
        None \<Rightarrow> None
      | Some p \<Rightarrow> if p = local_id then None else map_option (Pair p) (obj_get peers p))"

definition multiplexed_by ::
  "int \<Rightarrow> owner_map \<Rightarrow> string \<Rightarrow> peer_transport obj \<Rightarrow> string \<Rightarrow> string \<Rightarrow> header_value obj
     \<Rightarrow> resolved_target option" where
  "multiplexed_by now m local_id peers req_method path headers =
     fst (multiplex_resolve_target path headers now m local_id peers)"

lemma multiplexed_by_named:
  assumes "\<not> honesty_path path"
  shows "multiplexed_by now m local_id peers req_method path headers =
    (case named_peer path headers now m local_id peers of
       None \<Rightarrow> None
     | Some (p, peer) \<Rightarrow>
         Some (case truthy (peer_url peer) of
                 None \<Rightarrow> Unreachable p | Some url \<Rightarrow> Reachable p url (peer_token peer)))"
  using assms
  by (auto simp: multiplexed_by_def multiplex_resolve_target_def named_peer_def split: prod.splits option.splits)

lemma to_attached_path:
  assumes "attached_target w path = To_attached ptr"
  shows "\<not> honesty_path path" and "\<not> under_path ''/amicode/roster'' path"
  using assms
  by (auto simp: attached_target_def resolve_amicode_target_def honesty_path_def under_path_def split: if_splits)

lemma hub_handle_bound: "truthy (Some u) = Some base \<Longrightarrow> hop_handled (hub_handle lib px req (Some u) a)"
  by (auto simp: hop_handled_def hub_handle_def upstream_base_def Let_def split: option.splits sum.splits)

section \<open>The observation planes\<close>

lemma authorize_write_cases:
  fixes peer :: "string \<Rightarrow> peer_transport option" and grants :: "string \<Rightarrow> grant_read option"
    and local_id :: string
  defines "deps \<equiv> \<lparr> local_machine_id = local_id, grant_reader = grants,
                  peer_reachable = (\<lambda>p. usable (peer p) \<noteq> None) \<rparr>"
  assumes "p \<noteq> local_id"
  shows "(\<exists>reason. authorize_write action path p local_id peer grants = Observe_denied p reason)
    \<or> (\<exists>url token. authorize_write action path p local_id peer grants = Observe_peer p url token
         \<and> usable (peer p) = Some (url, token) \<and> control_held deps p)"
proof (cases "grants p")
  case None
  with assms(2) show ?thesis by (auto simp: authorize_write_def evaluate_remote_write_gate_def)
next
  case (Some g)
  with assms(2) show ?thesis
    by (cases "state g")
      (auto simp: authorize_write_def deps_def evaluate_remote_write_gate_def control_held_def
        split: write_gate_result.splits option.splits if_splits)
qed

lemma session_path_not_create:
  assumes "extract_session_id_from_read_path path = Some sid"
  shows "path \<noteq> ''/session'' \<and> path \<noteq> ''/api/session''"
  using assms by (auto simp: extract_session_id_from_read_path_def segment_after_def)

lemma observation_create_off_path:
  "path \<noteq> ''/session'' \<Longrightarrow> path \<noteq> ''/api/session'' \<Longrightarrow>
   observation_create req_method path headers local_id peer grants = None"
  by (simp add: observation_create_def)

lemma observed_hop_bound:
  "usable (peer p) = Some (url, token) \<Longrightarrow> hop_handled (observed_hop w req url token)"
  unfolding observed_hop_def hop_handled_def hub_handle_def upstream_base_def usable_def
  by (auto simp: Let_def split: option.splits sum.splits)

lemma relay_observed_bound:
  "usable (peer p) = Some (url, token) \<Longrightarrow>
   relay_observed w req q url token = Relayed_observed q (observed_hop w req url token)"
  by (simp add: relay_observed_def observed_hop_bound)

section \<open>Properties\<close>

text \<open>The two doors refuse alike: a caller the boundary does not authorize gets the 401 and nothing else,
  whatever planes, routes and engine are attached, for a request and for an upgrade; an authorized
  upgrade is never refused that way.\<close>

theorem doors_refuse_alike:
  "(dispatch_upgrade w svc (Inr req) = Upgrade_unauthorized) = (\<not> service_authorized svc req)
   \<and> (\<not> service_authorized svc req \<longrightarrow> dispatch w svc (Inr req) = (Replied unauthorized_reply, False))
   \<and> (service_authorized svc req =
        boundary_authorized (am_boundary svc) (am_accept svc) (boundary_request.truncate req))"
  by (auto simp: dispatch_upgrade_def dispatch_refused upgrade_authorized_def service_authorized_def
      split: option.splits amicode_target.splits bool.splits resolved_target.splits)

lemma fleet_surface_is_answered_here:
  assumes "service_authorized svc req" and "honesty_path (br_path req)"
  shows "dispatch w svc (Inr req) =
    (Replied (case obj_get (am_routes svc) (br_method req @ '' '' @ br_path req) of
                Some h \<Rightarrow> call_route h req | None \<Rightarrow> no_route (br_method req) (br_path req)), False)"
proof -
  note own = honesty_own_surface [OF assms(2)] and h = honesty_harness [OF assms(2)]
  obtain r where "serve_locally w svc req = Some (Replied r)"
    and "case obj_get (am_routes svc) (br_method req @ '' '' @ br_path req) of
           Some h \<Rightarrow> r = call_route h req | None \<Rightarrow> r = no_route (br_method req) (br_path req)"
    using serve_locally_own [OF own h] by blast
  moreover have "\<not> event_path (br_path req)" using assms(2) event_path_apart by blast
  ultimately show ?thesis
    using assms by (auto simp: dispatch_plain route_peer_honesty should_proxy_iff split: option.splits)
qed


lemma attached_dispatch:
  assumes "am_plane svc = Some fp" and "\<not> fp_client fp" and "fp_mode fp = Mode_fleet"
    and "fp_attached fp = Some px" and "fp_multiplex fp = Some (multiplexed_by now m local_id peers)"
    and "fleet_multiplex_enabled (dw_flag w)" and "attached_target w (br_path req) = To_attached ptr"
    and "service_authorized svc req" and "\<not> event_path (br_path req)"
    and "am_observe_read svc = None" and "am_observe_write svc = None"
  shows "case named_peer (br_path req) (sq_headers req) now m local_id peers of
      Some (p, peer) \<Rightarrow>
        dispatch w svc (Inr req) =
          (case truthy (peer_url peer) of
             None \<Rightarrow> Replied (peer_unreachable fp)
           | Some url \<Rightarrow> Relayed_peer p (hub_handle (dw_lib w) px (hop_of req) (Some url)
                           (map_option (auth_header_of (dw_lib w)) (peer_token peer))), False)
        \<and> dispatch_upgrade w svc (Inr req) =
          (case truthy (peer_url peer) of
             None \<Rightarrow> Upgrade_destroyed
           | Some url \<Rightarrow> Upgrade_peer p (hub_handle_upgrade (dw_lib w) px (hop_of req) (Some url)))
    | None \<Rightarrow>
        party_of (fst (dispatch w svc (Inr req))) \<in> {This_service, Local_engine}
        \<and> dispatch_upgrade w svc (Inr req) = Upgrade_destroyed"
proof -
  note path = to_attached_path [OF assms(7)]
  note d = dispatch_plain [OF assms(8,9), of w]
  have proxied: "\<not> should_proxy_amicode_to_host svc (br_path req)" using assms(1,2) by (simp add: should_proxy_iff)
  have route: "route_peer w svc req =
      (case multiplexed_by now m local_id peers (br_method req) (br_path req) (sq_headers req) of
         Some r \<Rightarrow> Route_resolved r | None \<Rightarrow> Route_multiplex_local)"
    using assms(1-7) proxied by (simp add: route_peer_def routing_mode_def)
  note resolved = multiplexed_by_named [OF path(1)]
  show ?thesis
  proof (cases "named_peer (br_path req) (sq_headers req) now m local_id peers")
    case None
    have l: "serve_fleet w svc req Route_multiplex_local = None"
      using assms(1) by (simp add: serve_fleet_def)
    have e: "party_of (serve_engine w svc req) \<in> {This_service, Local_engine}"
      using assms(10,11) by (auto simp: serve_engine_def split: option.splits)
    have "party_of (fst (dispatch w svc (Inr req))) \<in> {This_service, Local_engine}"
      using e serve_locally_stays [of w svc req]
      by (auto simp: d proxied route resolved None l split: option.splits)
    moreover have "dispatch_upgrade w svc (Inr req) = Upgrade_destroyed"
      using assms(1-8) by (simp add: dispatch_upgrade_def upgrade_authorized_def routing_mode_def resolved None)
    ultimately show ?thesis by (simp add: None)
  next
    case (Some pp)
    obtain p peer where pp: "pp = (p, peer)" by fastforce
    note here = Some [unfolded pp]
    have f: "serve_fleet w svc req (Route_resolved r) =
        Some (the (serve_peer w fp req (Route_resolved r)), False)" for r
      using assms(1,3) by (cases r) (auto simp: serve_fleet_def routing_mode_def)
    have "dispatch_upgrade w svc (Inr req) =
          (case truthy (peer_url peer) of
             None \<Rightarrow> Upgrade_destroyed
           | Some url \<Rightarrow> Upgrade_peer p (hub_handle_upgrade (dw_lib w) px (hop_of req) (Some url)))"
      using assms(1-8)
      by (auto simp: dispatch_upgrade_def upgrade_authorized_def routing_mode_def resolved here split: option.splits)
    moreover have "dispatch w svc (Inr req) =
          (case truthy (peer_url peer) of
             None \<Rightarrow> Replied (peer_unreachable fp)
           | Some url \<Rightarrow> Relayed_peer p (hub_handle (dw_lib w) px (hop_of req) (Some url)
                           (map_option (auth_header_of (dw_lib w)) (peer_token peer))), False)"
      by (auto simp: d proxied route resolved here f serve_route_def assms(4) Let_def hub_handle_bound
          split: option.splits)
    ultimately show ?thesis by (simp add: here)
  qed
qed

text \<open>C5: On an attached machine the owner decides. With the multiplexer armed, a request for a session (or
  with a routing header) of a machine the multiplexer knows as a peer is dialled at that peer's URL
  with that peer's own token, or answered with the named 503 when the peer has no URL: no local
  route, no shelf, no hub and no engine sees it, and an upgrade goes to the same peer or is torn
  down. A request that names no other known machine never leaves this one.\<close>

theorem owner_decides_where_a_request_runs:
  assumes "am_plane svc = Some fp" and "\<not> fp_client fp" and "fp_mode fp = Mode_fleet"
    and "fp_attached fp = Some px" and "fp_multiplex fp = Some (multiplexed_by now m local_id peers)"
    and "fleet_multiplex_enabled (dw_flag w)" and "attached_target w (br_path req) = To_attached ptr"
    and "service_authorized svc req" and "\<not> event_path (br_path req)"
    and "am_observe_read svc = None" and "am_observe_write svc = None"
  shows "case named_peer (br_path req) (sq_headers req) now m local_id peers of
      Some (p, peer) \<Rightarrow>
        dispatch w svc (Inr req) =
          (case truthy (peer_url peer) of
             None \<Rightarrow> Replied (peer_unreachable fp)
           | Some url \<Rightarrow> Relayed_peer p (hub_handle (dw_lib w) px (hop_of req) (Some url)
                           (map_option (auth_header_of (dw_lib w)) (peer_token peer))), False)
        \<and> dispatch_upgrade w svc (Inr req) =
          (case truthy (peer_url peer) of
             None \<Rightarrow> Upgrade_destroyed
           | Some url \<Rightarrow> Upgrade_peer p (hub_handle_upgrade (dw_lib w) px (hop_of req) (Some url)))
    | None \<Rightarrow>
        party_of (fst (dispatch w svc (Inr req))) \<in> {This_service, Local_engine}
        \<and> dispatch_upgrade w svc (Inr req) = Upgrade_destroyed"
  using assms by (rule attached_dispatch)

text \<open>C6: An observation-only machine never serves a peer's session. A request for a session whose owner is
  another serving machine never reaches the local engine: if it leaves, it goes to the owner, at the
  owner's URL with the token held for the owner, and a write leaves only while control of the owner
  is held; otherwise this service answers, with its own route, its shelf or the named refusal.\<close>

theorem observed_session_is_never_served_here:
  fixes peer :: "string \<Rightarrow> peer_transport option" and grants :: "string \<Rightarrow> grant_read option"
    and local_id :: string and w :: dispatch_world
  assumes "am_plane svc = None" and "am_observe_read svc = Some rd" and "am_observe_write svc = Some wr"
    and "or_resolve rd = (\<lambda>mt path. fst (observation_read mt path now m local_id peer))"
    and "ow_resolve wr = (\<lambda>mt path. fst (observation_write mt path now m local_id peer grants))"
    and "ow_resolve_create wr = (\<lambda>mt path headers. observation_create mt path headers local_id peer grants)"
    and "extract_session_id_from_read_path (br_path req) = Some sid"
    and "resolve_owner sid now m = (Some p, m')" and "p \<noteq> []" and "p \<noteq> local_id" and "peer p \<noteq> None"
    and "service_authorized svc req"
  defines "reading \<equiv> method_or_get (br_method req) = ''GET'' \<or> method_or_get (br_method req) = ''HEAD''"
    and "result \<equiv> fst (dispatch w svc (Inr req))"
    and "deps \<equiv> \<lparr> local_machine_id = local_id, grant_reader = grants,
                  peer_reachable = (\<lambda>p. usable (peer p) \<noteq> None) \<rparr>"
  shows "party_of result \<in> {This_service, Machine p}
    \<and> (party_of result = Machine p \<longrightarrow>
         (\<exists>url token. usable (peer p) = Some (url, token)
            \<and> result = Relayed_observed p (observed_hop w req url token))
         \<and> (reading \<or> control_held deps p))"
proof -
  note own = session_path_not_own_surface [OF assms(7)]
  note off = session_path_not_create [OF assms(7)]
  have ev: "\<not> event_path (br_path req)"
    using assms(7) by (auto simp: event_path_def extract_session_id_from_read_path_def segment_after_def)
  have proxied: "\<not> should_proxy_amicode_to_host svc (br_path req)" and route: "route_peer w svc req = Route_none"
    and fleet: "serve_fleet w svc req Route_none = None"
    using assms(1) by (simp_all add: should_proxy_iff route_peer_def serve_fleet_def)
  have d: "result = (case serve_locally w svc req of Some s \<Rightarrow> s | None \<Rightarrow> serve_engine w svc req)"
    unfolding result_def using dispatch_plain [OF assms(12) ev, of w]
    by (simp add: proxied route fleet split: option.splits)
  have rd: "or_resolve rd (br_method req) (br_path req) =
      (if reading then (case usable (peer p) of
           None \<Rightarrow> Some (Observe_degraded p) | Some (url, token) \<Rightarrow> Some (Observe_peer p url token))
       else None)"
    using assms(4,7-11) own by (auto simp: observation_read_def reading_def Let_def)
  have wr: "\<not> reading \<Longrightarrow> ow_resolve wr (br_method req) (br_path req) =
      Some (authorize_write (method_or_get (br_method req)) (br_path req) p local_id peer grants)"
    using assms(5,7-11) own by (auto simp: observation_write_def reading_def Let_def)
  have cr: "ow_resolve_create wr (br_method req) (br_path req) (sq_headers req) = None"
    using assms(6) off by (simp add: observation_create_off_path)
  have read: "\<exists>s. consult_read w rd req = Some s
      \<and> (s = Replied (observed_unreachable ''peer-unreachable'' p)
         \<or> (\<exists>url token. usable (peer p) = Some (url, token)
              \<and> s = Relayed_observed p (observed_hop w req url token)))" if reading
    using that rd by (auto simp: consult_read_def relay_observed_bound split: option.splits)
  have writing: "consult_read w rd req = None \<and>
      (\<exists>s. consult_write w wr req = Some s
      \<and> (party_of s = This_service
         \<or> control_held deps p \<and> (\<exists>url token. usable (peer p) = Some (url, token)
              \<and> s = Relayed_observed p (observed_hop w req url token))))" if "\<not> reading"
    using authorize_write_cases [OF assms(10), where action = "method_or_get (br_method req)"
        and path = "br_path req" and peer = peer and grants = grants] rd wr [OF that] cr that
    unfolding deps_def by (auto simp: consult_read_def consult_write_def Let_def relay_observed_bound)
  have engine: "party_of (serve_engine w svc req) = This_service
      \<or> (reading \<or> control_held deps p) \<and> (\<exists>url token. usable (peer p) = Some (url, token)
           \<and> serve_engine w svc req = Relayed_observed p (observed_hop w req url token))"
  proof (cases "am_engine svc = None")
    case False
    show ?thesis
    proof (cases reading)
      case True
      then obtain s where "consult_read w rd req = Some s" and "s = Replied (observed_unreachable ''peer-unreachable'' p)
          \<or> (\<exists>url token. usable (peer p) = Some (url, token) \<and> s = Relayed_observed p (observed_hop w req url token))"
        using read by blast
      then show ?thesis using True False assms(2) by (auto simp: serve_engine_def)
    next
      case not_reading: False
      then obtain s where "consult_read w rd req = None" and "consult_write w wr req = Some s"
        and "party_of s = This_service \<or> control_held deps p \<and> (\<exists>url token. usable (peer p) = Some (url, token)
              \<and> s = Relayed_observed p (observed_hop w req url token))"
        using writing by blast
      then show ?thesis using not_reading False assms(2,3) by (auto simp: serve_engine_def)
    qed
  qed (simp add: serve_engine_def)
  show ?thesis
  proof (cases "serve_locally w svc req")
    case None
    then show ?thesis using engine d by auto
  next
    case (Some s)
    then have "party_of s = This_service"
      using serve_locally_stays [OF Some] serve_locally_party [OF Some] own
      by (auto simp: own_surface_def)
    then show ?thesis using d Some by simp
  qed
qed

section \<open>Witnesses\<close>

definition demo_hop_lib :: relay_library where
  "demo_hop_lib =
     \<lparr> parse_incoming = (\<lambda>u base. Some \<lparr> iu_href = base @ u, iu_path = u, iu_after = None, iu_with_after = (\<lambda>a. base @ u) \<rparr>),
       auth_header_of = (\<lambda>t. ''Basic '' @ t) \<rparr>"

definition demo_world :: "cache_file \<Rightarrow> dispatch_world" where
  "demo_world attachment =
     \<lparr> dw_flag = None, dw_attachment = attachment, dw_keeper_path = ''/k'', dw_keeper = Cache_absent,
       dw_lib = demo_hop_lib, dw_read_url = (\<lambda>u base. Some (base @ u)) \<rparr>"

definition demo_hub :: hub_proxy where
  "demo_hub =
     \<lparr> hp_url = Some ''http://hub'', hp_credential = Inr (None, \<lparr> hc_base_url = ''http://hub'', hc_token = ''hubtok'' \<rparr>),
       hp_resume = None \<rparr>"

definition demo_plane :: "bool \<Rightarrow> peer_transport obj \<Rightarrow> owner_map \<Rightarrow> fleet_plane" where
  "demo_plane client peers m =
     \<lparr> fp_mode = Mode_fleet, fp_hub = demo_hub\<lparr>hp_url := None\<rparr>, fp_writes = None, fp_client = client,
       fp_hub_down_pointer = None, fp_attached = Some demo_hub, fp_keeper = None, fp_peer_pointer = None,
       fp_multiplex = Some (multiplexed_by 0 m ''me'' peers), fp_fan_in = None \<rparr>"

definition demo_front :: "fleet_plane option \<Rightarrow> service" where
  "demo_front plane =
     \<lparr> am_boundary = \<lparr> sv_password = None, sv_engine_password = None, sv_open = True, sv_decode = (\<lambda>s. s) \<rparr>,
       am_accept = None, am_routes = [(''GET /amicode/roster'', \<lambda>req body. Inr (error_reply 200 ''roster''))],
       am_shelf = None, am_engine = Some (Some ''http://engine''), am_plane = plane,
       am_observe_read = None, am_observe_write = None, am_observe_events = None \<rparr>"

definition demo_ask :: "string \<Rightarrow> string \<Rightarrow> service_request" where
  "demo_ask req_method path =
     \<lparr> br_method = req_method, br_path = path, br_auth_token = None, br_authorization = [],
       br_nonce_header = None, br_identity_header = None, br_enrollment_nonce = None,
       sq_url = path, sq_headers = [], sq_accept = [], sq_chunks = [] \<rparr>"

definition demo_attached :: cache_file where
  "demo_attached = write_attachment_pointer_file \<lparr> ap_ssh_alias = ''p'', ap_transport = ''ssh'', ap_machine_id = ''P'' \<rparr>"

definition demo_owned :: owner_map where
  "demo_owned = record_pending_owner ''s1'' ''P'' 0 (new_owner_map None)"

definition demo_peers :: "peer_transport obj" where
  "demo_peers = [(''P'', \<lparr> peer_url = Some ''http://p'', peer_token = Some ''ptok'' \<rparr>)]"

lemma demo_authorized: "service_authorized (demo_front plane) req"
  by (simp add: service_authorized_def boundary_authorized_def demo_front_def)

lemma demo_target: "attached_target (demo_world demo_attached) path =
    (if under_path ''/amicode/fleet'' path then To_local
     else if under_path ''/amicode/roster'' path then To_keeper None
     else To_attached \<lparr> ap_ssh_alias = ''p'', ap_transport = ''ssh'', ap_machine_id = ''P'' \<rparr>)"
  by (simp add: attached_target_def resolve_amicode_target_def demo_world_def demo_attached_def
      write_attachment_pointer_file_def resolve_attachment_pointer_def resolve_keeper_pointer_def
      pointer_json_def json_object.simps filled_def text_of_def js_trim_def js_space_def)

lemma demo_front_sel [simp]:
  "am_plane (demo_front plane) = plane" "am_engine (demo_front plane) = Some (Some ''http://engine'')"
  "am_observe_read (demo_front plane) = None" "am_observe_write (demo_front plane) = None"
  by (simp_all add: demo_front_def)

lemma demo_plane_sel [simp]:
  "fp_mode (demo_plane c peers m) = Mode_fleet" "fp_client (demo_plane c peers m) = c"
  "fp_writes (demo_plane c peers m) = None" "fp_attached (demo_plane c peers m) = Some demo_hub"
  "fp_keeper (demo_plane c peers m) = None" "hp_url (fp_hub (demo_plane c peers m)) = None"
  "fp_multiplex (demo_plane c peers m) = Some (multiplexed_by 0 m ''me'' peers)"
  by (simp_all add: demo_plane_def)

lemma demo_ask_sel [simp]:
  "br_path (demo_ask req_method path) = path" "br_method (demo_ask req_method path) = req_method"
  "sq_headers (demo_ask req_method path) = []"
  by (simp_all add: demo_ask_def)

lemma demo_world_sel [simp]: "dw_lib (demo_world c) = demo_hop_lib" "dw_flag (demo_world c) = None"
  by (simp_all add: demo_world_def)


theorem owner_decides_where_a_request_runs_witness:
  "\<exists>plan. dispatch (demo_world demo_attached) (demo_front (Some (demo_plane False demo_peers demo_owned)))
       (Inr (demo_ask ''POST'' ''/api/session/s1/message'')) = (Relayed_peer ''P'' plan, False)"
proof -
  have "named_peer ''/api/session/s1/message'' [] 0 demo_owned ''me'' demo_peers
      = Some (''P'', \<lparr> peer_url = Some ''http://p'', peer_token = Some ''ptok'' \<rparr>)"
    by (simp add: named_peer_def request_owner_def extract_session_id_from_path_def segment_after_def slash_def
        resolve_owner_def demo_owned_def record_pending_owner_def new_owner_map_def demo_peers_def
        PENDING_OWNER_TTL_MS_def)
  then show ?thesis
    using owner_decides_where_a_request_runs [of "demo_front (Some (demo_plane False demo_peers demo_owned))"
        "demo_plane False demo_peers demo_owned" demo_hub 0 demo_owned "''me''" demo_peers
        "demo_world demo_attached" "demo_ask ''POST'' ''/api/session/s1/message''"]
    by (simp add: demo_authorized demo_target event_path_def under_path_def fleet_multiplex_enabled_def)
qed

definition demo_read_plane :: observation_read_plane where
  "demo_read_plane =
     \<lparr> or_resolve = (\<lambda>mt path. fst (observation_read mt path 0 demo_owned ''me'' demo_serving_peer)),
       or_probe = None \<rparr>"

definition demo_write_plane :: observation_write_plane where
  "demo_write_plane =
     \<lparr> ow_resolve = (\<lambda>mt path. fst (observation_write mt path 0 demo_owned ''me'' demo_serving_peer demo_p_grant)),
       ow_resolve_create = (\<lambda>mt path headers. observation_create mt path headers ''me'' demo_serving_peer demo_p_grant),
       ow_probe = None, ow_create = (\<lambda>p url token. True) \<rparr>"

definition demo_observer :: service where
  "demo_observer =
     (demo_front None)\<lparr>am_observe_read := Some demo_read_plane, am_observe_write := Some demo_write_plane\<rparr>"

theorem observed_session_is_never_served_here_witness:
  "party_of (fst (dispatch (demo_world Cache_absent) demo_observer
       (Inr (demo_ask ''DELETE'' ''/session/s1'')))) \<in> {This_service, Machine ''P''}"
proof -
  have a: "service_authorized demo_observer (demo_ask ''DELETE'' ''/session/s1'')"
    using demo_authorized [of None] by (simp add: demo_observer_def service_authorized_def)
  have o1: "resolve_owner ''s1'' 0 demo_owned = (Some ''P'', demo_owned)"
    by (simp add: resolve_owner_def demo_owned_def record_pending_owner_def new_owner_map_def
        PENDING_OWNER_TTL_MS_def)
  have "extract_session_id_from_read_path ''/session/s1'' = Some ''s1''"
    by (simp add: extract_session_id_from_read_path_def segment_after_def slash_def)
  then show ?thesis
    using observed_session_is_never_served_here [of demo_observer demo_read_plane demo_write_plane 0 demo_owned
        "''me''" demo_serving_peer demo_p_grant "demo_ask ''DELETE'' ''/session/s1''" "''s1''" "''P''" demo_owned
        "demo_world Cache_absent"] a o1
    by (simp add: demo_observer_def demo_read_plane_def demo_write_plane_def demo_serving_peer_def)
qed

section \<open>Where the door is not what it says\<close>

text \<open>Without a keeper's upstream - and the lifecycle of an attach sets none - an attached machine answers
  its own roster route with the peer-unreachable 503, although the peer may be up and a local route
  is registered.\<close>

theorem roster_without_keeper_is_unreachable:
  assumes "am_plane svc = Some fp" and "\<not> fp_client fp" and "fp_mode fp = Mode_fleet"
    and "fp_attached fp = Some px" and "fp_keeper fp = None"
    and "service_authorized svc req" and "br_path req = ''/amicode/roster''"
  shows "dispatch w svc (Inr req) = (Replied (peer_unreachable fp), False)"
proof -
  have t: "attached_target w ''/amicode/roster'' =
      To_keeper (case resolve_keeper_pointer (dw_keeper_path w) (dw_keeper w) of Inr k \<Rightarrow> Some k | Inl e \<Rightarrow> None)"
    by (simp add: attached_target_def resolve_amicode_target_def under_path_def)
  have p: "\<not> should_proxy_amicode_to_host svc (br_path req)" using assms(1,2) by (simp add: should_proxy_iff)
  then have r: "route_peer w svc req = Route_keeper"
    using assms by (simp add: route_peer_def routing_mode_def t)
  have f: "serve_fleet w svc req Route_keeper = Some (Replied (peer_unreachable fp), False)"
    using assms(1,3,5) by (simp add: serve_fleet_def routing_mode_def serve_route_def)
  have e: "\<not> event_path (br_path req)" using assms(7) by (simp add: event_path_def)
  show ?thesis by (simp add: dispatch_plain [OF assms(6) e] p r f)
qed

theorem roster_without_keeper_witness:
  "dispatch (demo_world demo_attached) (demo_front (Some (demo_plane False demo_peers demo_owned)))
     (Inr (demo_ask ''GET'' ''/amicode/roster''))
   = (Replied (peer_unreachable (demo_plane False demo_peers demo_owned)), False)
   \<and> obj_get (am_routes (demo_front (Some (demo_plane False demo_peers demo_owned)))) ''GET /amicode/roster'' \<noteq> None"
  using roster_without_keeper_is_unreachable [of "demo_front (Some (demo_plane False demo_peers demo_owned))"
      "demo_plane False demo_peers demo_owned" demo_hub "demo_ask ''GET'' ''/amicode/roster''" "demo_world demo_attached"]
  by (simp add: demo_authorized) (simp add: demo_front_def)

text \<open>A request for a peer's session carries the peer's token, an upgrade for it the hub's credential.\<close>

theorem upgrade_dials_a_peer_with_the_hub_credential:
  assumes "hub_handle lib px req (Some url) (Some auth) = Hop_sent r"
    and "hub_handle_upgrade lib px req (Some url) = Upgrade_sent r'"
  shows "obj_get (hr_headers r) ''authorization'' = Some (Header auth)
    \<and> (\<exists>n c. hp_credential px = Inr (n, c)
         \<and> obj_get (hr_headers r') ''authorization'' = Some (Header (auth_header_of lib (hc_token c))))"
  using assms
  by (auto simp: hub_handle_def hub_handle_upgrade_def hop_auth_def hop_headers_def Let_def
      split: option.splits sum.splits)

text \<open>The multiplexer's peers are read once: the session of a machine that joined afterwards is served here,
  although the owner map names its machine and that machine serves.\<close>

lemma peers_built_at_boot:
  assumes "p \<notin> set (get_serving_peers pv)"
  shows "obj_get (build_multiplex_peers (Some pv)) p = None"
proof -
  have "obj_get (foldl (\<lambda>out p. obj_set out p (f p)) out ps) p = obj_get out p" if "p \<notin> set ps" for f :: "string \<Rightarrow> peer_transport" and out ps
    using that by (induction ps arbitrary: out) auto
  then show ?thesis using assms by (simp add: build_multiplex_peers_def)
qed

theorem late_peer_is_served_here:
  assumes "am_plane svc = Some fp" and "\<not> fp_client fp" and "fp_mode fp = Mode_fleet"
    and "fp_attached fp = Some px"
    and "fp_multiplex fp = Some (multiplexed_by now m local_id (build_multiplex_peers (Some at_boot)))"
    and "fleet_multiplex_enabled (dw_flag w)" and "attached_target w (br_path req) = To_attached ptr"
    and "service_authorized svc req" and "\<not> event_path (br_path req)"
    and "am_observe_read svc = None" and "am_observe_write svc = None"
    and "fst (request_owner (br_path req) (sq_headers req) now m) = Some p"
    and "p \<notin> set (get_serving_peers at_boot)"
  shows "party_of (fst (dispatch w svc (Inr req))) \<in> {This_service, Local_engine}"
proof -
  have "named_peer (br_path req) (sq_headers req) now m local_id (build_multiplex_peers (Some at_boot)) = None"
    using assms(12) peers_built_at_boot [OF assms(13)] by (simp add: named_peer_def)
  then show ?thesis using attached_dispatch [OF assms(1-11)] by simp
qed

text \<open>The multiplexer reads the session from \<open>/api/session/<id>/...\<close> only: a request on the other client's
  \<open>/session/<id>\<close> paths is served here whoever owns the session, unless it carries the routing header.\<close>

theorem session_path_without_api_is_served_here:
  assumes "am_plane svc = Some fp" and "\<not> fp_client fp" and "fp_mode fp = Mode_fleet"
    and "fp_attached fp = Some px" and "fp_multiplex fp = Some (multiplexed_by now m local_id peers)"
    and "fleet_multiplex_enabled (dw_flag w)" and "attached_target w (br_path req) = To_attached ptr"
    and "service_authorized svc req" and "\<not> event_path (br_path req)"
    and "am_observe_read svc = None" and "am_observe_write svc = None"
    and "starts_with (br_path req) ''/session/''" and "owner_header (sq_headers req) = None"
  shows "party_of (fst (dispatch w svc (Inr req))) \<in> {This_service, Local_engine}"
proof -
  obtain t where "br_path req = ''/session/'' @ t" using assms(12) by (auto simp: starts_with_iff)
  then have "extract_session_id_from_path (br_path req) = None"
    by (simp add: extract_session_id_from_path_def segment_after_def)
  then have "named_peer (br_path req) (sq_headers req) now m local_id peers = None"
    using assms(13) by (simp add: named_peer_def request_owner_def)
  then show ?thesis using attached_dispatch [OF assms(1-11)] by simp
qed

text \<open>A session created on a peer through the write plane is bound to it at once.\<close>

lemma created_session_is_bound:
  assumes "proxy_create_to_peer parse_json now (Some u) (Some a) machine_id m = (reply, m')"
    and "created_id (parse_json (ca_text a)) = Some sid"
    and "obj_get (owners m) sid = None" and "machine_id \<noteq> []" and "now' - now \<le> PENDING_OWNER_TTL_MS"
  shows "resolve_owner sid now' m' = (Some machine_id, m')"
proof -
  have "sid \<noteq> []"
    using assms(2) by (auto simp: created_id_def split: option.splits json.splits)
  moreover have "m' = record_pending_owner sid machine_id now m"
    using assms(1,2) by (auto simp: proxy_create_to_peer_def)
  ultimately show ?thesis
    using assms(3-5) by (simp add: resolve_owner_def record_pending_owner_def)
qed

lemma cleanups_run_once: "lc_ran (stop_service (stop_service s)) = lc_ran s @ lc_cleanups s"
  by (simp add: stop_service_def Let_def)

end
