(* ===== verification/Relay_Properties.thy ===== *)
theory Relay_Properties
  imports App_Shelf
begin

text \<open>
  What a hop and the shelf keep: one outcome per hop, whatever the wire does; a stream lost after
  its headers is never ended as if it were whole; the caller's credential never leaves with a hop;
  a tunnel closes both of its sockets; the shelf reads nothing outside its root.
\<close>

section \<open>One outcome per hop\<close>

text \<open>The outcome a sequence of events shows: the first answer of the hub, or its first silence or
  failure unless the caller had left by then.\<close>

fun shown_outcome :: "bool \<Rightarrow> hop_event list \<Rightarrow> outcome list" where
  "shown_outcome left [] = []"
| "shown_outcome left (Hub_headers status latency sse # evs) = [Responded latency]"
| "shown_outcome left (Headers_timeout ms # evs) =
     (if left then shown_outcome left evs else [NoResponse (Some (timeout_detail ms))])"
| "shown_outcome left (Upstream_error detail # evs) =
     (if left then shown_outcome left evs else [NoResponse (Some detail)])"
| "shown_outcome left (Client_close finished # evs) = shown_outcome (left \<or> \<not> finished) evs"
| "shown_outcome left (Hub_data chunk # evs) = shown_outcome left evs"
| "shown_outcome left (Hub_end # evs) = shown_outcome left evs"
| "shown_outcome left (Hub_body_error # evs) = shown_outcome left evs"

lemma count_outcome_simps [simp]:
  "hs_aborted (count_outcome o1 s) = hs_aborted s" "hs_status (count_outcome o1 s) = hs_status s"
  "hs_counted (count_outcome o1 s)" "hs_close (count_outcome o1 s) = hs_close s"
  "hs_outcomes (count_outcome o1 s) = (if hs_counted s then hs_outcomes s else hs_outcomes s @ [o1])"
  by (simp_all add: count_outcome_def)

lemma close_hop_simps [simp]:
  "hs_aborted (close_hop c s) = hs_aborted s" "hs_status (close_hop c s) = hs_status s"
  "hs_counted (close_hop c s) = hs_counted s" "hs_outcomes (close_hop c s) = hs_outcomes s"
  "hs_close (close_hop c s) = (case hs_close s of None \<Rightarrow> Some c | Some c' \<Rightarrow> Some c')"
  by (simp_all add: close_hop_def split: option.splits)

lemma write_hop_simps [simp]:
  "hs_aborted (write_hop b s) = hs_aborted s" "hs_status (write_hop b s) = hs_status s"
  "hs_counted (write_hop b s) = hs_counted s" "hs_outcomes (write_hop b s) = hs_outcomes s"
  "hs_close (write_hop b s) = hs_close s"
  by (simp_all add: write_hop_def split: option.splits)

lemma hop_data_simps [simp]:
  "hs_aborted (hop_step (Hub_data c) s) = hs_aborted s" "hs_counted (hop_step (Hub_data c) s) = hs_counted s"
  "hs_outcomes (hop_step (Hub_data c) s) = hs_outcomes s" "hs_status (hop_step (Hub_data c) s) = hs_status s"
  "hs_close (hop_step (Hub_data c) s) = hs_close s"
  by (auto split: option.splits bool.splits prod.splits)

lemma hop_end_simps [simp]:
  "hs_aborted (hop_step Hub_end s) = hs_aborted s" "hs_counted (hop_step Hub_end s) = hs_counted s"
  "hs_outcomes (hop_step Hub_end s) = hs_outcomes s" "hs_status (hop_step Hub_end s) = hs_status s"
  "hs_close (hop_step Hub_end s) = (case hs_close s of None \<Rightarrow> Some Closed_clean | Some c \<Rightarrow> Some c)"
  by (auto split: option.splits bool.splits prod.splits)

lemma hop_run_Nil [simp]: "hop_run [] s = s"
  by (simp add: hop_run_def)

lemma hop_run_Cons [simp]: "hop_run (e # evs) s = hop_run evs (hop_step e s)"
  by (simp add: hop_run_def)

lemma hop_run_append: "hop_run (a @ b) s = hop_run b (hop_run a s)"
  by (simp add: hop_run_def)

lemmas hop_data_end = hop_data_simps hop_end_simps

declare hop_step.simps(2) [simp del] hop_step.simps(3) [simp del]

lemma counted_stays:
  "hs_counted s \<Longrightarrow> hs_outcomes (hop_run evs s) = hs_outcomes s \<and> hs_counted (hop_run evs s)"
proof (induction evs arbitrary: s)
  case (Cons e evs)
  have "hs_counted (hop_step e s) \<and> hs_outcomes (hop_step e s) = hs_outcomes s"
    using Cons.prems by (cases e) (auto simp: Let_def)
  then show ?case using Cons.IH [of "hop_step e s"] by simp
qed simp

lemma outcomes_shown:
  "\<not> hs_counted s \<Longrightarrow> hs_outcomes (hop_run evs s) = hs_outcomes s @ shown_outcome (hs_aborted s) evs"
proof (induction evs arbitrary: s)
  case (Cons e evs)
  show ?case
  proof (cases e)
    case (Hub_headers status latency sse)
    then show ?thesis using Cons.prems by (simp add: counted_stays)
  next
    case (Headers_timeout ms)
    then show ?thesis using Cons by (auto simp: counted_stays)
  next
    case (Upstream_error detail)
    then show ?thesis using Cons by (auto simp: counted_stays Let_def)
  next
    case (Client_close finished)
    then show ?thesis using Cons by auto
  qed (use Cons in auto)
qed simp

section \<open>How a response ends\<close>

fun ends_whole :: "bool \<Rightarrow> hop_event list \<Rightarrow> hop_close option" where
  "ends_whole sent [] = None"
| "ends_whole sent (Hub_headers status latency sse # evs) = ends_whole True evs"
| "ends_whole sent (Hub_end # evs) = Some Closed_clean"
| "ends_whole sent (Hub_body_error # evs) = Some Closed_error"
| "ends_whole sent (Upstream_error detail # evs) =
     Some (if sent then Closed_error else Closed_502 (''hub upstream failed: '' @ detail))"
| "ends_whole sent (e # evs) = ends_whole sent evs"

lemma close_stays: "hs_close s = Some c \<Longrightarrow> hs_close (hop_run evs s) = Some c"
proof (induction evs arbitrary: s)
  case (Cons e evs)
  have "hs_close (hop_step e s) = Some c"
    using Cons.prems by (cases e) (auto simp: Let_def)
  then show ?case using Cons.IH [of "hop_step e s"] by simp
qed simp

lemma close_shown:
  "hs_close s = None \<Longrightarrow> hs_close (hop_run evs s) = ends_whole (hs_status s \<noteq> None) evs"
proof (induction evs arbitrary: s)
  case (Cons e evs)
  then show ?case
    by (cases e) (auto simp: Let_def close_stays)
qed simp

section \<open>A tunnel\<close>

definition tunnel_ok :: "tunnel_state \<Rightarrow> bool" where
  "tunnel_ok t \<longleftrightarrow>
     (tn_request_open t \<longrightarrow> tn_client_open t \<and> \<not> tn_upgraded t \<and> \<not> tn_torn t)
     \<and> (\<not> tn_upgraded t \<longrightarrow> \<not> tn_upstream_open t \<and> \<not> tn_torn t)
     \<and> (tn_upgraded t \<longrightarrow> tn_upstream_open t = tn_client_open t \<and> tn_torn t = (\<not> tn_client_open t))"

lemma tell_client_simps [simp]:
  "tn_upgraded (tell_client b t) = tn_upgraded t" "tn_torn (tell_client b t) = tn_torn t"
  "tn_client_open (tell_client b t) = tn_client_open t" "tn_upstream_open (tell_client b t) = tn_upstream_open t"
  "tn_request_open (tell_client b t) = tn_request_open t"
  by (simp_all add: tell_client_def)

lemma tunnel_step_ok: "tunnel_ok t \<Longrightarrow> tunnel_ok (tunnel_step e t)"
  by (cases e) (auto simp: tunnel_ok_def Let_def fail_upgrade_def teardown_tunnel_def)

lemma tunnel_run_ok: "tunnel_ok (tunnel_run evs)"
proof -
  have "tunnel_ok t \<Longrightarrow> tunnel_ok (foldl (\<lambda>t e. tunnel_step e t) t evs)" for t
    by (induction evs arbitrary: t) (auto simp: tunnel_step_ok)
  then show ?thesis by (simp add: tunnel_run_def tunnel_ok_def start_tunnel_def)
qed

lemma tunnel_gone_closes_both:
  assumes "e = Tunnel_client_gone \<or> e = Tunnel_upstream_gone" and "tn_upgraded (tunnel_run evs)"
  shows "\<not> tn_client_open (tunnel_run (evs @ [e])) \<and> \<not> tn_upstream_open (tunnel_run (evs @ [e]))"
  using assms tunnel_run_ok [of evs]
  by (auto simp: tunnel_run_def tunnel_ok_def teardown_tunnel_def)

section \<open>The credential of a hop\<close>

lemma obj_get_dels: "obj_get (foldl obj_del h ks) k = (if k \<in> set ks then None else obj_get h k)"
  by (induction ks arbitrary: h) auto

lemma hop_headers_get:
  "obj_get (hop_headers dropped h auth) k =
     (if k = ''authorization'' then Some (Header auth) else if k \<in> set dropped then None else obj_get h k)"
  by (simp add: hop_headers_def obj_get_dels)

lemma hop_headers_single: "obj_wf h \<Longrightarrow> obj_wf (hop_headers dropped h auth)"
proof -
  have "obj_wf h \<Longrightarrow> obj_wf (foldl obj_del h ks)" for ks by (induction ks arbitrary: h) auto
  then show "obj_wf h \<Longrightarrow> obj_wf (hop_headers dropped h auth)" by (simp add: hop_headers_def)
qed

lemma hub_handle_sent:
  assumes "hub_handle lib px req u a = Hop_sent r"
  shows "\<exists>auth base url. hop_auth lib (hp_credential px) a = Inr auth \<and> upstream_base px u = Some base
    \<and> parse_incoming lib (ho_url req) base = Some url
    \<and> hr_headers r = hop_headers DROPPED_HEADERS (ho_headers req) auth \<and> hr_method r = ho_method req
    \<and> (hp_resume px = None \<longrightarrow> hr_target r = iu_href url)"
  using assms by (auto simp: hub_handle_def resume_target_def Let_def split: option.splits sum.splits)

lemma read_reply:
  "map_sum (\<lambda>msg. msg) (\<lambda>t. Some (f t)) (read_disk fs path) = Inr (Some r) \<longleftrightarrow>
     (\<exists>t. fs path = Disk_file t \<and> r = f t)"
  by (cases "read_disk fs path") (auto simp: read_disk_file [symmetric])

section \<open>Properties\<close>

text \<open>C37: Each hop to the hub tells the posture detector one outcome at most, and the right one. Whatever
  the wire does - headers, data, errors, the headers timeout, the caller leaving, in any order and
  any number - the outcomes recorded are those the events show: the first answer, or the first
  silence, unless the caller had left before it; a caller's own disconnect is never a hub failure.
  The response ends clean only when the hub ended it: a stream lost after its headers is closed
  with an error, one lost before them is answered with a 502.\<close>

theorem hop_counts_one_outcome:
  "hs_outcomes (hop_run evs (start_hop fl d)) = shown_outcome False evs
   \<and> length (shown_outcome False evs) \<le> 1
   \<and> hs_close (hop_run evs (start_hop fl d)) = ends_whole False evs"
proof -
  have "length (shown_outcome left evs) \<le> 1" for left
    by (induction left evs rule: shown_outcome.induct) auto
  then show ?thesis
    using outcomes_shown [of "start_hop fl d" evs] close_shown [of "start_hop fl d" evs]
    by (simp add: start_hop_def)
qed

text \<open>The caller's credential never rides a hop. A hop that leaves for the hub, or for a peer, carries
  one authorization header: the one given for this hop or else the hub credential's, whatever the
  caller sent; \<open>host\<close> and \<open>connection\<close> go and every other header stays. Without a credential nothing
  leaves. An upgrade translates the credential the same way and keeps \<open>connection\<close>, and the engine
  gets the caller's own.\<close>

theorem hop_carries_its_own_credential:
  assumes "hub_handle lib px req u a = Hop_sent r"
  shows "obj_get (hr_headers r) ''authorization'' =
      Some (Header (case a of Some auth \<Rightarrow> auth
                    | None \<Rightarrow> (case hp_credential px of Inr (n, c) \<Rightarrow> auth_header_of lib (hc_token c) | Inl f \<Rightarrow> [])))
    \<and> (a = None \<longrightarrow> (\<exists>n c. hp_credential px = Inr (n, c)))
    \<and> obj_get (hr_headers r) ''host'' = None \<and> obj_get (hr_headers r) ''connection'' = None
    \<and> (\<forall>k. k \<notin> {''authorization'', ''host'', ''connection''} \<longrightarrow>
         obj_get (hr_headers r) k = obj_get (ho_headers req) k)
    \<and> (\<forall>r'. hub_handle_upgrade lib px req u = Upgrade_sent r' \<longrightarrow>
         obj_get (hr_headers r') ''connection'' = obj_get (ho_headers req) ''connection'')
    \<and> (\<forall>r'. engine_handle read_url url req = Engine_sent r' \<longrightarrow>
         obj_get (hr_headers r') ''authorization'' = obj_get (ho_headers req) ''authorization'')"
proof -
  obtain auth where auth: "hop_auth lib (hp_credential px) a = Inr auth"
    and h: "hr_headers r = hop_headers DROPPED_HEADERS (ho_headers req) auth"
    using hub_handle_sent [OF assms] by blast
  have up: "obj_get (hr_headers r') ''connection'' = obj_get (ho_headers req) ''connection''"
    if "hub_handle_upgrade lib px req u = Upgrade_sent r'" for r'
    using that
    by (auto simp: hub_handle_upgrade_def hop_headers_get UPGRADE_DROPPED_HEADERS_def
        split: option.splits sum.splits)
  have eng: "obj_get (hr_headers r') ''authorization'' = obj_get (ho_headers req) ''authorization''"
    if "engine_handle read_url url req = Engine_sent r'" for r'
    using that by (auto simp: engine_handle_def obj_get_dels HOP_BY_HOP_def split: option.splits)
  show ?thesis
    using auth up eng
    by (auto simp: h hop_headers_get DROPPED_HEADERS_def hop_auth_def split: option.splits sum.splits)
qed

definition demo_lib :: relay_library where
  "demo_lib =
     \<lparr> parse_incoming = (\<lambda>u base. Some \<lparr> iu_href = base @ u, iu_path = u, iu_after = None, iu_with_after = (\<lambda>a. base @ u) \<rparr>),
       auth_header_of = (\<lambda>t. ''Basic '' @ t) \<rparr>"

definition demo_proxy :: hub_proxy where
  "demo_proxy =
     \<lparr> hp_url = Some ''http://hub'', hp_credential = Inr (None, \<lparr> hc_base_url = ''http://hub'', hc_token = ''hubtok'' \<rparr>),
       hp_resume = None \<rparr>"

definition demo_source :: hop_source where
  "demo_source =
     \<lparr> ho_method = ''GET'', ho_url = ''/session'',
       ho_headers = [(''host'', Header ''me''), (''authorization'', Header ''Basic mine''), (''accept'', Header ''json'')] \<rparr>"

theorem hop_carries_its_own_credential_witness:
  "\<exists>r. hub_handle demo_lib demo_proxy demo_source None None = Hop_sent r
     \<and> obj_get (hr_headers r) ''authorization'' = Some (Header ''Basic hubtok'')
     \<and> obj_get (hr_headers r) ''host'' = None"
proof -
  obtain r where r: "hub_handle demo_lib demo_proxy demo_source None None = Hop_sent r"
    by (simp add: hub_handle_def upstream_base_def hop_auth_def demo_lib_def demo_proxy_def Let_def)
  show ?thesis
    using hop_carries_its_own_credential [OF r, of "\<lambda>u b. Some u" None] r
    by (auto simp: demo_lib_def demo_proxy_def)
qed

text \<open>C38: The shelf serves its own directory and nothing else. Two machines whose disks agree on every path
  under the root of the build answer every request alike, whatever the path asks for: a traversal,
  plain or percent-encoded or with backslashes, reads nothing outside. What it serves is the
  placeholder of a missing build, the refusal, or the contents of a file under the root; only GET
  is its business.\<close>

theorem shelf_reads_only_its_root:
  assumes "clean_path (shelf_cwd sh)" and "dist_root sh = Some root"
    and agree: "\<And>path. under_root sh root path \<Longrightarrow> fs path = fs' path"
  shows "shelf_handle fs page sh m pathname accept = shelf_handle fs' page sh m pathname accept
    \<and> (\<forall>r. shelf_handle fs page sh m pathname accept = Inr (Some r) \<longrightarrow>
         m = ''GET'' \<and> (r = html_reply page \<or> r = forbidden_reply
           \<or> (\<exists>path text. under_root sh root path \<and> fs path = Disk_file text \<and> sr_body r = Reply_text text)))"
proof -
  let ?index = "absolute_path (index_segments sh root)"
  have idx: "fs ?index = fs' ?index" by (rule agree [OF index_under_root])
  have present: "dist_present fs sh = dist_present fs' sh"
    using idx assms(2) by (auto simp: dist_present_def split: option.splits)
  have root: "dist_present fs sh = Some root' \<Longrightarrow> root' = root" for root'
    using assms(2) by (auto simp: dist_present_def split: option.splits if_splits)
  have seg: "fs (absolute_path segs) = fs' (absolute_path segs)"
    if "resolve_under_root sh root pathname = Some segs" for segs
    using resolved_under_root [OF assms(1) that] by (rule agree)
  have reads: "read_disk fs ?index = read_disk fs' ?index" by (simp add: read_disk_def idx)
  have same: "shelf_handle fs page sh m pathname accept = shelf_handle fs' page sh m pathname accept"
  proof (cases "dist_present fs sh")
    case None
    then show ?thesis by (simp add: shelf_handle_def present [symmetric])
  next
    case (Some root')
    with root have p: "dist_present fs sh = Some root" by simp
    with present have p': "dist_present fs' sh = Some root" by simp
    show ?thesis
    proof (cases "resolve_under_root sh root pathname")
      case None
      then show ?thesis by (simp add: shelf_handle_def p p')
    next
      case (Some segs)
      have e: "fs (absolute_path segs) = fs' (absolute_path segs)" by (rule seg [OF Some])
      then have "read_disk fs (absolute_path segs) = read_disk fs' (absolute_path segs)"
        by (simp add: read_disk_def)
      with e reads show ?thesis by (simp only: shelf_handle_def p p' Some option.case Let_def)
    qed
  qed
  have served: "m = ''GET'' \<and> (r = html_reply page \<or> r = forbidden_reply
      \<or> (\<exists>path text. under_root sh root path \<and> fs path = Disk_file text \<and> sr_body r = Reply_text text))"
    if r: "shelf_handle fs page sh m pathname accept = Inr (Some r)" for r
  proof (cases "dist_present fs sh")
    case None
    then show ?thesis using r by (auto simp: shelf_handle_def split: if_splits)
  next
    case (Some root')
    with root have p: "dist_present fs sh = Some root" by simp
    show ?thesis
    proof (cases "resolve_under_root sh root pathname")
      case None
      then show ?thesis using r p by (auto simp: shelf_handle_def split: if_splits)
    next
      case (Some segs)
      have m: "m = ''GET''" using r by (simp add: shelf_handle_def split: if_splits)
      have "(\<exists>t. fs ?index = Disk_file t \<and> sr_body r = Reply_text t)
          \<or> (\<exists>t. fs (absolute_path segs) = Disk_file t \<and> sr_body r = Reply_text t)"
        using r
        by (auto simp: shelf_handle_def Let_def p Some m read_reply html_reply_def split: if_splits)
      then show ?thesis
        using m index_under_root resolved_under_root [OF assms(1) Some] by blast
    qed
  qed
  show ?thesis using same served by blast
qed

definition demo_shelf :: app_shelf where
  "demo_shelf = \<lparr> dist_root = Some ''/d/app'', shelf_cwd = [] \<rparr>"

definition demo_disk :: "string \<Rightarrow> disk" where
  "demo_disk secret path =
     (if path = ''/d/app/index.html'' then Disk_file ''app''
      else if path = ''/etc/passwd'' then Disk_file secret else Disk_nothing)"

lemma demo_root: "root_segments demo_shelf ''/d/app'' = [''d'', ''app'']"
  by (simp add: root_segments_def demo_shelf_def resolve_from_def slash_def)

theorem shelf_reads_only_its_root_witness:
  "shelf_handle (demo_disk ''one'') [] demo_shelf ''GET'' ''/%2e%2e/../etc/passwd'' ''text/html''
     = shelf_handle (demo_disk ''two'') [] demo_shelf ''GET'' ''/%2e%2e/../etc/passwd'' ''text/html''"
proof -
  have "demo_disk ''one'' path = demo_disk ''two'' path" if "under_root demo_shelf ''/d/app'' path" for path
  proof -
    have "path \<noteq> ''/etc/passwd''"
      using that by (auto simp: under_root_def demo_root absolute_path_def slash_def)
    then show ?thesis by (simp add: demo_disk_def)
  qed
  then show ?thesis
    using shelf_reads_only_its_root [of demo_shelf "''/d/app''" "demo_disk ''one''" "demo_disk ''two''"
        "[]" "''GET''" "''/%2e%2e/../etc/passwd''" "''text/html''"]
    by (simp add: demo_shelf_def clean_path_def)
qed

end
