(* ===== verification/Spec2Isabelle.thy ===== *)
theory Spec2Isabelle
  imports Mode_Protocol Mode_Rollback Transport_Classifier Queue_Properties Fanin_Properties
    Owner_Routing Control_Properties Peer_Recovery Peer_Transport_Properties
    Projection_Properties Status_Properties Write_Properties Version_Skew Roster_Properties
    Topology_Properties Attach_Properties Dispatch_Properties Relay_Properties
begin

text \<open>
  A verification development for the fleet core of amicode, the TypeScript service under
  \<open>packages/extension/src/amicode_service/\<close>: how a machine joins and leaves a fleet, how it keeps
  working while the hub flaps, and how the sessions of several machines appear as one.

  \<^bold>\<open>The parts and how they meet.\<close>
  The \<^emph>\<open>mode machine\<close> owns the attach-state record (human-confirmed mode, transport-derived
  posture). The \<^emph>\<open>transport classifier\<close>, successor of the \<^emph>\<open>posture detector\<close>, turns the
  outcomes of data-plane requests into posture writes and structural signals. The two-phase
  \<^emph>\<open>transition engine\<close> changes the mode: stage, verify, commit, journalled and able to roll
  back. The durable \<^emph>\<open>proposal queue\<close> holds mutations staged while offline and re-verifies each
  against fresh truth before its one execution; it stands still while the engine's commit window
  is open. The \<^emph>\<open>session owner map\<close> knows which machine owns a session; the \<^emph>\<open>control gates\<close> and
  the \<^emph>\<open>routers\<close> decide from it, from the grants held and from the transports where a request
  goes. The \<^emph>\<open>grant lifecycle\<close> says who holds control of whom, the \<^emph>\<open>control plane\<close> how a grant
  comes about, the \<^emph>\<open>trust stores\<close> which tokens a machine issued and holds, and the \<^emph>\<open>boundary\<close>
  admits a request to the service by them, and the \<^emph>\<open>dispatch\<close> sends it to the route, engine, hub
  or peer that answers it; after a reboot the relationships are recovered from
  the stores, and a \<^emph>\<open>supervisor\<close> keeps one verified transport per peer. The event streams of the
  machines are split into frames, fanned into one downstream with
  one composite cursor, and resumed after a cut without loss.

  \<^bold>\<open>The theories.\<close>
  \<^item> \<open>Fleet_Prelude\<close>: strings, decimal numbers, time stamps, objects and sets in insertion order.
  \<^item> \<open>Attach_State\<close>, \<open>Mode_Engine\<close>: \<open>attach_state.ts\<close>, classes \<open>ModeMachine\<close> and
    \<open>ModeTransitionEngine\<close>, one definition per method; a method that throws returns \<open>Inl\<close> an error.
    \<open>Mode_Protocol\<close> makes one step relation of all operations, transport writes and process deaths,
    and shows its invariant: the commit window, the journal and the mode. \<open>Mode_Rollback\<close> follows a
    staged transition to its rollback.
  \<^item> \<open>Fleet_Posture\<close>, \<open>Transport_Classifier\<close>: \<open>fleet_posture.ts\<close> and \<open>transport_classifier.ts\<close>;
    when the posture is hub-down, and that both agree on it. The classifier writes through the
    locale \<open>posture_register\<close>, interpreted on the mode machine.
  \<^item> \<open>Canonical_Json\<close>, \<open>Proposal_Queue\<close>, \<open>Queue_Protocol\<close>, \<open>Queue_Properties\<close>: \<open>proposal_queue.ts\<close>.
    A drain is cut at its awaits into segments; the protocol interleaves them with staging, signals,
    window hooks and restarts. The properties: one execution per identity, none inside the window,
    none without fresh agreeing truth, no proposal lost, every drain accounted for.
  \<^item> \<open>Sse_Splitter\<close>, \<open>Sse_Frames\<close>, \<open>Session_Resume\<close>: \<open>sse_frame_splitter.ts\<close>,
    \<open>sse_composite_cursor.ts\<close>, the frame functions of \<open>sse_fanin_aggregator.ts\<close> and
    \<open>session_event_resume.ts\<close>. The splitter refines a reader of single characters (locale
    \<open>frame_reader\<close>); a reconnect neither loses nor repeats a byte (locale \<open>position_table\<close>).
  \<^item> \<open>Sse_Fanin\<close>, \<open>Fanin_Properties\<close>: the class \<open>SseFanInAggregator\<close> and its runs under any
    backpressure: order, counted losses, verbatim fleet of one, resume points.
  \<^item> \<open>Owner_Map\<close>, \<open>Owner_Retention\<close>: the session paths and \<open>SessionOwnerMap\<close> of
    \<open>session_multiplexer.ts\<close>; a refresh refines a three-state automaton per peer.
  \<^item> \<open>Control_Gates\<close>, \<open>Owner_Routing\<close>: \<open>session_creation_target.ts\<close>, \<open>remote_session_state.ts\<close>,
    \<open>remote_write_gate.ts\<close>, \<open>control_gated_routing.ts\<close> and the routers of \<open>session_multiplexer.ts\<close>.
    The locale \<open>fail_closed_gate\<close> states what the gates share and is interpreted on all of them.
  \<^item> \<open>Keyed_Store\<close>: \<open>keyed_store.ts\<close>, with its contract as the locale \<open>keyed_store\<close>; every store
    below is a file of it.
  \<^item> \<open>Fleet_Grants\<close>, \<open>Grant_Lifecycle\<close>: \<open>fleet_control_lifecycle.ts\<close>; its operations refine the
    relation \<open>lifecycle_step\<close>, and a retired credential stays retired.
  \<^item> \<open>Control_Plane\<close>, \<open>Control_Properties\<close>: \<open>fleet_control_request.ts\<close>,
    \<open>fleet_control_bootstrap.ts\<close>, \<open>session_creation_route.ts\<close>, the grant readers of \<open>index.ts\<close> and
    \<open>fleet_lifecycle_authority.ts\<close> of the schema package: no control without submission and
    approval or every management fact, and what is minted opens the gates.
  \<^item> \<open>Trust_Stores\<close>, \<open>Access_Boundary\<close>, \<open>Trust_Properties\<close>: \<open>fleet_enrollment_nonce.ts\<close>,
    \<open>fleet_issued_tokens.ts\<close>, \<open>fleet_peer_store.ts\<close>, \<open>fleet_observe_bootstrap.ts\<close>,
    \<open>fleet_mint_route.ts\<close>, \<open>fleet_accept_set.ts\<close>, \<open>public_ui.ts\<close>, the authorization of
    \<open>server.ts\<close> and \<open>fleet_peer_provider.ts\<close>. The locale \<open>one_shot\<close> (a credential is redeemed once)
    is interpreted on both kinds of nonce and both mint endpoints.
  \<^item> \<open>Peer_Recovery\<close>: the reciprocal bootstrap and \<open>fleet_headless_rehydration.ts\<close>.
  \<^item> \<open>Peer_Transport\<close>, \<open>Peer_Transport_Properties\<close>: \<open>peer_transport_supervisor.ts\<close>; its calls are cut
    at their awaits and resume in any order.
  \<^item> \<open>Fleet_Projection\<close>, \<open>Projection_Properties\<close>: \<open>merged_projection.ts\<close> and
    \<open>trusted_observe_projection.ts\<close>. The merge meets its specification on the concatenated rows,
    no source is dropped and no untrusted one contacted, what the fan-out lists is routed to its
    owner, and what a lost or revoked source last showed is kept or sealed, never made local.
  \<^item> \<open>Session_Status\<close>, \<open>Status_Properties\<close>: \<open>fleet_session_status.ts\<close> and its route in
    \<open>index.ts\<close>: the plan of a status read, the queries and what covers a directory. The queries
    settle in any order (an argument), with the same statuses.
  \<^item> \<open>Hub_Writes\<close>, \<open>Write_Properties\<close>: \<open>hub_credential.ts\<close> and \<open>fleet_writes.ts\<close>: the hub's store
    entry and the one place a fleet write is sent from; what each attempt meets is an argument, and
    every call, refetch, posture outcome and signal is recorded. The outcomes are fed to the
    posture detector.
  \<^item> \<open>Version_Skew\<close>: \<open>fleet_version_skew.ts\<close> of the schema package and of the service: the verdict on
    two versions, the probe of the host and the relay gate.
  \<^item> \<open>Fleet_Roster\<close>, \<open>Roster_Properties\<close>: \<open>fleet_roster.ts\<close>, \<open>roster.ts\<close> and \<open>bind_host.ts\<close>: the row
    parser, the single-writer upsert, identity conflicts and the routes; what a run of reports keeps.
  \<^item> \<open>Fleet_Topology\<close>, \<open>Topology_Properties\<close>: \<open>fleet_projection.ts\<close> and \<open>fleet_config.ts\<close> of the
    schema package, \<open>fleet_topology.ts\<close>, \<open>fleet_fallback.ts\<close> and the base tier of the command line:
    from the membership file to the guard, and the read with its refresh.
  \<^item> \<open>Attachment\<close>, \<open>Attach_Lifecycle\<close>, \<open>Attach_Properties\<close>: \<open>keeper_pointer.ts\<close>,
    \<open>attachment_pointer.ts\<close>, \<open>attachment_credential.ts\<close>, \<open>attach_action.ts\<close>, \<open>attach_lifecycle.ts\<close>,
    the attachment routes of \<open>index.ts\<close> and \<open>boot_attachment_recovery.ts\<close>. The lifecycle's calls are
    cut at their awaits; the routes' properties are about requests one after the other, two
    findings about calls that overlap.
  \<^item> \<open>Hub_Relay\<close>, \<open>App_Shelf\<close>, \<open>Relay_Properties\<close>: \<open>hub_proxy.ts\<close>, \<open>engine_proxy.ts\<close>,
    \<open>local_session_probe.ts\<close> and \<open>app_shelf.ts\<close>. A hop is planned from what its getters answer and then
    runs as a sequence of wire events; the shelf is a function of the disk. One outcome per hop, no
    caller's credential on it, both sockets of a tunnel closed together, nothing read outside the
    root.
  \<^item> \<open>Service_Dispatch\<close>, \<open>Dispatch_Properties\<close>: the request and upgrade dispatch of \<open>server.ts\<close> over
    the boundary, the attachment's resolver, the multiplexer, the observation planes
    (\<open>observation_read_plane.ts\<close>, \<open>observation_write_plane.ts\<close>) and the proxies, with its start and
    stop. Which party answers a request, for a client, an attached machine and an observer.

  \<^bold>\<open>Correspondence.\<close>
  A class is a record of its fields, a method a definition over it that returns the new record;
  names are the source's in snake case, with a suffix where Isabelle has the name. What a class is
  given at construction or reads from outside (clocks, random identifiers, hashes, fetches,
  executors, sinks, transports, grant stores) is an argument, and calls it makes to its listeners
  are recorded in order. Numbers are integers; strings are lists of bytes. The fan-in's buffer
  bound, the retry budget and every window are the code's own parameters; no fuel is used, all
  recursion is structural or has a termination proof.

  \<^bold>\<open>Findings.\<close>
  Where the code departs from its own comments a theorem exhibits it at a concrete input:
  \<open>legacy_record_loses_membership\<close>, \<open>settled_verify_revives_a_rollback\<close>,
  \<open>death_inside_a_resolution_loses_it\<close>, \<open>rollback_on_a_fresh_record_reads_hub_down\<close>,
  \<open>latency_window_survives_the_outage\<close>, \<open>isolated_failures_spend_the_budget\<close>,
  \<open>mixed_line_endings_lose_the_data\<close>, \<open>empty_id_events_are_dropped\<close>,
  \<open>leaving_the_fleet_reorders_frames\<close>, \<open>lapsed_owner_falls_to_local\<close>,
  \<open>issue_undoes_a_pending_revocation\<close>, \<open>letters_of_a_prefix_admit_the_route\<close>,
  \<open>enabling_a_second_peer_drops_the_first\<close>, \<open>denied_request_can_be_approved\<close>,
  \<open>approving_again_replaces_the_token\<close>, \<open>denials_never_name_a_revocation\<close>,
  \<open>bound_nonce_mints_for_any_machine\<close>, \<open>failed_bootstrap_drops_the_held_token\<close>,
  \<open>own_control_grant_never_resumes\<close>, \<open>disconnect_is_undone_by_a_pending_connect\<close>,
  \<open>concurrent_connects_leave_a_forward\<close>, \<open>rotation_leaves_the_forward_running\<close>,
  \<open>failing_connects_never_exhaust\<close>, \<open>observing_revives_a_failed_transport\<close>,
  \<open>gate_stays_open_while_stopping\<close>, \<open>lost_source_keeps_its_last_rows\<close>,
  \<open>revoked_row_turns_unavailable\<close>, \<open>peer_supplied_stamp_rides_through\<close>,
  \<open>api_write_refetches_no_thread\<close>, \<open>blank_component_counts_as_zero\<close>,
  \<open>report_without_key_unpins_it\<close>, \<open>report_blocks_a_peer\<close>, \<open>boot_report_is_lawful\<close>,
  \<open>absent_epoch_reads_fresh\<close>, \<open>failed_refresh_discards_a_readable_cache\<close>,
  \<open>retry_after_a_failed_bind_skips_the_reset\<close>, \<open>failed_attach_moves_the_pointer\<close>,
  \<open>attach_without_alias_reads_malformed\<close>, \<open>overlapping_attaches_leave_a_transport\<close>,
  \<open>detach_during_an_attach_is_lost\<close>, \<open>roster_without_keeper_is_unreachable\<close>,
  \<open>upgrade_dials_a_peer_with_the_hub_credential\<close>, \<open>late_peer_is_served_here\<close>,
  \<open>session_path_without_api_is_served_here\<close>.

  \<^bold>\<open>Not modelled.\<close>
  Sockets, files and child processes beyond their events and contents, the construction of the service
  in \<open>index.ts\<close> beyond the functions named above, the driver of the fan-in, the tunnel and program
  staging, the model catalogue, the VS Code shell, the user interface bundles, the \<open>amico-run\<close> command
  line and the operations scripts.
\<close>

end
